(* ===== verification/Prelude.thy ===== *)
theory Prelude
  imports Main "HOL-Library.Word" "HOL-Library.List_Lexorder" "HOL-Library.Char_ord"
    "HOL-Library.Product_Lexorder" "HOL-Library.Option_ord" "HOL-Library.Multiset"
begin

text \<open>
  The shared base of the development: the machine integers, byte strings and text of the Rust
  sources, fallible computations (\<open>Result\<close> and the question-mark operator) as sums, stateful
  fallible methods (\<open>&mut self\<close> methods that return a \<open>Result\<close>) as programs over an explicit
  state, a small Hoare logic for them, and the generic facts on keyed tables and stable sorting
  that the components share.
\<close>

section \<open>Machine types\<close>

type_synonym u8 = "8 word"
type_synonym u16 = "16 word"
type_synonym u32 = "32 word"
type_synonym u64 = "64 word"

text \<open>
  Timestamps are \<open>i64\<close> in the sources; they are only copied and compared, never computed with,
  so the model takes them as integers.
\<close>

type_synonym i64 = int

type_synonym bytes = "u8 list"

text \<open>
  A Rust \<open>String\<close> is the sequence of its UTF-8 bytes, one \<open>char\<close> each; the order of strings is
  the byte-wise lexicographic order, as for \<open>str\<close>.
\<close>

definition utf8 :: "string \<Rightarrow> bytes" where
  "utf8 s = map (\<lambda>c. word_of_nat (of_char c)) s"

section \<open>Text: trim and ASCII case\<close>

text \<open>
  \<open>str::trim\<close> removes the characters with the Unicode property White\_Space at both ends. As
  UTF-8: the six ASCII ones, and the sequences of U+0085, U+00A0, U+1680, U+2000 to U+200A,
  U+2028, U+2029, U+202F, U+205F and U+3000.
\<close>

definition whitespace_seqs :: "string list" where
  "whitespace_seqs =
     map (map char_of)
       ([[0x09], [0x0A], [0x0B], [0x0C], [0x0D], [0x20], [0xC2, 0x85], [0xC2, 0xA0],
         [0xE1, 0x9A, 0x80]]
        @ map (\<lambda>b. [0xE2, 0x80, b])
            [0x80, 0x81, 0x82, 0x83, 0x84, 0x85, 0x86, 0x87, 0x88, 0x89, 0x8A, 0xA8, 0xA9, 0xAF]
        @ [[0xE2, 0x81, 0x9F], [0xE3, 0x80, 0x80 :: nat]])"

definition strip_one :: "string list \<Rightarrow> string \<Rightarrow> string option" where
  "strip_one seqs s =
     map_option (\<lambda>w. drop (length w) s) (find (\<lambda>w. w \<noteq> [] \<and> take (length w) s = w) seqs)"

lemma strip_one_shorter: "strip_one seqs s = Some t \<Longrightarrow> length t < length s"
proof -
  assume "strip_one seqs s = Some t"
  then obtain w where w: "w \<noteq> []" "take (length w) s = w" and t: "t = drop (length w) s"
    by (auto simp: strip_one_def find_Some_iff)
  from w have "0 < length w" "length w \<le> length s"
    by (simp, metis nat_le_linear take_all)
  with t show ?thesis by (simp del: length_greater_0_conv)
qed

function strip_all :: "string list \<Rightarrow> string \<Rightarrow> string" where
  "strip_all seqs s = (case strip_one seqs s of None \<Rightarrow> s | Some t \<Rightarrow> strip_all seqs t)"
  by pat_completeness auto
termination
  by (relation "measure (\<lambda>(seqs, s). length s)") (auto dest: strip_one_shorter)

declare strip_all.simps [simp del]

definition trim_start :: "string \<Rightarrow> string" where
  "trim_start s = strip_all whitespace_seqs s"

definition trim_end :: "string \<Rightarrow> string" where
  "trim_end s = rev (strip_all (map rev whitespace_seqs) (rev s))"

definition trim :: "string \<Rightarrow> string" where
  "trim s = trim_end (trim_start s)"

lemma whitespace_bytes:
  "list_all (\<lambda>w. w \<noteq> [] \<and> (of_char (hd w) < (33::nat) \<or> 126 < (of_char (hd w) :: nat))
       \<and> (of_char (last w) < (33::nat) \<or> 126 < (of_char (last w) :: nat))) whitespace_seqs"
  by (simp add: whitespace_seqs_def)

lemma strip_all_id:
  assumes "s \<noteq> []" and "\<And>w. w \<in> set seqs \<Longrightarrow> w \<noteq> [] \<and> hd w \<noteq> hd s"
  shows "strip_all seqs s = s"
proof -
  have "take (length w) s \<noteq> w" if "w \<in> set seqs" for w
  proof
    assume "take (length w) s = w"
    moreover from assms(1) assms(2) [OF that] have "hd (take (length w) s) = hd s" by simp
    ultimately show False using assms(2) [OF that] by simp
  qed
  then have "strip_one seqs s = None"
    by (auto simp: strip_one_def find_None_iff)
  then show ?thesis by (simp add: strip_all.simps)
qed

text \<open>A text that starts and ends with visible ASCII characters is not changed by \<open>trim\<close>.\<close>

lemma trim_visible:
  assumes "s \<noteq> []" and "33 \<le> (of_char (hd s) :: nat)" "of_char (hd s) \<le> (126 :: nat)"
    and "33 \<le> (of_char (last s) :: nat)" "of_char (last s) \<le> (126 :: nat)"
  shows "trim s = s"
proof -
  have "trim_start s = s"
    unfolding trim_start_def using assms whitespace_bytes
    by (intro strip_all_id) (auto simp: list_all_iff dest!: bspec)
  moreover have "trim_end s = s"
  proof -
    have "strip_all (map rev whitespace_seqs) (rev s) = rev s"
      using assms whitespace_bytes
      by (intro strip_all_id) (auto simp: list_all_iff hd_rev dest!: bspec)
    then show ?thesis by (simp add: trim_end_def)
  qed
  ultimately show ?thesis by (simp add: trim_def)
qed

definition to_ascii_lower :: "char \<Rightarrow> char" where
  "to_ascii_lower c =
     (let n = (of_char c :: nat) in if 65 \<le> n \<and> n \<le> 90 then char_of (n + 32) else c)"

definition eq_ignore_ascii_case :: "string \<Rightarrow> string \<Rightarrow> bool" where
  "eq_ignore_ascii_case s t \<longleftrightarrow> map to_ascii_lower s = map to_ascii_lower t"

lemma eq_ignore_ascii_case_refl [simp]: "eq_ignore_ascii_case s s"
  by (simp add: eq_ignore_ascii_case_def)

lemma eq_ignore_ascii_case_sym: "eq_ignore_ascii_case s t \<Longrightarrow> eq_ignore_ascii_case t s"
  by (simp add: eq_ignore_ascii_case_def)

lemma eq_ignore_ascii_case_trans:
  "eq_ignore_ascii_case s t \<Longrightarrow> eq_ignore_ascii_case t u \<Longrightarrow> eq_ignore_ascii_case s u"
  by (simp add: eq_ignore_ascii_case_def)

section \<open>Rust orderings\<close>

datatype ordering = Less | Equal | Greater

definition cmp :: "'a::linorder \<Rightarrow> 'a \<Rightarrow> ordering" where
  "cmp x y = (if x < y then Less else if x = y then Equal else Greater)"

definition then_with :: "ordering \<Rightarrow> ordering \<Rightarrow> ordering" where
  "then_with a b = (case a of Equal \<Rightarrow> b | _ \<Rightarrow> a)"

definition is_le :: "ordering \<Rightarrow> bool" where
  "is_le a \<longleftrightarrow> a \<noteq> Greater"

lemma is_le_cmp [simp]: "is_le (cmp x y) \<longleftrightarrow> x \<le> y"
  by (auto simp: is_le_def cmp_def)

text \<open>A chain of \<open>then_with\<close> is the comparison of the tuples of keys, lexicographically.\<close>

lemma then_with_cmp [simp]: "then_with (cmp a b) (cmp c d) = cmp (a, c) (b, d)"
  by (auto simp: then_with_def cmp_def less_prod_def)

section \<open>Fallible values\<close>

text \<open>\<open>Result\<close> is a sum with the error on the left; \<open>and_then_r\<close> is the question mark.\<close>

definition and_then_r :: "'e + 'a \<Rightarrow> ('a \<Rightarrow> 'e + 'b) \<Rightarrow> 'e + 'b" where
  "and_then_r r f = (case r of Inl e \<Rightarrow> Inl e | Inr x \<Rightarrow> f x)"

lemma and_then_r_simps [simp]:
  "and_then_r (Inl e) f = Inl e"
  "and_then_r (Inr x) f = f x"
  by (simp_all add: and_then_r_def)

lemma and_then_r_Inr: "and_then_r r f = Inr y \<longleftrightarrow> (\<exists>x. r = Inr x \<and> f x = Inr y)"
  by (cases r) auto

definition ok_or :: "'a option \<Rightarrow> 'e \<Rightarrow> 'e + 'a" where
  "ok_or x e = (case x of None \<Rightarrow> Inl e | Some y \<Rightarrow> Inr y)"

lemma ok_or_simps [simp]:
  "ok_or None e = Inl e"
  "ok_or (Some x) e = Inr x"
  by (simp_all add: ok_or_def)

lemma ok_or_Inr [simp]: "ok_or x e = Inr y \<longleftrightarrow> x = Some y"
  by (cases x) auto

lemma ok_or_Inl [simp]: "ok_or x e = Inl e' \<longleftrightarrow> x = None \<and> e' = e"
  by (cases x) auto

definition ok_opt :: "'e + 'a \<Rightarrow> 'a option" where
  "ok_opt r = (case r of Inl _ \<Rightarrow> None | Inr x \<Rightarrow> Some x)"

lemma ok_opt_simps [simp]:
  "ok_opt (Inl e) = None"
  "ok_opt (Inr x) = Some x"
  by (simp_all add: ok_opt_def)

text \<open>\<open>Iterator::map(..).collect::<Result<Vec<_>, _>>()\<close>: the first error ends the iteration.\<close>

fun try_map :: "('a \<Rightarrow> 'e + 'b) \<Rightarrow> 'a list \<Rightarrow> 'e + 'b list" where
  "try_map f [] = Inr []"
| "try_map f (x # xs) = and_then_r (f x) (\<lambda>y. and_then_r (try_map f xs) (\<lambda>ys. Inr (y # ys)))"

lemma try_map_Inr_iff: "try_map f xs = Inr ys \<longleftrightarrow> list_all2 (\<lambda>x y. f x = Inr y) xs ys"
  by (induction xs arbitrary: ys) (auto simp: and_then_r_Inr list_all2_Cons1)

lemma try_map_all_Inr: "(\<And>x. x \<in> set xs \<Longrightarrow> f x = Inr (g x)) \<Longrightarrow> try_map f xs = Inr (map g xs)"
  by (induction xs) auto

lemma try_map_Inl: "try_map f xs = Inl e \<Longrightarrow> \<exists>x\<in>set xs. f x = Inl e"
proof (induction xs)
  case (Cons x xs)
  then show ?case by (cases "f x"; cases "try_map f xs") auto
qed simp

lemma try_map_length: "try_map f xs = Inr ys \<Longrightarrow> length ys = length xs"
  by (auto simp: try_map_Inr_iff dest: list_all2_lengthD)

lemma try_map_cong [fundef_cong]:
  "xs = ys \<Longrightarrow> (\<And>x. x \<in> set ys \<Longrightarrow> f x = g x) \<Longrightarrow> try_map f xs = try_map g ys"
  by (induction ys arbitrary: xs) auto

text \<open>A loop over a list whose body may return early with an error.\<close>

fun for_each :: "('a \<Rightarrow> 'e + unit) \<Rightarrow> 'a list \<Rightarrow> 'e + unit" where
  "for_each f [] = Inr ()"
| "for_each f (x # xs) = and_then_r (f x) (\<lambda>_. for_each f xs)"

lemma for_each_Inr: "for_each f xs = Inr u \<longleftrightarrow> (\<forall>x\<in>set xs. f x = Inr ())"
  by (induction xs) (auto simp: and_then_r_Inr)

lemma for_each_Inl: "for_each f xs = Inl e \<Longrightarrow> \<exists>x\<in>set xs. f x = Inl e"
proof (induction xs)
  case (Cons x xs)
  then show ?case by (cases "f x") auto
qed simp

section \<open>Stateful fallible programs\<close>

text \<open>
  A method that may change the state and may fail. The state after an error is part of the
  result: nothing is rolled back unless the code does it.
\<close>

type_synonym ('s, 'e, 'a) prog = "'s \<Rightarrow> ('e + 'a) \<times> 's"

definition ok :: "'a \<Rightarrow> ('s, 'e, 'a) prog" where
  "ok x s = (Inr x, s)"

definition fail :: "'e \<Rightarrow> ('s, 'e, 'a) prog" where
  "fail e s = (Inl e, s)"

definition and_then :: "('s, 'e, 'a) prog \<Rightarrow> ('a \<Rightarrow> ('s, 'e, 'b) prog) \<Rightarrow> ('s, 'e, 'b) prog" where
  "and_then m f s = (case m s of (Inl e, t) \<Rightarrow> (Inl e, t) | (Inr x, t) \<Rightarrow> f x t)"

text \<open>A read of the state that may fail, and an update that cannot.\<close>

definition reads :: "('s \<Rightarrow> 'e + 'a) \<Rightarrow> ('s, 'e, 'a) prog" where
  "reads f s = (f s, s)"

definition modify :: "('s \<Rightarrow> 's) \<Rightarrow> ('s, 'e, unit) prog" where
  "modify f s = (Inr (), f s)"

text \<open>A result that does not touch the state, and the early return \<open>if c { return Err(e) }\<close>.\<close>

definition lift_r :: "'e + 'a \<Rightarrow> ('s, 'e, 'a) prog" where
  "lift_r r s = (r, s)"

definition fail_if :: "bool \<Rightarrow> 'e \<Rightarrow> ('s, 'e, unit) prog" where
  "fail_if c e = (if c then fail e else ok ())"

text \<open>Discarding the result of a call, as \<open>let _ = ...;\<close> does: the state change stays.\<close>

definition ignore :: "('s, 'e, 'a) prog \<Rightarrow> ('s, 'f, unit) prog" where
  "ignore m s = (Inr (), snd (m s))"

text \<open>Running a program on one field of the state.\<close>

definition on_part :: "('s \<Rightarrow> 't) \<Rightarrow> ('t \<Rightarrow> 's \<Rightarrow> 's) \<Rightarrow> ('t, 'e, 'a) prog \<Rightarrow> ('s, 'e, 'a) prog" where
  "on_part get put m s = (case m (get s) of (r, t) \<Rightarrow> (r, put t s))"

fun for_all :: "('a \<Rightarrow> ('s, 'e, unit) prog) \<Rightarrow> 'a list \<Rightarrow> ('s, 'e, unit) prog" where
  "for_all f [] = ok ()"
| "for_all f (x # xs) = and_then (f x) (\<lambda>_. for_all f xs)"

lemma prog_simps [simp]:
  "ok x s = (Inr x, s)"
  "fail e s = (Inl e, s)"
  "reads f s = (f s, s)"
  "modify g s = (Inr (), g s)"
  "lift_r r s = (r, s)"
  "fail_if c e s = (if c then (Inl e, s) else (Inr (), s))"
  "ignore m s = (Inr (), snd (m s))"
  by (simp_all add: ok_def fail_def reads_def modify_def lift_r_def fail_if_def ignore_def)

lemma and_then_Inr [simp]: "m s = (Inr x, t) \<Longrightarrow> and_then m f s = f x t"
  by (simp add: and_then_def)

lemma and_then_Inl [simp]: "m s = (Inl e, t) \<Longrightarrow> and_then m f s = (Inl e, t)"
  by (simp add: and_then_def)

lemma and_then_eq_Inr:
  "and_then m f s = (Inr y, u) \<longleftrightarrow> (\<exists>x t. m s = (Inr x, t) \<and> f x t = (Inr y, u))"
  by (auto simp: and_then_def split: prod.splits sum.splits)

lemma and_then_eq_Inl:
  "and_then m f s = (Inl e, u) \<longleftrightarrow>
     m s = (Inl e, u) \<or> (\<exists>x t. m s = (Inr x, t) \<and> f x t = (Inl e, u))"
  by (auto simp: and_then_def split: prod.splits sum.splits)

lemma on_part_eq:
  "on_part get put m s = (r, u) \<longleftrightarrow> (\<exists>t. m (get s) = (r, t) \<and> u = put t s)"
  by (auto simp: on_part_def split: prod.splits)

subsection \<open>A Hoare logic for programs\<close>

text \<open>
  \<open>triple P m Q E\<close>: from a state with \<open>P\<close>, a normal return satisfies \<open>Q\<close> and an error return
  satisfies \<open>E\<close>. \<open>keeps P m\<close>: \<open>P\<close> survives the call, whether it fails or not.
\<close>

definition triple ::
  "('s \<Rightarrow> bool) \<Rightarrow> ('s, 'e, 'a) prog \<Rightarrow> ('a \<Rightarrow> 's \<Rightarrow> bool) \<Rightarrow> ('e \<Rightarrow> 's \<Rightarrow> bool) \<Rightarrow> bool" where
  "triple P m Q E \<longleftrightarrow>
     (\<forall>s. P s \<longrightarrow> (case m s of (Inl e, t) \<Rightarrow> E e t | (Inr x, t) \<Rightarrow> Q x t))"

definition keeps :: "('s \<Rightarrow> bool) \<Rightarrow> ('s, 'e, 'a) prog \<Rightarrow> bool" where
  "keeps P m \<longleftrightarrow> (\<forall>s. P s \<longrightarrow> P (snd (m s)))"

named_theorems wp \<open>rules of the Hoare logic, one per program former or operation\<close>
named_theorems keeps_rules \<open>preservation lemmas, one per program former or operation\<close>

lemma triple_ok [wp]: "(\<And>s. P s \<Longrightarrow> Q x s) \<Longrightarrow> triple P (ok x) Q E"
  by (simp add: triple_def)

lemma triple_and_then [wp]:
  "triple P m R E \<Longrightarrow> (\<And>x. triple (R x) (f x) Q E) \<Longrightarrow> triple P (and_then m f) Q E"
  by (fastforce simp: triple_def and_then_def split: prod.splits sum.splits)

lemma triple_conseq:
  "triple P m Q E \<Longrightarrow> (\<And>s. P' s \<Longrightarrow> P s) \<Longrightarrow> (\<And>x s. Q x s \<Longrightarrow> Q' x s) \<Longrightarrow> (\<And>e s. E e s \<Longrightarrow> E' e s)
   \<Longrightarrow> triple P' m Q' E'"
  by (fastforce simp: triple_def split: prod.splits sum.splits)

lemma tripleD_Inr: "triple P m Q E \<Longrightarrow> P s \<Longrightarrow> m s = (Inr x, t) \<Longrightarrow> Q x t"
  by (fastforce simp: triple_def)

lemma tripleD_Inl: "triple P m Q E \<Longrightarrow> P s \<Longrightarrow> m s = (Inl e, t) \<Longrightarrow> E e t"
  by (fastforce simp: triple_def)

lemma keeps_triple: "keeps P m \<longleftrightarrow> triple P m (\<lambda>_. P) (\<lambda>_. P)"
proof -
  have "(case m s of (Inl e, t) \<Rightarrow> P t | (Inr x, t) \<Rightarrow> P t) \<longleftrightarrow> P (snd (m s))" for s
    by (auto split: prod.splits sum.splits)
  then show ?thesis by (simp add: keeps_def triple_def)
qed

lemma keepsI: "(\<And>s. P s \<Longrightarrow> P (snd (m s))) \<Longrightarrow> keeps P m"
  by (simp add: keeps_def)

lemma keepsD: "keeps P m \<Longrightarrow> P s \<Longrightarrow> P (snd (m s))"
  by (simp add: keeps_def)

lemma keeps_eq: "keeps P m \<Longrightarrow> P s \<Longrightarrow> m s = (r, t) \<Longrightarrow> P t"
  by (drule (1) keepsD) simp

lemma keeps_pure [keeps_rules, simp]:
  "keeps P (ok x)" "keeps P (fail e)" "keeps P (reads f)" "keeps P (lift_r r)" "keeps P (fail_if c e)"
  by (simp_all add: keeps_def)

lemma keeps_and_then [keeps_rules]:
  "keeps P m \<Longrightarrow> (\<And>x. keeps P (f x)) \<Longrightarrow> keeps P (and_then m f)"
  unfolding keeps_triple by (rule triple_and_then)

lemma keeps_ignore [keeps_rules]: "keeps P m \<Longrightarrow> keeps P (ignore m)"
  by (simp add: keeps_def)

lemma keeps_modify: "(\<And>s. P s \<Longrightarrow> P (g s)) \<Longrightarrow> keeps P (modify g)"
  by (simp add: keeps_def)

lemma keeps_for_all [keeps_rules]: "(\<And>x. keeps P (f x)) \<Longrightarrow> keeps P (for_all f xs)"
  by (induction xs) (auto intro: keeps_rules)

lemma keeps_if [keeps_rules]: "keeps P m \<Longrightarrow> keeps P n \<Longrightarrow> keeps P (if b then m else n)"
  by simp

lemma keeps_case_option [keeps_rules]:
  "keeps P m \<Longrightarrow> (\<And>x. keeps P (f x)) \<Longrightarrow> keeps P (case y of None \<Rightarrow> m | Some x \<Rightarrow> f x)"
  by (cases y) auto

lemma keeps_case_sum [keeps_rules]:
  "(\<And>x. keeps P (f x)) \<Longrightarrow> (\<And>x. keeps P (g x)) \<Longrightarrow> keeps P (case y of Inl x \<Rightarrow> f x | Inr x \<Rightarrow> g x)"
  by (cases y) auto

section \<open>Keyed tables\<close>

text \<open>
  A table with a primary key, as the list of its rows in insertion (rowid) order.
  \<open>INSERT .. ON CONFLICT(key) DO UPDATE\<close> replaces the row in place: \<open>merge old new\<close> says which
  columns the update writes.
\<close>

definition lookup_row :: "('r \<Rightarrow> 'k) \<Rightarrow> 'k \<Rightarrow> 'r list \<Rightarrow> 'r option" where
  "lookup_row key k rows = find (\<lambda>r. key r = k) rows"

definition upsert_row :: "('r \<Rightarrow> 'k) \<Rightarrow> ('r \<Rightarrow> 'r \<Rightarrow> 'r) \<Rightarrow> 'r \<Rightarrow> 'r list \<Rightarrow> 'r list" where
  "upsert_row key merge r rows =
     (if list_ex (\<lambda>x. key x = key r) rows
      then map (\<lambda>x. if key x = key r then merge x r else x) rows
      else rows @ [r])"

definition delete_row :: "('r \<Rightarrow> 'k) \<Rightarrow> 'k \<Rightarrow> 'r list \<Rightarrow> 'r list" where
  "delete_row key k rows = filter (\<lambda>r. key r \<noteq> k) rows"

lemma lookup_row_Nil [simp]: "lookup_row key k [] = None"
  by (simp add: lookup_row_def)

lemma lookup_row_Cons [simp]:
  "lookup_row key k (r # rows) = (if key r = k then Some r else lookup_row key k rows)"
  by (simp add: lookup_row_def)

lemma lookup_row_append:
  "lookup_row key k (xs @ ys) = (case lookup_row key k xs of None \<Rightarrow> lookup_row key k ys | Some r \<Rightarrow> Some r)"
  by (induction xs) auto

lemma lookup_row_Some: "lookup_row key k rows = Some r \<Longrightarrow> r \<in> set rows \<and> key r = k"
  by (induction rows) (auto split: if_splits)

lemma lookup_row_None: "lookup_row key k rows = None \<longleftrightarrow> (\<forall>r\<in>set rows. key r \<noteq> k)"
  by (induction rows) auto

lemma lookup_row_iff:
  "distinct (map key rows) \<Longrightarrow> lookup_row key k rows = Some r \<longleftrightarrow> r \<in> set rows \<and> key r = k"
  by (induction rows) (auto split: if_splits simp: image_iff)

lemma lookup_delete_row:
  "lookup_row key j (delete_row key k rows) = (if j = k then None else lookup_row key j rows)"
  by (induction rows) (auto simp: delete_row_def)

text \<open>The laws a table's merge has to satisfy, and what every such table then gives its clients.\<close>

locale keyed_table =
  fixes key :: "'r \<Rightarrow> 'k" and merge :: "'r \<Rightarrow> 'r \<Rightarrow> 'r"
  assumes key_merge: "key old = key new \<Longrightarrow> key (merge old new) = key new"
begin

lemma keys_replace:
  "map key (map (\<lambda>x. if key x = key r then merge x r else x) rows) = map key rows"
  by (induction rows) (auto simp: key_merge)

lemma distinct_upsert: "distinct (map key rows) \<Longrightarrow> distinct (map key (upsert_row key merge r rows))"
  by (auto simp: upsert_row_def keys_replace list_ex_iff simp del: map_map)

lemma keys_upsert: "key ` set (upsert_row key merge r rows) = insert (key r) (key ` set rows)"
proof (cases "list_ex (\<lambda>x. key x = key r) rows")
  case True
  then have "map key (upsert_row key merge r rows) = map key rows"
    unfolding upsert_row_def using keys_replace [of r rows] by (simp only: if_True)
  then have "key ` set (upsert_row key merge r rows) = key ` set rows"
    by (metis set_map)
  moreover from True have "key r \<in> key ` set rows"
    by (auto simp: list_ex_iff intro: rev_image_eqI)
  ultimately show ?thesis by auto
qed (auto simp: upsert_row_def)

lemma lookup_replace:
  "lookup_row key k (map (\<lambda>x. if key x = key r then merge x r else x) rows) =
     (if k = key r then map_option (\<lambda>x. merge x r) (lookup_row key k rows)
      else lookup_row key k rows)"
  by (induction rows) (auto simp: key_merge)

lemma lookup_upsert_same:
  "lookup_row key (key r) (upsert_row key merge r rows) =
     Some (case lookup_row key (key r) rows of None \<Rightarrow> r | Some old \<Rightarrow> merge old r)"
proof (cases "list_ex (\<lambda>x. key x = key r) rows")
  case True
  then obtain old where "lookup_row key (key r) rows = Some old"
    by (cases "lookup_row key (key r) rows") (auto simp: lookup_row_None list_ex_iff)
  with True show ?thesis by (simp add: upsert_row_def lookup_replace)
next
  case False
  then have "lookup_row key (key r) rows = None"
    by (auto simp: lookup_row_None list_ex_iff)
  with False show ?thesis by (simp add: upsert_row_def lookup_row_append)
qed

lemma lookup_upsert_other:
  "k \<noteq> key r \<Longrightarrow> lookup_row key k (upsert_row key merge r rows) = lookup_row key k rows"
  by (auto simp: upsert_row_def lookup_replace lookup_row_append split: option.split)

end

end
