(* ===== verification/Vault_Model.thy ===== *)
theory Vault_Model
  imports Prelude
begin

text \<open>
  The data of the encrypted vault, after \<^verbatim>\<open>seance-vault/src/model.rs\<close>, the KDF parameters
  of \<^verbatim>\<open>kdf.rs\<close> and the error enum of \<^verbatim>\<open>lib.rs\<close>: one record per struct (its fields with
  a two-letter prefix, since field names are global here), one datatype per enum, the text
  encodings of the record kind and the sync state, and the summary projections.
\<close>

section \<open>Record kinds and sync states\<close>

datatype record_kind = KHost | KPasswordCredential | KPrivateKey | KSnippet | KPortForward

fun kind_as_str :: "record_kind \<Rightarrow> string" where
  "kind_as_str KHost = ''host''"
| "kind_as_str KPasswordCredential = ''password_credential''"
| "kind_as_str KPrivateKey = ''private_key''"
| "kind_as_str KSnippet = ''snippet''"
| "kind_as_str KPortForward = ''port_forward''"

definition kind_from_str :: "string \<Rightarrow> record_kind option" where
  "kind_from_str value =
     (if value = ''host'' then Some KHost
      else if value = ''password_credential'' then Some KPasswordCredential
      else if value = ''private_key'' then Some KPrivateKey
      else if value = ''snippet'' then Some KSnippet
      else if value = ''port_forward'' then Some KPortForward
      else None)"

datatype record_sync_state = Pending | Synced

fun sync_as_str :: "record_sync_state \<Rightarrow> string" where
  "sync_as_str Pending = ''pending''"
| "sync_as_str Synced = ''synced''"

definition sync_from_str :: "string \<Rightarrow> record_sync_state option" where
  "sync_from_str value =
     (if value = ''pending'' then Some Pending
      else if value = ''synced'' then Some Synced
      else None)"

lemma kind_from_as_str [simp]: "kind_from_str (kind_as_str k) = Some k"
  by (cases k) (simp_all add: kind_from_str_def)

lemma sync_from_as_str [simp]: "sync_from_str (sync_as_str s) = Some s"
  by (cases s) (simp_all add: sync_from_str_def)

lemma kind_as_str_inject [simp]: "kind_as_str k = kind_as_str k' \<longleftrightarrow> k = k'"
  using kind_from_as_str by (metis option.inject)

section \<open>Header, recovery bundle, enrollment, records\<close>

record kdf_params =
  kd_salt :: bytes
  kd_memory_kib :: u32
  kd_iterations :: u32
  kd_parallelism :: u32

record vault_header =
  vh_vault_id :: string
  vh_schema_version :: u32
  vh_cipher :: string
  vh_recovery_kdf :: kdf_params
  vh_created_at :: i64
  vh_updated_at :: i64
  vh_last_logical_clock :: u64

record recovery_bundle =
  rb_bundle_id :: string
  rb_params :: kdf_params
  rb_wrapping_nonce :: bytes
  rb_wrapped_master_key :: bytes
  rb_created_at :: i64
  rb_updated_at :: i64

record device_enrollment =
  de_device_id :: string
  de_device_name :: string
  de_wrapping_nonce :: bytes
  de_wrapped_master_key :: bytes
  de_created_at :: i64
  de_last_used_at :: i64
  de_revoked_at :: "i64 option"

record encrypted_record =
  er_record_id :: string
  er_kind :: record_kind
  er_version :: u32
  er_logical_clock :: u64
  er_modified_at :: i64
  er_deleted_at :: "i64 option"
  er_key_nonce :: bytes
  er_wrapped_record_key :: bytes
  er_payload_nonce :: bytes
  er_payload_ciphertext :: bytes
  er_last_synced_clock :: "u64 option"
  er_sync_state :: record_sync_state

record vault_delta_record =
  dr_record_id :: string
  dr_kind :: record_kind
  dr_version :: u32
  dr_logical_clock :: u64
  dr_modified_at :: i64
  dr_deleted_at :: "i64 option"
  dr_key_nonce :: bytes
  dr_wrapped_record_key :: bytes
  dr_payload_nonce :: bytes
  dr_payload_ciphertext :: bytes

record sync_cursor =
  sc_logical_clock :: u64

record vault_snapshot =
  vs_header :: vault_header
  vs_recovery_bundle :: recovery_bundle
  vs_device_enrollments :: "device_enrollment list"
  vs_records :: "vault_delta_record list"

record vault_delta =
  vd_vault_id :: string
  vd_from_clock :: u64
  vd_to_clock :: u64
  vd_records :: "vault_delta_record list"

record apply_delta_report =
  ar_applied_records :: nat
  ar_skipped_records :: nat
  ar_new_cursor :: sync_cursor

definition VAULT_SCHEMA_VERSION :: u32 where
  "VAULT_SCHEMA_VERSION = 1"

definition RECORD_SCHEMA_VERSION :: u32 where
  "RECORD_SCHEMA_VERSION = 1"

section \<open>Payloads and their summaries\<close>

datatype host_auth_ref =
    AuthPassword string
  | AuthPrivateKey string "string option"

record vault_host_profile =
  ho_id :: string
  ho_label :: string
  ho_hostname :: string
  ho_port :: u16
  ho_username :: string
  ho_notes :: "string option"
  ho_auth_order :: "host_auth_ref list"

datatype port_forward_mode = LocalForward | RemoteForward

record vault_port_forward_profile =
  pf_id :: string
  pf_host_id :: string
  pf_label :: string
  pf_mode :: port_forward_mode
  pf_listen_address :: string
  pf_listen_port :: u16
  pf_target_address :: string
  pf_target_port :: u16
  pf_notes :: "string option"

record vault_password_credential =
  cr_id :: string
  cr_label :: string
  cr_username_hint :: "string option"
  cr_secret :: string

datatype private_key_algorithm = Ed25519 | Rsa u32

datatype private_key_source = Imported | Generated

record vault_private_key =
  pk_id :: string
  pk_label :: string
  pk_algorithm :: private_key_algorithm
  pk_public_key_openssh :: string
  pk_private_key_pem :: string
  pk_encrypted_at_rest :: bool
  pk_source :: private_key_source

datatype generate_key_algorithm = GenEd25519 | GenRsa u32

record generate_key_request =
  gk_label :: string
  gk_algorithm :: generate_key_algorithm

record import_key_request =
  ik_label :: string
  ik_private_key_pem :: string

record host_auth_summary =
  ha_host_id :: string
  ha_host_label :: string
  ha_auth_order :: "host_auth_ref list"

record host_summary =
  hs_id :: string
  hs_label :: string
  hs_hostname :: string
  hs_port :: u16
  hs_username :: string
  hs_modified_at :: i64

record credential_summary =
  cs_id :: string
  cs_label :: string
  cs_username_hint :: "string option"
  cs_modified_at :: i64

record key_summary =
  ks_id :: string
  ks_label :: string
  ks_algorithm :: private_key_algorithm
  ks_encrypted_at_rest :: bool
  ks_source :: private_key_source
  ks_modified_at :: i64

record port_forward_summary =
  ps_id :: string
  ps_host_id :: string
  ps_label :: string
  ps_mode :: port_forward_mode
  ps_listen_address :: string
  ps_listen_port :: u16
  ps_target_address :: string
  ps_target_port :: u16
  ps_modified_at :: i64

definition host_summary_of :: "vault_host_profile \<Rightarrow> i64 \<Rightarrow> host_summary" where
  "host_summary_of h modified_at =
     \<lparr>hs_id = ho_id h, hs_label = ho_label h, hs_hostname = ho_hostname h, hs_port = ho_port h,
      hs_username = ho_username h, hs_modified_at = modified_at\<rparr>"

definition auth_summary :: "vault_host_profile \<Rightarrow> host_auth_summary" where
  "auth_summary h =
     \<lparr>ha_host_id = ho_id h, ha_host_label = ho_label h, ha_auth_order = ho_auth_order h\<rparr>"

definition credential_summary_of :: "vault_password_credential \<Rightarrow> i64 \<Rightarrow> credential_summary" where
  "credential_summary_of c modified_at =
     \<lparr>cs_id = cr_id c, cs_label = cr_label c, cs_username_hint = cr_username_hint c,
      cs_modified_at = modified_at\<rparr>"

definition key_summary_of :: "vault_private_key \<Rightarrow> i64 \<Rightarrow> key_summary" where
  "key_summary_of k modified_at =
     \<lparr>ks_id = pk_id k, ks_label = pk_label k, ks_algorithm = pk_algorithm k,
      ks_encrypted_at_rest = pk_encrypted_at_rest k, ks_source = pk_source k,
      ks_modified_at = modified_at\<rparr>"

definition port_forward_summary_of :: "vault_port_forward_profile \<Rightarrow> i64 \<Rightarrow> port_forward_summary" where
  "port_forward_summary_of p modified_at =
     \<lparr>ps_id = pf_id p, ps_host_id = pf_host_id p, ps_label = pf_label p, ps_mode = pf_mode p,
      ps_listen_address = pf_listen_address p, ps_listen_port = pf_listen_port p,
      ps_target_address = pf_target_address p, ps_target_port = pf_target_port p,
      ps_modified_at = modified_at\<rparr>"

definition delta_record_of :: "encrypted_record \<Rightarrow> vault_delta_record" where
  "delta_record_of r =
     \<lparr>dr_record_id = er_record_id r, dr_kind = er_kind r, dr_version = er_version r,
      dr_logical_clock = er_logical_clock r, dr_modified_at = er_modified_at r,
      dr_deleted_at = er_deleted_at r, dr_key_nonce = er_key_nonce r,
      dr_wrapped_record_key = er_wrapped_record_key r, dr_payload_nonce = er_payload_nonce r,
      dr_payload_ciphertext = er_payload_ciphertext r\<rparr>"

section \<open>Status, unlock methods and errors\<close>

record vault_status =
  st_initialized :: bool
  st_unlocked :: bool
  st_vault_path :: string
  st_device_unlock_available :: bool
  st_device_unlock_message :: "string option"

datatype unlock_method = UnlockDevice | UnlockPassphrase

datatype device_secret_error =
    Backend string
  | MissingSecret
  | UnavailableInThisBuild

text \<open>
  What \<open>rusqlite\<close> reports for the statements of \<^verbatim>\<open>storage.rs\<close>: a constraint violation, a
  \<open>query_row\<close> without a row, a value that does not fit an SQLite integer, a column that does
  not convert back. Other failures of the engine (a full disk, a locked file) are one further
  constructor that \<open>open\<close> can carry.
\<close>

datatype sql_error =
    ConstraintViolation
  | QueryReturnedNoRows
  | ToSqlConversionFailure
  | FromSqlConversionFailure nat string
  | SqliteFailure string

datatype vault_error =
    Database sql_error
  | Io string
  | Serialization string
  | DeviceSecret device_secret_error
  | SshKey string
  | PassphraseDerivationFailed string
  | InvalidKdfConfig string
  | EncryptionFailed
  | DecryptionFailed
  | CipherInitFailed
  | VaultNotInitialized
  | VaultAlreadyInitialized
  | VaultLocked
  | InvalidKeyLength nat nat
  | InvalidNonceLength nat nat
  | UnsupportedSchemaVersion u32
  | CorruptVault string
  | EmptyPassphrase
  | EmptyHostLabel
  | EmptyHostName
  | EmptyHostUser
  | EmptyCredentialLabel
  | EmptyCredentialSecret
  | EmptyPrivateKeyLabel
  | EmptyPrivateKey
  | EmptyPortForwardLabel
  | EmptyPortForwardHostReference
  | EmptyPortForwardListenAddress
  | EmptyPortForwardTargetAddress
  | InvalidPortForwardPort
  | MissingCredentialReference string
  | MissingPrivateKeyReference string
  | MissingHostReference string
  | UnsupportedPrivateKeyAlgorithm
  | CredentialInUse string string
  | PrivateKeyInUse string string
  | HostInUseByPortForward string string
  | DuplicatePortForwardListenEndpoint string string string u16
  | SyncBootstrapRequired
  | SnapshotRequiresUninitializedVault
  | VaultIdMismatch string string
  | DeltaOutOfOrder u64 u64

end
