(* ===== verification/Vault_Crypto.thy ===== *)
theory Vault_Crypto
  imports Vault_Model
begin

text \<open>
  \<^verbatim>\<open>seance-vault/src/crypto.rs\<close>, \<^verbatim>\<open>kdf.rs\<close> and the associated-data strings and key
  inspection helpers of \<^verbatim>\<open>lib.rs\<close>. The cipher, the password hash, JSON, base64, OpenSSH
  key parsing, the operating system's random generator and clock, and the platform's key store
  are not part of the repository: they are the fields of an environment, an argument of every
  definition that uses them.
\<close>

section \<open>The environment\<close>

text \<open>
  \<open>serde_json::to_vec\<close> and \<open>from_slice\<close> at one payload type.
\<close>

record 'a codec =
  to_json :: "'a \<Rightarrow> string + bytes"
  of_json :: "bytes \<Rightarrow> string + 'a"

text \<open>
  What the code reads of a parsed OpenSSH key: the algorithm of its public half, for RSA the
  modulus as \<open>as_positive_bytes\<close> gives it, the two encodings (which may fail) and whether the
  private half is encrypted.
\<close>

datatype ssh_algorithm = SshEd25519 | SshRsa | SshOther

record ssh_private_key =
  sk_algorithm :: ssh_algorithm
  sk_rsa_modulus :: "bytes option option"
  sk_public_openssh :: "string + string"
  sk_private_openssh :: "string + string"
  sk_is_encrypted :: bool

text \<open>
  Random values and clock readings are streams indexed by the number of draws made so far: the
  statements hold for every stream. \<open>'d\<close> is the state of the platform's secret store.
\<close>

record 'd env =
  aead_encrypt :: "bytes \<Rightarrow> bytes \<Rightarrow> bytes \<Rightarrow> bytes \<Rightarrow> bytes option"
  aead_decrypt :: "bytes \<Rightarrow> bytes \<Rightarrow> bytes \<Rightarrow> bytes \<Rightarrow> bytes option"
  argon2_params :: "u32 \<Rightarrow> u32 \<Rightarrow> u32 \<Rightarrow> string + unit"
  argon2_hash :: "kdf_params \<Rightarrow> bytes \<Rightarrow> string + bytes"
  base64 :: "bytes \<Rightarrow> string"
  host_codec :: "vault_host_profile codec"
  credential_codec :: "vault_password_credential codec"
  key_codec :: "vault_private_key codec"
  port_forward_codec :: "vault_port_forward_profile codec"
  from_openssh :: "string \<Rightarrow> string + ssh_private_key"
  ed25519_at :: "nat \<Rightarrow> string + ssh_private_key"
  rsa_at :: "nat \<Rightarrow> nat \<Rightarrow> string + ssh_private_key"
  uuid_at :: "nat \<Rightarrow> string"
  now_at :: "nat \<Rightarrow> i64"
  key_at :: "nat \<Rightarrow> bytes"
  nonce_at :: "nat \<Rightarrow> bytes"
  salt_at :: "nat \<Rightarrow> bytes"
  dev_get :: "'d \<Rightarrow> string \<Rightarrow> device_secret_error + bytes option"
  dev_set :: "'d \<Rightarrow> string \<Rightarrow> bytes \<Rightarrow> (device_secret_error + unit) \<times> 'd"

section \<open>Keys and envelopes\<close>

definition KEY_LEN :: nat where "KEY_LEN = 32"
definition NONCE_LEN :: nat where "NONCE_LEN = 24"

definition key_from_slice :: "bytes \<Rightarrow> vault_error + bytes" where
  "key_from_slice bs =
     (if length bs \<noteq> KEY_LEN then Inl (InvalidKeyLength KEY_LEN (length bs)) else Inr bs)"

record cipher_envelope =
  ce_nonce :: bytes
  ce_ciphertext :: bytes

text \<open>\<open>encrypt\<close> draws its nonce; here it is the first argument after the environment.\<close>

definition encrypt :: "'d env \<Rightarrow> bytes \<Rightarrow> bytes \<Rightarrow> bytes \<Rightarrow> bytes \<Rightarrow> vault_error + cipher_envelope" where
  "encrypt env nonce key plaintext aad =
     (if length key \<noteq> KEY_LEN then Inl CipherInitFailed
      else (case aead_encrypt env key nonce aad plaintext of
              None \<Rightarrow> Inl EncryptionFailed
            | Some ciphertext \<Rightarrow> Inr \<lparr>ce_nonce = nonce, ce_ciphertext = ciphertext\<rparr>))"

definition decrypt :: "'d env \<Rightarrow> bytes \<Rightarrow> bytes \<Rightarrow> bytes \<Rightarrow> bytes \<Rightarrow> vault_error + bytes" where
  "decrypt env key nonce ciphertext aad =
     (if length nonce \<noteq> NONCE_LEN then Inl (InvalidNonceLength NONCE_LEN (length nonce))
      else if length key \<noteq> KEY_LEN then Inl CipherInitFailed
      else (case aead_decrypt env key nonce aad ciphertext of
              None \<Rightarrow> Inl DecryptionFailed
            | Some plaintext \<Rightarrow> Inr plaintext))"

section \<open>Key derivation\<close>

definition recommended :: "'d env \<Rightarrow> nat \<Rightarrow> kdf_params" where
  "recommended env n =
     \<lparr>kd_salt = salt_at env n, kd_memory_kib = 131072, kd_iterations = 4, kd_parallelism = 4\<rparr>"

definition derive_wrap_key :: "'d env \<Rightarrow> kdf_params \<Rightarrow> string \<Rightarrow> vault_error + bytes" where
  "derive_wrap_key env p passphrase =
     (case argon2_params env (kd_memory_kib p) (kd_iterations p) (kd_parallelism p) of
        Inl message \<Rightarrow> Inl (InvalidKdfConfig message)
      | Inr _ \<Rightarrow>
          (case argon2_hash env p (utf8 passphrase) of
             Inl message \<Rightarrow> Inl (PassphraseDerivationFailed message)
           | Inr output \<Rightarrow> Inr output))"

section \<open>Associated data\<close>

fun show_nat :: "nat \<Rightarrow> string" where
  "show_nat n = (if n < 10 then [char_of (48 + n)] else show_nat (n div 10) @ [char_of (48 + n mod 10)])"

declare show_nat.simps [simp del]

definition recovery_aad :: "'d env \<Rightarrow> string \<Rightarrow> kdf_params \<Rightarrow> string" where
  "recovery_aad env vault_id p =
     ''seance:v1:recovery:'' @ vault_id @ '':m='' @ show_nat (unat (kd_memory_kib p))
     @ '':t='' @ show_nat (unat (kd_iterations p)) @ '':p='' @ show_nat (unat (kd_parallelism p))
     @ '':salt='' @ base64 env (kd_salt p)"

definition legacy_recovery_aad :: "string \<Rightarrow> string" where
  "legacy_recovery_aad vault_id = ''seance:v1:recovery:'' @ vault_id"

definition device_wrap_aad :: "string \<Rightarrow> string \<Rightarrow> string" where
  "device_wrap_aad vault_id device_id = ''seance:v1:device:'' @ vault_id @ '':'' @ device_id"

definition record_key_aad :: "string \<Rightarrow> string \<Rightarrow> string" where
  "record_key_aad vault_id record_id = ''seance:v1:record-key:'' @ vault_id @ '':'' @ record_id"

definition record_aad :: "string \<Rightarrow> string \<Rightarrow> record_kind \<Rightarrow> u32 \<Rightarrow> string" where
  "record_aad vault_id record_id kind version =
     ''seance:v1:record:'' @ vault_id @ '':'' @ record_id @ '':'' @ kind_as_str kind @ '':''
     @ show_nat (unat version)"

definition device_account_name :: "string \<Rightarrow> string \<Rightarrow> string" where
  "device_account_name vault_id device_id = vault_id @ '':'' @ device_id"

text \<open>The master key under the recovery wrap key, with the associated data of older vaults as a
  second try; the error of the second try is the one returned.\<close>

definition decrypt_recovery_master_key ::
  "'d env \<Rightarrow> bytes \<Rightarrow> string \<Rightarrow> recovery_bundle \<Rightarrow> vault_error + bytes" where
  "decrypt_recovery_master_key env wrap_key vault_id b =
     (case decrypt env wrap_key (rb_wrapping_nonce b) (rb_wrapped_master_key b)
             (utf8 (recovery_aad env vault_id (rb_params b))) of
        Inr plaintext \<Rightarrow> Inr plaintext
      | Inl _ \<Rightarrow>
          decrypt env wrap_key (rb_wrapping_nonce b) (rb_wrapped_master_key b)
            (utf8 (legacy_recovery_aad vault_id)))"

section \<open>Key inspection\<close>

definition DEFAULT_RSA_BITS :: u32 where "DEFAULT_RSA_BITS = 4096"

text \<open>\<open>u8::leading_zeros\<close>.\<close>

definition leading_zeros8 :: "u8 \<Rightarrow> nat" where
  "leading_zeros8 b = length (takeWhile Not (map (\<lambda>i. bit b i) [7, 6, 5, 4, 3, 2, 1, 0]))"

text \<open>\<open>((bytes.len() - 1) as u32 * 8) + (8 - first.leading_zeros())\<close>; \<open>as u32\<close> truncates.\<close>

definition mpint_bit_length :: "bytes \<Rightarrow> u32" where
  "mpint_bit_length bs =
     (case bs of
        [] \<Rightarrow> 0
      | first # _ \<Rightarrow> word_of_nat (length bs - 1) * 8 + (8 - word_of_nat (leading_zeros8 first)))"

definition private_key_algorithm_of :: "ssh_private_key \<Rightarrow> vault_error + private_key_algorithm" where
  "private_key_algorithm_of k =
     (case sk_algorithm k of
        SshEd25519 \<Rightarrow> Inr Ed25519
      | SshRsa \<Rightarrow>
          (let bits = (case sk_rsa_modulus k of
                         None \<Rightarrow> DEFAULT_RSA_BITS
                       | Some n \<Rightarrow> mpint_bit_length (case n of None \<Rightarrow> [] | Some bs \<Rightarrow> bs))
           in Inr (Rsa bits))
      | SshOther \<Rightarrow> Inl UnsupportedPrivateKeyAlgorithm)"

definition ssh_result :: "string + 'a \<Rightarrow> vault_error + 'a" where
  "ssh_result r = (case r of Inl e \<Rightarrow> Inl (SshKey e) | Inr x \<Rightarrow> Inr x)"

record private_key_inspection =
  pi_algorithm :: private_key_algorithm
  pi_public_key_openssh :: string
  pi_encrypted_at_rest :: bool

definition inspect_private_key_pem :: "'d env \<Rightarrow> string \<Rightarrow> vault_error + private_key_inspection" where
  "inspect_private_key_pem env pem =
     and_then_r (ssh_result (from_openssh env pem)) (\<lambda>k.
     and_then_r (private_key_algorithm_of k) (\<lambda>algorithm.
     and_then_r (ssh_result (sk_public_openssh k)) (\<lambda>pub.
       Inr \<lparr>pi_algorithm = algorithm, pi_public_key_openssh = pub,
            pi_encrypted_at_rest = sk_is_encrypted k\<rparr>)))"

section \<open>What the environment is documented to do\<close>

text \<open>
  The assumptions on the environment, each a documented property of the external code. A theorem
  that needs one names it as a hypothesis.
  \<^item> \<open>aead_correct\<close>: XChaCha20-Poly1305 decrypts, under the same key, nonce and associated
    data, what it encrypted.
  \<^item> \<open>json_correct\<close>: the derived \<open>Deserialize\<close> reads back what the derived \<open>Serialize\<close> wrote.
  \<^item> \<open>draws_sized\<close>: the arrays the code fills with random bytes have their declared lengths
    (32, 24 and 16 bytes) and Argon2 fills its 32-byte output.
  \<^item> \<open>uuids_fresh\<close>: version 4 UUIDs are not empty and never repeat.
\<close>

definition aead_correct :: "'d env \<Rightarrow> bool" where
  "aead_correct env \<longleftrightarrow>
     (\<forall>key nonce aad msg c. aead_encrypt env key nonce aad msg = Some c
        \<longrightarrow> aead_decrypt env key nonce aad c = Some msg)"

definition json_correct :: "'a codec \<Rightarrow> bool" where
  "json_correct c \<longleftrightarrow> (\<forall>x bs. to_json c x = Inr bs \<longrightarrow> of_json c bs = Inr x)"

definition draws_sized :: "'d env \<Rightarrow> bool" where
  "draws_sized env \<longleftrightarrow>
     (\<forall>n. length (key_at env n) = KEY_LEN \<and> length (nonce_at env n) = NONCE_LEN
        \<and> length (salt_at env n) = 16)
     \<and> (\<forall>p bs out. argon2_hash env p bs = Inr out \<longrightarrow> length out = KEY_LEN)"

definition uuids_fresh :: "'d env \<Rightarrow> bool" where
  "uuids_fresh env \<longleftrightarrow> inj (uuid_at env) \<and> (\<forall>n. uuid_at env n \<noteq> [])"

section \<open>Facts\<close>

lemma encrypt_Inr:
  "encrypt env nonce key msg aad = Inr e \<Longrightarrow>
     length key = KEY_LEN \<and> ce_nonce e = nonce
     \<and> aead_encrypt env key nonce aad msg = Some (ce_ciphertext e)"
  by (auto simp: encrypt_def split: if_splits option.splits)

lemma decrypt_encrypt:
  assumes "aead_correct env" and "length nonce = NONCE_LEN"
    and "encrypt env nonce key msg aad = Inr e"
  shows "decrypt env key (ce_nonce e) (ce_ciphertext e) aad = Inr msg"
proof -
  from encrypt_Inr [OF assms(3)] have "length key = KEY_LEN" "ce_nonce e = nonce"
    and "aead_encrypt env key nonce aad msg = Some (ce_ciphertext e)" by auto
  with assms(1,2) show ?thesis by (simp add: decrypt_def aead_correct_def)
qed

lemma decrypt_recovery_encrypt:
  assumes "aead_correct env" and "length nonce = NONCE_LEN"
    and "encrypt env nonce wrap_key msg (utf8 (recovery_aad env vault_id p)) = Inr e"
  shows "decrypt_recovery_master_key env wrap_key vault_id
           \<lparr>rb_bundle_id = i, rb_params = p, rb_wrapping_nonce = ce_nonce e,
            rb_wrapped_master_key = ce_ciphertext e, rb_created_at = c, rb_updated_at = u\<rparr> = Inr msg"
  using decrypt_encrypt [OF assms] by (simp add: decrypt_recovery_master_key_def)

lemma key_from_slice_sized [simp]: "length k = KEY_LEN \<Longrightarrow> key_from_slice k = Inr k"
  by (simp add: key_from_slice_def)

lemma key_from_slice_Inr: "key_from_slice bs = Inr k \<Longrightarrow> k = bs \<and> length k = KEY_LEN"
  by (simp add: key_from_slice_def split: if_splits)

lemma derive_wrap_key_sized:
  "draws_sized env \<Longrightarrow> derive_wrap_key env p w = Inr k \<Longrightarrow> length k = KEY_LEN"
  by (auto simp: derive_wrap_key_def draws_sized_def split: sum.splits)

lemma leading_zeros8_le: "leading_zeros8 b \<le> 8"
  using length_takeWhile_le [of Not "map (\<lambda>i. bit b i) [7, 6, 5, 4, 3, 2, 1, 0]"]
  by (simp add: leading_zeros8_def)

end
