(* ===== verification/Vault_Storage.thy ===== *)
theory Vault_Storage
  imports Vault_Crypto
begin

text \<open>
  \<^verbatim>\<open>seance-vault/src/storage.rs\<close>: the SQLite tables as lists of rows in rowid order and one
  definition per statement. The \<open>kind\<close> and \<open>sync_state\<close> columns are text, as in the schema, and
  a row is read back through the parsers, which may fail. A \<open>u64\<close> is written through
  \<open>i64::try_from\<close>, so a clock of \<open>2 ^ 63\<close> or more does not convert. Timestamps the code reads from
  the clock are arguments.
\<close>

section \<open>Tables\<close>

record record_row =
  rr_record_id :: string
  rr_kind :: string
  rr_version :: u32
  rr_logical_clock :: u64
  rr_modified_at :: i64
  rr_deleted_at :: "i64 option"
  rr_key_nonce :: bytes
  rr_wrapped_record_key :: bytes
  rr_payload_nonce :: bytes
  rr_payload_ciphertext :: bytes
  rr_last_synced_clock :: "u64 option"
  rr_sync_state :: string

record db =
  t_vault_header :: "vault_header option"
  t_recovery_bundles :: "recovery_bundle list"
  t_device_enrollments :: "device_enrollment list"
  t_records :: "record_row list"
  t_local_state :: "(string \<times> string) list"

text \<open>\<open>CREATE TABLE IF NOT EXISTS\<close> on a new file.\<close>

definition empty_db :: db where
  "empty_db = \<lparr>t_vault_header = None, t_recovery_bundles = [], t_device_enrollments = [],
               t_records = [], t_local_state = []\<rparr>"

definition fits_i64 :: "u64 \<Rightarrow> bool" where
  "fits_i64 w \<longleftrightarrow> w < 2 ^ 63"

definition sql_u64 :: "u64 \<Rightarrow> ('s, vault_error, unit) prog" where
  "sql_u64 w = fail_if (\<not> fits_i64 w) (Database ToSqlConversionFailure)"

section \<open>Header\<close>

definition load_header :: "db \<Rightarrow> vault_error + vault_header option" where
  "load_header d = Inr (t_vault_header d)"

definition insert_header :: "vault_header \<Rightarrow> (db, vault_error, unit) prog" where
  "insert_header h =
     and_then (sql_u64 (vh_last_logical_clock h)) (\<lambda>_.
     and_then (reads (\<lambda>d. Inr (t_vault_header d))) (\<lambda>row.
     case row of
       Some _ \<Rightarrow> fail (Database ConstraintViolation)
     | None \<Rightarrow> modify (\<lambda>d. d\<lparr>t_vault_header := Some h\<rparr>)))"

definition update_header_after_rotation :: "i64 \<Rightarrow> kdf_params \<Rightarrow> (db, vault_error, unit) prog" where
  "update_header_after_rotation updated_at kdf =
     modify (\<lambda>d. d\<lparr>t_vault_header :=
       map_option (\<lambda>h. h\<lparr>vh_recovery_kdf := kdf, vh_updated_at := updated_at\<rparr>) (t_vault_header d)\<rparr>)"

text \<open>\<open>UPDATE vault_header SET last_logical_clock = ?1, updated_at = ?2 WHERE singleton = 1\<close>.\<close>

definition set_last_logical_clock :: "i64 \<Rightarrow> u64 \<Rightarrow> (db, vault_error, unit) prog" where
  "set_last_logical_clock now clock =
     and_then (sql_u64 clock) (\<lambda>_.
     modify (\<lambda>d. d\<lparr>t_vault_header :=
       map_option (\<lambda>h. h\<lparr>vh_last_logical_clock := clock, vh_updated_at := now\<rparr>) (t_vault_header d)\<rparr>))"

definition bump_logical_clock :: "i64 \<Rightarrow> (db, vault_error, u64) prog" where
  "bump_logical_clock now =
     and_then (reads (\<lambda>d. case t_vault_header d of
                           None \<Rightarrow> Inl (Database QueryReturnedNoRows)
                         | Some h \<Rightarrow> Inr (vh_last_logical_clock h))) (\<lambda>current.
     let nxt = current + 1 in
     and_then (set_last_logical_clock now nxt) (\<lambda>_. ok nxt))"

definition verify_header_integrity :: "vault_header \<Rightarrow> vault_error + unit" where
  "verify_header_integrity h =
     (if vh_schema_version h \<noteq> VAULT_SCHEMA_VERSION
      then Inl (UnsupportedSchemaVersion (vh_schema_version h))
      else if vh_vault_id h = [] then Inl (CorruptVault ''vault header is missing the vault id'')
      else if kd_salt (vh_recovery_kdf h) = []
      then Inl (CorruptVault ''vault header is missing the recovery salt'')
      else Inr ())"

section \<open>Recovery bundle\<close>

definition insert_recovery_bundle :: "recovery_bundle \<Rightarrow> (db, vault_error, unit) prog" where
  "insert_recovery_bundle b =
     and_then (modify (\<lambda>d. d\<lparr>t_recovery_bundles := []\<rparr>)) (\<lambda>_.
     modify (\<lambda>d. d\<lparr>t_recovery_bundles := t_recovery_bundles d @ [b]\<rparr>))"

definition load_recovery_bundle :: "db \<Rightarrow> vault_error + recovery_bundle option" where
  "load_recovery_bundle d =
     Inr (case t_recovery_bundles d of [] \<Rightarrow> None | b # _ \<Rightarrow> Some b)"

section \<open>Device enrollments\<close>

text \<open>On a conflict every column but \<open>created_at\<close> is overwritten.\<close>

definition merge_enrollment :: "device_enrollment \<Rightarrow> device_enrollment \<Rightarrow> device_enrollment" where
  "merge_enrollment old new = new\<lparr>de_created_at := de_created_at old\<rparr>"

definition upsert_device_enrollment :: "device_enrollment \<Rightarrow> (db, vault_error, unit) prog" where
  "upsert_device_enrollment e =
     modify (\<lambda>d. d\<lparr>t_device_enrollments :=
       upsert_row de_device_id merge_enrollment e (t_device_enrollments d)\<rparr>)"

definition load_device_enrollment :: "string \<Rightarrow> db \<Rightarrow> vault_error + device_enrollment option" where
  "load_device_enrollment device_id d =
     Inr (lookup_row de_device_id device_id (t_device_enrollments d))"

definition update_device_last_used :: "string \<Rightarrow> i64 \<Rightarrow> (db, vault_error, unit) prog" where
  "update_device_last_used device_id timestamp =
     modify (\<lambda>d. d\<lparr>t_device_enrollments :=
       map (\<lambda>e. if de_device_id e = device_id then e\<lparr>de_last_used_at := timestamp\<rparr> else e)
         (t_device_enrollments d)\<rparr>)"

definition list_device_enrollments :: "db \<Rightarrow> vault_error + device_enrollment list" where
  "list_device_enrollments d =
     Inr (sort_key (\<lambda>e. (de_created_at e, de_device_id e)) (t_device_enrollments d))"

definition clear_device_enrollments :: "(db, vault_error, unit) prog" where
  "clear_device_enrollments = modify (\<lambda>d. d\<lparr>t_device_enrollments := []\<rparr>)"

section \<open>Local state\<close>

definition merge_state :: "string \<times> string \<Rightarrow> string \<times> string \<Rightarrow> string \<times> string" where
  "merge_state old new = (fst old, snd new)"

definition set_local_state :: "string \<Rightarrow> string \<Rightarrow> (db, vault_error, unit) prog" where
  "set_local_state k v =
     modify (\<lambda>d. d\<lparr>t_local_state := upsert_row fst merge_state (k, v) (t_local_state d)\<rparr>)"

definition get_local_state :: "string \<Rightarrow> db \<Rightarrow> vault_error + string option" where
  "get_local_state k d = Inr (map_option snd (lookup_row fst k (t_local_state d)))"

definition delete_local_state :: "string \<Rightarrow> (db, vault_error, unit) prog" where
  "delete_local_state k = modify (\<lambda>d. d\<lparr>t_local_state := delete_row fst k (t_local_state d)\<rparr>)"

section \<open>Records\<close>

definition row_of_record :: "encrypted_record \<Rightarrow> record_row" where
  "row_of_record r =
     \<lparr>rr_record_id = er_record_id r, rr_kind = kind_as_str (er_kind r), rr_version = er_version r,
      rr_logical_clock = er_logical_clock r, rr_modified_at = er_modified_at r,
      rr_deleted_at = er_deleted_at r, rr_key_nonce = er_key_nonce r,
      rr_wrapped_record_key = er_wrapped_record_key r, rr_payload_nonce = er_payload_nonce r,
      rr_payload_ciphertext = er_payload_ciphertext r,
      rr_last_synced_clock = er_last_synced_clock r,
      rr_sync_state = sync_as_str (er_sync_state r)\<rparr>"

definition encrypted_record_from_row :: "record_row \<Rightarrow> vault_error + encrypted_record" where
  "encrypted_record_from_row row =
     (case kind_from_str (rr_kind row) of
        None \<Rightarrow> Inl (Database (FromSqlConversionFailure 1
                  (''unsupported record kind stored in sqlite: '' @ rr_kind row)))
      | Some kind \<Rightarrow>
          (case sync_from_str (rr_sync_state row) of
             None \<Rightarrow> Inl (Database (FromSqlConversionFailure 11
                       (''unsupported sync state stored in sqlite: '' @ rr_sync_state row)))
           | Some sync_state \<Rightarrow>
               Inr \<lparr>er_record_id = rr_record_id row, er_kind = kind, er_version = rr_version row,
                    er_logical_clock = rr_logical_clock row, er_modified_at = rr_modified_at row,
                    er_deleted_at = rr_deleted_at row, er_key_nonce = rr_key_nonce row,
                    er_wrapped_record_key = rr_wrapped_record_key row,
                    er_payload_nonce = rr_payload_nonce row,
                    er_payload_ciphertext = rr_payload_ciphertext row,
                    er_last_synced_clock = rr_last_synced_clock row,
                    er_sync_state = sync_state\<rparr>))"

definition overwrite_row :: "record_row \<Rightarrow> record_row \<Rightarrow> record_row" where
  "overwrite_row old new = new"

definition upsert_record :: "encrypted_record \<Rightarrow> (db, vault_error, unit) prog" where
  "upsert_record r =
     and_then (sql_u64 (er_logical_clock r)) (\<lambda>_.
     and_then (case er_last_synced_clock r of None \<Rightarrow> ok () | Some c \<Rightarrow> sql_u64 c) (\<lambda>_.
     modify (\<lambda>d. d\<lparr>t_records :=
       upsert_row rr_record_id overwrite_row (row_of_record r) (t_records d)\<rparr>)))"

definition list_records_by_kind :: "record_kind \<Rightarrow> db \<Rightarrow> vault_error + encrypted_record list" where
  "list_records_by_kind kind d =
     try_map encrypted_record_from_row
       (sort_key (\<lambda>row. - rr_modified_at row)
         (filter (\<lambda>row. rr_kind row = kind_as_str kind \<and> rr_deleted_at row = None) (t_records d)))"

definition load_record :: "string \<Rightarrow> record_kind \<Rightarrow> db \<Rightarrow> vault_error + encrypted_record option" where
  "load_record record_id kind d =
     (case find (\<lambda>row. rr_record_id row = record_id \<and> rr_kind row = kind_as_str kind) (t_records d) of
        None \<Rightarrow> Inr None
      | Some row \<Rightarrow> and_then_r (encrypted_record_from_row row) (\<lambda>r. Inr (Some r)))"

definition clock_order :: "record_row \<Rightarrow> u64 \<times> string" where
  "clock_order row = (rr_logical_clock row, rr_record_id row)"

definition list_all_records :: "db \<Rightarrow> vault_error + encrypted_record list" where
  "list_all_records d =
     try_map encrypted_record_from_row (sort_key clock_order (t_records d))"

definition list_records_after_clock :: "u64 \<Rightarrow> db \<Rightarrow> vault_error + encrypted_record list" where
  "list_records_after_clock clock d =
     (if fits_i64 clock
      then try_map encrypted_record_from_row
             (sort_key clock_order (filter (\<lambda>row. clock < rr_logical_clock row) (t_records d)))
      else Inl (Database ToSqlConversionFailure))"

definition count_records :: "db \<Rightarrow> vault_error + nat" where
  "count_records d = Inr (length (t_records d))"

lemmas storage_defs =
  load_header_def insert_header_def update_header_after_rotation_def set_last_logical_clock_def
  bump_logical_clock_def insert_recovery_bundle_def load_recovery_bundle_def
  upsert_device_enrollment_def load_device_enrollment_def update_device_last_used_def
  clear_device_enrollments_def set_local_state_def get_local_state_def delete_local_state_def
  sql_u64_def

section \<open>The tables meet the table laws\<close>

interpretation rec_table: keyed_table rr_record_id overwrite_row
  by unfold_locales (simp add: overwrite_row_def)

interpretation dev_table: keyed_table de_device_id merge_enrollment
  by unfold_locales (simp add: merge_enrollment_def)

interpretation state_table: keyed_table fst merge_state
  by unfold_locales (simp add: merge_state_def)

section \<open>Well-formed databases\<close>

text \<open>
  What the statements keep of a database: primary keys are unique, every record row is the image
  of a record (so it reads back), its clocks fit an SQLite integer, there is at most one recovery
  bundle, and the header's clock fits.
\<close>

definition wf_row :: "record_row \<Rightarrow> bool" where
  "wf_row row \<longleftrightarrow> kind_from_str (rr_kind row) \<noteq> None \<and> sync_from_str (rr_sync_state row) \<noteq> None
     \<and> fits_i64 (rr_logical_clock row)
     \<and> (\<forall>c. rr_last_synced_clock row = Some c \<longrightarrow> fits_i64 c)"

definition wf_db :: "db \<Rightarrow> bool" where
  "wf_db d \<longleftrightarrow> distinct (map rr_record_id (t_records d)) \<and> list_all wf_row (t_records d)
     \<and> distinct (map de_device_id (t_device_enrollments d))
     \<and> distinct (map fst (t_local_state d))
     \<and> length (t_recovery_bundles d) \<le> 1
     \<and> (\<forall>h. t_vault_header d = Some h \<longrightarrow> fits_i64 (vh_last_logical_clock h))"

lemma wf_empty_db [simp]: "wf_db empty_db"
  by (simp add: wf_db_def empty_db_def)

lemma record_of_row_of_record [simp]: "encrypted_record_from_row (row_of_record r) = Inr r"
  by (simp add: encrypted_record_from_row_def row_of_record_def)

text \<open>A well-formed row reads back; the record it reads back to.\<close>

definition rec_of :: "record_row \<Rightarrow> encrypted_record" where
  "rec_of row =
     \<lparr>er_record_id = rr_record_id row, er_kind = the (kind_from_str (rr_kind row)),
      er_version = rr_version row, er_logical_clock = rr_logical_clock row,
      er_modified_at = rr_modified_at row, er_deleted_at = rr_deleted_at row,
      er_key_nonce = rr_key_nonce row, er_wrapped_record_key = rr_wrapped_record_key row,
      er_payload_nonce = rr_payload_nonce row, er_payload_ciphertext = rr_payload_ciphertext row,
      er_last_synced_clock = rr_last_synced_clock row,
      er_sync_state = the (sync_from_str (rr_sync_state row))\<rparr>"

lemma from_row_wf: "wf_row row \<Longrightarrow> encrypted_record_from_row row = Inr (rec_of row)"
  by (auto simp: wf_row_def encrypted_record_from_row_def rec_of_def)

lemma rec_of_row_of_record [simp]: "rec_of (row_of_record r) = r"
  by (simp add: rec_of_def row_of_record_def)

lemma kind_from_str_Some: "kind_from_str s = Some k \<longleftrightarrow> s = kind_as_str k"
  by (cases k) (auto simp: kind_from_str_def split: if_splits)

lemma sync_from_str_Some: "sync_from_str s = Some k \<longleftrightarrow> s = sync_as_str k"
  by (cases k) (auto simp: sync_from_str_def split: if_splits)

lemma row_of_rec_of: "wf_row row \<Longrightarrow> row_of_record (rec_of row) = row"
  by (auto simp: wf_row_def rec_of_def row_of_record_def kind_from_str_Some sync_from_str_Some)

lemma wf_row_of_record [simp]:
  "wf_row (row_of_record r) \<longleftrightarrow> fits_i64 (er_logical_clock r)
     \<and> (\<forall>c. er_last_synced_clock r = Some c \<longrightarrow> fits_i64 c)"
  by (simp add: wf_row_def row_of_record_def)

lemma row_of_record_sel [simp]:
  "rr_record_id (row_of_record r) = er_record_id r"
  "rr_kind (row_of_record r) = kind_as_str (er_kind r)"
  "rr_deleted_at (row_of_record r) = er_deleted_at r"
  "rr_logical_clock (row_of_record r) = er_logical_clock r"
  "rr_modified_at (row_of_record r) = er_modified_at r"
  by (simp_all add: row_of_record_def)

lemma rec_of_sel [simp]:
  "er_record_id (rec_of row) = rr_record_id row"
  "er_logical_clock (rec_of row) = rr_logical_clock row"
  "er_modified_at (rec_of row) = rr_modified_at row"
  "er_deleted_at (rec_of row) = rr_deleted_at row"
  by (simp_all add: rec_of_def)

lemma rec_of_kind: "wf_row row \<Longrightarrow> er_kind (rec_of row) = k \<longleftrightarrow> rr_kind row = kind_as_str k"
  by (auto simp: wf_row_def rec_of_def kind_from_str_Some)

section \<open>Reading: the statements against the table\<close>

text \<open>The record with an identifier, whatever its kind: the abstract view of the table.\<close>

definition record_at :: "db \<Rightarrow> string \<Rightarrow> encrypted_record option" where
  "record_at d i = map_option rec_of (lookup_row rr_record_id i (t_records d))"

lemma wf_db_rows: "wf_db d \<Longrightarrow> row \<in> set (t_records d) \<Longrightarrow> wf_row row"
  by (simp add: wf_db_def list_all_iff)

lemma find_conj_unique:
  assumes "distinct (map key rows)"
  shows "find (\<lambda>r. key r = k \<and> P r) rows =
           (case lookup_row key k rows of None \<Rightarrow> None | Some r \<Rightarrow> if P r then Some r else None)"
  using assms
proof (induction rows)
  case (Cons a rows)
  show ?case
  proof (cases "key a = k \<and> \<not> P a")
    case True
    with Cons.prems have "find (\<lambda>r. key r = k \<and> P r) rows = None"
      by (auto simp: find_None_iff image_iff)
    with True show ?thesis by simp
  next
    case False
    with Cons show ?thesis by auto
  qed
qed simp

lemma load_record_spec:
  assumes "wf_db d"
  shows "load_record i k d =
           Inr (case record_at d i of None \<Rightarrow> None | Some r \<Rightarrow> if er_kind r = k then Some r else None)"
proof (cases "lookup_row rr_record_id i (t_records d)")
  case None
  with assms show ?thesis
    by (simp add: load_record_def record_at_def find_conj_unique wf_db_def)
next
  case (Some row)
  then have wf: "wf_row row" using assms by (auto dest: lookup_row_Some wf_db_rows)
  from assms Some show ?thesis
    by (simp add: load_record_def record_at_def find_conj_unique wf_db_def from_row_wf [OF wf]
        rec_of_kind [OF wf])
qed

lemma list_records_by_kind_spec:
  assumes "wf_db d"
  shows "list_records_by_kind k d =
           Inr (map rec_of (sort_key (\<lambda>row. - rr_modified_at row)
             (filter (\<lambda>row. rr_kind row = kind_as_str k \<and> rr_deleted_at row = None) (t_records d))))"
  unfolding list_records_by_kind_def
  by (rule try_map_all_Inr, rule from_row_wf) (use assms in \<open>auto dest: wf_db_rows\<close>)

lemma list_records_by_kind_set:
  assumes "wf_db d" and "list_records_by_kind k d = Inr rs"
  shows "r \<in> set rs \<longleftrightarrow> record_at d (er_record_id r) = Some r \<and> er_kind r = k \<and> er_deleted_at r = None"
proof -
  have rs: "set rs = rec_of ` {row \<in> set (t_records d). rr_kind row = kind_as_str k \<and> rr_deleted_at row = None}"
    using assms by (auto simp: list_records_by_kind_spec)
  have at: "record_at d (rr_record_id row) = Some (rec_of row)" if "row \<in> set (t_records d)" for row
    using that assms(1) lookup_row_iff [of rr_record_id "t_records d"]
    by (auto simp: record_at_def wf_db_def)
  show ?thesis
  proof
    assume "r \<in> set rs"
    then obtain row where "row \<in> set (t_records d)" "r = rec_of row" "rr_kind row = kind_as_str k"
      "rr_deleted_at row = None" by (auto simp: rs)
    with at assms(1) show "record_at d (er_record_id r) = Some r \<and> er_kind r = k \<and> er_deleted_at r = None"
      by (simp add: rec_of_kind wf_db_rows)
  next
    assume r: "record_at d (er_record_id r) = Some r \<and> er_kind r = k \<and> er_deleted_at r = None"
    then obtain row where "row \<in> set (t_records d)" "r = rec_of row"
      by (auto simp: record_at_def dest: lookup_row_Some)
    with r assms(1) show "r \<in> set rs" by (auto simp: rs rec_of_kind wf_db_rows)
  qed
qed

lemma record_at_id: "record_at d i = Some r \<Longrightarrow> er_record_id r = i"
  by (auto simp: record_at_def dest: lookup_row_Some)

section \<open>Writing\<close>

lemma upsert_record_Inr:
  assumes "upsert_record r d = (Inr u, d')"
  shows "d' = d\<lparr>t_records := upsert_row rr_record_id overwrite_row (row_of_record r) (t_records d)\<rparr>"
    and "fits_i64 (er_logical_clock r)"
    and "er_last_synced_clock r = Some c \<Longrightarrow> fits_i64 c"
  using assms
  by (auto simp: upsert_record_def and_then_def sql_u64_def split: if_splits option.splits)

lemma upsert_record_Inl: "upsert_record r d = (Inl e, d') \<Longrightarrow> d' = d \<and> e = Database ToSqlConversionFailure"
  by (auto simp: upsert_record_def and_then_def sql_u64_def split: if_splits option.splits)

lemma upsert_record_fits:
  "fits_i64 (er_logical_clock r) \<Longrightarrow> (\<And>c. er_last_synced_clock r = Some c \<Longrightarrow> fits_i64 c) \<Longrightarrow>
   upsert_record r d =
     (Inr (), d\<lparr>t_records := upsert_row rr_record_id overwrite_row (row_of_record r) (t_records d)\<rparr>)"
  by (auto simp: upsert_record_def and_then_def sql_u64_def split: option.splits)

lemma record_at_upsert:
  "record_at (d\<lparr>t_records := upsert_row rr_record_id overwrite_row (row_of_record r) (t_records d)\<rparr>) i =
     (if i = er_record_id r then Some r else record_at d i)"
  using rec_table.lookup_upsert_same [of "row_of_record r" "t_records d"]
    rec_table.lookup_upsert_other [of i "row_of_record r" "t_records d"]
  by (auto simp: record_at_def overwrite_row_def split: option.splits)

lemma record_at_cong: "t_records d = t_records d' \<Longrightarrow> record_at d = record_at d'"
  by (simp add: record_at_def fun_eq_iff)

lemma set_upsert_row:
  "x \<in> set (upsert_row key merge r rows) \<Longrightarrow>
     x \<in> set rows \<or> x = r \<or> (\<exists>old\<in>set rows. key old = key r \<and> x = merge old r)"
  by (auto simp: upsert_row_def split: if_splits)

lemma wf_db_upsert_record:
  "wf_db d \<Longrightarrow> wf_row (row_of_record r) \<Longrightarrow>
   wf_db (d\<lparr>t_records := upsert_row rr_record_id overwrite_row (row_of_record r) (t_records d)\<rparr>)"
  using rec_table.distinct_upsert [of "t_records d" "row_of_record r"]
  by (auto simp: wf_db_def list_all_iff overwrite_row_def simp del: wf_row_of_record
      dest!: set_upsert_row)

lemma keeps_wf_upsert_record [keeps_rules]: "keeps wf_db (upsert_record r)"
proof (rule keepsI)
  fix d
  assume d: "wf_db d"
  show "wf_db (snd (upsert_record r d))"
  proof (cases "upsert_record r d")
    case (Pair res d')
    show ?thesis
    proof (cases res)
      case (Inl e)
      with Pair upsert_record_Inl d show ?thesis by fastforce
    next
      case (Inr u)
      with Pair upsert_record_Inr [of r d u d'] d show ?thesis
        by (simp add: wf_db_upsert_record)
    qed
  qed
qed

lemma keeps_wf_insert_recovery_bundle [keeps_rules]: "keeps wf_db (insert_recovery_bundle b)"
  by (simp add: keeps_def insert_recovery_bundle_def and_then_def wf_db_def)

lemma keeps_wf_upsert_device_enrollment [keeps_rules]: "keeps wf_db (upsert_device_enrollment e)"
  by (auto simp: keeps_def upsert_device_enrollment_def wf_db_def dev_table.distinct_upsert)

lemma keeps_wf_update_device_last_used [keeps_rules]: "keeps wf_db (update_device_last_used i t)"
proof -
  have "map de_device_id (map (\<lambda>e. if de_device_id e = i then e\<lparr>de_last_used_at := t\<rparr> else e) es)
        = map de_device_id es" for es :: "device_enrollment list"
    by (induction es) auto
  then show ?thesis
    by (auto simp: keeps_def update_device_last_used_def wf_db_def simp del: map_map)
qed

lemma keeps_wf_clear_device_enrollments [keeps_rules]: "keeps wf_db clear_device_enrollments"
  by (simp add: keeps_def clear_device_enrollments_def wf_db_def)

lemma keeps_wf_set_local_state [keeps_rules]: "keeps wf_db (set_local_state k v)"
  using state_table.distinct_upsert
  by (auto simp: keeps_def set_local_state_def wf_db_def)

lemma keeps_wf_delete_local_state [keeps_rules]: "keeps wf_db (delete_local_state k)"
  by (auto simp: keeps_def delete_local_state_def wf_db_def delete_row_def distinct_map inj_on_def)

lemma keeps_wf_insert_header [keeps_rules]: "keeps wf_db (insert_header h)"
  by (auto simp: keeps_def insert_header_def and_then_def sql_u64_def wf_db_def split: option.splits)

lemma keeps_wf_set_clock [keeps_rules]: "keeps wf_db (set_last_logical_clock now c)"
  by (auto simp: keeps_def set_last_logical_clock_def and_then_def sql_u64_def wf_db_def)

lemma keeps_wf_rotation [keeps_rules]: "keeps wf_db (update_header_after_rotation now kdf)"
  by (auto simp: keeps_def update_header_after_rotation_def wf_db_def)

lemma keeps_wf_bump [keeps_rules]: "keeps wf_db (bump_logical_clock now)"
  unfolding bump_logical_clock_def Let_def by (intro keeps_rules)

text \<open>Bumping the clock: the next value, strictly larger, and never a wrapped one.\<close>

lemma fits_i64_Suc: "fits_i64 c \<Longrightarrow> fits_i64 (c + 1) \<Longrightarrow> c < c + 1"
  unfolding fits_i64_def by (simp add: word_less_nat_alt unat_word_ariths)

lemma bump_logical_clock_Inr:
  assumes "bump_logical_clock now d = (Inr c, d')"
  obtains h where "t_vault_header d = Some h" "c = vh_last_logical_clock h + 1" "fits_i64 c"
    "d' = d\<lparr>t_vault_header := Some (h\<lparr>vh_last_logical_clock := c, vh_updated_at := now\<rparr>)\<rparr>"
  using assms
  by (auto simp: bump_logical_clock_def and_then_def set_last_logical_clock_def sql_u64_def Let_def
      split: option.splits if_splits)

lemma bump_logical_clock_Inl: "bump_logical_clock now d = (Inl e, d') \<Longrightarrow> d' = d"
  by (auto simp: bump_logical_clock_def and_then_def set_last_logical_clock_def sql_u64_def Let_def
      split: option.splits if_splits)

end
