(* ===== verification/Vault_Store.thy ===== *)
theory Vault_Store
  imports Vault_Storage
begin

text \<open>
  The vault store of \<^verbatim>\<open>seance-vault/src/lib.rs\<close>: its state, opening, status, creation,
  unlocking by passphrase and by device, passphrase rotation, locking and device enrollment. The
  state carries the connection (the tables), the cached header, the master key while unlocked and
  the number of random values and clock readings drawn so far. A method that fails returns the
  state it failed in.
\<close>

section \<open>State\<close>

record 'd vault_store =
  s_vault_path :: string
  s_conn :: db
  s_header :: "vault_header option"
  s_device_store :: 'd
  s_master_key :: "bytes option"
  s_last_unlock_method :: "unlock_method option"
  s_tick :: nat

type_synonym ('d, 'a) vprog = "('d vault_store, vault_error, 'a) prog"

definition DEVICE_STATE_KEY :: string where
  "DEVICE_STATE_KEY = ''local_device_id''"

definition DEVICE_UNLOCK_MESSAGE_KEY :: string where
  "DEVICE_UNLOCK_MESSAGE_KEY = ''device_unlock_message''"

definition DEVICE_UNLOCK_BUILD_MESSAGE :: string where
  "DEVICE_UNLOCK_BUILD_MESSAGE =
     ''Touch ID device unlock is unavailable in this build. Launch a signed Seance.app bundle to enroll and use Touch ID.''"

definition DEVICE_UNLOCK_ENROLLMENT_FAILED_MESSAGE :: string where
  "DEVICE_UNLOCK_ENROLLMENT_FAILED_MESSAGE =
     ''Vault unlocked, but Touch ID enrollment failed. Launch a signed Seance.app bundle and unlock again with your passphrase to re-enroll this device.''"

definition DEVICE_UNLOCK_REENROLL_MESSAGE :: string where
  "DEVICE_UNLOCK_REENROLL_MESSAGE =
     ''Touch ID device unlock needs to be re-enrolled. Unlock the vault with your passphrase once to repair it.''"

text \<open>Drawing a random value or reading the clock; running and reading the database.\<close>

definition draw :: "(nat \<Rightarrow> 'a) \<Rightarrow> ('d, 'a) vprog" where
  "draw f s = (Inr (f (s_tick s)), s\<lparr>s_tick := Suc (s_tick s)\<rparr>)"

definition on_db :: "(db, vault_error, 'a) prog \<Rightarrow> ('d, 'a) vprog" where
  "on_db m = on_part s_conn (\<lambda>d s. s\<lparr>s_conn := d\<rparr>) m"

definition reads_db :: "(db \<Rightarrow> vault_error + 'a) \<Rightarrow> ('d, 'a) vprog" where
  "reads_db f = reads (\<lambda>s. f (s_conn s))"

definition encrypt_m :: "'d env \<Rightarrow> bytes \<Rightarrow> bytes \<Rightarrow> string \<Rightarrow> ('d, cipher_envelope) vprog" where
  "encrypt_m env key plaintext aad =
     and_then (draw (nonce_at env)) (\<lambda>nonce. lift_r (encrypt env nonce key plaintext (utf8 aad)))"

definition header_or :: "vault_error \<Rightarrow> 'd vault_store \<Rightarrow> vault_error + vault_header" where
  "header_or e s = ok_or (s_header s) e"

definition master_key :: "'d vault_store \<Rightarrow> vault_error + bytes" where
  "master_key s = ok_or (s_master_key s) VaultLocked"

section \<open>Opening and status\<close>

text \<open>
  \<open>disk\<close> is what creating the parent directory, opening the connection and creating the missing
  tables gives: an error or the tables of the file.
\<close>

definition open_with_device_store ::
  "string \<Rightarrow> 'd \<Rightarrow> nat \<Rightarrow> vault_error + db \<Rightarrow> vault_error + 'd vault_store" where
  "open_with_device_store path device_store tick disk =
     and_then_r disk (\<lambda>conn.
     and_then_r (load_header conn) (\<lambda>header.
     and_then_r (case header of None \<Rightarrow> Inr () | Some h \<Rightarrow> verify_header_integrity h) (\<lambda>_.
       Inr \<lparr>s_vault_path = path, s_conn = conn, s_header = header, s_device_store = device_store,
            s_master_key = None, s_last_unlock_method = None, s_tick = tick\<rparr>)))"

definition status :: "'d vault_store \<Rightarrow> vault_status" where
  "status s =
     (let message = Option.bind (ok_opt (get_local_state DEVICE_UNLOCK_MESSAGE_KEY (s_conn s))) id;
          device_id = Option.bind (s_header s)
            (\<lambda>_. Option.bind (ok_opt (get_local_state DEVICE_STATE_KEY (s_conn s))) id);
          enrollment = Option.bind device_id
            (\<lambda>i. Option.bind (ok_opt (load_device_enrollment i (s_conn s))) id)
      in \<lparr>st_initialized = (s_header s \<noteq> None),
          st_unlocked = (s_master_key s \<noteq> None),
          st_vault_path = s_vault_path s,
          st_device_unlock_available =
            (s_header s \<noteq> None \<and> message = None
             \<and> (case enrollment of None \<Rightarrow> False | Some e \<Rightarrow> de_revoked_at e = None)),
          st_device_unlock_message = message\<rparr>)"

section \<open>Device enrollment\<close>

definition persist_device_unlock_message :: "string option \<Rightarrow> ('d, unit) vprog" where
  "persist_device_unlock_message message =
     (case message of
        Some m \<Rightarrow> ignore (on_db (set_local_state DEVICE_UNLOCK_MESSAGE_KEY m))
      | None \<Rightarrow> ignore (on_db (delete_local_state DEVICE_UNLOCK_MESSAGE_KEY)))"

definition set_secret :: "'d env \<Rightarrow> string \<Rightarrow> bytes \<Rightarrow> ('d, unit) vprog" where
  "set_secret env account secret s =
     (case dev_set env (s_device_store s) account secret of
        (Inl e, dev) \<Rightarrow> (Inl (DeviceSecret e), s\<lparr>s_device_store := dev\<rparr>)
      | (Inr _, dev) \<Rightarrow> (Inr (), s\<lparr>s_device_store := dev\<rparr>))"

text \<open>The two halves of \<open>ensure_device_enrollment\<close>: the device identifier, created on first use, and
  a fresh device key stored with the platform and wrapped around the master key.\<close>

definition local_device_id :: "'d env \<Rightarrow> ('d, string) vprog" where
  "local_device_id env =
     and_then (reads_db (get_local_state DEVICE_STATE_KEY)) (\<lambda>stored.
     case stored of
       Some existing \<Rightarrow> ok existing
     | None \<Rightarrow>
         and_then (draw (uuid_at env)) (\<lambda>created.
         and_then (on_db (set_local_state DEVICE_STATE_KEY created)) (\<lambda>_. ok created)))"

definition enroll_device :: "'d env \<Rightarrow> string \<Rightarrow> vault_header \<Rightarrow> bytes \<Rightarrow> string \<Rightarrow> ('d, unit) vprog" where
  "enroll_device env device_name header mk device_id =
     and_then (draw (key_at env)) (\<lambda>device_key.
     and_then (set_secret env (device_account_name (vh_vault_id header) device_id) device_key) (\<lambda>_.
     and_then (encrypt_m env device_key mk (device_wrap_aad (vh_vault_id header) device_id)) (\<lambda>envelope.
     and_then (draw (now_at env)) (\<lambda>now.
       on_db (upsert_device_enrollment
         \<lparr>de_device_id = device_id, de_device_name = device_name,
          de_wrapping_nonce = ce_nonce envelope, de_wrapped_master_key = ce_ciphertext envelope,
          de_created_at = now, de_last_used_at = now, de_revoked_at = None\<rparr>)))))"

definition ensure_device_enrollment :: "'d env \<Rightarrow> string \<Rightarrow> ('d, unit) vprog" where
  "ensure_device_enrollment env device_name =
     and_then (reads (header_or VaultNotInitialized)) (\<lambda>header.
     and_then (reads master_key) (\<lambda>mk.
     and_then (local_device_id env) (\<lambda>device_id.
       enroll_device env device_name header mk device_id)))"

definition refresh_device_enrollment :: "'d env \<Rightarrow> string \<Rightarrow> ('d, unit) vprog" where
  "refresh_device_enrollment env device_name s =
     (case ensure_device_enrollment env device_name s of
        (Inr _, t) \<Rightarrow> persist_device_unlock_message None t
      | (Inl _, t) \<Rightarrow>
          persist_device_unlock_message (Some DEVICE_UNLOCK_ENROLLMENT_FAILED_MESSAGE) t)"

section \<open>Creation, unlocking, rotation, locking\<close>

definition create_vault :: "'d env \<Rightarrow> string \<Rightarrow> string \<Rightarrow> ('d, unit) vprog" where
  "create_vault env passphrase device_name =
     and_then (reads (\<lambda>s. if s_header s \<noteq> None then Inl VaultAlreadyInitialized else Inr ())) (\<lambda>_.
     and_then (fail_if (trim passphrase = []) EmptyPassphrase) (\<lambda>_.
     and_then (draw (key_at env)) (\<lambda>mk.
     and_then (draw (recommended env)) (\<lambda>recovery_params.
     and_then (lift_r (derive_wrap_key env recovery_params passphrase)) (\<lambda>recovery_wrap_key.
     and_then (draw (now_at env)) (\<lambda>now.
     and_then (draw (uuid_at env)) (\<lambda>vault_id.
     let header = \<lparr>vh_vault_id = vault_id, vh_schema_version = VAULT_SCHEMA_VERSION,
                   vh_cipher = ''xchacha20poly1305'', vh_recovery_kdf = recovery_params,
                   vh_created_at = now, vh_updated_at = now, vh_last_logical_clock = 0\<rparr> in
     and_then (on_db (insert_header header)) (\<lambda>_.
     and_then (encrypt_m env recovery_wrap_key mk (recovery_aad env vault_id recovery_params)) (\<lambda>envelope.
     and_then (draw (uuid_at env)) (\<lambda>bundle_id.
     and_then (on_db (insert_recovery_bundle
       \<lparr>rb_bundle_id = bundle_id, rb_params = recovery_params,
        rb_wrapping_nonce = ce_nonce envelope, rb_wrapped_master_key = ce_ciphertext envelope,
        rb_created_at = now, rb_updated_at = now\<rparr>)) (\<lambda>_.
     and_then (modify (\<lambda>s. s\<lparr>s_header := Some header, s_master_key := Some mk,
                             s_last_unlock_method := Some UnlockPassphrase\<rparr>)) (\<lambda>_.
       refresh_device_enrollment env device_name))))))))))))"

text \<open>
  The early returns of \<open>try_unlock_with_device\<close>, up to the decrypted key: not enrolled on this
  device (or the enrollment is revoked, or the secret is gone), a build without a secret store, an
  envelope that does not open, or the master key with the device it was found for.
\<close>

datatype device_outcome =
    NotEnrolled
  | StoreUnavailable
  | NeedsReenroll
  | KeyFound string bytes

definition device_unlock_key :: "'d env \<Rightarrow> vault_header \<Rightarrow> 'd vault_store \<Rightarrow> vault_error + device_outcome" where
  "device_unlock_key env header s =
     and_then_r (get_local_state DEVICE_STATE_KEY (s_conn s)) (\<lambda>stored_id.
     case stored_id of None \<Rightarrow> Inr NotEnrolled | Some device_id \<Rightarrow>
     and_then_r (load_device_enrollment device_id (s_conn s)) (\<lambda>stored_enrollment.
     case stored_enrollment of None \<Rightarrow> Inr NotEnrolled | Some enrollment \<Rightarrow>
     if de_revoked_at enrollment \<noteq> None then Inr NotEnrolled else
     (case dev_get env (s_device_store s) (device_account_name (vh_vault_id header) device_id) of
        Inr None \<Rightarrow> Inr NotEnrolled
      | Inl UnavailableInThisBuild \<Rightarrow> Inr StoreUnavailable
      | Inl e \<Rightarrow> Inl (DeviceSecret e)
      | Inr (Some secret) \<Rightarrow>
          (case key_from_slice secret of
             Inl _ \<Rightarrow> Inr NeedsReenroll
           | Inr device_key \<Rightarrow>
               (case decrypt env device_key (de_wrapping_nonce enrollment)
                       (de_wrapped_master_key enrollment)
                       (utf8 (device_wrap_aad (vh_vault_id header) device_id)) of
                  Inl _ \<Rightarrow> Inr NeedsReenroll
                | Inr plaintext \<Rightarrow>
                    (case key_from_slice plaintext of
                       Inl _ \<Rightarrow> Inr NeedsReenroll
                     | Inr mk \<Rightarrow> Inr (KeyFound device_id mk)))))))"

definition try_unlock_with_device :: "'d env \<Rightarrow> ('d, bool) vprog" where
  "try_unlock_with_device env =
     and_then (reads (header_or VaultNotInitialized)) (\<lambda>header.
     and_then (reads (device_unlock_key env header)) (\<lambda>outcome.
     case outcome of
       NotEnrolled \<Rightarrow> ok False
     | StoreUnavailable \<Rightarrow>
         and_then (persist_device_unlock_message (Some DEVICE_UNLOCK_BUILD_MESSAGE)) (\<lambda>_. ok False)
     | NeedsReenroll \<Rightarrow>
         and_then (persist_device_unlock_message (Some DEVICE_UNLOCK_REENROLL_MESSAGE)) (\<lambda>_. ok False)
     | KeyFound device_id mk \<Rightarrow>
         and_then (modify (\<lambda>s. s\<lparr>s_master_key := Some mk, s_last_unlock_method := Some UnlockDevice\<rparr>)) (\<lambda>_.
         and_then (persist_device_unlock_message None) (\<lambda>_.
         and_then (draw (now_at env)) (\<lambda>now.
         and_then (on_db (update_device_last_used device_id now)) (\<lambda>_. ok True))))))"

definition recovered_key :: "'d env \<Rightarrow> string \<Rightarrow> vault_header \<Rightarrow> db \<Rightarrow> vault_error + (recovery_bundle \<times> bytes)" where
  "recovered_key env passphrase header conn =
     and_then_r (load_recovery_bundle conn) (\<lambda>stored.
     and_then_r (ok_or stored (CorruptVault ''missing recovery bundle'')) (\<lambda>b.
     and_then_r (derive_wrap_key env (rb_params b) passphrase) (\<lambda>wrap_key.
     and_then_r (decrypt_recovery_master_key env wrap_key (vh_vault_id header) b) (\<lambda>plaintext.
       Inr (b, plaintext)))))"

definition unlock_with_passphrase :: "'d env \<Rightarrow> string \<Rightarrow> string \<Rightarrow> ('d, unit) vprog" where
  "unlock_with_passphrase env passphrase device_name =
     and_then (reads (header_or VaultNotInitialized)) (\<lambda>header.
     and_then (reads_db (recovered_key env passphrase header)) (\<lambda>(b, plaintext).
     and_then (lift_r (key_from_slice plaintext)) (\<lambda>mk.
     and_then (modify (\<lambda>s. s\<lparr>s_master_key := Some mk, s_last_unlock_method := Some UnlockPassphrase\<rparr>)) (\<lambda>_.
       refresh_device_enrollment env device_name))))"

definition rotate_passphrase :: "'d env \<Rightarrow> string \<Rightarrow> string \<Rightarrow> ('d, unit) vprog" where
  "rotate_passphrase env old_passphrase new_passphrase =
     and_then (fail_if (trim new_passphrase = []) EmptyPassphrase) (\<lambda>_.
     and_then (reads (header_or VaultNotInitialized)) (\<lambda>header.
     and_then (reads_db (recovered_key env old_passphrase header)) (\<lambda>(b, plaintext).
     and_then (draw (recommended env)) (\<lambda>new_params.
     and_then (lift_r (derive_wrap_key env new_params new_passphrase)) (\<lambda>new_wrap_key.
     and_then (encrypt_m env new_wrap_key plaintext (recovery_aad env (vh_vault_id header) new_params)) (\<lambda>wrapped.
     and_then (draw (now_at env)) (\<lambda>now.
     and_then (draw (uuid_at env)) (\<lambda>bundle_id.
     and_then (on_db (insert_recovery_bundle
       \<lparr>rb_bundle_id = bundle_id, rb_params = new_params,
        rb_wrapping_nonce = ce_nonce wrapped, rb_wrapped_master_key = ce_ciphertext wrapped,
        rb_created_at = now, rb_updated_at = now\<rparr>)) (\<lambda>_.
     and_then (on_db (update_header_after_rotation now new_params)) (\<lambda>_.
       modify (\<lambda>s. s\<lparr>s_header := map_option
         (\<lambda>h. h\<lparr>vh_recovery_kdf := new_params, vh_updated_at := now\<rparr>) (s_header s)\<rparr>)))))))))))"

definition lock :: "('d, unit) vprog" where
  "lock = modify (\<lambda>s. s\<lparr>s_master_key := None, s_last_unlock_method := None\<rparr>)"

definition current_cursor :: "'d vault_store \<Rightarrow> sync_cursor" where
  "current_cursor s =
     \<lparr>sc_logical_clock = (case s_header s of None \<Rightarrow> 0 | Some h \<Rightarrow> vh_last_logical_clock h)\<rparr>"

section \<open>Frames\<close>

lemma draw_simp [simp]: "draw f s = (Inr (f (s_tick s)), s\<lparr>s_tick := Suc (s_tick s)\<rparr>)"
  by (simp add: draw_def)

lemma on_db_simp: "on_db m s = (fst (m (s_conn s)), s\<lparr>s_conn := snd (m (s_conn s))\<rparr>)"
  by (simp add: on_db_def on_part_def split: prod.split)

lemma reads_db_simp [simp]: "reads_db f s = (f (s_conn s), s)"
  by (simp add: reads_db_def)

lemma set_secret_simp:
  "set_secret env a k s =
     (case fst (dev_set env (s_device_store s) a k) of Inl e \<Rightarrow> Inl (DeviceSecret e) | Inr _ \<Rightarrow> Inr (),
      s\<lparr>s_device_store := snd (dev_set env (s_device_store s) a k)\<rparr>)"
  by (auto simp: set_secret_def split: prod.split sum.split)

text \<open>
  What the invariants speak about: the header row, the recovery bundles, the record rows, the
  cached header and the master key. Everything else (clock draws, the secret store, the local
  state and enrollment tables) is outside the view.
\<close>

type_synonym view =
  "vault_header option \<times> recovery_bundle list \<times> record_row list \<times> vault_header option \<times> bytes option"

definition view :: "'d vault_store \<Rightarrow> view" where
  "view s = (t_vault_header (s_conn s), t_recovery_bundles (s_conn s), t_records (s_conn s),
             s_header s, s_master_key s)"

definition inv_of :: "(view \<Rightarrow> bool) \<Rightarrow> 'd vault_store \<Rightarrow> bool" where
  "inv_of \<Phi> s \<longleftrightarrow> wf_db (s_conn s) \<and> \<Phi> (view s)"

text \<open>A database program that stays outside the view.\<close>

definition frame_db :: "(db, vault_error, 'a) prog \<Rightarrow> bool" where
  "frame_db m \<longleftrightarrow> (\<forall>d. t_vault_header (snd (m d)) = t_vault_header d
     \<and> t_recovery_bundles (snd (m d)) = t_recovery_bundles d \<and> t_records (snd (m d)) = t_records d)"

lemma frame_db_ops [simp]:
  "frame_db (set_local_state k v)"
  "frame_db (delete_local_state k)"
  "frame_db (upsert_device_enrollment e)"
  "frame_db (update_device_last_used i t)"
  "frame_db clear_device_enrollments"
  by (simp_all add: frame_db_def storage_defs)

lemma inv_of_outside [simp]:
  "inv_of \<Phi> (s\<lparr>s_tick := n\<rparr>) = inv_of \<Phi> s"
  "inv_of \<Phi> (s\<lparr>s_device_store := dev\<rparr>) = inv_of \<Phi> s"
  "inv_of \<Phi> (s\<lparr>s_last_unlock_method := u\<rparr>) = inv_of \<Phi> s"
  by (simp_all add: inv_of_def view_def)

lemma keeps_draw [keeps_rules]: "keeps (inv_of \<Phi>) (draw f)"
  by (simp add: keeps_def)

lemma keeps_set_secret [keeps_rules]: "keeps (inv_of \<Phi>) (set_secret env a k)"
  by (simp add: keeps_def set_secret_simp)

lemma keeps_encrypt_m [keeps_rules]: "keeps (inv_of \<Phi>) (encrypt_m env k p a)"
  unfolding encrypt_m_def by (intro keeps_rules)

lemma keeps_reads_db [keeps_rules]: "keeps P (reads_db f)"
  by (simp add: keeps_def)

lemma keeps_on_db_frame: "keeps wf_db m \<Longrightarrow> frame_db m \<Longrightarrow> keeps (inv_of \<Phi>) (on_db m)"
  by (simp add: keeps_def on_db_simp inv_of_def view_def frame_db_def)

lemma keeps_on_db_ops [keeps_rules]:
  "keeps (inv_of \<Phi>) (on_db (set_local_state k v))"
  "keeps (inv_of \<Phi>) (on_db (delete_local_state k))"
  "keeps (inv_of \<Phi>) (on_db (upsert_device_enrollment e))"
  "keeps (inv_of \<Phi>) (on_db (update_device_last_used i t))"
  by (simp_all add: keeps_on_db_frame keeps_rules)

lemma keeps_persist [keeps_rules]: "keeps (inv_of \<Phi>) (persist_device_unlock_message m)"
  unfolding persist_device_unlock_message_def by (intro keeps_rules)

lemma keeps_ensure_device_enrollment [keeps_rules]:
  "keeps (inv_of \<Phi>) (ensure_device_enrollment env n)"
  unfolding ensure_device_enrollment_def local_device_id_def enroll_device_def
  by (intro keeps_rules)

lemma keeps_refresh [keeps_rules]: "keeps (inv_of \<Phi>) (refresh_device_enrollment env n)"
proof (rule keepsI)
  fix s :: "'a vault_store"
  assume s: "inv_of \<Phi> s"
  obtain r t where rt: "ensure_device_enrollment env n s = (r, t)" by fastforce
  with s have "inv_of \<Phi> t" by (rule keeps_eq [OF keeps_ensure_device_enrollment])
  with rt show "inv_of \<Phi> (snd (refresh_device_enrollment env n s))"
    by (auto simp: refresh_device_enrollment_def split: sum.split intro: keepsD [OF keeps_persist])
qed

lemma persist_ok: "fst (persist_device_unlock_message m s) = Inr ()"
  by (simp add: persist_device_unlock_message_def split: option.split)

lemma refresh_ok: "fst (refresh_device_enrollment env n s) = Inr ()"
  by (simp add: refresh_device_enrollment_def persist_ok split: prod.split sum.split)

lemma triple_keep_then:
  assumes "keeps R m" and "\<And>x. triple R (f x) Q (\<lambda>_. I)" and "\<And>s. R s \<Longrightarrow> I s"
  shows "triple R (and_then m f) Q (\<lambda>_. I)"
proof (rule triple_and_then [where R = "\<lambda>_. R"])
  show "triple R m (\<lambda>_. R) (\<lambda>_. I)"
    using assms(1,3) by (auto simp: keeps_triple intro: triple_conseq)
qed (rule assms(2))

lemma triple_of_keeps: "keeps I m \<Longrightarrow> (\<And>s. R s \<Longrightarrow> I s) \<Longrightarrow> triple R m (\<lambda>_. I) (\<lambda>_. I)"
  by (auto simp: keeps_triple intro: triple_conseq)

section \<open>The store invariant\<close>

text \<open>
  The cached header and the header row agree but for the modification time (the two are stamped by
  separate clock readings), no record is newer than the header row's logical clock, a vault that is
  unlocked is initialised and its master key has 32 bytes, and a database without a header has no
  records.
\<close>

definition hdr_agree :: "vault_header \<Rightarrow> vault_header \<Rightarrow> bool" where
  "hdr_agree h row \<longleftrightarrow> h\<lparr>vh_updated_at := vh_updated_at row\<rparr> = row"

fun core_inv :: "view \<Rightarrow> bool" where
  "core_inv (dbh, bs, rows, h, mk) \<longleftrightarrow>
     (\<forall>x. h = Some x \<longrightarrow> (\<exists>y. dbh = Some y \<and> hdr_agree x y))
     \<and> (\<forall>y. dbh = Some y \<longrightarrow> list_all (\<lambda>row. rr_logical_clock row \<le> vh_last_logical_clock y) rows)
     \<and> (\<forall>k. mk = Some k \<longrightarrow> length k = KEY_LEN \<and> h \<noteq> None)
     \<and> (dbh = None \<longrightarrow> rows = [])"

definition vault_inv :: "'d vault_store \<Rightarrow> bool" where
  "vault_inv = inv_of core_inv"

lemma hdr_agree_sel:
  "hdr_agree h row \<Longrightarrow> vh_vault_id row = vh_vault_id h \<and> vh_recovery_kdf row = vh_recovery_kdf h
     \<and> vh_last_logical_clock row = vh_last_logical_clock h"
  by (metis hdr_agree_def vault_header.select_convs(1,4,7) vault_header.surjective
      vault_header.update_convs(6))

lemma vault_inv_wf: "vault_inv s \<Longrightarrow> wf_db (s_conn s)"
  by (simp add: vault_inv_def inv_of_def)

lemma vault_inv_master:
  "vault_inv s \<Longrightarrow> s_master_key s = Some k \<Longrightarrow> length k = KEY_LEN \<and> s_header s \<noteq> None"
  by (simp add: vault_inv_def inv_of_def view_def)

lemma vault_inv_header:
  assumes "vault_inv s" and "s_header s = Some h"
  obtains row where "t_vault_header (s_conn s) = Some row" "hdr_agree h row"
    "vh_vault_id row = vh_vault_id h" "vh_last_logical_clock row = vh_last_logical_clock h"
    "\<And>r. r \<in> set (t_records (s_conn s)) \<Longrightarrow> rr_logical_clock r \<le> vh_last_logical_clock h"
  using assms hdr_agree_sel by (fastforce simp: vault_inv_def inv_of_def view_def list_all_iff)

lemma vault_inv_open:
  "open_with_device_store path dev n (Inr d) = Inr s \<Longrightarrow> wf_db d \<Longrightarrow>
     (\<And>h. t_vault_header d = Some h \<Longrightarrow> list_all (\<lambda>row. rr_logical_clock row \<le> vh_last_logical_clock h) (t_records d)) \<Longrightarrow>
     (t_vault_header d = None \<Longrightarrow> t_records d = []) \<Longrightarrow> vault_inv s"
  by (auto simp: open_with_device_store_def load_header_def and_then_r_Inr vault_inv_def inv_of_def
      view_def hdr_agree_def)

subsection \<open>Creation\<close>

text \<open>The stages of \<open>create_vault\<close>: nothing cached yet, then the header row written.\<close>

fun fresh :: "view \<Rightarrow> bool" where
  "fresh (dbh, bs, rows, h, mk) \<longleftrightarrow> h = None \<and> core_inv (dbh, bs, rows, h, mk)"

fun staged :: "vault_header \<Rightarrow> view \<Rightarrow> bool" where
  "staged x (dbh, bs, rows, h, mk) \<longleftrightarrow> dbh = Some x \<and> rows = [] \<and> h = None \<and> mk = None"

lemma fresh_inv: "inv_of fresh s \<Longrightarrow> vault_inv s"
  by (auto simp: vault_inv_def inv_of_def view_def)

lemma staged_inv: "inv_of (staged h) s \<Longrightarrow> vault_inv s"
  by (simp add: vault_inv_def inv_of_def view_def)

lemma insert_header_stage:
  "triple (inv_of fresh) (on_db (insert_header h)) (\<lambda>_. inv_of (staged h)) (\<lambda>_. vault_inv)"
  by (auto simp: triple_def on_db_simp insert_header_def and_then_def sql_u64_def inv_of_def
      view_def vault_inv_def wf_db_def split: option.splits if_splits)

lemma keeps_staged_bundle: "keeps (inv_of (staged h)) (on_db (insert_recovery_bundle b))"
  using keepsD [OF keeps_wf_insert_recovery_bundle]
  by (auto simp: keeps_def on_db_simp inv_of_def view_def insert_recovery_bundle_def and_then_def)

lemma staged_commit:
  "length k = KEY_LEN \<Longrightarrow>
   triple (inv_of (staged h)) (modify (\<lambda>s. s\<lparr>s_header := Some h, s_master_key := Some k,
     s_last_unlock_method := Some UnlockPassphrase\<rparr>)) (\<lambda>_. vault_inv) (\<lambda>_. vault_inv)"
  by (auto simp: triple_def inv_of_def view_def vault_inv_def hdr_agree_def)

lemma triple_reads:
  "(\<And>s x. P s \<Longrightarrow> f s = Inr x \<Longrightarrow> Q x s) \<Longrightarrow> (\<And>s e. P s \<Longrightarrow> f s = Inl e \<Longrightarrow> E e s) \<Longrightarrow> triple P (reads f) Q E"
  by (auto simp: triple_def split: sum.split)

lemma triple_draw_P:
  "(\<And>s. P s \<Longrightarrow> R (f (s_tick s)) (s\<lparr>s_tick := Suc (s_tick s)\<rparr>)) \<Longrightarrow> triple P (draw f) R E"
  by (simp add: triple_def)

lemma triple_pull: "(C \<Longrightarrow> triple P m Q E) \<Longrightarrow> triple (\<lambda>s. P s \<and> C) m Q E"
  by (auto simp: triple_def)

lemma keeps_create_vault: "draws_sized env \<Longrightarrow> keeps vault_inv (create_vault env p n)"
  unfolding keeps_triple create_vault_def Let_def
  apply (rule triple_and_then [where R = "\<lambda>_. inv_of fresh"])
   apply (rule triple_reads; simp add: vault_inv_def inv_of_def view_def split: if_splits)
  apply (rule triple_keep_then [OF keeps_pure(5) _ fresh_inv])
   apply (rule triple_and_then [where R = "\<lambda>k s. inv_of fresh s \<and> length k = KEY_LEN"])
    apply (rule triple_draw_P, simp add: draws_sized_def)
   apply (rule triple_pull)
   apply (rule triple_keep_then [OF keeps_draw _ fresh_inv])
    apply (rule triple_keep_then [OF keeps_pure(4) _ fresh_inv])
     apply (rule triple_keep_then [OF keeps_draw _ fresh_inv])
      apply (rule triple_keep_then [OF keeps_draw _ fresh_inv])
       apply (rule triple_and_then [OF insert_header_stage])
       apply (rule triple_keep_then [OF keeps_encrypt_m _ staged_inv])
        apply (rule triple_keep_then [OF keeps_draw _ staged_inv])
         apply (rule triple_keep_then [OF keeps_staged_bundle _ staged_inv])
          apply (rule triple_and_then [OF staged_commit])
           apply assumption
          apply (rule triple_of_keeps)
           apply (simp add: vault_inv_def keeps_refresh)
  apply assumption+
  done

subsection \<open>Unlocking, rotating, locking\<close>

lemma keeps_set_key:
  "length k = KEY_LEN \<Longrightarrow> s_header s \<noteq> None \<Longrightarrow> vault_inv s \<Longrightarrow>
     vault_inv (s\<lparr>s_master_key := Some k, s_last_unlock_method := u\<rparr>)"
  by (auto simp: vault_inv_def inv_of_def view_def)

lemma keeps_vault_ops [keeps_rules]:
  "keeps vault_inv (draw f)"
  "keeps vault_inv (persist_device_unlock_message m)"
  "keeps vault_inv (refresh_device_enrollment env n)"
  "keeps vault_inv (encrypt_m env k p a)"
  "keeps vault_inv (on_db (update_device_last_used i t))"
  by (simp_all add: vault_inv_def keeps_rules)

lemma keeps_lock [keeps_rules]: "keeps vault_inv lock"
  by (simp add: keeps_def lock_def vault_inv_def inv_of_def view_def)

lemma unlock_with_passphrase_cases:
  obtains
    (failed) e where "unlock_with_passphrase env p n s = (Inl e, s)"
  | (unlocked) h b k where "s_header s = Some h" "recovered_key env p h (s_conn s) = Inr (b, k)"
      "length k = KEY_LEN"
      "unlock_with_passphrase env p n s = (Inr (), snd (refresh_device_enrollment env n
         (s\<lparr>s_master_key := Some k, s_last_unlock_method := Some UnlockPassphrase\<rparr>)))"
proof (cases "s_header s")
  case None
  then show thesis
    using failed by (simp add: unlock_with_passphrase_def header_or_def and_then_def)
next
  case (Some h)
  show thesis
  proof (cases "recovered_key env p h (s_conn s)")
    case (Inl e)
    with Some show thesis
      using failed by (simp add: unlock_with_passphrase_def header_or_def and_then_def)
  next
    case (Inr bk)
    obtain b k where bk: "bk = (b, k)" by fastforce
    show thesis
    proof (cases "length k = KEY_LEN")
      case True
      with Some Inr bk show thesis
        using unlocked [of h b k] refresh_ok [of env n]
        by (simp add: unlock_with_passphrase_def header_or_def and_then_def prod_eq_iff)
    next
      case False
      with Some Inr bk show thesis
        using failed
        by (simp add: unlock_with_passphrase_def header_or_def and_then_def key_from_slice_def)
    qed
  qed
qed

lemma keeps_unlock_with_passphrase [keeps_rules]: "keeps vault_inv (unlock_with_passphrase env p n)"
proof (rule keepsI)
  fix s :: "'a vault_store"
  assume s: "vault_inv s"
  show "vault_inv (snd (unlock_with_passphrase env p n s))"
  proof (cases rule: unlock_with_passphrase_cases [of env p n s])
    case (failed e)
    with s show ?thesis by simp
  next
    case (unlocked h b k)
    with s have "vault_inv (s\<lparr>s_master_key := Some k, s_last_unlock_method := Some UnlockPassphrase\<rparr>)"
      by (simp add: keeps_set_key)
    with unlocked(4) show ?thesis by (simp add: keepsD [OF keeps_vault_ops(3)])
  qed
qed

lemma device_unlock_key_sized:
  "device_unlock_key env h s = Inr (KeyFound i k) \<Longrightarrow> length k = KEY_LEN"
  by (auto simp: device_unlock_key_def get_local_state_def load_device_enrollment_def
      dest!: key_from_slice_Inr
      split: option.split_asm if_split_asm sum.split_asm device_secret_error.split_asm)

text \<open>The rest of a successful device unlock, after the key is set.\<close>

definition device_unlock_tail :: "'d env \<Rightarrow> string \<Rightarrow> ('d, bool) vprog" where
  "device_unlock_tail env device_id =
     and_then (persist_device_unlock_message None) (\<lambda>_.
     and_then (draw (now_at env)) (\<lambda>now.
     and_then (on_db (update_device_last_used device_id now)) (\<lambda>_. ok True)))"

lemma keeps_device_unlock_tail: "keeps (inv_of \<Phi>) (device_unlock_tail env i)"
  unfolding device_unlock_tail_def by (intro keeps_rules)

lemma device_unlock_tail_ok: "fst (device_unlock_tail env i s) = Inr True"
  by (simp add: device_unlock_tail_def and_then_def persist_ok on_db_simp update_device_last_used_def
      split: prod.split sum.split) (metis fst_conv persist_ok sum.distinct(1))

lemma try_unlock_cases:
  obtains
    (kept) "fst (try_unlock_with_device env s) \<noteq> Inr True"
      "\<And>\<Phi>. inv_of \<Phi> s \<Longrightarrow> inv_of \<Phi> (snd (try_unlock_with_device env s))"
  | (unlocked) h i k where "s_header s = Some h"
      "device_unlock_key env h s = Inr (KeyFound i k)"
      "try_unlock_with_device env s =
         device_unlock_tail env i (s\<lparr>s_master_key := Some k, s_last_unlock_method := Some UnlockDevice\<rparr>)"
proof -
  note def = try_unlock_with_device_def header_or_def
  have msg: "fst (and_then (persist_device_unlock_message m) (\<lambda>_. ok False) s) = Inr False"
    "inv_of \<Phi> s \<Longrightarrow> inv_of \<Phi> (snd (and_then (persist_device_unlock_message m) (\<lambda>_. ok False) s))"
    for m \<Phi> and s :: "'a vault_store"
    by (auto simp: and_then_def split: prod.splits sum.splits)
       (metis fst_conv persist_ok sum.distinct(1), metis keeps_eq keeps_persist, metis keeps_eq keeps_persist)
  show thesis
  proof (cases "s_header s")
    case None
    then show thesis by (intro kept) (auto simp: def and_then_def)
  next
    case h: (Some h)
    show thesis
    proof (cases "device_unlock_key env h s")
      case (Inl e)
      with h show thesis by (intro kept) (auto simp: def and_then_def)
    next
      case (Inr x)
      show thesis
      proof (cases x)
        case (KeyFound i k)
        with h Inr show thesis
          by (intro unlocked [of h i k]) (simp_all add: def device_unlock_tail_def)
      qed (use h Inr msg in \<open>(intro kept; simp add: def)+\<close>)
    qed
  qed
qed

lemma keeps_try_unlock_with_device [keeps_rules]: "keeps vault_inv (try_unlock_with_device env)"
proof (rule keepsI)
  fix s :: "'a vault_store"
  assume s: "vault_inv s"
  show "vault_inv (snd (try_unlock_with_device env s))"
  proof (cases rule: try_unlock_cases [of env s])
    case kept
    with s show ?thesis by (simp add: vault_inv_def)
  next
    case (unlocked h i k)
    then have "vault_inv (s\<lparr>s_master_key := Some k, s_last_unlock_method := Some UnlockDevice\<rparr>)"
      using s device_unlock_key_sized by (intro keeps_set_key) auto
    with unlocked(3) show ?thesis
      by (simp add: vault_inv_def keepsD [OF keeps_device_unlock_tail])
  qed
qed

end
