(* ===== verification/Vault_Records.thy ===== *)
theory Vault_Records
  imports Vault_Store
begin

text \<open>
  The record operations of \<^verbatim>\<open>seance-vault/src/lib.rs\<close>: storing, loading, listing and deleting
  hosts, credentials, keys and port forwards, their validation, the reference checks and the key
  generation and import. A record is encrypted under a fresh record key, which is wrapped with the
  master key; deletion leaves a tombstone.
\<close>

section \<open>Payload types\<close>

text \<open>\<open>Serialize + DeserializeOwned + RecordIdentity\<close> at one payload type.\<close>

record 'a rectype =
  rt_codec :: "'a codec"
  rt_id :: "'a \<Rightarrow> string"
  rt_set_id :: "string \<Rightarrow> 'a \<Rightarrow> 'a"

definition host_type :: "'d env \<Rightarrow> vault_host_profile rectype" where
  "host_type env = \<lparr>rt_codec = host_codec env, rt_id = ho_id, rt_set_id = (\<lambda>i h. h\<lparr>ho_id := i\<rparr>)\<rparr>"

definition credential_type :: "'d env \<Rightarrow> vault_password_credential rectype" where
  "credential_type env =
     \<lparr>rt_codec = credential_codec env, rt_id = cr_id, rt_set_id = (\<lambda>i c. c\<lparr>cr_id := i\<rparr>)\<rparr>"

definition key_type :: "'d env \<Rightarrow> vault_private_key rectype" where
  "key_type env = \<lparr>rt_codec = key_codec env, rt_id = pk_id, rt_set_id = (\<lambda>i k. k\<lparr>pk_id := i\<rparr>)\<rparr>"

definition port_forward_type :: "'d env \<Rightarrow> vault_port_forward_profile rectype" where
  "port_forward_type env =
     \<lparr>rt_codec = port_forward_codec env, rt_id = pf_id, rt_set_id = (\<lambda>i p. p\<lparr>pf_id := i\<rparr>)\<rparr>"

definition json_result :: "string + 'a \<Rightarrow> vault_error + 'a" where
  "json_result r = (case r of Inl e \<Rightarrow> Inl (Serialization e) | Inr x \<Rightarrow> Inr x)"

section \<open>Generic record operations\<close>

text \<open>
  The stamp both writers take: the bumped clock of the header row, a clock reading, and the cached
  header brought up to both.
\<close>

definition next_version :: "'d env \<Rightarrow> ('d, u64 \<times> i64) vprog" where
  "next_version env =
     and_then (draw (now_at env)) (\<lambda>bumped_at.
     and_then (on_db (bump_logical_clock bumped_at)) (\<lambda>logical_clock.
     and_then (draw (now_at env)) (\<lambda>modified_at.
     and_then (modify (\<lambda>s. s\<lparr>s_header := map_option
       (\<lambda>h. h\<lparr>vh_last_logical_clock := logical_clock, vh_updated_at := modified_at\<rparr>) (s_header s)\<rparr>)) (\<lambda>_.
       ok (logical_clock, modified_at)))))"

text \<open>
  The second half of \<open>store_record\<close>, from the fresh record key on: encrypt the payload, wrap the key,
  write the row.
\<close>

definition seal_and_write ::
  "'d env \<Rightarrow> 'a rectype \<Rightarrow> record_kind \<Rightarrow> bytes \<Rightarrow> string \<Rightarrow> u64 option \<Rightarrow> 'a \<Rightarrow> u64 \<times> i64 \<Rightarrow> ('d, 'a) vprog" where
  "seal_and_write env T kind mk vault_id synced v =
     (\<lambda>(logical_clock, modified_at).
     and_then (draw (key_at env)) (\<lambda>record_key.
     and_then (lift_r (json_result (to_json (rt_codec T) v))) (\<lambda>payload.
     and_then (encrypt_m env record_key payload
       (record_aad vault_id (rt_id T v) kind RECORD_SCHEMA_VERSION)) (\<lambda>payload_envelope.
     and_then (encrypt_m env mk record_key (record_key_aad vault_id (rt_id T v))) (\<lambda>wrapped.
     and_then (on_db (upsert_record
       \<lparr>er_record_id = rt_id T v, er_kind = kind, er_version = RECORD_SCHEMA_VERSION,
        er_logical_clock = logical_clock, er_modified_at = modified_at, er_deleted_at = None,
        er_key_nonce = ce_nonce wrapped, er_wrapped_record_key = ce_ciphertext wrapped,
        er_payload_nonce = ce_nonce payload_envelope,
        er_payload_ciphertext = ce_ciphertext payload_envelope,
        er_last_synced_clock = synced, er_sync_state = Pending\<rparr>)) (\<lambda>_.
       ok v))))))"

definition store_record :: "'d env \<Rightarrow> 'a rectype \<Rightarrow> 'a \<Rightarrow> record_kind \<Rightarrow> ('d, 'a) vprog" where
  "store_record env T x kind =
     and_then (reads master_key) (\<lambda>mk.
     and_then (reads (header_or VaultNotInitialized)) (\<lambda>header.
     and_then (if rt_id T x = [] then and_then (draw (uuid_at env)) (\<lambda>i. ok (rt_set_id T i x)) else ok x) (\<lambda>v.
     and_then (reads_db (load_record (rt_id T v) kind)) (\<lambda>previous.
     let previous_sync_clock = Option.bind previous er_last_synced_clock in
     and_then (next_version env)
       (seal_and_write env T kind mk (vh_vault_id header) previous_sync_clock v)))))"

definition decrypt_record :: "'d env \<Rightarrow> 'a codec \<Rightarrow> 'd vault_store \<Rightarrow> encrypted_record \<Rightarrow> vault_error + 'a" where
  "decrypt_record env C s r =
     and_then_r (master_key s) (\<lambda>mk.
     and_then_r (header_or VaultNotInitialized s) (\<lambda>header.
     and_then_r (decrypt env mk (er_key_nonce r) (er_wrapped_record_key r)
                   (utf8 (record_key_aad (vh_vault_id header) (er_record_id r)))) (\<lambda>wrapped.
     and_then_r (key_from_slice wrapped) (\<lambda>record_key.
     and_then_r (decrypt env record_key (er_payload_nonce r) (er_payload_ciphertext r)
                   (utf8 (record_aad (vh_vault_id header) (er_record_id r) (er_kind r) (er_version r)))) (\<lambda>payload.
       json_result (of_json C payload))))))"

definition load_record_payload ::
  "'d env \<Rightarrow> 'a codec \<Rightarrow> string \<Rightarrow> record_kind \<Rightarrow> 'd vault_store \<Rightarrow> vault_error + 'a option" where
  "load_record_payload env C record_id kind s =
     and_then_r (load_record record_id kind (s_conn s)) (\<lambda>stored.
     case stored of
       None \<Rightarrow> Inr None
     | Some r \<Rightarrow>
         if er_deleted_at r \<noteq> None then Inr None
         else and_then_r (decrypt_record env C s r) (\<lambda>x. Inr (Some x)))"

text \<open>The derived \<open>Debug\<close> output of a kind.\<close>

fun kind_debug :: "record_kind \<Rightarrow> string" where
  "kind_debug KHost = ''Host''"
| "kind_debug KPasswordCredential = ''PasswordCredential''"
| "kind_debug KPrivateKey = ''PrivateKey''"
| "kind_debug KSnippet = ''Snippet''"
| "kind_debug KPortForward = ''PortForward''"

definition record_modified_at :: "string \<Rightarrow> record_kind \<Rightarrow> 'd vault_store \<Rightarrow> vault_error + i64" where
  "record_modified_at record_id kind s =
     and_then_r (load_record record_id kind (s_conn s)) (\<lambda>stored.
     and_then_r (ok_or stored (CorruptVault (''missing '' @ kind_debug kind @ '' record '' @ record_id))) (\<lambda>r.
       Inr (er_modified_at r)))"

definition delete_record :: "'d env \<Rightarrow> string \<Rightarrow> record_kind \<Rightarrow> ('d, bool) vprog" where
  "delete_record env record_id kind =
     and_then (reads_db (load_record record_id kind)) (\<lambda>stored.
     case stored of
       None \<Rightarrow> ok False
     | Some r \<Rightarrow>
         if er_deleted_at r \<noteq> None then ok False
         else
           and_then (next_version env) (\<lambda>(logical_clock, modified_at).
           and_then (on_db (upsert_record
             (r\<lparr>er_logical_clock := logical_clock, er_modified_at := modified_at,
                er_deleted_at := Some modified_at, er_sync_state := Pending\<rparr>))) (\<lambda>_. ok True)))"

definition list_payloads ::
  "'d env \<Rightarrow> 'a codec \<Rightarrow> record_kind \<Rightarrow> ('a \<Rightarrow> encrypted_record \<Rightarrow> 'b) \<Rightarrow> 'd vault_store \<Rightarrow> vault_error + 'b list" where
  "list_payloads env C kind f s =
     and_then_r (list_records_by_kind kind (s_conn s)) (\<lambda>rs.
       try_map (\<lambda>r. and_then_r (decrypt_record env C s r) (\<lambda>x. Inr (f x r))) rs)"

section \<open>Listing and loading\<close>

definition list_host_profiles :: "'d env \<Rightarrow> 'd vault_store \<Rightarrow> vault_error + host_summary list" where
  "list_host_profiles env =
     list_payloads env (host_codec env) KHost (\<lambda>h r. host_summary_of h (er_modified_at r))"

definition list_host_auth_summaries :: "'d env \<Rightarrow> 'd vault_store \<Rightarrow> vault_error + host_auth_summary list" where
  "list_host_auth_summaries env = list_payloads env (host_codec env) KHost (\<lambda>h r. auth_summary h)"

definition list_password_credentials :: "'d env \<Rightarrow> 'd vault_store \<Rightarrow> vault_error + credential_summary list" where
  "list_password_credentials env =
     list_payloads env (credential_codec env) KPasswordCredential
       (\<lambda>c r. credential_summary_of c (er_modified_at r))"

definition list_private_keys :: "'d env \<Rightarrow> 'd vault_store \<Rightarrow> vault_error + key_summary list" where
  "list_private_keys env =
     list_payloads env (key_codec env) KPrivateKey (\<lambda>k r. key_summary_of k (er_modified_at r))"

definition list_port_forwards :: "'d env \<Rightarrow> 'd vault_store \<Rightarrow> vault_error + port_forward_summary list" where
  "list_port_forwards env =
     list_payloads env (port_forward_codec env) KPortForward
       (\<lambda>p r. port_forward_summary_of p (er_modified_at r))"

definition load_host_profile :: "'d env \<Rightarrow> string \<Rightarrow> 'd vault_store \<Rightarrow> vault_error + vault_host_profile option" where
  "load_host_profile env i = load_record_payload env (host_codec env) i KHost"

definition load_password_credential ::
  "'d env \<Rightarrow> string \<Rightarrow> 'd vault_store \<Rightarrow> vault_error + vault_password_credential option" where
  "load_password_credential env i = load_record_payload env (credential_codec env) i KPasswordCredential"

definition load_private_key :: "'d env \<Rightarrow> string \<Rightarrow> 'd vault_store \<Rightarrow> vault_error + vault_private_key option" where
  "load_private_key env i = load_record_payload env (key_codec env) i KPrivateKey"

definition load_port_forward ::
  "'d env \<Rightarrow> string \<Rightarrow> 'd vault_store \<Rightarrow> vault_error + vault_port_forward_profile option" where
  "load_port_forward env i = load_record_payload env (port_forward_codec env) i KPortForward"

definition active_hosts :: "'d env \<Rightarrow> 'd vault_store \<Rightarrow> vault_error + vault_host_profile list" where
  "active_hosts env = list_payloads env (host_codec env) KHost (\<lambda>h r. h)"

definition active_port_forwards :: "'d env \<Rightarrow> 'd vault_store \<Rightarrow> vault_error + vault_port_forward_profile list" where
  "active_port_forwards env = list_payloads env (port_forward_codec env) KPortForward (\<lambda>p r. p)"

section \<open>Validation\<close>

definition validate_host :: "vault_host_profile \<Rightarrow> vault_error + unit" where
  "validate_host h =
     (if trim (ho_label h) = [] then Inl EmptyHostLabel
      else if trim (ho_hostname h) = [] then Inl EmptyHostName
      else if trim (ho_username h) = [] then Inl EmptyHostUser
      else Inr ())"

definition require_credential :: "'d env \<Rightarrow> 'd vault_store \<Rightarrow> string \<Rightarrow> vault_error + unit" where
  "require_credential env s i =
     and_then_r (load_record_payload env (credential_codec env) i KPasswordCredential s) (\<lambda>c.
       if c = None then Inl (MissingCredentialReference i) else Inr ())"

definition validate_auth_ref :: "'d env \<Rightarrow> 'd vault_store \<Rightarrow> host_auth_ref \<Rightarrow> vault_error + unit" where
  "validate_auth_ref env s a =
     (case a of
        AuthPassword credential_id \<Rightarrow> require_credential env s credential_id
      | AuthPrivateKey key_id passphrase_credential_id \<Rightarrow>
          and_then_r (load_record_payload env (key_codec env) key_id KPrivateKey s) (\<lambda>k.
          if k = None then Inl (MissingPrivateKeyReference key_id)
          else (case passphrase_credential_id of
                  None \<Rightarrow> Inr ()
                | Some passphrase_id \<Rightarrow> require_credential env s passphrase_id)))"

definition validate_host_auth_refs :: "'d env \<Rightarrow> 'd vault_store \<Rightarrow> vault_host_profile \<Rightarrow> vault_error + unit" where
  "validate_host_auth_refs env s h = for_each (validate_auth_ref env s) (ho_auth_order h)"

fun auth_uses_credential :: "string \<Rightarrow> host_auth_ref \<Rightarrow> bool" where
  "auth_uses_credential i (AuthPassword c) \<longleftrightarrow> c = i"
| "auth_uses_credential i (AuthPrivateKey k p) \<longleftrightarrow> p = Some i"

fun auth_uses_key :: "string \<Rightarrow> host_auth_ref \<Rightarrow> bool" where
  "auth_uses_key i (AuthPassword c) \<longleftrightarrow> False"
| "auth_uses_key i (AuthPrivateKey k p) \<longleftrightarrow> k = i"

definition ensure_credential_not_referenced :: "'d env \<Rightarrow> string \<Rightarrow> 'd vault_store \<Rightarrow> vault_error + unit" where
  "ensure_credential_not_referenced env credential_id s =
     and_then_r (active_hosts env s) (\<lambda>hosts.
       for_each (\<lambda>h. if list_ex (auth_uses_credential credential_id) (ho_auth_order h)
                     then Inl (CredentialInUse credential_id (ho_id h)) else Inr ()) hosts)"

definition ensure_private_key_not_referenced :: "'d env \<Rightarrow> string \<Rightarrow> 'd vault_store \<Rightarrow> vault_error + unit" where
  "ensure_private_key_not_referenced env key_id s =
     and_then_r (active_hosts env s) (\<lambda>hosts.
       for_each (\<lambda>h. if list_ex (auth_uses_key key_id) (ho_auth_order h)
                     then Inl (PrivateKeyInUse key_id (ho_id h)) else Inr ()) hosts)"

definition ensure_host_not_referenced :: "'d env \<Rightarrow> string \<Rightarrow> 'd vault_store \<Rightarrow> vault_error + unit" where
  "ensure_host_not_referenced env host_id s =
     and_then_r (active_port_forwards env s) (\<lambda>forwards.
       for_each (\<lambda>p. if pf_host_id p = host_id
                     then Inl (HostInUseByPortForward host_id (pf_id p)) else Inr ()) forwards)"

definition validate_password_credential :: "vault_password_credential \<Rightarrow> vault_error + unit" where
  "validate_password_credential c =
     (if trim (cr_label c) = [] then Inl EmptyCredentialLabel
      else if trim (cr_secret c) = [] then Inl EmptyCredentialSecret
      else Inr ())"

definition validate_private_key :: "'d env \<Rightarrow> vault_private_key \<Rightarrow> vault_error + unit" where
  "validate_private_key env k =
     (if trim (pk_label k) = [] then Inl EmptyPrivateKeyLabel
      else if trim (pk_private_key_pem k) = [] then Inl EmptyPrivateKey
      else
        and_then_r (ssh_result (from_openssh env (pk_private_key_pem k))) (\<lambda>parsed.
        and_then_r (private_key_algorithm_of parsed) (\<lambda>algorithm.
          if algorithm \<noteq> pk_algorithm k
          then Inl (CorruptVault ''private key algorithm metadata does not match the encoded key'')
          else Inr ())))"

definition same_endpoint :: "vault_port_forward_profile \<Rightarrow> vault_port_forward_profile \<Rightarrow> bool" where
  "same_endpoint existing p \<longleftrightarrow>
     pf_host_id existing = pf_host_id p \<and> pf_mode existing = pf_mode p
     \<and> pf_listen_port existing = pf_listen_port p
     \<and> eq_ignore_ascii_case (pf_listen_address existing) (trim (pf_listen_address p))"

definition validate_port_forward ::
  "'d env \<Rightarrow> vault_port_forward_profile \<Rightarrow> 'd vault_store \<Rightarrow> vault_error + unit" where
  "validate_port_forward env p s =
     (if trim (pf_label p) = [] then Inl EmptyPortForwardLabel
      else if trim (pf_host_id p) = [] then Inl EmptyPortForwardHostReference
      else if trim (pf_listen_address p) = [] then Inl EmptyPortForwardListenAddress
      else if trim (pf_target_address p) = [] then Inl EmptyPortForwardTargetAddress
      else if pf_listen_port p = 0 \<or> pf_target_port p = 0 then Inl InvalidPortForwardPort
      else
        and_then_r (load_host_profile env (pf_host_id p) s) (\<lambda>host.
        if host = None then Inl (MissingHostReference (pf_host_id p))
        else
          and_then_r (active_port_forwards env s) (\<lambda>forwards.
            for_each (\<lambda>existing.
              if pf_id existing = pf_id p then Inr ()
              else if same_endpoint existing p
              then Inl (DuplicatePortForwardListenEndpoint (pf_host_id p) (pf_label existing)
                     (pf_listen_address existing) (pf_listen_port existing))
              else Inr ()) forwards)))"

section \<open>Storing and deleting\<close>

text \<open>
  The four store methods share their last steps: an empty identifier is replaced by a fresh one, the
  record is stored, its modification time read back and the summary returned. (\<open>store_record\<close> would
  itself replace an empty identifier, but never sees one.)
\<close>

definition store_payload ::
  "'d env \<Rightarrow> 'a rectype \<Rightarrow> record_kind \<Rightarrow> ('a \<Rightarrow> i64 \<Rightarrow> 'b) \<Rightarrow> 'a \<Rightarrow> ('d, 'b) vprog" where
  "store_payload env T kind summary x =
     and_then (if rt_id T x = [] then and_then (draw (uuid_at env)) (\<lambda>i. ok (rt_set_id T i x)) else ok x) (\<lambda>v.
     and_then (store_record env T v kind) (\<lambda>w.
     and_then (reads (record_modified_at (rt_id T w) kind)) (\<lambda>modified_at.
       ok (summary w modified_at))))"

definition store_host_profile :: "'d env \<Rightarrow> vault_host_profile \<Rightarrow> ('d, host_summary) vprog" where
  "store_host_profile env h =
     and_then (lift_r (validate_host h)) (\<lambda>_.
     and_then (reads (\<lambda>s. validate_host_auth_refs env s h)) (\<lambda>_.
       store_payload env (host_type env) KHost host_summary_of h))"

definition store_password_credential ::
  "'d env \<Rightarrow> vault_password_credential \<Rightarrow> ('d, credential_summary) vprog" where
  "store_password_credential env c =
     and_then (lift_r (validate_password_credential c)) (\<lambda>_.
       store_payload env (credential_type env) KPasswordCredential credential_summary_of c)"

definition store_private_key :: "'d env \<Rightarrow> vault_private_key \<Rightarrow> ('d, key_summary) vprog" where
  "store_private_key env k =
     and_then (lift_r (validate_private_key env k)) (\<lambda>_.
       store_payload env (key_type env) KPrivateKey key_summary_of k)"

definition store_port_forward ::
  "'d env \<Rightarrow> vault_port_forward_profile \<Rightarrow> ('d, port_forward_summary) vprog" where
  "store_port_forward env p =
     and_then (reads (validate_port_forward env p)) (\<lambda>_.
       store_payload env (port_forward_type env) KPortForward port_forward_summary_of p)"

definition delete_host_profile :: "'d env \<Rightarrow> string \<Rightarrow> ('d, bool) vprog" where
  "delete_host_profile env i =
     and_then (reads (ensure_host_not_referenced env i)) (\<lambda>_. delete_record env i KHost)"

definition delete_password_credential :: "'d env \<Rightarrow> string \<Rightarrow> ('d, bool) vprog" where
  "delete_password_credential env i =
     and_then (reads (ensure_credential_not_referenced env i)) (\<lambda>_. delete_record env i KPasswordCredential)"

definition delete_private_key :: "'d env \<Rightarrow> string \<Rightarrow> ('d, bool) vprog" where
  "delete_private_key env i =
     and_then (reads (ensure_private_key_not_referenced env i)) (\<lambda>_. delete_record env i KPrivateKey)"

definition delete_port_forward :: "'d env \<Rightarrow> string \<Rightarrow> ('d, bool) vprog" where
  "delete_port_forward env i = delete_record env i KPortForward"

section \<open>Generating and importing keys\<close>

definition generate_private_key :: "'d env \<Rightarrow> generate_key_request \<Rightarrow> ('d, key_summary) vprog" where
  "generate_private_key env request =
     and_then (fail_if (trim (gk_label request) = []) EmptyPrivateKeyLabel) (\<lambda>_.
     and_then (case gk_algorithm request of
                 GenEd25519 \<Rightarrow>
                   and_then (draw (ed25519_at env)) (\<lambda>k.
                   and_then (lift_r (ssh_result k)) (\<lambda>key. ok (key, Ed25519)))
               | GenRsa requested \<Rightarrow>
                   (let bits = (if requested = 0 then DEFAULT_RSA_BITS else requested) in
                    and_then (draw (\<lambda>n. rsa_at env n (unat bits))) (\<lambda>k.
                    and_then (lift_r (ssh_result k)) (\<lambda>key. ok (key, Rsa bits)))))
       (\<lambda>(key, algorithm).
     and_then (lift_r (ssh_result (sk_public_openssh key))) (\<lambda>pub.
     and_then (lift_r (ssh_result (sk_private_openssh key))) (\<lambda>pem.
       store_private_key env
         \<lparr>pk_id = [], pk_label = gk_label request, pk_algorithm = algorithm,
          pk_public_key_openssh = pub, pk_private_key_pem = pem,
          pk_encrypted_at_rest = sk_is_encrypted key, pk_source = Generated\<rparr>))))"

definition import_private_key :: "'d env \<Rightarrow> import_key_request \<Rightarrow> ('d, key_summary) vprog" where
  "import_private_key env request =
     and_then (lift_r (ssh_result (from_openssh env (ik_private_key_pem request)))) (\<lambda>key.
     and_then (lift_r (private_key_algorithm_of key)) (\<lambda>algorithm.
     and_then (lift_r (ssh_result (sk_public_openssh key))) (\<lambda>pub.
       store_private_key env
         \<lparr>pk_id = [], pk_label = ik_label request, pk_algorithm = algorithm,
          pk_public_key_openssh = pub, pk_private_key_pem = ik_private_key_pem request,
          pk_encrypted_at_rest = sk_is_encrypted key, pk_source = Imported\<rparr>)))"

end
