(* ===== verification/Vault_Unlock.thy ===== *)
theory Vault_Unlock
  imports Vault_Store
begin

text \<open>
  What creation, rotation and unlocking guarantee about the master key: the passphrase that made
  (or last rotated) the recovery bundle recovers exactly the key the records are wrapped with, an
  enrolled device recovers the same key, and a failed unlock changes nothing.
\<close>

section \<open>Enrollment does not touch the view\<close>

lemma view_on_db_frame: "frame_db m \<Longrightarrow> view (snd (on_db m s)) = view s"
  by (simp add: on_db_simp view_def frame_db_def)

lemma keeps_view_on_db: "frame_db m \<Longrightarrow> keeps (\<lambda>s. view s = v) (on_db m)"
  by (simp add: keeps_def view_on_db_frame)

lemma keeps_view_ops [keeps_rules]:
  "keeps (\<lambda>s. view s = v) (draw f)"
  "keeps (\<lambda>s. view s = v) (set_secret env a k)"
  "keeps (\<lambda>s. view s = v) (on_db (set_local_state x y))"
  "keeps (\<lambda>s. view s = v) (on_db (delete_local_state x))"
  "keeps (\<lambda>s. view s = v) (on_db (upsert_device_enrollment e))"
  "keeps (\<lambda>s. view s = v) (on_db (update_device_last_used i n))"
  by (simp_all add: keeps_view_on_db) (simp_all add: keeps_def view_def set_secret_simp)

lemma keeps_view_encrypt [keeps_rules]: "keeps (\<lambda>s. view s = v) (encrypt_m env k p a)"
  unfolding encrypt_m_def by (intro keeps_rules)

lemma keeps_view_persist [keeps_rules]: "keeps (\<lambda>s. view s = v) (persist_device_unlock_message m)"
  unfolding persist_device_unlock_message_def by (intro keeps_rules)

lemma keeps_view_ensure: "keeps (\<lambda>s. view s = v) (ensure_device_enrollment env n)"
  unfolding ensure_device_enrollment_def local_device_id_def enroll_device_def
  by (intro keeps_rules)

lemma refresh_view: "view (snd (refresh_device_enrollment env n s)) = view s"
proof -
  have "view (snd (ensure_device_enrollment env n s)) = view s"
    by (rule keepsD [OF keeps_view_ensure]) simp
  then show ?thesis
    by (auto simp: refresh_device_enrollment_def split: prod.split sum.split
        intro!: keepsD [OF keeps_view_persist])
qed

section \<open>Recoverable keys\<close>

text \<open>The passphrase opens the stored recovery bundle and yields \<open>k\<close>.\<close>

definition recoverable :: "'d env \<Rightarrow> string \<Rightarrow> bytes \<Rightarrow> view \<Rightarrow> bool" where
  "recoverable env p k v \<longleftrightarrow>
     (case v of (dbh, bs, rows, h, mk) \<Rightarrow>
        \<exists>row b. dbh = Some row \<and> bs = [b] \<and> length k = KEY_LEN
          \<and> (\<exists>wk. derive_wrap_key env (rb_params b) p = Inr wk
               \<and> decrypt_recovery_master_key env wk (vh_vault_id row) b = Inr k))"

lemma recovered_key_recoverable:
  assumes "recoverable env p k (view s)" and "t_vault_header (s_conn s) = Some row"
    and "vh_vault_id row = vh_vault_id h"
  shows "\<exists>b. recovered_key env p h (s_conn s) = Inr (b, k)"
  using assms
  by (auto simp: recoverable_def view_def recovered_key_def load_recovery_bundle_def)

lemma recovered_key_Inr:
  assumes "recovered_key env p h d = Inr (b, k)" and "length (t_recovery_bundles d) \<le> 1"
  shows "t_recovery_bundles d = [b]
     \<and> (\<exists>wk. derive_wrap_key env (rb_params b) p = Inr wk
          \<and> decrypt_recovery_master_key env wk (vh_vault_id h) b = Inr k)"
  using assms
  by (auto simp: recovered_key_def load_recovery_bundle_def and_then_r_Inr split: list.splits)

section \<open>Creation\<close>

lemma on_db_Inr: "on_db m s = (Inr x, t) \<longleftrightarrow> (\<exists>d. m (s_conn s) = (Inr x, d) \<and> t = s\<lparr>s_conn := d\<rparr>)"
  by (auto simp: on_db_simp prod_eq_iff)

lemma insert_header_Inr:
  "insert_header h d = (Inr u, d') \<longleftrightarrow>
     fits_i64 (vh_last_logical_clock h) \<and> t_vault_header d = None \<and> d' = d\<lparr>t_vault_header := Some h\<rparr>"
  by (auto simp: insert_header_def and_then_def sql_u64_def split: option.splits)

lemma insert_recovery_bundle_simp:
  "insert_recovery_bundle b d = (Inr (), d\<lparr>t_recovery_bundles := [b]\<rparr>)"
  by (simp add: insert_recovery_bundle_def and_then_def)

text \<open>The header and the bundle that \<open>create_vault\<close> writes when \<open>m\<close> values were drawn before it.\<close>

definition created_header :: "'d env \<Rightarrow> nat \<Rightarrow> vault_header" where
  "created_header env m =
     \<lparr>vh_vault_id = uuid_at env (m + 3), vh_schema_version = VAULT_SCHEMA_VERSION,
      vh_cipher = ''xchacha20poly1305'', vh_recovery_kdf = recommended env (m + 1),
      vh_created_at = now_at env (m + 2), vh_updated_at = now_at env (m + 2),
      vh_last_logical_clock = 0\<rparr>"

definition created_bundle :: "'d env \<Rightarrow> nat \<Rightarrow> cipher_envelope \<Rightarrow> recovery_bundle" where
  "created_bundle env m c =
     \<lparr>rb_bundle_id = uuid_at env (m + 5), rb_params = recommended env (m + 1),
      rb_wrapping_nonce = ce_nonce c, rb_wrapped_master_key = ce_ciphertext c,
      rb_created_at = now_at env (m + 2), rb_updated_at = now_at env (m + 2)\<rparr>"

definition created_store :: "'d env \<Rightarrow> cipher_envelope \<Rightarrow> 'd vault_store \<Rightarrow> 'd vault_store" where
  "created_store env c s =
     s\<lparr>s_tick := s_tick s + 6,
       s_conn := (s_conn s)\<lparr>t_vault_header := Some (created_header env (s_tick s)),
                          t_recovery_bundles := [created_bundle env (s_tick s) c]\<rparr>,
       s_header := Some (created_header env (s_tick s)),
       s_master_key := Some (key_at env (s_tick s)),
       s_last_unlock_method := Some UnlockPassphrase\<rparr>"

lemma create_vault_Inr:
  assumes "create_vault env p n s = (Inr u, t)"
  shows "\<exists>wk c. derive_wrap_key env (recommended env (s_tick s + 1)) p = Inr wk
    \<and> encrypt env (nonce_at env (s_tick s + 4)) wk (key_at env (s_tick s))
        (utf8 (recovery_aad env (uuid_at env (s_tick s + 3)) (recommended env (s_tick s + 1)))) = Inr c
    \<and> t = snd (refresh_device_enrollment env n (created_store env c s))
    \<and> trim p \<noteq> [] \<and> s_header s = None \<and> t_vault_header (s_conn s) = None"
  using assms
  by (auto simp: create_vault_def Let_def and_then_eq_Inr encrypt_m_def on_db_Inr insert_header_Inr
      insert_recovery_bundle_simp created_store_def created_header_def created_bundle_def
      numeral_eq_Suc split: if_splits)

text \<open>The view of a created vault, and that its passphrase recovers its key.\<close>

lemma create_vault_view:
  assumes "create_vault env p n s = (Inr u, t)" and "aead_correct env" and "draws_sized env"
    and "vault_inv s"
  shows "vault_inv t"
    and "\<exists>c. view t = view (created_store env c s)"
    and "recoverable env p (key_at env (s_tick s)) (view t)"
proof -
  from create_vault_Inr [OF assms(1)] obtain wk c
    where wk: "derive_wrap_key env (recommended env (s_tick s + 1)) p = Inr wk"
      and c: "encrypt env (nonce_at env (s_tick s + 4)) wk (key_at env (s_tick s))
        (utf8 (recovery_aad env (uuid_at env (s_tick s + 3)) (recommended env (s_tick s + 1)))) = Inr c"
      and t: "t = snd (refresh_device_enrollment env n (created_store env c s))" by blast
  show inv: "vault_inv t"
    using keeps_eq [OF keeps_create_vault [OF assms(3)] assms(4,1)] .
  have v: "view t = view (created_store env c s)"
    by (simp add: t refresh_view)
  then show "\<exists>c. view t = view (created_store env c s)" by blast
  have "length (nonce_at env (s_tick s + 4)) = NONCE_LEN" "length (key_at env (s_tick s)) = KEY_LEN"
    using assms(3) by (simp_all add: draws_sized_def)
  with decrypt_recovery_encrypt [OF assms(2) _ c] wk
  show "recoverable env p (key_at env (s_tick s)) (view t)"
    unfolding v
    by (simp add: recoverable_def view_def created_store_def created_header_def created_bundle_def)
qed

section \<open>Unlocking with the passphrase\<close>

lemma unlock_recoverable:
  assumes "recoverable env p k (view s)" and "s_header s = Some h"
    and "t_vault_header (s_conn s) = Some row" and "vh_vault_id row = vh_vault_id h"
  shows "\<exists>t. unlock_with_passphrase env p n s = (Inr (), t) \<and> s_master_key t = Some k
           \<and> t_records (s_conn t) = t_records (s_conn s) \<and> s_header t = s_header s"
proof -
  from recovered_key_recoverable [OF assms(1,3,4)] obtain b
    where b: "recovered_key env p h (s_conn s) = Inr (b, k)" by blast
  have k: "length k = KEY_LEN" using assms(1) by (auto simp: recoverable_def view_def)
  let ?s = "s\<lparr>s_master_key := Some k, s_last_unlock_method := Some UnlockPassphrase\<rparr>"
  have run: "unlock_with_passphrase env p n s = refresh_device_enrollment env n ?s"
    using assms(2) b k by (simp add: unlock_with_passphrase_def header_or_def)
  have "view (snd (refresh_device_enrollment env n ?s)) = view ?s"
    by (rule refresh_view)
  then show ?thesis
    using refresh_ok [of env n ?s] unfolding run
    by (intro exI [of _ "snd (refresh_device_enrollment env n ?s)"]) (auto simp: prod_eq_iff view_def)
qed

section \<open>Rotation\<close>

definition rotated_store :: "'d env \<Rightarrow> cipher_envelope \<Rightarrow> 'd vault_store \<Rightarrow> 'd vault_store" where
  "rotated_store env c s =
     (let prm = recommended env (s_tick s); now = now_at env (s_tick s + 2);
          upd = map_option (\<lambda>h. h\<lparr>vh_recovery_kdf := prm, vh_updated_at := now\<rparr>);
          b = \<lparr>rb_bundle_id = uuid_at env (s_tick s + 3), rb_params = prm,
               rb_wrapping_nonce = ce_nonce c, rb_wrapped_master_key = ce_ciphertext c,
               rb_created_at = now, rb_updated_at = now\<rparr>
      in s\<lparr>s_tick := s_tick s + 4,
           s_conn := (s_conn s)\<lparr>t_recovery_bundles := [b],
                                t_vault_header := upd (t_vault_header (s_conn s))\<rparr>,
           s_header := upd (s_header s)\<rparr>)"

lemma rotate_passphrase_Inr:
  assumes "rotate_passphrase env old new s = (Inr u, t)"
  shows "\<exists>h b k wk c. s_header s = Some h \<and> recovered_key env old h (s_conn s) = Inr (b, k)
    \<and> derive_wrap_key env (recommended env (s_tick s)) new = Inr wk
    \<and> encrypt env (nonce_at env (s_tick s + 1)) wk k
        (utf8 (recovery_aad env (vh_vault_id h) (recommended env (s_tick s)))) = Inr c
    \<and> t = rotated_store env c s \<and> trim new \<noteq> []"
  using assms
  by (auto simp: rotate_passphrase_def and_then_eq_Inr encrypt_m_def on_db_Inr header_or_def
      insert_recovery_bundle_simp update_header_after_rotation_def rotated_store_def Let_def
      numeral_eq_Suc split: if_splits prod.splits)

lemma rotate_passphrase_Inl:
  assumes "rotate_passphrase env old new s = (Inl e, t)"
  shows "view t = view s" and "wf_db (s_conn s) \<Longrightarrow> wf_db (s_conn t)"
  using assms
  by (auto simp: rotate_passphrase_def and_then_eq_Inl encrypt_m_def on_db_simp header_or_def
      insert_recovery_bundle_simp update_header_after_rotation_def view_def
      split: if_splits prod.splits)

lemma hdr_agree_kdf:
  "hdr_agree a b \<Longrightarrow>
     hdr_agree (a\<lparr>vh_recovery_kdf := x, vh_updated_at := t\<rparr>) (b\<lparr>vh_recovery_kdf := x, vh_updated_at := u\<rparr>)"
  by (cases a; cases b) (auto simp: hdr_agree_def)

lemma rotated_inv: "vault_inv s \<Longrightarrow> vault_inv (rotated_store env c s)"
  by (cases "s_header s"; cases "t_vault_header (s_conn s)")
     (auto simp: rotated_store_def Let_def vault_inv_def inv_of_def view_def wf_db_def hdr_agree_kdf)

lemma keeps_rotate_passphrase [keeps_rules]: "keeps vault_inv (rotate_passphrase env old new)"
proof (rule keepsI)
  fix s :: "'a vault_store"
  assume s: "vault_inv s"
  obtain r t where rt: "rotate_passphrase env old new s = (r, t)" by fastforce
  show "vault_inv (snd (rotate_passphrase env old new s))"
  proof (cases r)
    case (Inl e)
    with rt s rotate_passphrase_Inl [of env old new s e t] show ?thesis
      by (auto simp: vault_inv_def inv_of_def)
  next
    case (Inr u)
    with rt rotate_passphrase_Inr [of env old new s u t] s show ?thesis
      by (auto simp: rotated_inv)
  qed
qed

lemma rotate_recoverable:
  assumes "rotate_passphrase env old new s = (Inr u, t)" and "vault_inv s"
    and "aead_correct env" and "draws_sized env"
  shows "\<exists>b k h. s_header s = Some h \<and> recovered_key env old h (s_conn s) = Inr (b, k)
     \<and> (length k = KEY_LEN \<longrightarrow> recoverable env new k (view t))"
proof -
  from rotate_passphrase_Inr [OF assms(1)] obtain h b k wk c
    where h: "s_header s = Some h" and b: "recovered_key env old h (s_conn s) = Inr (b, k)"
      and wk: "derive_wrap_key env (recommended env (s_tick s)) new = Inr wk"
      and c: "encrypt env (nonce_at env (s_tick s + 1)) wk k
        (utf8 (recovery_aad env (vh_vault_id h) (recommended env (s_tick s)))) = Inr c"
      and t: "t = rotated_store env c s" by blast
  obtain row where row: "t_vault_header (s_conn s) = Some row" "vh_vault_id row = vh_vault_id h"
    using vault_inv_header [OF assms(2) h] by metis
  have "length (nonce_at env (s_tick s + 1)) = NONCE_LEN"
    using assms(4) by (simp add: draws_sized_def)
  with decrypt_recovery_encrypt [OF assms(3) _ c] wk row
  have "length k = KEY_LEN \<longrightarrow> recoverable env new k (view t)"
    by (simp add: t rotated_store_def Let_def recoverable_def view_def)
  with h b show ?thesis by blast
qed

section \<open>Device unlock\<close>

text \<open>The platform's secret store returns the secret it last accepted for an account.\<close>

definition dev_lawful :: "'d env \<Rightarrow> bool" where
  "dev_lawful env \<longleftrightarrow>
     (\<forall>d a k d'. dev_set env d a k = (Inr (), d') \<longrightarrow> dev_get env d' a = Inr (Some k))"

lemma get_set_local_state:
  "get_local_state k (d\<lparr>t_local_state := upsert_row fst merge_state (k', v) (t_local_state d)\<rparr>) =
     (if k = k' then Inr (Some v) else get_local_state k d)"
  using state_table.lookup_upsert_same [of "(k', v)" "t_local_state d"]
    state_table.lookup_upsert_other [of k "(k', v)" "t_local_state d"]
  by (auto simp: get_local_state_def merge_state_def split: option.splits)

lemma get_delete_local_state:
  "get_local_state k (d\<lparr>t_local_state := delete_row fst k' (t_local_state d)\<rparr>) =
     (if k = k' then Inr None else get_local_state k d)"
  by (simp add: get_local_state_def lookup_delete_row)

lemma get_local_state_cong:
  "t_local_state d = t_local_state d' \<Longrightarrow> get_local_state k d = get_local_state k d'"
  by (simp add: get_local_state_def)

lemma load_upsert_enrollment:
  "\<exists>c. load_device_enrollment (de_device_id e)
     (d\<lparr>t_device_enrollments := upsert_row de_device_id merge_enrollment e (t_device_enrollments d)\<rparr>)
     = Inr (Some (e\<lparr>de_created_at := c\<rparr>))"
  using dev_table.lookup_upsert_same [of e "t_device_enrollments d"]
  by (cases "lookup_row de_device_id (de_device_id e) (t_device_enrollments d)")
     (auto simp: load_device_enrollment_def merge_enrollment_def intro: exI [of _ "de_created_at e"])

lemma local_device_id_Inr:
  assumes "local_device_id env s = (Inr i, t)"
  shows "s_device_store t = s_device_store s \<and> get_local_state DEVICE_STATE_KEY (s_conn t) = Inr (Some i)"
proof (cases "get_local_state DEVICE_STATE_KEY (s_conn s)")
  case (Inr x)
  with assms show ?thesis
    by (cases x) (auto simp: local_device_id_def on_db_simp set_local_state_def get_set_local_state)
qed (simp add: get_local_state_def)

lemma enroll_device_Inr:
  assumes "enroll_device env n h k i s = (Inr u, t)" and "draws_sized env"
  obtains dk nn c now where
    "dev_set env (s_device_store s) (device_account_name (vh_vault_id h) i) dk = (Inr (), s_device_store t)"
    "length dk = KEY_LEN" "length nn = NONCE_LEN"
    "encrypt env nn dk k (utf8 (device_wrap_aad (vh_vault_id h) i)) = Inr c"
    "s_conn t = (s_conn s)\<lparr>t_device_enrollments := upsert_row de_device_id merge_enrollment
       \<lparr>de_device_id = i, de_device_name = n, de_wrapping_nonce = ce_nonce c,
        de_wrapped_master_key = ce_ciphertext c, de_created_at = now, de_last_used_at = now,
        de_revoked_at = None\<rparr> (t_device_enrollments (s_conn s))\<rparr>"
proof -
  from assms(1) have "\<exists>c. dev_set env (s_device_store s) (device_account_name (vh_vault_id h) i)
        (key_at env (s_tick s)) = (Inr (), s_device_store t)
    \<and> encrypt env (nonce_at env (Suc (s_tick s))) (key_at env (s_tick s)) k
        (utf8 (device_wrap_aad (vh_vault_id h) i)) = Inr c
    \<and> s_conn t = (s_conn s)\<lparr>t_device_enrollments := upsert_row de_device_id merge_enrollment
       \<lparr>de_device_id = i, de_device_name = n, de_wrapping_nonce = ce_nonce c,
        de_wrapped_master_key = ce_ciphertext c, de_created_at = now_at env (Suc (Suc (s_tick s))),
        de_last_used_at = now_at env (Suc (Suc (s_tick s))), de_revoked_at = None\<rparr>
       (t_device_enrollments (s_conn s))\<rparr>"
    by (auto simp: enroll_device_def and_then_eq_Inr encrypt_m_def on_db_simp set_secret_def
        upsert_device_enrollment_def split: prod.splits sum.splits)
  moreover have "length (key_at env m) = KEY_LEN" "length (nonce_at env m) = NONCE_LEN" for m
    using assms(2) by (simp_all add: draws_sized_def)
  ultimately show thesis by (elim exE conjE) (rule that)
qed

text \<open>A successful enrollment: the device key is in the secret store and opens the new envelope.\<close>

lemma ensure_device_enrollment_Inr:
  assumes run: "ensure_device_enrollment env n s = (Inr u, t)"
    and h: "s_header s = Some h" and k: "s_master_key s = Some k" "length k = KEY_LEN"
    and env: "aead_correct env" "draws_sized env" "dev_lawful env"
  shows "\<exists>i. device_unlock_key env h t = Inr (KeyFound i k)"
proof -
  from run h k obtain i s' where id: "local_device_id env s = (Inr i, s')"
    and rest: "enroll_device env n h k i s' = (Inr u, t)"
    by (auto simp: ensure_device_enrollment_def and_then_eq_Inr header_or_def master_key_def)
  from enroll_device_Inr [OF rest env(2)] obtain dk nn c now where
      set: "dev_set env (s_device_store s') (device_account_name (vh_vault_id h) i) dk = (Inr (), s_device_store t)"
    and len: "length dk = KEY_LEN" "length nn = NONCE_LEN"
    and c: "encrypt env nn dk k (utf8 (device_wrap_aad (vh_vault_id h) i)) = Inr c"
    and t: "s_conn t = (s_conn s')\<lparr>t_device_enrollments := upsert_row de_device_id merge_enrollment
       \<lparr>de_device_id = i, de_device_name = n, de_wrapping_nonce = ce_nonce c,
        de_wrapped_master_key = ce_ciphertext c, de_created_at = now, de_last_used_at = now,
        de_revoked_at = None\<rparr> (t_device_enrollments (s_conn s'))\<rparr>" by blast
  have "get_local_state DEVICE_STATE_KEY (s_conn t) = Inr (Some i)"
    using local_device_id_Inr [OF id] by (simp add: t get_local_state_def)
  moreover obtain ca where "load_device_enrollment i (s_conn t) = Inr (Some
      \<lparr>de_device_id = i, de_device_name = n, de_wrapping_nonce = ce_nonce c,
       de_wrapped_master_key = ce_ciphertext c, de_created_at = ca, de_last_used_at = now,
       de_revoked_at = None\<rparr>)"
    using load_upsert_enrollment [of "\<lparr>de_device_id = i, de_device_name = n, de_wrapping_nonce = ce_nonce c,
          de_wrapped_master_key = ce_ciphertext c, de_created_at = now, de_last_used_at = now,
          de_revoked_at = None\<rparr>" "s_conn s'"] by (auto simp: t)
  moreover have "dev_get env (s_device_store t) (device_account_name (vh_vault_id h) i) = Inr (Some dk)"
    using env(3) set by (simp add: dev_lawful_def)
  ultimately show ?thesis
    using decrypt_encrypt [OF env(1) len(2) c] len(1) k(2) by (simp add: device_unlock_key_def)
qed

lemma device_unlock_key_cong:
  assumes "s_device_store s = s_device_store t"
    and "get_local_state DEVICE_STATE_KEY (s_conn s) = get_local_state DEVICE_STATE_KEY (s_conn t)"
    and "t_device_enrollments (s_conn s) = t_device_enrollments (s_conn t)"
  shows "device_unlock_key env h s = device_unlock_key env h t"
  unfolding device_unlock_key_def load_device_enrollment_def assms ..

lemma refresh_available:
  assumes "refresh_device_enrollment env n s = (r, t)"
    and "s_header s = Some h" and "s_master_key s = Some k" and "length k = KEY_LEN"
    and "aead_correct env" and "draws_sized env" and "dev_lawful env"
    and av: "st_device_unlock_available (status t)"
  shows "\<exists>i. device_unlock_key env h t = Inr (KeyFound i k)"
proof (cases "ensure_device_enrollment env n s")
  case (Pair res s')
  show ?thesis
  proof (cases res)
    case (Inl e)
    with assms(1) Pair have "st_device_unlock_message (status t) \<noteq> None"
      by (auto simp: refresh_device_enrollment_def persist_device_unlock_message_def on_db_simp
          set_local_state_def status_def Let_def get_set_local_state)
    with av show ?thesis by (simp add: status_def Let_def)
  next
    case (Inr u)
    with ensure_device_enrollment_Inr [of env n s u s' h k] Pair assms
    obtain i where i: "device_unlock_key env h s' = Inr (KeyFound i k)" by blast
    have "device_unlock_key env h t = device_unlock_key env h s'"
      using assms(1) Pair Inr
      by (intro device_unlock_key_cong)
         (auto simp: refresh_device_enrollment_def persist_device_unlock_message_def on_db_simp
          delete_local_state_def get_delete_local_state DEVICE_STATE_KEY_def
          DEVICE_UNLOCK_MESSAGE_KEY_def)
    with i show ?thesis by simp
  qed
qed

lemma try_unlock_KeyFound:
  assumes "s_header s = Some h" and "device_unlock_key env h s = Inr (KeyFound i k)"
  shows "fst (try_unlock_with_device env s) = Inr True"
    and "s_master_key (snd (try_unlock_with_device env s)) = Some k"
    and "t_records (s_conn (snd (try_unlock_with_device env s))) = t_records (s_conn s)"
proof -
  let ?s = "s\<lparr>s_master_key := Some k, s_last_unlock_method := Some UnlockDevice\<rparr>"
  have run: "try_unlock_with_device env s = device_unlock_tail env i ?s"
    using assms by (simp add: try_unlock_with_device_def header_or_def device_unlock_tail_def)
  have "keeps (\<lambda>u. view u = view ?s) (device_unlock_tail env i)"
    unfolding device_unlock_tail_def by (intro keeps_rules)
  then have v: "view (snd (device_unlock_tail env i ?s)) = view ?s"
    by (rule keepsD) simp
  show "fst (try_unlock_with_device env s) = Inr True"
    by (simp add: run device_unlock_tail_ok)
  show "s_master_key (snd (try_unlock_with_device env s)) = Some k"
    and "t_records (s_conn (snd (try_unlock_with_device env s))) = t_records (s_conn s)"
    using v by (simp_all add: run view_def)
qed

end
