(* ===== verification/Vault_Collections.thy ===== *)
theory Vault_Collections
  imports Vault_Records Vault_Unlock
begin

text \<open>
  What the record operations guarantee: the store invariant survives each of them, a stored record
  is read back until it is overwritten or deleted and no other record is touched, the logical clock
  moves strictly forward. The contract of a typed collection (store, load, delete) is a locale; the
  hosts, credentials, keys and port forwards are its instances.
\<close>

section \<open>The next version\<close>

definition stamped_store :: "'d env \<Rightarrow> vault_header \<Rightarrow> 'd vault_store \<Rightarrow> 'd vault_store" where
  "stamped_store env row s =
     (let c = vh_last_logical_clock row + 1; now = now_at env (Suc (s_tick s)) in
      s\<lparr>s_tick := Suc (Suc (s_tick s)),
        s_conn := (s_conn s)\<lparr>t_vault_header := Some (row\<lparr>vh_last_logical_clock := c,
                    vh_updated_at := now_at env (s_tick s)\<rparr>)\<rparr>,
        s_header := map_option (\<lambda>h. h\<lparr>vh_last_logical_clock := c, vh_updated_at := now\<rparr>) (s_header s)\<rparr>)"

lemma next_version_Inr:
  assumes "next_version env s = (Inr (c, m), t)"
  obtains row where "t_vault_header (s_conn s) = Some row" "c = vh_last_logical_clock row + 1"
    "fits_i64 c" "t = stamped_store env row s" "m = now_at env (Suc (s_tick s))"
  using assms
  by (auto simp: next_version_def and_then_eq_Inr on_db_Inr stamped_store_def Let_def
      elim!: bump_logical_clock_Inr)

lemma on_db_Inl: "on_db m s = (Inl e, t) \<longleftrightarrow> (\<exists>d. m (s_conn s) = (Inl e, d) \<and> t = s\<lparr>s_conn := d\<rparr>)"
  by (auto simp: on_db_simp prod_eq_iff)

lemma next_version_Inl: "next_version env s = (Inl e, t) \<Longrightarrow> t = s\<lparr>s_tick := Suc (s_tick s)\<rparr>"
  by (auto simp: next_version_def and_then_eq_Inl on_db_Inl dest!: bump_logical_clock_Inl)

text \<open>The state between the stamp and the write: the invariant, with the header at the new clock.\<close>

fun stamped :: "u64 \<Rightarrow> view \<Rightarrow> bool" where
  "stamped c (dbh, bs, rows, h, mk) \<longleftrightarrow> core_inv (dbh, bs, rows, h, mk)
     \<and> (\<exists>y. dbh = Some y \<and> vh_last_logical_clock y = c)"

lemma stamped_inv: "inv_of (stamped c) s \<Longrightarrow> vault_inv s"
  by (auto simp: vault_inv_def inv_of_def view_def)

lemma hdr_agree_clock:
  "hdr_agree a b \<Longrightarrow>
     hdr_agree (a\<lparr>vh_last_logical_clock := c, vh_updated_at := t\<rparr>)
       (b\<lparr>vh_last_logical_clock := c, vh_updated_at := u\<rparr>)"
  by (cases a; cases b) (auto simp: hdr_agree_def)

lemma stamped_stamped_store:
  assumes "vault_inv s" and "t_vault_header (s_conn s) = Some row"
    and "c = vh_last_logical_clock row + 1" and "fits_i64 c"
  shows "inv_of (stamped c) (stamped_store env row s)"
proof -
  have "fits_i64 (vh_last_logical_clock row)"
    using assms(1,2) by (auto simp: vault_inv_def inv_of_def wf_db_def)
  with assms(3,4) have less: "vh_last_logical_clock row < c"
    using fits_i64_Suc by blast
  have wf: "wf_db (s_conn (stamped_store env row s))"
    using assms vault_inv_wf [OF assms(1)] by (auto simp: stamped_store_def Let_def wf_db_def)
  have "list_all (\<lambda>r. rr_logical_clock r \<le> vh_last_logical_clock row) (t_records (s_conn s))"
    using assms(1,2) by (simp add: vault_inv_def inv_of_def view_def)
  with less have "list_all (\<lambda>r. rr_logical_clock r \<le> c) (t_records (s_conn s))"
    by (auto simp: list_all_iff)
  with assms wf show ?thesis
    by (cases "s_header s")
       (auto simp: vault_inv_def inv_of_def stamped_store_def Let_def view_def hdr_agree_clock)
qed

lemma next_version_stamps:
  "triple vault_inv (next_version env) (\<lambda>(c, m). inv_of (stamped c)) (\<lambda>_. vault_inv)"
proof -
  have "inv_of (stamped c) t" if "vault_inv s" "next_version env s = (Inr (c, m), t)" for s t c m
    using next_version_Inr [OF that(2)] stamped_stamped_store [OF that(1)] by metis
  moreover have "vault_inv t" if "vault_inv s" "next_version env s = (Inl e, t)" for s t e
    using next_version_Inl [OF that(2)] that(1) by (simp add: vault_inv_def)
  ultimately show ?thesis
    by (fastforce simp: triple_def split: prod.split sum.split)
qed

lemma triple_both: "(\<And>s. P s \<Longrightarrow> I (snd (m s))) \<Longrightarrow> triple P m (\<lambda>_. I) (\<lambda>_. I)"
  by (fastforce simp: triple_def split: prod.split sum.split)

lemma upsert_stamped_inv:
  assumes s: "inv_of (stamped (er_logical_clock r)) s" and d: "upsert_record r (s_conn s) = (res, d)"
  shows "vault_inv (s\<lparr>s_conn := d\<rparr>)"
proof (cases res)
  case (Inl e)
  with d s show ?thesis using upsert_record_Inl stamped_inv by fastforce
next
  case (Inr u)
  have wf: "wf_db d" using keeps_eq [OF keeps_wf_upsert_record _ d] s by (simp add: inv_of_def)
  have "list_all (\<lambda>row. rr_logical_clock row \<le> er_logical_clock r)
      (upsert_row rr_record_id overwrite_row (row_of_record r) rows)"
    if "list_all (\<lambda>row. rr_logical_clock row \<le> er_logical_clock r) rows" for rows
    using that by (auto simp: list_all_iff overwrite_row_def dest!: set_upsert_row)
  with s wf show ?thesis
    unfolding upsert_record_Inr(1) [OF d [unfolded Inr]]
    by (auto simp: vault_inv_def inv_of_def view_def)
qed

lemma upsert_stamped:
  "er_logical_clock r = c \<Longrightarrow>
   triple (inv_of (stamped c)) (on_db (upsert_record r)) (\<lambda>_. vault_inv) (\<lambda>_. vault_inv)"
  by (rule triple_both) (auto simp: on_db_simp intro: upsert_stamped_inv prod.collapse [symmetric])

lemma triple_same: "(\<And>s. P s \<Longrightarrow> Q s) \<Longrightarrow> keeps P m \<Longrightarrow> triple P m (\<lambda>_. P) (\<lambda>_. Q)"
  by (auto simp: keeps_triple intro: triple_conseq)

lemma keeps_versioned:
  assumes "\<And>c m. triple (inv_of (stamped c)) (f (c, m)) (\<lambda>_. vault_inv) (\<lambda>_. vault_inv)"
  shows "keeps vault_inv (and_then (next_version env) f)"
  unfolding keeps_triple
proof (rule triple_and_then [OF next_version_stamps])
  show "triple (case x of (c, m) \<Rightarrow> inv_of (stamped c)) (f x) (\<lambda>_. vault_inv) (\<lambda>_. vault_inv)" for x
    by (cases x) (simp add: assms)
qed

section \<open>The invariant survives every record operation\<close>

lemma keeps_store_record [keeps_rules]: "keeps vault_inv (store_record env T x kind)"
  unfolding store_record_def seal_and_write_def Let_def
  apply (rule keeps_and_then, intro keeps_rules)+
  apply (rule keeps_versioned)
  subgoal for mk h v prev c m
    apply (simp only: prod.case)
    apply (rule triple_keep_then [OF keeps_draw _ stamped_inv], rule triple_keep_then [OF keeps_pure(4) _ stamped_inv],
        rule triple_keep_then [OF keeps_encrypt_m _ stamped_inv], rule triple_keep_then [OF keeps_encrypt_m _ stamped_inv],
        rule triple_and_then [OF upsert_stamped], simp, rule triple_ok)
        apply assumption+
    done
  done

lemma keeps_delete_record [keeps_rules]: "keeps vault_inv (delete_record env i kind)"
  unfolding delete_record_def
  apply (rule keeps_and_then, intro keeps_rules)
  apply (rule keeps_case_option keeps_if keeps_pure keeps_versioned)+
  apply (simp only: prod.case)
  apply (rule triple_and_then [OF upsert_stamped], simp, rule triple_ok)
  apply assumption
  done

lemma keeps_store_payload [keeps_rules]: "keeps vault_inv (store_payload env T kind f x)"
  unfolding store_payload_def by (intro keeps_rules)

lemma keeps_record_ops [keeps_rules]:
  "keeps vault_inv (store_host_profile env h)"
  "keeps vault_inv (store_password_credential env c)"
  "keeps vault_inv (store_private_key env k)"
  "keeps vault_inv (store_port_forward env p)"
  "keeps vault_inv (delete_host_profile env i)"
  "keeps vault_inv (delete_password_credential env i)"
  "keeps vault_inv (delete_private_key env i)"
  "keeps vault_inv (delete_port_forward env i)"
  unfolding store_host_profile_def store_password_credential_def store_private_key_def
    store_port_forward_def delete_host_profile_def delete_password_credential_def
    delete_private_key_def delete_port_forward_def
  by (intro keeps_rules)+

lemma keeps_generate_import [keeps_rules]:
  "keeps vault_inv (generate_private_key env g)"
  "keeps vault_inv (import_private_key env i)"
  unfolding generate_private_key_def import_private_key_def Let_def
  by (auto intro!: keeps_rules split: generate_key_algorithm.split)

section \<open>What a store and a delete write\<close>

text \<open>Decryption depends on the master key and the vault identifier alone.\<close>

definition key_view :: "'d vault_store \<Rightarrow> bytes option \<times> string option" where
  "key_view s = (s_master_key s, map_option vh_vault_id (s_header s))"

lemma decrypt_record_cong: "key_view s = key_view t \<Longrightarrow> decrypt_record env C s r = decrypt_record env C t r"
  by (cases "s_header s"; cases "s_header t")
     (simp_all add: key_view_def decrypt_record_def master_key_def header_or_def)

text \<open>
  \<open>writes env C x kind i s t\<close>: the step from \<open>s\<close> to \<open>t\<close> put at \<open>i\<close> an active record of the kind that
  decrypts to \<open>x\<close>, left every other record and the keys alone, and advanced the clock by one.
\<close>

definition clock_of :: "'d vault_store \<Rightarrow> u64" where
  "clock_of s = sc_logical_clock (current_cursor s)"

definition same_elsewhere :: "string \<Rightarrow> 'd vault_store \<Rightarrow> 'd vault_store \<Rightarrow> bool" where
  "same_elsewhere i s t \<longleftrightarrow> key_view t = key_view s
     \<and> t_recovery_bundles (s_conn t) = t_recovery_bundles (s_conn s)
     \<and> (\<forall>j. j \<noteq> i \<longrightarrow> record_at (s_conn t) j = record_at (s_conn s) j)"

lemma key_view_stamped [simp]: "key_view (stamped_store env row s) = key_view s"
  by (cases "s_header s") (simp_all add: key_view_def stamped_store_def Let_def)

lemma stamped_store_sel [simp]:
  "t_records (s_conn (stamped_store env row s)) = t_records (s_conn s)"
  "t_recovery_bundles (s_conn (stamped_store env row s)) = t_recovery_bundles (s_conn s)"
  "s_master_key (stamped_store env row s) = s_master_key s"
  by (simp_all add: stamped_store_def Let_def)

lemma record_at_stamped [simp]: "record_at (s_conn (stamped_store env row s)) = record_at (s_conn s)"
  by (rule record_at_cong) simp

lemma key_view_outside [simp]:
  "key_view (s\<lparr>s_tick := n\<rparr>) = key_view s" "key_view (s\<lparr>s_conn := d\<rparr>) = key_view s"
  by (simp_all add: key_view_def)

definition stored_value :: "'d env \<Rightarrow> 'a rectype \<Rightarrow> 'a \<Rightarrow> 'd vault_store \<Rightarrow> 'a" where
  "stored_value env T x s = (if rt_id T x = [] then rt_set_id T (uuid_at env (s_tick s)) x else x)"

text \<open>The record \<open>store_record\<close> writes, by the draws it makes.\<close>

definition sealed :: "'d env \<Rightarrow> 'a rectype \<Rightarrow> bytes \<Rightarrow> string \<Rightarrow> record_kind \<Rightarrow> 'a \<Rightarrow> encrypted_record \<Rightarrow> bool" where
  "sealed env T mk vault_id kind v r \<longleftrightarrow>
     er_record_id r = rt_id T v \<and> er_kind r = kind \<and> er_deleted_at r = None
     \<and> er_version r = RECORD_SCHEMA_VERSION \<and> er_sync_state r = Pending
     \<and> (\<exists>n rk payload pe we.
          to_json (rt_codec T) v = Inr payload \<and> rk = key_at env n
          \<and> encrypt env (nonce_at env (Suc n)) rk payload
              (utf8 (record_aad vault_id (rt_id T v) kind RECORD_SCHEMA_VERSION)) = Inr pe
          \<and> encrypt env (nonce_at env (Suc (Suc n))) mk rk
              (utf8 (record_key_aad vault_id (rt_id T v))) = Inr we
          \<and> er_key_nonce r = ce_nonce we \<and> er_wrapped_record_key r = ce_ciphertext we
          \<and> er_payload_nonce r = ce_nonce pe \<and> er_payload_ciphertext r = ce_ciphertext pe)"

lemma json_result_Inr [simp]: "json_result r = Inr x \<longleftrightarrow> r = Inr x"
  by (simp add: json_result_def split: sum.split)

lemma decrypt_sealed:
  assumes "sealed env T mk (vh_vault_id h) kind v r" and "s_master_key s = Some mk" and "s_header s = Some h"
    and "aead_correct env" and "draws_sized env" and "json_correct (rt_codec T)"
  shows "decrypt_record env (rt_codec T) s r = Inr v"
proof -
  from assms(1) obtain n payload pe we where
      j: "to_json (rt_codec T) v = Inr payload"
    and p: "encrypt env (nonce_at env (Suc n)) (key_at env n) payload
              (utf8 (record_aad (vh_vault_id h) (rt_id T v) kind RECORD_SCHEMA_VERSION)) = Inr pe"
    and w: "encrypt env (nonce_at env (Suc (Suc n))) mk (key_at env n)
              (utf8 (record_key_aad (vh_vault_id h) (rt_id T v))) = Inr we"
    and r: "er_key_nonce r = ce_nonce we" "er_wrapped_record_key r = ce_ciphertext we"
      "er_payload_nonce r = ce_nonce pe" "er_payload_ciphertext r = ce_ciphertext pe"
      "er_record_id r = rt_id T v" "er_kind r = kind" "er_version r = RECORD_SCHEMA_VERSION"
    unfolding sealed_def by blast
  have len: "length (key_at env m) = KEY_LEN" "length (nonce_at env m) = NONCE_LEN" for m
    using assms(5) by (simp_all add: draws_sized_def)
  have "of_json (rt_codec T) payload = Inr v"
    using assms(6) j by (simp add: json_correct_def)
  with decrypt_encrypt [OF assms(4) len(2) p] decrypt_encrypt [OF assms(4) len(2) w] len assms(2,3)
  show ?thesis by (simp add: decrypt_record_def master_key_def header_or_def r)
qed

lemma record_at_upsert_conn:
  assumes "upsert_record r d = (Inr u, d')"
  shows "record_at d' i = (if i = er_record_id r then Some r else record_at d i)"
    and "t_recovery_bundles d' = t_recovery_bundles d"
  unfolding upsert_record_Inr(1) [OF assms] by (simp_all add: record_at_upsert)

text \<open>A stamped upsert, as both writers end: the clock is one further, one record is written.\<close>

lemma stamped_upsert:
  assumes "vault_inv s" and "next_version env s = (Inr (c, m), s')"
    and "upsert_record r (s_conn s') = (Inr u, d)" and "er_logical_clock r = c" and "er_record_id r = i"
  shows "record_at d i = Some r"
    and "key_view s' = key_view s \<and> t_recovery_bundles d = t_recovery_bundles (s_conn s)
          \<and> (\<forall>j. j \<noteq> i \<longrightarrow> record_at d j = record_at (s_conn s) j)"
    and "s_header s = Some h \<Longrightarrow> clock_of s' = clock_of s + 1 \<and> c = clock_of s'"
proof -
  from assms(2) obtain row where row: "t_vault_header (s_conn s) = Some row"
      "c = vh_last_logical_clock row + 1" and s': "s' = stamped_store env row s"
    by (rule next_version_Inr)
  from record_at_upsert_conn [OF assms(3)] assms(5)
  show "record_at d i = Some r"
    and "key_view s' = key_view s \<and> t_recovery_bundles d = t_recovery_bundles (s_conn s)
          \<and> (\<forall>j. j \<noteq> i \<longrightarrow> record_at d j = record_at (s_conn s) j)"
    by (simp_all add: s')
  assume h: "s_header s = Some h"
  with vault_inv_header [OF assms(1) h] row have "vh_last_logical_clock row = vh_last_logical_clock h"
    by (metis option.inject)
  with h row show "clock_of s' = clock_of s + 1 \<and> c = clock_of s'"
    by (simp add: s' clock_of_def current_cursor_def stamped_store_def Let_def)
qed

lemma clock_of_outside [simp]:
  "clock_of (s\<lparr>s_tick := n\<rparr>) = clock_of s" "clock_of (s\<lparr>s_conn := d\<rparr>) = clock_of s"
  by (simp_all add: clock_of_def current_cursor_def)

definition sealed_record ::
  "'a rectype \<Rightarrow> record_kind \<Rightarrow> u64 option \<Rightarrow> 'a \<Rightarrow> u64 \<Rightarrow> i64 \<Rightarrow> cipher_envelope \<Rightarrow> cipher_envelope \<Rightarrow> encrypted_record" where
  "sealed_record T kind synced v c m pe we =
     \<lparr>er_record_id = rt_id T v, er_kind = kind, er_version = RECORD_SCHEMA_VERSION,
      er_logical_clock = c, er_modified_at = m, er_deleted_at = None,
      er_key_nonce = ce_nonce we, er_wrapped_record_key = ce_ciphertext we,
      er_payload_nonce = ce_nonce pe, er_payload_ciphertext = ce_ciphertext pe,
      er_last_synced_clock = synced, er_sync_state = Pending\<rparr>"

lemma seal_and_write_Inr:
  assumes "seal_and_write env T kind mk vault_id synced v (c, m) s = (Inr w, t)"
  shows "w = v \<and> (\<exists>r u d n. sealed env T mk vault_id kind v r \<and> er_logical_clock r = c \<and> er_modified_at r = m
     \<and> er_last_synced_clock r = synced
     \<and> upsert_record r (s_conn s) = (Inr u, d) \<and> t = s\<lparr>s_tick := n, s_conn := d\<rparr>)"
proof -
  from assms obtain payload pe we d where
      j: "to_json (rt_codec T) v = Inr payload"
    and p: "encrypt env (nonce_at env (Suc (s_tick s))) (key_at env (s_tick s)) payload
              (utf8 (record_aad vault_id (rt_id T v) kind RECORD_SCHEMA_VERSION)) = Inr pe"
    and w: "encrypt env (nonce_at env (Suc (Suc (s_tick s)))) mk (key_at env (s_tick s))
              (utf8 (record_key_aad vault_id (rt_id T v))) = Inr we"
    and d: "upsert_record (sealed_record T kind synced v c m pe we) (s_conn s) = (Inr (), d)"
    and t: "w = v" "t = s\<lparr>s_tick := Suc (Suc (Suc (s_tick s))), s_conn := d\<rparr>"
    by (auto simp: seal_and_write_def and_then_eq_Inr encrypt_m_def on_db_Inr sealed_record_def)
  have "sealed env T mk vault_id kind v (sealed_record T kind synced v c m pe we)"
    using j p w unfolding sealed_def sealed_record_def by auto
  moreover have "er_logical_clock (sealed_record T kind synced v c m pe we) = c"
    "er_modified_at (sealed_record T kind synced v c m pe we) = m"
    "er_last_synced_clock (sealed_record T kind synced v c m pe we) = synced"
    by (simp_all add: sealed_record_def)
  ultimately show ?thesis using d t by blast
qed

lemma vault_inv_tick [simp]: "vault_inv (s\<lparr>s_tick := n\<rparr>) = vault_inv s"
  by (simp add: vault_inv_def)

lemma store_record_run:
  assumes "store_record env T x kind s = (Inr w, t)"
  obtains mk h n prev c m s' where "s_master_key s = Some mk" "s_header s = Some h"
    "next_version env (s\<lparr>s_tick := n\<rparr>) = (Inr (c, m), s')"
    "load_record (rt_id T (stored_value env T x s)) kind (s_conn s) = Inr prev"
    "seal_and_write env T kind mk (vh_vault_id h) (Option.bind prev er_last_synced_clock)
       (stored_value env T x s) (c, m) s' = (Inr w, t)"
proof -
  let ?v = "stored_value env T x s"
  from assms obtain mk h prev n r s' where "s_master_key s = Some mk" "s_header s = Some h"
      "load_record (rt_id T ?v) kind (s_conn s) = Inr prev"
      "next_version env (s\<lparr>s_tick := n\<rparr>) = (Inr r, s')"
      "seal_and_write env T kind mk (vh_vault_id h) (Option.bind prev er_last_synced_clock) ?v r s' = (Inr w, t)"
    by (cases "rt_id T x = []"; cases s)
       (auto simp: store_record_def and_then_eq_Inr master_key_def header_or_def Let_def stored_value_def)
  then show thesis by (cases r) (auto intro: that)
qed

lemma store_record_Inr:
  assumes "store_record env T x kind s = (Inr v, t)" and "vault_inv s"
  shows "v = stored_value env T x s
    \<and> (\<exists>mk h r. s_master_key s = Some mk \<and> s_header s = Some h
        \<and> sealed env T mk (vh_vault_id h) kind v r
        \<and> record_at (s_conn t) (rt_id T v) = Some r \<and> same_elsewhere (rt_id T v) s t
        \<and> clock_of t = clock_of s + 1 \<and> er_logical_clock r = clock_of t)"
proof -
  from assms(1) obtain mk h n c m s' and prev :: "encrypted_record option" where mk: "s_master_key s = Some mk" and h: "s_header s = Some h"
    and nv: "next_version env (s\<lparr>s_tick := n\<rparr>) = (Inr (c, m), s')"
    and tail: "seal_and_write env T kind mk (vh_vault_id h) (Option.bind prev er_last_synced_clock)
       (stored_value env T x s) (c, m) s' = (Inr v, t)" by (rule store_record_run) (rule that)
  from seal_and_write_Inr [OF tail] obtain r u d k where v: "v = stored_value env T x s"
    and r: "sealed env T mk (vh_vault_id h) kind v r" "er_logical_clock r = c"
    and d: "upsert_record r (s_conn s') = (Inr u, d)" and t: "t = s'\<lparr>s_tick := k, s_conn := d\<rparr>"
    by blast
  have id: "er_record_id r = rt_id T v" using r(1) by (simp add: sealed_def)
  have "vault_inv (s\<lparr>s_tick := n\<rparr>)" using assms(2) by simp
  note st = stamped_upsert [OF this nv d r(2) id]
  have "clock_of t = clock_of s + 1 \<and> er_logical_clock r = clock_of t"
    using st(3) h r(2) by (simp add: t)
  moreover have "same_elsewhere (rt_id T v) s t" "record_at (s_conn t) (rt_id T v) = Some r"
    using st(1,2) by (simp_all add: same_elsewhere_def t)
  ultimately show ?thesis using v mk h r(1) by blast
qed

text \<open>A failed store may have moved the clock, but no record and no key.\<close>

lemma seal_and_write_Inl:
  assumes "seal_and_write env T kind mk vault_id synced v (c, m) s = (Inl e, t)"
  shows "s_conn t = s_conn s \<and> key_view t = key_view s"
  using assms
  by (auto simp: seal_and_write_def and_then_eq_Inl encrypt_m_def on_db_Inl key_view_def
      dest!: upsert_record_Inl)

lemma next_version_keeps:
  assumes "next_version env s = (r, t)"
  shows "t_records (s_conn t) = t_records (s_conn s) \<and> key_view t = key_view s
     \<and> t_recovery_bundles (s_conn t) = t_recovery_bundles (s_conn s)"
proof (cases r)
  case (Inl e)
  with assms show ?thesis by (auto dest!: next_version_Inl)
next
  case (Inr cm)
  obtain c m where "cm = (c, m)" by fastforce
  with assms Inr obtain row where "t = stamped_store env row s" by (auto elim: next_version_Inr)
  then show ?thesis by simp
qed

lemma store_record_Inl:
  assumes "store_record env T x kind s = (Inl e, t)"
  shows "t_records (s_conn t) = t_records (s_conn s) \<and> key_view t = key_view s
     \<and> t_recovery_bundles (s_conn t) = t_recovery_bundles (s_conn s)"
proof -
  consider (pure) "s_conn t = s_conn s" "key_view t = key_view s"
    | (stamp) n where "next_version env (s\<lparr>s_tick := n\<rparr>) = (Inl e, t)"
    | (seal) n mk h synced v c m s' where "next_version env (s\<lparr>s_tick := n\<rparr>) = (Inr (c, m), s')"
        "seal_and_write env T kind mk h synced v (c, m) s' = (Inl e, t)"
    using assms
    by (cases "rt_id T x = []"; cases s)
       (auto simp: store_record_def and_then_eq_Inl master_key_def header_or_def Let_def key_view_def)
  then show ?thesis
  proof cases
    case stamp
    then show ?thesis by (auto dest!: next_version_keeps)
  next
    case seal
    from next_version_keeps [OF seal(1)] seal_and_write_Inl [OF seal(2)] show ?thesis by simp
  qed simp
qed

text \<open>A delete writes a tombstone over an active record of the kind, or nothing.\<close>

definition tombstone :: "u64 \<Rightarrow> i64 \<Rightarrow> encrypted_record \<Rightarrow> encrypted_record" where
  "tombstone c m r =
     r\<lparr>er_logical_clock := c, er_modified_at := m, er_deleted_at := Some m, er_sync_state := Pending\<rparr>"

definition active_at :: "db \<Rightarrow> string \<Rightarrow> record_kind \<Rightarrow> encrypted_record option" where
  "active_at d i k =
     (case record_at d i of
        None \<Rightarrow> None
      | Some r \<Rightarrow> if er_kind r = k \<and> er_deleted_at r = None then Some r else None)"

lemma delete_record_Inr:
  assumes "delete_record env i kind s = (Inr b, t)" and "vault_inv s"
  shows "b = (active_at (s_conn s) i kind \<noteq> None)
    \<and> (\<not> b \<longrightarrow> t = s)
    \<and> (b \<longrightarrow> (\<exists>r c m. active_at (s_conn s) i kind = Some r \<and> record_at (s_conn t) i = Some (tombstone c m r)
              \<and> same_elsewhere i s t
              \<and> (s_header s \<noteq> None \<longrightarrow> clock_of t = clock_of s + 1 \<and> c = clock_of t)))"
proof (cases "active_at (s_conn s) i kind")
  case None
  with assms vault_inv_wf [OF assms(2)] show ?thesis
    by (auto simp: delete_record_def load_record_spec active_at_def split: option.splits if_splits)
next
  case (Some r)
  then have r: "record_at (s_conn s) i = Some r" "er_kind r = kind" "er_deleted_at r = None"
    by (auto simp: active_at_def split: option.splits if_splits)
  with assms vault_inv_wf [OF assms(2)] obtain c m s' d where
      nv: "next_version env s = (Inr (c, m), s')" and b: "b"
    and d: "upsert_record (tombstone c m r) (s_conn s') = (Inr (), d)" and t: "t = s'\<lparr>s_conn := d\<rparr>"
    by (auto simp: delete_record_def load_record_spec and_then_eq_Inr on_db_Inr tombstone_def)
  have tr: "er_logical_clock (tombstone c m r) = c" "er_record_id (tombstone c m r) = i"
    using record_at_id [OF r(1)] by (simp_all add: tombstone_def)
  note st = stamped_upsert [OF assms(2) nv d tr]
  have "record_at (s_conn t) i = Some (tombstone c m r)" "same_elsewhere i s t"
    using st(1,2) by (simp_all add: t same_elsewhere_def)
  moreover have "s_header s \<noteq> None \<longrightarrow> clock_of t = clock_of s + 1 \<and> c = clock_of t"
    using st(3) by (auto simp: t)
  ultimately show ?thesis using Some b by blast
qed

lemma delete_record_Inl:
  assumes "delete_record env i kind s = (Inl e, t)"
  shows "t_records (s_conn t) = t_records (s_conn s) \<and> key_view t = key_view s
     \<and> t_recovery_bundles (s_conn t) = t_recovery_bundles (s_conn s)"
proof -
  consider (pure) "t = s" | (stamp) "next_version env s = (Inl e, t)"
    | (upsert) c m s' d r where "next_version env s = (Inr (c, m), s')"
        "upsert_record r (s_conn s') = (Inl e, d)" "t = s'\<lparr>s_conn := d\<rparr>"
    using assms
    by (auto simp: delete_record_def and_then_eq_Inl on_db_Inl split: option.splits if_splits)
  then show ?thesis
  proof cases
    case upsert
    from next_version_keeps [OF upsert(1)] upsert_record_Inl [OF upsert(2)] upsert(3) show ?thesis by auto
  qed (auto dest!: next_version_keeps)
qed

section \<open>Loading\<close>

lemma load_payload_spec:
  "wf_db (s_conn s) \<Longrightarrow>
   load_record_payload env C i k s =
     (case active_at (s_conn s) i k of
        None \<Rightarrow> Inr None
      | Some r \<Rightarrow> and_then_r (decrypt_record env C s r) (\<lambda>x. Inr (Some x)))"
  by (auto simp: load_record_payload_def load_record_spec active_at_def split: option.split)

lemma load_payload_cong:
  assumes "vault_inv s" and "vault_inv t" and "key_view t = key_view s"
    and "record_at (s_conn t) i = record_at (s_conn s) i"
  shows "load_record_payload env C i k t = load_record_payload env C i k s"
proof -
  have "decrypt_record env C t = decrypt_record env C s"
    by (rule ext) (rule decrypt_record_cong [OF assms(3)])
  moreover have "active_at (s_conn t) i k = active_at (s_conn s) i k"
    by (simp add: active_at_def assms(4))
  ultimately show ?thesis
    unfolding load_payload_spec [OF vault_inv_wf [OF assms(1)]]
      load_payload_spec [OF vault_inv_wf [OF assms(2)]] by (simp only:)
qed

section \<open>Storing a payload\<close>

text \<open>A payload type whose identifier field is a lens: what was set is read, and setting it twice is
  setting it once.\<close>

definition lens_type :: "'a rectype \<Rightarrow> bool" where
  "lens_type T \<longleftrightarrow> (\<forall>i x. rt_id T (rt_set_id T i x) = i)
     \<and> (\<forall>x. rt_set_id T (rt_id T x) x = x)"

lemma lens_types [simp]:
  "lens_type (host_type env)" "lens_type (credential_type env)" "lens_type (key_type env)"
  "lens_type (port_forward_type env)"
  by (simp_all add: lens_type_def host_type_def credential_type_def key_type_def port_forward_type_def)

definition id_for :: "'d env \<Rightarrow> string \<Rightarrow> 'd vault_store \<Rightarrow> string" where
  "id_for env i s = (if i = [] then uuid_at env (s_tick s) else i)"

definition ready :: "'d env \<Rightarrow> 'a codec \<Rightarrow> 'd vault_store \<Rightarrow> bool" where
  "ready env C s \<longleftrightarrow> vault_inv s \<and> aead_correct env \<and> draws_sized env \<and> uuids_fresh env \<and> json_correct C"

lemma readyD:
  "ready env C s \<Longrightarrow> vault_inv s" "ready env C s \<Longrightarrow> aead_correct env" "ready env C s \<Longrightarrow> draws_sized env"
  "ready env C s \<Longrightarrow> uuid_at env n \<noteq> []" "ready env C s \<Longrightarrow> json_correct C"
  by (simp_all add: ready_def uuids_fresh_def)

lemma same_elsewhere_tick [simp]: "same_elsewhere i (s\<lparr>s_tick := n\<rparr>) t = same_elsewhere i s t"
  by (simp add: same_elsewhere_def)

lemma keeps_ready: "keeps vault_inv m \<Longrightarrow> keeps (ready env C) m"
  by (simp add: keeps_def ready_def)

text \<open>
  The outcome of a store: the active record at the identifier decrypts to the payload, the rest is
  as it was, the clock has advanced by one and the record carries it.
\<close>

definition stored_as ::
  "'d env \<Rightarrow> 'a codec \<Rightarrow> record_kind \<Rightarrow> string \<Rightarrow> 'a \<Rightarrow> 'd vault_store \<Rightarrow> 'd vault_store \<Rightarrow> bool" where
  "stored_as env C kind i v s t \<longleftrightarrow>
     (\<exists>r. active_at (s_conn t) i kind = Some r \<and> decrypt_record env C t r = Inr v
        \<and> er_logical_clock r = clock_of t \<and> er_sync_state r = Pending)
     \<and> same_elsewhere i s t \<and> clock_of t = clock_of s + 1"

lemma store_record_stored_as:
  assumes "store_record env T x kind s = (Inr v, t)" and "ready env (rt_codec T) s"
  shows "v = stored_value env T x s \<and> stored_as env (rt_codec T) kind (rt_id T v) v s t"
proof -
  note R = readyD [OF assms(2)]
  from store_record_Inr [OF assms(1) R(1)] obtain mk h r where v: "v = stored_value env T x s"
    and s: "s_master_key s = Some mk" "s_header s = Some h"
    and r: "sealed env T mk (vh_vault_id h) kind v r" "record_at (s_conn t) (rt_id T v) = Some r"
    and rest: "same_elsewhere (rt_id T v) s t" "clock_of t = clock_of s + 1" "er_logical_clock r = clock_of t"
    by blast
  have kv: "key_view t = key_view s" using rest(1) by (simp add: same_elsewhere_def)
  have "decrypt_record env (rt_codec T) t r = Inr v"
    unfolding decrypt_record_cong [OF kv] by (rule decrypt_sealed [OF r(1) s R(2,3,5)])
  moreover have "active_at (s_conn t) (rt_id T v) kind = Some r" "er_sync_state r = Pending"
    using r by (simp_all add: active_at_def sealed_def)
  ultimately show ?thesis using v rest by (simp add: stored_as_def)
qed

lemma store_payload_Inr:
  assumes "store_payload env T kind f x s = (Inr y, t)" and "ready env (rt_codec T) s" and "lens_type T"
  shows "stored_as env (rt_codec T) kind (id_for env (rt_id T x) s)
           (rt_set_id T (id_for env (rt_id T x) s) x) s t
     \<and> (\<exists>m. y = f (rt_set_id T (id_for env (rt_id T x) s) x) m)"
proof -
  let ?i = "id_for env (rt_id T x) s"
  let ?v = "rt_set_id T ?i x"
  let ?n = "if rt_id T x = [] then Suc (s_tick s) else s_tick s"
  have i: "?i \<noteq> []" "rt_id T ?v = ?i"
    using readyD(4) [OF assms(2)] assms(3) by (auto simp: id_for_def lens_type_def)
  have keep: "rt_id T x \<noteq> [] \<Longrightarrow> ?v = x" using assms(3) by (simp add: id_for_def lens_type_def)
  from assms(1) keep obtain w u m where w: "store_record env T ?v kind (s\<lparr>s_tick := ?n\<rparr>) = (Inr w, u)"
    and y: "t = u" "y = f w m"
    by (cases "rt_id T x = []") (auto simp: store_payload_def and_then_eq_Inr id_for_def)
  have "ready env (rt_codec T) (s\<lparr>s_tick := ?n\<rparr>)" using assms(2) by (simp add: ready_def)
  from store_record_stored_as [OF w this] i y
  show ?thesis by (auto simp: stored_value_def stored_as_def)
qed

lemma store_payload_Inl:
  assumes "store_payload env T kind f x s = (Inl e, t)" and "ready env (rt_codec T) s" and "lens_type T"
  shows "t_records (s_conn t) = t_records (s_conn s) \<and> key_view t = key_view s"
proof -
  obtain v n where "store_record env T v kind (s\<lparr>s_tick := n\<rparr>) = (Inl e, t)
      \<or> (\<exists>w. store_record env T v kind (s\<lparr>s_tick := n\<rparr>) = (Inr w, t) \<and> record_modified_at (rt_id T w) kind t = Inl e)"
    using assms(1)
    by (cases "rt_id T x = []"; cases s) (auto simp: store_payload_def and_then_eq_Inl)
  moreover have "record_modified_at (rt_id T w) kind t \<noteq> Inl e"
    if w: "store_record env T v kind (s\<lparr>s_tick := n\<rparr>) = (Inr w, t)" for w
  proof -
    have R: "ready env (rt_codec T) (s\<lparr>s_tick := n\<rparr>)" using assms(2) by (simp add: ready_def)
    have "wf_db (s_conn t)"
      using keeps_eq [OF keeps_store_record readyD(1) [OF R] w] by (rule vault_inv_wf)
    with store_record_stored_as [OF w R] show ?thesis
      by (auto simp: stored_as_def record_modified_at_def load_record_spec active_at_def
          split: option.splits if_splits)
  qed
  ultimately show ?thesis by (auto dest!: store_record_Inl)
qed

section \<open>The contract of a typed collection\<close>

text \<open>
  What a client of one kind of record relies on: a store is visible at its identifier and nowhere
  else, a delete removes exactly its identifier and says whether something was there, a failed call
  changes no record.
\<close>

datatype 'a coll_op = Put 'a | Drop string

fun run_ops :: "('a \<Rightarrow> ('s, 'e, 'b) prog) \<Rightarrow> (string \<Rightarrow> ('s, 'e, bool) prog) \<Rightarrow> 'a coll_op list \<Rightarrow> 's \<Rightarrow> 's" where
  "run_ops store delete [] s = s"
| "run_ops store delete (Put x # ops) s = run_ops store delete ops (snd (store x s))"
| "run_ops store delete (Drop i # ops) s = run_ops store delete ops (snd (delete i s))"

text \<open>The specification: a finite map from identifiers to payloads, changed by the successful calls.\<close>

fun spec_ops ::
  "('a \<Rightarrow> ('s, 'e, 'b) prog) \<Rightarrow> (string \<Rightarrow> ('s, 'e, bool) prog) \<Rightarrow> ('a \<Rightarrow> 's \<Rightarrow> string) \<Rightarrow> (string \<Rightarrow> 'a \<Rightarrow> 'a)
   \<Rightarrow> 'a coll_op list \<Rightarrow> 's \<Rightarrow> (string \<Rightarrow> 'a option) \<Rightarrow> string \<Rightarrow> 'a option" where
  "spec_ops store delete at put [] s m = m"
| "spec_ops store delete at put (Put x # ops) s m =
     (case store x s of
        (Inl _, t) \<Rightarrow> spec_ops store delete at put ops t m
      | (Inr _, t) \<Rightarrow> spec_ops store delete at put ops t (m(at x s \<mapsto> put (at x s) x)))"
| "spec_ops store delete at put (Drop i # ops) s m =
     (case delete i s of
        (Inl _, t) \<Rightarrow> spec_ops store delete at put ops t m
      | (Inr _, t) \<Rightarrow> spec_ops store delete at put ops t (m(i := None)))"

locale record_collection =
  fixes good :: "'s \<Rightarrow> bool"
    and store :: "'a \<Rightarrow> ('s, 'e, 'b) prog"
    and load :: "string \<Rightarrow> 's \<Rightarrow> 'e + 'a option"
    and delete :: "string \<Rightarrow> ('s, 'e, bool) prog"
    and at :: "'a \<Rightarrow> 's \<Rightarrow> string"
    and put :: "string \<Rightarrow> 'a \<Rightarrow> 'a"
  assumes good_store: "keeps good (store x)"
    and good_delete: "keeps good (delete i)"
    and store_same: "good s \<Longrightarrow> store x s = (Inr y, t) \<Longrightarrow> load (at x s) t = Inr (Some (put (at x s) x))"
    and store_other: "good s \<Longrightarrow> store x s = (Inr y, t) \<Longrightarrow> j \<noteq> at x s \<Longrightarrow> load j t = load j s"
    and store_failed: "good s \<Longrightarrow> store x s = (Inl e, t) \<Longrightarrow> load j t = load j s"
    and delete_same: "good s \<Longrightarrow> delete i s = (Inr b, t) \<Longrightarrow> load i t = Inr None"
    and delete_other: "good s \<Longrightarrow> delete i s = (Inr b, t) \<Longrightarrow> j \<noteq> i \<Longrightarrow> load j t = load j s"
    and delete_said: "good s \<Longrightarrow> delete i s = (Inr b, t) \<Longrightarrow> b \<longleftrightarrow> load i s \<noteq> Inr None"
    and delete_failed: "good s \<Longrightarrow> delete i s = (Inl e, t) \<Longrightarrow> load j t = load j s"
begin

lemma store_map:
  assumes "good s" and "\<And>j. load j s = Inr (m j)" and "store x s = (Inr y, t)"
  shows "load j t = Inr ((m(at x s \<mapsto> put (at x s) x)) j)"
  using store_same [OF assms(1,3)] store_other [OF assms(1,3), of j] assms(2)
  by (cases "j = at x s") simp_all

lemma delete_map:
  assumes "good s" and "\<And>j. load j s = Inr (m j)" and "delete i s = (Inr b, t)"
  shows "load j t = Inr ((m(i := None)) j)"
  using delete_same [OF assms(1,3)] delete_other [OF assms(1,3), of j] assms(2)
  by (cases "j = i") simp_all

lemma run_refines_map:
  assumes "good s" and "\<And>j. load j s = Inr (m j)"
  shows "load j (run_ops store delete ops s) = Inr (spec_ops store delete at put ops s m j)"
  using assms
proof (induction ops arbitrary: s m)
  case (Cons a ops)
  show ?case
  proof (cases a)
    case (Put x)
    obtain r t where rt: "store x s = (r, t)" by fastforce
    then have "good t" using keeps_eq [OF good_store Cons.prems(1)] by blast
    show ?thesis
    proof (cases r)
      case (Inl e)
      with rt Put Cons.IH [OF \<open>good t\<close>, of m] store_failed [OF Cons.prems(1)] Cons.prems(2)
      show ?thesis by simp
    next
      case (Inr y)
      with rt have "load j t = Inr ((m(at x s \<mapsto> put (at x s) x)) j)" for j
        by (simp only: store_map [OF Cons.prems])
      from Cons.IH [of t "m(at x s \<mapsto> put (at x s) x)", OF \<open>good t\<close> this] rt Put Inr show ?thesis
        by (simp del: fun_upd_apply)
    qed
  next
    case (Drop i)
    obtain r t where rt: "delete i s = (r, t)" by fastforce
    then have "good t" using keeps_eq [OF good_delete Cons.prems(1)] by blast
    show ?thesis
    proof (cases r)
      case (Inl e)
      with rt Drop Cons.IH [OF \<open>good t\<close>, of m] delete_failed [OF Cons.prems(1)] Cons.prems(2)
      show ?thesis by simp
    next
      case (Inr b)
      with rt have "load j t = Inr ((m(i := None)) j)" for j
        by (simp only: delete_map [OF Cons.prems])
      from Cons.IH [of t "m(i := None)", OF \<open>good t\<close> this] rt Drop Inr show ?thesis
        by (simp del: fun_upd_apply)
    qed
  qed
qed simp

end

section \<open>Every kind of record is such a collection\<close>

text \<open>The public methods add checks that only read before the generic operation.\<close>

definition stores_via ::
  "('a \<Rightarrow> ('d, 'b) vprog) \<Rightarrow> 'd env \<Rightarrow> 'a rectype \<Rightarrow> record_kind \<Rightarrow> ('a \<Rightarrow> i64 \<Rightarrow> 'b) \<Rightarrow> bool" where
  "stores_via S env T kind f \<longleftrightarrow>
     (\<forall>x s r t. S x s = (r, t) \<longrightarrow> (\<exists>e. r = Inl e \<and> t = s) \<or> store_payload env T kind f x s = (r, t))"

definition deletes_via :: "(string \<Rightarrow> ('d, bool) vprog) \<Rightarrow> 'd env \<Rightarrow> record_kind \<Rightarrow> bool" where
  "deletes_via D env kind \<longleftrightarrow>
     (\<forall>i s r t. D i s = (r, t) \<longrightarrow> (\<exists>e. r = Inl e \<and> t = s) \<or> delete_record env i kind s = (r, t))"

lemma via_reads: "and_then (reads g) (\<lambda>_. m) s = (r, t) \<Longrightarrow> (\<exists>e. r = Inl e \<and> t = s) \<or> m s = (r, t)"
  by (cases "g s") auto

lemma via_lift: "and_then (lift_r g) (\<lambda>_. m) s = (r, t) \<Longrightarrow> (\<exists>e. r = Inl e \<and> t = s) \<or> m s = (r, t)"
  by (cases g) auto

lemma stores_via_ops:
  "stores_via (store_host_profile env) env (host_type env) KHost host_summary_of"
  "stores_via (store_password_credential env) env (credential_type env) KPasswordCredential credential_summary_of"
  "stores_via (store_private_key env) env (key_type env) KPrivateKey key_summary_of"
  "stores_via (store_port_forward env) env (port_forward_type env) KPortForward port_forward_summary_of"
  unfolding stores_via_def store_host_profile_def store_password_credential_def
    store_private_key_def store_port_forward_def
  by (blast dest: via_reads via_lift)+

lemma deletes_via_ops:
  "deletes_via (delete_host_profile env) env KHost"
  "deletes_via (delete_password_credential env) env KPasswordCredential"
  "deletes_via (delete_private_key env) env KPrivateKey"
  "deletes_via (delete_port_forward env) env KPortForward"
  unfolding deletes_via_def delete_host_profile_def delete_password_credential_def
    delete_private_key_def delete_port_forward_def
  by (blast dest: via_reads)+

lemma same_elsewhere_load:
  assumes "same_elsewhere i s t" and "vault_inv s" and "vault_inv t" and "j \<noteq> i"
  shows "load_record_payload env C j k t = load_record_payload env C j k s"
  using assms by (intro load_payload_cong) (simp_all add: same_elsewhere_def)

lemma same_records_load:
  assumes "t_records (s_conn t) = t_records (s_conn s) \<and> key_view t = key_view s"
    and "vault_inv s" and "vault_inv t"
  shows "load_record_payload env C j k t = load_record_payload env C j k s"
  using assms record_at_cong [of "s_conn t" "s_conn s"] by (intro load_payload_cong) simp_all

lemma stored_as_load:
  "stored_as env C kind i v s t \<Longrightarrow> vault_inv t \<Longrightarrow> load_record_payload env C i kind t = Inr (Some v)"
  by (auto simp: stored_as_def load_payload_spec vault_inv_wf)

lemma delete_record_load:
  assumes "delete_record env i kind s = (Inr b, t)" and "vault_inv s"
  shows "load_record_payload env C i kind t = Inr None"
    and "j \<noteq> i \<Longrightarrow> load_record_payload env C j k t = load_record_payload env C j k s"
    and "b \<longleftrightarrow> load_record_payload env C i kind s \<noteq> Inr None"
proof -
  have t: "vault_inv t" by (rule keeps_eq [OF keeps_delete_record assms(2,1)])
  note D = delete_record_Inr [OF assms]
  show "load_record_payload env C i kind t = Inr None"
    using D t assms(2)
    by (cases b) (auto simp: load_payload_spec vault_inv_wf active_at_def tombstone_def
        split: option.splits)
  show "load_record_payload env C j k t = load_record_payload env C j k s" if "j \<noteq> i"
    using D that assms(2) t by (cases b) (auto intro: same_elsewhere_load)
  show "b \<longleftrightarrow> load_record_payload env C i kind s \<noteq> Inr None"
    using D assms(2)
    by (cases "active_at (s_conn s) i kind") (auto simp: load_payload_spec vault_inv_wf and_then_r_Inr)
qed

lemma collection_laws:
  fixes env :: "'d env"
  assumes S: "stores_via S env T kind f" and D: "deletes_via D env kind" and T: "lens_type T"
    and kS: "\<And>x. keeps vault_inv (S x)" and kD: "\<And>i. keeps vault_inv (D i)"
  shows "record_collection (ready env (rt_codec T)) S (\<lambda>i. load_record_payload env (rt_codec T) i kind) D
           (\<lambda>x. id_for env (rt_id T x)) (rt_set_id T)"
proof
  fix s t :: "'d vault_store" and x i b y e j
  let ?load = "\<lambda>i. load_record_payload env (rt_codec T) i kind"
  show "keeps (ready env (rt_codec T)) (S x)" "keeps (ready env (rt_codec T)) (D i)"
    using kS kD by (auto intro: keeps_ready)
  assume s: "ready env (rt_codec T) s"
  note inv = readyD(1) [OF s]
  {
    assume run: "S x s = (Inr y, t)"
    then have "store_payload env T kind f x s = (Inr y, t)" using S by (auto simp: stores_via_def)
    then have st: "stored_as env (rt_codec T) kind (id_for env (rt_id T x) s)
        (rt_set_id T (id_for env (rt_id T x) s) x) s t"
      by (rule store_payload_Inr [OF _ s T, THEN conjunct1])
    have t: "vault_inv t" by (rule keeps_eq [OF kS inv run])
    show "?load (id_for env (rt_id T x) s) t = Inr (Some (rt_set_id T (id_for env (rt_id T x) s) x))"
      by (rule stored_as_load [OF st t])
    show "j \<noteq> id_for env (rt_id T x) s \<Longrightarrow> ?load j t = ?load j s"
      using st inv t by (auto simp: stored_as_def intro: same_elsewhere_load)
  }
  {
    assume run: "S x s = (Inl e, t)"
    then have "t = s \<or> store_payload env T kind f x s = (Inl e, t)" using S by (auto simp: stores_via_def)
    moreover have "vault_inv t" by (rule keeps_eq [OF kS inv run])
    ultimately show "?load j t = ?load j s"
      using store_payload_Inl [OF _ s T] same_records_load inv by blast
  }
  {
    assume run: "D i s = (Inr b, t)"
    then have "delete_record env i kind s = (Inr b, t)" using D by (auto simp: deletes_via_def)
    note L = delete_record_load [OF this inv]
    show "?load i t = Inr None" "b = (?load i s \<noteq> Inr None)" by (rule L)+
    show "j \<noteq> i \<Longrightarrow> ?load j t = ?load j s" by (rule L)
  }
  {
    assume run: "D i s = (Inl e, t)"
    then have "t = s \<or> delete_record env i kind s = (Inl e, t)" using D by (auto simp: deletes_via_def)
    moreover have "vault_inv t" by (rule keeps_eq [OF kD inv run])
    ultimately show "?load j t = ?load j s"
      using delete_record_Inl same_records_load inv by blast
  }
qed

interpretation hosts: record_collection "ready env (host_codec env)" "store_host_profile env"
  "load_host_profile env" "delete_host_profile env" "\<lambda>h. id_for env (ho_id h)" "\<lambda>i h. h\<lparr>ho_id := i\<rparr>" for env
  using collection_laws [OF stores_via_ops(1) deletes_via_ops(1) lens_types(1) keeps_record_ops(1,5)]
  by (simp add: host_type_def load_host_profile_def [abs_def])

interpretation credentials: record_collection "ready env (credential_codec env)" "store_password_credential env"
  "load_password_credential env" "delete_password_credential env" "\<lambda>c. id_for env (cr_id c)"
  "\<lambda>i c. c\<lparr>cr_id := i\<rparr>" for env
  using collection_laws [OF stores_via_ops(2) deletes_via_ops(2) lens_types(2) keeps_record_ops(2,6)]
  by (simp add: credential_type_def load_password_credential_def [abs_def])

interpretation keys: record_collection "ready env (key_codec env)" "store_private_key env"
  "load_private_key env" "delete_private_key env" "\<lambda>k. id_for env (pk_id k)" "\<lambda>i k. k\<lparr>pk_id := i\<rparr>" for env
  using collection_laws [OF stores_via_ops(3) deletes_via_ops(3) lens_types(3) keeps_record_ops(3,7)]
  by (simp add: key_type_def load_private_key_def [abs_def])

interpretation forwards: record_collection "ready env (port_forward_codec env)" "store_port_forward env"
  "load_port_forward env" "delete_port_forward env" "\<lambda>p. id_for env (pf_id p)" "\<lambda>i p. p\<lparr>pf_id := i\<rparr>" for env
  using collection_laws [OF stores_via_ops(4) deletes_via_ops(4) lens_types(4) keeps_record_ops(4,8)]
  by (simp add: port_forward_type_def load_port_forward_def [abs_def])

end
