(* ===== verification/Vault_Sync.thy ===== *)
theory Vault_Sync
  imports Vault_Collections
begin

text \<open>
  Synchronisation, of \<^verbatim>\<open>seance-vault/src/lib.rs\<close>: exporting snapshots and deltas, bootstrapping
  an empty vault from a snapshot, merging a delta record by record. The merge keeps, for every
  identifier, the record that \<open>compare_record_precedence\<close> ranks highest; replicas that saw the same
  records end with the same contents.
\<close>

section \<open>Operations\<close>

definition delta_record_to_synced_record :: "vault_delta_record \<Rightarrow> encrypted_record" where
  "delta_record_to_synced_record r =
     \<lparr>er_record_id = dr_record_id r, er_kind = dr_kind r, er_version = dr_version r,
      er_logical_clock = dr_logical_clock r, er_modified_at = dr_modified_at r,
      er_deleted_at = dr_deleted_at r, er_key_nonce = dr_key_nonce r,
      er_wrapped_record_key = dr_wrapped_record_key r, er_payload_nonce = dr_payload_nonce r,
      er_payload_ciphertext = dr_payload_ciphertext r,
      er_last_synced_clock = Some (dr_logical_clock r), er_sync_state = Synced\<rparr>"

definition compare_record_precedence :: "encrypted_record \<Rightarrow> encrypted_record \<Rightarrow> ordering" where
  "compare_record_precedence left right =
     then_with (then_with (then_with (then_with (then_with (then_with (then_with
       (cmp (er_logical_clock left) (er_logical_clock right))
       (cmp (er_modified_at left) (er_modified_at right)))
       (cmp (er_record_id left) (er_record_id right)))
       (cmp (er_deleted_at left) (er_deleted_at right)))
       (cmp (er_key_nonce left) (er_key_nonce right)))
       (cmp (er_wrapped_record_key left) (er_wrapped_record_key right)))
       (cmp (er_payload_nonce left) (er_payload_nonce right)))
       (cmp (er_payload_ciphertext left) (er_payload_ciphertext right))"

definition export_snapshot :: "'d vault_store \<Rightarrow> vault_error + vault_snapshot" where
  "export_snapshot s =
     and_then_r (header_or VaultNotInitialized s) (\<lambda>header.
     and_then_r (load_recovery_bundle (s_conn s)) (\<lambda>stored.
     and_then_r (ok_or stored (CorruptVault ''missing recovery bundle'')) (\<lambda>b.
     and_then_r (list_device_enrollments (s_conn s)) (\<lambda>enrollments.
     and_then_r (list_all_records (s_conn s)) (\<lambda>records.
       Inr \<lparr>vs_header = header, vs_recovery_bundle = b, vs_device_enrollments = enrollments,
            vs_records = map delta_record_of records\<rparr>)))))"

definition export_delta :: "sync_cursor \<Rightarrow> 'd vault_store \<Rightarrow> vault_error + vault_delta" where
  "export_delta since s =
     and_then_r (header_or VaultNotInitialized s) (\<lambda>header.
     let from_clock = min (sc_logical_clock since) (vh_last_logical_clock header) in
     and_then_r (list_records_after_clock from_clock (s_conn s)) (\<lambda>records.
       Inr \<lparr>vd_vault_id = vh_vault_id header, vd_from_clock = from_clock,
            vd_to_clock = vh_last_logical_clock header, vd_records = map delta_record_of records\<rparr>))"

definition max_record_clock :: "vault_delta_record list \<Rightarrow> u64" where
  "max_record_clock rs = fold (\<lambda>r m. max m (dr_logical_clock r)) rs 0"

definition apply_snapshot :: "vault_snapshot \<Rightarrow> ('d, unit) vprog" where
  "apply_snapshot snapshot =
     and_then (reads (\<lambda>s. and_then_r (count_records (s_conn s)) (\<lambda>n.
       if s_header s \<noteq> None \<or> n > 0 then Inl SnapshotRequiresUninitializedVault else Inr ()))) (\<lambda>_.
     and_then (lift_r (verify_header_integrity (vs_header snapshot))) (\<lambda>_.
     let max_clock = max_record_clock (vs_records snapshot);
         header = (if vh_last_logical_clock (vs_header snapshot) < max_clock
                   then (vs_header snapshot)\<lparr>vh_last_logical_clock := max_clock\<rparr>
                   else vs_header snapshot) in
     and_then (on_db (insert_header header)) (\<lambda>_.
     and_then (on_db (insert_recovery_bundle (vs_recovery_bundle snapshot))) (\<lambda>_.
     and_then (on_db clear_device_enrollments) (\<lambda>_.
     and_then (for_all (\<lambda>e. on_db (upsert_device_enrollment e)) (vs_device_enrollments snapshot)) (\<lambda>_.
     and_then (for_all (\<lambda>r. on_db (upsert_record (delta_record_to_synced_record r))) (vs_records snapshot)) (\<lambda>_.
       modify (\<lambda>s. s\<lparr>s_header := Some header\<rparr>))))))))"

text \<open>One round of the loop of \<open>apply_delta\<close>: whether the record was applied.\<close>

definition merge_record :: "encrypted_record \<Rightarrow> (db, vault_error, bool) prog" where
  "merge_record incoming =
     and_then (reads (load_record (er_record_id incoming) (er_kind incoming))) (\<lambda>stored.
     if (case stored of None \<Rightarrow> False | Some existing \<Rightarrow> is_le (compare_record_precedence incoming existing))
     then ok False
     else and_then (upsert_record incoming) (\<lambda>_. ok True))"

fun merge_records ::
  "vault_delta_record list \<Rightarrow> u64 \<Rightarrow> nat \<Rightarrow> nat \<Rightarrow> (db, vault_error, u64 \<times> nat \<times> nat) prog" where
  "merge_records [] cursor applied skipped = ok (cursor, applied, skipped)"
| "merge_records (r # rs) cursor applied skipped =
     and_then (merge_record (delta_record_to_synced_record r)) (\<lambda>did.
       merge_records rs (max cursor (dr_logical_clock r))
         (if did then applied + 1 else applied) (if did then skipped else skipped + 1))"

definition apply_delta :: "'d env \<Rightarrow> vault_delta \<Rightarrow> ('d, apply_delta_report) vprog" where
  "apply_delta env delta =
     and_then (reads (header_or SyncBootstrapRequired)) (\<lambda>header.
     and_then (fail_if (vd_vault_id delta \<noteq> vh_vault_id header)
       (VaultIdMismatch (vh_vault_id header) (vd_vault_id delta))) (\<lambda>_.
     and_then (reads (\<lambda>s. Inr (sc_logical_clock (current_cursor s)))) (\<lambda>local_cursor.
     and_then (fail_if (local_cursor < vd_from_clock delta)
       (DeltaOutOfOrder local_cursor (vd_from_clock delta))) (\<lambda>_.
     and_then (on_db (merge_records (vd_records delta) (max local_cursor (vd_to_clock delta)) 0 0))
       (\<lambda>(new_cursor, applied, skipped).
     and_then (draw (now_at env)) (\<lambda>row_now.
     and_then (on_db (set_last_logical_clock row_now new_cursor)) (\<lambda>_.
     and_then (draw (now_at env)) (\<lambda>now.
     and_then (modify (\<lambda>s. s\<lparr>s_header := map_option
       (\<lambda>h. h\<lparr>vh_last_logical_clock := new_cursor, vh_updated_at := now\<rparr>) (s_header s)\<rparr>)) (\<lambda>_.
       ok \<lparr>ar_applied_records = applied, ar_skipped_records = skipped,
           ar_new_cursor = \<lparr>sc_logical_clock = new_cursor\<rparr>\<rparr>)))))))))"

section \<open>Precedence\<close>

text \<open>The precedence of a record is a tuple of its fields, compared lexicographically.\<close>

definition prec ::
  "encrypted_record \<Rightarrow> (((((((u64 \<times> i64) \<times> string) \<times> i64 option) \<times> bytes) \<times> bytes) \<times> bytes) \<times> bytes)" where
  "prec r = (((((((er_logical_clock r, er_modified_at r), er_record_id r), er_deleted_at r),
     er_key_nonce r), er_wrapped_record_key r), er_payload_nonce r), er_payload_ciphertext r)"

lemma compare_prec: "compare_record_precedence a b = cmp (prec a) (prec b)"
  by (simp add: compare_record_precedence_def prec_def)

lemma synced_sel [simp]:
  "er_record_id (delta_record_to_synced_record r) = dr_record_id r"
  "er_kind (delta_record_to_synced_record r) = dr_kind r"
  "er_version (delta_record_to_synced_record r) = dr_version r"
  "er_logical_clock (delta_record_to_synced_record r) = dr_logical_clock r"
  "er_last_synced_clock (delta_record_to_synced_record r) = Some (dr_logical_clock r)"
  "delta_record_of (delta_record_to_synced_record r) = r"
  by (simp_all add: delta_record_to_synced_record_def delta_record_of_def)

lemma delta_record_of_sel [simp]:
  "dr_record_id (delta_record_of r) = er_record_id r" "dr_kind (delta_record_of r) = er_kind r"
  "dr_version (delta_record_of r) = er_version r" "dr_logical_clock (delta_record_of r) = er_logical_clock r"
  by (simp_all add: delta_record_of_def)

lemma delta_of_prec:
  "delta_record_of a = delta_record_of b \<longleftrightarrow> prec a = prec b \<and> er_kind a = er_kind b \<and> er_version a = er_version b"
  by (auto simp: delta_record_of_def prec_def)

section \<open>The merge on the abstract contents\<close>

text \<open>The contents of a replica, as its peers see it, and one merge step on it.\<close>

type_synonym contents = "string \<Rightarrow> vault_delta_record option"

definition contents_of :: "db \<Rightarrow> contents" where
  "contents_of d i = map_option delta_record_of (record_at d i)"

definition rank ::
  "vault_delta_record \<Rightarrow> (((((((u64 \<times> i64) \<times> string) \<times> i64 option) \<times> bytes) \<times> bytes) \<times> bytes) \<times> bytes)" where
  "rank r = prec (delta_record_to_synced_record r)"

definition merge_spec :: "contents \<Rightarrow> vault_delta_record \<Rightarrow> contents" where
  "merge_spec m r =
     (if (case m (dr_record_id r) of None \<Rightarrow> False | Some e \<Rightarrow> dr_kind e = dr_kind r \<and> rank r \<le> rank e)
      then m else m(dr_record_id r \<mapsto> r))"

lemma rank_delta_record_of [simp]: "rank (delta_record_of r) = prec r"
  by (simp add: rank_def prec_def delta_record_to_synced_record_def delta_record_of_def)

lemma rank_inj:
  "rank a = rank b \<Longrightarrow> dr_kind a = dr_kind b \<Longrightarrow> dr_version a = dr_version b \<Longrightarrow> a = b"
  using delta_of_prec [of "delta_record_to_synced_record a" "delta_record_to_synced_record b"]
  by (simp add: rank_def)

lemma contents_of_id: "contents_of d i = Some r \<Longrightarrow> dr_record_id r = i"
  by (auto simp: contents_of_def record_at_id)

lemma contents_of_upsert:
  "contents_of (d\<lparr>t_records := upsert_row rr_record_id overwrite_row (row_of_record r) (t_records d)\<rparr>) =
     (contents_of d)(er_record_id r \<mapsto> delta_record_of r)"
  by (auto simp: contents_of_def fun_eq_iff record_at_upsert)

lemma merge_record_refines:
  assumes "wf_db d" and "fits_i64 (dr_logical_clock r)"
  shows "\<exists>d'. merge_record (delta_record_to_synced_record r) d =
             (Inr (merge_spec (contents_of d) r \<noteq> contents_of d), d')
           \<and> contents_of d' = merge_spec (contents_of d) r \<and> wf_db d'
           \<and> d' = d\<lparr>t_records := t_records d'\<rparr>"
proof -
  let ?r = "delta_record_to_synced_record r"
  let ?skip = "case contents_of d (dr_record_id r) of
      None \<Rightarrow> False | Some e \<Rightarrow> dr_kind e = dr_kind r \<and> rank r \<le> rank e"
  have load: "(case load_record (dr_record_id r) (dr_kind r) d of
        Inr (Some e) \<Rightarrow> is_le (compare_record_precedence ?r e) | _ \<Rightarrow> False) = ?skip"
    by (auto simp: load_record_spec [OF assms(1)] contents_of_def compare_prec rank_def [of r]
        split: option.split)
  let ?d = "d\<lparr>t_records := upsert_row rr_record_id overwrite_row (row_of_record ?r) (t_records d)\<rparr>"
  have up: "upsert_record ?r d = (Inr (), ?d)" 
    by (rule upsert_record_fits) (use assms(2) in auto)
  have wf: "wf_db ?d" using assms by (simp add: wf_db_upsert_record)
  show ?thesis
  proof (cases ?skip)
    case True
    with load assms(1) have "merge_record ?r d = (Inr False, d)"
      by (auto simp: merge_record_def load_record_spec split: option.splits if_splits)
    moreover have "merge_spec (contents_of d) r = contents_of d"
      using True by (simp add: merge_spec_def)
    ultimately show ?thesis using assms(1) by auto
  next
    case False
    with load assms(1) have "merge_record ?r d = (Inr True, ?d)"
      by (auto simp: merge_record_def load_record_spec up split: option.splits if_splits)
    moreover have spec: "merge_spec (contents_of d) r = (contents_of d)(dr_record_id r \<mapsto> r)"
      using False by (simp add: merge_spec_def)
    moreover have "(contents_of d)(dr_record_id r \<mapsto> r) \<noteq> contents_of d"
    proof
      assume "(contents_of d)(dr_record_id r \<mapsto> r) = contents_of d"
      then have "contents_of d (dr_record_id r) = Some r" by (metis fun_upd_same)
      with False show False by simp
    qed
    ultimately show ?thesis using wf by (auto simp: contents_of_upsert)
  qed
qed

lemma merge_records_refines:
  assumes "wf_db d" and "\<And>r. r \<in> set rs \<Longrightarrow> fits_i64 (dr_logical_clock r)"
  shows "\<exists>d' a k. merge_records rs c a0 k0 d =
             (Inr (fold (\<lambda>r m. max m (dr_logical_clock r)) rs c, a0 + a, k0 + k), d')
           \<and> a + k = length rs \<and> contents_of d' = foldl merge_spec (contents_of d) rs
           \<and> wf_db d' \<and> d' = d\<lparr>t_records := t_records d'\<rparr>"
  using assms
proof (induction rs arbitrary: d c a0 k0)
  case (Cons r rs)
  from merge_record_refines [OF Cons.prems(1), of r] Cons.prems(2) obtain did d1 where
      m: "merge_record (delta_record_to_synced_record r) d = (Inr did, d1)"
    and c1: "contents_of d1 = merge_spec (contents_of d) r" and w1: "wf_db d1" "d1 = d\<lparr>t_records := t_records d1\<rparr>"
    by auto
  from Cons.IH [OF w1(1), of "max c (dr_logical_clock r)" "if did then a0 + 1 else a0" "if did then k0 else k0 + 1"]
    Cons.prems(2)
  obtain d2 a k where
      r: "merge_records rs (max c (dr_logical_clock r)) (if did then a0 + 1 else a0) (if did then k0 else k0 + 1) d1 =
        (Inr (fold (\<lambda>r m. max m (dr_logical_clock r)) rs (max c (dr_logical_clock r)),
          (if did then a0 + 1 else a0) + a, (if did then k0 else k0 + 1) + k), d2)"
    and k: "a + k = length rs" and c2: "contents_of d2 = foldl merge_spec (contents_of d1) rs"
    and w2: "wf_db d2" "d2 = d1\<lparr>t_records := t_records d2\<rparr>" by auto
  have "d2 = d\<lparr>t_records := t_records d2\<rparr>" using w1(2) w2(2) by (metis db.update_convs(4) db.surjective)
  with m r k c1 c2 w2(1) show ?case
    by (intro exI [of _ d2] exI [of _ "if did then a + 1 else a"] exI [of _ "if did then k else k + 1"]) simp
qed auto

section \<open>Convergence\<close>

text \<open>
  A set of records is uniform when records with the same identifier have the same kind and schema
  version. In a uniform set the merge is a maximum: what a replica holds at an identifier is the
  highest ranked record of all it has seen, whatever the order.
\<close>

definition uniform :: "vault_delta_record set \<Rightarrow> bool" where
  "uniform X \<longleftrightarrow> (\<forall>a\<in>X. \<forall>b\<in>X. dr_record_id a = dr_record_id b \<longrightarrow>
     dr_kind a = dr_kind b \<and> dr_version a = dr_version b)"

definition winner :: "vault_delta_record set \<Rightarrow> string \<Rightarrow> vault_delta_record \<Rightarrow> bool" where
  "winner X i x \<longleftrightarrow> x \<in> X \<and> dr_record_id x = i \<and> (\<forall>y\<in>X. dr_record_id y = i \<longrightarrow> rank y \<le> rank x)"

definition keyed :: "contents \<Rightarrow> bool" where
  "keyed m \<longleftrightarrow> (\<forall>i x. m i = Some x \<longrightarrow> dr_record_id x = i)"

lemma uniform_subset: "uniform X \<Longrightarrow> Y \<subseteq> X \<Longrightarrow> uniform Y"
  unfolding uniform_def by blast

lemma uniform_rank_inj:
  "uniform X \<Longrightarrow> a \<in> X \<Longrightarrow> b \<in> X \<Longrightarrow> dr_record_id a = dr_record_id b \<Longrightarrow> rank a = rank b \<Longrightarrow> a = b"
  unfolding uniform_def using rank_inj by blast

lemma winner_unique: "uniform X \<Longrightarrow> winner X i x \<Longrightarrow> winner X i y \<Longrightarrow> x = y"
  unfolding winner_def by (rule uniform_rank_inj) (auto intro: order.antisym)

text \<open>Dropping a record that another one of the set dominates does not change the winners.\<close>

lemma winner_drop:
  assumes "uniform (insert a X)" and "b \<in> X" and "dr_record_id a = dr_record_id b" and "rank a \<le> rank b"
  shows "winner (insert a X) i x \<longleftrightarrow> winner X i x"
proof
  assume w: "winner (insert a X) i x"
  show "winner X i x"
  proof (cases "x = a")
    case True
    with w assms(2,3) have "rank b \<le> rank a" by (auto simp: winner_def)
    with assms have "a = b" by (auto intro: uniform_rank_inj order.antisym)
    with w assms(2) show ?thesis by (auto simp: winner_def insert_absorb)
  qed (use w in \<open>auto simp: winner_def\<close>)
next
  assume "winner X i x"
  with assms(2-4) show "winner (insert a X) i x"
    by (auto simp: winner_def intro: order.trans)
qed

lemma keyed_merge_spec: "keyed m \<Longrightarrow> keyed (merge_spec m r)"
  by (auto simp: keyed_def merge_spec_def)

lemma ran_upd_None: "m i = None \<Longrightarrow> ran (m(i \<mapsto> r)) = insert r (ran m)"
  by (rule ran_map_upd)

lemma ran_upd_Some: "m i = Some e \<Longrightarrow> insert e (ran (m(i \<mapsto> r))) = insert r (ran m)"
proof -
  assume e: "m i = Some e"
  have "ran (m(i \<mapsto> r)) = insert r (ran (m(i := None)))"
    using ran_map_upd [of "m(i := None)" i r] by simp
  moreover have "ran m = insert e (ran (m(i := None)))"
    using ran_map_upd [of "m(i := None)" i e] e by (simp add: fun_upd_idem)
  ultimately show ?thesis by auto
qed

lemma winner_step:
  assumes "keyed m" and "uniform (insert r (ran m \<union> R))"
  shows "winner (insert r (ran m \<union> R)) i x \<longleftrightarrow> winner (ran (merge_spec m r) \<union> R) i x"
proof (cases "m (dr_record_id r)")
  case None
  then show ?thesis by (simp add: merge_spec_def ran_upd_None)
next
  case (Some e)
  then have e: "e \<in> ran m" "dr_record_id e = dr_record_id r"
    using assms(1) by (auto simp: keyed_def ran_def)
  with assms(2) have k: "dr_kind e = dr_kind r" by (auto simp: uniform_def)
  show ?thesis
  proof (cases "rank r \<le> rank e")
    case True
    with Some k have "merge_spec m r = m" by (simp add: merge_spec_def)
    with winner_drop [of r "ran m \<union> R" e] True e assms(2) show ?thesis by auto
  next
    case False
    let ?Y = "ran (m(dr_record_id r \<mapsto> r)) \<union> R"
    have spec: "merge_spec m r = m(dr_record_id r \<mapsto> r)" using Some k False by (simp add: merge_spec_def)
    have Y: "r \<in> ?Y" "insert e ?Y = insert r (ran m \<union> R)"
      using ran_upd_Some [of m "dr_record_id r" e r, OF Some] by (auto intro: ranI [of _ "dr_record_id r"])
    with winner_drop [of e ?Y r] False e assms(2) show ?thesis unfolding spec by auto
  qed
qed

lemma merge_spec_subset: "ran (merge_spec m r) \<subseteq> insert r (ran m)"
  by (auto simp: merge_spec_def ran_def split: if_splits)

lemma merge_winner:
  assumes "keyed m" and "uniform (ran m \<union> set rs)"
  shows "foldl merge_spec m rs i = Some x \<longleftrightarrow> winner (ran m \<union> set rs) i x"
  using assms
proof (induction rs arbitrary: m)
  case Nil
  have "x \<in> ran m \<and> dr_record_id x = i \<longleftrightarrow> m i = Some x"
    using Nil.prems(1) by (auto simp: keyed_def ran_def)
  moreover have "y = x" if "m i = Some x" "y \<in> ran m" "dr_record_id y = i" for y
    using Nil.prems(1) that by (auto simp: keyed_def ran_def)
  ultimately show ?case by (auto simp: winner_def)
next
  case (Cons r rs)
  have un: "uniform (insert r (ran m \<union> set rs))" using Cons.prems(2) by simp
  have "uniform (ran (merge_spec m r) \<union> set rs)"
    by (rule uniform_subset [OF un]) (use merge_spec_subset [of m r] in auto)
  with Cons.IH [OF keyed_merge_spec [OF Cons.prems(1)]] winner_step [OF Cons.prems(1) un]
  show ?case by simp
qed

text \<open>Replicas that have seen the same records agree, whatever the order and the repetitions.\<close>

lemma merge_converges:
  assumes "keyed m" and "keyed m'" and "uniform (ran m \<union> set rs)" and "ran m \<union> set rs = ran m' \<union> set rs'"
  shows "foldl merge_spec m rs = foldl merge_spec m' rs'"
proof
  fix i
  have "foldl merge_spec m rs i = Some x \<longleftrightarrow> foldl merge_spec m' rs' i = Some x" for x
    using assms merge_winner [of m rs i x] merge_winner [of m' rs' i x] by simp
  then show "foldl merge_spec m rs i = foldl merge_spec m' rs' i"
    by (metis not_None_eq)
qed

lemma keyed_contents_of [simp]: "keyed (contents_of d)"
  by (simp add: keyed_def contents_of_id)

section \<open>Applying a delta\<close>

abbreviation clocks_max :: "vault_delta_record list \<Rightarrow> u64 \<Rightarrow> u64" where
  "clocks_max rs c \<equiv> fold (\<lambda>r m. max m (dr_logical_clock r)) rs c"

lemma clocks_max_ge: "c \<le> clocks_max rs c \<and> (\<forall>r\<in>set rs. dr_logical_clock r \<le> clocks_max rs c)"
proof (induction rs arbitrary: c)
  case (Cons r rs)
  from Cons [of "max c (dr_logical_clock r)"] show ?case by (auto intro: order.trans)
qed simp

lemma clocks_max_in: "clocks_max rs c \<in> insert c (dr_logical_clock ` set rs)"
proof (induction rs arbitrary: c)
  case (Cons r rs)
  from Cons [of "max c (dr_logical_clock r)"] show ?case by (auto simp: max_def split: if_splits)
qed simp

lemma ran_foldl_merge: "ran (foldl merge_spec m rs) \<subseteq> ran m \<union> set rs"
proof (induction rs arbitrary: m)
  case (Cons r rs)
  from Cons [of "merge_spec m r"] merge_spec_subset [of m r] show ?case by auto
qed simp

lemma row_contents:
  assumes "wf_db d" and "row \<in> set (t_records d)"
  shows "delta_record_of (rec_of row) \<in> ran (contents_of d)"
proof -
  have "lookup_row rr_record_id (rr_record_id row) (t_records d) = Some row"
    using assms lookup_row_iff [of rr_record_id "t_records d"] by (simp add: wf_db_def)
  then have "contents_of d (rr_record_id row) = Some (delta_record_of (rec_of row))"
    by (simp add: contents_of_def record_at_def)
  then show ?thesis by (rule ranI)
qed

lemma contents_row:
  assumes "x \<in> ran (contents_of d)"
  shows "\<exists>row\<in>set (t_records d). x = delta_record_of (rec_of row)"
  using assms by (auto simp: ran_def contents_of_def record_at_def dest: lookup_row_Some)

definition delta_fits :: "vault_delta \<Rightarrow> bool" where
  "delta_fits delta \<longleftrightarrow> fits_i64 (vd_to_clock delta)
     \<and> list_all (\<lambda>r. fits_i64 (dr_logical_clock r)) (vd_records delta)"

definition synced_store :: "'d env \<Rightarrow> u64 \<Rightarrow> db \<Rightarrow> 'd vault_store \<Rightarrow> 'd vault_store" where
  "synced_store env c d s =
     s\<lparr>s_conn := d\<lparr>t_vault_header := map_option (\<lambda>h. h\<lparr>vh_last_logical_clock := c,
                    vh_updated_at := now_at env (s_tick s)\<rparr>) (t_vault_header d)\<rparr>,
       s_tick := Suc (Suc (s_tick s)),
       s_header := map_option (\<lambda>h. h\<lparr>vh_last_logical_clock := c,
                    vh_updated_at := now_at env (Suc (s_tick s))\<rparr>) (s_header s)\<rparr>"

lemma synced_store_inv:
  assumes "vault_inv s" and "wf_db d" and "d = (s_conn s)\<lparr>t_records := rows\<rparr>" and "fits_i64 c"
    and "\<And>row. row \<in> set rows \<Longrightarrow> rr_logical_clock row \<le> c" and "s_header s = Some h"
  shows "vault_inv (synced_store env c d s)"
proof -
  from vault_inv_header [OF assms(1,6)] obtain row where
    row: "t_vault_header (s_conn s) = Some row" "hdr_agree h row" by metis
  have "wf_db (s_conn (synced_store env c d s))"
    using assms(2,4) by (auto simp: synced_store_def wf_db_def)
  with row assms show ?thesis
    by (auto simp: vault_inv_def inv_of_def view_def synced_store_def hdr_agree_clock list_all_iff)
qed

lemma apply_delta_run:
  assumes inv: "vault_inv s" and h: "s_header s = Some h"
    and id: "vd_vault_id delta = vh_vault_id h" and older: "vd_from_clock delta \<le> vh_last_logical_clock h"
    and fits: "delta_fits delta"
  shows "\<exists>a k t. apply_delta env delta s =
       (Inr \<lparr>ar_applied_records = a, ar_skipped_records = k, ar_new_cursor = current_cursor t\<rparr>, t)
     \<and> a + k = length (vd_records delta)
     \<and> contents_of (s_conn t) = foldl merge_spec (contents_of (s_conn s)) (vd_records delta)
     \<and> clock_of t = clocks_max (vd_records delta) (max (clock_of s) (vd_to_clock delta))
     \<and> key_view t = key_view s \<and> t_recovery_bundles (s_conn t) = t_recovery_bundles (s_conn s)
     \<and> vault_inv t"
proof -
  let ?rs = "vd_records delta" let ?start = "max (clock_of s) (vd_to_clock delta)"
  let ?c = "clocks_max ?rs ?start"
  have ch: "clock_of s = vh_last_logical_clock h" by (simp add: clock_of_def current_cursor_def h)
  from merge_records_refines [OF vault_inv_wf [OF inv], of ?rs ?start 0 0] fits
  obtain d a k where m: "merge_records ?rs ?start 0 0 (s_conn s) = (Inr (?c, a, k), d)"
    and ak: "a + k = length ?rs" and cont: "contents_of d = foldl merge_spec (contents_of (s_conn s)) ?rs"
    and d: "wf_db d" "d = (s_conn s)\<lparr>t_records := t_records d\<rparr>"
    by (auto simp: delta_fits_def list_all_iff)
  obtain row where row: "t_vault_header (s_conn s) = Some row" "vh_last_logical_clock row = vh_last_logical_clock h"
    and old: "\<And>r. r \<in> set (t_records (s_conn s)) \<Longrightarrow> rr_logical_clock r \<le> vh_last_logical_clock h"
    using vault_inv_header [OF inv h] by metis
  have "fits_i64 (clock_of s)" using vault_inv_wf [OF inv] row ch by (simp add: wf_db_def)
  then have fc: "fits_i64 ?c"
    using clocks_max_in [of ?rs ?start] fits by (auto simp: delta_fits_def list_all_iff max_def split: if_splits)
  have seen: "dr_logical_clock x \<le> ?c" if "x \<in> ran (contents_of (s_conn s)) \<union> set ?rs" for x
    using that
  proof
    assume "x \<in> ran (contents_of (s_conn s))"
    then obtain r where "r \<in> set (t_records (s_conn s))" "x = delta_record_of (rec_of r)"
      using contents_row by blast
    then have "dr_logical_clock x \<le> clock_of s" using old ch by simp
    with clocks_max_ge [of ?start ?rs] show ?thesis by auto
  qed (use clocks_max_ge [of ?start ?rs] in auto)
  have le: "rr_logical_clock r \<le> ?c" if "r \<in> set (t_records d)" for r
  proof -
    have "delta_record_of (rec_of r) \<in> ran (contents_of (s_conn s)) \<union> set ?rs"
      using row_contents [OF d(1) that] ran_foldl_merge cont by auto
    then have "dr_logical_clock (delta_record_of (rec_of r)) \<le> ?c"
      using seen by blast
    then show ?thesis by simp
  qed
  let ?t = "synced_store env ?c d s"
  have "apply_delta env delta s = (Inr \<lparr>ar_applied_records = a, ar_skipped_records = k,
      ar_new_cursor = \<lparr>sc_logical_clock = ?c\<rparr>\<rparr>, ?t)"
    using id leD [OF older] m fc h ch
    by (simp add: apply_delta_def header_or_def on_db_simp clock_of_def [symmetric]
        set_last_logical_clock_def sql_u64_def synced_store_def)
  moreover have "current_cursor ?t = \<lparr>sc_logical_clock = ?c\<rparr>" "clock_of ?t = ?c"
    by (simp_all add: current_cursor_def clock_of_def synced_store_def h)
  moreover have "key_view ?t = key_view s" by (simp add: key_view_def synced_store_def h)
  moreover have "contents_of (s_conn ?t) = contents_of d" "t_recovery_bundles (s_conn ?t) = t_recovery_bundles d"
    by (simp_all add: contents_of_def [abs_def] record_at_def [abs_def] synced_store_def)
  moreover have "t_recovery_bundles d = t_recovery_bundles (s_conn s)"
    by (subst d(2)) simp
  moreover have "vault_inv ?t" by (rule synced_store_inv [OF inv d fc le h])
  ultimately show ?thesis using ak cont by metis
qed

section \<open>Exporting\<close>

lemma try_map_rows:
  "wf_db d \<Longrightarrow> set rows \<subseteq> set (t_records d) \<Longrightarrow>
     try_map encrypted_record_from_row rows = Inr (map rec_of rows)"
  by (rule try_map_all_Inr, rule from_row_wf) (auto intro: wf_db_rows)

lemma contents_ran: "wf_db d \<Longrightarrow> ran (contents_of d) = (\<lambda>row. delta_record_of (rec_of row)) ` set (t_records d)"
  using row_contents contents_row by fast

lemma export_delta_run:
  assumes inv: "vault_inv s" and h: "s_header s = Some h"
  shows "\<exists>rs. export_delta since s = Inr \<lparr>vd_vault_id = vh_vault_id h,
       vd_from_clock = min (sc_logical_clock since) (clock_of s), vd_to_clock = clock_of s, vd_records = rs\<rparr>
     \<and> set rs = {x \<in> ran (contents_of (s_conn s)). min (sc_logical_clock since) (clock_of s) < dr_logical_clock x}
     \<and> fits_i64 (clock_of s) \<and> list_all (\<lambda>r. fits_i64 (dr_logical_clock r)) rs"
proof -
  let ?d = "s_conn s" let ?from = "min (sc_logical_clock since) (clock_of s)"
  have ch: "clock_of s = vh_last_logical_clock h" by (simp add: clock_of_def current_cursor_def h)
  obtain row where row: "t_vault_header ?d = Some row" "vh_last_logical_clock row = vh_last_logical_clock h"
    using vault_inv_header [OF inv h] by metis
  have wf: "wf_db ?d" by (rule vault_inv_wf [OF inv])
  then have fc: "fits_i64 (clock_of s)" using row ch by (simp add: wf_db_def)
  then have ff: "fits_i64 ?from" by (auto simp: fits_i64_def min_def intro: le_less_trans)
  let ?rows = "sort_key clock_order (filter (\<lambda>r. ?from < rr_logical_clock r) (t_records ?d))"
  let ?rs = "map delta_record_of (map rec_of ?rows)"
  have "export_delta since s = Inr \<lparr>vd_vault_id = vh_vault_id h, vd_from_clock = ?from,
      vd_to_clock = clock_of s, vd_records = ?rs\<rparr>"
    using ff ch try_map_rows [OF wf, of ?rows]
    by (auto simp: export_delta_def header_or_def h Let_def list_records_after_clock_def)
  moreover have "set ?rs = {x \<in> ran (contents_of ?d). ?from < dr_logical_clock x}"
    by (auto simp: contents_ran [OF wf])
  moreover have "list_all (\<lambda>r. fits_i64 (dr_logical_clock r)) ?rs"
    using wf by (auto simp: list_all_iff wf_db_def wf_row_def)
  ultimately show ?thesis using fc by blast
qed

section \<open>Snapshots\<close>

lemma for_all_on_db:
  "(\<And>x d. x \<in> set xs \<Longrightarrow> f x d = (Inr (), g x d)) \<Longrightarrow>
     for_all (\<lambda>x. on_db (f x)) xs s = (Inr (), s\<lparr>s_conn := fold g xs (s_conn s)\<rparr>)"
proof (induction xs arbitrary: s)
  case (Cons x xs)
  then show ?case by (simp add: on_db_simp)
qed simp

definition put_row :: "vault_delta_record \<Rightarrow> db \<Rightarrow> db" where
  "put_row r d = d\<lparr>t_records := upsert_row rr_record_id overwrite_row
     (row_of_record (delta_record_to_synced_record r)) (t_records d)\<rparr>"

definition put_device :: "device_enrollment \<Rightarrow> db \<Rightarrow> db" where
  "put_device e d = d\<lparr>t_device_enrollments := upsert_row de_device_id merge_enrollment e (t_device_enrollments d)\<rparr>"

lemma put_row_frame:
  "t_vault_header (fold put_row rs d) = t_vault_header d"
  "t_recovery_bundles (fold put_row rs d) = t_recovery_bundles d"
  "t_device_enrollments (fold put_row rs d) = t_device_enrollments d"
  "t_local_state (fold put_row rs d) = t_local_state d"
  by (induction rs arbitrary: d) (simp_all add: put_row_def)

lemma put_device_frame:
  "t_vault_header (fold put_device es d) = t_vault_header d"
  "t_recovery_bundles (fold put_device es d) = t_recovery_bundles d"
  "t_records (fold put_device es d) = t_records d"
  "t_local_state (fold put_device es d) = t_local_state d"
  by (induction es arbitrary: d) (simp_all add: put_device_def)

lemma contents_put_row: "contents_of (put_row r d) = (contents_of d)(dr_record_id r \<mapsto> r)"
  by (simp add: put_row_def contents_of_upsert)

lemma contents_put_rows:
  "contents_of (fold put_row rs d) = contents_of d ++ map_of (rev (map (\<lambda>r. (dr_record_id r, r)) rs))"
  by (induction rs arbitrary: d) (simp_all add: contents_put_row map_add_upd_left map_add_assoc fun_eq_iff map_add_def split: option.split)

lemma wf_put_rows:
  "wf_db d \<Longrightarrow> list_all (\<lambda>r. fits_i64 (dr_logical_clock r)) rs \<Longrightarrow> wf_db (fold put_row rs d)"
proof (induction rs arbitrary: d)
  case (Cons r rs)
  then have "wf_db (put_row r d)" unfolding put_row_def by (intro wf_db_upsert_record) auto
  with Cons show ?case by simp
qed simp

lemma wf_put_devices: "wf_db d \<Longrightarrow> wf_db (fold put_device es d)"
proof (induction es arbitrary: d)
  case (Cons e es)
  have "put_device e d = snd (upsert_device_enrollment e d)"
    by (simp add: put_device_def upsert_device_enrollment_def)
  with Cons show ?case using keepsD [OF keeps_wf_upsert_device_enrollment] by auto
qed simp

lemma put_rows_clock:
  assumes "row \<in> set (t_records (fold put_row rs d))"
  shows "row \<in> set (t_records d) \<or> (\<exists>r\<in>set rs. rr_logical_clock row = dr_logical_clock r)"
  using assms
proof (induction rs arbitrary: d)
  case (Cons r rs)
  from Cons.IH [of "put_row r d"] Cons.prems show ?case
    by (auto simp: put_row_def overwrite_row_def dest!: set_upsert_row)
qed simp

text \<open>The header that a snapshot installs, and the store after it.\<close>

definition snapshot_header :: "vault_snapshot \<Rightarrow> vault_header" where
  "snapshot_header snap =
     (if vh_last_logical_clock (vs_header snap) < max_record_clock (vs_records snap)
      then (vs_header snap)\<lparr>vh_last_logical_clock := max_record_clock (vs_records snap)\<rparr>
      else vs_header snap)"

definition bootstrapped :: "vault_snapshot \<Rightarrow> 'd vault_store \<Rightarrow> 'd vault_store" where
  "bootstrapped snap s =
     s\<lparr>s_conn := fold put_row (vs_records snap) (fold put_device (vs_device_enrollments snap)
         ((s_conn s)\<lparr>t_vault_header := Some (snapshot_header snap),
            t_recovery_bundles := [vs_recovery_bundle snap], t_device_enrollments := []\<rparr>)),
       s_header := Some (snapshot_header snap)\<rparr>"

lemma snapshot_header_clock:
  "max_record_clock (vs_records snap) \<le> vh_last_logical_clock (snapshot_header snap)"
  by (simp add: snapshot_header_def leI)

lemma snapshot_records_fit:
  assumes "fits_i64 (vh_last_logical_clock (snapshot_header snap))" and "r \<in> set (vs_records snap)"
  shows "fits_i64 (dr_logical_clock r)" "dr_logical_clock r \<le> vh_last_logical_clock (snapshot_header snap)"
proof -
  have "dr_logical_clock r \<le> max_record_clock (vs_records snap)"
    using clocks_max_ge [of 0 "vs_records snap"] assms(2) by (auto simp: max_record_clock_def)
  then show "dr_logical_clock r \<le> vh_last_logical_clock (snapshot_header snap)"
    using snapshot_header_clock [of snap] by (rule order.trans)
  with assms(1) show "fits_i64 (dr_logical_clock r)" by (auto simp: fits_i64_def)
qed

lemma apply_snapshot_run:
  assumes "s_header s = None" and "t_records (s_conn s) = []" and "t_vault_header (s_conn s) = None"
    and "verify_header_integrity (vs_header snap) = Inr ()"
    and "fits_i64 (vh_last_logical_clock (snapshot_header snap))"
  shows "apply_snapshot snap s = (Inr (), bootstrapped snap s)"
proof -
  have "upsert_record (delta_record_to_synced_record r) d = (Inr (), put_row r d)"
    if "r \<in> set (vs_records snap)" for r d
    unfolding put_row_def
    by (rule upsert_record_fits) (use snapshot_records_fit [OF assms(5) that] in auto)
  then have rows: "for_all (\<lambda>r. on_db (upsert_record (delta_record_to_synced_record r))) (vs_records snap) u =
      (Inr (), u\<lparr>s_conn := fold put_row (vs_records snap) (s_conn u)\<rparr>)" for u :: "'a vault_store"
    by (rule for_all_on_db)
  have devs: "for_all (\<lambda>e. on_db (upsert_device_enrollment e)) es u =
      (Inr (), u\<lparr>s_conn := fold put_device es (s_conn u)\<rparr>)" for es and u :: "'a vault_store"
    by (rule for_all_on_db) (simp add: put_device_def upsert_device_enrollment_def)
  show ?thesis
    using assms
    by (simp add: apply_snapshot_def count_records_def snapshot_header_def [symmetric] insert_header_def
        on_db_simp sql_u64_def insert_recovery_bundle_simp clear_device_enrollments_def devs rows
        bootstrapped_def Let_def)
qed

lemma apply_snapshot_cases:
  obtains (failed) e where "apply_snapshot snap s = (Inl e, s)"
  | (installed) "apply_snapshot snap s = (Inr (), bootstrapped snap s)" "s_header s = None"
      "t_records (s_conn s) = []" "t_vault_header (s_conn s) = None"
      "fits_i64 (vh_last_logical_clock (snapshot_header snap))"
proof (cases "s_header s = None \<and> t_records (s_conn s) = []")
  case False
  then show thesis
    by (intro failed [of SnapshotRequiresUninitializedVault])
       (auto simp: apply_snapshot_def count_records_def and_then_def)
next
  case clear: True
  show thesis
  proof (cases "verify_header_integrity (vs_header snap)")
    case (Inl e)
    with clear show thesis by (intro failed [of e]) (simp add: apply_snapshot_def count_records_def)
  next
    case (Inr u)
    show thesis
    proof (cases "t_vault_header (s_conn s) = None \<and> fits_i64 (vh_last_logical_clock (snapshot_header snap))")
      case True
      with clear Inr show thesis by (intro installed apply_snapshot_run) auto
    next
      case False
      then obtain e where "insert_header (snapshot_header snap) (s_conn s) = (Inl e, s_conn s)"
        by (cases "fits_i64 (vh_last_logical_clock (snapshot_header snap))")
           (auto simp: insert_header_def sql_u64_def)
      with clear Inr show thesis
        by (intro failed [of e])
           (simp add: apply_snapshot_def count_records_def snapshot_header_def [symmetric] on_db_simp Let_def)
    qed
  qed
qed

lemma bootstrapped_inv:
  assumes inv: "vault_inv s" and "s_header s = None" and "t_records (s_conn s) = []"
    and fits: "fits_i64 (vh_last_logical_clock (snapshot_header snap))"
  shows "vault_inv (bootstrapped snap s)"
proof -
  let ?d = "(s_conn s)\<lparr>t_vault_header := Some (snapshot_header snap),
      t_recovery_bundles := [vs_recovery_bundle snap], t_device_enrollments := []\<rparr>"
  have "wf_db ?d" using vault_inv_wf [OF inv] fits by (simp add: wf_db_def)
  then have "wf_db (fold put_row (vs_records snap) (fold put_device (vs_device_enrollments snap) ?d))"
    using snapshot_records_fit [OF fits] by (intro wf_put_rows wf_put_devices) (auto simp: list_all_iff)
  moreover have "rr_logical_clock row \<le> vh_last_logical_clock (snapshot_header snap)"
    if "row \<in> set (t_records (fold put_row (vs_records snap) (fold put_device (vs_device_enrollments snap) ?d)))" for row
    using put_rows_clock [OF that] assms(3) snapshot_records_fit(2) [OF fits]
    by (auto simp: put_device_frame)
  moreover have "s_master_key s = None"
    using vault_inv_master [OF inv] assms(2) by (cases "s_master_key s") auto
  ultimately show ?thesis
    by (simp add: vault_inv_def inv_of_def view_def bootstrapped_def put_row_frame put_device_frame
        hdr_agree_def list_all_iff)
qed

lemma keeps_apply_snapshot [keeps_rules]: "keeps vault_inv (apply_snapshot snap)"
proof (rule keepsI)
  fix s :: "'a vault_store"
  assume s: "vault_inv s"
  show "vault_inv (snd (apply_snapshot snap s))"
    by (cases rule: apply_snapshot_cases [of snap s]) (use s bootstrapped_inv in auto)
qed

lemma contents_bootstrapped:
  assumes "t_records (s_conn s) = []"
  shows "contents_of (s_conn (bootstrapped snap s)) = map_of (rev (map (\<lambda>r. (dr_record_id r, r)) (vs_records snap)))"
proof -
  have "contents_of d = (\<lambda>_. None)" if "t_records d = []" for d
    using that by (simp add: contents_of_def [abs_def] record_at_def)
  with assms show ?thesis
    by (simp add: bootstrapped_def contents_put_rows put_device_frame)
qed

lemma map_of_keyed:
  assumes "distinct (map f xs)" and "keyed_by = (\<lambda>r. (f r, r))"
  shows "map_of (rev (map keyed_by xs)) i = Some x \<longleftrightarrow> x \<in> set xs \<and> f x = i"
proof -
  have "distinct (map fst (rev (map keyed_by xs)))"
    using assms by (simp add: rev_map [symmetric] comp_def)
  from map_of_eq_Some_iff [OF this] show ?thesis by (auto simp: assms(2))
qed

definition exported :: "db \<Rightarrow> vault_delta_record list" where
  "exported d = map delta_record_of (map rec_of (sort_key clock_order (t_records d)))"

lemma exported_contents:
  assumes "wf_db d"
  shows "map_of (rev (map (\<lambda>r. (dr_record_id r, r)) (exported d))) = contents_of d"
proof
  fix i
  have ids: "map dr_record_id (exported d) = map rr_record_id (sort_key clock_order (t_records d))"
    by (simp add: exported_def comp_def)
  have "distinct (map rr_record_id (sort_key clock_order (t_records d)))"
  proof -
    have "mset (map rr_record_id (sort_key clock_order (t_records d))) = mset (map rr_record_id (t_records d))"
      by simp
    then show ?thesis using assms by (metis mset_eq_imp_distinct_iff wf_db_def)
  qed
  then have "distinct (map dr_record_id (exported d))" by (simp only: ids)
  note key = map_of_keyed [OF this refl, of i]
  have ran: "set (exported d) = ran (contents_of d)"
    by (simp add: exported_def contents_ran [OF assms] image_image)
  have "x \<in> ran (contents_of d) \<and> dr_record_id x = i \<longleftrightarrow> contents_of d i = Some x" for x
    using contents_of_id [of d] by (auto simp: ran_def)
  then have "map_of (rev (map (\<lambda>r. (dr_record_id r, r)) (exported d))) i = Some x \<longleftrightarrow> contents_of d i = Some x" for x
    unfolding key ran .
  then show "map_of (rev (map (\<lambda>r. (dr_record_id r, r)) (exported d))) i = contents_of d i"
    by (metis not_None_eq)
qed

lemma export_snapshot_run:
  assumes "vault_inv s" and "s_header s = Some h" and "t_recovery_bundles (s_conn s) = [b]"
  shows "export_snapshot s = Inr \<lparr>vs_header = h, vs_recovery_bundle = b,
     vs_device_enrollments = sort_key (\<lambda>e. (de_created_at e, de_device_id e)) (t_device_enrollments (s_conn s)),
     vs_records = exported (s_conn s)\<rparr>"
  using assms try_map_rows [OF vault_inv_wf [OF assms(1)], of "sort_key clock_order (t_records (s_conn s))"]
  by (simp add: export_snapshot_def header_or_def load_recovery_bundle_def list_device_enrollments_def
      list_all_records_def exported_def)

lemma max_record_clock_le:
  "(\<And>r. r \<in> set rs \<Longrightarrow> dr_logical_clock r \<le> c) \<Longrightarrow> max_record_clock rs \<le> c"
  using clocks_max_in [of rs 0] by (auto simp: max_record_clock_def)

lemma export_header_kept:
  assumes "vault_inv s" and "s_header s = Some h"
  shows "max_record_clock (exported (s_conn s)) \<le> vh_last_logical_clock h"
proof -
  obtain row where "\<And>r. r \<in> set (t_records (s_conn s)) \<Longrightarrow> rr_logical_clock r \<le> vh_last_logical_clock h"
    using vault_inv_header [OF assms] by metis
  then have "\<forall>r\<in>set (exported (s_conn s)). dr_logical_clock r \<le> vh_last_logical_clock h"
    by (auto simp: exported_def)
  then show ?thesis by (intro max_record_clock_le) blast
qed

end
