(* ===== verification/Vault_Integrity.thy ===== *)
theory Vault_Integrity
  imports Vault_Collections
begin

text \<open>
  References between records: a host names credentials and keys, a port forward names a host. The
  store methods check that what they name exists, the delete methods that nothing names what they
  remove; together they keep every reference of an active record resolvable.
\<close>

section \<open>References\<close>

definition resolves_credential :: "'d env \<Rightarrow> 'd vault_store \<Rightarrow> string \<Rightarrow> bool" where
  "resolves_credential env s i \<longleftrightarrow> (\<exists>c. load_password_credential env i s = Inr (Some c))"

definition resolves_key :: "'d env \<Rightarrow> 'd vault_store \<Rightarrow> string \<Rightarrow> bool" where
  "resolves_key env s i \<longleftrightarrow> (\<exists>k. load_private_key env i s = Inr (Some k))"

definition resolves_host :: "'d env \<Rightarrow> 'd vault_store \<Rightarrow> string \<Rightarrow> bool" where
  "resolves_host env s i \<longleftrightarrow> (\<exists>h. load_host_profile env i s = Inr (Some h))"

fun resolves_auth :: "'d env \<Rightarrow> 'd vault_store \<Rightarrow> host_auth_ref \<Rightarrow> bool" where
  "resolves_auth env s (AuthPassword c) \<longleftrightarrow> resolves_credential env s c"
| "resolves_auth env s (AuthPrivateKey k p) \<longleftrightarrow>
     resolves_key env s k \<and> (\<forall>c. p = Some c \<longrightarrow> resolves_credential env s c)"

text \<open>Every reference of every active record resolves to an active record of the right kind.\<close>

definition refs_resolve :: "'d env \<Rightarrow> 'd vault_store \<Rightarrow> bool" where
  "refs_resolve env s \<longleftrightarrow>
     (\<forall>i h. load_host_profile env i s = Inr (Some h) \<longrightarrow> list_all (resolves_auth env s) (ho_auth_order h))
     \<and> (\<forall>i p. load_port_forward env i s = Inr (Some p) \<longrightarrow> resolves_host env s (pf_host_id p))"

text \<open>An identifier no record of another kind has.\<close>

definition id_free :: "record_kind \<Rightarrow> string \<Rightarrow> 'd vault_store \<Rightarrow> bool" where
  "id_free kind i s \<longleftrightarrow>
     (case record_at (s_conn s) i of None \<Rightarrow> True | Some r \<Rightarrow> er_kind r = kind)"

section \<open>The checks decide the references\<close>

lemma require_credential_iff: "require_credential env s i = Inr () \<longleftrightarrow> resolves_credential env s i"
  by (auto simp: require_credential_def resolves_credential_def load_password_credential_def and_then_r_Inr
      split: if_splits)

lemma validate_auth_ref_iff: "validate_auth_ref env s a = Inr () \<longleftrightarrow> resolves_auth env s a"
  by (cases a)
     (auto simp: validate_auth_ref_def require_credential_iff resolves_key_def load_private_key_def
      and_then_r_Inr split: option.splits if_splits)

lemma validate_host_auth_refs_iff:
  "validate_host_auth_refs env s h = Inr u \<longleftrightarrow> list_all (resolves_auth env s) (ho_auth_order h)"
  by (simp add: validate_host_auth_refs_def for_each_Inr validate_auth_ref_iff list_all_iff)

lemma resolves_auth_mono:
  assumes "\<And>i. resolves_credential env s i \<Longrightarrow> auth_uses_credential i a \<Longrightarrow> resolves_credential env t i"
    and "\<And>i. resolves_key env s i \<Longrightarrow> auth_uses_key i a \<Longrightarrow> resolves_key env t i"
    and "resolves_auth env s a"
  shows "resolves_auth env t a"
  using assms by (cases a) auto

lemma list_all2_mem: "list_all2 P xs ys \<Longrightarrow> x \<in> set xs \<Longrightarrow> \<exists>y\<in>set ys. P x y"
  by (induction rule: list_all2_induct) auto

text \<open>What the listing of a kind returns is what its loads return.\<close>

lemma list_payloads_mem:
  assumes "wf_db (s_conn s)" and "list_payloads env C k (\<lambda>x r. x) s = Inr xs"
    and "load_record_payload env C i k s = Inr (Some x)"
  shows "x \<in> set xs"
proof -
  obtain r where r: "active_at (s_conn s) i k = Some r" "decrypt_record env C s r = Inr x"
    using assms(1,3) by (auto simp: load_payload_spec and_then_r_Inr split: option.splits)
  obtain rs where rs: "list_records_by_kind k (s_conn s) = Inr rs"
    and xs: "try_map (\<lambda>r. and_then_r (decrypt_record env C s r) Inr) rs = Inr xs"
    using assms(2) by (auto simp: list_payloads_def and_then_r_Inr)
  have a: "record_at (s_conn s) i = Some r" "er_kind r = k" "er_deleted_at r = None"
    using r(1) by (simp_all add: active_at_def split: option.splits if_splits)
  then have "r \<in> set rs"
    using list_records_by_kind_set [OF assms(1) rs, of r] record_at_id [OF a(1)] by simp
  moreover from xs have "list_all2 (\<lambda>r y. and_then_r (decrypt_record env C s r) Inr = Inr y) rs xs"
    by (simp add: try_map_Inr_iff)
  ultimately obtain y where "y \<in> set xs" "and_then_r (decrypt_record env C s r) Inr = Inr y"
    using list_all2_mem [of "\<lambda>r y. and_then_r (decrypt_record env C s r) Inr = Inr y"] by blast
  with r(2) show ?thesis by simp
qed

section \<open>Records of other kinds are not touched\<close>

lemma other_kind_stored:
  assumes "stored_as env C kind i v s t" and "vault_inv s" and "vault_inv t" and "id_free kind i s" and "k \<noteq> kind"
  shows "load_record_payload env C' j k t = load_record_payload env C' j k s"
proof (cases "j = i")
  case True
  with assms show ?thesis
    by (auto simp: load_payload_spec vault_inv_wf active_at_def id_free_def stored_as_def
        split: option.splits if_splits)
next
  case False
  with assms show ?thesis by (auto simp: stored_as_def intro: same_elsewhere_load)
qed

lemma other_kind_deleted:
  assumes "delete_record env i kind s = (Inr b, t)" and "vault_inv s" and "k \<noteq> kind"
  shows "load_record_payload env C' j k t = load_record_payload env C' j k s"
proof (cases "j = i")
  case True
  have t: "vault_inv t" by (rule keeps_eq [OF keeps_delete_record assms(2,1)])
  with True delete_record_Inr [OF assms(1,2)] assms(2,3) show ?thesis
    by (cases b)
       (auto simp: load_payload_spec vault_inv_wf active_at_def tombstone_def split: option.splits if_splits)
next
  case False
  then show ?thesis by (rule delete_record_load(2) [OF assms(1,2)])
qed

section \<open>A step keeps the references\<close>

lemma refs_step:
  assumes refs: "refs_resolve env s"
    and hosts: "\<And>i h. load_host_profile env i t = Inr (Some h) \<Longrightarrow>
      load_host_profile env i s = Inr (Some h) \<or> list_all (resolves_auth env s) (ho_auth_order h)"
    and fwds: "\<And>i p. load_port_forward env i t = Inr (Some p) \<Longrightarrow>
      load_port_forward env i s = Inr (Some p) \<or> resolves_host env s (pf_host_id p)"
    and cred: "\<And>i h a c. load_host_profile env i t = Inr (Some h) \<Longrightarrow> a \<in> set (ho_auth_order h) \<Longrightarrow>
      auth_uses_credential c a \<Longrightarrow> resolves_credential env s c \<Longrightarrow> resolves_credential env t c"
    and key: "\<And>i h a k. load_host_profile env i t = Inr (Some h) \<Longrightarrow> a \<in> set (ho_auth_order h) \<Longrightarrow>
      auth_uses_key k a \<Longrightarrow> resolves_key env s k \<Longrightarrow> resolves_key env t k"
    and host: "\<And>i p. load_port_forward env i t = Inr (Some p) \<Longrightarrow>
      resolves_host env s (pf_host_id p) \<Longrightarrow> resolves_host env t (pf_host_id p)"
  shows "refs_resolve env t"
  unfolding refs_resolve_def
proof (intro conjI allI impI)
  fix i h
  assume h: "load_host_profile env i t = Inr (Some h)"
  with refs hosts have "list_all (resolves_auth env s) (ho_auth_order h)"
    by (auto simp: refs_resolve_def)
  then show "list_all (resolves_auth env t) (ho_auth_order h)"
    unfolding list_all_iff
  proof (intro ballI)
    fix a
    assume "\<forall>a\<in>set (ho_auth_order h). resolves_auth env s a" and a: "a \<in> set (ho_auth_order h)"
    then have "resolves_auth env s a" by blast
    with cred [OF h a] key [OF h a] show "resolves_auth env t a" by (rule resolves_auth_mono)
  qed
next
  fix i p
  assume p: "load_port_forward env i t = Inr (Some p)"
  with fwds [of i p] refs have "resolves_host env s (pf_host_id p)"
    unfolding refs_resolve_def by blast
  with host p show "resolves_host env t (pf_host_id p)" by blast
qed

lemmas load_defs = load_host_profile_def load_password_credential_def load_private_key_def load_port_forward_def

lemma refs_same_loads:
  assumes "refs_resolve env s" and "t_records (s_conn t) = t_records (s_conn s) \<and> key_view t = key_view s"
    and "vault_inv s" and "vault_inv t"
  shows "refs_resolve env t"
  by (rule refs_step [OF assms(1)])
     (simp_all add: load_defs same_records_load [OF assms(2-4)] resolves_credential_def resolves_key_def
       resolves_host_def)

definition env_ready :: "'d env \<Rightarrow> bool" where
  "env_ready env \<longleftrightarrow> aead_correct env \<and> draws_sized env \<and> uuids_fresh env
     \<and> json_correct (host_codec env) \<and> json_correct (credential_codec env)
     \<and> json_correct (key_codec env) \<and> json_correct (port_forward_codec env)"

lemma env_ready_ready:
  assumes "env_ready env" and "vault_inv s"
  shows "ready env (rt_codec (host_type env)) s" "ready env (rt_codec (credential_type env)) s"
    "ready env (rt_codec (key_type env)) s" "ready env (rt_codec (port_forward_type env)) s"
  using assms
  by (simp_all add: env_ready_def ready_def host_type_def credential_type_def key_type_def port_forward_type_def)

text \<open>
  Storing: either nothing changes that a load could see, or the payload is stored and the other kinds
  are as before.
\<close>

lemma store_outcome:
  assumes S: "stores_via S env T kind f" and T: "lens_type T" and K: "\<And>x. keeps vault_inv (S x)"
    and r: "ready env (rt_codec T) s" and run: "S x s = (res, t)"
  obtains (failed) "t_records (s_conn t) = t_records (s_conn s) \<and> key_view t = key_view s" "vault_inv t"
  | (stored) y where "res = Inr y" "vault_inv t" "store_payload env T kind f x s = (res, t)"
      "stored_as env (rt_codec T) kind (id_for env (rt_id T x) s) (rt_set_id T (id_for env (rt_id T x) s) x) s t"
proof -
  have t: "vault_inv t" by (rule keeps_eq [OF K readyD(1) [OF r] run])
  show thesis
  proof (cases res)
    case (Inl e)
    then have "t = s \<or> store_payload env T kind f x s = (Inl e, t)"
      using S run by (auto simp: stores_via_def)
    then show thesis using store_payload_Inl [OF _ r T] failed t by blast
  next
    case (Inr y)
    then have "store_payload env T kind f x s = (Inr y, t)" using S run by (auto simp: stores_via_def)
    with store_payload_Inr [OF this r T] Inr t stored show thesis by blast
  qed
qed

lemma delete_outcome:
  assumes D: "deletes_via D env kind" and K: "\<And>i. keeps vault_inv (D i)"
    and inv: "vault_inv s" and run: "D i s = (res, t)"
  obtains (failed) "t_records (s_conn t) = t_records (s_conn s) \<and> key_view t = key_view s" "vault_inv t"
  | (removed) b where "res = Inr b" "vault_inv t" "delete_record env i kind s = (Inr b, t)"
proof -
  have t: "vault_inv t" by (rule keeps_eq [OF K inv run])
  show thesis
  proof (cases res)
    case (Inl e)
    then have "t = s \<or> delete_record env i kind s = (Inl e, t)"
      using D run by (auto simp: deletes_via_def)
    then show thesis using delete_record_Inl failed t by blast
  next
    case (Inr b)
    then have "delete_record env i kind s = (Inr b, t)" using D run by (auto simp: deletes_via_def)
    with Inr t removed show thesis by blast
  qed
qed

lemma stored_load_cases:
  assumes "stored_as env C kind i v s t" and "vault_inv s" and "vault_inv t"
  shows "load_record_payload env C j kind t =
     (if j = i then Inr (Some v) else load_record_payload env C j kind s)"
  using stored_as_load [OF assms(1,3)] same_elsewhere_load [OF _ assms(2,3), of i j] assms(1)
  by (auto simp: stored_as_def)

lemma refs_store_credential:
  assumes "env_ready env" and inv: "vault_inv s" and refs: "refs_resolve env s"
    and free: "id_free KPasswordCredential (id_for env (cr_id c) s) s"
    and run: "store_password_credential env c s = (r, t)"
  shows "refs_resolve env t"
  using stores_via_ops(2) lens_types(2) keeps_record_ops(2) env_ready_ready(2) [OF assms(1,2)] run
proof (cases rule: store_outcome)
  case (stored y)
  then have st: "stored_as env (credential_codec env) KPasswordCredential (id_for env (cr_id c) s)
      (c\<lparr>cr_id := id_for env (cr_id c) s\<rparr>) s t" by (simp add: credential_type_def)
  note loads = other_kind_stored [OF st inv stored(2) free] stored_load_cases [OF st inv stored(2)]
  show ?thesis
    by (intro refs_step [OF refs])
       (auto simp: load_defs loads resolves_key_def resolves_host_def resolves_credential_def)
qed (rule refs_same_loads [OF refs _ inv])

lemma refs_store_key:
  assumes "env_ready env" and inv: "vault_inv s" and refs: "refs_resolve env s"
    and free: "id_free KPrivateKey (id_for env (pk_id k) s) s"
    and run: "store_private_key env k s = (r, t)"
  shows "refs_resolve env t"
  using stores_via_ops(3) lens_types(3) keeps_record_ops(3) env_ready_ready(3) [OF assms(1,2)] run
proof (cases rule: store_outcome)
  case (stored y)
  then have st: "stored_as env (key_codec env) KPrivateKey (id_for env (pk_id k) s)
      (k\<lparr>pk_id := id_for env (pk_id k) s\<rparr>) s t" by (simp add: key_type_def)
  note loads = other_kind_stored [OF st inv stored(2) free] stored_load_cases [OF st inv stored(2)]
  show ?thesis
    by (intro refs_step [OF refs])
       (auto simp: load_defs loads resolves_key_def resolves_host_def resolves_credential_def)
qed (rule refs_same_loads [OF refs _ inv])

lemma refs_store_host:
  assumes "env_ready env" and inv: "vault_inv s" and refs: "refs_resolve env s"
    and free: "id_free KHost (id_for env (ho_id h) s) s"
    and run: "store_host_profile env h s = (r, t)"
  shows "refs_resolve env t"
  using stores_via_ops(1) lens_types(1) keeps_record_ops(1) env_ready_ready(1) [OF assms(1,2)] run
proof (cases rule: store_outcome)
  case (stored y)
  then have st: "stored_as env (host_codec env) KHost (id_for env (ho_id h) s)
      (h\<lparr>ho_id := id_for env (ho_id h) s\<rparr>) s t" by (simp add: host_type_def)
  note loads = other_kind_stored [OF st inv stored(2) free] stored_load_cases [OF st inv stored(2)]
  have valid: "list_all (resolves_auth env s) (ho_auth_order h)"
    using run stored(1)
    by (auto simp: store_host_profile_def and_then_eq_Inr validate_host_auth_refs_iff)
  show ?thesis
    by (intro refs_step [OF refs])
       (auto simp: load_defs loads resolves_key_def resolves_host_def resolves_credential_def valid
         split: if_splits)
qed (rule refs_same_loads [OF refs _ inv])

lemma refs_store_forward:
  assumes "env_ready env" and inv: "vault_inv s" and refs: "refs_resolve env s"
    and free: "id_free KPortForward (id_for env (pf_id p) s) s"
    and run: "store_port_forward env p s = (r, t)"
  shows "refs_resolve env t"
  using stores_via_ops(4) lens_types(4) keeps_record_ops(4) env_ready_ready(4) [OF assms(1,2)] run
proof (cases rule: store_outcome)
  case (stored y)
  then have st: "stored_as env (port_forward_codec env) KPortForward (id_for env (pf_id p) s)
      (p\<lparr>pf_id := id_for env (pf_id p) s\<rparr>) s t" by (simp add: port_forward_type_def)
  note loads = other_kind_stored [OF st inv stored(2) free] stored_load_cases [OF st inv stored(2)]
  have valid: "resolves_host env s (pf_host_id p)"
    using run stored(1)
    by (auto simp: store_port_forward_def and_then_eq_Inr validate_port_forward_def resolves_host_def
        and_then_r_Inr split: if_splits)
  then show ?thesis
    by (intro refs_step [OF refs])
       (auto simp: load_defs loads resolves_key_def resolves_host_def resolves_credential_def split: if_splits)
qed (rule refs_same_loads [OF refs _ inv])

lemma deleted_load_cases:
  assumes "delete_record env i kind s = (Inr b, t)" and "vault_inv s"
  shows "load_record_payload env C j kind t =
     (if j = i then Inr None else load_record_payload env C j kind s)"
  using delete_record_load(1) [OF assms, of C] delete_record_load(2) [OF assms, of j C kind] by simp

lemma refs_delete_forward:
  assumes inv: "vault_inv s" and refs: "refs_resolve env s" and run: "delete_port_forward env i s = (r, t)"
  shows "refs_resolve env t"
  using deletes_via_ops(4) keeps_record_ops(8) inv run
proof (cases rule: delete_outcome)
  case (removed b)
  note loads = other_kind_deleted [OF removed(3) inv] deleted_load_cases [OF removed(3) inv]
  show ?thesis
    by (intro refs_step [OF refs])
       (auto simp: load_defs loads resolves_key_def resolves_host_def resolves_credential_def split: if_splits)
qed (rule refs_same_loads [OF refs _ inv])

lemma refs_delete_host:
  assumes inv: "vault_inv s" and refs: "refs_resolve env s" and run: "delete_host_profile env i s = (r, t)"
  shows "refs_resolve env t"
  using deletes_via_ops(1) keeps_record_ops(5) inv run
proof (cases rule: delete_outcome)
  case (removed b)
  note loads = other_kind_deleted [OF removed(3) inv] deleted_load_cases [OF removed(3) inv]
  have free: "pf_host_id p \<noteq> i" if "load_port_forward env j s = Inr (Some p)" for j p
    using run removed(1) list_payloads_mem [OF vault_inv_wf [OF inv] _ that [unfolded load_defs]]
    by (fastforce simp: delete_host_profile_def and_then_eq_Inr ensure_host_not_referenced_def
        and_then_r_Inr for_each_Inr active_port_forwards_def split: if_splits)
  show ?thesis
    by (intro refs_step [OF refs])
       (use free in \<open>auto simp: load_defs loads resolves_key_def resolves_host_def resolves_credential_def
         split: if_splits\<close>)
qed (rule refs_same_loads [OF refs _ inv])

lemma refs_delete_credential:
  assumes inv: "vault_inv s" and refs: "refs_resolve env s" and run: "delete_password_credential env i s = (r, t)"
  shows "refs_resolve env t"
  using deletes_via_ops(2) keeps_record_ops(6) inv run
proof (cases rule: delete_outcome)
  case (removed b)
  note loads = other_kind_deleted [OF removed(3) inv] deleted_load_cases [OF removed(3) inv]
  have free: "\<not> auth_uses_credential i a"
    if "load_host_profile env j s = Inr (Some h)" "a \<in> set (ho_auth_order h)" for j h a
    using run removed(1) list_payloads_mem [OF vault_inv_wf [OF inv] _ that(1) [unfolded load_defs]] that(2)
    by (fastforce simp: delete_password_credential_def and_then_eq_Inr ensure_credential_not_referenced_def
        and_then_r_Inr for_each_Inr active_hosts_def list_ex_iff split: if_splits)
  show ?thesis
    by (intro refs_step [OF refs])
       (use free in \<open>auto simp: load_defs loads resolves_key_def resolves_host_def resolves_credential_def
         split: if_splits\<close>)
qed (rule refs_same_loads [OF refs _ inv])

lemma refs_delete_key:
  assumes inv: "vault_inv s" and refs: "refs_resolve env s" and run: "delete_private_key env i s = (r, t)"
  shows "refs_resolve env t"
  using deletes_via_ops(3) keeps_record_ops(7) inv run
proof (cases rule: delete_outcome)
  case (removed b)
  note loads = other_kind_deleted [OF removed(3) inv] deleted_load_cases [OF removed(3) inv]
  have free: "\<not> auth_uses_key i a"
    if "load_host_profile env j s = Inr (Some h)" "a \<in> set (ho_auth_order h)" for j h a
    using run removed(1) list_payloads_mem [OF vault_inv_wf [OF inv] _ that(1) [unfolded load_defs]] that(2)
    by (fastforce simp: delete_private_key_def and_then_eq_Inr ensure_private_key_not_referenced_def
        and_then_r_Inr for_each_Inr active_hosts_def list_ex_iff split: if_splits)
  show ?thesis
    by (intro refs_step [OF refs])
       (use free in \<open>auto simp: load_defs loads resolves_key_def resolves_host_def resolves_credential_def
         split: if_splits\<close>)
qed (rule refs_same_loads [OF refs _ inv])

end
