(* ===== verification/Machines.thy ===== *)
theory Machines
  imports Main
begin

text \<open>
  The contracts of the state machines of this development. A component's operations are the
  actions of a machine whose step is total (a failed call is a step, too). A simulation relates the
  runs of a machine to the runs of its specification; an invariant is a simulation by the trivial
  machine; a responsive machine serves every pending request after a bounded number of ticks.
\<close>

text \<open>A machine and its specification, related by every allowed action.\<close>

locale simulation =
  fixes step :: "'a \<Rightarrow> 's \<Rightarrow> 's" and spec :: "'a \<Rightarrow> 't \<Rightarrow> 't"
    and allowed :: "'a \<Rightarrow> bool" and rel :: "'s \<Rightarrow> 't \<Rightarrow> bool"
  assumes rel_step: "rel s t \<Longrightarrow> allowed a \<Longrightarrow> rel (step a s) (spec a t)"
begin

lemma rel_run: "rel s t \<Longrightarrow> list_all allowed as \<Longrightarrow> rel (fold step as s) (fold spec as t)"
  by (induction as arbitrary: s t) (auto intro: rel_step)

end

text \<open>A machine with an invariant.\<close>

locale machine =
  fixes step :: "'a \<Rightarrow> 's \<Rightarrow> 's" and allowed :: "'a \<Rightarrow> bool" and inv :: "'s \<Rightarrow> bool"
  assumes inv_step: "inv s \<Longrightarrow> allowed a \<Longrightarrow> inv (step a s)"

sublocale machine \<subseteq> trivial: simulation step "\<lambda>_ _. ()" allowed "\<lambda>s _. inv s"
  by unfold_locales (rule inv_step)

context machine
begin

lemma inv_run: "inv s \<Longrightarrow> list_all allowed as \<Longrightarrow> inv (fold step as s)"
  by (rule trivial.rel_run)

end

text \<open>A machine that serves requests: \<open>served\<close> counts the requests served so far, a tick serves at
  most one, and \<open>left\<close> bounds the ticks until a pending request is served.\<close>

locale responsive = machine step allowed inv
  for step :: "'a \<Rightarrow> 's \<Rightarrow> 's" and allowed :: "'a \<Rightarrow> bool" and inv :: "'s \<Rightarrow> bool" +
  fixes tick :: "'a \<Rightarrow> bool" and pending :: "'s \<Rightarrow> bool" and left :: "'s \<Rightarrow> nat" and served :: "'s \<Rightarrow> nat"
  assumes served_mono: "inv s \<Longrightarrow> allowed a \<Longrightarrow> served s \<le> served (step a s)"
    and served_tick: "inv s \<Longrightarrow> allowed a \<Longrightarrow> served (step a s) \<le> served s + (if tick a then 1 else 0)"
    and left_pos: "inv s \<Longrightarrow> pending s \<Longrightarrow> 0 < left s"
    and tick_nears: "inv s \<Longrightarrow> allowed a \<Longrightarrow> pending s \<Longrightarrow> tick a \<Longrightarrow>
      served s < served (step a s) \<or> pending (step a s) \<and> left (step a s) < left s"
    and other_waits: "inv s \<Longrightarrow> allowed a \<Longrightarrow> pending s \<Longrightarrow> \<not> tick a \<Longrightarrow>
      pending (step a s) \<and> left (step a s) \<le> left s"
begin

lemma served_run:
  "inv s \<Longrightarrow> list_all allowed as \<Longrightarrow>
   served s \<le> served (fold step as s) \<and> served (fold step as s) \<le> served s + length (filter tick as)"
proof (induction as arbitrary: s)
  case (Cons a as)
  then have "inv (step a s)" by (auto intro: inv_step)
  from Cons.IH [OF this] Cons.prems served_mono [of s a] served_tick [of s a] show ?case by auto
qed simp

lemma pending_served:
  "\<lbrakk>inv s; list_all allowed as; pending s; left s \<le> length (filter tick as)\<rbrakk> \<Longrightarrow> served s < served (fold step as s)"
proof (induction as arbitrary: s)
  case Nil
  then show ?case using left_pos [of s] by simp
next
  case (Cons a as)
  then have a: "allowed a" "list_all allowed as" and i: "inv (step a s)" by (auto intro: inv_step)
  note mono = served_run [OF i a(2)] and waits = Cons.IH [OF i a(2)] and le = served_mono [OF Cons.prems(1) a(1)]
  show ?case
  proof (cases "tick a")
    case True
    from tick_nears [OF Cons.prems(1) a(1) Cons.prems(3) True] show ?thesis
    proof
      assume "served s < served (step a s)"
      with mono show ?thesis by simp
    next
      assume "pending (step a s) \<and> left (step a s) < left s"
      with waits Cons.prems(4) True le show ?thesis by simp
    qed
  next
    case False
    from other_waits [OF Cons.prems(1) a(1) Cons.prems(3) False] waits Cons.prems(4) False le
    show ?thesis by simp
  qed
qed

end

end
