(* ===== verification/Vault_Machine.thy ===== *)
theory Vault_Machine
  imports Vault_Sync Vault_Integrity Machines
begin

text \<open>
  The vault as a state machine: every public method that changes the store is an operation, and
  restarting the program reopens the same database. The store invariant holds in every state such
  a machine reaches, and the passphrase keeps opening the vault until it is rotated.
\<close>

datatype vault_op =
    Create string string
  | UnlockWithPassphrase string string
  | TryUnlockWithDevice
  | RotatePassphrase string string
  | Lock
  | StoreHost vault_host_profile
  | StoreCredential vault_password_credential
  | StoreKey vault_private_key
  | StoreForward vault_port_forward_profile
  | DeleteHost string
  | DeleteCredential string
  | DeleteKey string
  | DeleteForward string
  | GenerateKey generate_key_request
  | ImportKey import_key_request
  | ApplySnapshot vault_snapshot
  | ApplyDelta vault_delta
  | Reopen string

text \<open>The state an operation leaves, whether it succeeds or fails.\<close>

fun exec :: "'d env \<Rightarrow> vault_op \<Rightarrow> 'd vault_store \<Rightarrow> 'd vault_store" where
  "exec env (Create p n) s = snd (create_vault env p n s)"
| "exec env (UnlockWithPassphrase p n) s = snd (unlock_with_passphrase env p n s)"
| "exec env TryUnlockWithDevice s = snd (try_unlock_with_device env s)"
| "exec env (RotatePassphrase p q) s = snd (rotate_passphrase env p q s)"
| "exec env Lock s = snd (lock s)"
| "exec env (StoreHost h) s = snd (store_host_profile env h s)"
| "exec env (StoreCredential c) s = snd (store_password_credential env c s)"
| "exec env (StoreKey k) s = snd (store_private_key env k s)"
| "exec env (StoreForward p) s = snd (store_port_forward env p s)"
| "exec env (DeleteHost i) s = snd (delete_host_profile env i s)"
| "exec env (DeleteCredential i) s = snd (delete_password_credential env i s)"
| "exec env (DeleteKey i) s = snd (delete_private_key env i s)"
| "exec env (DeleteForward i) s = snd (delete_port_forward env i s)"
| "exec env (GenerateKey g) s = snd (generate_private_key env g s)"
| "exec env (ImportKey g) s = snd (import_private_key env g s)"
| "exec env (ApplySnapshot x) s = snd (apply_snapshot x s)"
| "exec env (ApplyDelta x) s = snd (apply_delta env x s)"
| "exec env (Reopen path) s =
     (case open_with_device_store path (s_device_store s) (s_tick s) (Inr (s_conn s)) of
        Inl _ \<Rightarrow> s
      | Inr t \<Rightarrow> t)"

text \<open>A delta's clocks are those of a database: they fit an SQLite integer.\<close>

fun op_ok :: "vault_op \<Rightarrow> bool" where
  "op_ok (ApplyDelta delta) \<longleftrightarrow> delta_fits delta"
| "op_ok _ \<longleftrightarrow> True"

inductive reachable :: "'d env \<Rightarrow> 'd vault_store \<Rightarrow> bool" for env where
  opened: "open_with_device_store path dev n (Inr empty_db) = Inr s \<Longrightarrow> reachable env s"
| stepped: "reachable env s \<Longrightarrow> op_ok op \<Longrightarrow> reachable env (exec env op s)"

inductive_cases reachableE: "reachable env s"

section \<open>The invariant\<close>

lemma keeps_apply_delta:
  assumes "delta_fits delta"
  shows "keeps vault_inv (apply_delta env delta)"
proof (rule keepsI)
  fix s :: "'a vault_store"
  assume inv: "vault_inv s"
  show "vault_inv (snd (apply_delta env delta s))"
  proof (cases "s_header s")
    case None
    with inv show ?thesis by (simp add: apply_delta_def header_or_def)
  next
    case (Some h)
    show ?thesis
    proof (cases "vd_vault_id delta = vh_vault_id h \<and> vd_from_clock delta \<le> vh_last_logical_clock h")
      case True
      with apply_delta_run [OF inv Some _ _ assms, of env] show ?thesis by auto
    next
      case False
      with Some inv show ?thesis
        by (cases "vd_vault_id delta = vh_vault_id h")
           (simp_all add: apply_delta_def header_or_def current_cursor_def not_le)
    qed
  qed
qed

lemma reopen_inv: "vault_inv s \<Longrightarrow> vault_inv (exec env (Reopen path) s)"
  using vault_inv_open [of path "s_device_store s" "s_tick s" "s_conn s"]
  by (auto simp: vault_inv_def inv_of_def view_def split: sum.split)

lemma exec_inv: "draws_sized env \<Longrightarrow> op_ok op \<Longrightarrow> vault_inv s \<Longrightarrow> vault_inv (exec env op s)"
  using reopen_inv [of s env]
  by (cases op)
     (auto intro: keepsD [OF keeps_create_vault] keepsD [OF keeps_unlock_with_passphrase]
       keepsD [OF keeps_try_unlock_with_device] keepsD [OF keeps_rotate_passphrase] keepsD [OF keeps_lock]
       keepsD [OF keeps_record_ops(1)] keepsD [OF keeps_record_ops(2)] keepsD [OF keeps_record_ops(3)]
       keepsD [OF keeps_record_ops(4)] keepsD [OF keeps_record_ops(5)] keepsD [OF keeps_record_ops(6)]
       keepsD [OF keeps_record_ops(7)] keepsD [OF keeps_record_ops(8)] keepsD [OF keeps_generate_import(1)]
       keepsD [OF keeps_generate_import(2)] keepsD [OF keeps_apply_snapshot] keepsD [OF keeps_apply_delta]
       simp del: exec.simps(18))

lemma open_empty_inv:
  "open_with_device_store path dev n (Inr empty_db) = Inr s \<Longrightarrow> vault_inv s"
  by (rule vault_inv_open, assumption) (simp_all, simp_all add: empty_db_def)

lemma reachable_vault_inv: "reachable env s \<Longrightarrow> draws_sized env \<Longrightarrow> vault_inv s"
  by (induction rule: reachable.induct) (auto intro: open_empty_inv exec_inv)

section \<open>The passphrase keeps opening the vault\<close>

text \<open>What recovery reads: the vault identifier of the header row and the recovery bundles.\<close>

definition recovery_view :: "'d vault_store \<Rightarrow> string option \<times> recovery_bundle list" where
  "recovery_view s = (map_option vh_vault_id (t_vault_header (s_conn s)), t_recovery_bundles (s_conn s))"

lemma recoverable_cong:
  "recovery_view s = recovery_view t \<Longrightarrow> recoverable env p k (view s) = recoverable env p k (view t)"
  by (auto simp: recovery_view_def recoverable_def view_def map_option_case split: option.splits)

lemma view_recovery_view: "view s = view t \<Longrightarrow> recovery_view s = recovery_view t"
  by (simp add: view_def recovery_view_def)

lemma keeps_of_view: "(\<And>s. view (snd (m s)) = view s) \<Longrightarrow> keeps (\<lambda>s. recovery_view s = v) m"
  by (auto simp: keeps_def dest: view_recovery_view)

lemma keeps_recovery_ops [keeps_rules]:
  "keeps (\<lambda>s. recovery_view s = v) (refresh_device_enrollment env n)"
  "keeps (\<lambda>s. recovery_view s = v) (persist_device_unlock_message m)"
  "keeps (\<lambda>s. recovery_view s = v) (on_db (update_device_last_used i now))"
  by (auto intro!: keeps_of_view refresh_view keepsD [OF keeps_view_persist] view_on_db_frame)

lemma keeps_recovery_outside [keeps_rules]:
  "keeps (\<lambda>s. recovery_view s = v) (draw f)"
  "keeps (\<lambda>s. recovery_view s = v) lock"
  by (simp_all add: keeps_def recovery_view_def lock_def)

lemma keeps_recovery_modify [keeps_rules]:
  "(\<And>s. s_conn (g s) = s_conn s) \<Longrightarrow> keeps (\<lambda>s. recovery_view s = v) (modify g)"
  by (simp add: keeps_def recovery_view_def)

lemma keeps_recovery_encrypt [keeps_rules]: "keeps (\<lambda>s. recovery_view s = v) (encrypt_m env k p a)"
  unfolding encrypt_m_def by (intro keeps_rules)

lemma keeps_recovery_upsert [keeps_rules]: "keeps (\<lambda>s. recovery_view s = v) (on_db (upsert_record r))"
proof (rule keepsI)
  fix s :: "'a vault_store"
  assume "recovery_view s = v"
  then show "recovery_view (snd (on_db (upsert_record r) s)) = v"
    by (auto simp: recovery_view_def on_db_simp upsert_record_def and_then_def sql_u64_def
        split: option.split prod.split sum.split)
qed

lemma recovery_next_version: "recovery_view (snd (next_version env s)) = recovery_view s"
proof -
  obtain r t where rt: "next_version env s = (r, t)" by fastforce
  show ?thesis
  proof (cases r)
    case (Inl e)
    with rt show ?thesis by (auto simp: recovery_view_def dest!: next_version_Inl)
  next
    case (Inr cm)
    obtain c m where "cm = (c, m)" by fastforce
    with rt Inr obtain row where "t_vault_header (s_conn s) = Some row" "t = stamped_store env row s"
      by (auto elim: next_version_Inr)
    with rt show ?thesis by (simp add: recovery_view_def stamped_store_def Let_def)
  qed
qed

lemma keeps_recovery_next_version [keeps_rules]: "keeps (\<lambda>s. recovery_view s = v) (next_version env)"
  by (simp add: keeps_def recovery_next_version)

lemma keeps_case_prod [keeps_rules]: "(\<And>a b. keeps P (f a b)) \<Longrightarrow> keeps P (case x of (a, b) \<Rightarrow> f a b)"
  by (cases x) simp

lemma keeps_recovery_store_record [keeps_rules]:
  "keeps (\<lambda>s. recovery_view s = v) (store_record env T x kind)"
  unfolding store_record_def seal_and_write_def Let_def by (intro keeps_rules)

lemma keeps_recovery_delete_record [keeps_rules]:
  "keeps (\<lambda>s. recovery_view s = v) (delete_record env i kind)"
  unfolding delete_record_def by (intro keeps_rules)

lemma keeps_recovery_records [keeps_rules]:
  "keeps (\<lambda>s. recovery_view s = v) (store_host_profile env h)"
  "keeps (\<lambda>s. recovery_view s = v) (store_password_credential env c)"
  "keeps (\<lambda>s. recovery_view s = v) (store_private_key env k)"
  "keeps (\<lambda>s. recovery_view s = v) (store_port_forward env p)"
  "keeps (\<lambda>s. recovery_view s = v) (delete_host_profile env i)"
  "keeps (\<lambda>s. recovery_view s = v) (delete_password_credential env i)"
  "keeps (\<lambda>s. recovery_view s = v) (delete_private_key env i)"
  "keeps (\<lambda>s. recovery_view s = v) (delete_port_forward env i)"
  unfolding store_host_profile_def store_password_credential_def store_private_key_def
    store_port_forward_def delete_host_profile_def delete_password_credential_def
    delete_private_key_def delete_port_forward_def store_payload_def
  by (intro keeps_rules)+

lemma keeps_recovery_keys [keeps_rules]:
  "keeps (\<lambda>s. recovery_view s = v) (generate_private_key env g)"
  "keeps (\<lambda>s. recovery_view s = v) (import_private_key env q)"
  unfolding generate_private_key_def import_private_key_def Let_def
  by (auto intro!: keeps_rules split: generate_key_algorithm.split)

lemma keeps_recovery_unlock [keeps_rules]:
  "keeps (\<lambda>s. recovery_view s = v) (unlock_with_passphrase env p n)"
  unfolding unlock_with_passphrase_def by (intro keeps_rules) simp

lemma keeps_recovery_device [keeps_rules]:
  "keeps (\<lambda>s. recovery_view s = v) (try_unlock_with_device env)"
  unfolding try_unlock_with_device_def
  by (auto intro!: keeps_rules split: device_outcome.split)

definition recovery_rows :: "db \<Rightarrow> string option \<times> recovery_bundle list" where
  "recovery_rows d = (map_option vh_vault_id (t_vault_header d), t_recovery_bundles d)"

lemma keeps_rows_on_db: "keeps (\<lambda>d. recovery_rows d = v) m \<Longrightarrow> keeps (\<lambda>s. recovery_view s = v) (on_db m)"
  by (simp add: keeps_def recovery_view_def recovery_rows_def on_db_simp)

lemma keeps_rows_upsert [keeps_rules]: "keeps (\<lambda>d. recovery_rows d = v) (upsert_record r)"
  by (auto simp: keeps_def recovery_rows_def upsert_record_def and_then_def sql_u64_def
      split: option.split prod.split sum.split)

lemma keeps_rows_merge [keeps_rules]: "keeps (\<lambda>d. recovery_rows d = v) (merge_records rs c a k)"
  by (induction rs arbitrary: c a k) (auto simp: merge_record_def intro!: keeps_rules)

lemma keeps_rows_clock [keeps_rules]: "keeps (\<lambda>d. recovery_rows d = v) (set_last_logical_clock now c)"
  by (auto simp: keeps_def recovery_rows_def set_last_logical_clock_def and_then_def sql_u64_def
      option.map_comp comp_def)

lemma keeps_recovery_delta [keeps_rules]: "keeps (\<lambda>s. recovery_view s = v) (apply_delta env delta)"
  unfolding apply_delta_def by (intro keeps_rules keeps_rows_on_db) simp

text \<open>On a database that has a header row, creation and bootstrapping fail before they write.\<close>

lemma create_vault_occupied:
  assumes "t_vault_header (s_conn s) = Some h"
  shows "recovery_view (snd (create_vault env p n s)) = recovery_view s"
proof -
  have ins: "insert_header g (s_conn s) =
      (Inl (Database (if fits_i64 (vh_last_logical_clock g) then ConstraintViolation else ToSqlConversionFailure)),
       s_conn s)" for g
    using assms by (simp add: insert_header_def sql_u64_def)
  show ?thesis
    by (cases "s_header s"; cases "trim p = []"; cases "derive_wrap_key env (recommended env (Suc (s_tick s))) p")
       (simp_all add: create_vault_def on_db_simp ins recovery_view_def Let_def)
qed

lemma apply_snapshot_occupied:
  "t_vault_header (s_conn s) = Some h \<Longrightarrow> apply_snapshot snap s = (fst (apply_snapshot snap s), s)"
  by (cases rule: apply_snapshot_cases [of snap s]) auto

lemma exec_recovery_view:
  assumes "t_vault_header (s_conn s) = Some h" and "\<And>p q. op \<noteq> RotatePassphrase p q"
  shows "recovery_view (exec env op s) = recovery_view s"
proof -
  have "recovery_view (exec env (Reopen path) s) = recovery_view s" for path
    by (auto simp: open_with_device_store_def load_header_def and_then_r_def recovery_view_def
        split: sum.split option.split)
  moreover have "recovery_view (exec env (ApplySnapshot x) s) = recovery_view s" for x
    by (subst exec.simps, subst apply_snapshot_occupied [OF assms(1)]) simp
  ultimately show ?thesis
    using assms(2) create_vault_occupied [OF assms(1)]
    by (cases op) (auto simp del: exec.simps(16,18)
        intro!: keepsD [OF keeps_recovery_unlock] keepsD [OF keeps_recovery_device]
        keepsD [OF keeps_recovery_outside(2)] keepsD [OF keeps_recovery_records(1)]
        keepsD [OF keeps_recovery_records(2)] keepsD [OF keeps_recovery_records(3)]
        keepsD [OF keeps_recovery_records(4)] keepsD [OF keeps_recovery_records(5)]
        keepsD [OF keeps_recovery_records(6)] keepsD [OF keeps_recovery_records(7)]
        keepsD [OF keeps_recovery_records(8)] keepsD [OF keeps_recovery_keys(1)]
        keepsD [OF keeps_recovery_keys(2)] keepsD [OF keeps_recovery_delta])
qed

text \<open>The passphrase opens the vault: whoever enters it gets the key.\<close>

definition opens :: "'d env \<Rightarrow> string \<Rightarrow> bytes \<Rightarrow> 'd vault_store \<Rightarrow> bool" where
  "opens env p k s \<longleftrightarrow> vault_inv s \<and> s_header s \<noteq> None \<and> recoverable env p k (view s)"

lemma recoverable_header: "recoverable env p k (view s) \<Longrightarrow> \<exists>h. t_vault_header (s_conn s) = Some h"
  by (auto simp: recoverable_def view_def)

lemma opens_unlock:
  assumes "opens env p k s"
  shows "\<exists>t. unlock_with_passphrase env p n s = (Inr (), t) \<and> s_master_key t = Some k
           \<and> t_records (s_conn t) = t_records (s_conn s) \<and> s_header t = s_header s"
proof -
  from assms obtain h where h: "s_header s = Some h" and inv: "vault_inv s" and r: "recoverable env p k (view s)"
    by (auto simp: opens_def)
  obtain row where "t_vault_header (s_conn s) = Some row" "vh_vault_id row = vh_vault_id h"
    using vault_inv_header [OF inv h] by metis
  with r h show ?thesis by (rule unlock_recoverable)
qed

section \<open>An initialised store stays initialised\<close>

lemma keeps_init_basic [keeps_rules]:
  "keeps (\<lambda>s. s_header s \<noteq> None) (draw f)"
  "keeps (\<lambda>s. s_header s \<noteq> None) (on_db m)"
  "keeps (\<lambda>s. s_header s \<noteq> None) lock"
  by (simp_all add: keeps_def on_db_simp lock_def)

lemma keeps_init_modify [keeps_rules]:
  "(\<And>s. s_header s \<noteq> None \<Longrightarrow> s_header (g s) \<noteq> None) \<Longrightarrow> keeps (\<lambda>s. s_header s \<noteq> None) (modify g)"
  by (simp add: keeps_def)

lemma keeps_init_of_view: "(\<And>s. view (snd (m s)) = view s) \<Longrightarrow> keeps (\<lambda>s. s_header s \<noteq> None) m"
  by (simp add: keeps_def view_def)

lemma keeps_init_device [keeps_rules]:
  "keeps (\<lambda>s. s_header s \<noteq> None) (refresh_device_enrollment env n)"
  "keeps (\<lambda>s. s_header s \<noteq> None) (persist_device_unlock_message m)"
  by (rule keeps_init_of_view, rule refresh_view)
     (rule keeps_init_of_view, rule keepsD [OF keeps_view_persist], rule refl)

lemma keeps_init_encrypt [keeps_rules]: "keeps (\<lambda>s. s_header s \<noteq> None) (encrypt_m env k p a)"
  unfolding encrypt_m_def by (intro keeps_rules)

lemma keeps_init_next_version [keeps_rules]: "keeps (\<lambda>s. s_header s \<noteq> None) (next_version env)"
  unfolding next_version_def by (intro keeps_rules) simp

lemma keeps_init_records [keeps_rules]:
  "keeps (\<lambda>s. s_header s \<noteq> None) (store_record env T x kind)"
  "keeps (\<lambda>s. s_header s \<noteq> None) (delete_record env i kind)"
  unfolding store_record_def seal_and_write_def delete_record_def Let_def by (intro keeps_rules)+

lemma keeps_init_typed [keeps_rules]:
  "keeps (\<lambda>s. s_header s \<noteq> None) (store_host_profile env h)"
  "keeps (\<lambda>s. s_header s \<noteq> None) (store_password_credential env c)"
  "keeps (\<lambda>s. s_header s \<noteq> None) (store_private_key env k)"
  "keeps (\<lambda>s. s_header s \<noteq> None) (store_port_forward env p)"
  "keeps (\<lambda>s. s_header s \<noteq> None) (delete_host_profile env i)"
  "keeps (\<lambda>s. s_header s \<noteq> None) (delete_password_credential env i)"
  "keeps (\<lambda>s. s_header s \<noteq> None) (delete_private_key env i)"
  "keeps (\<lambda>s. s_header s \<noteq> None) (delete_port_forward env i)"
  unfolding store_host_profile_def store_password_credential_def store_private_key_def
    store_port_forward_def delete_host_profile_def delete_password_credential_def
    delete_private_key_def delete_port_forward_def store_payload_def
  by (intro keeps_rules)+

lemma keeps_init_keys [keeps_rules]:
  "keeps (\<lambda>s. s_header s \<noteq> None) (generate_private_key env g)"
  "keeps (\<lambda>s. s_header s \<noteq> None) (import_private_key env q)"
  unfolding generate_private_key_def import_private_key_def Let_def
  by (auto intro!: keeps_rules simp del: not_None_eq split: generate_key_algorithm.split)

lemma keeps_init_store [keeps_rules]:
  "keeps (\<lambda>s. s_header s \<noteq> None) (create_vault env p n)"
  "keeps (\<lambda>s. s_header s \<noteq> None) (unlock_with_passphrase env p n)"
  "keeps (\<lambda>s. s_header s \<noteq> None) (rotate_passphrase env p n)"
  "keeps (\<lambda>s. s_header s \<noteq> None) (apply_delta env delta)"
  unfolding create_vault_def unlock_with_passphrase_def rotate_passphrase_def apply_delta_def Let_def
  subgoal by (intro keeps_rules) simp
  subgoal by (intro keeps_rules) simp
  subgoal by (intro keeps_rules) simp
  subgoal by (intro keeps_rules) simp
  done

lemma keeps_init_unlock_device [keeps_rules]:
  "keeps (\<lambda>s. s_header s \<noteq> None) (try_unlock_with_device env)"
  unfolding try_unlock_with_device_def
  by (auto intro!: keeps_rules simp del: not_None_eq split: device_outcome.split)

lemma exec_init:
  assumes "vault_inv s" and "s_header s \<noteq> None"
  shows "s_header (exec env op s) \<noteq> None"
proof -
  have "s_header (exec env (Reopen path) s) \<noteq> None" for path
    using assms by (auto simp: open_with_device_store_def load_header_def and_then_r_def vault_inv_def
        inv_of_def view_def split: sum.split option.split)
  moreover have "s_header (exec env (ApplySnapshot x) s) \<noteq> None" for x
    using assms(2) by (cases rule: apply_snapshot_cases [of x s]) auto
  ultimately show ?thesis
    using assms(2)
    by (cases op) (auto simp del: exec.simps(16,18) not_None_eq
        intro!: keepsD [OF keeps_init_store(1)] keepsD [OF keeps_init_store(2)] keepsD [OF keeps_init_store(3)]
        keepsD [OF keeps_init_store(4)] keepsD [OF keeps_init_unlock_device] keepsD [OF keeps_init_basic(3)]
        keepsD [OF keeps_init_typed(1)] keepsD [OF keeps_init_typed(2)] keepsD [OF keeps_init_typed(3)]
        keepsD [OF keeps_init_typed(4)] keepsD [OF keeps_init_typed(5)] keepsD [OF keeps_init_typed(6)]
        keepsD [OF keeps_init_typed(7)] keepsD [OF keeps_init_typed(8)] keepsD [OF keeps_init_keys(1)]
        keepsD [OF keeps_init_keys(2)])
qed

fun rotates :: "vault_op \<Rightarrow> bool" where
  "rotates (RotatePassphrase p q) \<longleftrightarrow> True"
| "rotates _ \<longleftrightarrow> False"

lemma exec_opens:
  assumes "draws_sized env" and "op_ok op" and "\<not> rotates op" and "opens env p k s"
  shows "opens env p k (exec env op s)"
proof -
  from assms(4) have s: "vault_inv s" "s_header s \<noteq> None" "recoverable env p k (view s)"
    by (auto simp: opens_def)
  from recoverable_header [OF s(3)] obtain h where "t_vault_header (s_conn s) = Some h" ..
  then have "recovery_view (exec env op s) = recovery_view s"
    using assms(3) by (intro exec_recovery_view) auto
  with s exec_inv [OF assms(1,2) s(1)] exec_init [OF s(1,2)] recoverable_cong
  show ?thesis by (metis opens_def)
qed

interpretation recovery: machine "exec env" "\<lambda>op. op_ok op \<and> \<not> rotates op" "\<lambda>s. draws_sized env \<and> opens env p k s"
  by unfold_locales (auto intro: exec_opens)

lemma execs_opens:
  assumes "draws_sized env" and "list_all (\<lambda>op. op_ok op \<and> \<not> rotates op) ops" and "opens env p k s"
  shows "opens env p k (fold (exec env) ops s)"
  using recovery.inv_run [of env p k s ops] assms by simp

end
