(* ===== verification/Vault_Demo.thy ===== *)
theory Vault_Demo
  imports Vault_Collections
begin

text \<open>
  A concrete environment in which the assumptions on the external code hold: a cipher that prefixes
  the message with its key, a password hash that pads, JSON as a table of the payloads at hand, a
  secret store as an association list and counting generators. The witnesses run the vault in it.
\<close>

section \<open>Payloads\<close>

definition demo_credential :: vault_password_credential where
  "demo_credential = \<lparr>cr_id = ''c1'', cr_label = ''root'', cr_username_hint = None, cr_secret = ''pw''\<rparr>"

definition demo_key :: vault_private_key where
  "demo_key = \<lparr>pk_id = ''k1'', pk_label = ''key'', pk_algorithm = Ed25519, pk_public_key_openssh = ''pub'',
               pk_private_key_pem = ''pem'', pk_encrypted_at_rest = False, pk_source = Imported\<rparr>"

definition demo_host :: vault_host_profile where
  "demo_host = \<lparr>ho_id = ''h1'', ho_label = ''prod'', ho_hostname = ''ex.org'', ho_port = 22,
                ho_username = ''root'', ho_notes = None,
                ho_auth_order = [AuthPrivateKey ''k1'' (Some ''c1''), AuthPassword ''c1'']\<rparr>"

definition demo_host_plain :: vault_host_profile where
  "demo_host_plain = demo_host\<lparr>ho_label := ''plain'', ho_auth_order := []\<rparr>"

definition demo_forward :: vault_port_forward_profile where
  "demo_forward = \<lparr>pf_id = ''p1'', pf_host_id = ''h1'', pf_label = ''db'', pf_mode = LocalForward,
                   pf_listen_address = ''lo'', pf_listen_port = 80, pf_target_address = ''db'',
                   pf_target_port = 81, pf_notes = None\<rparr>"

section \<open>Environment\<close>

definition table_codec :: "('a \<times> bytes) list \<Rightarrow> 'a codec" where
  "table_codec tab =
     \<lparr>to_json = (\<lambda>x. case find (\<lambda>e. fst e = x) tab of None \<Rightarrow> Inl ''unknown value'' | Some e \<Rightarrow> Inr (snd e)),
      of_json = (\<lambda>bs. case find (\<lambda>e. snd e = bs) tab of None \<Rightarrow> Inl ''unknown text'' | Some e \<Rightarrow> Inr (fst e))\<rparr>"

definition demo_env :: "(string \<times> bytes) list env" where
  "demo_env =
     \<lparr>aead_encrypt = (\<lambda>key nonce aad msg. Some (key @ msg)),
      aead_decrypt = (\<lambda>key nonce aad c. if take (length key) c = key then Some (drop (length key) c) else None),
      argon2_params = (\<lambda>m t p. Inr ()),
      argon2_hash = (\<lambda>p bs. Inr (word_of_nat (length bs) # replicate 31 9)),
      base64 = (\<lambda>bs. []),
      host_codec = table_codec [(demo_host, [1]), (demo_host_plain, [2])],
      credential_codec = table_codec [(demo_credential, [3])],
      key_codec = table_codec [(demo_key, [4])],
      port_forward_codec = table_codec [(demo_forward, [5])],
      from_openssh = (\<lambda>pem. Inr \<lparr>sk_algorithm = SshEd25519, sk_rsa_modulus = None,
        sk_public_openssh = Inr ''pub'', sk_private_openssh = Inr pem, sk_is_encrypted = False\<rparr>),
      ed25519_at = (\<lambda>n. Inr \<lparr>sk_algorithm = SshEd25519, sk_rsa_modulus = None,
        sk_public_openssh = Inr ''pub'', sk_private_openssh = Inr ''pem'', sk_is_encrypted = False\<rparr>),
      rsa_at = (\<lambda>n bits. Inl ''too slow''),
      uuid_at = (\<lambda>n. replicate (Suc n) CHR ''u''),
      now_at = (\<lambda>n. 100 + int n),
      key_at = (\<lambda>n. word_of_nat n # replicate 31 7),
      nonce_at = (\<lambda>n. replicate 24 0),
      salt_at = (\<lambda>n. replicate 16 0),
      dev_get = (\<lambda>d a. Inr (map_of d a)),
      dev_set = (\<lambda>d a k. (Inr (), (a, k) # d))\<rparr>"

lemma demo_env_sel [simp]:
  "aead_encrypt demo_env key nonce aad msg = Some (key @ msg)"
  "aead_decrypt demo_env key nonce aad c = (if take (length key) c = key then Some (drop (length key) c) else None)"
  "argon2_params demo_env m t p = Inr ()"
  "argon2_hash demo_env prm bs = Inr (word_of_nat (length bs) # replicate 31 9)"
  "host_codec demo_env = table_codec [(demo_host, [1]), (demo_host_plain, [2])]"
  "credential_codec demo_env = table_codec [(demo_credential, [3])]"
  "key_codec demo_env = table_codec [(demo_key, [4])]"
  "port_forward_codec demo_env = table_codec [(demo_forward, [5])]"
  "uuid_at demo_env n = replicate (Suc n) CHR ''u''"
  "now_at demo_env n = 100 + int n"
  "key_at demo_env n = word_of_nat n # replicate 31 7"
  "nonce_at demo_env n = replicate 24 0"
  "salt_at demo_env n = replicate 16 0"
  "dev_get demo_env d a = Inr (map_of d a)"
  "dev_set demo_env d a k = (Inr (), (a, k) # d)"
  "from_openssh demo_env pem = Inr \<lparr>sk_algorithm = SshEd25519, sk_rsa_modulus = None,
        sk_public_openssh = Inr ''pub'', sk_private_openssh = Inr pem, sk_is_encrypted = False\<rparr>"
  by (simp_all add: demo_env_def)

lemma find_unique:
  "find P xs = Some e \<Longrightarrow> e \<in> set xs \<and> P e" "find P xs = None \<Longrightarrow> e \<in> set xs \<Longrightarrow> \<not> P e"
  by (auto simp: find_Some_iff find_None_iff)

lemma json_correct_table: "distinct (map snd tab) \<Longrightarrow> json_correct (table_codec tab)"
  by (fastforce simp: json_correct_def table_codec_def distinct_map inj_on_def
      split: option.splits dest: find_unique)

lemma demo_aead: "aead_correct demo_env"
  by (auto simp: aead_correct_def demo_env_def)

lemma demo_sized: "draws_sized demo_env"
  by (auto simp: draws_sized_def demo_env_def KEY_LEN_def NONCE_LEN_def)

lemma demo_uuids: "uuids_fresh demo_env"
  by (auto simp: uuids_fresh_def demo_env_def inj_def dest: arg_cong [of _ _ length])

lemma demo_json:
  "json_correct (host_codec demo_env)" "json_correct (credential_codec demo_env)"
  "json_correct (key_codec demo_env)" "json_correct (port_forward_codec demo_env)"
  by (simp_all add: demo_env_def json_correct_table)

lemma demo_dev: "dev_lawful demo_env"
  by (auto simp: dev_lawful_def demo_env_def)

section \<open>States\<close>

definition demo_fresh :: "(string \<times> bytes) list vault_store" where
  "demo_fresh = \<lparr>s_vault_path = ''v.db'', s_conn = empty_db, s_header = None, s_device_store = [],
                 s_master_key = None, s_last_unlock_method = None, s_tick = 0\<rparr>"

definition demo_kdf :: kdf_params where
  "demo_kdf = \<lparr>kd_salt = replicate 16 0, kd_memory_kib = 131072, kd_iterations = 4, kd_parallelism = 4\<rparr>"

definition demo_header :: "u64 \<Rightarrow> i64 \<Rightarrow> vault_header" where
  "demo_header clock updated =
     \<lparr>vh_vault_id = ''uuuu'', vh_schema_version = VAULT_SCHEMA_VERSION, vh_cipher = ''xchacha20poly1305'',
      vh_recovery_kdf = demo_kdf, vh_created_at = 102, vh_updated_at = updated, vh_last_logical_clock = clock\<rparr>"

definition demo_db :: "vault_header \<Rightarrow> record_row list \<Rightarrow> db" where
  "demo_db header rows =
     \<lparr>t_vault_header = Some header,
      t_recovery_bundles =
        [\<lparr>rb_bundle_id = ''uuuuuu'', rb_params = demo_kdf, rb_wrapping_nonce = replicate 24 0,
          rb_wrapped_master_key = 4 # replicate 31 9 @ 0 # replicate 31 7, rb_created_at = 102,
          rb_updated_at = 102\<rparr>],
      t_device_enrollments =
        [\<lparr>de_device_id = ''uuuuuuu'', de_device_name = ''mac'', de_wrapping_nonce = replicate 24 0,
          de_wrapped_master_key = 7 # replicate 31 7 @ 0 # replicate 31 7, de_created_at = 109,
          de_last_used_at = 109, de_revoked_at = None\<rparr>],
      t_records = rows,
      t_local_state = [(DEVICE_STATE_KEY, ''uuuuuuu'')]\<rparr>"

definition demo_row :: "string \<Rightarrow> record_kind \<Rightarrow> u64 \<Rightarrow> i64 \<Rightarrow> u8 \<Rightarrow> u8 \<Rightarrow> record_row" where
  "demo_row i kind clock modified k payload =
     \<lparr>rr_record_id = i, rr_kind = kind_as_str kind, rr_version = RECORD_SCHEMA_VERSION,
      rr_logical_clock = clock, rr_modified_at = modified, rr_deleted_at = None,
      rr_key_nonce = replicate 24 0,
      rr_wrapped_record_key = 0 # replicate 31 7 @ k # replicate 31 7,
      rr_payload_nonce = replicate 24 0, rr_payload_ciphertext = k # replicate 31 7 @ [payload],
      rr_last_synced_clock = None, rr_sync_state = ''pending''\<rparr>"

definition demo_store :: "db \<Rightarrow> vault_header \<Rightarrow> nat \<Rightarrow> (string \<times> bytes) list vault_store" where
  "demo_store d header n =
     \<lparr>s_vault_path = ''v.db'', s_conn = d, s_header = Some header,
      s_device_store = [(device_account_name ''uuuu'' ''uuuuuuu'', 7 # replicate 31 7)],
      s_master_key = Some (0 # replicate 31 7), s_last_unlock_method = Some UnlockPassphrase,
      s_tick = n\<rparr>"

definition demo_created :: "(string \<times> bytes) list vault_store" where
  "demo_created = demo_store (demo_db (demo_header 0 102) []) (demo_header 0 102) 10"

definition demo_rows :: "record_row list" where
  "demo_rows =
     [demo_row ''c1'' KPasswordCredential 1 111 12 3, demo_row ''k1'' KPrivateKey 2 116 17 4,
      demo_row ''h1'' KHost 3 121 22 1, demo_row ''p1'' KPortForward 4 126 27 5]"

text \<open>After the first \<open>n\<close> of: a credential, a key, a host that uses both, a forward of the host.\<close>

definition demo_after :: "nat \<Rightarrow> (string \<times> bytes) list vault_store" where
  "demo_after n =
     demo_store (demo_db (demo_header (word_of_nat n) (105 + 5 * int n)) (take n demo_rows))
       (demo_header (word_of_nat n) (106 + 5 * int n)) (10 + 5 * n)"

lemma demo_fresh_inv: "vault_inv demo_fresh"
  by (simp add: vault_inv_def inv_of_def demo_fresh_def view_def empty_db_def wf_db_def)

lemma length_utf8 [simp]: "length (utf8 s) = length s"
  by (simp add: utf8_def)

lemmas run_defs = Let_def recommended_def derive_wrap_key_def
    insert_header_def on_db_simp empty_db_def sql_u64_def fits_i64_def encrypt_m_def encrypt_def KEY_LEN_def insert_recovery_bundle_def
    ensure_device_enrollment_def header_or_def master_key_def local_device_id_def refresh_device_enrollment_def
    get_local_state_def set_local_state_def enroll_device_def set_secret_def upsert_device_enrollment_def persist_device_unlock_message_def
    delete_local_state_def

lemmas rec_defs = store_password_credential_def store_private_key_def store_host_profile_def store_port_forward_def
  validate_password_credential_def validate_private_key_def validate_host_def validate_port_forward_def
  validate_host_auth_refs_def validate_auth_ref_def require_credential_def store_payload_def store_record_def
  seal_and_write_def next_version_def bump_logical_clock_def set_last_logical_clock_def record_modified_at_def
  load_record_payload_def decrypt_record_def load_record_def encrypted_record_from_row_def row_of_record_def
  host_type_def credential_type_def key_type_def port_forward_type_def json_result_def ssh_result_def
  private_key_algorithm_of_def load_host_profile_def active_port_forwards_def list_payloads_def list_records_by_kind_def
  decrypt_def NONCE_LEN_def upsert_record_def upsert_row_def overwrite_row_def kind_from_str_def sync_from_str_def

lemmas demo_state_defs = demo_created_def demo_after_def demo_rows_def demo_row_def demo_store_def demo_db_def demo_header_def demo_kdf_def

lemma demo_create: "create_vault demo_env ''pass'' ''mac'' demo_fresh = (Inr (), demo_created)"
  by (simp add: create_vault_def demo_fresh_def trim_visible run_defs demo_state_defs upsert_row_def
      delete_row_def DEVICE_STATE_KEY_def DEVICE_UNLOCK_MESSAGE_KEY_def)

lemma demo_created_inv: "vault_inv demo_created"
  using keepsD [OF keeps_create_vault [OF demo_sized] demo_fresh_inv, of "''pass''" "''mac''"]
  by (simp add: demo_create)

lemmas demo_payload_defs = demo_credential_def demo_key_def demo_host_def demo_host_plain_def demo_forward_def

lemmas demo_run = demo_payload_defs demo_state_defs trim_visible run_defs rec_defs table_codec_def

lemma demo_store_credential:
  "store_password_credential demo_env demo_credential demo_created =
     (Inr (credential_summary_of demo_credential 111), demo_after 1)"
  by (simp add: demo_run)

lemma demo_store_key:
  "store_private_key demo_env demo_key (demo_after 1) = (Inr (key_summary_of demo_key 116), demo_after 2)"
  by (simp add: demo_run)

lemma demo_store_host:
  "store_host_profile demo_env demo_host (demo_after 2) = (Inr (host_summary_of demo_host 121), demo_after 3)"
  by (simp add: demo_run)

lemma demo_store_forward:
  "store_port_forward demo_env demo_forward (demo_after 3) =
     (Inr (port_forward_summary_of demo_forward 126), demo_after 4)"
  by (simp add: demo_run)

lemma demo_after_inv:
  "vault_inv (demo_after 1)" "vault_inv (demo_after 2)" "vault_inv (demo_after 3)" "vault_inv (demo_after 4)"
proof -
  show 1: "vault_inv (demo_after 1)"
    by (rule keeps_eq [OF keeps_record_ops(2) demo_created_inv demo_store_credential])
  show 2: "vault_inv (demo_after 2)" by (rule keeps_eq [OF keeps_record_ops(3) 1 demo_store_key])
  show 3: "vault_inv (demo_after 3)" by (rule keeps_eq [OF keeps_record_ops(1) 2 demo_store_host])
  show "vault_inv (demo_after 4)" by (rule keeps_eq [OF keeps_record_ops(4) 3 demo_store_forward])
qed

end
