(* ===== verification/Vault_Theorems.thy ===== *)
theory Vault_Theorems
  imports Vault_Machine Vault_Demo
begin

text \<open>
  The properties of the vault: the invariant of every reachable state, recovery by passphrase and by
  device, the record collections, references, and synchronisation. Each is followed by a witness in
  the concrete environment.
\<close>

section \<open>Shared facts\<close>

lemma open_fresh_demo: "open_with_device_store ''v.db'' [] 0 (Inr empty_db) = Inr demo_fresh"
  by (simp add: open_with_device_store_def demo_fresh_def load_header_def empty_db_def)

lemma demo_reachable: "reachable demo_env demo_created"
  using reachable.stepped [OF reachable.opened [OF open_fresh_demo], of "Create ''pass'' ''mac''" demo_env]
  by (simp add: demo_create)

lemma demo_ready: "env_ready demo_env"
  by (simp add: env_ready_def demo_aead demo_sized demo_uuids demo_json del: demo_env_sel)

lemma demo_kv: "s_master_key (demo_after n) = Some (0 # replicate 31 7)"
  "s_header (demo_after n) = Some (demo_header (word_of_nat n) (106 + 5 * int n))"
  by (simp_all add: demo_after_def demo_store_def)

lemma demo_opens:
  assumes "vault_inv (demo_after n)"
  shows "opens demo_env ''pass'' (0 # replicate 31 7) (demo_after n)"
proof -
  have "recoverable demo_env ''pass'' (0 # replicate 31 7) (view (demo_after n))"
    by (simp add: recoverable_def view_def demo_run decrypt_recovery_master_key_def decrypt_def)
  with assms show ?thesis by (simp add: opens_def demo_kv)
qed

lemma created_opens:
  assumes "create_vault env p n s = (Inr u, t)" and "vault_inv s" and "aead_correct env" and "draws_sized env"
  shows "opens env p (key_at env (s_tick s)) t" and "s_master_key t = Some (key_at env (s_tick s))"
proof -
  note v = create_vault_view [OF assms(1,3,4,2)]
  from v(2) obtain c where c: "view t = view (created_store env c s)" ..
  then show "s_master_key t = Some (key_at env (s_tick s))"
    by (simp add: view_def created_store_def)
  from c have "s_header t \<noteq> None" by (simp add: view_def created_store_def)
  with v(1,3) show "opens env p (key_at env (s_tick s)) t" by (simp add: opens_def)
qed

section \<open>The invariant\<close>

lemma export_delta_fits:
  assumes "vault_inv s" and "export_delta since s = Inr d"
  shows "delta_fits d"
proof -
  from assms(2) obtain h where "s_header s = Some h"
    by (auto simp: export_delta_def header_or_def and_then_r_Inr split: option.splits)
  from export_delta_run [OF assms(1) this, of since] assms(2) show ?thesis by (auto simp: delta_fits_def)
qed

text \<open>
  C1. In every state the vault can reach from a new file, through any sequence of its public methods
  (failed calls included) and restarts of the program, the store invariant holds: the cached header
  agrees with the header row, no record is newer than the header's clock, clocks fit SQLite integers,
  primary keys are unique, every record row parses, and an unlocked vault is initialised with a
  32-byte key. The one condition on the calls is that every clock of an applied delta is below
  \<open>2^63\<close>, the limit of an SQLite integer; every delta that a vault in such a state exports meets it, so
  it holds of all deltas that vaults exchange.
\<close>

theorem reachable_invariant:
  assumes "draws_sized env" and "reachable env s"
  shows "vault_inv s \<and> (\<forall>since d. export_delta since s = Inr d \<longrightarrow> delta_fits d)"
  using reachable_vault_inv [OF assms(2,1)] export_delta_fits by blast

theorem reachable_invariant_witness: "draws_sized demo_env \<and> reachable demo_env demo_created \<and> vault_inv demo_created"
  using reachable_invariant [OF demo_sized demo_reachable] demo_sized demo_reachable by simp

section \<open>Recovery by passphrase\<close>

text \<open>
  C2. The passphrase a vault was created with unlocks it after any further sequence of operations and
  restarts without a rotation, and yields the key the vault was created with.
\<close>

theorem passphrase_survives:
  assumes "create_vault env p n s = (Inr (), t)" and "vault_inv s"
    and "aead_correct env" and "draws_sized env"
    and "list_all (\<lambda>op. op_ok op \<and> \<not> rotates op) ops"
  shows "\<exists>u. unlock_with_passphrase env p m (fold (exec env) ops t) = (Inr (), u)
           \<and> s_master_key u = s_master_key t
           \<and> t_records (s_conn u) = t_records (s_conn (fold (exec env) ops t))"
proof -
  note c = created_opens [OF assms(1-4)]
  from execs_opens [OF assms(4,5) c(1)] have "opens env p (key_at env (s_tick s)) (fold (exec env) ops t)" .
  from opens_unlock [OF this, of m] c(2) show ?thesis by auto
qed

theorem passphrase_survives_witness:
  "\<exists>u. unlock_with_passphrase demo_env ''pass'' ''mac''
          (fold (exec demo_env) [StoreCredential demo_credential, Lock, Reopen ''w.db''] demo_created) = (Inr (), u)
        \<and> s_master_key u = s_master_key demo_created"
  using passphrase_survives [OF demo_create demo_fresh_inv demo_aead demo_sized,
      of "[StoreCredential demo_credential, Lock, Reopen ''w.db'']" "''mac''"]
  by (simp del: exec.simps fold_simps) blast

text \<open>
  C3. After a successful rotation the new passphrase unlocks the vault, after any operations without
  a further rotation, with the key that the old one recovered, and no record has changed.
\<close>

theorem rotation_keeps_key:
  assumes "rotate_passphrase env old new s = (Inr (), t)" and "opens env old k s"
    and "aead_correct env" and "draws_sized env"
    and "list_all (\<lambda>op. op_ok op \<and> \<not> rotates op) ops"
  shows "t_records (s_conn t) = t_records (s_conn s)
     \<and> (\<exists>u. unlock_with_passphrase env new m (fold (exec env) ops t) = (Inr (), u) \<and> s_master_key u = Some k)"
proof -
  from assms(2) have s: "vault_inv s" "recoverable env old k (view s)" by (auto simp: opens_def)
  from rotate_recoverable [OF assms(1) s(1) assms(3,4)] obtain b k' h
    where h: "s_header s = Some h" and b: "recovered_key env old h (s_conn s) = Inr (b, k')"
      and r: "length k' = KEY_LEN \<longrightarrow> recoverable env new k' (view t)" by blast
  obtain row where "t_vault_header (s_conn s) = Some row" "vh_vault_id row = vh_vault_id h"
    using vault_inv_header [OF s(1) h] by metis
  from recovered_key_recoverable [OF s(2) this] b have k: "k' = k" by simp
  have len: "length k = KEY_LEN" using s(2) by (auto simp: recoverable_def view_def)
  have inv: "vault_inv t" by (rule keeps_eq [OF keeps_rotate_passphrase s(1) assms(1)])
  from rotate_passphrase_Inr [OF assms(1)] obtain c where t: "t = rotated_store env c s" by blast
  have "s_header t \<noteq> None" "t_records (s_conn t) = t_records (s_conn s)"
    using h by (simp_all add: t rotated_store_def Let_def)
  with inv r k len have "opens env new k t" by (simp add: opens_def)
  from opens_unlock [OF execs_opens [OF assms(4,5) this], of m] \<open>t_records (s_conn t) = t_records (s_conn s)\<close>
  show ?thesis by auto
qed

lemma demo_rotate: "\<exists>t. rotate_passphrase demo_env ''pass'' ''phrase'' (demo_after 4) = (Inr (), t)"
  by (simp add: rotate_passphrase_def demo_run recovered_key_def load_recovery_bundle_def
      decrypt_recovery_master_key_def update_header_after_rotation_def)

theorem rotation_keeps_key_witness:
  "\<exists>t. rotate_passphrase demo_env ''pass'' ''phrase'' (demo_after 4) = (Inr (), t)
     \<and> (\<exists>u. unlock_with_passphrase demo_env ''phrase'' ''mac'' (fold (exec demo_env) [Lock] t) = (Inr (), u)
            \<and> s_master_key u = Some (0 # replicate 31 7))"
proof -
  from demo_rotate obtain t where t: "rotate_passphrase demo_env ''pass'' ''phrase'' (demo_after 4) = (Inr (), t)" ..
  from rotation_keeps_key [OF t demo_opens [OF demo_after_inv(4)] demo_aead demo_sized, of "[Lock]" "''mac''"] t
  show ?thesis by auto
qed

text \<open>
  C4. Locking and unlocking again with the passphrase is the identity on what can be loaded: every
  record of every kind loads as before.
\<close>

theorem lock_unlock_loads:
  assumes "opens env p k s" and "s_master_key s = Some k"
    and "lock s = (Inr (), l)" and "unlock_with_passphrase env p n l = (r, u)"
  shows "r = Inr () \<and> s_master_key l = None
     \<and> load_host_profile env i u = load_host_profile env i s
     \<and> load_password_credential env i u = load_password_credential env i s
     \<and> load_private_key env i u = load_private_key env i s
     \<and> load_port_forward env i u = load_port_forward env i s"
proof -
  have l: "l = s\<lparr>s_master_key := None, s_last_unlock_method := None\<rparr>" using assms(3) by (simp add: lock_def)
  have inv: "vault_inv s" using assms(1) by (simp add: opens_def)
  have invl: "vault_inv l" by (rule keeps_eq [OF keeps_lock inv assms(3)])
  have rv: "recovery_view l = recovery_view s" by (simp add: recovery_view_def l)
  have "recoverable env p k (view l)"
    unfolding recoverable_cong [OF rv] using assms(1) by (simp add: opens_def)
  with assms(1) invl have "opens env p k l" by (simp add: opens_def l)
  from opens_unlock [OF this, of n] assms(4) have u: "r = Inr ()" "s_master_key u = Some k"
    "t_records (s_conn u) = t_records (s_conn l)" "s_header u = s_header l" by auto
  have invu: "vault_inv u" by (rule keeps_eq [OF keeps_unlock_with_passphrase invl assms(4)])
  have same: "t_records (s_conn u) = t_records (s_conn s) \<and> key_view u = key_view s"
    using u assms(2) by (simp add: key_view_def l)
  show ?thesis using u(1) by (simp add: load_defs same_records_load [OF same inv invu] l)
qed

theorem lock_unlock_loads_witness:
  "\<exists>l r u. lock (demo_after 4) = (Inr (), l) \<and> unlock_with_passphrase demo_env ''pass'' ''mac'' l = (r, u)
     \<and> r = Inr () \<and> load_host_profile demo_env ''h1'' u = load_host_profile demo_env ''h1'' (demo_after 4)"
proof -
  obtain l where l: "lock (demo_after 4) = (Inr (), l)" by (simp add: lock_def)
  obtain r u where u: "unlock_with_passphrase demo_env ''pass'' ''mac'' l = (r, u)" by fastforce
  from lock_unlock_loads [OF demo_opens [OF demo_after_inv(4)] demo_kv(1) l u, of "''h1''"] l u
  show ?thesis by blast
qed

section \<open>Collections\<close>

text \<open>
  C5. The hosts of a vault behave as a finite map from identifiers to profiles: after any sequence of
  stores and deletes (of which any may fail), loading an identifier gives what the last successful
  call on it left.
\<close>

theorem host_collection_refines_map:
  assumes "ready env (host_codec env) s" and "\<And>j. load_host_profile env j s = Inr (m j)"
  shows "load_host_profile env i (run_ops (store_host_profile env) (delete_host_profile env) ops s) =
           Inr (spec_ops (store_host_profile env) (delete_host_profile env)
                  (\<lambda>h. id_for env (ho_id h)) (\<lambda>i h. h\<lparr>ho_id := i\<rparr>) ops s m i)"
  using assms by (rule hosts.run_refines_map)

lemma demo_ready_hosts: "vault_inv s \<Longrightarrow> ready demo_env (host_codec demo_env) s"
  using demo_ready by (simp add: env_ready_def ready_def)

lemma demo_created_hosts: "load_host_profile demo_env j demo_created = Inr None"
  by (simp add: load_host_profile_def load_record_payload_def load_record_def demo_state_defs)

theorem host_collection_refines_map_witness:
  "load_host_profile demo_env ''h1''
     (run_ops (store_host_profile demo_env) (delete_host_profile demo_env) [Put demo_host_plain, Drop ''x''] demo_created) =
   Inr (spec_ops (store_host_profile demo_env) (delete_host_profile demo_env)
          (\<lambda>h. id_for demo_env (ho_id h)) (\<lambda>i h. h\<lparr>ho_id := i\<rparr>) [Put demo_host_plain, Drop ''x''] demo_created
          (\<lambda>_. None) ''h1'')"
  by (rule host_collection_refines_map [OF demo_ready_hosts [OF demo_created_inv] demo_created_hosts])

text \<open>
  A stored password credential reads back: the call returns its summary, the credential loads
  under its identifier (a fresh one when it had none), every other credential is as before, the
  logical clock has advanced by exactly one and the record carries the new value, marked as pending
  for synchronisation.
\<close>

theorem store_credential_roundtrip:
  assumes "ready env (credential_codec env) s" and "store_password_credential env c s = (Inr y, t)"
  defines "i \<equiv> id_for env (cr_id c) s"
  shows "load_password_credential env i t = Inr (Some (c\<lparr>cr_id := i\<rparr>))
     \<and> (\<exists>modified. y = credential_summary_of (c\<lparr>cr_id := i\<rparr>) modified)
     \<and> (\<forall>j. j \<noteq> i \<longrightarrow> load_password_credential env j t = load_password_credential env j s)
     \<and> sc_logical_clock (current_cursor t) = sc_logical_clock (current_cursor s) + 1
     \<and> (\<exists>r. record_at (s_conn t) i = Some r \<and> er_sync_state r = Pending
            \<and> er_logical_clock r = sc_logical_clock (current_cursor t))"
proof -
  have r: "ready env (rt_codec (credential_type env)) s" using assms(1) by (simp add: credential_type_def)
  have run: "store_payload env (credential_type env) KPasswordCredential credential_summary_of c s = (Inr y, t)"
    using assms(2) stores_via_ops(2) [of env] by (auto simp: stores_via_def)
  from store_payload_Inr [OF run r lens_types(2)]
  have st: "stored_as env (credential_codec env) KPasswordCredential i (c\<lparr>cr_id := i\<rparr>) s t"
    and y: "\<exists>m. y = credential_summary_of (c\<lparr>cr_id := i\<rparr>) m"
    by (simp_all add: credential_type_def i_def)
  from st have "\<exists>r. record_at (s_conn t) i = Some r \<and> er_sync_state r = Pending \<and> er_logical_clock r = clock_of t"
    "clock_of t = clock_of s + 1"
    by (auto simp: stored_as_def active_at_def split: option.splits if_splits)
  with y credentials.store_same [OF assms(1,2)] credentials.store_other [OF assms(1,2)]
  show ?thesis by (auto simp: i_def clock_of_def)
qed

lemma demo_ready_credentials: "vault_inv s \<Longrightarrow> ready demo_env (credential_codec demo_env) s"
  using demo_ready by (simp add: env_ready_def ready_def)

theorem store_credential_roundtrip_witness:
  "load_password_credential demo_env ''c1'' (demo_after 1) = Inr (Some demo_credential)"
  using store_credential_roundtrip [OF demo_ready_credentials [OF demo_created_inv] demo_store_credential]
  by (simp add: id_for_def demo_credential_def)

text \<open>
  Deleting removes exactly one record: afterwards the identifier loads as absent, every other
  identifier as before, the result says whether an active record was there, and deleting again
  returns \<open>false\<close> and changes nothing.
\<close>

theorem delete_forward_exact:
  assumes "vault_inv s" and "delete_port_forward env i s = (Inr b, t)"
  shows "load_port_forward env i t = Inr None
     \<and> (\<forall>j. j \<noteq> i \<longrightarrow> load_port_forward env j t = load_port_forward env j s)
     \<and> (b \<longleftrightarrow> load_port_forward env i s \<noteq> Inr None)
     \<and> delete_port_forward env i t = (Inr False, t)"
proof -
  have run: "delete_record env i KPortForward s = (Inr b, t)" using assms(2) by (simp add: delete_port_forward_def)
  note L = delete_record_load [OF run assms(1)]
  have t: "vault_inv t" by (rule keeps_eq [OF keeps_delete_record assms(1) run])
  have "active_at (s_conn t) i KPortForward = None"
    using delete_record_Inr [OF run assms(1)] by (auto simp: active_at_def tombstone_def)
  then have "delete_record env i KPortForward t = (Inr False, t)"
    using vault_inv_wf [OF t]
    by (auto simp: delete_record_def load_record_spec active_at_def split: option.splits if_splits)
  with L(1) [of "port_forward_codec env"] L(3) [of "port_forward_codec env"]
    L(2) [of _ "port_forward_codec env" KPortForward]
  show ?thesis by (simp add: load_port_forward_def delete_port_forward_def)
qed

lemma demo_delete_forward: "\<exists>t. delete_port_forward demo_env ''p1'' (demo_after 4) = (Inr True, t)"
  by (simp add: delete_port_forward_def delete_record_def demo_run)

theorem delete_forward_exact_witness:
  "\<exists>t. delete_port_forward demo_env ''p1'' (demo_after 4) = (Inr True, t) \<and> load_port_forward demo_env ''p1'' t = Inr None"
proof -
  from demo_delete_forward obtain t where t: "delete_port_forward demo_env ''p1'' (demo_after 4) = (Inr True, t)" ..
  with delete_forward_exact [OF demo_after_inv(4) t] show ?thesis by blast
qed

section \<open>References\<close>

text \<open>The identifier a storing operation writes to belongs to no record of another kind.\<close>

fun writes_free :: "'d env \<Rightarrow> vault_op \<Rightarrow> 'd vault_store \<Rightarrow> bool" where
  "writes_free env (StoreHost h) s \<longleftrightarrow> id_free KHost (id_for env (ho_id h) s) s"
| "writes_free env (StoreCredential c) s \<longleftrightarrow> id_free KPasswordCredential (id_for env (cr_id c) s) s"
| "writes_free env (StoreKey k) s \<longleftrightarrow> id_free KPrivateKey (id_for env (pk_id k) s) s"
| "writes_free env (StoreForward p) s \<longleftrightarrow> id_free KPortForward (id_for env (pf_id p) s) s"
| "writes_free env (DeleteHost i) s \<longleftrightarrow> True"
| "writes_free env (DeleteCredential i) s \<longleftrightarrow> True"
| "writes_free env (DeleteKey i) s \<longleftrightarrow> True"
| "writes_free env (DeleteForward i) s \<longleftrightarrow> True"
| "writes_free env _ s \<longleftrightarrow> False"

text \<open>
  C6. References never dangle: storing and deleting records keeps every credential and key that an
  active host names, and every host that an active port forward names, loadable, as long as a store
  does not reuse the identifier of a record of another kind.
\<close>

theorem references_never_dangle:
  assumes "env_ready env" and "vault_inv s" and "refs_resolve env s" and "writes_free env op s"
  shows "refs_resolve env (exec env op s)"
  using assms(4)
  by (cases op)
     (auto intro: refs_store_host [OF assms(1-3) _ surjective_pairing]
       refs_store_credential [OF assms(1-3) _ surjective_pairing]
       refs_store_key [OF assms(1-3) _ surjective_pairing]
       refs_store_forward [OF assms(1-3) _ surjective_pairing]
       refs_delete_host [OF assms(2,3) surjective_pairing]
       refs_delete_credential [OF assms(2,3) surjective_pairing]
       refs_delete_key [OF assms(2,3) surjective_pairing]
       refs_delete_forward [OF assms(2,3) surjective_pairing])

lemma demo_created_refs: "refs_resolve demo_env demo_created"
  by (simp add: refs_resolve_def load_defs load_record_payload_def load_record_def demo_state_defs)

theorem references_never_dangle_witness:
  "refs_resolve demo_env (exec demo_env (StoreCredential demo_credential) demo_created)"
proof (rule references_never_dangle [OF demo_ready demo_created_inv demo_created_refs])
  show "writes_free demo_env (StoreCredential demo_credential) demo_created"
    by (simp add: id_free_def record_at_def demo_state_defs)
qed

text \<open>
  A credential an active host uses cannot be deleted: the call fails with the credential and the
  host in the error, and the vault is unchanged.
\<close>

theorem used_credential_not_deleted:
  assumes "vault_inv s" and "active_hosts env s = Inr hosts" and "h \<in> set hosts"
    and "a \<in> set (ho_auth_order h)" and "auth_uses_credential c a"
  shows "\<exists>host. delete_password_credential env c s = (Inl (CredentialInUse c host), s)"
proof -
  let ?check = "\<lambda>h. if list_ex (auth_uses_credential c) (ho_auth_order h)
                     then Inl (CredentialInUse c (ho_id h)) else Inr ()"
  have "for_each ?check hosts \<noteq> Inr ()"
    using assms(3-5) by (auto simp: for_each_Inr list_ex_iff)
  then obtain e where e: "for_each ?check hosts = Inl e"
    by (cases "for_each ?check hosts") auto
  from for_each_Inl [OF this] obtain g :: vault_host_profile where "e = CredentialInUse c (ho_id g)"
    by (auto split: if_splits)
  with e assms(2) show ?thesis
    by (simp add: delete_password_credential_def ensure_credential_not_referenced_def)
qed

lemma demo_hosts: "active_hosts demo_env (demo_after 4) = Inr [demo_host]"
  by (simp add: active_hosts_def demo_run)

theorem used_credential_not_deleted_witness:
  "\<exists>host. delete_password_credential demo_env ''c1'' (demo_after 4) = (Inl (CredentialInUse ''c1'' host), demo_after 4)"
proof (rule used_credential_not_deleted [OF demo_after_inv(4) demo_hosts])
  show "demo_host \<in> set [demo_host]" by simp
  show "AuthPassword ''c1'' \<in> set (ho_auth_order demo_host)" by (simp add: demo_host_def)
qed simp

section \<open>Locked vaults\<close>

text \<open>
  While the vault is locked nothing can be stored and no active record can be read: storing a
  credential that passes validation fails with \<open>VaultLocked\<close> without touching the database, and
  loading an active one fails the same way.
\<close>

theorem locked_vault_rejects:
  assumes "vault_inv s" and "s_master_key s = None"
  shows "(validate_password_credential c = Inr () \<longrightarrow>
      fst (store_password_credential env c s) = Inl VaultLocked
      \<and> s_conn (snd (store_password_credential env c s)) = s_conn s)
    \<and> (active_at (s_conn s) i KPasswordCredential \<noteq> None \<longrightarrow>
      load_password_credential env i s = Inl VaultLocked)"
proof (intro conjI impI)
  assume v: "validate_password_credential c = Inr ()"
  then show "fst (store_password_credential env c s) = Inl VaultLocked"
    "s_conn (snd (store_password_credential env c s)) = s_conn s"
    using assms(2)
    by (simp_all add: store_password_credential_def store_payload_def store_record_def master_key_def)
next
  assume "active_at (s_conn s) i KPasswordCredential \<noteq> None"
  then show "load_password_credential env i s = Inl VaultLocked"
    using assms(2)
    by (auto simp: load_password_credential_def load_payload_spec [OF vault_inv_wf [OF assms(1)]]
        decrypt_record_def master_key_def)
qed

definition demo_locked :: "(string \<times> bytes) list vault_store" where
  "demo_locked = snd (lock (demo_after 4))"

lemma demo_locked_inv: "vault_inv demo_locked"
  unfolding demo_locked_def by (rule keepsD [OF keeps_lock demo_after_inv(4)])

theorem locked_vault_rejects_witness:
  "s_master_key demo_locked = None \<and> load_password_credential demo_env ''c1'' demo_locked = Inl VaultLocked
   \<and> fst (store_password_credential demo_env demo_credential demo_locked) = Inl VaultLocked"
proof -
  have mk: "s_master_key demo_locked = None" by (simp add: demo_locked_def lock_def)
  have a: "active_at (s_conn demo_locked) ''c1'' KPasswordCredential \<noteq> None"
    by (simp add: demo_locked_def lock_def active_at_def record_at_def rec_of_def demo_state_defs kind_from_str_def)
  have v: "validate_password_credential demo_credential = Inr ()"
    by (simp add: validate_password_credential_def demo_credential_def trim_visible)
  from locked_vault_rejects [OF demo_locked_inv mk] mk a v show ?thesis by blast
qed

section \<open>Synchronisation\<close>

abbreviation beginning :: sync_cursor where
  "beginning \<equiv> \<lparr>sc_logical_clock = 0\<rparr>"

lemma exported_all:
  assumes "vault_inv s" and "s_header s = Some h" and "export_delta beginning s = Inr d"
  shows "set (vd_records d) = {x \<in> ran (contents_of (s_conn s)). 0 < dr_logical_clock x}" and "delta_fits d"
    and "vd_vault_id d = vh_vault_id h" and "vd_from_clock d = 0" and "vd_to_clock d = clock_of s"
proof -
  have z: "min 0 (clock_of s) = 0" by (simp add: min_def)
  from export_delta_run [OF assms(1,2), of beginning, unfolded sync_cursor.simps z] assms(3)
  obtain rs where d: "d = \<lparr>vd_vault_id = vh_vault_id h, vd_from_clock = 0, vd_to_clock = clock_of s, vd_records = rs\<rparr>"
    and rs: "set rs = {x \<in> ran (contents_of (s_conn s)). 0 < dr_logical_clock x}"
      "fits_i64 (clock_of s)" "list_all (\<lambda>r. fits_i64 (dr_logical_clock r)) rs" by (metis sum.inject(2))
  show "set (vd_records d) = {x \<in> ran (contents_of (s_conn s)). 0 < dr_logical_clock x}" "delta_fits d"
    "vd_vault_id d = vh_vault_id h" "vd_from_clock d = 0" "vd_to_clock d = clock_of s"
    using rs by (simp_all add: d delta_fits_def)
qed

lemma lex_fst:
  "(a :: 'a :: preorder, b :: 'b :: preorder) \<le> (c, d) \<Longrightarrow> a \<le> c"
  "(a :: 'a :: preorder) < c \<Longrightarrow> (a, b :: 'b :: preorder) \<le> (c, d)"
  "(a :: 'a :: preorder) < c \<Longrightarrow> (a, b :: 'b :: preorder) < (c, d)"
  by (auto simp: order_less_imp_le)

lemma rank_clock:
  "rank x \<le> rank y \<Longrightarrow> dr_logical_clock x \<le> dr_logical_clock y"
  "dr_logical_clock x < dr_logical_clock y \<Longrightarrow> rank x \<le> rank y"
  unfolding rank_def prec_def by ((drule lex_fst(1))+, simp) (rule lex_fst(2), (rule lex_fst(3))+, simp)

lemma option_eqI: "(\<And>x. m = Some x \<longleftrightarrow> n = Some x) \<Longrightarrow> m = n"
  by (cases m; cases n) auto

text \<open>What one replica holds after the exchange: the winner among its own records and those of the other one
  that were exported, which are the ones with a positive clock.\<close>

lemma winner_exchanged:
  assumes "y \<in> A \<union> B" "dr_record_id y = i" "0 < dr_logical_clock y"
    and "winner (A \<union> {x \<in> B. 0 < dr_logical_clock x}) i x"
  shows "winner (B \<union> {x \<in> A. 0 < dr_logical_clock x}) i x"
proof -
  let ?A = "A \<union> {x \<in> B. 0 < dr_logical_clock x}"
  have x: "x \<in> ?A" "dr_record_id x = i" "\<And>z. z \<in> ?A \<Longrightarrow> dr_record_id z = i \<Longrightarrow> rank z \<le> rank x"
    using assms(4) by (auto simp: winner_def)
  have "rank y \<le> rank x" using assms(1-3) x(3) by auto
  then have pos: "0 < dr_logical_clock x" using assms(3) rank_clock(1) by (metis order_less_le_trans)
  have "rank z \<le> rank x" if "z \<in> B" "dr_record_id z = i" for z
  proof (cases "0 < dr_logical_clock z")
    case False
    then have "dr_logical_clock z < dr_logical_clock x" using pos by (simp add: not_less)
    then show ?thesis by (rule rank_clock(2))
  qed (use that x(3) in auto)
  with x pos show ?thesis by (auto simp: winner_def)
qed

lemma winner_own:
  assumes "keyed m" and "\<forall>y\<in>B. dr_record_id y = i \<longrightarrow> \<not> 0 < dr_logical_clock y"
  shows "winner (ran m \<union> {x \<in> B. 0 < dr_logical_clock x}) i x \<longleftrightarrow> m i = Some x"
  using assms by (fastforce simp: winner_def keyed_def ran_def)

lemma contents_clock:
  assumes "vault_inv s" and "s_header s = Some h" and "x \<in> ran (contents_of (s_conn s))"
  shows "dr_logical_clock x \<le> clock_of s"
proof -
  obtain row where "\<And>r. r \<in> set (t_records (s_conn s)) \<Longrightarrow> rr_logical_clock r \<le> vh_last_logical_clock h"
    using vault_inv_header [OF assms(1,2)] by metis
  with contents_row [OF assms(3)] show ?thesis
    by (auto simp: clock_of_def current_cursor_def assms(2))
qed

lemma clocks_max_id: "(\<And>r. r \<in> set rs \<Longrightarrow> dr_logical_clock r \<le> c) \<Longrightarrow> clocks_max rs c = c"
  by (induction rs) (auto simp: max.absorb1)

text \<open>
  C7. Two replicas of a vault that exchange full deltas converge: both merges succeed, both replicas then
  have the same clock, and for every identifier of which one of them held a record with a positive clock
  both hold the same record, whatever each held before, as long as they agree on the kind and schema
  version of an identifier. Records with clock 0, which a full delta leaves out and which no vault writes
  by itself, stay as they were.
\<close>

theorem two_way_sync_converges:
  assumes "vault_inv a" and "vault_inv b"
    and "s_header a = Some ha" and "s_header b = Some hb" and "vh_vault_id ha = vh_vault_id hb"
    and "uniform (ran (contents_of (s_conn a)) \<union> ran (contents_of (s_conn b)))"
    and "export_delta beginning a = Inr da" and "export_delta beginning b = Inr db"
  shows "\<exists>ra rb a' b'. apply_delta env db a = (Inr ra, a') \<and> apply_delta env' da b = (Inr rb, b')
     \<and> current_cursor a' = current_cursor b'
     \<and> (\<forall>i. if \<exists>x \<in> ran (contents_of (s_conn a)) \<union> ran (contents_of (s_conn b)). dr_record_id x = i \<and> 0 < dr_logical_clock x
           then contents_of (s_conn a') i = contents_of (s_conn b') i
           else contents_of (s_conn a') i = contents_of (s_conn a) i \<and> contents_of (s_conn b') i = contents_of (s_conn b) i)"
proof -
  let ?a = "contents_of (s_conn a)" and ?b = "contents_of (s_conn b)"
  note xa = exported_all [OF assms(1,3,7)] and xb = exported_all [OF assms(2,4,8)]
  have "vd_vault_id db = vh_vault_id ha" "vd_from_clock db \<le> vh_last_logical_clock ha"
    using xb assms(5) by auto
  from apply_delta_run [OF assms(1,3) this xb(2), of env] obtain ra a' where
      A: "apply_delta env db a = (Inr ra, a')"
    and ca: "contents_of (s_conn a') = foldl merge_spec ?a (vd_records db)"
    and la: "clock_of a' = clocks_max (vd_records db) (max (clock_of a) (vd_to_clock db))" by blast
  have "vd_vault_id da = vh_vault_id hb" "vd_from_clock da \<le> vh_last_logical_clock hb"
    using xa assms(5) by auto
  from apply_delta_run [OF assms(2,4) this xa(2), of env'] obtain rb b' where
      B: "apply_delta env' da b = (Inr rb, b')"
    and cb: "contents_of (s_conn b') = foldl merge_spec ?b (vd_records da)"
    and lb: "clock_of b' = clocks_max (vd_records da) (max (clock_of b) (vd_to_clock da))" by blast
  have "clock_of a' = max (clock_of a) (clock_of b)"
    unfolding la xb(5)
    by (rule clocks_max_id) (use contents_clock [OF assms(2,4)] xb(1) in \<open>auto simp: max.coboundedI2\<close>)
  moreover have "clock_of b' = max (clock_of b) (clock_of a)"
    unfolding lb xa(5)
    by (rule clocks_max_id) (use contents_clock [OF assms(1,3)] xa(1) in \<open>auto simp: max.coboundedI2\<close>)
  ultimately have cursor: "current_cursor a' = current_cursor b'"
    by (auto simp: clock_of_def max.commute intro!: sync_cursor.equality)
  have "uniform (ran ?a \<union> set (vd_records db))" "uniform (ran ?b \<union> set (vd_records da))"
    by (rule uniform_subset [OF assms(6)], use xa(1) xb(1) in blast)+
  then have wa: "contents_of (s_conn a') i = Some x \<longleftrightarrow> winner (ran ?a \<union> {x \<in> ran ?b. 0 < dr_logical_clock x}) i x"
    and wb: "contents_of (s_conn b') i = Some x \<longleftrightarrow> winner (ran ?b \<union> {x \<in> ran ?a. 0 < dr_logical_clock x}) i x" for i x
    unfolding ca cb xa(1) [symmetric] xb(1) [symmetric] by (simp_all only: merge_winner [OF keyed_contents_of])
  have "contents_of (s_conn a') i = contents_of (s_conn b') i"
    if "y \<in> ran ?a \<union> ran ?b" "dr_record_id y = i" "0 < dr_logical_clock y" for i y
    by (rule option_eqI, unfold wa wb)
      (use winner_exchanged [OF that] winner_exchanged [of y "ran ?b" "ran ?a" i] that in blast)
  moreover have "contents_of (s_conn a') i = ?a i" "contents_of (s_conn b') i = ?b i"
    if "\<not> (\<exists>x \<in> ran ?a \<union> ran ?b. dr_record_id x = i \<and> 0 < dr_logical_clock x)" for i
    by (rule option_eqI, unfold wa wb, rule winner_own [OF keyed_contents_of], use that in blast)+
  ultimately show ?thesis using A B cursor by (intro exI conjI allI) auto
qed

lemma demo_ran: "ran (contents_of (s_conn (demo_after n))) = (\<lambda>row. delta_record_of (rec_of row)) ` set (take n demo_rows)"
  if "vault_inv (demo_after n)"
  using contents_ran [OF vault_inv_wf [OF that]] by (simp add: demo_after_def demo_store_def demo_db_def)

lemma demo_export: "\<exists>d. export_delta beginning (demo_after n) = Inr d" if "vault_inv (demo_after n)"
  using export_delta_run [OF that demo_kv(2), of beginning] by blast

theorem two_way_sync_converges_witness:
  "\<exists>da db ra rb a' b'. export_delta beginning (demo_after 2) = Inr da \<and> export_delta beginning (demo_after 4) = Inr db
     \<and> apply_delta demo_env db (demo_after 2) = (Inr ra, a') \<and> apply_delta demo_env da (demo_after 4) = (Inr rb, b')
     \<and> contents_of (s_conn a') ''h1'' = contents_of (s_conn b') ''h1''"
proof -
  note i2 = demo_after_inv(2) and i4 = demo_after_inv(4)
  from demo_export [OF i2] demo_export [OF i4] obtain da db where
    d: "export_delta beginning (demo_after 2) = Inr da" "export_delta beginning (demo_after 4) = Inr db" by blast
  let ?X = "ran (contents_of (s_conn (demo_after 2))) \<union> ran (contents_of (s_conn (demo_after 4)))"
  have u: "uniform ?X"
    by (simp add: demo_ran i2 i4 demo_rows_def demo_row_def uniform_def delta_record_of_def rec_of_def kind_from_str_def)
  have p: "\<exists>x \<in> ?X. dr_record_id x = ''h1'' \<and> 0 < dr_logical_clock x"
    by (simp add: demo_ran i2 i4 demo_rows_def demo_row_def delta_record_of_def rec_of_def)
  have "vh_vault_id (demo_header (word_of_nat 2) (106 + 5 * int 2)) = vh_vault_id (demo_header (word_of_nat 4) (106 + 5 * int 4))"
    by (simp add: demo_header_def)
  from two_way_sync_converges [OF i2 i4 demo_kv(2) demo_kv(2) this u d, of demo_env demo_env] obtain ra rb a' b' where
    "apply_delta demo_env db (demo_after 2) = (Inr ra, a')" "apply_delta demo_env da (demo_after 4) = (Inr rb, b')"
    "contents_of (s_conn a') ''h1'' = contents_of (s_conn b') ''h1''" using p by meson
  with d show ?thesis by blast
qed

text \<open>
  C8. Applying a delta that fits the replica succeeds and keeps, for every identifier, the highest
  ranked of the record it held and the records of the delta; the two counts of the report add up to
  the number of records received, the new cursor is the largest clock seen, and neither the keys nor
  the recovery bundle change.
\<close>

theorem apply_delta_keeps_highest:
  assumes "vault_inv s" and "s_header s = Some h" and "vd_vault_id delta = vh_vault_id h"
    and "vd_from_clock delta \<le> vh_last_logical_clock h" and "delta_fits delta"
    and "uniform (ran (contents_of (s_conn s)) \<union> set (vd_records delta))"
  shows "\<exists>rep t. apply_delta env delta s = (Inr rep, t)
     \<and> (\<forall>i x. contents_of (s_conn t) i = Some x \<longleftrightarrow>
            winner (ran (contents_of (s_conn s)) \<union> set (vd_records delta)) i x)
     \<and> ar_applied_records rep + ar_skipped_records rep = length (vd_records delta)
     \<and> ar_new_cursor rep = current_cursor t
     \<and> sc_logical_clock (current_cursor t) =
         clocks_max (vd_records delta) (max (vh_last_logical_clock h) (vd_to_clock delta))
     \<and> s_master_key t = s_master_key s
     \<and> t_recovery_bundles (s_conn t) = t_recovery_bundles (s_conn s)"
proof -
  from apply_delta_run [OF assms(1-5), of env] obtain a k t where
      run: "apply_delta env delta s =
        (Inr \<lparr>ar_applied_records = a, ar_skipped_records = k, ar_new_cursor = current_cursor t\<rparr>, t)"
    and ak: "a + k = length (vd_records delta)"
    and c: "contents_of (s_conn t) = foldl merge_spec (contents_of (s_conn s)) (vd_records delta)"
    and cl: "clock_of t = clocks_max (vd_records delta) (max (clock_of s) (vd_to_clock delta))"
    and kv: "key_view t = key_view s" "t_recovery_bundles (s_conn t) = t_recovery_bundles (s_conn s)" by blast
  have "\<forall>i x. contents_of (s_conn t) i = Some x \<longleftrightarrow>
      winner (ran (contents_of (s_conn s)) \<union> set (vd_records delta)) i x"
    unfolding c merge_winner [OF keyed_contents_of assms(6)] by blast
  moreover have "clock_of s = vh_last_logical_clock h" by (simp add: clock_of_def current_cursor_def assms(2))
  ultimately show ?thesis using run ak cl kv by (simp add: clock_of_def key_view_def)
qed

text \<open>The contents of \<open>demo_after 4\<close> as a delta of its own vault.\<close>

definition demo_delta :: vault_delta where
  "demo_delta = \<lparr>vd_vault_id = ''uuuu'', vd_from_clock = 0, vd_to_clock = 4,
                 vd_records = map (\<lambda>row. delta_record_of (rec_of row)) demo_rows\<rparr>"

lemma demo_delta_fits: "delta_fits demo_delta"
  by (simp add: delta_fits_def demo_delta_def demo_rows_def demo_row_def fits_i64_def)

lemma demo_delta_uniform:
  "uniform (ran (contents_of (s_conn (demo_after 2))) \<union> set (vd_records demo_delta))"
  by (simp add: demo_ran demo_after_inv(2) demo_delta_def demo_rows_def demo_row_def uniform_def
      delta_record_of_def rec_of_def kind_from_str_def)

lemma demo_delta_for:
  "vd_vault_id demo_delta = vh_vault_id (demo_header c u)"
  "vd_from_clock demo_delta \<le> vh_last_logical_clock (demo_header c u)"
  by (simp_all add: demo_delta_def demo_header_def)

theorem apply_delta_keeps_highest_witness:
  "\<exists>rep t. apply_delta demo_env demo_delta (demo_after 2) = (Inr rep, t)
     \<and> ar_applied_records rep + ar_skipped_records rep = 4"
  using apply_delta_keeps_highest [OF demo_after_inv(2) demo_kv(2) demo_delta_for demo_delta_fits
      demo_delta_uniform, of demo_env]
  by (auto simp: demo_delta_def demo_rows_def)

lemma merge_spec_absorbs:
  assumes "keyed m" and "uniform (ran m \<union> set rs)" and "r \<in> set rs"
  shows "merge_spec (foldl merge_spec m rs) r = foldl merge_spec m rs"
proof -
  have "foldl merge_spec m (rs @ [r]) = foldl merge_spec m rs"
    using assms by (intro merge_converges) (auto simp: insert_absorb)
  then show ?thesis by simp
qed

lemma merge_records_absorbed:
  assumes "wf_db d" and "\<And>r. r \<in> set rs \<Longrightarrow> fits_i64 (dr_logical_clock r)"
    and "\<And>r. r \<in> set rs \<Longrightarrow> merge_spec (contents_of d) r = contents_of d"
  shows "\<exists>c' d'. merge_records rs c a k d = (Inr (c', a, k + length rs), d') \<and> contents_of d' = contents_of d"
  using assms
proof (induction rs arbitrary: d c k)
  case (Cons r rs)
  from merge_record_refines [of d r] Cons.prems obtain d1 where
    m: "merge_record (delta_record_to_synced_record r) d = (Inr False, d1)"
    and c1: "contents_of d1 = contents_of d" and w1: "wf_db d1" by auto
  from Cons.IH [OF w1, of "max c (dr_logical_clock r)" "k + 1"] Cons.prems(2,3) c1
  obtain c' d' where "merge_records rs (max c (dr_logical_clock r)) a (k + 1) d1 = (Inr (c', a, k + 1 + length rs), d')"
    "contents_of d' = contents_of d" by auto
  then show ?case by (auto simp: and_then_def m)
qed auto

lemma apply_delta_guards:
  assumes "apply_delta env delta s = (Inr rep, t)" and "s_header s = Some h"
  shows "vd_vault_id delta = vh_vault_id h" and "vd_from_clock delta \<le> vh_last_logical_clock h"
    and "\<exists>c c' d. merge_records (vd_records delta) c 0 0 (s_conn s) =
           (Inr (c', ar_applied_records rep, ar_skipped_records rep), d)"
  using assms
  by (auto simp: apply_delta_def and_then_eq_Inr header_or_def current_cursor_def on_db_Inr not_less
      split: if_splits) blast

lemma foldl_absorbed: "(\<And>r. r \<in> set rs \<Longrightarrow> merge_spec m r = m) \<Longrightarrow> foldl merge_spec m rs = m"
  by (induction rs) auto

text \<open>
  Applying the same delta again applies nothing: every record is skipped and the contents stay.
\<close>

theorem apply_delta_idempotent:
  assumes "vault_inv s" and "s_header s = Some h" and "delta_fits delta"
    and "uniform (ran (contents_of (s_conn s)) \<union> set (vd_records delta))"
    and "apply_delta env delta s = (Inr rep, t)"
  shows "\<exists>rep' u. apply_delta env' delta t = (Inr rep', u)
     \<and> ar_applied_records rep' = 0 \<and> ar_skipped_records rep' = length (vd_records delta)
     \<and> contents_of (s_conn u) = contents_of (s_conn t)"
proof -
  let ?rs = "vd_records delta"
  note g = apply_delta_guards [OF assms(5,2)]
  from apply_delta_run [OF assms(1,2) g(1,2) assms(3), of env] assms(5) have
      c: "contents_of (s_conn t) = foldl merge_spec (contents_of (s_conn s)) ?rs"
    and cl: "clock_of t = clocks_max ?rs (max (clock_of s) (vd_to_clock delta))"
    and kv: "key_view t = key_view s" and inv: "vault_inv t" by auto
  from kv assms(2) obtain h' where h': "s_header t = Some h'" "vh_vault_id h' = vh_vault_id h"
    by (auto simp: key_view_def)
  have "clock_of s \<le> clock_of t" unfolding cl using clocks_max_ge [of "max (clock_of s) (vd_to_clock delta)" ?rs] by auto
  then have le: "vd_from_clock delta \<le> vh_last_logical_clock h'"
    using g(2) assms(2) h'(1) by (auto simp: clock_of_def current_cursor_def)
  have id: "vd_vault_id delta = vh_vault_id h'" using g(1) h'(2) by simp
  have absorb: "merge_spec (contents_of (s_conn t)) r = contents_of (s_conn t)" if "r \<in> set ?rs" for r
    unfolding c by (rule merge_spec_absorbs [OF keyed_contents_of assms(4) that])
  from apply_delta_run [OF inv h'(1) id le assms(3), of env'] obtain rep' u where
      u: "apply_delta env' delta t = (Inr rep', u)"
    and cu: "contents_of (s_conn u) = foldl merge_spec (contents_of (s_conn t)) ?rs" by blast
  from apply_delta_guards(3) [OF u h'(1)] obtain c0 c1 d where
    m: "merge_records ?rs c0 0 0 (s_conn t) = (Inr (c1, ar_applied_records rep', ar_skipped_records rep'), d)" by blast
  from merge_records_absorbed [OF vault_inv_wf [OF inv], of ?rs c0 0 0] absorb m assms(3)
  have "ar_applied_records rep' = 0 \<and> ar_skipped_records rep' = length ?rs"
    by (auto simp: delta_fits_def list_all_iff)
  with u cu foldl_absorbed [OF absorb] show ?thesis by auto
qed

theorem apply_delta_idempotent_witness:
  "\<exists>rep t rep' u. apply_delta demo_env demo_delta (demo_after 2) = (Inr rep, t)
     \<and> apply_delta demo_env demo_delta t = (Inr rep', u) \<and> ar_applied_records rep' = 0"
proof -
  from apply_delta_run [OF demo_after_inv(2) demo_kv(2) demo_delta_for demo_delta_fits, of demo_env]
  obtain rep t where t: "apply_delta demo_env demo_delta (demo_after 2) = (Inr rep, t)" by blast
  from apply_delta_idempotent [OF demo_after_inv(2) demo_kv(2) demo_delta_fits demo_delta_uniform t, of demo_env] t
  show ?thesis by blast
qed

text \<open>
  C9. When a delta is refused: if the vault was never bootstrapped, if the delta is for another vault, or
  if it starts after the local cursor, it is refused with the error that names the reason and the store
  is unchanged, whatever else the delta holds; a delta with none of these faults whose clocks are below
  \<open>2^63\<close>, the limit of an SQLite integer, is accepted.
\<close>

theorem apply_delta_refusals:
  assumes "vault_inv s"
  shows "case s_header s of
      None \<Rightarrow> apply_delta env delta s = (Inl SyncBootstrapRequired, s)
    | Some h \<Rightarrow>
        if vd_vault_id delta \<noteq> vh_vault_id h
        then apply_delta env delta s = (Inl (VaultIdMismatch (vh_vault_id h) (vd_vault_id delta)), s)
        else if vh_last_logical_clock h < vd_from_clock delta
        then apply_delta env delta s = (Inl (DeltaOutOfOrder (vh_last_logical_clock h) (vd_from_clock delta)), s)
        else delta_fits delta \<longrightarrow> (\<exists>rep t. apply_delta env delta s = (Inr rep, t))"
proof (cases "s_header s")
  case None
  then show ?thesis by (simp add: apply_delta_def header_or_def)
next
  case (Some h)
  have "\<exists>rep t. apply_delta env delta s = (Inr rep, t)"
    if "vd_vault_id delta = vh_vault_id h" "vd_from_clock delta \<le> vh_last_logical_clock h" "delta_fits delta"
    using apply_delta_run [OF assms Some that, of env] by blast
  with Some show ?thesis by (auto simp: apply_delta_def header_or_def current_cursor_def not_less)
qed

theorem apply_delta_refusals_witness:
  "apply_delta demo_env (demo_delta\<lparr>vd_vault_id := ''other''\<rparr>) (demo_after 2) = (Inl (VaultIdMismatch ''uuuu'' ''other''), demo_after 2)
   \<and> (\<exists>rep t. apply_delta demo_env demo_delta (demo_after 2) = (Inr rep, t))"
  using apply_delta_refusals [OF demo_after_inv(2), of demo_env "demo_delta\<lparr>vd_vault_id := ''other''\<rparr>"]
    apply_delta_refusals [OF demo_after_inv(2), of demo_env demo_delta] demo_delta_for [of "word_of_nat 2"] demo_delta_fits
  by (auto simp: demo_kv demo_header_def demo_delta_def)

text \<open>
  The condition on the clocks matters: a delta with a new record and a closing clock beyond the limit is
  refused only after the record was written, and the store is left with a record newer than its header.
\<close>

theorem oversized_delta_breaks_invariant:
  assumes "vault_inv s" and "s_header s = Some h" and "vd_vault_id delta = vh_vault_id h"
    and "vd_from_clock delta \<le> vh_last_logical_clock h" and "vd_records delta = [r]"
    and "fits_i64 (dr_logical_clock r)" and "clock_of s < dr_logical_clock r" and "\<not> fits_i64 (vd_to_clock delta)"
  shows "\<exists>e t. apply_delta env delta s = (Inl e, t) \<and> \<not> vault_inv t"
proof -
  from merge_record_refines [OF vault_inv_wf [OF assms(1)] assms(6)] obtain b d where
    m: "merge_record (delta_record_to_synced_record r) (s_conn s) = (Inr b, d)"
      "contents_of d = merge_spec (contents_of (s_conn s)) r" "d = (s_conn s)\<lparr>t_records := t_records d\<rparr>" by blast
  have "\<not> rank r \<le> rank e" if "contents_of (s_conn s) (dr_record_id r) = Some e" for e
    using contents_clock [OF assms(1,2), of e] ranI [of "contents_of (s_conn s)", OF that] assms(7) rank_clock(1) [of r e] by auto
  then have r: "contents_of d (dr_record_id r) = Some r" by (auto simp: m(2) merge_spec_def split: option.split)
  let ?c = "max (max (vh_last_logical_clock h) (vd_to_clock delta)) (dr_logical_clock r)"
  have "\<not> fits_i64 ?c" using assms(8) by (auto simp: fits_i64_def max_def not_less)
  moreover obtain n k where "merge_records (vd_records delta) (max (vh_last_logical_clock h) (vd_to_clock delta)) 0 0 (s_conn s) =
      (Inr (?c, n, k), d)" using m(1) by (simp add: assms(5) and_then_def ok_def)
  ultimately have "apply_delta env delta s = (Inl (Database ToSqlConversionFailure), s\<lparr>s_conn := d, s_tick := Suc (s_tick s)\<rparr>)"
    using assms(2-4)
    by (simp add: apply_delta_def header_or_def current_cursor_def not_less and_then_def on_db_simp set_last_logical_clock_def
        sql_u64_def)
  moreover have "\<not> vault_inv (s\<lparr>s_conn := d, s_tick := Suc (s_tick s)\<rparr>)"
    using contents_clock [of "s\<lparr>s_conn := d, s_tick := Suc (s_tick s)\<rparr>" h r] assms(2,7) ranI [of "contents_of d", OF r]
    by (auto simp: clock_of_def current_cursor_def)
  ultimately show ?thesis by blast
qed

text \<open>
  C10. Bootstrapping from a snapshot: exporting a vault and applying the snapshot to a new file gives
  a replica with the same records, the same header and the same cursor, and the passphrase of the
  original opens it with the same key.
\<close>

theorem snapshot_bootstraps:
  assumes "opens env p k s" and "s_header s = Some h" and "verify_header_integrity h = Inr ()"
    and "export_snapshot s = Inr snap"
    and "vault_inv fresh_store" and "s_header fresh_store = None" and "s_conn fresh_store = empty_db"
  shows "\<exists>t. apply_snapshot snap fresh_store = (Inr (), t)
     \<and> contents_of (s_conn t) = contents_of (s_conn s)
     \<and> s_header t = Some h \<and> current_cursor t = current_cursor s
     \<and> opens env p k t"
proof -
  from assms(1) have inv: "vault_inv s" and rec: "recoverable env p k (view s)" by (auto simp: opens_def)
  from rec obtain b where b: "t_recovery_bundles (s_conn s) = [b]" by (auto simp: recoverable_def view_def)
  obtain row where row: "t_vault_header (s_conn s) = Some row" "vh_vault_id row = vh_vault_id h"
    "vh_last_logical_clock row = vh_last_logical_clock h"
    using vault_inv_header [OF inv assms(2)] by metis
  have wf: "wf_db (s_conn s)" by (rule vault_inv_wf [OF inv])
  have snap: "vs_header snap = h" "vs_recovery_bundle snap = b" "vs_records snap = exported (s_conn s)"
    using export_snapshot_run [OF inv assms(2) b] assms(4) by auto
  have hdr: "snapshot_header snap = h"
    using export_header_kept [OF inv assms(2)] by (simp add: snapshot_header_def snap leD)
  have fits: "fits_i64 (vh_last_logical_clock h)" using wf row by (simp add: wf_db_def)
  let ?t = "bootstrapped snap fresh_store"
  have run: "apply_snapshot snap fresh_store = (Inr (), ?t)"
    using assms(3,6,7) fits by (intro apply_snapshot_run) (simp_all add: hdr snap empty_db_def)
  have cont: "contents_of (s_conn ?t) = contents_of (s_conn s)"
    using contents_bootstrapped [of fresh_store snap] assms(7) exported_contents [OF wf]
    by (simp add: snap empty_db_def)
  have t: "s_header ?t = Some h" "t_vault_header (s_conn ?t) = Some h" "t_recovery_bundles (s_conn ?t) = [b]"
    by (simp_all add: bootstrapped_def put_row_frame put_device_frame hdr snap)
  have "recovery_view ?t = recovery_view s" using t row b by (simp add: recovery_view_def)
  then have "recoverable env p k (view ?t)" using rec recoverable_cong by metis
  moreover have "vault_inv ?t" by (rule keeps_eq [OF keeps_apply_snapshot assms(5) run])
  ultimately have "opens env p k ?t" using t(1) by (simp add: opens_def)
  moreover have "current_cursor ?t = current_cursor s" by (simp add: current_cursor_def t assms(2))
  ultimately show ?thesis using run cont t(1) by blast
qed

theorem snapshot_bootstraps_witness:
  "\<exists>snap t. export_snapshot (demo_after 4) = Inr snap \<and> apply_snapshot snap demo_fresh = (Inr (), t)
     \<and> contents_of (s_conn t) = contents_of (s_conn (demo_after 4))"
proof -
  have b: "\<exists>b. t_recovery_bundles (s_conn (demo_after 4)) = [b]"
    by (simp add: demo_after_def demo_store_def demo_db_def)
  with export_snapshot_run [OF demo_after_inv(4) demo_kv(2)] obtain snap
    where x: "export_snapshot (demo_after 4) = Inr snap" by blast
  have v: "verify_header_integrity (demo_header (word_of_nat 4) (106 + 5 * int 4)) = Inr ()"
    by (simp add: verify_header_integrity_def demo_header_def demo_kdf_def)
  have f: "s_header demo_fresh = None" "s_conn demo_fresh = empty_db" by (simp_all add: demo_fresh_def)
  from snapshot_bootstraps [OF demo_opens [OF demo_after_inv(4)] demo_kv(2) v x demo_fresh_inv f] x
  show ?thesis by blast
qed

text \<open>
  An unlock attempt that fails, for a wrong passphrase, a damaged bundle or an uninitialised
  vault, changes nothing: not the database, not the lock state.
\<close>

theorem failed_unlock_changes_nothing:
  assumes "unlock_with_passphrase env p n s = (Inl e, t)"
  shows "t = s"
  by (cases rule: unlock_with_passphrase_cases [of env p n s]) (use assms in auto)

lemma demo_wrong_passphrase:
  "unlock_with_passphrase demo_env ''wrong'' ''mac'' (demo_after 4) = (Inl DecryptionFailed, demo_after 4)"
  by (simp add: unlock_with_passphrase_def demo_run recovered_key_def load_recovery_bundle_def
      decrypt_recovery_master_key_def)

theorem failed_unlock_changes_nothing_witness:
  "\<exists>e t. unlock_with_passphrase demo_env ''wrong'' ''mac'' (demo_after 4) = (Inl e, t) \<and> t = demo_after 4"
  using failed_unlock_changes_nothing [OF demo_wrong_passphrase] demo_wrong_passphrase by blast

text \<open>
  C11. When the status offers device unlock after an unlock by passphrase, device unlock works: it
  succeeds without the passphrase and recovers the same key.
\<close>

theorem offered_device_unlock_works:
  assumes "unlock_with_passphrase env p n s = (Inr (), t)" and "st_device_unlock_available (status t)"
    and "aead_correct env" and "draws_sized env" and "dev_lawful env"
    and "lock t = (Inr (), l)"
  shows "fst (try_unlock_with_device env l) = Inr True
     \<and> s_master_key (snd (try_unlock_with_device env l)) = s_master_key t"
proof (cases rule: unlock_with_passphrase_cases [of env p n s])
  case (unlocked h b k)
  let ?s = "s\<lparr>s_master_key := Some k, s_last_unlock_method := Some UnlockPassphrase\<rparr>"
  from unlocked(4) assms(1) have t: "refresh_device_enrollment env n ?s = (fst (refresh_device_enrollment env n ?s), t)"
    by (simp add: prod_eq_iff)
  have v: "view t = view ?s" using refresh_view [of env n ?s] t by (metis snd_conv)
  from refresh_available [OF t] unlocked(1,3) assms(2-5) obtain i
    where "device_unlock_key env h t = Inr (KeyFound i k)" by auto
  moreover have l: "l = t\<lparr>s_master_key := None, s_last_unlock_method := None\<rparr>"
    using assms(6) by (simp add: lock_def)
  ultimately have "device_unlock_key env h l = Inr (KeyFound i k)"
    using device_unlock_key_cong [of l t env h] by simp
  moreover have "s_header l = Some h" "s_master_key t = Some k" using v unlocked(1) by (simp_all add: l view_def)
  ultimately show ?thesis using try_unlock_KeyFound [of l h env i k] by simp
qed (use assms(1) in simp)

lemma demo_unlock_again:
  "\<exists>t. unlock_with_passphrase demo_env ''pass'' ''mac'' demo_locked = (Inr (), t) \<and> st_device_unlock_available (status t)"
  by (simp add: demo_locked_def lock_def unlock_with_passphrase_def demo_run recovered_key_def
      load_recovery_bundle_def decrypt_recovery_master_key_def status_def delete_row_def
      DEVICE_STATE_KEY_def DEVICE_UNLOCK_MESSAGE_KEY_def load_device_enrollment_def merge_enrollment_def)

theorem offered_device_unlock_works_witness:
  "\<exists>t l. unlock_with_passphrase demo_env ''pass'' ''mac'' demo_locked = (Inr (), t) \<and> lock t = (Inr (), l)
     \<and> fst (try_unlock_with_device demo_env l) = Inr True"
proof -
  from demo_unlock_again obtain t where t: "unlock_with_passphrase demo_env ''pass'' ''mac'' demo_locked = (Inr (), t)"
    and a: "st_device_unlock_available (status t)" by blast
  obtain l where l: "lock t = (Inr (), l)" by (simp add: lock_def)
  from offered_device_unlock_works [OF t a demo_aead demo_sized demo_dev l] t l show ?thesis by blast
qed

text \<open>
  The precedence of records is a total order: comparing the other way round gives the opposite
  answer, \<open>Equal\<close> means the same record up to its kind and schema version, and it is transitive; so
  replicas never disagree about which of two records wins.
\<close>

theorem precedence_total_order:
  "(compare_record_precedence a b = Greater \<longleftrightarrow> compare_record_precedence b a = Less)
   \<and> (compare_record_precedence a b = Equal \<longleftrightarrow>
        delta_record_of (a\<lparr>er_kind := k, er_version := v\<rparr>) = delta_record_of (b\<lparr>er_kind := k, er_version := v\<rparr>))
   \<and> (is_le (compare_record_precedence a b) \<and> is_le (compare_record_precedence b c) \<longrightarrow>
        is_le (compare_record_precedence a c))"
proof -
  have "compare_record_precedence a b = Equal \<longleftrightarrow> prec a = prec b"
    by (auto simp: compare_prec cmp_def)
  moreover have "prec (r\<lparr>er_kind := k, er_version := v\<rparr>) = prec r" for r :: encrypted_record
    by (simp add: prec_def)
  ultimately show ?thesis by (auto simp: compare_prec delta_of_prec cmp_def is_le_def split: if_splits)
qed

theorem precedence_total_order_witness:
  "is_le (compare_record_precedence (rec_of (demo_row ''c1'' KPasswordCredential 1 111 12 3))
     (rec_of (demo_row ''p1'' KPortForward 4 126 27 5)))"
proof -
  let ?a = "rec_of (demo_row ''c1'' KPasswordCredential 1 111 12 3)"
  let ?b = "rec_of (demo_row ''k1'' KPrivateKey 2 116 17 4)"
  let ?c = "rec_of (demo_row ''p1'' KPortForward 4 126 27 5)"
  have "is_le (compare_record_precedence ?a ?b)" "is_le (compare_record_precedence ?b ?c)"
    by (simp_all add: compare_prec prec_def demo_row_def less_eq_prod_def)
  then show ?thesis using precedence_total_order [where a = ?a and b = ?b and c = ?c] by blast
qed

text \<open>
  A port forward that passes validation names an active host, has non-zero ports, and listens on
  an endpoint (host, direction, port, address up to ASCII case) that no other active forward has.
\<close>

theorem validated_forward_unique:
  assumes "validate_port_forward env p s = Inr ()" and "active_port_forwards env s = Inr forwards"
  shows "pf_listen_port p \<noteq> 0 \<and> pf_target_port p \<noteq> 0
     \<and> (\<exists>h. load_host_profile env (pf_host_id p) s = Inr (Some h))
     \<and> (\<forall>q \<in> set forwards. pf_id q \<noteq> pf_id p \<longrightarrow> \<not> same_endpoint q p)"
  using assms
  by (auto simp: validate_port_forward_def and_then_r_Inr for_each_Inr split: if_splits)

lemma demo_forward_valid: "validate_port_forward demo_env demo_forward (demo_after 4) = Inr ()"
  by (simp add: demo_run)

lemma demo_forwards: "active_port_forwards demo_env (demo_after 4) = Inr [demo_forward]"
  by (simp add: demo_run)

theorem validated_forward_unique_witness:
  "pf_listen_port demo_forward \<noteq> 0
     \<and> (\<exists>h. load_host_profile demo_env (pf_host_id demo_forward) (demo_after 4) = Inr (Some h))"
  using validated_forward_unique [OF demo_forward_valid demo_forwards] by blast

end
