(* ===== verification/Rust_Text.thy ===== *)
theory Rust_Text
  imports Prelude
begin

text \<open>
  More of \<open>str\<close>: trimming twice, \<open>split_whitespace\<close>, \<open>split\<close> at a character and \<open>join\<close>, on strings
  as UTF-8 byte sequences. No whitespace sequence starts inside another character, so matching bytes
  is matching characters.
\<close>

section \<open>trim\<close>

lemma strip_one_None: "strip_one seqs s = None \<longleftrightarrow> (\<forall>w\<in>set seqs. w \<noteq> [] \<longrightarrow> take (length w) s \<noteq> w)"
  by (auto simp: strip_one_def find_None_iff)

lemma strip_one_Nil [simp]: "strip_one seqs [] = None"
  by (auto simp: strip_one_None)

lemma strip_all_None: "strip_one seqs (strip_all seqs s) = None"
proof (induction seqs s rule: strip_all.induct)
  case (1 seqs s)
  then show ?case
    by (cases "strip_one seqs s") (auto simp: strip_all.simps [of seqs s])
qed

lemma strip_all_fixed: "strip_one seqs s = None \<Longrightarrow> strip_all seqs s = s"
  by (simp add: strip_all.simps)

lemma strip_all_suffix: "\<exists>w. s = w @ strip_all seqs s"
proof (induction seqs s rule: strip_all.induct)
  case (1 seqs s)
  show ?case
  proof (cases "strip_one seqs s")
    case None
    then show ?thesis by (simp add: strip_all_fixed)
  next
    case (Some t)
    then obtain n where "t = drop n s" by (auto simp: strip_one_def)
    then have "s = take n s @ t" by simp
    moreover obtain w where "t = w @ strip_all seqs t" using 1 Some by blast
    ultimately show ?thesis using Some by (metis append.assoc strip_all.simps option.simps(5))
  qed
qed

lemma strip_one_prefix:
  assumes "strip_one seqs (p @ q) = None"
  shows "strip_one seqs p = None"
  unfolding strip_one_None
proof (intro ballI impI notI)
  fix w assume w: "w \<in> set seqs" "w \<noteq> []" "take (length w) p = w"
  then have "length w \<le> length p" by (metis nat_le_linear take_all order_refl)
  then have "take (length w) (p @ q) = w" using w(3) by simp
  with assms w show False by (auto simp: strip_one_None)
qed

lemma trim_start_trim: "strip_one whitespace_seqs (trim s) = None"
proof -
  obtain w where w: "rev (trim_start s) = w @ strip_all (map rev whitespace_seqs) (rev (trim_start s))"
    using strip_all_suffix by blast
  then have "trim_start s = trim s @ rev w"
    unfolding trim_def trim_end_def by (metis rev_append rev_rev_ident)
  with strip_all_None [of whitespace_seqs s] show ?thesis
    unfolding trim_start_def by (metis strip_one_prefix)
qed

lemma trim_trim [simp]: "trim (trim s) = trim s"
proof -
  have "trim_start (trim s) = trim s" unfolding trim_start_def by (rule strip_all_fixed [OF trim_start_trim])
  moreover have "trim_end (trim s) = trim s"
    by (simp add: trim_def trim_end_def strip_all_fixed [OF strip_all_None])
  ultimately show ?thesis by (metis trim_def)
qed

lemma trim_Nil [simp]: "trim [] = []"
proof -
  have "strip_all seqs [] = []" for seqs by (rule strip_all_fixed) (auto simp: strip_one_None)
  then show ?thesis by (simp add: trim_def trim_start_def trim_end_def)
qed

section \<open>Splitting and joining\<close>

definition flush :: "string \<Rightarrow> string list" where
  "flush w = (if w = [] then [] else [w])"

function split_ws :: "string \<Rightarrow> string \<Rightarrow> string list" where
  "split_ws w s =
     (case strip_one whitespace_seqs s of
        Some t \<Rightarrow> flush w @ split_ws [] t
      | None \<Rightarrow> (case s of [] \<Rightarrow> flush w | c # s' \<Rightarrow> split_ws (w @ [c]) s'))"
  by pat_completeness auto
termination
  by (relation "measure (\<lambda>(w, s). length s)") (auto dest: strip_one_shorter)

declare split_ws.simps [simp del]

definition split_whitespace :: "string \<Rightarrow> string list" where
  "split_whitespace s = split_ws [] s"

fun split_on :: "char \<Rightarrow> string \<Rightarrow> string list" where
  "split_on d [] = [[]]"
| "split_on d (c # s) = (if c = d then [] # split_on d s else (c # hd (split_on d s)) # tl (split_on d s))"

fun join :: "string \<Rightarrow> string list \<Rightarrow> string" where
  "join sep [] = []"
| "join sep [w] = w"
| "join sep (w # v # ws) = w @ sep @ join sep (v # ws)"

lemma split_on_nonempty [simp]: "split_on d s \<noteq> []"
  by (induction s) auto

lemma split_on_free: "w \<in> set (split_on d s) \<Longrightarrow> d \<notin> set w"
proof (induction s arbitrary: w)
  case (Cons c s)
  have "hd (split_on d s) \<in> set (split_on d s)" "set (tl (split_on d s)) \<subseteq> set (split_on d s)"
    by (auto dest: list.set_sel(2) [rotated])
  with Cons show ?case by (auto split: if_splits)
qed simp

lemma join_split_on: "join [d] (split_on d s) = s"
proof (induction s)
  case (Cons c s)
  then show ?case by (cases "split_on d s" rule: list.exhaust; cases "tl (split_on d s)") auto
qed simp

lemma split_on_append:
  assumes "d \<notin> set w"
  shows "split_on d (w @ d # s) = w # split_on d s"
  using assms by (induction w) auto

lemma split_on_single: "d \<notin> set w \<Longrightarrow> split_on d w = [w]"
  by (induction w) auto

lemma split_on_join:
  assumes "ws \<noteq> []" and "\<And>w. w \<in> set ws \<Longrightarrow> d \<notin> set w"
  shows "split_on d (join [d] ws) = ws"
  using assms by (induction "[d]" ws rule: join.induct) (auto simp: split_on_append split_on_single)

text \<open>A word without whitespace: no whitespace sequence starts at any of its positions.\<close>

definition ws_free :: "string \<Rightarrow> bool" where
  "ws_free w \<longleftrightarrow> (\<forall>u v. w = u @ v \<longrightarrow> strip_one whitespace_seqs v = None)"

text \<open>Whitespace sequences have no visible ASCII character.\<close>

definition visible :: "char \<Rightarrow> bool" where
  "visible c \<longleftrightarrow> 33 \<le> (of_char c :: nat) \<and> (of_char c :: nat) \<le> 126"

lemma whitespace_invisible: "w \<in> set whitespace_seqs \<Longrightarrow> list_all (\<lambda>c. \<not> visible c) w \<and> w \<noteq> []"
proof -
  have "list_all (\<lambda>w. list_all (\<lambda>c. \<not> visible c) w \<and> w \<noteq> []) whitespace_seqs"
    by (simp add: whitespace_seqs_def visible_def)
  then show "w \<in> set whitespace_seqs \<Longrightarrow> list_all (\<lambda>c. \<not> visible c) w \<and> w \<noteq> []" by (simp add: list_all_iff)
qed

lemma strip_one_append_None:
  assumes "strip_one whitespace_seqs v = None" and "\<And>q. q \<in> set whitespace_seqs \<Longrightarrow> \<not> (\<exists>r. q = v @ c # r)"
  shows "strip_one whitespace_seqs (v @ c # s) = None"
  unfolding strip_one_None
proof (intro ballI impI notI)
  fix q assume q: "q \<in> set whitespace_seqs" "q \<noteq> []" "take (length q) (v @ c # s) = q"
  show False
  proof (cases "length q \<le> length v")
    case True
    with q assms(1) show False by (simp add: strip_one_None)
  next
    case False
    then obtain n where "length q = Suc (length v + n)" using less_imp_Suc_add by (metis not_le)
    with q(3) have "q = v @ c # take n s" by simp
    with assms(2) q(1) show False by blast
  qed
qed

lemma ws_free_visible:
  assumes "visible c"
  shows "ws_free (u @ c # v) \<longleftrightarrow> ws_free u \<and> ws_free v"
proof
  assume w: "ws_free (u @ c # v)"
  have "strip_one whitespace_seqs b = None" if "v = a @ b" for a b
    using w that unfolding ws_free_def by (metis append.assoc append_Cons)
  moreover have "strip_one whitespace_seqs b = None" if "u = a @ b" for a b
    using w that unfolding ws_free_def by (metis append.assoc strip_one_prefix)
  ultimately show "ws_free u \<and> ws_free v" by (auto simp: ws_free_def)
next
  assume uv: "ws_free u \<and> ws_free v"
  have no: "\<not> (\<exists>r. q = b @ c # r)" if "q \<in> set whitespace_seqs" for q b
    using whitespace_invisible [OF that] assms by auto
  have "strip_one whitespace_seqs b = None" if "u @ c # v = a @ b" for a b
  proof (cases "length b \<le> length v")
    case True
    have "b = drop (length (u @ c # v) - length b) (u @ c # v)" using that by simp
    with True have "b = drop (length v - length b) v" by (simp add: Suc_diff_le)
    then have "v = take (length v - length b) v @ b" by (metis append_take_drop_id)
    then obtain a' where "v = a' @ b" by blast
    with uv show ?thesis by (auto simp: ws_free_def)
  next
    case False
    moreover have "length a + length b = Suc (length u + length v)" using arg_cong [OF that, of length] by simp
    ultimately have "length a \<le> length u" by simp
    moreover have "b = drop (length a) (u @ c # v)" "a = take (length a) (u @ c # v)" using that by simp_all
    ultimately have "u = a @ drop (length a) u" "b = drop (length a) u @ c # v"
      by (simp_all, metis append_take_drop_id)
    then obtain b' where "u = a @ b'" "b = b' @ c # v" by blast
    with uv no strip_one_append_None [of b' c v] show ?thesis by (auto simp: ws_free_def)
  qed
  then show "ws_free (u @ c # v)" by (auto simp: ws_free_def)
qed

lemma ws_free_Nil [simp]: "ws_free []"
  by (auto simp: ws_free_def strip_one_None)

lemma ws_free_all_visible: "list_all visible w \<Longrightarrow> ws_free w"
  by (induction w) (use ws_free_visible [of _ "[]"] in auto)

lemma ws_free_join:
  assumes "visible d"
  shows "ws_free (join [d] ws) \<longleftrightarrow> (\<forall>w\<in>set ws. ws_free w)"
  using assms by (induction "[d]" ws rule: join.induct) (auto simp: ws_free_visible)

text \<open>The words of a text: not empty, without whitespace; joined by blanks they are found again.\<close>

lemma split_ws_words:
  assumes "\<And>u v. w = u @ v \<Longrightarrow> v \<noteq> [] \<Longrightarrow> strip_one whitespace_seqs (v @ s) = None"
  shows "\<forall>x\<in>set (split_ws w s). x \<noteq> [] \<and> ws_free x"
  using assms
proof (induction w s rule: split_ws.induct)
  case (1 w s)
  have "strip_one whitespace_seqs v = None" if "w = u @ v" for u v
    using 1(3) [OF that] strip_one_prefix by (cases "v = []") auto
  then have w: "\<forall>x\<in>set (flush w). x \<noteq> [] \<and> ws_free x" by (auto simp: flush_def ws_free_def)
  show ?case
  proof (cases "strip_one whitespace_seqs s")
    case None
    show ?thesis
    proof (cases s)
      case Nil
      with w None show ?thesis by (simp add: split_ws.simps [of w])
    next
      case (Cons c t)
      have "strip_one whitespace_seqs (v @ t) = None" if "w @ [c] = u @ v" "v \<noteq> []" for u v
        using that None 1(3) [of u "butlast v"] Cons
        by (cases v rule: rev_cases) (auto, metis append_Nil)
      with 1(1) [OF None Cons] Cons None show ?thesis by (simp add: split_ws.simps [of w])
    qed
  next
    case (Some t)
    with 1(2) [OF Some] w show ?thesis by (auto simp: split_ws.simps [of w])
  qed
qed

lemma split_whitespace_words: "x \<in> set (split_whitespace s) \<Longrightarrow> x \<noteq> [] \<and> ws_free x"
  using split_ws_words [of "[]" s] by (simp add: split_whitespace_def)

lemma blank_alone: "q \<in> set whitespace_seqs \<Longrightarrow> v \<noteq> [] \<Longrightarrow> \<not> (\<exists>r. q = v @ CHR '' '' # r)"
proof -
  have "list_all (\<lambda>q. list_all (\<lambda>c. (of_char c :: nat) \<noteq> 32) (tl q)) whitespace_seqs"
    by (simp add: whitespace_seqs_def)
  moreover have "(of_char (CHR '' '') :: nat) = 32" by simp
  ultimately show "q \<in> set whitespace_seqs \<Longrightarrow> v \<noteq> [] \<Longrightarrow> \<not> (\<exists>r. q = v @ CHR '' '' # r)"
    by (fastforce simp: list_all_iff neq_Nil_conv)
qed

lemma strip_blank: "strip_one whitespace_seqs (CHR '' '' # s) = Some s"
proof -
  have "char_of (of_char (CHR '' '') :: nat) = CHR '' ''" by (rule char_of_char)
  then have "char_of (32 :: nat) = CHR '' ''" by simp
  then have "'' '' \<in> set whitespace_seqs" by (simp add: whitespace_seqs_def)
  then have "strip_one whitespace_seqs (CHR '' '' # s) \<noteq> None"
    by (auto simp: strip_one_None intro!: bexI [of _ "'' ''"])
  then obtain q where f: "find (\<lambda>w. w \<noteq> [] \<and> take (length w) (CHR '' '' # s) = w) whitespace_seqs = Some q"
    unfolding strip_one_def by blast
  then have q: "q \<in> set whitespace_seqs" "take (length q) (CHR '' '' # s) = q" "q \<noteq> []"
    by (auto simp: find_Some_iff)
  have t: "strip_one whitespace_seqs (CHR '' '' # s) = Some (drop (length q) (CHR '' '' # s))"
    by (simp add: strip_one_def f)
  have "list_all (\<lambda>q. (of_char (hd q) :: nat) = 32 \<longrightarrow> length q = 1) whitespace_seqs" by (simp add: whitespace_seqs_def)
  moreover have "hd q = CHR '' ''" using q(2,3) by (metis list.sel(1) take_eq_Nil hd_take length_greater_0_conv)
  ultimately have "length q = 1" using q(1) by (simp add: list_all_iff)
  with t show ?thesis by simp
qed

lemma split_ws_word:
  assumes "ws_free v"
  shows "split_ws w (v @ CHR '' '' # s) = flush (w @ v) @ split_whitespace s"
    and "split_ws w v = flush (w @ v)"
  using assms
proof (induction v arbitrary: w)
  case Nil
  case 1
  show ?case by (simp add: strip_blank split_ws.simps [of w] split_whitespace_def)
  case 2
  show ?case by (simp add: split_ws.simps [of w])
next
  case (Cons c v)
  have free: "ws_free v" if "ws_free (c # v)" using that unfolding ws_free_def by (metis append_Cons)
  have none: "strip_one whitespace_seqs (c # v) = None" if "ws_free (c # v)" using that unfolding ws_free_def by (metis append_Nil)
  case 1
  have "strip_one whitespace_seqs ((c # v) @ CHR '' '' # s) = None"
    using blank_alone by (intro strip_one_append_None none 1) blast+
  with Cons.IH(1) [OF free [OF 1], of "w @ [c]"] show ?case by (simp add: split_ws.simps [of w])
  case 2
  from Cons.IH(2) [OF free [OF 2], of "w @ [c]"] none [OF 2] show ?case by (simp add: split_ws.simps [of w])
qed

lemma split_whitespace_join:
  assumes "\<And>w. w \<in> set ws \<Longrightarrow> w \<noteq> [] \<and> ws_free w"
  shows "split_whitespace (join '' '' ws) = ws"
  using assms
proof (induction "'' ''" ws rule: join.induct)
  case (3 w v ws)
  then show ?case using split_ws_word(1) [of w "[]"] by (simp add: split_whitespace_def flush_def)
next
  case (2 w)
  then show ?case using split_ws_word(2) [of w "[]"] by (simp add: split_whitespace_def flush_def)
next
  case 1
  show ?case by (simp add: split_whitespace_def split_ws.simps flush_def)
qed

end
