(* ===== verification/Config_Keybindings.thy ===== *)
theory Config_Keybindings
  imports Rust_Text
begin

text \<open>
  \<^verbatim>\<open>seance-config/src/keybindings.rs\<close>: the commands a key can be bound to, key chords and their
  syntax, and the migration of the legacy override format when a configuration is read. \<open>macos\<close> says
  whether the program was built for macOS.
\<close>

definition BUILTIN_KEYBINDING_IDS :: "string list" where
  "BUILTIN_KEYBINDING_IDS =
     [''app.open_preferences'',
      ''app.open_command_palette'',
      ''session.new_local'',
      ''session.close_active'',
      ''debug.toggle_perf_hud'',
      ''window.new'',
      ''app.quit'',
      ''app.hide'',
      ''session.select_previous'',
      ''session.select_next'',
      ''session.copy_previous_turn'',
      ''session.select_slot_1'',
      ''session.select_slot_2'',
      ''session.select_slot_3'',
      ''session.select_slot_4'',
      ''session.select_slot_5'',
      ''session.select_slot_6'',
      ''session.select_slot_7'',
      ''session.select_slot_8'',
      ''session.select_slot_9'',
      ''session.select_slot_10'']"

definition SUPPORTED_KEYBINDING_COMMANDS :: "string list" where
  "SUPPORTED_KEYBINDING_COMMANDS = BUILTIN_KEYBINDING_IDS"

datatype keybinding_context =
    AppGlobal | WorkspaceTerminal | WorkspaceSettings | WorkspaceSecure | WorkspaceSftp
  | Palette | VaultModal | ConfirmDialog

fun display_name :: "keybinding_context \<Rightarrow> string" where
  "display_name AppGlobal = ''App Global''"
| "display_name WorkspaceTerminal = ''Terminal Workspace''"
| "display_name WorkspaceSettings = ''Settings''"
| "display_name WorkspaceSecure = ''Secure Workspace''"
| "display_name WorkspaceSftp = ''SFTP''"
| "display_name Palette = ''Command Palette''"
| "display_name VaultModal = ''Vault Modal''"
| "display_name ConfirmDialog = ''Confirm Dialog''"

record keybinding_override =
  ko_id :: string
  ko_chord :: "string option"
  ko_disabled :: bool

record custom_keybinding =
  ck_chord :: string
  ck_command :: string
  ck_context :: keybinding_context

record keybindings_config =
  kb_overrides :: "keybinding_override list"
  kb_custom :: "custom_keybinding list"

definition is_builtin_keybinding_id :: "string \<Rightarrow> bool" where
  "is_builtin_keybinding_id i \<longleftrightarrow> i \<in> set BUILTIN_KEYBINDING_IDS"

definition is_supported_keybinding_command :: "string \<Rightarrow> bool" where
  "is_supported_keybinding_command c \<longleftrightarrow> c \<in> set SUPPORTED_KEYBINDING_COMMANDS"

definition command_default_context :: "string \<Rightarrow> keybinding_context" where
  "command_default_context command =
     (if command \<in> set
       [''session.select_previous'',
        ''session.select_next'',
        ''session.copy_previous_turn'',
        ''session.select_slot_1'',
        ''session.select_slot_2'',
        ''session.select_slot_3'',
        ''session.select_slot_4'',
        ''session.select_slot_5'',
        ''session.select_slot_6'',
        ''session.select_slot_7'',
        ''session.select_slot_8'',
        ''session.select_slot_9'',
        ''session.select_slot_10'']
      then WorkspaceTerminal else AppGlobal)"

definition legacy_action_to_command :: "string \<Rightarrow> string option" where
  "legacy_action_to_command action =
     (if action = ''seance_ui_app::OpenPreferences'' then Some ''app.open_preferences''
      else if action = ''seance_ui_app::OpenCommandPalette'' then Some ''app.open_command_palette''
      else if action = ''seance_ui_app::NewTerminal'' then Some ''session.new_local''
      else if action = ''seance_ui_app::CloseActiveSession'' then Some ''session.close_active''
      else if action = ''seance_ui_app::TogglePerfHud'' then Some ''debug.toggle_perf_hud''
      else if action = ''seance_ui_app::OpenNewWindow'' then Some ''window.new''
      else if action = ''seance_ui_app::QuitSeance'' then Some ''app.quit''
      else if action = ''seance_ui_app::HideSeance'' then Some ''app.hide''
      else None)"

section \<open>Reading keybindings\<close>

datatype wire_override = Modern keybinding_override | Legacy string string

record wire_keybindings_config =
  wk_overrides :: "wire_override list"
  wk_custom :: "custom_keybinding list"

fun read_override :: "wire_override \<Rightarrow> keybindings_config \<Rightarrow> string + keybindings_config" where
  "read_override (Modern binding) config = Inr (config\<lparr>kb_overrides := kb_overrides config @ [binding]\<rparr>)"
| "read_override (Legacy chord action) config =
     (case legacy_action_to_command action of
        None \<Rightarrow> Inl (''unsupported legacy keybinding action '' @ [CHR 39] @ action @ [CHR 39])
      | Some command \<Rightarrow>
          Inr (config\<lparr>kb_custom := kb_custom config @
            [\<lparr>ck_chord = chord, ck_command = command, ck_context = command_default_context command\<rparr>]\<rparr>))"

fun read_overrides :: "wire_override list \<Rightarrow> keybindings_config \<Rightarrow> string + keybindings_config" where
  "read_overrides [] config = Inr config"
| "read_overrides (w # ws) config = and_then_r (read_override w config) (read_overrides ws)"

definition deserialize_keybindings :: "wire_keybindings_config \<Rightarrow> string + keybindings_config" where
  "deserialize_keybindings wire =
     read_overrides (wk_overrides wire) \<lparr>kb_overrides = [], kb_custom = wk_custom wire\<rparr>"

section \<open>Chords\<close>

definition primary_modifier_name :: "bool \<Rightarrow> string" where
  "primary_modifier_name macos = (if macos then ''cmd'' else ''super'')"

definition normalize_component :: "bool \<Rightarrow> string \<Rightarrow> string" where
  "normalize_component macos component =
     (if eq_ignore_ascii_case component ''primary'' then primary_modifier_name macos else component)"

definition normalize_keystroke_for_platform :: "bool \<Rightarrow> string \<Rightarrow> string" where
  "normalize_keystroke_for_platform macos keystroke =
     join ''-'' (map (normalize_component macos) (split_on (CHR ''-'') keystroke))"

definition normalize_chord_for_platform :: "bool \<Rightarrow> string \<Rightarrow> string" where
  "normalize_chord_for_platform macos chord =
     join '' '' (map (normalize_keystroke_for_platform macos) (split_whitespace chord))"

definition is_modifier_component :: "string \<Rightarrow> bool" where
  "is_modifier_component component \<longleftrightarrow>
     map to_ascii_lower component \<in>
       set [''ctrl'', ''alt'', ''shift'', ''fn'', ''cmd'', ''super'', ''win'', ''secondary'']"

definition is_valid_key_component :: "string \<Rightarrow> bool" where
  "is_valid_key_component component \<longleftrightarrow> trim component \<noteq> []"

text \<open>The loop of \<open>validate_keystroke\<close> over the components, with \<open>saw_key\<close>.\<close>

fun keystroke_loop :: "string list \<Rightarrow> bool \<Rightarrow> bool" where
  "keystroke_loop [] saw_key = saw_key"
| "keystroke_loop [c] saw_key = (if c = [] then False else is_valid_key_component c)"
| "keystroke_loop (c # d # cs) saw_key =
     (if c = [] then False else if \<not> is_modifier_component c then False else keystroke_loop (d # cs) saw_key)"

definition validate_keystroke :: "string \<Rightarrow> bool" where
  "validate_keystroke keystroke = keystroke_loop (split_on (CHR ''-'') keystroke) False"

definition validate_chord_syntax :: "bool \<Rightarrow> string \<Rightarrow> bool" where
  "validate_chord_syntax macos chord =
     (let strokes = split_whitespace (normalize_chord_for_platform macos chord)
      in strokes \<noteq> [] \<and> list_all validate_keystroke strokes)"

section \<open>Facts\<close>

lemma keystroke_loop_iff:
  assumes "cs \<noteq> []"
  shows "keystroke_loop cs saw \<longleftrightarrow> (\<forall>c\<in>set (butlast cs). is_modifier_component c) \<and> is_valid_key_component (last cs)"
  using assms
proof (induction cs saw rule: keystroke_loop.induct)
  case (3 c d cs saw)
  have "\<not> is_modifier_component []" by (simp add: is_modifier_component_def)
  with 3 show ?case by auto
qed (auto simp: is_valid_key_component_def)

lemma normalize_component_facts:
  "ws_free c \<Longrightarrow> ws_free (normalize_component macos c)"
  "CHR ''-'' \<notin> set c \<Longrightarrow> CHR ''-'' \<notin> set (normalize_component macos c)"
  "normalize_component macos (normalize_component macos' c) = normalize_component macos' c"
  by (auto simp: normalize_component_def primary_modifier_name_def eq_ignore_ascii_case_def to_ascii_lower_def visible_def
      intro!: ws_free_all_visible)

lemma split_normalized_keystroke:
  "split_on (CHR ''-'') (normalize_keystroke_for_platform macos k) = map (normalize_component macos) (split_on (CHR ''-'') k)"
  unfolding normalize_keystroke_for_platform_def
  by (intro split_on_join) (simp, metis (no_types) imageE list.set_map normalize_component_facts(2) split_on_free)

lemma normalize_keystroke_word:
  assumes "k \<noteq> []" and "ws_free k"
  shows "normalize_keystroke_for_platform macos k \<noteq> [] \<and> ws_free (normalize_keystroke_for_platform macos k)"
proof -
  have v: "visible (CHR ''-'')" by (simp add: visible_def)
  have "ws_free (join ''-'' (split_on (CHR ''-'') k))" using assms by (simp add: join_split_on)
  then have "\<forall>c\<in>set (split_on (CHR ''-'') k). ws_free c" by (simp add: ws_free_join [OF v])
  then have "ws_free (normalize_keystroke_for_platform macos k)"
    unfolding normalize_keystroke_for_platform_def ws_free_join [OF v] by (auto intro: normalize_component_facts)
  moreover have "normalize_keystroke_for_platform macos k \<noteq> []"
  proof
    assume n: "normalize_keystroke_for_platform macos k = []"
    from split_normalized_keystroke [of macos k] n obtain c where "split_on (CHR ''-'') k = [c]" "normalize_component macos c = []"
      by auto
    then have "split_on (CHR ''-'') k = [[]]"
      by (auto simp: normalize_component_def primary_modifier_name_def split: if_splits)
    then have "k = []" using join_split_on [of "CHR ''-''" k] by simp
    with assms(1) show False by simp
  qed
  ultimately show ?thesis by blast
qed

lemma split_normalized_chord:
  "split_whitespace (normalize_chord_for_platform macos chord) =
     map (normalize_keystroke_for_platform macos) (split_whitespace chord)"
  unfolding normalize_chord_for_platform_def
  using normalize_keystroke_word split_whitespace_words by (intro split_whitespace_join) auto

lemma ws_free_trim: "ws_free c \<Longrightarrow> trim c = c"
proof -
  assume c: "ws_free c"
  have "strip_one whitespace_seqs c = None" using c unfolding ws_free_def by (metis append_Nil)
  moreover have "strip_one (map rev whitespace_seqs) (rev c) = None"
    unfolding strip_one_None
  proof (intro ballI impI notI)
    fix r assume r: "r \<in> set (map rev whitespace_seqs)" "r \<noteq> []" "take (length r) (rev c) = r"
    then obtain q where q: "r = rev q" "q \<in> set whitespace_seqs" by auto
    have "rev c = r @ drop (length r) (rev c)" using r(3) by (metis append_take_drop_id)
    then have "c = rev (drop (length r) (rev c)) @ q" using q(1) by (metis rev_append rev_rev_ident)
    with c have "strip_one whitespace_seqs q = None" unfolding ws_free_def by blast
    with q r(2) show False by (auto simp: strip_one_None)
  qed
  ultimately show ?thesis
    by (simp add: trim_def trim_start_def trim_end_def strip_all_fixed)
qed

text \<open>A keystroke as it is meant: modifiers, or the word primary, before a key.\<close>

definition keystroke_ok :: "string \<Rightarrow> bool" where
  "keystroke_ok k \<longleftrightarrow>
     (let cs = split_on (CHR ''-'') k in
      list_all (\<lambda>c. is_modifier_component c \<or> eq_ignore_ascii_case c ''primary'') (butlast cs) \<and> last cs \<noteq> [])"

lemma modifier_normalized:
  "is_modifier_component (normalize_component macos c) \<longleftrightarrow> is_modifier_component c \<or> eq_ignore_ascii_case c ''primary''"
  by (auto simp: normalize_component_def primary_modifier_name_def is_modifier_component_def to_ascii_lower_def)

lemma validate_normalized_keystroke:
  assumes "ws_free k"
  shows "validate_keystroke (normalize_keystroke_for_platform macos k) \<longleftrightarrow> keystroke_ok k"
proof -
  let ?cs = "split_on (CHR ''-'') k"
  have "ws_free (join ''-'' ?cs)" using assms by (simp add: join_split_on)
  then have "ws_free (last ?cs)" by (simp add: ws_free_join visible_def)
  then have "is_valid_key_component (normalize_component macos (last ?cs)) \<longleftrightarrow> normalize_component macos (last ?cs) \<noteq> []"
    by (simp add: is_valid_key_component_def ws_free_trim normalize_component_facts)
  also have "\<dots> \<longleftrightarrow> last ?cs \<noteq> []"
    by (auto simp: normalize_component_def primary_modifier_name_def eq_ignore_ascii_case_def)
  finally show ?thesis
    by (simp add: validate_keystroke_def split_normalized_keystroke keystroke_loop_iff keystroke_ok_def Let_def last_map
        map_butlast [symmetric] modifier_normalized list_all_iff)
qed

lemma chord_accepted:
  "validate_chord_syntax macos chord \<longleftrightarrow> split_whitespace chord \<noteq> [] \<and> list_all keystroke_ok (split_whitespace chord)"
  by (auto simp: validate_chord_syntax_def Let_def split_normalized_chord list_all_iff
      dest: split_whitespace_words validate_normalized_keystroke)

section \<open>Properties\<close>

text \<open>
  C34. A chord is accepted exactly when it has a keystroke and every keystroke is a sequence of known
  modifiers (or the word primary, in any case) followed by a key, on every platform alike; and
  normalising a chord for a platform twice changes nothing.
\<close>

theorem chord_syntax_exact:
  "(validate_chord_syntax macos chord \<longleftrightarrow> split_whitespace chord \<noteq> [] \<and> list_all keystroke_ok (split_whitespace chord))
   \<and> normalize_chord_for_platform macos (normalize_chord_for_platform macos' chord) = normalize_chord_for_platform macos' chord"
proof
  show "validate_chord_syntax macos chord \<longleftrightarrow> split_whitespace chord \<noteq> [] \<and> list_all keystroke_ok (split_whitespace chord)"
    by (rule chord_accepted)
  have "normalize_keystroke_for_platform macos (normalize_keystroke_for_platform macos' k) = normalize_keystroke_for_platform macos' k" for k
    unfolding normalize_keystroke_for_platform_def [of macos] split_normalized_keystroke
    by (simp add: comp_def normalize_component_facts(3)) (simp add: normalize_keystroke_for_platform_def)
  then show "normalize_chord_for_platform macos (normalize_chord_for_platform macos' chord) = normalize_chord_for_platform macos' chord"
    unfolding normalize_chord_for_platform_def [of macos] split_normalized_chord
    by (simp add: comp_def) (simp add: normalize_chord_for_platform_def)
qed

text \<open>What the overrides of a file become: the modern ones stay, the legacy ones are custom bindings.\<close>

fun modern_of :: "wire_override \<Rightarrow> keybinding_override list" where
  "modern_of (Modern binding) = [binding]"
| "modern_of (Legacy _ _) = []"

fun migrated_of :: "wire_override \<Rightarrow> custom_keybinding list" where
  "migrated_of (Modern _) = []"
| "migrated_of (Legacy chord action) =
     [\<lparr>ck_chord = chord, ck_command = the (legacy_action_to_command action),
       ck_context = command_default_context (the (legacy_action_to_command action))\<rparr>]"

definition readable :: "wire_override \<Rightarrow> bool" where
  "readable w \<longleftrightarrow> (\<forall>chord action. w = Legacy chord action \<longrightarrow> legacy_action_to_command action \<noteq> None)"

lemma read_overrides_run:
  "read_overrides ws config = Inr c \<longleftrightarrow> list_all readable ws
     \<and> c = config\<lparr>kb_overrides := kb_overrides config @ concat (map modern_of ws),
                  kb_custom := kb_custom config @ concat (map migrated_of ws)\<rparr>"
proof (induction ws arbitrary: config)
  case (Cons w ws)
  then show ?case
    by (cases w) (auto simp: readable_def split: option.split)
qed auto

lemma legacy_supported: "legacy_action_to_command a = Some c \<Longrightarrow> is_supported_keybinding_command c"
  by (auto simp: legacy_action_to_command_def is_supported_keybinding_command_def
      SUPPORTED_KEYBINDING_COMMANDS_def BUILTIN_KEYBINDING_IDS_def split: if_splits)

text \<open>
  Reading the keybindings of a configuration keeps the overrides in order, appends the legacy ones
  as custom bindings to supported commands, and fails exactly when a legacy action is unknown.
\<close>

theorem legacy_keybindings_migrated:
  "(\<forall>c. deserialize_keybindings wire = Inr c \<longleftrightarrow> list_all readable (wk_overrides wire)
      \<and> c = \<lparr>kb_overrides = concat (map modern_of (wk_overrides wire)),
             kb_custom = wk_custom wire @ concat (map migrated_of (wk_overrides wire))\<rparr>)
   \<and> (list_all readable (wk_overrides wire) \<longrightarrow>
        list_all (\<lambda>b. is_supported_keybinding_command (ck_command b)) (concat (map migrated_of (wk_overrides wire))))"
proof -
  have "list_all readable ws \<Longrightarrow>
      list_all (\<lambda>b. is_supported_keybinding_command (ck_command b)) (concat (map migrated_of ws))" for ws
  proof (induction ws)
    case (Cons w ws)
    then show ?case using legacy_supported by (cases w) (auto simp: readable_def)
  qed simp
  then show ?thesis by (simp add: deserialize_keybindings_def read_overrides_run)
qed

theorem legacy_keybindings_migrated_witness:
  "list_all (\<lambda>b. is_supported_keybinding_command (ck_command b))
     (concat (map migrated_of [Legacy ''cmd-q'' ''seance_ui_app::QuitSeance'']))"
  using legacy_keybindings_migrated [of "\<lparr>wk_overrides = [Legacy ''cmd-q'' ''seance_ui_app::QuitSeance''], wk_custom = []\<rparr>"]
  by (simp add: readable_def legacy_action_to_command_def)

end
