(* ===== verification/Config.thy ===== *)
theory Config
  imports Config_Keybindings Complex_Main Machines
begin

text \<open>
  The configuration of \<^verbatim>\<open>seance-config\<close>: its sections and defaults, normalisation, validation, and
  the store that keeps the last good configuration in memory and in a file. The TOML encoding and the
  steps of writing a file are parameters; \<open>lower\<close> is \<open>str::to_lowercase\<close>.
\<close>

section \<open>Data\<close>

text \<open>An \<open>f32\<close>, as far as comparisons with finite bounds see it.\<close>

datatype f32 = Fin rat | PosInf | NegInf | NaN

fun f32_le :: "f32 \<Rightarrow> f32 \<Rightarrow> bool" where
  "f32_le NaN _ = False"
| "f32_le _ NaN = False"
| "f32_le NegInf _ = True"
| "f32_le _ PosInf = True"
| "f32_le (Fin a) (Fin b) = (a \<le> b)"
| "f32_le _ _ = False"

record vault_registry_entry =
  ve_id :: string
  ve_name :: string
  ve_db_file :: string
  ve_created_at :: i64
  ve_updated_at :: i64

record vault_registry_config =
  vr_entries :: "vault_registry_entry list"
  vr_open_vault_ids :: "string list"
  vr_default_target_vault_id :: "string option"

record appearance_config =
  ac_theme :: string

record window_config =
  wc_keep_running_without_windows :: bool
  wc_hide_on_last_window_close :: bool
  wc_keep_sessions_alive_without_windows :: bool

datatype mouse_tracking_scroll_policy = ScrollAlwaysAppFirst | ScrollHybridShiftWheelLocal | ScrollAlwaysLocal

datatype mouse_tracking_selection_policy = SelectionDisabled | SelectionShiftDragLocal | SelectionAlwaysLocal

datatype terminal_right_click_policy = CopySelectionOrPaste | PasteClipboard | RightClickDisabled

record terminal_interaction_config =
  ti_mouse_tracking_scroll :: mouse_tracking_scroll_policy
  ti_mouse_tracking_selection :: mouse_tracking_selection_policy
  ti_right_click :: terminal_right_click_policy

record terminal_config =
  tc_local_shell :: "string option"
  tc_font_family :: string
  tc_font_size_px :: f32
  tc_line_height_px :: f32
  tc_interaction :: terminal_interaction_config

datatype perf_hud_default = HudOff | HudCompact | HudExpanded

datatype update_install_mode = Prompted

datatype update_release_channel = Stable

record update_config_section =
  uc_auto_check :: bool
  uc_install_mode :: update_install_mode
  uc_channel :: update_release_channel

record logging_config =
  lc_session_transcript_enabled :: bool
  lc_session_transcript_retention_days :: u16
  lc_session_transcript_max_bytes_per_session :: u64

record debug_config =
  dc_perf_hud_default :: perf_hud_default

record app_config =
  cfg_appearance :: appearance_config
  cfg_vaults :: vault_registry_config
  cfg_window :: window_config
  cfg_terminal :: terminal_config
  cfg_logging :: logging_config
  cfg_updates :: update_config_section
  cfg_debug :: debug_config
  cfg_keybindings :: keybindings_config

section \<open>Defaults\<close>

definition DEFAULT_THEME_KEY :: string where
  "DEFAULT_THEME_KEY = ''obsidian-smoke''"

definition SUPPORTED_THEME_KEYS :: "string list" where
  "SUPPORTED_THEME_KEYS =
     [''obsidian-smoke'', ''midnight-frost'', ''bone'', ''phosphor'', ''tokyo-night'',
      ''catppuccin-mocha'', ''rose-pine'', ''dracula'', ''nord'', ''solarized-dark'']"

definition default_theme :: string where
  "default_theme = DEFAULT_THEME_KEY"

definition default_terminal_font_family :: string where
  "default_terminal_font_family = ''Menlo''"

definition default_terminal_font_size_px :: f32 where
  "default_terminal_font_size_px = Fin 13"

definition default_terminal_line_height_px :: f32 where
  "default_terminal_line_height_px = Fin 19"

definition default_logging_retention_days :: u16 where
  "default_logging_retention_days = 7"

definition default_logging_max_bytes_per_session :: u64 where
  "default_logging_max_bytes_per_session = 64 * 1024 * 1024"

definition default_appearance_config :: appearance_config where
  "default_appearance_config = \<lparr>ac_theme = default_theme\<rparr>"

definition default_window_config :: window_config where
  "default_window_config =
     \<lparr>wc_keep_running_without_windows = True, wc_hide_on_last_window_close = True,
      wc_keep_sessions_alive_without_windows = True\<rparr>"

definition default_terminal_interaction_config :: terminal_interaction_config where
  "default_terminal_interaction_config =
     \<lparr>ti_mouse_tracking_scroll = ScrollHybridShiftWheelLocal,
      ti_mouse_tracking_selection = SelectionShiftDragLocal,
      ti_right_click = CopySelectionOrPaste\<rparr>"

definition default_terminal_config :: terminal_config where
  "default_terminal_config =
     \<lparr>tc_local_shell = None, tc_font_family = default_terminal_font_family,
      tc_font_size_px = default_terminal_font_size_px, tc_line_height_px = default_terminal_line_height_px,
      tc_interaction = default_terminal_interaction_config\<rparr>"

definition default_update_config :: update_config_section where
  "default_update_config = \<lparr>uc_auto_check = True, uc_install_mode = Prompted, uc_channel = Stable\<rparr>"

definition default_logging_config :: logging_config where
  "default_logging_config =
     \<lparr>lc_session_transcript_enabled = False,
      lc_session_transcript_retention_days = default_logging_retention_days,
      lc_session_transcript_max_bytes_per_session = default_logging_max_bytes_per_session\<rparr>"

definition default_app_config :: app_config where
  "default_app_config =
     \<lparr>cfg_appearance = default_appearance_config,
      cfg_vaults = \<lparr>vr_entries = [], vr_open_vault_ids = [], vr_default_target_vault_id = None\<rparr>,
      cfg_window = default_window_config,
      cfg_terminal = default_terminal_config,
      cfg_logging = default_logging_config,
      cfg_updates = default_update_config,
      cfg_debug = \<lparr>dc_perf_hud_default = HudOff\<rparr>,
      cfg_keybindings = \<lparr>kb_overrides = [], kb_custom = []\<rparr>\<rparr>"

section \<open>Normalisation\<close>

definition trim_opt :: "string option \<Rightarrow> string option" where
  "trim_opt x = Option.bind x (\<lambda>v. if trim v = [] then None else Some (trim v))"

definition normalize_entry :: "vault_registry_entry \<Rightarrow> vault_registry_entry" where
  "normalize_entry e = e\<lparr>ve_id := trim (ve_id e), ve_name := trim (ve_name e), ve_db_file := trim (ve_db_file e)\<rparr>"

definition normalize_override :: "keybinding_override \<Rightarrow> keybinding_override" where
  "normalize_override b = b\<lparr>ko_id := trim (ko_id b), ko_chord := trim_opt (ko_chord b)\<rparr>"

definition normalize_custom :: "custom_keybinding \<Rightarrow> custom_keybinding" where
  "normalize_custom b = b\<lparr>ck_chord := trim (ck_chord b), ck_command := trim (ck_command b)\<rparr>"

definition normalized :: "app_config \<Rightarrow> app_config" where
  "normalized c =
     (let v = cfg_vaults c; t = cfg_terminal c; k = cfg_keybindings c in
      c\<lparr>cfg_appearance := (cfg_appearance c)\<lparr>ac_theme := trim (ac_theme (cfg_appearance c))\<rparr>,
        cfg_vaults := v\<lparr>vr_entries := map normalize_entry (vr_entries v),
          vr_open_vault_ids := filter (\<lambda>i. i \<noteq> []) (map trim (vr_open_vault_ids v)),
          vr_default_target_vault_id := trim_opt (vr_default_target_vault_id v)\<rparr>,
        cfg_terminal := t\<lparr>tc_font_family := trim (tc_font_family t), tc_local_shell := trim_opt (tc_local_shell t)\<rparr>,
        cfg_keybindings := k\<lparr>kb_overrides := map normalize_override (kb_overrides k),
          kb_custom := map normalize_custom (kb_custom k)\<rparr>\<rparr>)"

lemma trim_opt_trim_opt [simp]: "trim_opt (trim_opt x) = trim_opt x"
  by (cases x) (auto simp: trim_opt_def)

lemma normalize_parts [simp]:
  "normalize_entry (normalize_entry e) = normalize_entry e"
  "normalize_override (normalize_override b) = normalize_override b"
  "normalize_custom (normalize_custom k) = normalize_custom k"
  by (simp_all add: normalize_entry_def normalize_override_def normalize_custom_def)

lemma trimmed_ids [simp]:
  "filter (\<lambda>i. i \<noteq> []) (map trim (filter (\<lambda>i. i \<noteq> []) (map trim ids))) = filter (\<lambda>i. i \<noteq> []) (map trim ids)"
  by (induction ids) auto

lemma normalized_normalized: "normalized (normalized c) = normalized c"
  by (simp add: normalized_def Let_def comp_def)

section \<open>Validation\<close>

datatype config_error =
    ConfigRead string
  | ConfigWrite string
  | ConfigSerialize string
  | ConfigParse string
  | InvalidTheme string
  | EmptyField string
  | OutOfRange string f32 f32 f32
  | OutOfRangeInt string u64 u64 u64
  | UnknownKeybindingId string
  | UnknownKeybindingCommand string
  | InvalidKeybindingChord string
  | InvalidKeybindingOverride string
  | DuplicateKeybindingOverrideId string
  | DuplicateCustomKeybinding string string string
  | DuplicateVaultId string
  | DuplicateVaultName string
  | DuplicateVaultDbFile string
  | UnknownOpenVaultId string
  | UnknownDefaultVaultId string

definition in_f32_range :: "f32 \<Rightarrow> f32 \<Rightarrow> f32 \<Rightarrow> bool" where
  "in_f32_range lo hi x \<longleftrightarrow> f32_le lo x \<and> f32_le x hi"

definition check :: "bool \<Rightarrow> 'e \<Rightarrow> 'e + unit" where
  "check b e = (if b then Inr () else Inl e)"

fun context_debug :: "keybinding_context \<Rightarrow> string" where
  "context_debug AppGlobal = ''AppGlobal''"
| "context_debug WorkspaceTerminal = ''WorkspaceTerminal''"
| "context_debug WorkspaceSettings = ''WorkspaceSettings''"
| "context_debug WorkspaceSecure = ''WorkspaceSecure''"
| "context_debug WorkspaceSftp = ''WorkspaceSftp''"
| "context_debug Palette = ''Palette''"
| "context_debug VaultModal = ''VaultModal''"
| "context_debug ConfirmDialog = ''ConfirmDialog''"

definition validate_override :: "bool \<Rightarrow> keybinding_override \<Rightarrow> config_error + unit" where
  "validate_override macos binding =
     (case (ko_disabled binding, ko_chord binding) of
        (True, Some _) \<Rightarrow> Inl (InvalidKeybindingOverride (ko_id binding))
      | (True, None) \<Rightarrow> Inr ()
      | (False, None) \<Rightarrow> Inl (InvalidKeybindingOverride (ko_id binding))
      | (False, Some chord) \<Rightarrow> check (validate_chord_syntax macos chord) (InvalidKeybindingChord chord))"

fun validate_overrides :: "bool \<Rightarrow> string list \<Rightarrow> keybinding_override list \<Rightarrow> config_error + unit" where
  "validate_overrides macos seen [] = Inr ()"
| "validate_overrides macos seen (b # bs) =
     (let i = trim (ko_id b) in
      and_then_r (check (i \<noteq> []) (EmptyField ''keybindings.overrides.id'')) (\<lambda>_.
      and_then_r (check (is_builtin_keybinding_id i) (UnknownKeybindingId i)) (\<lambda>_.
      and_then_r (validate_override macos b) (\<lambda>_.
      and_then_r (check (i \<notin> set seen) (DuplicateKeybindingOverrideId i)) (\<lambda>_.
        validate_overrides macos (i # seen) bs)))))"

fun validate_custom :: "bool \<Rightarrow> (string \<times> string \<times> string) list \<Rightarrow> custom_keybinding list \<Rightarrow> config_error + unit" where
  "validate_custom macos seen [] = Inr ()"
| "validate_custom macos seen (b # bs) =
     (let chord = trim (ck_chord b); command = trim (ck_command b);
          key = (chord, command, context_debug (ck_context b)) in
      and_then_r (check (chord \<noteq> []) (EmptyField ''keybindings.custom.chord'')) (\<lambda>_.
      and_then_r (check (command \<noteq> []) (EmptyField ''keybindings.custom.command'')) (\<lambda>_.
      and_then_r (check (validate_chord_syntax macos chord) (InvalidKeybindingChord chord)) (\<lambda>_.
      and_then_r (check (is_supported_keybinding_command command) (UnknownKeybindingCommand command)) (\<lambda>_.
      and_then_r (check (key \<notin> set seen)
        (DuplicateCustomKeybinding chord command (context_debug (ck_context b)))) (\<lambda>_.
        validate_custom macos (key # seen) bs))))))"

text \<open>The entries, with the ids, lowered names and database files seen so far.\<close>

fun validate_entries ::
  "(string \<Rightarrow> string) \<Rightarrow> string list \<Rightarrow> string list \<Rightarrow> string list \<Rightarrow> vault_registry_entry list \<Rightarrow> config_error + unit" where
  "validate_entries lower ids names files [] = Inr ()"
| "validate_entries lower ids names files (e # es) =
     and_then_r (check (ve_id e \<noteq> []) (EmptyField ''vaults.entries.id'')) (\<lambda>_.
     and_then_r (check (ve_name e \<noteq> []) (EmptyField ''vaults.entries.name'')) (\<lambda>_.
     and_then_r (check (ve_db_file e \<noteq> []) (EmptyField ''vaults.entries.db_file'')) (\<lambda>_.
     and_then_r (check (ve_id e \<notin> set ids) (DuplicateVaultId (ve_id e))) (\<lambda>_.
     and_then_r (check (lower (ve_name e) \<notin> set names) (DuplicateVaultName (ve_name e))) (\<lambda>_.
     and_then_r (check (ve_db_file e \<notin> set files) (DuplicateVaultDbFile (ve_db_file e))) (\<lambda>_.
       validate_entries lower (ve_id e # ids) (lower (ve_name e) # names) (ve_db_file e # files) es))))))"

definition validate_vaults :: "(string \<Rightarrow> string) \<Rightarrow> vault_registry_config \<Rightarrow> config_error + unit" where
  "validate_vaults lower v =
     and_then_r (validate_entries lower [] [] [] (vr_entries v)) (\<lambda>_.
     and_then_r (for_each (\<lambda>i. check (i \<in> ve_id ` set (vr_entries v)) (UnknownOpenVaultId i)) (vr_open_vault_ids v)) (\<lambda>_.
       case vr_default_target_vault_id v of
         None \<Rightarrow> Inr ()
       | Some i \<Rightarrow> check (i \<in> ve_id ` set (vr_entries v)) (UnknownDefaultVaultId i)))"

definition validate :: "(string \<Rightarrow> string) \<Rightarrow> bool \<Rightarrow> app_config \<Rightarrow> config_error + unit" where
  "validate lower macos c =
     (let t = cfg_terminal c; l = cfg_logging c in
      and_then_r (check (ac_theme (cfg_appearance c) \<in> set SUPPORTED_THEME_KEYS)
        (InvalidTheme (ac_theme (cfg_appearance c)))) (\<lambda>_.
      and_then_r (check (trim (tc_font_family t) \<noteq> []) (EmptyField ''terminal.font_family'')) (\<lambda>_.
      and_then_r (check (in_f32_range (Fin 8) (Fin 32) (tc_font_size_px t))
        (OutOfRange ''terminal.font_size_px'' (tc_font_size_px t) (Fin 8) (Fin 32))) (\<lambda>_.
      and_then_r (check (in_f32_range (Fin 10) (Fin 40) (tc_line_height_px t))
        (OutOfRange ''terminal.line_height_px'' (tc_line_height_px t) (Fin 10) (Fin 40))) (\<lambda>_.
      and_then_r (check (case tc_local_shell t of None \<Rightarrow> True | Some shell \<Rightarrow> trim shell \<noteq> [])
        (EmptyField ''terminal.local_shell'')) (\<lambda>_.
      and_then_r (check (1 \<le> lc_session_transcript_retention_days l \<and> lc_session_transcript_retention_days l \<le> 365)
        (OutOfRangeInt ''logging.session_transcript_retention_days''
           (ucast (lc_session_transcript_retention_days l)) 1 365)) (\<lambda>_.
      and_then_r (check (1024 \<le> lc_session_transcript_max_bytes_per_session l
          \<and> lc_session_transcript_max_bytes_per_session l \<le> 1024 * 1024 * 1024)
        (OutOfRangeInt ''logging.session_transcript_max_bytes_per_session''
           (lc_session_transcript_max_bytes_per_session l) 1024 (1024 * 1024 * 1024))) (\<lambda>_.
      and_then_r (validate_overrides macos [] (kb_overrides (cfg_keybindings c))) (\<lambda>_.
      and_then_r (validate_custom macos [] (kb_custom (cfg_keybindings c))) (\<lambda>_.
        validate_vaults lower (cfg_vaults c)))))))))))"

section \<open>The store\<close>

text \<open>
  Writing the file goes through a temporary file beside it: creating the directory and the temporary
  file, writing, flushing and renaming may each fail; only the rename changes the file. \<open>ce_io n\<close>
  tells, for the \<open>n\<close>-th attempt, which steps fail and how. \<open>cst_file\<close> is the content of the file.
\<close>

record write_io =
  wi_create_dir :: "string option"
  wi_temp :: "string option"
  wi_write :: "string option"
  wi_flush :: "string option"
  wi_persist :: "string option"

record config_env =
  ce_print :: "app_config \<Rightarrow> string + string"
  ce_parse :: "string \<Rightarrow> string + app_config"
  ce_io :: "nat \<Rightarrow> write_io"
  ce_lower :: "string \<Rightarrow> string"
  ce_macos :: bool

record config_store =
  cst_path :: string
  cst_config :: app_config
  cst_file :: "string option"
  cst_writes :: nat

definition io_step :: "string option \<Rightarrow> config_error + unit" where
  "io_step outcome = (case outcome of None \<Rightarrow> Inr () | Some e \<Rightarrow> Inl (ConfigWrite e))"

definition map_err :: "('e \<Rightarrow> 'f) \<Rightarrow> 'e + 'a \<Rightarrow> 'f + 'a" where
  "map_err g r = (case r of Inl e \<Rightarrow> Inl (g e) | Inr x \<Rightarrow> Inr x)"

definition persist_config :: "config_env \<Rightarrow> app_config \<Rightarrow> (config_store, config_error, unit) prog" where
  "persist_config env config s =
     (let io = ce_io env (cst_writes s); s' = s\<lparr>cst_writes := Suc (cst_writes s)\<rparr> in
      case and_then_r (io_step (wi_create_dir io)) (\<lambda>_.
           and_then_r (map_err ConfigSerialize (ce_print env config)) (\<lambda>serialized.
           and_then_r (io_step (wi_temp io)) (\<lambda>_.
           and_then_r (io_step (wi_write io)) (\<lambda>_.
           and_then_r (io_step (wi_flush io)) (\<lambda>_.
           and_then_r (io_step (wi_persist io)) (\<lambda>_. Inr serialized)))))) of
        Inl e \<Rightarrow> (Inl e, s')
      | Inr serialized \<Rightarrow> (Inr (), s'\<lparr>cst_file := Some serialized\<rparr>))"

definition with_defaults :: "string \<Rightarrow> string option \<Rightarrow> config_store" where
  "with_defaults path contents =
     \<lparr>cst_path = path, cst_config = default_app_config, cst_file = contents, cst_writes = 0\<rparr>"

text \<open>\<open>contents\<close> is what reading the file gives, if it exists.\<close>

definition load_or_default :: "config_env \<Rightarrow> string \<Rightarrow> (string + string) option \<Rightarrow> config_error + config_store" where
  "load_or_default env path contents =
     (case contents of
        None \<Rightarrow> Inr (with_defaults path None)
      | Some result \<Rightarrow>
          and_then_r (map_err ConfigRead result) (\<lambda>contents.
          and_then_r (map_err ConfigParse (ce_parse env contents)) (\<lambda>parsed.
          let config = normalized parsed in
          and_then_r (validate (ce_lower env) (ce_macos env) config) (\<lambda>_.
            Inr \<lparr>cst_path = path, cst_config = config, cst_file = Some contents, cst_writes = 0\<rparr>))))"

definition replace_config :: "config_env \<Rightarrow> app_config \<Rightarrow> (config_store, config_error, unit) prog" where
  "replace_config env c =
     (let config = normalized c in
      and_then (lift_r (validate (ce_lower env) (ce_macos env) config)) (\<lambda>_.
      and_then (persist_config env config) (\<lambda>_.
        modify (\<lambda>s. s\<lparr>cst_config := config\<rparr>))))"

definition update_store :: "config_env \<Rightarrow> (app_config \<Rightarrow> app_config) \<Rightarrow> (config_store, config_error, app_config) prog" where
  "update_store env f =
     and_then (reads (\<lambda>s. Inr (f (cst_config s)))) (\<lambda>next_config.
     and_then (replace_config env next_config) (\<lambda>_. reads (\<lambda>s. Inr (cst_config s))))"

section \<open>What validation means\<close>

lemma check_Inr [simp]: "check b e = Inr u \<longleftrightarrow> b"
  by (simp add: check_def)

lemma and_then_r_unit [simp]: "and_then_r r f = Inr u \<longleftrightarrow> (\<exists>x. r = Inr x \<and> f x = Inr u)"
  by (rule and_then_r_Inr)

definition override_ok :: "keybinding_override \<Rightarrow> bool" where
  "override_ok b \<longleftrightarrow> is_builtin_keybinding_id (trim (ko_id b))
     \<and> (case ko_chord b of None \<Rightarrow> ko_disabled b
        | Some chord \<Rightarrow> \<not> ko_disabled b \<and> split_whitespace chord \<noteq> [] \<and> list_all keystroke_ok (split_whitespace chord))"

definition custom_ok :: "custom_keybinding \<Rightarrow> bool" where
  "custom_ok b \<longleftrightarrow> is_supported_keybinding_command (trim (ck_command b))
     \<and> split_whitespace (trim (ck_chord b)) \<noteq> [] \<and> list_all keystroke_ok (split_whitespace (trim (ck_chord b)))"

definition entry_ok :: "vault_registry_entry \<Rightarrow> bool" where
  "entry_ok e \<longleftrightarrow> ve_id e \<noteq> [] \<and> ve_name e \<noteq> [] \<and> ve_db_file e \<noteq> []"

definition registry_valid :: "(string \<Rightarrow> string) \<Rightarrow> vault_registry_config \<Rightarrow> bool" where
  "registry_valid lower v \<longleftrightarrow> list_all entry_ok (vr_entries v)
     \<and> distinct (map ve_id (vr_entries v)) \<and> distinct (map (\<lambda>e. lower (ve_name e)) (vr_entries v))
     \<and> distinct (map ve_db_file (vr_entries v))
     \<and> set (vr_open_vault_ids v) \<subseteq> ve_id ` set (vr_entries v)
     \<and> set_option (vr_default_target_vault_id v) \<subseteq> ve_id ` set (vr_entries v)"

definition terminal_ok :: "terminal_config \<Rightarrow> bool" where
  "terminal_ok t \<longleftrightarrow> trim (tc_font_family t) \<noteq> [] \<and> (\<exists>x. tc_font_size_px t = Fin x \<and> 8 \<le> x \<and> x \<le> 32)
     \<and> (\<exists>x. tc_line_height_px t = Fin x \<and> 10 \<le> x \<and> x \<le> 40)
     \<and> (\<forall>shell\<in>set_option (tc_local_shell t). trim shell \<noteq> [])"

definition logging_ok :: "logging_config \<Rightarrow> bool" where
  "logging_ok l \<longleftrightarrow> lc_session_transcript_retention_days l \<in> {1..365}
     \<and> lc_session_transcript_max_bytes_per_session l \<in> {1024..2 ^ 30}"

definition keybindings_ok :: "keybindings_config \<Rightarrow> bool" where
  "keybindings_ok k \<longleftrightarrow> list_all override_ok (kb_overrides k) \<and> list_all custom_ok (kb_custom k)
     \<and> distinct (map (\<lambda>b. trim (ko_id b)) (kb_overrides k))
     \<and> distinct (map (\<lambda>b. (trim (ck_chord b), trim (ck_command b), ck_context b)) (kb_custom k))"

definition config_ok :: "(string \<Rightarrow> string) \<Rightarrow> app_config \<Rightarrow> bool" where
  "config_ok lower c \<longleftrightarrow> ac_theme (cfg_appearance c) \<in> set SUPPORTED_THEME_KEYS \<and> terminal_ok (cfg_terminal c)
     \<and> logging_ok (cfg_logging c) \<and> keybindings_ok (cfg_keybindings c) \<and> registry_valid lower (cfg_vaults c)"

lemma validate_override_iff:
  "validate_override macos b = Inr u \<longleftrightarrow>
     (case ko_chord b of None \<Rightarrow> ko_disabled b | Some chord \<Rightarrow> \<not> ko_disabled b \<and> validate_chord_syntax macos chord)"
  by (auto simp: validate_override_def split: bool.split option.split)

lemma validate_chord_iff:
  "validate_chord_syntax macos chord \<longleftrightarrow> split_whitespace chord \<noteq> [] \<and> list_all keystroke_ok (split_whitespace chord)"
  by (rule chord_accepted)

lemma validate_overrides_iff:
  "validate_overrides macos seen bs = Inr u \<longleftrightarrow> list_all override_ok bs
     \<and> distinct (map (\<lambda>b. trim (ko_id b)) bs) \<and> (\<forall>b\<in>set bs. trim (ko_id b) \<notin> set seen)"
proof (induction bs arbitrary: seen)
  case (Cons b bs)
  have "\<not> is_builtin_keybinding_id []" by (simp add: is_builtin_keybinding_id_def BUILTIN_KEYBINDING_IDS_def)
  with Cons show ?case
    by (auto simp: Let_def override_ok_def validate_override_iff validate_chord_iff image_iff split: option.splits)
qed simp

lemma context_debug_inj: "context_debug a = context_debug b \<longleftrightarrow> a = b"
  by (cases a; cases b) simp_all

lemma validate_custom_iff:
  "validate_custom macos seen bs = Inr u \<longleftrightarrow> list_all custom_ok bs
     \<and> distinct (map (\<lambda>b. (trim (ck_chord b), trim (ck_command b), ck_context b)) bs)
     \<and> (\<forall>b\<in>set bs. (trim (ck_chord b), trim (ck_command b), context_debug (ck_context b)) \<notin> set seen)"
proof (induction bs arbitrary: seen)
  case (Cons b bs)
  have "\<not> is_supported_keybinding_command []"
    by (simp add: is_supported_keybinding_command_def SUPPORTED_KEYBINDING_COMMANDS_def BUILTIN_KEYBINDING_IDS_def)
  moreover have "split_whitespace [] = []" by (simp add: split_whitespace_def split_ws.simps flush_def)
  ultimately show ?case using Cons
    by (auto simp: Let_def custom_ok_def validate_chord_iff context_debug_inj image_iff)
qed simp

lemma validate_entries_iff:
  "validate_entries lower ids names files es = Inr u \<longleftrightarrow> list_all entry_ok es \<and> distinct (map ve_id es)
     \<and> distinct (map (\<lambda>e. lower (ve_name e)) es) \<and> distinct (map ve_db_file es)
     \<and> (\<forall>e\<in>set es. ve_id e \<notin> set ids \<and> lower (ve_name e) \<notin> set names \<and> ve_db_file e \<notin> set files)"
  by (induction es arbitrary: ids names files) (auto simp: entry_ok_def image_iff)

lemma validate_vaults_iff: "validate_vaults lower v = Inr u \<longleftrightarrow> registry_valid lower v"
  by (auto simp: validate_vaults_def registry_valid_def validate_entries_iff for_each_Inr split: option.split)

lemma in_f32_range_iff: "in_f32_range (Fin a) (Fin b) x \<longleftrightarrow> (\<exists>q. x = Fin q \<and> a \<le> q \<and> q \<le> b)"
  by (cases x) (auto simp: in_f32_range_def)

lemma validate_iff: "validate lower macos c = Inr () \<longleftrightarrow> config_ok lower c"
  by (auto simp: validate_def Let_def config_ok_def terminal_ok_def logging_ok_def keybindings_ok_def in_f32_range_iff
      validate_overrides_iff validate_custom_iff validate_vaults_iff split: option.splits)

section \<open>Properties\<close>

text \<open>The store holds a normalised valid configuration.\<close>

definition store_ok :: "config_env \<Rightarrow> config_store \<Rightarrow> bool" where
  "store_ok env s \<longleftrightarrow> config_ok (ce_lower env) (cst_config s) \<and> normalized (cst_config s) = cst_config s"

lemma persist_config_run:
  "persist_config env c s = (Inr u, t) \<Longrightarrow>
     \<exists>text. ce_print env c = Inr text \<and> t = s\<lparr>cst_writes := Suc (cst_writes s), cst_file := Some text\<rparr>"
  "persist_config env c s = (Inl e, t) \<Longrightarrow> t = s\<lparr>cst_writes := Suc (cst_writes s)\<rparr>"
  by (auto simp: persist_config_def Let_def map_err_def and_then_r_Inr split: sum.splits)

lemma replace_config_run:
  "replace_config env c s = (Inr u, t) \<Longrightarrow> config_ok (ce_lower env) (normalized c) \<and>
     (\<exists>text. ce_print env (normalized c) = Inr text
        \<and> t = s\<lparr>cst_writes := Suc (cst_writes s), cst_file := Some text, cst_config := normalized c\<rparr>)"
  "replace_config env c s = (Inl e, t) \<Longrightarrow> cst_config t = cst_config s \<and> cst_file t = cst_file s"
  by (auto simp: replace_config_def Let_def and_then_eq_Inr and_then_eq_Inl validate_iff lift_r_def
      dest!: persist_config_run split: sum.splits)

lemma default_config_ok: "config_ok lower default_app_config \<and> normalized default_app_config = default_app_config"
proof
  show "config_ok lower default_app_config"
    by (simp add: config_ok_def default_app_config_def default_appearance_config_def default_theme_def DEFAULT_THEME_KEY_def
        SUPPORTED_THEME_KEYS_def terminal_ok_def default_terminal_config_def default_terminal_font_family_def
        default_terminal_font_size_px_def default_terminal_line_height_px_def logging_ok_def default_logging_config_def
        default_logging_retention_days_def default_logging_max_bytes_per_session_def keybindings_ok_def registry_valid_def
        trim_visible word_le_nat_alt)
  show "normalized default_app_config = default_app_config"
    by (simp add: normalized_def Let_def default_app_config_def default_appearance_config_def default_theme_def
        DEFAULT_THEME_KEY_def default_terminal_config_def default_terminal_font_family_def trim_visible trim_opt_def)
qed

lemma update_store_cases:
  assumes "store_ok env s" and "update_store env f s = (r, t)"
  shows "store_ok env t \<and>
     (case r of
        Inl e \<Rightarrow> cst_config t = cst_config s \<and> cst_file t = cst_file s
      | Inr c \<Rightarrow> c = normalized (f (cst_config s)) \<and> cst_config t = c
          \<and> (\<exists>text. ce_print env c = Inr text \<and> cst_file t = Some text))"
proof (cases r)
  case (Inl e)
  with assms have "replace_config env (f (cst_config s)) s = (Inl e, t)"
    by (auto simp: update_store_def and_then_eq_Inl)
  from replace_config_run(2) [OF this] assms(1) Inl show ?thesis by (simp add: store_ok_def)
next
  case (Inr c)
  with assms obtain u where "replace_config env (f (cst_config s)) s = (Inr u, t)" "c = cst_config t"
    by (auto simp: update_store_def and_then_eq_Inr)
  from replace_config_run(1) [OF this(1)] this(2) Inr show ?thesis by (auto simp: store_ok_def normalized_normalized)
qed

text \<open>A setting with a codec that knows one configuration, and no write errors.\<close>

definition demo_config :: app_config where
  "demo_config = default_app_config\<lparr>cfg_appearance := \<lparr>ac_theme = ''nord''\<rparr>\<rparr>"

definition demo_config_env :: config_env where
  "demo_config_env =
     \<lparr>ce_print = (\<lambda>c. if c = demo_config then Inr ''nord'' else Inl ''unsupported''),
      ce_parse = (\<lambda>s. if s = ''nord'' then Inr demo_config else Inl ''malformed''),
      ce_io = (\<lambda>_. \<lparr>wi_create_dir = None, wi_temp = None, wi_write = None, wi_flush = None, wi_persist = None\<rparr>),
      ce_lower = map to_ascii_lower, ce_macos = False\<rparr>"

lemma demo_config_ok: "config_ok lower demo_config \<and> normalized demo_config = demo_config"
proof
  show "config_ok lower demo_config"
    using default_config_ok [of lower] by (simp add: config_ok_def demo_config_def SUPPORTED_THEME_KEYS_def)
  have "cfg_vaults (normalized default_app_config) = cfg_vaults default_app_config"
    "cfg_terminal (normalized default_app_config) = cfg_terminal default_app_config"
    "cfg_keybindings (normalized default_app_config) = cfg_keybindings default_app_config"
    using default_config_ok by simp_all
  then show "normalized demo_config = demo_config"
    by (simp add: normalized_def Let_def demo_config_def trim_visible)
qed

lemma demo_update:
  "update_store demo_config_env (\<lambda>_. demo_config) (with_defaults p None) =
     (Inr demo_config, \<lparr>cst_path = p, cst_config = demo_config, cst_file = Some ''nord'', cst_writes = 1\<rparr>)"
  using demo_config_ok [of "map to_ascii_lower"]
  by (simp add: update_store_def replace_config_def and_then_def lift_r_def persist_config_def demo_config_env_def
      validate_iff [THEN iffD2] io_step_def map_err_def with_defaults_def Let_def)

text \<open>
  C33. What validation accepts, exactly, on every platform: the theme is a known one; the terminal font
  has a name, its size is a number from 8 to 32 and the line height one from 10 to 40, and the local shell,
  if one is set, is not blank; transcripts are kept 1 to 365 days and have 1 KiB to 1 GiB; every override
  of a built-in keybinding names such a binding, at most once, and either disables it or gives it a
  well-formed chord; every custom keybinding has a well-formed chord and a known command, and no two have the
  same chord, command and context (one chord may have several commands); every vault entry has an id, a
  name and a file, ids, files and lower-cased names are unique, and the open and default vaults are among
  the entries.
\<close>

theorem validate_exact: "validate lower macos c = Inr () \<longleftrightarrow> config_ok lower c"
  by (rule validate_iff)

text \<open>
  C32. Updating the configuration is all or nothing: if any step fails, the configuration in memory and
  the file are as before; if it succeeds, both hold the normalised, valid new configuration.
\<close>

theorem config_update_atomic:
  assumes "store_ok env s" and "update_store env f s = (r, t)"
  shows "store_ok env t \<and>
     (case r of
        Inl e \<Rightarrow> cst_config t = cst_config s \<and> cst_file t = cst_file s
      | Inr c \<Rightarrow> c = normalized (f (cst_config s)) \<and> cst_config t = c
          \<and> (\<exists>text. ce_print env c = Inr text \<and> cst_file t = Some text))"
  by (rule update_store_cases [OF assms])

theorem config_update_atomic_witness:
  "\<exists>t. update_store demo_config_env (\<lambda>_. demo_config) (with_defaults ''config.toml'' None) = (Inr demo_config, t)
     \<and> cst_config t = demo_config \<and> store_ok demo_config_env t"
proof -
  have "store_ok demo_config_env (with_defaults ''config.toml'' None)"
    using default_config_ok by (simp add: store_ok_def with_defaults_def)
  from config_update_atomic [OF this demo_update] demo_update show ?thesis by simp
qed

text \<open>The printer and parser of the configuration file: what is printed reads back.\<close>

definition toml_correct :: "config_env \<Rightarrow> bool" where
  "toml_correct env \<longleftrightarrow> (\<forall>c out. ce_print env c = Inr out \<longrightarrow> ce_parse env out = Inr c)"

text \<open>Starting the program on the file gives the configuration in memory.\<close>

definition saved :: "config_env \<Rightarrow> string \<Rightarrow> config_store \<Rightarrow> bool" where
  "saved env path s \<longleftrightarrow>
     (\<exists>s'. load_or_default env path (map_option Inr (cst_file s)) = Inr s' \<and> cst_config s' = cst_config s)"

lemma saved_update:
  assumes "toml_correct env" and "saved env path s"
  shows "saved env path (snd (update_store env f s))"
proof -
  obtain r t where u: "update_store env f s = (r, t)" by fastforce
  show ?thesis
  proof (cases r)
    case (Inl e)
    with u have "replace_config env (f (cst_config s)) s = (Inl e, t)"
      by (auto simp: update_store_def and_then_eq_Inl)
    from replace_config_run(2) [OF this] assms(2) u show ?thesis by (simp add: saved_def)
  next
    case (Inr c)
    with u obtain v where v: "replace_config env (f (cst_config s)) s = (Inr v, t)" "c = cst_config t"
      by (auto simp: update_store_def and_then_eq_Inr)
    from replace_config_run(1) [OF v(1)] v(2) obtain out where
      c: "config_ok (ce_lower env) c" "normalized c = c" "ce_print env c = Inr out" "cst_file t = Some out"
      by (auto simp: normalized_normalized)
    from c(3) assms(1) have "ce_parse env out = Inr c" by (simp add: toml_correct_def)
    moreover from c(1) have "validate (ce_lower env) (ce_macos env) c = Inr ()" by (simp add: validate_iff)
    ultimately have "\<exists>s'. load_or_default env path (Some (Inr out)) = Inr s' \<and> cst_config s' = c"
      using c(2) by (simp add: load_or_default_def map_err_def Let_def)
    then show ?thesis using u c(4) v(2) by (simp add: saved_def)
  qed
qed

interpretation settings: machine "\<lambda>f s. snd (update_store env f s)" "\<lambda>_. True"
    "\<lambda>s. toml_correct env \<and> saved env path s"
  by unfold_locales (simp add: saved_update)

text \<open>
  The application starts again with the configuration it had: from a start on any configuration
  file, or none, and through any updates, of which any may fail, loading the file again gives the
  configuration in memory.
\<close>

theorem config_reload:
  assumes "toml_correct env" and "load_or_default env path (map_option Inr stored) = Inr s"
    and "t = fold (\<lambda>f s. snd (update_store env f s)) fs s"
  shows "\<exists>s'. load_or_default env path (map_option Inr (cst_file t)) = Inr s' \<and> cst_config s' = cst_config t"
proof -
  have "cst_file s = stored" using assms(2)
    by (cases stored) (auto simp: load_or_default_def with_defaults_def map_err_def Let_def and_then_r_Inr)
  with assms(2) have "saved env path s" by (auto simp: saved_def)
  with settings.inv_run [of env path s fs] assms(1,3) show ?thesis by (simp add: list_all_iff saved_def)
qed

theorem config_reload_witness:
  "\<exists>t s'. t = fold (\<lambda>f s. snd (update_store demo_config_env f s)) [\<lambda>_. demo_config, \<lambda>c. c\<lparr>cfg_appearance := \<lparr>ac_theme = ''none''\<rparr>\<rparr>]
            (with_defaults ''config.toml'' None)
     \<and> load_or_default demo_config_env ''config.toml'' (map_option Inr (cst_file t)) = Inr s' \<and> cst_config s' = cst_config t"
proof -
  have "toml_correct demo_config_env" by (simp add: toml_correct_def demo_config_env_def)
  moreover have "load_or_default demo_config_env ''config.toml'' (map_option Inr None) = Inr (with_defaults ''config.toml'' None)"
    by (simp add: load_or_default_def)
  ultimately show ?thesis
    using config_reload [of demo_config_env "''config.toml''" None _ _ "[\<lambda>_. demo_config, \<lambda>c. c\<lparr>cfg_appearance := \<lparr>ac_theme = ''none''\<rparr>\<rparr>]"]
    by blast
qed

text \<open>
  Starting without a configuration file, or going back to the defaults, gives a valid
  configuration: resetting fails only when the file cannot be written.
\<close>

theorem defaults_always_valid:
  "load_or_default env path None = Inr (with_defaults path None)
   \<and> store_ok env (with_defaults path contents)
   \<and> (case replace_config env default_app_config s of
        (Inr _, t) \<Rightarrow> cst_config t = default_app_config
      | (Inl e, t) \<Rightarrow> cst_config t = cst_config s \<and> (\<exists>m. e = ConfigWrite m \<or> e = ConfigSerialize m))"
proof -
  have "validate (ce_lower env) (ce_macos env) default_app_config = Inr ()" "normalized default_app_config = default_app_config"
    using default_config_ok by (simp_all add: validate_iff)
  moreover have "\<exists>m. e = ConfigWrite m \<or> e = ConfigSerialize m" if "persist_config env c s = (Inl e, t)" for c e t
    using that
    by (auto simp: persist_config_def Let_def and_then_r_def io_step_def map_err_def split: sum.splits option.splits)
  ultimately show ?thesis
    using default_config_ok persist_config_run(2) [of env default_app_config s]
    by (auto simp: load_or_default_def store_ok_def with_defaults_def replace_config_def and_then_def split: prod.split sum.split)
qed

end
