(* ===== verification/Core_Tunnels.thy ===== *)
theory Core_Tunnels
  imports Vault_Theorems Config
begin

text \<open>
  \<^verbatim>\<open>seance-core/src/tunnels.rs\<close>: the requests the SSH layer gets are built from the records of an
  unlocked vault, with every secret resolved. The request types are those of
  \<^verbatim>\<open>seance-ssh/src/model.rs\<close>. The errors of the core crate are \<open>anyhow\<close> errors: a message, an error of
  another crate, or a message in front of either.
\<close>

datatype core_error =
    Anyhow string
  | FromVault vault_error
  | FromConfig config_error
  | FromIo string
  | Ctx string core_error

record ssh_connection_config =
  sc_label :: string
  sc_hostname :: string
  sc_port :: u16
  sc_username :: string

datatype resolved_auth_method =
    ResolvedPassword string
  | ResolvedPrivateKey string "string option"

record ssh_connect_request =
  cq_connection :: ssh_connection_config
  cq_auth_order :: "resolved_auth_method list"

datatype ssh_port_forward_mode = SshLocal | SshRemote

record ssh_port_forward_request =
  fq_id :: string
  fq_vault_id :: string
  fq_forward_id :: string
  fq_host_id :: string
  fq_label :: string
  fq_host_label :: string
  fq_mode :: ssh_port_forward_mode
  fq_listen_address :: string
  fq_listen_port :: u16
  fq_target_address :: string
  fq_target_port :: u16
  fq_connection :: ssh_connection_config
  fq_auth_order :: "resolved_auth_method list"

definition vault_r :: "vault_error + 'a \<Rightarrow> core_error + 'a" where
  "vault_r r = map_err FromVault r"

lemma vault_r_simps [simp]: "vault_r (Inr x) = Inr x" "vault_r (Inl e) = Inl (FromVault e)"
  by (simp_all add: vault_r_def map_err_def)

section \<open>Building requests\<close>

definition port_forward_scope_key :: "string \<Rightarrow> string \<Rightarrow> string" where
  "port_forward_scope_key vault_id port_forward_id = vault_id @ ''::'' @ port_forward_id"

fun resolve_auth :: "'d env \<Rightarrow> 'd vault_store \<Rightarrow> host_auth_ref \<Rightarrow> core_error + resolved_auth_method" where
  "resolve_auth env store (AuthPassword credential_id) =
     and_then_r (vault_r (load_password_credential env credential_id store)) (\<lambda>found.
     and_then_r (ok_or found (Anyhow ''missing password credential'')) (\<lambda>credential.
       Inr (ResolvedPassword (cr_secret credential))))"
| "resolve_auth env store (AuthPrivateKey key_id passphrase_credential_id) =
     and_then_r (vault_r (load_private_key env key_id store)) (\<lambda>found.
     and_then_r (ok_or found (Anyhow ''missing private key'')) (\<lambda>key.
     and_then_r (case passphrase_credential_id of
                   None \<Rightarrow> Inr None
                 | Some i \<Rightarrow> vault_r (load_password_credential env i store)) (\<lambda>credential.
       Inr (ResolvedPrivateKey (pk_private_key_pem key) (map_option cr_secret credential)))))"

definition build_connect_request ::
  "'d env \<Rightarrow> 'd vault_store \<Rightarrow> vault_host_profile \<Rightarrow> core_error + ssh_connect_request" where
  "build_connect_request env store host =
     and_then_r (try_map (resolve_auth env store) (ho_auth_order host)) (\<lambda>auth_order.
       Inr \<lparr>cq_connection = \<lparr>sc_label = ho_label host, sc_hostname = ho_hostname host,
              sc_port = ho_port host, sc_username = ho_username host\<rparr>,
            cq_auth_order = auth_order\<rparr>)"

fun ssh_mode :: "port_forward_mode \<Rightarrow> ssh_port_forward_mode" where
  "ssh_mode LocalForward = SshLocal"
| "ssh_mode RemoteForward = SshRemote"

definition build_port_forward_request ::
  "'d env \<Rightarrow> 'd vault_store \<Rightarrow> string \<Rightarrow> vault_port_forward_profile \<Rightarrow> core_error + ssh_port_forward_request" where
  "build_port_forward_request env store vault_id port_forward =
     and_then_r (vault_r (load_host_profile env (pf_host_id port_forward) store)) (\<lambda>found.
     and_then_r (ok_or found (Anyhow ''saved host not found'')) (\<lambda>host.
     and_then_r (build_connect_request env store host) (\<lambda>connect_request.
       Inr \<lparr>fq_id = port_forward_scope_key vault_id (pf_id port_forward),
            fq_vault_id = vault_id,
            fq_forward_id = pf_id port_forward,
            fq_host_id = ho_id host,
            fq_label = pf_label port_forward,
            fq_host_label = ho_label host,
            fq_mode = ssh_mode (pf_mode port_forward),
            fq_listen_address = pf_listen_address port_forward,
            fq_listen_port = pf_listen_port port_forward,
            fq_target_address = pf_target_address port_forward,
            fq_target_port = pf_target_port port_forward,
            fq_connection = cq_connection connect_request,
            fq_auth_order = cq_auth_order connect_request\<rparr>)))"

section \<open>Every saved host can be connected to\<close>

text \<open>What a method must carry for a reference: the secrets the vault holds under its identifiers.\<close>

fun carries :: "'d env \<Rightarrow> 'd vault_store \<Rightarrow> host_auth_ref \<Rightarrow> resolved_auth_method \<Rightarrow> bool" where
  "carries env s (AuthPassword c) m \<longleftrightarrow>
     (\<exists>x. load_password_credential env c s = Inr (Some x) \<and> m = ResolvedPassword (cr_secret x))"
| "carries env s (AuthPrivateKey k None) m \<longleftrightarrow>
     (\<exists>x. load_private_key env k s = Inr (Some x) \<and> m = ResolvedPrivateKey (pk_private_key_pem x) None)"
| "carries env s (AuthPrivateKey k (Some c)) m \<longleftrightarrow>
     (\<exists>x y. load_private_key env k s = Inr (Some x) \<and> load_password_credential env c s = Inr (Some y)
        \<and> m = ResolvedPrivateKey (pk_private_key_pem x) (Some (cr_secret y)))"

lemma resolve_auth_carries:
  "resolves_auth env s a \<Longrightarrow> \<exists>m. resolve_auth env s a = Inr m \<and> carries env s a m"
  by (cases a; cases "case a of AuthPrivateKey _ p \<Rightarrow> p | _ \<Rightarrow> None") (auto simp: resolves_credential_def resolves_key_def)

lemma try_map_total: "(\<And>x. x \<in> set xs \<Longrightarrow> \<exists>y. f x = Inr y \<and> R x y) \<Longrightarrow> \<exists>ys. try_map f xs = Inr ys \<and> list_all2 R xs ys"
  by (induction xs) (auto, fastforce)

lemma build_connect_total:
  assumes "list_all (resolves_auth env s) (ho_auth_order h)"
  shows "\<exists>ms. build_connect_request env s h =
       Inr \<lparr>cq_connection = \<lparr>sc_label = ho_label h, sc_hostname = ho_hostname h, sc_port = ho_port h, sc_username = ho_username h\<rparr>,
            cq_auth_order = ms\<rparr> \<and> list_all2 (carries env s) (ho_auth_order h) ms"
proof -
  from assms have "\<exists>m. resolve_auth env s a = Inr m \<and> carries env s a m" if "a \<in> set (ho_auth_order h)" for a
    using that by (intro resolve_auth_carries) (simp add: list_all_iff)
  from try_map_total [OF this] show ?thesis by (auto simp: build_connect_request_def)
qed

section \<open>Properties\<close>

text \<open>
  C37. In a vault whose references resolve, every saved host can be turned into a connection request,
  and every saved port forward into a forward request for its host: nothing is missing, the
  authentication methods come in the order of the host, and each carries the secrets its references name.
\<close>

theorem saved_hosts_connectable:
  assumes "refs_resolve env s"
  shows "(load_host_profile env i s = Inr (Some h) \<longrightarrow>
       (\<exists>req. build_connect_request env s h = Inr req \<and> sc_hostname (cq_connection req) = ho_hostname h
          \<and> sc_port (cq_connection req) = ho_port h \<and> sc_username (cq_connection req) = ho_username h
          \<and> list_all2 (carries env s) (ho_auth_order h) (cq_auth_order req)))
     \<and> (load_port_forward env j s = Inr (Some p) \<longrightarrow>
       (\<exists>req host. build_port_forward_request env s v p = Inr req
          \<and> load_host_profile env (pf_host_id p) s = Inr (Some host)
          \<and> sc_hostname (fq_connection req) = ho_hostname host
          \<and> list_all2 (carries env s) (ho_auth_order host) (fq_auth_order req)
          \<and> fq_listen_port req = pf_listen_port p \<and> fq_target_port req = pf_target_port p))"
proof (intro conjI impI)
  assume "load_host_profile env i s = Inr (Some h)"
  with assms have "list_all (resolves_auth env s) (ho_auth_order h)" unfolding refs_resolve_def by blast
  from build_connect_total [OF this] show "\<exists>req. build_connect_request env s h = Inr req \<and> sc_hostname (cq_connection req) = ho_hostname h
          \<and> sc_port (cq_connection req) = ho_port h \<and> sc_username (cq_connection req) = ho_username h
          \<and> list_all2 (carries env s) (ho_auth_order h) (cq_auth_order req)" by auto
next
  assume "load_port_forward env j s = Inr (Some p)"
  with assms obtain host where host: "load_host_profile env (pf_host_id p) s = Inr (Some host)"
    unfolding refs_resolve_def resolves_host_def by blast
  with assms have "list_all (resolves_auth env s) (ho_auth_order host)" unfolding refs_resolve_def by blast
  from build_connect_total [OF this] host show "\<exists>req host. build_port_forward_request env s v p = Inr req
          \<and> load_host_profile env (pf_host_id p) s = Inr (Some host)
          \<and> sc_hostname (fq_connection req) = ho_hostname host
          \<and> list_all2 (carries env s) (ho_auth_order host) (fq_auth_order req)
          \<and> fq_listen_port req = pf_listen_port p \<and> fq_target_port req = pf_target_port p"
    by (auto simp: build_port_forward_request_def)
qed

lemma demo_refs: "refs_resolve demo_env (demo_after 4)"
proof -
  have "refs_resolve demo_env (demo_after 1)"
    by (rule refs_store_credential [OF demo_ready demo_created_inv demo_created_refs _ demo_store_credential])
       (simp add: id_free_def record_at_def demo_state_defs)
  then have "refs_resolve demo_env (demo_after 2)"
    by (rule refs_store_key [OF demo_ready demo_after_inv(1) _ _ demo_store_key])
       (simp add: id_free_def record_at_def demo_state_defs demo_key_def id_for_def)
  then have "refs_resolve demo_env (demo_after 3)"
    by (rule refs_store_host [OF demo_ready demo_after_inv(2) _ _ demo_store_host])
       (simp add: id_free_def record_at_def demo_state_defs demo_host_def id_for_def)
  then show ?thesis
    by (rule refs_store_forward [OF demo_ready demo_after_inv(3) _ _ demo_store_forward])
       (simp add: id_free_def record_at_def demo_state_defs demo_forward_def id_for_def)
qed

theorem saved_hosts_connectable_witness:
  "\<exists>req. build_connect_request demo_env (demo_after 4) demo_host = Inr req \<and> sc_hostname (cq_connection req) = ''ex.org''"
proof -
  have "load_host_profile demo_env ''h1'' (demo_after 4) = Inr (Some demo_host)" by (simp add: demo_run)
  moreover have "ho_hostname demo_host = ''ex.org''" by (simp add: demo_host_def)
  ultimately show ?thesis using saved_hosts_connectable [OF demo_refs, of "''h1''" demo_host] by metis
qed

end
