(* ===== verification/Rust_Maps.thy ===== *)
theory Rust_Maps
  imports Prelude "HOL-Library.AList"
begin

text \<open>
  \<open>HashMap\<close> as an association list with distinct keys: the list is the order in which the map happens
  to iterate. Rust leaves that order unspecified, so what depends on it is stated for every list with
  the same entries.
\<close>

type_synonym ('k, 'v) hashmap = "('k \<times> 'v) list"

definition hm_ok :: "('k, 'v) hashmap \<Rightarrow> bool" where
  "hm_ok m \<longleftrightarrow> distinct (map fst m)"

abbreviation hm_get :: "('k, 'v) hashmap \<Rightarrow> 'k \<Rightarrow> 'v option" where
  "hm_get m k \<equiv> map_of m k"

abbreviation hm_insert :: "'k \<Rightarrow> 'v \<Rightarrow> ('k, 'v) hashmap \<Rightarrow> ('k, 'v) hashmap" where
  "hm_insert k v m \<equiv> AList.update k v m"

abbreviation hm_remove :: "'k \<Rightarrow> ('k, 'v) hashmap \<Rightarrow> ('k, 'v) hashmap" where
  "hm_remove k m \<equiv> AList.delete k m"

text \<open>\<open>HashMap::get_mut\<close> followed by a change of the value.\<close>

definition hm_adjust :: "'k \<Rightarrow> ('v \<Rightarrow> 'v) \<Rightarrow> ('k, 'v) hashmap \<Rightarrow> ('k, 'v) hashmap" where
  "hm_adjust k f m = (case hm_get m k of None \<Rightarrow> m | Some v \<Rightarrow> hm_insert k (f v) m)"

lemma hm_ok_ops [simp]:
  "hm_ok []"
  "hm_ok m \<Longrightarrow> hm_ok (hm_insert k v m)"
  "hm_ok m \<Longrightarrow> hm_ok (hm_remove k m)"
  "hm_ok m \<Longrightarrow> hm_ok (hm_adjust k f m)"
  by (auto simp: hm_ok_def hm_adjust_def distinct_update distinct_delete split: option.split)

lemma hm_get_insert [simp]: "hm_get (hm_insert k v m) j = (if j = k then Some v else hm_get m j)"
  by (simp add: update_conv')

lemma hm_get_remove [simp]: "hm_get (hm_remove k m) j = (if j = k then None else hm_get m j)"
  by (simp add: delete_conv')

lemma hm_get_adjust [simp]:
  "hm_get (hm_adjust k f m) j = (if j = k then map_option f (hm_get m k) else hm_get m j)"
  by (auto simp: hm_adjust_def split: option.split)

lemma hm_get_mem: "hm_ok m \<Longrightarrow> hm_get m k = Some v \<longleftrightarrow> (k, v) \<in> set m"
  by (simp add: hm_ok_def)

lemma hm_keys: "k \<in> fst ` set m \<longleftrightarrow> hm_get m k \<noteq> None"
  by (simp add: map_of_eq_None_iff)

section \<open>Iterator folds\<close>

text \<open>\<open>Iterator::max_by_key\<close>: the last of the maximal elements.\<close>

definition max_by_key :: "('a \<Rightarrow> 'b::linorder) \<Rightarrow> 'a list \<Rightarrow> 'a option" where
  "max_by_key f xs =
     fold (\<lambda>x best. case best of None \<Rightarrow> Some x | Some b \<Rightarrow> if f b \<le> f x then Some x else Some b) xs None"

lemma max_by_key_fold:
  fixes f :: "'a \<Rightarrow> 'b::linorder"
  shows "\<exists>y. fold (\<lambda>x best. case best of None \<Rightarrow> Some x | Some b \<Rightarrow> if f b \<le> f x then Some x else Some b) xs (Some z) = Some y
     \<and> y \<in> insert z (set xs) \<and> (\<forall>x\<in>insert z (set xs). f x \<le> f y)"
proof (induction xs arbitrary: z)
  case (Cons a xs)
  show ?case
  proof (cases "f z \<le> f a")
    case True
    with Cons [of a] show ?thesis by (auto dest: order_trans [OF True])
  next
    case False
    with Cons [of z] show ?thesis by (auto intro: order_trans less_imp_le)
  qed
qed simp

lemma max_by_key_Some: "max_by_key f xs = Some y \<Longrightarrow> y \<in> set xs \<and> (\<forall>x\<in>set xs. f x \<le> f y)"
proof (cases xs)
  case (Cons a ys)
  assume "max_by_key f xs = Some y"
  with max_by_key_fold [of f ys a] Cons show ?thesis by (auto simp: max_by_key_def)
qed (simp add: max_by_key_def)

lemma max_by_key_None [simp]: "max_by_key f xs = None \<longleftrightarrow> xs = []"
proof (cases xs)
  case (Cons a ys)
  with max_by_key_fold [of f ys a] show ?thesis by (auto simp: max_by_key_def)
qed (simp add: max_by_key_def)

text \<open>A strict maximum is found, whatever the order.\<close>

lemma max_by_key_unique:
  assumes "y \<in> set xs" and "\<And>x. x \<in> set xs \<Longrightarrow> x \<noteq> y \<Longrightarrow> f x < f y"
  shows "max_by_key f xs = Some y"
proof -
  from assms(1) have "max_by_key f xs \<noteq> None" by auto
  then obtain z where z: "max_by_key f xs = Some z" by blast
  from max_by_key_Some [OF z] assms(1) have "z \<in> set xs" "f y \<le> f z" by auto
  with assms(2) [of z] have "z = y" by fastforce
  with z show ?thesis by simp
qed

end
