(* ===== verification/Core_Sessions.thy ===== *)
theory Core_Sessions
  imports Rust_Maps
begin

text \<open>
  Sessions, windows and the lifecycle of \<^verbatim>\<open>seance-core/src/lib.rs\<close>: the session registry with
  its access sequence, the window count, the choice of the session a new window attaches to, and
  what happens when the last window closes. A terminal session is any value with an identifier;
  spawning one is the terminal crate's business and may fail.
\<close>

type_synonym session_id = u64

datatype session_kind = SessionLocal | SessionRemote

datatype window_target = MostRecentOrNew | NewLocal | TargetSession session_id

datatype platform_close_action = Hide | Exit

record lifecycle_policy =
  keep_running_without_windows :: bool
  hide_on_last_window_close :: bool
  keep_sessions_alive_without_windows :: bool

record session_origin =
  so_vault_id :: string
  so_host_id :: string
  so_host_label_at_connect :: string

record session_metadata =
  sm_kind :: session_kind
  sm_last_access_seq :: u64
  sm_origin :: "session_origin option"

record session_metadata_summary =
  ss_kind :: session_kind
  ss_origin :: "session_origin option"

record 's session_registry =
  sr_sessions :: "(session_id, 's) hashmap"
  sr_metadata :: "(session_id, session_metadata) hashmap"

section \<open>The registry\<close>

definition empty_registry :: "'s session_registry" where
  "empty_registry = \<lparr>sr_sessions = [], sr_metadata = []\<rparr>"

definition insert_session ::
  "('s \<Rightarrow> session_id) \<Rightarrow> 's \<Rightarrow> session_kind \<Rightarrow> session_origin option \<Rightarrow> u64 \<Rightarrow> 's session_registry \<Rightarrow> 's session_registry" where
  "insert_session sid session kind origin seq r =
     r\<lparr>sr_sessions := hm_insert (sid session) session (sr_sessions r),
       sr_metadata := hm_insert (sid session)
         \<lparr>sm_kind = kind, sm_last_access_seq = seq, sm_origin = origin\<rparr> (sr_metadata r)\<rparr>"

definition get_session :: "session_id \<Rightarrow> 's session_registry \<Rightarrow> 's option" where
  "get_session i r = hm_get (sr_sessions r) i"

definition list_sessions :: "('s \<Rightarrow> session_id) \<Rightarrow> 's session_registry \<Rightarrow> 's list" where
  "list_sessions sid r = sort_key sid (map snd (sr_sessions r))"

definition session_kind_of :: "session_id \<Rightarrow> 's session_registry \<Rightarrow> session_kind option" where
  "session_kind_of i r = map_option sm_kind (hm_get (sr_metadata r) i)"

definition session_metadata_of :: "session_id \<Rightarrow> 's session_registry \<Rightarrow> session_metadata_summary option" where
  "session_metadata_of i r =
     map_option (\<lambda>m. \<lparr>ss_kind = sm_kind m, ss_origin = sm_origin m\<rparr>) (hm_get (sr_metadata r) i)"

definition touch :: "session_id \<Rightarrow> u64 \<Rightarrow> 's session_registry \<Rightarrow> 's session_registry" where
  "touch i seq r = r\<lparr>sr_metadata := hm_adjust i (\<lambda>m. m\<lparr>sm_last_access_seq := seq\<rparr>) (sr_metadata r)\<rparr>"

definition remove_session :: "session_id \<Rightarrow> 's session_registry \<Rightarrow> bool \<times> 's session_registry" where
  "remove_session i r =
     (hm_get (sr_sessions r) i \<noteq> None,
      r\<lparr>sr_sessions := hm_remove i (sr_sessions r), sr_metadata := hm_remove i (sr_metadata r)\<rparr>)"

definition most_recent_session_id :: "'s session_registry \<Rightarrow> session_id option" where
  "most_recent_session_id r = map_option fst (max_by_key (\<lambda>e. sm_last_access_seq (snd e)) (sr_metadata r))"

definition registry_is_empty :: "'s session_registry \<Rightarrow> bool" where
  "registry_is_empty r \<longleftrightarrow> sr_sessions r = []"

section \<open>Windows and the controller's part\<close>

text \<open>\<open>open_windows += 1\<close> and \<open>saturating_sub(1)\<close> on a \<open>usize\<close>.\<close>

definition open_window :: "u64 \<Rightarrow> u64" where
  "open_window n = n + 1"

definition close_window :: "u64 \<Rightarrow> u64" where
  "close_window n = (if n = 0 then 0 else n - 1)"

record 's desk =
  d_sessions :: "'s session_registry"
  d_open_windows :: u64
  d_policy :: lifecycle_policy
  d_access_seq :: u64
  d_spawns :: nat

definition bump_access_seq :: "'s desk \<Rightarrow> 's desk" where
  "bump_access_seq d = d\<lparr>d_access_seq := d_access_seq d + 1\<rparr>"

definition register_session ::
  "('s \<Rightarrow> session_id) \<Rightarrow> 's \<Rightarrow> session_kind \<Rightarrow> session_origin option \<Rightarrow> 's desk \<Rightarrow> 's desk" where
  "register_session sid session kind origin d =
     (let d' = bump_access_seq d in
      d'\<lparr>d_sessions := insert_session sid session kind origin (d_access_seq d') (d_sessions d')\<rparr>)"

text \<open>\<open>spawn n\<close> is the outcome of the \<open>n\<close>-th attempt to start a local shell.\<close>

definition spawn_local_session ::
  "('s \<Rightarrow> session_id) \<Rightarrow> (nat \<Rightarrow> string + 's) \<Rightarrow> ('s desk, string, 's) prog" where
  "spawn_local_session sid spawn d =
     (let d' = d\<lparr>d_spawns := Suc (d_spawns d)\<rparr> in
      case spawn (d_spawns d) of
        Inl e \<Rightarrow> (Inl e, d')
      | Inr session \<Rightarrow> (Inr session, register_session sid session SessionLocal None d'))"

definition touch_session :: "session_id \<Rightarrow> 's desk \<Rightarrow> 's desk" where
  "touch_session i d =
     (let d' = bump_access_seq d in d'\<lparr>d_sessions := touch i (d_access_seq d') (d_sessions d')\<rparr>)"

definition close_session :: "session_id \<Rightarrow> 's desk \<Rightarrow> bool \<times> 's desk" where
  "close_session i d =
     (let (removed, r) = remove_session i (d_sessions d) in (removed, d\<lparr>d_sessions := r\<rparr>))"

text \<open>The session a new window attaches to: the first half of \<open>prepare_window\<close>.\<close>

definition attach_session ::
  "('s \<Rightarrow> session_id) \<Rightarrow> (nat \<Rightarrow> string + 's) \<Rightarrow> window_target \<Rightarrow> ('s desk, string, session_id) prog" where
  "attach_session sid spawn target =
     and_then
       (case target of
          MostRecentOrNew \<Rightarrow> (\<lambda>d.
            case most_recent_session_id (d_sessions d) of
              Some i \<Rightarrow> (Inr i, d)
            | None \<Rightarrow>
                (case spawn_local_session sid spawn d of
                   (Inl _, d') \<Rightarrow> (Inl ''failed to obtain session for window'', d')
                 | (Inr session, d') \<Rightarrow> (Inr (sid session), d')))
        | NewLocal \<Rightarrow> and_then (spawn_local_session sid spawn) (\<lambda>session. ok (sid session))
        | TargetSession i \<Rightarrow> reads (\<lambda>d.
            case get_session i (d_sessions d) of
              None \<Rightarrow> Inl ''requested session is no longer available''
            | Some session \<Rightarrow> Inr (sid session)))
       (\<lambda>attached. and_then (modify (touch_session attached)) (\<lambda>_. ok attached))"

definition on_last_window_closed :: "'s desk \<Rightarrow> platform_close_action" where
  "on_last_window_closed d =
     (if keep_running_without_windows (d_policy d) \<and> hide_on_last_window_close (d_policy d) then Hide else Exit)"

section \<open>The invariant\<close>

text \<open>
  Every session is filed under its own identifier, sessions and metadata have the same identifiers,
  and no session was accessed later than the access sequence says.
\<close>

definition registry_ok :: "('s \<Rightarrow> session_id) \<Rightarrow> u64 \<Rightarrow> 's session_registry \<Rightarrow> bool" where
  "registry_ok sid seq r \<longleftrightarrow> hm_ok (sr_sessions r) \<and> hm_ok (sr_metadata r)
     \<and> (\<forall>i s. hm_get (sr_sessions r) i = Some s \<longrightarrow> sid s = i)
     \<and> dom (hm_get (sr_metadata r)) = dom (hm_get (sr_sessions r))
     \<and> (\<forall>i m. hm_get (sr_metadata r) i = Some m \<longrightarrow> sm_last_access_seq m \<le> seq)"

definition desk_ok :: "('s \<Rightarrow> session_id) \<Rightarrow> 's desk \<Rightarrow> bool" where
  "desk_ok sid d \<longleftrightarrow> registry_ok sid (d_access_seq d) (d_sessions d)"

lemma seq_mono: "(q :: u64) \<le> seq \<Longrightarrow> seq \<noteq> -1 \<Longrightarrow> q \<le> seq + 1 \<and> q < seq + 1"
proof -
  assume q: "q \<le> seq" and "seq \<noteq> -1"
  then have "1 + seq \<noteq> 0" by (metis add.commute add_eq_0_iff)
  from unatSuc [OF this] q show ?thesis
    by (simp add: word_le_nat_alt word_less_nat_alt add.commute)
qed

lemma registry_ok_insert:
  assumes "registry_ok sid seq r" and "seq \<noteq> -1"
  shows "registry_ok sid (seq + 1) (insert_session sid s kind origin (seq + 1) r)"
  using assms seq_mono
  by (auto simp: registry_ok_def insert_session_def dom_def split: if_splits)

lemma registry_ok_touch:
  assumes "registry_ok sid seq r" and "seq \<noteq> -1"
  shows "registry_ok sid (seq + 1) (touch i (seq + 1) r)"
  using assms seq_mono
  by (auto simp: registry_ok_def touch_def dom_def split: if_splits)

lemma registry_ok_remove: "registry_ok sid seq r \<Longrightarrow> registry_ok sid seq (snd (remove_session i r))"
  by (auto simp: registry_ok_def remove_session_def dom_def split: if_splits)

lemma registry_ok_empty: "registry_ok sid seq empty_registry"
  by (simp add: registry_ok_def empty_registry_def)

lemma registry_ok_live:
  "registry_ok sid seq r \<Longrightarrow> get_session i r \<noteq> None \<longleftrightarrow> hm_get (sr_metadata r) i \<noteq> None"
  by (auto simp: registry_ok_def get_session_def dom_def set_eq_iff)

lemma touched_most_recent:
  assumes ok: "registry_ok sid seq r" and "seq \<noteq> -1" and "get_session i r \<noteq> None"
  shows "most_recent_session_id (touch i (seq + 1) r) = Some i"
proof -
  let ?r = "touch i (seq + 1) r"
  have ok': "hm_ok (sr_metadata ?r)" using registry_ok_touch [OF ok assms(2)] by (simp add: registry_ok_def)
  from ok assms(3) obtain m where m: "hm_get (sr_metadata r) i = Some m" using registry_ok_live by blast
  have "(i, m\<lparr>sm_last_access_seq := seq + 1\<rparr>) \<in> set (sr_metadata ?r)"
    using m by (simp add: hm_get_mem [OF ok', symmetric]) (simp add: touch_def)
  moreover have "sm_last_access_seq (snd e) < seq + 1"
    if "e \<in> set (sr_metadata ?r)" "e \<noteq> (i, m\<lparr>sm_last_access_seq := seq + 1\<rparr>)" for e
  proof -
    obtain j n where e: "e = (j, n)" by fastforce
    with that(1) have "hm_get (sr_metadata ?r) j = Some n" by (simp add: hm_get_mem [OF ok'])
    with e that(2) m have "hm_get (sr_metadata r) j = Some n" by (auto simp: touch_def split: if_splits)
    with ok have "sm_last_access_seq n \<le> seq" by (simp add: registry_ok_def)
    with assms(2) e seq_mono show ?thesis by simp
  qed
  ultimately have "max_by_key (\<lambda>e. sm_last_access_seq (snd e)) (sr_metadata ?r) =
      Some (i, m\<lparr>sm_last_access_seq := seq + 1\<rparr>)"
    by (intro max_by_key_unique) auto
  then show ?thesis by (simp add: most_recent_session_id_def)
qed

lemma most_recent_live:
  assumes "registry_ok sid seq r" and "most_recent_session_id r = Some i"
  shows "get_session i r \<noteq> None"
proof -
  from assms(2) obtain m where "max_by_key (\<lambda>e. sm_last_access_seq (snd e)) (sr_metadata r) = Some (i, m)"
    by (auto simp: most_recent_session_id_def)
  then have "(i, m) \<in> set (sr_metadata r)" by (drule_tac max_by_key_Some) simp
  moreover have "hm_ok (sr_metadata r)" using assms(1) by (simp add: registry_ok_def)
  ultimately have "hm_get (sr_metadata r) i \<noteq> None" using hm_get_mem by fastforce
  with registry_ok_live [OF assms(1)] show ?thesis by blast
qed

lemma most_recent_exists:
  assumes "registry_ok sid seq r" and "\<not> registry_is_empty r"
  shows "most_recent_session_id r \<noteq> None"
proof -
  obtain i s where "(i, s) \<in> set (sr_sessions r)" using assms(2) by (cases "sr_sessions r") (auto simp: registry_is_empty_def)
  then have "hm_get (sr_sessions r) i \<noteq> None" using assms(1) by (auto simp: registry_ok_def hm_ok_def)
  with registry_ok_live [OF assms(1)] have "hm_get (sr_metadata r) i \<noteq> None" by (simp add: get_session_def)
  then have "sr_metadata r \<noteq> []" by auto
  then show ?thesis by (simp add: most_recent_session_id_def)
qed

lemma most_recent_None_iff:
  assumes "registry_ok sid seq r"
  shows "most_recent_session_id r = None \<longleftrightarrow> registry_is_empty r"
proof
  assume "registry_is_empty r"
  then have "get_session i r = None" for i by (simp add: get_session_def registry_is_empty_def)
  with most_recent_live [OF assms] show "most_recent_session_id r = None" by (metis not_Some_eq)
qed (use most_recent_exists [OF assms] in blast)

text \<open>The access sequence is not about to wrap: a window may bump it twice.\<close>

definition seq_far :: "'s desk \<Rightarrow> bool" where
  "seq_far d \<longleftrightarrow> d_access_seq d \<noteq> -1 \<and> d_access_seq d + 1 \<noteq> -1"

lemma spawn_local_session_Inr:
  assumes "spawn_local_session sid spawn d = (Inr session, d')" and "desk_ok sid d" and "seq_far d"
  shows "desk_ok sid d' \<and> d_access_seq d' = d_access_seq d + 1
     \<and> get_session (sid session) (d_sessions d') = Some session \<and> d_policy d' = d_policy d"
proof -
  have d': "d_sessions d' = insert_session sid session SessionLocal None (d_access_seq d + 1) (d_sessions d)"
    "d_access_seq d' = d_access_seq d + 1" "d_policy d' = d_policy d"
    using assms(1)
    by (auto simp: spawn_local_session_def register_session_def bump_access_seq_def Let_def split: sum.splits)
  have "desk_ok sid d'"
    using assms(2,3) registry_ok_insert [of sid "d_access_seq d" "d_sessions d"] by (simp add: desk_ok_def d' seq_far_def)
  moreover have "get_session (sid session) (d_sessions d') = Some session"
    by (simp add: d' insert_session_def get_session_def)
  ultimately show ?thesis using d' by simp
qed

lemma touch_session_ok:
  assumes "desk_ok sid d" and "d_access_seq d \<noteq> -1" and "get_session i (d_sessions d) \<noteq> None"
  shows "desk_ok sid (touch_session i d) \<and> most_recent_session_id (d_sessions (touch_session i d)) = Some i
     \<and> get_session i (d_sessions (touch_session i d)) = get_session i (d_sessions d)"
  using assms registry_ok_touch [of sid "d_access_seq d" "d_sessions d" i]
    touched_most_recent [of sid "d_access_seq d" "d_sessions d" i]
  by (simp add: touch_session_def bump_access_seq_def Let_def desk_ok_def) (simp add: touch_def get_session_def)

text \<open>Which session is chosen, before it is touched.\<close>

lemma attach_session_chosen:
  assumes "attach_session sid spawn target d = (Inr i, t)" and "desk_ok sid d" and "seq_far d"
  obtains d' where "desk_ok sid d'" "d_access_seq d' \<noteq> -1" "get_session i (d_sessions d') \<noteq> None"
    "t = touch_session i d'" "target = TargetSession j \<Longrightarrow> i = j \<and> d' = d"
    "target = MostRecentOrNew \<Longrightarrow> \<not> registry_is_empty (d_sessions d) \<Longrightarrow>
       Some i = most_recent_session_id (d_sessions d) \<and> d' = d"
    "d_policy d' = d_policy d"
proof (cases target)
  case MostRecentOrNew
  show thesis
  proof (cases "most_recent_session_id (d_sessions d)")
    case None
    with MostRecentOrNew assms(1) obtain session d' where
      sp: "spawn_local_session sid spawn d = (Inr session, d')" and i: "i = sid session" "t = touch_session i d'"
      by (auto simp: attach_session_def and_then_eq_Inr split: prod.splits sum.splits)
    from spawn_local_session_Inr [OF sp assms(2,3)] i None MostRecentOrNew assms(2,3)
      most_recent_exists [of sid "d_access_seq d" "d_sessions d"]
    show thesis by (intro that [of d']) (auto simp: seq_far_def desk_ok_def)
  next
    case (Some k)
    with MostRecentOrNew assms most_recent_live [of sid "d_access_seq d" "d_sessions d" k]
    show thesis by (intro that [of d]) (auto simp: attach_session_def and_then_eq_Inr seq_far_def desk_ok_def)
  qed
next
  case NewLocal
  with assms(1) obtain session d' where
    sp: "spawn_local_session sid spawn d = (Inr session, d')" and i: "i = sid session" "t = touch_session i d'"
    by (auto simp: attach_session_def and_then_eq_Inr)
  from spawn_local_session_Inr [OF sp assms(2,3)] i NewLocal assms(3)
  show thesis by (intro that [of d']) (auto simp: seq_far_def)
next
  case (TargetSession k)
  with assms(1) obtain session where "get_session k (d_sessions d) = Some session" "i = sid session" "t = touch_session i d"
    by (auto simp: attach_session_def and_then_eq_Inr split: option.splits)
  moreover have "sid session = k" if "get_session k (d_sessions d) = Some session" for session
    using assms(2) that by (simp add: desk_ok_def registry_ok_def get_session_def)
  ultimately show thesis using TargetSession assms(2,3) by (intro that [of d]) (auto simp: seq_far_def)
qed

section \<open>Properties\<close>

text \<open>A desk with two sessions, named by their own identifiers; the shell fails to start.\<close>

definition demo_desk :: "u64 desk" where
  "demo_desk =
     register_session id 9 SessionRemote None (register_session id 4 SessionLocal None
       \<lparr>d_sessions = empty_registry, d_open_windows = 0,
        d_policy = \<lparr>keep_running_without_windows = True, hide_on_last_window_close = True,
                    keep_sessions_alive_without_windows = True\<rparr>,
        d_access_seq = 0, d_spawns = 0\<rparr>)"

lemma demo_desk_eval:
  "demo_desk = \<lparr>d_sessions = \<lparr>sr_sessions = [(4, 4), (9, 9)],
      sr_metadata = [(4, \<lparr>sm_kind = SessionLocal, sm_last_access_seq = 1, sm_origin = None\<rparr>),
                     (9, \<lparr>sm_kind = SessionRemote, sm_last_access_seq = 2, sm_origin = None\<rparr>)]\<rparr>,
      d_open_windows = 0,
      d_policy = \<lparr>keep_running_without_windows = True, hide_on_last_window_close = True,
                  keep_sessions_alive_without_windows = True\<rparr>, d_access_seq = 2, d_spawns = 0\<rparr>"
  by (simp add: demo_desk_def register_session_def bump_access_seq_def Let_def insert_session_def empty_registry_def)

lemma demo_desk_ok: "desk_ok id demo_desk" and demo_desk_far: "seq_far demo_desk"
  by (auto simp: desk_ok_def registry_ok_def demo_desk_eval hm_ok_def seq_far_def split: if_splits)

text \<open>
  C36. A prepared window is attached to a live session, which is from then on the most recent one;
  asking for a session attaches to that one, and asking for the most recent one attaches to the one
  accessed last, without starting a new shell, whenever a session is open.
\<close>

theorem window_attaches_to_live_session:
  assumes "attach_session sid spawn target d = (Inr i, t)" and "desk_ok sid d" and "seq_far d"
  shows "desk_ok sid t \<and> get_session i (d_sessions t) \<noteq> None
     \<and> most_recent_session_id (d_sessions t) = Some i
     \<and> (target = TargetSession j \<longrightarrow> i = j)
     \<and> (target = MostRecentOrNew \<and> \<not> registry_is_empty (d_sessions d) \<longrightarrow>
          Some i = most_recent_session_id (d_sessions d) \<and> d_spawns t = d_spawns d)"
proof -
  from attach_session_chosen [OF assms, of j] obtain d' where d': "desk_ok sid d'" "d_access_seq d' \<noteq> -1"
      "get_session i (d_sessions d') \<noteq> None" "t = touch_session i d'"
    and j: "target = TargetSession j \<Longrightarrow> i = j \<and> d' = d"
    and m: "target = MostRecentOrNew \<Longrightarrow> \<not> registry_is_empty (d_sessions d) \<Longrightarrow>
       Some i = most_recent_session_id (d_sessions d) \<and> d' = d" by blast
  have "d_spawns (touch_session i d') = d_spawns d'"
    by (simp add: touch_session_def bump_access_seq_def Let_def)
  with touch_session_ok [OF d'(1-3)] d'(3) j m show ?thesis unfolding d'(4) by auto
qed

lemma demo_attach: "\<exists>t. attach_session id (\<lambda>_. Inl ''no shell'') MostRecentOrNew demo_desk = (Inr 9, t)"
  by (simp add: attach_session_def demo_desk_eval most_recent_session_id_def max_by_key_def)

theorem window_attaches_to_live_session_witness:
  "\<exists>t. attach_session id (\<lambda>_. Inl ''no shell'') MostRecentOrNew demo_desk = (Inr 9, t)
     \<and> most_recent_session_id (d_sessions t) = Some 9"
proof -
  from demo_attach obtain t where t: "attach_session id (\<lambda>_. Inl ''no shell'') MostRecentOrNew demo_desk = (Inr 9, t)" ..
  from window_attaches_to_live_session [OF t demo_desk_ok demo_desk_far, of 0] t show ?thesis by blast
qed

text \<open>
  Preparing a window fails in exactly three cases: a new shell is wanted and does not start, the
  most recent session is wanted, none is open and no shell starts, or the wanted session is gone.
\<close>

theorem window_fails_only_without_session:
  assumes "desk_ok sid d"
  shows "(\<exists>e t. attach_session sid spawn target d = (Inl e, t)) \<longleftrightarrow>
     (case target of
        NewLocal \<Rightarrow> \<exists>e. spawn (d_spawns d) = Inl e
      | MostRecentOrNew \<Rightarrow> registry_is_empty (d_sessions d) \<and> (\<exists>e. spawn (d_spawns d) = Inl e)
      | TargetSession i \<Rightarrow> get_session i (d_sessions d) = None)"
proof (cases target)
  case MostRecentOrNew
  have "most_recent_session_id (d_sessions d) = None \<longleftrightarrow> registry_is_empty (d_sessions d)"
    using assms unfolding desk_ok_def by (rule most_recent_None_iff)
  with MostRecentOrNew show ?thesis
    by (auto simp: attach_session_def and_then_def spawn_local_session_def Let_def split: option.splits sum.splits prod.splits)
qed (auto simp: attach_session_def and_then_def spawn_local_session_def Let_def split: option.splits sum.splits)

theorem window_fails_only_without_session_witness:
  "\<exists>e t. attach_session id (\<lambda>_. Inl ''no shell'') (TargetSession 7) demo_desk = (Inl e, t)"
  using window_fails_only_without_session [OF demo_desk_ok, of "\<lambda>_. Inl ''no shell''" "TargetSession 7"]
  by (simp add: demo_desk_eval get_session_def)

text \<open>
  The session list shows every open session exactly once, ordered by identifier; closing a
  session removes it, and only it, and reports whether it was open.
\<close>

theorem session_list_exact:
  assumes "desk_ok sid d" and "close_session i d = (removed, t)"
  shows "sorted (map sid (list_sessions sid (d_sessions d)))
     \<and> distinct (map sid (list_sessions sid (d_sessions d)))
     \<and> set (list_sessions sid (d_sessions t)) = {s \<in> set (list_sessions sid (d_sessions d)). sid s \<noteq> i}
     \<and> (removed \<longleftrightarrow> (\<exists>s \<in> set (list_sessions sid (d_sessions d)). sid s = i))
     \<and> desk_ok sid t"
proof -
  let ?m = "sr_sessions (d_sessions d)"
  have ok: "hm_ok ?m" and sid: "\<And>j s. hm_get ?m j = Some s \<Longrightarrow> sid s = j"
    using assms(1) by (auto simp: desk_ok_def registry_ok_def)
  then have mem: "(j, s) \<in> set ?m \<Longrightarrow> sid s = j" for j s by (simp add: hm_get_mem)
  then have "map sid (map snd ?m) = map fst ?m" by (auto simp: comp_def)
  then have dist: "distinct (map sid (map snd ?m))" using ok by (simp only: hm_ok_def)
  have "distinct (map sid (list_sessions sid (d_sessions d)))"
  proof -
    have "mset (map sid (list_sessions sid (d_sessions d))) = mset (map sid (map snd ?m))"
      by (simp only: list_sessions_def mset_map mset_sort)
    with dist show ?thesis by (metis mset_eq_imp_distinct_iff)
  qed
  moreover have "sorted (map sid (list_sessions sid (d_sessions d)))" by (simp add: list_sessions_def)
  moreover have t: "t = d\<lparr>d_sessions := snd (remove_session i (d_sessions d))\<rparr>" "removed \<longleftrightarrow> hm_get ?m i \<noteq> None"
    using assms(2) by (auto simp: close_session_def Let_def remove_session_def)
  moreover have rm: "set (hm_remove i ?m) = {e \<in> set ?m. fst e \<noteq> i}"
    by (auto simp: AList.delete_eq)
  have "snd ` set (hm_remove i ?m) = {s \<in> snd ` set ?m. sid s \<noteq> i}"
    unfolding rm using mem by force
  then have "set (list_sessions sid (d_sessions t)) = {s \<in> set (list_sessions sid (d_sessions d)). sid s \<noteq> i}"
    by (simp add: t list_sessions_def remove_session_def)
  moreover have "hm_get ?m i \<noteq> None \<longleftrightarrow> (\<exists>s \<in> snd ` set ?m. sid s = i)"
    unfolding hm_keys [symmetric] using mem by force
  then have "hm_get ?m i \<noteq> None \<longleftrightarrow> (\<exists>s \<in> set (list_sessions sid (d_sessions d)). sid s = i)"
    by (simp add: list_sessions_def)
  moreover have "desk_ok sid t"
    using assms(1) registry_ok_remove by (auto simp: desk_ok_def t)
  ultimately show ?thesis by blast
qed

theorem session_list_exact_witness:
  "\<exists>t. close_session 4 demo_desk = (True, t) \<and> set (list_sessions id (d_sessions t)) = {9}"
proof -
  obtain t where t: "close_session 4 demo_desk = (True, t)"
    by (simp add: close_session_def remove_session_def demo_desk_eval)
  from session_list_exact [OF demo_desk_ok t] t show ?thesis
    by (auto simp: list_sessions_def demo_desk_eval)
qed

end
