(* ===== verification/Core_Auth_Index.thy ===== *)
theory Core_Auth_Index
  imports Rust_Maps Vault_Model Machines
begin

text \<open>
  The authentication reference index of \<^verbatim>\<open>seance-core/src/lib.rs\<close>: which saved hosts use a
  private key or a password credential. It is kept in three hash maps, one by host and two inverted
  ones, and updated in place. \<open>lower\<close> is \<open>str::to_lowercase\<close>; nothing here depends on what it does.
\<close>

record host_reference_summary =
  hr_vault_id :: string
  hr_vault_name :: string
  hr_host_id :: string
  hr_host_label :: string

record indexed_host_auth_references =
  ix_host_reference :: host_reference_summary
  ix_key_ids :: "string list"
  ix_credential_ids :: "string list"

type_synonym host_scope = "string \<times> string"

record auth_reference_index =
  hosts_by_scope :: "(host_scope, indexed_host_auth_references) hashmap"
  hosts_for_keys :: "(host_scope, host_reference_summary list) hashmap"
  hosts_for_credentials :: "(host_scope, host_reference_summary list) hashmap"

definition empty_index :: auth_reference_index where
  "empty_index = \<lparr>hosts_by_scope = [], hosts_for_keys = [], hosts_for_credentials = []\<rparr>"

section \<open>Operations\<close>

definition reference_order :: "(string \<Rightarrow> string) \<Rightarrow> host_reference_summary \<Rightarrow> string \<times> string" where
  "reference_order lower h = (lower (hr_host_label h), hr_host_id h)"

definition sort_host_references ::
  "(string \<Rightarrow> string) \<Rightarrow> host_reference_summary list \<Rightarrow> host_reference_summary list" where
  "sort_host_references lower hosts = sort_key (reference_order lower) hosts"

text \<open>The two hash sets of ids, then sorted into vectors.\<close>

fun note_auth_ref :: "host_auth_ref \<Rightarrow> string list \<times> string list \<Rightarrow> string list \<times> string list" where
  "note_auth_ref (AuthPassword c) (ks, cs) = (ks, List.insert c cs)"
| "note_auth_ref (AuthPrivateKey k p) (ks, cs) =
     (List.insert k ks, case p of None \<Rightarrow> cs | Some c \<Rightarrow> List.insert c cs)"

definition collect_host_auth_reference_ids :: "host_auth_ref list \<Rightarrow> string list \<times> string list" where
  "collect_host_auth_reference_ids auth_order =
     (let (key_ids, credential_ids) = fold note_auth_ref auth_order ([], [])
      in (sort key_ids, sort credential_ids))"

abbreviation refs_at :: "(host_scope, host_reference_summary list) hashmap \<Rightarrow> host_scope \<Rightarrow> host_reference_summary list" where
  "refs_at m k \<equiv> case hm_get m k of None \<Rightarrow> [] | Some l \<Rightarrow> l"

definition push_reference ::
  "(string \<Rightarrow> string) \<Rightarrow> string \<Rightarrow> host_reference_summary \<Rightarrow> string \<Rightarrow>
   (host_scope, host_reference_summary list) hashmap \<Rightarrow> (host_scope, host_reference_summary list) hashmap" where
  "push_reference lower vault_id r i m =
     hm_insert (vault_id, i) (sort_host_references lower (refs_at m (vault_id, i) @ [r])) m"

definition retain_reference ::
  "host_scope \<Rightarrow> string \<Rightarrow>
   (host_scope, host_reference_summary list) hashmap \<Rightarrow> (host_scope, host_reference_summary list) hashmap" where
  "retain_reference scope i m =
     (case hm_get m (fst scope, i) of
        None \<Rightarrow> m
      | Some hosts \<Rightarrow>
          (let hosts' = filter (\<lambda>h. hr_host_id h \<noteq> snd scope) hosts
           in if hosts' = [] then hm_remove (fst scope, i) m else hm_insert (fst scope, i) hosts' m))"

definition remove_host_auth_reference_by_scope :: "host_scope \<Rightarrow> auth_reference_index \<Rightarrow> auth_reference_index" where
  "remove_host_auth_reference_by_scope scope ix =
     (case hm_get (hosts_by_scope ix) scope of
        None \<Rightarrow> ix
      | Some e \<Rightarrow>
          ix\<lparr>hosts_by_scope := hm_remove scope (hosts_by_scope ix),
             hosts_for_keys := fold (retain_reference scope) (ix_key_ids e) (hosts_for_keys ix),
             hosts_for_credentials := fold (retain_reference scope) (ix_credential_ids e) (hosts_for_credentials ix)\<rparr>)"

definition remove_host_auth_reference :: "string \<Rightarrow> string \<Rightarrow> auth_reference_index \<Rightarrow> auth_reference_index" where
  "remove_host_auth_reference vault_id host_id = remove_host_auth_reference_by_scope (vault_id, host_id)"

definition upsert_host_auth_reference_summary ::
  "(string \<Rightarrow> string) \<Rightarrow> string \<Rightarrow> string \<Rightarrow> host_auth_summary \<Rightarrow> auth_reference_index \<Rightarrow> auth_reference_index" where
  "upsert_host_auth_reference_summary lower vault_id vault_name host ix0 =
     (let scope = (vault_id, ha_host_id host);
          ix = remove_host_auth_reference_by_scope scope ix0;
          (key_ids, credential_ids) = collect_host_auth_reference_ids (ha_auth_order host);
          r = \<lparr>hr_vault_id = vault_id, hr_vault_name = vault_name,
               hr_host_id = ha_host_id host, hr_host_label = ha_host_label host\<rparr>
      in ix\<lparr>hosts_for_keys := fold (push_reference lower vault_id r) key_ids (hosts_for_keys ix),
            hosts_for_credentials := fold (push_reference lower vault_id r) credential_ids (hosts_for_credentials ix),
            hosts_by_scope := hm_insert scope
              \<lparr>ix_host_reference = r, ix_key_ids = key_ids, ix_credential_ids = credential_ids\<rparr> (hosts_by_scope ix)\<rparr>)"

definition upsert_host_auth_reference ::
  "(string \<Rightarrow> string) \<Rightarrow> string \<Rightarrow> string \<Rightarrow> vault_host_profile \<Rightarrow> auth_reference_index \<Rightarrow> auth_reference_index" where
  "upsert_host_auth_reference lower vault_id vault_name host =
     upsert_host_auth_reference_summary lower vault_id vault_name (auth_summary host)"

definition remove_vault_auth_reference_index :: "string \<Rightarrow> auth_reference_index \<Rightarrow> auth_reference_index" where
  "remove_vault_auth_reference_index vault_id ix =
     fold remove_host_auth_reference_by_scope
       (filter (\<lambda>scope. fst scope = vault_id) (map fst (hosts_by_scope ix))) ix"

section \<open>The invariant\<close>

text \<open>
  \<open>inverts ids S m\<close>: under each vault and id the map \<open>m\<close> holds, in order and once each, exactly the
  references of the indexed hosts \<open>S\<close> of that vault whose \<open>ids\<close> contain the id, and no empty list.
\<close>

type_synonym indexed_hosts = "host_scope \<Rightarrow> indexed_host_auth_references option"

definition users_of :: "(indexed_host_auth_references \<Rightarrow> string list) \<Rightarrow> indexed_hosts \<Rightarrow> host_scope \<Rightarrow> host_reference_summary set" where
  "users_of ids S k = {ix_host_reference e | h e. S (fst k, h) = Some e \<and> snd k \<in> set (ids e)}"

definition inverts ::
  "(string \<Rightarrow> string) \<Rightarrow> (indexed_host_auth_references \<Rightarrow> string list) \<Rightarrow> indexed_hosts \<Rightarrow>
   (host_scope, host_reference_summary list) hashmap \<Rightarrow> bool" where
  "inverts lower ids S m \<longleftrightarrow> hm_ok m \<and> (\<forall>k. sorted (map (reference_order lower) (refs_at m k))
     \<and> distinct (refs_at m k) \<and> set (refs_at m k) = users_of ids S k \<and> hm_get m k \<noteq> Some [])"

definition scoped :: "indexed_hosts \<Rightarrow> bool" where
  "scoped S \<longleftrightarrow> (\<forall>v h e. S (v, h) = Some e \<longrightarrow> hr_vault_id (ix_host_reference e) = v
     \<and> hr_host_id (ix_host_reference e) = h \<and> distinct (ix_key_ids e) \<and> distinct (ix_credential_ids e))"

definition index_ok :: "(string \<Rightarrow> string) \<Rightarrow> auth_reference_index \<Rightarrow> bool" where
  "index_ok lower ix \<longleftrightarrow> hm_ok (hosts_by_scope ix) \<and> scoped (hm_get (hosts_by_scope ix))
     \<and> inverts lower ix_key_ids (hm_get (hosts_by_scope ix)) (hosts_for_keys ix)
     \<and> inverts lower ix_credential_ids (hm_get (hosts_by_scope ix)) (hosts_for_credentials ix)"

lemma index_ok_empty: "index_ok lower empty_index"
  by (simp add: index_ok_def empty_index_def scoped_def inverts_def users_of_def)

text \<open>Dropping and adding one host, first for one list of ids.\<close>

lemma refs_retain_fold:
  "refs_at (fold (retain_reference scope) ids m) k =
     (if fst k = fst scope \<and> snd k \<in> set ids then filter (\<lambda>h. hr_host_id h \<noteq> snd scope) (refs_at m k) else refs_at m k)"
proof (induction ids arbitrary: m)
  case (Cons i ids)
  have "refs_at (retain_reference scope i m) k =
      (if k = (fst scope, i) then filter (\<lambda>h. hr_host_id h \<noteq> snd scope) (refs_at m k) else refs_at m k)"
    by (auto simp: retain_reference_def Let_def split: option.splits)
  with Cons show ?case by (cases k; cases scope) auto
qed simp

lemma retain_fold_ok:
  assumes "hm_ok m" and "\<And>k. hm_get m k \<noteq> Some []"
  shows "hm_ok (fold (retain_reference scope) ids m) \<and> hm_get (fold (retain_reference scope) ids m) k \<noteq> Some []"
  using assms
proof (induction ids arbitrary: m)
  case (Cons i ids)
  have "hm_ok (retain_reference scope i m)"
    using Cons.prems(1) by (simp add: retain_reference_def Let_def split: option.split)
  moreover have "hm_get (retain_reference scope i m) k \<noteq> Some []" for k
    using Cons.prems(2) by (simp add: retain_reference_def Let_def split: option.split)
  ultimately show ?case using Cons.IH by simp
qed simp

lemma refs_push_fold:
  assumes "distinct ids"
  shows "refs_at (fold (push_reference lower v r) ids m) k =
     (if fst k = v \<and> snd k \<in> set ids then sort_host_references lower (refs_at m k @ [r]) else refs_at m k)"
  using assms
proof (induction ids arbitrary: m)
  case (Cons i ids)
  have "refs_at (push_reference lower v r i m) k =
      (if k = (v, i) then sort_host_references lower (refs_at m k @ [r]) else refs_at m k)"
    by (simp add: push_reference_def)
  with Cons show ?case by (cases k) auto
qed simp

lemma push_fold_ok:
  assumes "hm_ok m" and "\<And>k. hm_get m k \<noteq> Some []"
  shows "hm_ok (fold (push_reference lower v r) ids m) \<and> hm_get (fold (push_reference lower v r) ids m) k \<noteq> Some []"
  using assms
proof (induction ids arbitrary: m)
  case (Cons i ids)
  have "sort_host_references lower (l @ [r]) \<noteq> []" for l
    unfolding sort_host_references_def by (metis append_is_Nil_conv list.distinct(1) set_empty set_sort)
  with Cons.prems have "hm_ok (push_reference lower v r i m)" "hm_get (push_reference lower v r i m) k \<noteq> Some []" for k
    by (simp_all add: push_reference_def)
  with Cons.IH show ?case by simp
qed simp

lemma inverts_retain:
  assumes inv: "inverts lower ids S m" and sc: "scoped S" and e: "S scope = Some e"
  shows "inverts lower ids (S(scope := None)) (fold (retain_reference scope) (ids e) m)"
proof -
  let ?m = "fold (retain_reference scope) (ids e) m"
  have m: "hm_ok m" "\<And>k. hm_get m k \<noteq> Some []" "\<And>k. sorted (map (reference_order lower) (refs_at m k))"
    "\<And>k. distinct (refs_at m k)" "\<And>k. set (refs_at m k) = users_of ids S k"
    using inv by (auto simp: inverts_def)
  have "users_of ids (S(scope := None)) k =
      (if fst k = fst scope \<and> snd k \<in> set (ids e) then {r \<in> users_of ids S k. hr_host_id r \<noteq> snd scope} else users_of ids S k)" for k
  proof -
    have "hr_host_id (ix_host_reference e') = h" if "S (v, h) = Some e'" for v h e'
      using sc that by (simp add: scoped_def)
    with e show ?thesis
      by (cases k; cases scope) (auto simp: users_of_def split: if_splits, (metis option.inject prod.inject)+)
  qed
  with m retain_fold_ok [OF m(1,2), of scope "ids e"] show ?thesis
    by (auto simp only: inverts_def refs_retain_fold set_filter distinct_filter sorted_filter split: if_split)
qed

lemma inverts_push:
  assumes inv: "inverts lower ids S m" and sc: "scoped S" and S: "S scope = None"
    and e: "distinct (ids e)" "hr_host_id (ix_host_reference e) = snd scope"
  shows "inverts lower ids (S(scope \<mapsto> e)) (fold (push_reference lower (fst scope) (ix_host_reference e)) (ids e) m)"
proof -
  let ?r = "ix_host_reference e" and ?m = "fold (push_reference lower (fst scope) (ix_host_reference e)) (ids e) m"
  have m: "hm_ok m" "\<And>k. hm_get m k \<noteq> Some []" "\<And>k. sorted (map (reference_order lower) (refs_at m k))"
    "\<And>k. distinct (refs_at m k)" "\<And>k. set (refs_at m k) = users_of ids S k"
    using inv by (auto simp: inverts_def)
  have users: "users_of ids (S(scope \<mapsto> e)) k =
      (if fst k = fst scope \<and> snd k \<in> set (ids e) then insert ?r (users_of ids S k) else users_of ids S k)" for k
    using S by (cases k; cases scope) (auto simp: users_of_def split: if_splits, (metis option.distinct(1) prod.inject)+)
  have new: "?r \<notin> users_of ids S k" if "fst k = fst scope" for k
    using sc S e(2) that by (cases scope) (auto simp: users_of_def scoped_def)
  have sort: "set (sort_host_references lower l) = set l" "distinct (sort_host_references lower l) = distinct l"
    "sorted (map (reference_order lower) (sort_host_references lower l))" for l
    by (simp_all add: sort_host_references_def)
  have "distinct (refs_at ?m k) \<and> set (refs_at ?m k) = users_of ids (S(scope \<mapsto> e)) k
     \<and> sorted (map (reference_order lower) (refs_at ?m k))" for k
  proof (cases "fst k = fst scope \<and> snd k \<in> set (ids e)")
    case True
    then have refs: "refs_at ?m k = sort_host_references lower (refs_at m k @ [?r])"
      unfolding refs_push_fold [OF e(1)] by (rule if_P)
    from True have u: "users_of ids (S(scope \<mapsto> e)) k = insert ?r (users_of ids S k)" unfolding users by (rule if_P)
    from True new have n: "?r \<notin> users_of ids S k" by blast
    show ?thesis unfolding refs sort(1,2) u using m(4,5) [of k] n sort(3) [of "refs_at m k @ [?r]"] by auto
  next
    case False
    then have refs: "refs_at ?m k = refs_at m k" unfolding refs_push_fold [OF e(1)] by (rule if_not_P)
    from False have u: "users_of ids (S(scope \<mapsto> e)) k = users_of ids S k" unfolding users by (rule if_not_P)
    show ?thesis unfolding refs u using m(3-5) [of k] by blast
  qed
  with push_fold_ok [OF m(1,2)] show ?thesis by (simp only: inverts_def) simp
qed

lemma collect_ids_set:
  "set (fst (collect_host_auth_reference_ids order)) = {k. \<exists>r\<in>set order. \<exists>p. r = AuthPrivateKey k p}
   \<and> set (snd (collect_host_auth_reference_ids order)) =
       {c. \<exists>r\<in>set order. r = AuthPassword c \<or> (\<exists>k. r = AuthPrivateKey k (Some c))}
   \<and> distinct (fst (collect_host_auth_reference_ids order))
   \<and> distinct (snd (collect_host_auth_reference_ids order))"
proof -
  have "set (fst (fold note_auth_ref order acc)) = set (fst acc) \<union> {k. \<exists>r\<in>set order. \<exists>p. r = AuthPrivateKey k p}
   \<and> set (snd (fold note_auth_ref order acc)) =
       set (snd acc) \<union> {c. \<exists>r\<in>set order. r = AuthPassword c \<or> (\<exists>k. r = AuthPrivateKey k (Some c))}
   \<and> (distinct (fst acc) \<longrightarrow> distinct (fst (fold note_auth_ref order acc)))
   \<and> (distinct (snd acc) \<longrightarrow> distinct (snd (fold note_auth_ref order acc)))" for acc
  proof (induction order arbitrary: acc)
    case (Cons r order)
    obtain ks cs where acc: "acc = (ks, cs)" by fastforce
    show ?case
    proof (cases r)
      case (AuthPassword c)
      with Cons.IH [of "(ks, List.insert c cs)"] show ?thesis by (auto simp: acc)
    next
      case (AuthPrivateKey k p)
      with Cons.IH [of "note_auth_ref r acc"] show ?thesis by (auto simp: acc split: option.splits)
    qed
  qed simp
  from this [of "([], [])"] show ?thesis
    by (simp add: collect_host_auth_reference_ids_def case_prod_beta)
qed

section \<open>The index refines a map from hosts to what they use\<close>

abbreviation indexed :: "auth_reference_index \<Rightarrow> indexed_hosts" where
  "indexed ix \<equiv> hm_get (hosts_by_scope ix)"

definition index_entry :: "string \<Rightarrow> string \<Rightarrow> host_auth_summary \<Rightarrow> indexed_host_auth_references" where
  "index_entry vault_id vault_name host =
     \<lparr>ix_host_reference = \<lparr>hr_vault_id = vault_id, hr_vault_name = vault_name,
        hr_host_id = ha_host_id host, hr_host_label = ha_host_label host\<rparr>,
      ix_key_ids = fst (collect_host_auth_reference_ids (ha_auth_order host)),
      ix_credential_ids = snd (collect_host_auth_reference_ids (ha_auth_order host))\<rparr>"

lemma remove_by_scope_ok:
  assumes "index_ok lower ix"
  shows "index_ok lower (remove_host_auth_reference_by_scope scope ix)
     \<and> indexed (remove_host_auth_reference_by_scope scope ix) = (indexed ix)(scope := None)"
proof (cases "indexed ix scope")
  case (Some e)
  have "hm_get (hm_remove scope (hosts_by_scope ix)) = (indexed ix)(scope := None)" by auto
  moreover have "scoped ((indexed ix)(scope := None))" using assms by (simp add: index_ok_def scoped_def)
  ultimately show ?thesis
    using assms Some inverts_retain [of lower _ "indexed ix" _ scope e]
    by (simp add: remove_host_auth_reference_by_scope_def index_ok_def)
qed (use assms in \<open>simp add: remove_host_auth_reference_by_scope_def fun_upd_idem\<close>)

lemma upsert_ok:
  assumes "index_ok lower ix"
  shows "index_ok lower (upsert_host_auth_reference_summary lower v n host ix)
     \<and> indexed (upsert_host_auth_reference_summary lower v n host ix) =
         (indexed ix)((v, ha_host_id host) \<mapsto> index_entry v n host)"
proof -
  let ?scope = "(v, ha_host_id host)" and ?e = "index_entry v n host"
  let ?ix = "remove_host_auth_reference_by_scope ?scope ix"
  let ?up = "upsert_host_auth_reference_summary lower v n host ix"
  from remove_by_scope_ok [OF assms, of ?scope]
  have ok: "index_ok lower ?ix" and ab: "indexed ?ix = (indexed ix)(?scope := None)" by blast+
  have up: "hosts_by_scope ?up = hm_insert ?scope ?e (hosts_by_scope ?ix)"
    "hosts_for_keys ?up = fold (push_reference lower v (ix_host_reference ?e)) (ix_key_ids ?e) (hosts_for_keys ?ix)"
    "hosts_for_credentials ?up = fold (push_reference lower v (ix_host_reference ?e)) (ix_credential_ids ?e) (hosts_for_credentials ?ix)"
    by (simp_all add: upsert_host_auth_reference_summary_def index_entry_def Let_def case_prod_beta)
  have new: "hm_get (hosts_by_scope ?up) = (indexed ?ix)(?scope \<mapsto> ?e)" by (auto simp: up)
  have d: "distinct (ix_key_ids ?e)" "distinct (ix_credential_ids ?e)" "hr_host_id (ix_host_reference ?e) = snd ?scope"
    "hr_vault_id (ix_host_reference ?e) = v"
    using collect_ids_set [of "ha_auth_order host"] by (simp_all add: index_entry_def)
  have sc: "scoped (indexed ?ix)" "indexed ?ix ?scope = None" using ok ab by (simp_all add: index_ok_def)
  have "scoped ((indexed ?ix)(?scope \<mapsto> ?e))" using sc(1) d by (simp add: scoped_def)
  moreover have "inverts lower ix_key_ids ((indexed ?ix)(?scope \<mapsto> ?e)) (hosts_for_keys ?up)"
    using inverts_push [OF _ sc, of lower ix_key_ids "hosts_for_keys ?ix" ?e] ok d by (simp add: index_ok_def up)
  moreover have "inverts lower ix_credential_ids ((indexed ?ix)(?scope \<mapsto> ?e)) (hosts_for_credentials ?up)"
    using inverts_push [OF _ sc, of lower ix_credential_ids "hosts_for_credentials ?ix" ?e] ok d by (simp add: index_ok_def up)
  moreover have "hm_ok (hosts_by_scope ?up)" using ok by (simp add: up index_ok_def)
  moreover have "(indexed ?ix)(?scope \<mapsto> ?e) = (indexed ix)(?scope \<mapsto> ?e)" unfolding ab by (simp only: fun_upd_upd)
  ultimately show ?thesis unfolding index_ok_def new by metis
qed

lemma remove_vault_ok:
  assumes "index_ok lower ix"
  shows "index_ok lower (remove_vault_auth_reference_index v ix)
     \<and> indexed (remove_vault_auth_reference_index v ix) = (\<lambda>k. if fst k = v then None else indexed ix k)"
proof -
  have "index_ok lower (fold remove_host_auth_reference_by_scope scopes ix)
     \<and> indexed (fold remove_host_auth_reference_by_scope scopes ix) = (\<lambda>k. if k \<in> set scopes then None else indexed ix k)"
    if "index_ok lower ix" for scopes ix
    using that
  proof (induction scopes arbitrary: ix)
    case (Cons c scopes)
    from remove_by_scope_ok [OF Cons.prems, of c] Cons.IH [of "remove_host_auth_reference_by_scope c ix"]
    show ?case by (auto simp: fun_eq_iff)
  qed simp
  from this [OF assms, of "filter (\<lambda>scope. fst scope = v) (map fst (hosts_by_scope ix))"]
  show ?thesis by (auto simp: remove_vault_auth_reference_index_def fun_eq_iff hm_keys)
qed

text \<open>
  The controller only changes the index by these three operations; what they mean is told on a map
  from hosts to the vault's name and the host's authentication order.
\<close>

datatype index_op = IndexHost string string host_auth_summary | DropHost string string | DropVault string

fun index_step :: "(string \<Rightarrow> string) \<Rightarrow> index_op \<Rightarrow> auth_reference_index \<Rightarrow> auth_reference_index" where
  "index_step lower (IndexHost v n host) = upsert_host_auth_reference_summary lower v n host"
| "index_step lower (DropHost v h) = remove_host_auth_reference v h"
| "index_step lower (DropVault v) = remove_vault_auth_reference_index v"

type_synonym host_map = "host_scope \<Rightarrow> (string \<times> host_auth_summary) option"

fun host_step :: "index_op \<Rightarrow> host_map \<Rightarrow> host_map" where
  "host_step (IndexHost v n host) H = H((v, ha_host_id host) \<mapsto> (n, host))"
| "host_step (DropHost v h) H = H((v, h) := None)"
| "host_step (DropVault v) H = (\<lambda>k. if fst k = v then None else H k)"

definition entry_at :: "host_map \<Rightarrow> indexed_hosts" where
  "entry_at H k = map_option (\<lambda>(n, host). index_entry (fst k) n host) (H k)"

interpretation index: simulation "index_step lower" host_step "\<lambda>_. True"
    "\<lambda>ix H. index_ok lower ix \<and> indexed ix = entry_at H"
proof unfold_locales
  fix ix H x
  assume rel: "index_ok lower ix \<and> indexed ix = entry_at H"
  show "index_ok lower (index_step lower x ix) \<and> indexed (index_step lower x ix) = entry_at (host_step x H)"
  proof (cases x)
    case (IndexHost v n host)
    with upsert_ok [of lower ix v n host] rel show ?thesis by (auto simp: entry_at_def fun_eq_iff)
  next
    case (DropHost v h)
    with remove_by_scope_ok [of lower ix "(v, h)"] rel show ?thesis
      by (auto simp: entry_at_def fun_eq_iff remove_host_auth_reference_def)
  next
    case (DropVault v)
    with remove_vault_ok [of lower ix v] rel show ?thesis by (auto simp: entry_at_def fun_eq_iff)
  qed
qed

lemma index_run:
  assumes "index_ok lower ix" and "indexed ix = entry_at H"
  shows "index_ok lower (fold (index_step lower) ops ix)
     \<and> indexed (fold (index_step lower) ops ix) = entry_at (fold host_step ops H)"
  using index.rel_run [of lower ix H ops] assms by (simp add: list_all_iff)

definition reference_to :: "string \<Rightarrow> string \<Rightarrow> host_auth_summary \<Rightarrow> host_reference_summary" where
  "reference_to v n host = \<lparr>hr_vault_id = v, hr_vault_name = n, hr_host_id = ha_host_id host, hr_host_label = ha_host_label host\<rparr>"

lemma index_entry_ids:
  "k \<in> set (ix_key_ids (index_entry v n host)) \<longleftrightarrow> (\<exists>p. AuthPrivateKey k p \<in> set (ha_auth_order host))"
  "c \<in> set (ix_credential_ids (index_entry v n host)) \<longleftrightarrow>
     AuthPassword c \<in> set (ha_auth_order host) \<or> (\<exists>k. AuthPrivateKey k (Some c) \<in> set (ha_auth_order host))"
  "ix_host_reference (index_entry v n host) = reference_to v n host"
  by (auto simp: index_entry_def collect_ids_set reference_to_def)

lemma entry_at_Some: "entry_at H (v, i) = Some e \<longleftrightarrow> (\<exists>n host. H (v, i) = Some (n, host) \<and> e = index_entry v n host)"
  by (auto simp: entry_at_def)

lemma users_entry_at:
  "users_of ix_key_ids (entry_at H) (v, k) =
     {reference_to v n host | i n host. H (v, i) = Some (n, host) \<and> (\<exists>p. AuthPrivateKey k p \<in> set (ha_auth_order host))}"
  "users_of ix_credential_ids (entry_at H) (v, c) =
     {reference_to v n host | i n host. H (v, i) = Some (n, host) \<and>
        (AuthPassword c \<in> set (ha_auth_order host) \<or> (\<exists>k. AuthPrivateKey k (Some c) \<in> set (ha_auth_order host)))}"
  unfolding users_of_def fst_conv snd_conv entry_at_Some by (rule Collect_cong, metis index_entry_ids)+

text \<open>
  C35. Whatever hosts were indexed, dropped or re-indexed and whatever vaults were closed, looking up a
  private key (or a credential) in the index gives exactly the hosts now indexed in that vault whose
  authentication order uses it, each once, ordered by label and identifier.
\<close>

theorem index_lists_exact_users:
  defines "ix \<equiv> \<lambda>lower ops. fold (index_step lower) ops empty_index" and "H \<equiv> \<lambda>ops. fold host_step ops (\<lambda>_. None)"
  shows "set (refs_at (hosts_for_keys (ix lower ops)) (v, k)) =
       {reference_to v n host | i n host. H ops (v, i) = Some (n, host)
          \<and> (\<exists>p. AuthPrivateKey k p \<in> set (ha_auth_order host))}
     \<and> set (refs_at (hosts_for_credentials (ix lower ops)) (v, k)) =
       {reference_to v n host | i n host. H ops (v, i) = Some (n, host)
          \<and> (AuthPassword k \<in> set (ha_auth_order host) \<or> (\<exists>i. AuthPrivateKey i (Some k) \<in> set (ha_auth_order host)))}
     \<and> distinct (refs_at (hosts_for_keys (ix lower ops)) (v, k))
     \<and> distinct (refs_at (hosts_for_credentials (ix lower ops)) (v, k))
     \<and> sorted (map (reference_order lower) (refs_at (hosts_for_keys (ix lower ops)) (v, k)))
     \<and> sorted (map (reference_order lower) (refs_at (hosts_for_credentials (ix lower ops)) (v, k)))"
proof -
  have "indexed empty_index = entry_at (\<lambda>_. None)" by (simp add: empty_index_def entry_at_def fun_eq_iff)
  from index_run [OF index_ok_empty this, of lower ops]
  have ok: "index_ok lower (ix lower ops)" and ab: "indexed (ix lower ops) = entry_at (H ops)"
    unfolding ix_def H_def by blast+
  have "inverts lower ix_key_ids (entry_at (H ops)) (hosts_for_keys (ix lower ops))"
    "inverts lower ix_credential_ids (entry_at (H ops)) (hosts_for_credentials (ix lower ops))"
    using ok unfolding index_ok_def ab by blast+
  then show ?thesis unfolding inverts_def users_entry_at [symmetric] by blast
qed

end
