(* ===== verification/Updater.thy ===== *)
theory Updater
  imports Rust_Text Machines
begin

text \<open>
  The updater (seance-updater, lib.rs): the manager with its threads, and the decisions of the two
  backends. A publication sets the state under one mutex and then notifies the subscribers under
  another, as two steps, so that the publications of different threads interleave as they do in the
  program. Network, environment variables and external commands are arguments: an oracle per call.
  Parsing, printing and comparing semantic versions (the semver crate) are parameters.
\<close>

section \<open>Data\<close>

datatype release_channel = ChannelStable

datatype install_mode = InstallPrompted

record update_settings =
  us_auto_check :: bool
  us_install_mode :: install_mode
  us_channel :: release_channel

definition default_update_settings :: update_settings where
  "default_update_settings = \<lparr>us_auto_check = True, us_install_mode = InstallPrompted, us_channel = ChannelStable\<rparr>"

record update_info =
  ui_version :: string
  ui_published_at :: "string option"
  ui_notes_url :: "string option"

datatype update_state =
    Idle
  | Checking
  | Available update_info
  | Downloading
  | Installing
  | ReadyToRelaunch
  | UpToDate
  | UpdateFailed string

datatype update_check = CheckUpToDate | CheckAvailable update_info

section \<open>Versions and the repository\<close>

fun trim_start_matches :: "char \<Rightarrow> string \<Rightarrow> string" where
  "trim_start_matches c s = dropWhile (\<lambda>x. x = c) s"

definition parse_release_version :: "(string \<Rightarrow> 'v option) \<Rightarrow> string \<Rightarrow> string + 'v" where
  "parse_release_version parse raw =
     (case parse (trim_start_matches (CHR ''v'') (trim raw)) of
        None \<Rightarrow> Inl (''failed to parse version '' @ [CHR 0x27] @ raw @ [CHR 0x27])
      | Some v \<Rightarrow> Inr v)"

text \<open>\<open>trim_end_matches\<close> with a non-empty pattern removes it as often as it is at the end.\<close>

function trim_end_matches :: "string \<Rightarrow> string \<Rightarrow> string" where
  "trim_end_matches p s =
     (if p \<noteq> [] \<and> length p \<le> length s \<and> drop (length s - length p) s = p
      then trim_end_matches p (take (length s - length p) s) else s)"
  by pat_completeness auto
termination
  by (relation "measure (\<lambda>(p, s). length s)") (auto simp: min_def)

definition strip_prefix :: "string \<Rightarrow> string \<Rightarrow> string option" where
  "strip_prefix p s = (if take (length p) s = p then Some (drop (length p) s) else None)"

definition first_or_empty :: "string list \<Rightarrow> string" where
  "first_or_empty xs = (case xs of [] \<Rightarrow> [] | x # _ \<Rightarrow> x)"

definition slug_of :: "string \<Rightarrow> (string \<times> string) option" where
  "slug_of rest = (let parts = split_on (CHR ''/'') rest; owner = first_or_empty parts; repo = first_or_empty (tl parts) in
     if owner \<noteq> [] \<and> repo \<noteq> [] then Some (owner, repo) else None)"

definition repository_slug :: "string \<Rightarrow> string + (string \<times> string)" where
  "repository_slug url =
     (let raw = trim_end_matches ''.git'' url in
      case Option.bind (strip_prefix ''https://github.com/'' raw) slug_of of
        Some s \<Rightarrow> Inr s
      | None \<Rightarrow>
          case Option.bind (strip_prefix ''git@github.com:'' raw) slug_of of
            Some s \<Rightarrow> Inr s
          | None \<Rightarrow> Inl ''repository URL must point at a GitHub repository'')"

section \<open>The backends\<close>

record github_release_asset =
  ga_name :: string
  ga_browser_download_url :: string

record github_latest_release =
  gr_tag_name :: string
  gr_html_url :: "string option"
  gr_published_at :: "string option"
  gr_assets :: "github_release_asset list"

text \<open>Versions: parsing, printing and the order, and the version and architecture of the program.\<close>

record 'v version_env =
  ve_parse :: "string \<Rightarrow> 'v option"
  ve_show :: "'v \<Rightarrow> string"
  ve_le :: "'v \<Rightarrow> 'v \<Rightarrow> bool"
  ve_current :: 'v
  ve_arch :: string

text \<open>What a call of the Linux backend meets: the variable \<open>APPIMAGE\<close>, the answer of GitHub, which
  programs can be started, and the exit status of the update tool (whether it is a success, and its
  text).\<close>

record linux_oracle =
  lo_appimage :: "string option"
  lo_release :: "string + github_latest_release"
  lo_starts :: "string \<Rightarrow> bool"
  lo_status :: "string + bool \<times> string"

definition ensure_appimage_install :: "linux_oracle \<Rightarrow> string + string" where
  "ensure_appimage_install w = (case lo_appimage w of
     None \<Rightarrow> Inl ''Updates are available only for AppImage installs.'' | Some p \<Rightarrow> Inr p)"

definition release_notes :: "github_latest_release \<Rightarrow> github_release_asset \<Rightarrow> string option" where
  "release_notes release asset = (case gr_html_url release of
     Some u \<Rightarrow> Some u | None \<Rightarrow> Some (ga_browser_download_url asset))"

definition linux_check :: "'v version_env \<Rightarrow> linux_oracle \<Rightarrow> string + update_check" where
  "linux_check env w =
     and_then_r (ensure_appimage_install w) (\<lambda>_.
     and_then_r (lo_release w) (\<lambda>release.
     and_then_r (parse_release_version (ve_parse env) (gr_tag_name release)) (\<lambda>latest_version.
     let expected_asset = ''seance-linux-'' @ ve_arch env @ ''.AppImage.zsync'' in
     case find (\<lambda>a. ga_name a = expected_asset) (gr_assets release) of
       None \<Rightarrow> Inl (''latest release is missing '' @ expected_asset)
     | Some asset \<Rightarrow>
         if ve_le env latest_version (ve_current env) then Inr CheckUpToDate
         else Inr (CheckAvailable
           \<lparr>ui_version = ve_show env latest_version, ui_published_at = gr_published_at release,
            ui_notes_url = release_notes release asset\<rparr>))))"

definition appimage_update_binary :: "linux_oracle \<Rightarrow> string + string" where
  "appimage_update_binary w = (case find (lo_starts w) [''AppImageUpdate'', ''appimageupdatetool''] of
     Some candidate \<Rightarrow> Inr candidate
   | None \<Rightarrow> Inl ''AppImageUpdate is not available in this runtime.'')"

text \<open>An installation: what it does before it publishes \<open>Installing\<close> (the update tool it found, or an
  error), and from there on: the states it publishes once the tool has returned, and its result. Which
  release is installed is up to the tool; the update the call was made for is not handed to it.\<close>

definition linux_install_prepare :: "linux_oracle \<Rightarrow> string + string" where
  "linux_install_prepare w =
     and_then_r (ensure_appimage_install w) (\<lambda>appimage. appimage_update_binary w)"

definition linux_install_run :: "string \<Rightarrow> linux_oracle \<Rightarrow> update_state list \<times> (string + unit)" where
  "linux_install_run updater w =
     (case lo_status w of
        Inl e \<Rightarrow> ([], Inl (''failed to launch '' @ updater))
      | Inr (success, status) \<Rightarrow>
          if \<not> success then ([], Inl (updater @ '' exited with status '' @ status))
          else ([ReadyToRelaunch], Inr ()))"

text \<open>The macOS backend: whether Sparkle could be initialised, the release of the feed, and whether the
  bridge started Sparkle's own update check, which is all its installation does.\<close>

record macos_oracle =
  mo_support :: "string + unit"
  mo_release :: "string + update_info"
  mo_update :: "string + unit"

definition macos_check :: "'v version_env \<Rightarrow> macos_oracle \<Rightarrow> string + update_check" where
  "macos_check env w =
     and_then_r (mo_support w) (\<lambda>_.
     and_then_r (mo_release w) (\<lambda>release.
     and_then_r (parse_release_version (ve_parse env) (ui_version release)) (\<lambda>latest_version.
       if ve_le env latest_version (ve_current env) then Inr CheckUpToDate else Inr (CheckAvailable release))))"

definition macos_install_prepare :: "macos_oracle \<Rightarrow> string + string" where
  "macos_install_prepare w = Inr ''sparkle''"

definition macos_install_run :: "string \<Rightarrow> macos_oracle \<Rightarrow> update_state list \<times> (string + unit)" where
  "macos_install_run updater w = ([], mo_update w)"

text \<open>The backend of a manager, by its two operations.\<close>

record 'w update_backend_ops =
  bk_check :: "'w \<Rightarrow> string + update_check"
  bk_prepare :: "'w \<Rightarrow> string + string"
  bk_run :: "string \<Rightarrow> 'w \<Rightarrow> update_state list \<times> (string + unit)"

definition linux_backend :: "'v version_env \<Rightarrow> linux_oracle update_backend_ops" where
  "linux_backend env = \<lparr>bk_check = linux_check env, bk_prepare = linux_install_prepare, bk_run = linux_install_run\<rparr>"

definition macos_backend :: "'v version_env \<Rightarrow> macos_oracle update_backend_ops" where
  "macos_backend env = \<lparr>bk_check = macos_check env, bk_prepare = macos_install_prepare, bk_run = macos_install_run\<rparr>"

text \<open>On other platforms every operation is the failing \<open>support_status\<close>.\<close>

definition unsupported_backend :: "string \<Rightarrow> unit update_backend_ops" where
  "unsupported_backend message =
     \<lparr>bk_check = (\<lambda>w. Inl message), bk_prepare = (\<lambda>w. Inl message), bk_run = (\<lambda>updater w. ([], Inl message))\<rparr>"

section \<open>The manager\<close>

text \<open>A thread, by what it does next. \<open>Sending s k\<close> is inside a publication, between setting the
  state and notifying the subscribers, and goes on with \<open>k\<close>; \<open>Subscribing s\<close> is inside \<open>subscribe\<close>,
  with the snapshot \<open>s\<close>. A caller of the manager is inside at most one such step, which is listed as
  a thread of its own.\<close>

datatype updater_thread =
    CheckBegin bool update_settings
  | CheckAwait bool
  | InstallBegin update_info
  | InstallAwait update_info
  | InstallRun update_info string
  | InstallPublish update_info "update_state list" "string + unit"
  | Sending update_state updater_thread
  | Subscribing update_state
  | Finished

text \<open>A subscriber is connected or not, and has the messages sent to it, newest first. The log
  \<open>um_installs\<close> is not in the code: it has the update tools that have run, newest first, each with the
  offer for which the user asked to install and what the call met.\<close>

record 'w update_manager =
  um_settings :: update_settings
  um_state :: update_state
  um_subscribers :: "(bool \<times> update_state list) list"
  um_threads :: "updater_thread list"
  um_installs :: "(update_info \<times> 'w) list"

definition new_update_manager :: "update_settings \<Rightarrow> 'w update_manager" where
  "new_update_manager settings =
     \<lparr>um_settings = settings, um_state = Idle, um_subscribers = [], um_threads = [], um_installs = []\<rparr>"

definition spawn_thread :: "updater_thread \<Rightarrow> 'w update_manager \<Rightarrow> 'w update_manager" where
  "spawn_thread k m = m\<lparr>um_threads := um_threads m @ [k]\<rparr>"

text \<open>The first half of \<open>publish\<close>; the thread goes on in \<open>Sending\<close>.\<close>

definition set_update_state :: "update_state \<Rightarrow> 'w update_manager \<Rightarrow> 'w update_manager" where
  "set_update_state s m = m\<lparr>um_state := s\<rparr>"

definition notify :: "update_state \<Rightarrow> 'w update_manager \<Rightarrow> 'w update_manager" where
  "notify s m = m\<lparr>um_subscribers := map (\<lambda>(c, ms). (c, s # ms)) (filter fst (um_subscribers m))\<rparr>"

text \<open>\<open>subscribe\<close> reads the state under one mutex and joins the subscribers under the other.\<close>

definition subscribe_updates :: "'w update_manager \<Rightarrow> 'w update_manager" where
  "subscribe_updates m = spawn_thread (Subscribing (um_state m)) m"

definition check_internal :: "bool \<Rightarrow> 'w update_manager \<Rightarrow> 'w update_manager" where
  "check_internal silent m = spawn_thread (CheckBegin silent (um_settings m)) m"

definition startup_check :: "'w update_manager \<Rightarrow> 'w update_manager" where
  "startup_check m = (if us_auto_check (um_settings m) then check_internal True m else m)"

definition check_now :: "'w update_manager \<Rightarrow> 'w update_manager" where
  "check_now m = check_internal False m"

definition install_update :: "'w update_manager \<Rightarrow> 'w update_manager" where
  "install_update m =
     (case um_state m of
        Available u \<Rightarrow> spawn_thread (InstallBegin u) m
      | ReadyToRelaunch \<Rightarrow> m
      | _ \<Rightarrow> let s = UpdateFailed ''No downloaded update is ready to install.'' in
               spawn_thread (Sending s Finished) (set_update_state s m))"

definition dismiss_update :: "'w update_manager \<Rightarrow> 'w update_manager" where
  "dismiss_update m = spawn_thread (Sending Idle Finished) (set_update_state Idle m)"

text \<open>The state a finished check publishes.\<close>

fun checked_state :: "bool \<Rightarrow> string + update_check \<Rightarrow> update_state" where
  "checked_state silent (Inr CheckUpToDate) = UpToDate"
| "checked_state silent (Inr (CheckAvailable u)) = Available u"
| "checked_state silent (Inl e) = (if silent then Idle else UpdateFailed e)"

text \<open>One step of a thread; \<open>w\<close> is what its call of the backend meets.\<close>

fun thread_step ::
  "'w update_backend_ops \<Rightarrow> 'w \<Rightarrow> updater_thread \<Rightarrow> 'w update_manager \<Rightarrow> updater_thread \<times> 'w update_manager" where
  "thread_step backend w (CheckBegin silent settings) m =
     (if silent \<and> \<not> us_auto_check settings then (Finished, m)
      else (Sending Checking (CheckAwait silent), set_update_state Checking m))"
| "thread_step backend w (CheckAwait silent) m =
     (let s = checked_state silent (bk_check backend w) in (Sending s Finished, set_update_state s m))"
| "thread_step backend w (InstallBegin u) m =
     (Sending Downloading (InstallAwait u), set_update_state Downloading m)"
| "thread_step backend w (InstallAwait u) m =
     (case bk_prepare backend w of
        Inl e \<Rightarrow> (Sending (UpdateFailed e) Finished, set_update_state (UpdateFailed e) m)
      | Inr updater \<Rightarrow> (Sending Installing (InstallRun u updater), set_update_state Installing m))"
| "thread_step backend w (InstallRun u updater) m =
     (let (published, result) = bk_run backend updater w in
      (InstallPublish u published result, m\<lparr>um_installs := (u, w) # um_installs m\<rparr>))"
| "thread_step backend w (InstallPublish u (s # published) result) m =
     (Sending s (InstallPublish u published result), set_update_state s m)"
| "thread_step backend w (InstallPublish u [] result) m =
     (case result of
        Inr _ \<Rightarrow> if um_state m = ReadyToRelaunch then (Finished, m)
                  else (Sending ReadyToRelaunch Finished, set_update_state ReadyToRelaunch m)
      | Inl e \<Rightarrow> (Sending (UpdateFailed e) Finished, set_update_state (UpdateFailed e) m))"
| "thread_step backend w (Sending s k) m = (k, notify s m)"
| "thread_step backend w (Subscribing s) m =
     (Finished, m\<lparr>um_subscribers := um_subscribers m @ [(True, [s])]\<rparr>)"
| "thread_step backend w Finished m = (Finished, m)"

datatype 'w updater_event =
    StartupCheck | CheckNow | InstallUpdate | DismissUpdate
  | UpdateSettings update_settings | SubscribeUpdates | UnsubscribeUpdates nat
  | RunThread nat 'w

fun updater_step ::
  "'w update_backend_ops \<Rightarrow> 'w updater_event \<Rightarrow> 'w update_manager \<Rightarrow> 'w update_manager" where
  "updater_step backend StartupCheck m = startup_check m"
| "updater_step backend CheckNow m = check_now m"
| "updater_step backend InstallUpdate m = install_update m"
| "updater_step backend DismissUpdate m = dismiss_update m"
| "updater_step backend (UpdateSettings s) m = m\<lparr>um_settings := s\<rparr>"
| "updater_step backend SubscribeUpdates m = subscribe_updates m"
| "updater_step backend (UnsubscribeUpdates k) m =
     m\<lparr>um_subscribers := map (\<lambda>(j, (c, ms)). (c \<and> j \<noteq> k, ms)) (enumerate 0 (um_subscribers m))\<rparr>"
| "updater_step backend (RunThread n w) m =
     (if n < length (um_threads m)
      then let (k, m') = thread_step backend w (um_threads m ! n) m in
        m'\<lparr>um_threads := (um_threads m')[n := k]\<rparr>
      else m)"

section \<open>Offers, installations and their states\<close>

text \<open>A state is justified: an offer is newer, and a relaunch follows a run of the update tool that
  succeeded.\<close>

fun state_justified ::
  "(update_info \<Rightarrow> bool) \<Rightarrow> ('w \<Rightarrow> bool) \<Rightarrow> (update_info \<times> 'w) list \<Rightarrow> update_state \<Rightarrow> bool" where
  "state_justified newer ran_ok log (Available u) = newer u"
| "state_justified newer ran_ok log ReadyToRelaunch = list_ex (\<lambda>(u, w). ran_ok w) log"
| "state_justified newer ran_ok log s = True"

fun thread_justified ::
  "(update_info \<Rightarrow> bool) \<Rightarrow> ('w \<Rightarrow> bool) \<Rightarrow> (update_info \<times> 'w) list \<Rightarrow> updater_thread \<Rightarrow> bool" where
  "thread_justified newer ran_ok log (InstallBegin u) = newer u"
| "thread_justified newer ran_ok log (InstallAwait u) = newer u"
| "thread_justified newer ran_ok log (InstallRun u updater) = newer u"
| "thread_justified newer ran_ok log (InstallPublish u ps r) =
     (newer u \<and> (\<forall>s \<in> set ps. state_justified newer ran_ok log s)
      \<and> (r = Inr () \<longrightarrow> state_justified newer ran_ok log ReadyToRelaunch))"
| "thread_justified newer ran_ok log (Sending s k) =
     (state_justified newer ran_ok log s \<and> thread_justified newer ran_ok log k)"
| "thread_justified newer ran_ok log (Subscribing s) = state_justified newer ran_ok log s"
| "thread_justified newer ran_ok log k = True"

definition manager_justified :: "(update_info \<Rightarrow> bool) \<Rightarrow> ('w \<Rightarrow> bool) \<Rightarrow> 'w update_manager \<Rightarrow> bool" where
  "manager_justified newer ran_ok m \<longleftrightarrow>
     state_justified newer ran_ok (um_installs m) (um_state m)
     \<and> (\<forall>k \<in> set (um_threads m). thread_justified newer ran_ok (um_installs m) k)
     \<and> (\<forall>i \<in> set (um_installs m). newer (fst i))
     \<and> (\<forall>x \<in> set (um_subscribers m). \<forall>s \<in> set (snd x). state_justified newer ran_ok (um_installs m) s)"

text \<open>A state that only a running thread should show, and whether a thread will set the state again.\<close>

fun transient :: "update_state \<Rightarrow> bool" where
  "transient Checking = True"
| "transient Downloading = True"
| "transient Installing = True"
| "transient s = False"

fun owes :: "updater_thread \<Rightarrow> bool" where
  "owes (CheckAwait silent) = True"
| "owes (InstallAwait u) = True"
| "owes (InstallRun u updater) = True"
| "owes (InstallPublish u ps r) = True"
| "owes (Sending s k) = owes k"
| "owes k = False"

definition has_owner :: "'w update_manager \<Rightarrow> bool" where
  "has_owner m \<longleftrightarrow> (transient (um_state m) \<longrightarrow> (\<exists>k \<in> set (um_threads m). owes k))"

text \<open>The steps a thread has left, at most.\<close>

fun steps_left :: "updater_thread \<Rightarrow> nat" where
  "steps_left (CheckBegin silent settings) = 4"
| "steps_left (CheckAwait silent) = 2"
| "steps_left (InstallBegin u) = 9"
| "steps_left (InstallAwait u) = 7"
| "steps_left (InstallRun u updater) = 5"
| "steps_left (InstallPublish u ps r) = 2 * length ps + 2"
| "steps_left (Sending s k) = Suc (steps_left k)"
| "steps_left (Subscribing s) = 1"
| "steps_left Finished = 0"

lemma state_justified_mono: "state_justified newer ran_ok log s \<Longrightarrow> state_justified newer ran_ok (x # log) s"
  by (cases s; cases x) auto

lemma thread_justified_mono: "thread_justified newer ran_ok log k \<Longrightarrow> thread_justified newer ran_ok (x # log) k"
  by (induction k) (auto intro: state_justified_mono)

lemma steps_left_zero [simp]: "steps_left k = 0 \<longleftrightarrow> k = Finished"
  by (cases k) auto

lemma set_list_update: "x \<in> set (xs[n := y]) \<Longrightarrow> x \<in> set xs \<or> x = y"
  using set_update_subset_insert [of xs n y] by auto

section \<open>The contract of a backend\<close>

locale update_backend =
  fixes backend :: "'w update_backend_ops" and newer :: "update_info \<Rightarrow> bool" and ran_ok :: "'w \<Rightarrow> bool"
  assumes check_newer: "bk_check backend w = Inr (CheckAvailable u) \<Longrightarrow> newer u"
    and run_publishes: "s \<in> set (fst (bk_run backend updater w)) \<Longrightarrow> s = ReadyToRelaunch \<and> snd (bk_run backend updater w) = Inr ()"
    and run_succeeds: "snd (bk_run backend updater w) = Inr () \<Longrightarrow> ran_ok w"
    and run_short: "length (fst (bk_run backend updater w)) \<le> 1"
begin

lemma checked_justified: "state_justified newer ran_ok log (checked_state silent (bk_check backend w))"
  using check_newer [of w] by (cases "(silent, bk_check backend w)" rule: checked_state.cases) auto

lemma checked_settled: "\<not> transient (checked_state silent (bk_check backend w))"
  by (cases "(silent, bk_check backend w)" rule: checked_state.cases) auto

text \<open>What one step of a thread changes: the log grows at its head, the subscribers see the state
  only, and the threads stay.\<close>

lemma thread_step_justified:
  assumes "manager_justified newer ran_ok m" "thread_justified newer ran_ok (um_installs m) k"
    "thread_step backend w k m = (k', m')"
  shows "manager_justified newer ran_ok m' \<and> thread_justified newer ran_ok (um_installs m') k'"
proof (cases k)
  case (InstallAwait u)
  with assms show ?thesis
    by (auto simp: manager_justified_def set_update_state_def split: sum.splits)
next
  case (InstallRun u updater)
  obtain ps r where i: "bk_run backend updater w = (ps, r)" by fastforce
  have m': "m' = m\<lparr>um_installs := (u, w) # um_installs m\<rparr>" "k' = InstallPublish u ps r"
    using assms(3) InstallRun i by auto
  have "\<forall>s \<in> set ps. state_justified newer ran_ok ((u, w) # um_installs m) s" "r = Inr () \<longrightarrow> ran_ok w"
    using run_publishes [of _ updater w] run_succeeds [of updater w] i by fastforce+
  with assms(1,2) InstallRun m' show ?thesis
    by (auto simp: manager_justified_def intro: state_justified_mono thread_justified_mono)
next
  case (InstallPublish u ps r)
  with assms show ?thesis
    by (cases ps; cases r) (auto simp: manager_justified_def set_update_state_def split: if_splits)
qed (use assms checked_justified in
    \<open>auto simp: manager_justified_def set_update_state_def notify_def Let_def split: if_splits\<close>)

lemma thread_step_threads [simp]:
  "thread_step backend w k m = (k', m') \<Longrightarrow> um_threads m' = um_threads m"
  by (cases "(backend, w, k, m)" rule: thread_step.cases)
    (auto simp: set_update_state_def notify_def Let_def split: if_splits sum.splits prod.splits)

lemma thread_step_owes:
  "thread_step backend w k m = (k', m') \<Longrightarrow>
   transient (um_state m') \<longrightarrow> owes k' \<or> um_state m' = um_state m \<and> \<not> owes k"
proof (cases k)
  case (InstallPublish u ps r)
  assume "thread_step backend w k m = (k', m')"
  with InstallPublish show ?thesis
    by (cases ps; cases r) (auto simp: set_update_state_def split: if_splits)
qed (use checked_settled in \<open>auto simp: set_update_state_def notify_def Let_def split: if_splits prod.splits sum.splits\<close>)

lemma thread_step_left:
  assumes "thread_step backend w k m = (k', m')"
  shows "steps_left k' \<le> steps_left k - 1"
proof (cases k)
  case (InstallRun u updater)
  with assms run_short [of updater w] show ?thesis by (auto split: prod.splits)
next
  case (InstallPublish u ps r)
  with assms show ?thesis by (cases ps; cases r) (auto split: if_splits)
qed (use assms in \<open>auto simp: Let_def split: if_splits sum.splits\<close>)

end

lemma spawn_justified [simp]:
  "manager_justified newer ran_ok (spawn_thread k m) \<longleftrightarrow>
   manager_justified newer ran_ok m \<and> thread_justified newer ran_ok (um_installs m) k"
  by (auto simp: manager_justified_def spawn_thread_def)

lemma set_state_justified [simp]:
  "manager_justified newer ran_ok m \<Longrightarrow> state_justified newer ran_ok (um_installs m) s \<Longrightarrow> manager_justified newer ran_ok (set_update_state s m)"
  by (simp add: manager_justified_def set_update_state_def)

lemma set_state_installs [simp]: "um_installs (set_update_state s m) = um_installs m"
  by (simp add: set_update_state_def)

lemma enumerate_mem: "(j, x) \<in> set (enumerate n xs) \<Longrightarrow> x \<in> set xs"
  by (auto simp: in_set_enumerate_eq)

lemma updater_step_threads:
  assumes "\<forall>n w. e \<noteq> RunThread n w"
  shows "\<exists>ks. um_threads (updater_step backend e m) = um_threads m @ ks \<and> (\<forall>k \<in> set ks. steps_left k \<le> 9)
    \<and> (transient (um_state (updater_step backend e m)) \<longrightarrow> um_state (updater_step backend e m) = um_state m)"
  using assms
  by (cases e) (auto simp: startup_check_def check_now_def check_internal_def install_update_def dismiss_update_def
      subscribe_updates_def spawn_thread_def set_update_state_def Let_def split: update_state.splits)

context update_backend
begin

lemma justified_step:
  assumes "manager_justified newer ran_ok m"
  shows "manager_justified newer ran_ok (updater_step backend e m)"
proof (cases e)
  case (RunThread n w)
  obtain k m' where t: "thread_step backend w (um_threads m ! n) m = (k, m')" by fastforce
  show ?thesis
  proof (cases "n < length (um_threads m)")
    case True
    with assms have "thread_justified newer ran_ok (um_installs m) (um_threads m ! n)"
      by (simp add: manager_justified_def)
    from thread_step_justified [OF assms this t] RunThread True t show ?thesis
      by (auto simp: manager_justified_def dest!: set_list_update)
  qed (simp add: RunThread assms)
next
  case (UnsubscribeUpdates k)
  with assms show ?thesis
    by (auto simp: manager_justified_def dest!: enumerate_mem)
next
  case InstallUpdate
  with assms show ?thesis
    by (cases "um_state m") (auto simp: install_update_def Let_def manager_justified_def spawn_thread_def set_update_state_def)
qed (use assms in \<open>auto simp: startup_check_def check_now_def check_internal_def dismiss_update_def
    subscribe_updates_def manager_justified_def spawn_thread_def set_update_state_def\<close>)

lemma owned_step:
  assumes "has_owner m"
  shows "has_owner (updater_step backend e m)"
proof (cases "\<exists>n w. e = RunThread n w")
  case True
  then obtain n w where e: "e = RunThread n w" by auto
  obtain k m' where t: "thread_step backend w (um_threads m ! n) m = (k, m')" by fastforce
  show ?thesis
  proof (cases "n < length (um_threads m)")
    case n: True
    have "\<exists>k' \<in> set ((um_threads m)[n := k]). owes k'" if tr: "transient (um_state m')"
    proof (cases "owes k")
      case True
      with n show ?thesis by (auto intro: set_update_memI)
    next
      case False
      with thread_step_owes [OF t] tr have "um_state m' = um_state m" "\<not> owes (um_threads m ! n)" by auto
      with assms tr obtain j where "j < length (um_threads m)" "owes (um_threads m ! j)" "j \<noteq> n"
        by (metis has_owner_def in_set_conv_nth)
      then show ?thesis by (metis length_list_update nth_list_update_neq nth_mem)
    qed
    with e n t show ?thesis by (simp add: has_owner_def)
  qed (simp add: e assms)
next
  case False
  with updater_step_threads [of e backend m] assms show ?thesis
    by (fastforce simp: has_owner_def)
qed

text \<open>The threads a run leaves behind: none has more than nine steps left, a step of one is one fewer
  and leaves the others.\<close>

lemma run_thread_left:
  "n < length (um_threads m) \<Longrightarrow>
   length (um_threads (updater_step backend (RunThread j w) m)) = length (um_threads m)
   \<and> steps_left (um_threads (updater_step backend (RunThread j w) m) ! n)
       \<le> steps_left (um_threads m ! n) - (if j = n then 1 else 0)"
  using thread_step_left [of w "um_threads m ! j" m]
  by (auto simp: nth_list_update split: prod.splits)

lemma bounded_step:
  "list_all (\<lambda>k. steps_left k \<le> 9) (um_threads m) \<Longrightarrow>
   list_all (\<lambda>k. steps_left k \<le> 9) (um_threads (updater_step backend e m))"
proof (cases "\<exists>n w. e = RunThread n w")
  case True
  assume a: "list_all (\<lambda>k. steps_left k \<le> 9) (um_threads m)"
  from True obtain n w where e: "e = RunThread n w" by auto
  show ?thesis
  proof (cases "n < length (um_threads m)")
    case True
    with a run_thread_left [of _ m n w] show ?thesis
      unfolding e list_all_length
      by (metis diff_le_self le_trans)
  qed (simp add: e a)
next
  case False
  assume "list_all (\<lambda>k. steps_left k \<le> 9) (um_threads m)"
  with updater_step_threads [of e backend m] False show ?thesis
    by (fastforce simp: list_all_iff)
qed

end

sublocale update_backend \<subseteq> justified: machine "updater_step backend" "\<lambda>_. True" "manager_justified newer ran_ok"
  by unfold_locales (rule justified_step)

sublocale update_backend \<subseteq> owners: machine "updater_step backend" "\<lambda>_. True" has_owner
  by unfold_locales (rule owned_step)

sublocale update_backend \<subseteq> bounded: machine "updater_step backend" "\<lambda>_. True"
  "\<lambda>m. list_all (\<lambda>k. steps_left k \<le> 9) (um_threads m)"
  by unfold_locales (rule bounded_step)

fun run_threads :: "'w update_backend_ops \<Rightarrow> (nat \<times> 'w) list \<Rightarrow> 'w update_manager \<Rightarrow> 'w update_manager" where
  "run_threads backend [] m = m"
| "run_threads backend ((j, w) # rs) m = run_threads backend rs (updater_step backend (RunThread j w) m)"

lemma run_threads_fold:
  "run_threads backend rs m = fold (updater_step backend) (map (\<lambda>(j, w). RunThread j w) rs) m"
  by (induction backend rs m rule: run_threads.induct) (simp_all del: updater_step.simps)

context update_backend
begin

lemma run_threads_length: "length (um_threads (run_threads backend rs m)) = length (um_threads m)"
proof (induction rs arbitrary: m)
  case (Cons r rs)
  have "length (um_threads (updater_step backend (RunThread j w) m)) = length (um_threads m)" for j w
    by (auto split: prod.splits)
  with Cons.IH show ?case by (cases r) (simp del: updater_step.simps)
qed simp

lemma run_threads_left:
  "n < length (um_threads m) \<Longrightarrow>
   steps_left (um_threads (run_threads backend rs m) ! n)
       \<le> steps_left (um_threads m ! n) - count_list (map fst rs) n"
proof (induction rs arbitrary: m)
  case (Cons r rs)
  obtain j w where r: "r = (j, w)" by fastforce
  let ?m = "updater_step backend (RunThread j w) m"
  note one = run_thread_left [OF Cons.prems, of j w]
  with Cons.prems have "n < length (um_threads ?m)" by simp
  from Cons.IH [OF this] one show ?case unfolding r by (auto simp del: updater_step.simps)
qed simp

lemma settles:
  assumes "manager_justified newer ran_ok m" "has_owner m" "list_all (\<lambda>k. steps_left k \<le> 9) (um_threads m)"
    and fair: "\<forall>n < length (um_threads m). 9 \<le> count_list (map fst rs) n"
  defines "m' \<equiv> run_threads backend rs m"
  shows "list_all (\<lambda>k. k = Finished) (um_threads m') \<and> \<not> transient (um_state m')"
proof -
  have all: "um_threads m' ! n = Finished" if "n < length (um_threads m')" for n
  proof -
    have n: "n < length (um_threads m)" using that by (simp add: m'_def run_threads_length)
    with assms(3) have "steps_left (um_threads m ! n) \<le> 9" by (simp add: list_all_length)
    with run_threads_left [OF n, of rs] fair n have "steps_left (um_threads m' ! n) = 0"
      unfolding m'_def by (metis diff_is_0_eq le_trans le_zero_eq)
    then show ?thesis by simp
  qed
  have "has_owner m'" unfolding m'_def run_threads_fold using assms(2) by (rule owners.inv_run) (simp add: list_all_iff)
  moreover from all have "list_all (\<lambda>k. k = Finished) (um_threads m')" by (simp add: list_all_length)
  ultimately show ?thesis by (auto simp: has_owner_def list_all_iff)
qed

end

lemma new_manager_ok [simp]:
  "manager_justified newer ran_ok (new_update_manager settings)" "has_owner (new_update_manager settings)"
  "um_threads (new_update_manager settings) = []"
  by (simp_all add: new_update_manager_def manager_justified_def has_owner_def)

section \<open>The two backends\<close>

definition linux_newer :: "'v version_env \<Rightarrow> update_info \<Rightarrow> bool" where
  "linux_newer env u \<longleftrightarrow> (\<exists>v. ui_version u = ve_show env v \<and> \<not> ve_le env v (ve_current env))"

definition macos_newer :: "'v version_env \<Rightarrow> update_info \<Rightarrow> bool" where
  "macos_newer env u \<longleftrightarrow>
     (\<exists>v. parse_release_version (ve_parse env) (ui_version u) = Inr v \<and> \<not> ve_le env v (ve_current env))"

lemma linux_check_newer: "linux_check env w = Inr (CheckAvailable u) \<Longrightarrow> linux_newer env u"
  unfolding linux_check_def and_then_r_Inr Let_def
  by (elim exE conjE) (auto simp: linux_newer_def split: option.split_asm if_split_asm)

text \<open>The update tool was started on the AppImage and exited with success; the bridge started Sparkle.\<close>

definition tool_succeeded :: "linux_oracle \<Rightarrow> bool" where
  "tool_succeeded w \<longleftrightarrow> (\<exists>status. lo_status w = Inr (True, status))"

definition sparkle_started :: "macos_oracle \<Rightarrow> bool" where
  "sparkle_started w \<longleftrightarrow> mo_update w = Inr ()"

interpretation appimage: update_backend "linux_backend env" "linux_newer env" tool_succeeded for env :: "'v version_env"
  by unfold_locales
    (auto simp: linux_backend_def linux_install_run_def tool_succeeded_def linux_check_newer
      split: sum.splits prod.splits if_splits)

interpretation sparkle: update_backend "macos_backend env" "macos_newer env" sparkle_started for env :: "'v version_env"
  by unfold_locales (auto simp: macos_backend_def macos_check_def macos_install_run_def macos_newer_def sparkle_started_def
      and_then_r_Inr split: if_splits)

interpretation unsupported: update_backend "unsupported_backend message" "\<lambda>_. False" "\<lambda>_. False" for message
  by unfold_locales (simp_all add: unsupported_backend_def)

lemma count_list_replicate: "count_list (replicate n x) y = (if x = y then n else 0)"
  by (induction n) auto

text \<open>C25. The updater offers only newer releases, starts the update tool only for such an offer, and shows
  \<open>ReadyToRelaunch\<close> only after the tool has returned a success. In every run of the manager, however its
  threads interleave and whatever the network and the tools answer, every update in the state, in a message
  to a subscriber, in a thread and in the log of tool runs has a version above the program's own, and
  \<open>ReadyToRelaunch\<close> is shown or sent only once a tool run has succeeded. On Linux such a run is the AppImage
  update tool, which has exited with success. On macOS it is only the bridge's call that starts Sparkle's own
  update check, so that \<open>ReadyToRelaunch\<close> does not mean there that anything has been installed. On other
  platforms nothing is ever offered, run or shown as ready. Which release a tool installs is not claimed: the
  code does not hand it the offer.\<close>

theorem updates_are_newer:
  "manager_justified (linux_newer env) tool_succeeded
     (fold (updater_step (linux_backend env)) es (new_update_manager settings))
   \<and> manager_justified (macos_newer env) sparkle_started
     (fold (updater_step (macos_backend env)) fs (new_update_manager settings))
   \<and> manager_justified (\<lambda>_. False) (\<lambda>_. False)
     (fold (updater_step (unsupported_backend message)) gs (new_update_manager settings))"
  by (intro conjI appimage.justified.inv_run sparkle.justified.inv_run unsupported.justified.inv_run)
    (simp_all add: list_all_iff)

text \<open>C26. The updater never hangs in a progress state. After any run, a schedule that runs every thread
  nine times finishes all of them, and the state is then none of \<open>Checking\<close>, \<open>Downloading\<close> and
  \<open>Installing\<close>: the last thread to publish one of these always publishes its result after it.\<close>

theorem updater_settles:
  fixes env :: "'v version_env"
  assumes "\<forall>n < length (um_threads (fold (updater_step (linux_backend env)) es (new_update_manager settings))).
    9 \<le> count_list (map fst rs) n"
  defines "m \<equiv> run_threads (linux_backend env) rs
    (fold (updater_step (linux_backend env)) es (new_update_manager settings))"
  shows "list_all (\<lambda>k. k = Finished) (um_threads m) \<and> \<not> transient (um_state m)"
  unfolding m_def
  by (rule appimage.settles [OF appimage.justified.inv_run appimage.owners.inv_run appimage.bounded.inv_run assms(1)])
    (simp_all add: list_all_iff)

definition demo_version_env :: "nat version_env" where
  "demo_version_env = \<lparr>ve_parse = (\<lambda>s. if s = ''2'' then Some 2 else None), ve_show = (\<lambda>_. ''2''), ve_le = (\<le>),
     ve_current = 1, ve_arch = ''x86_64''\<rparr>"

definition no_appimage :: linux_oracle where
  "no_appimage = \<lparr>lo_appimage = None, lo_release = Inl ''offline'', lo_starts = (\<lambda>_. False), lo_status = Inl []\<rparr>"

theorem updater_settles_witness:
  "\<not> transient (um_state (run_threads (linux_backend demo_version_env)
     (replicate 9 (0, no_appimage)) (fold (updater_step (linux_backend demo_version_env)) [CheckNow]
       (new_update_manager default_update_settings))))"
  by (rule conjunct2 [OF updater_settles])
    (simp add: check_now_def check_internal_def spawn_thread_def new_update_manager_def count_list_replicate)

text \<open>The state and the messages can part for good: a check publishes its failure, the user dismisses it
  between the two halves of the publication, and the subscriber is told of the failure last. Every
  thread has finished and the state is \<open>Idle\<close>, but the last message is the failure.\<close>

theorem publish_race:
  defines "m \<equiv> fold (updater_step (linux_backend demo_version_env))
    [SubscribeUpdates, RunThread 0 no_appimage, CheckNow, RunThread 1 no_appimage, RunThread 1 no_appimage,
     RunThread 1 no_appimage, DismissUpdate, RunThread 2 no_appimage, RunThread 1 no_appimage]
    (new_update_manager default_update_settings)"
  shows "list_all (\<lambda>k. k = Finished) (um_threads m)" "um_state m = Idle"
    "map (\<lambda>(c, ms). (c, hd ms)) (um_subscribers m) =
       [(True, UpdateFailed ''Updates are available only for AppImage installs.'')]"
  unfolding m_def
  by (simp_all add: new_update_manager_def subscribe_updates_def check_now_def check_internal_def dismiss_update_def
      spawn_thread_def set_update_state_def notify_def linux_backend_def linux_check_def ensure_appimage_install_def no_appimage_def
      default_update_settings_def Let_def numeral_2_eq_2)

end
