(* ===== verification/Core_Controller.thy ===== *)
theory Core_Controller
  imports Core_Tunnels Core_Sessions Core_Auth_Index Updater
begin

text \<open>
  The controller of \<^verbatim>\<open>seance-core/src/lib.rs\<close>: the registry of vaults, in memory and in the
  configuration, and the operations on whole vaults. A vault file that is not open is on disk, with its
  entries in the platform's secret store; the content of an open one is its store. What the operating
  system answers is a parameter: whether a file opens, a directory can be made or a file removed.
\<close>

section \<open>State\<close>

record app_paths =
  ap_app_root :: string
  ap_config_path :: string
  ap_diagnostics_dir :: string
  ap_session_logs_dir :: string
  ap_vault_db_path :: string
  ap_vaults_dir :: string
  ap_ipc_socket_path :: string
  ap_instance_lock_path :: string

record 'd managed_vault_state =
  mv_entry :: vault_registry_entry
  mv_store :: "'d vault_store option"
  mv_availability_error :: "string option"

record managed_vault_summary =
  ms_vault_id :: string
  ms_name :: string
  ms_db_path :: string
  ms_open :: bool
  ms_initialized :: bool
  ms_unlocked :: bool
  ms_device_unlock_available :: bool
  ms_device_unlock_message :: "string option"
  ms_host_count :: nat
  ms_credential_count :: nat
  ms_key_count :: nat
  ms_availability_error :: "string option"

text \<open>A channel, seen from its sender: whether the receiver is alive, and what was sent.\<close>

record 'a channel =
  ch_alive :: bool
  ch_sent :: "'a list"

type_synonym 'd vault_file = "db \<times> 'd \<times> nat"

record ('s, 'd) controller =
  k_paths :: app_paths
  k_config :: config_store
  k_vaults :: "(string, 'd managed_vault_state) hashmap"
  k_disk :: "(string, 'd vault_file) hashmap"
  k_desk :: "'s desk"
  k_index :: auth_reference_index
  k_update_settings :: update_settings
  k_config_subscribers :: "app_config channel list"
  k_device_unlock_attempted :: bool
  k_tick :: nat

record 'd core_env =
  ke_vault :: "'d env"
  ke_config :: config_env
  ke_open_error :: "string \<Rightarrow> vault_error option"
  ke_fresh_device :: 'd
  ke_mkdir :: "nat \<Rightarrow> string option"
  ke_remove :: "nat \<Rightarrow> string option"
  ke_uuid :: "nat \<Rightarrow> string"
  ke_now :: "nat \<Rightarrow> i64"
  ke_show :: "vault_error \<Rightarrow> string"

type_synonym ('s, 'd, 'a) cprog = "(('s, 'd) controller, core_error, 'a) prog"

abbreviation k_lower :: "'d core_env \<Rightarrow> string \<Rightarrow> string" where
  "k_lower env \<equiv> ce_lower (ke_config env)"

definition LEGACY_VAULT_DB_FILE :: string where
  "LEGACY_VAULT_DB_FILE = ''vault.sqlite''"

definition path_join :: "string \<Rightarrow> string \<Rightarrow> string" where
  "path_join dir file =
     (if file \<noteq> [] \<and> hd file = CHR ''/'' then file
      else if dir = [] \<or> last dir = CHR ''/'' then dir @ file else dir @ ''/'' @ file)"

text \<open>A number for the next identifier, clock reading or answer of the system.\<close>

definition tick :: "('s, 'd, nat) cprog" where
  "tick k = (Inr (k_tick k), k\<lparr>k_tick := Suc (k_tick k)\<rparr>)"

definition with_context :: "string \<Rightarrow> (core_error + 'a) \<Rightarrow> core_error + 'a" where
  "with_context message r = map_err (Ctx message) r"

section \<open>Files and stores\<close>

definition path_exists :: "string \<Rightarrow> ('s, 'd) controller \<Rightarrow> bool" where
  "path_exists path k \<longleftrightarrow> hm_get (k_disk k) path \<noteq> None"

definition vault_db_path :: "vault_registry_entry \<Rightarrow> ('s, 'd) controller \<Rightarrow> string" where
  "vault_db_path entry k =
     (if ve_db_file entry = LEGACY_VAULT_DB_FILE \<and> path_exists (ap_vault_db_path (k_paths k)) k
      then ap_vault_db_path (k_paths k)
      else path_join (ap_vaults_dir (k_paths k)) (ve_db_file entry))"

definition open_store :: "'d core_env \<Rightarrow> string \<Rightarrow> ('s, 'd) controller \<Rightarrow> vault_error + 'd vault_store" where
  "open_store env path k =
     (let (d, device, n) = (case hm_get (k_disk k) path of None \<Rightarrow> (empty_db, ke_fresh_device env, 0) | Some f \<Rightarrow> f)
      in open_with_device_store path device n
           (case ke_open_error env path of Some e \<Rightarrow> Inl e | None \<Rightarrow> Inr d))"

definition put_file :: "'d vault_store \<Rightarrow> ('s, 'd) controller \<Rightarrow> ('s, 'd) controller" where
  "put_file s k = k\<lparr>k_disk := hm_insert (s_vault_path s) (s_conn s, s_device_store s, s_tick s) (k_disk k)\<rparr>"

definition set_state :: "string \<Rightarrow> 'd managed_vault_state \<Rightarrow> ('s, 'd) controller \<Rightarrow> ('s, 'd) controller" where
  "set_state i st k = k\<lparr>k_vaults := hm_insert i st (k_vaults k)\<rparr>"

definition vault_state :: "string \<Rightarrow> ('s, 'd) controller \<Rightarrow> core_error + 'd managed_vault_state" where
  "vault_state i k = ok_or (hm_get (k_vaults k) i) (Anyhow ''vault not found'')"

definition vault_entry :: "string \<Rightarrow> ('s, 'd) controller \<Rightarrow> core_error + vault_registry_entry" where
  "vault_entry i k = and_then_r (vault_state i k) (\<lambda>st. Inr (mv_entry st))"

definition store_of :: "string \<Rightarrow> ('s, 'd) controller \<Rightarrow> core_error + 'd vault_store" where
  "store_of i k = ok_or (Option.bind (hm_get (k_vaults k) i) mv_store) (Anyhow ''vault is not open'')"

text \<open>\<open>store_mut\<close> followed by a method of the store, with what becomes of the method's error.\<close>

definition store_with :: "(vault_error \<Rightarrow> core_error) \<Rightarrow> string \<Rightarrow> ('d, 'a) vprog \<Rightarrow> ('s, 'd, 'a) cprog" where
  "store_with err i m k =
     (case hm_get (k_vaults k) i of
        None \<Rightarrow> (Inl (Anyhow ''vault is not open''), k)
      | Some st \<Rightarrow>
          (case mv_store st of
             None \<Rightarrow> (Inl (Anyhow ''vault is not open''), k)
           | Some s \<Rightarrow> (let (r, s') = m s in (map_err err r, set_state i (st\<lparr>mv_store := Some s'\<rparr>) k))))"

abbreviation store_mut :: "string \<Rightarrow> ('d, 'a) vprog \<Rightarrow> ('s, 'd, 'a) cprog" where
  "store_mut \<equiv> store_with FromVault"

definition is_unlocked :: "'d managed_vault_state \<Rightarrow> bool" where
  "is_unlocked st \<longleftrightarrow> (case mv_store st of None \<Rightarrow> False | Some s \<Rightarrow> st_unlocked (status s))"

definition count_of :: "vault_error + 'a list \<Rightarrow> nat" where
  "count_of r = (case r of Inl _ \<Rightarrow> 0 | Inr xs \<Rightarrow> length xs)"

definition summary :: "'d core_env \<Rightarrow> 'd managed_vault_state \<Rightarrow> ('s, 'd) controller \<Rightarrow> managed_vault_summary" where
  "summary env st k =
     (let status_opt = map_option status (mv_store st);
          counts = (case mv_store st of
              Some s \<Rightarrow> if st_unlocked (status s)
                then (count_of (list_host_profiles (ke_vault env) s),
                      count_of (list_password_credentials (ke_vault env) s),
                      count_of (list_private_keys (ke_vault env) s))
                else (0, 0, 0)
            | None \<Rightarrow> (0, 0, 0))
      in \<lparr>ms_vault_id = ve_id (mv_entry st), ms_name = ve_name (mv_entry st),
          ms_db_path = vault_db_path (mv_entry st) k, ms_open = (mv_store st \<noteq> None),
          ms_initialized = (case status_opt of None \<Rightarrow> False | Some x \<Rightarrow> st_initialized x),
          ms_unlocked = (case status_opt of None \<Rightarrow> False | Some x \<Rightarrow> st_unlocked x),
          ms_device_unlock_available = (case status_opt of None \<Rightarrow> False | Some x \<Rightarrow> st_device_unlock_available x),
          ms_device_unlock_message = Option.bind status_opt st_device_unlock_message,
          ms_host_count = fst counts, ms_credential_count = fst (snd counts), ms_key_count = snd (snd counts),
          ms_availability_error = mv_availability_error st\<rparr>)"

definition list_vaults :: "'d core_env \<Rightarrow> ('s, 'd) controller \<Rightarrow> managed_vault_summary list" where
  "list_vaults env k =
     sort_key (\<lambda>v. k_lower env (ms_name v)) (map (\<lambda>e. summary env (snd e) k) (k_vaults k))"

section \<open>The configuration\<close>

definition update_settings_from_config :: "app_config \<Rightarrow> update_settings" where
  "update_settings_from_config c =
     \<lparr>us_auto_check = uc_auto_check (cfg_updates c),
      us_install_mode = (case uc_install_mode (cfg_updates c) of Prompted \<Rightarrow> InstallPrompted),
      us_channel = (case uc_channel (cfg_updates c) of Stable \<Rightarrow> ChannelStable)\<rparr>"

definition policy_from :: "app_config \<Rightarrow> lifecycle_policy" where
  "policy_from c =
     \<lparr>keep_running_without_windows = wc_keep_running_without_windows (cfg_window c),
      hide_on_last_window_close = wc_hide_on_last_window_close (cfg_window c),
      keep_sessions_alive_without_windows = wc_keep_sessions_alive_without_windows (cfg_window c)\<rparr>"

definition publish :: "'a \<Rightarrow> 'a channel list \<Rightarrow> 'a channel list" where
  "publish x subscribers = map (\<lambda>c. c\<lparr>ch_sent := ch_sent c @ [x]\<rparr>) (filter ch_alive subscribers)"

definition publish_config_update :: "app_config \<Rightarrow> ('s, 'd) controller \<Rightarrow> ('s, 'd) controller" where
  "publish_config_update c k = k\<lparr>k_config_subscribers := publish c (k_config_subscribers k)\<rparr>"

definition config_changed :: "app_config \<Rightarrow> ('s, 'd) controller \<Rightarrow> ('s, 'd) controller" where
  "config_changed c k =
     publish_config_update c (k\<lparr>k_desk := (k_desk k)\<lparr>d_policy := policy_from c\<rparr>,
       k_update_settings := update_settings_from_config c\<rparr>)"

definition update_config :: "'d core_env \<Rightarrow> (app_config \<Rightarrow> app_config) \<Rightarrow> ('s, 'd, app_config) cprog" where
  "update_config env f k =
     (case update_store (ke_config env) f (k_config k) of
        (Inl e, c) \<Rightarrow> (Inl (Ctx ''failed to persist app config'' (FromConfig e)), k\<lparr>k_config := c\<rparr>)
      | (Inr snapshot, c) \<Rightarrow> (Inr snapshot, config_changed snapshot (k\<lparr>k_config := c\<rparr>)))"

definition reset_config_to_defaults :: "'d core_env \<Rightarrow> ('s, 'd, app_config) cprog" where
  "reset_config_to_defaults env k =
     (case replace_config (ke_config env) default_app_config (k_config k) of
        (Inl e, c) \<Rightarrow> (Inl (Ctx ''failed to reset app config to defaults'' (FromConfig e)), k\<lparr>k_config := c\<rparr>)
      | (Inr _, c) \<Rightarrow> (Inr (cst_config c), config_changed (cst_config c) (k\<lparr>k_config := c\<rparr>)))"

definition subscribe_config_changes :: "('s, 'd) controller \<Rightarrow> ('s, 'd) controller" where
  "subscribe_config_changes k =
     k\<lparr>k_config_subscribers := k_config_subscribers k @ [\<lparr>ch_alive = True, ch_sent = []\<rparr>]\<rparr>"

abbreviation vaults_config :: "('s, 'd) controller \<Rightarrow> vault_registry_config" where
  "vaults_config k \<equiv> cfg_vaults (cst_config (k_config k))"

abbreviation on_vaults :: "(vault_registry_config \<Rightarrow> vault_registry_config) \<Rightarrow> app_config \<Rightarrow> app_config" where
  "on_vaults f c \<equiv> c\<lparr>cfg_vaults := f (cfg_vaults c)\<rparr>"

section \<open>The index\<close>

definition ensure_vault_exists :: "string \<Rightarrow> ('s, 'd) controller \<Rightarrow> core_error + unit" where
  "ensure_vault_exists i k = (if hm_get (k_vaults k) i \<noteq> None then Inr () else Inl (Anyhow ''vault not found''))"

definition drop_index :: "string \<Rightarrow> ('s, 'd) controller \<Rightarrow> ('s, 'd) controller" where
  "drop_index i k = k\<lparr>k_index := remove_vault_auth_reference_index i (k_index k)\<rparr>"

definition rebuild_vault_auth_reference_index :: "'d core_env \<Rightarrow> string \<Rightarrow> ('s, 'd, unit) cprog" where
  "rebuild_vault_auth_reference_index env i k0 =
     (let k = drop_index i k0 in
      case hm_get (k_vaults k) i of
        None \<Rightarrow> (Inr (), k)
      | Some st \<Rightarrow>
          (case mv_store st of
             None \<Rightarrow> (Inr (), k)
           | Some s \<Rightarrow>
               if \<not> st_unlocked (status s) then (Inr (), k)
               else (case list_host_auth_summaries (ke_vault env) s of
                       Inl e \<Rightarrow> (Inl (FromVault e), k)
                     | Inr hosts \<Rightarrow>
                         (Inr (), k\<lparr>k_index := fold (upsert_host_auth_reference_summary (k_lower env) i (ve_name (mv_entry st)))
                           hosts (k_index k)\<rparr>))))"

definition rebuild_all_auth_reference_indexes :: "'d core_env \<Rightarrow> ('s, 'd, unit) cprog" where
  "rebuild_all_auth_reference_indexes env =
     and_then (modify (\<lambda>k. k\<lparr>k_index := empty_index\<rparr>)) (\<lambda>_.
     and_then (reads (\<lambda>k. Inr (map fst (k_vaults k)))) (\<lambda>ids.
       for_all (rebuild_vault_auth_reference_index env) ids))"

definition host_references_for_key :: "string \<Rightarrow> string \<Rightarrow> ('s, 'd) controller \<Rightarrow> core_error + host_reference_summary list" where
  "host_references_for_key i key_id k =
     and_then_r (ensure_vault_exists i k) (\<lambda>_. Inr (refs_at (hosts_for_keys (k_index k)) (i, key_id)))"

definition host_references_for_credential ::
  "string \<Rightarrow> string \<Rightarrow> ('s, 'd) controller \<Rightarrow> core_error + host_reference_summary list" where
  "host_references_for_credential i credential_id k =
     and_then_r (ensure_vault_exists i k) (\<lambda>_. Inr (refs_at (hosts_for_credentials (k_index k)) (i, credential_id)))"

section \<open>Operations on vaults\<close>

definition check_name :: "(string \<Rightarrow> bool) \<Rightarrow> string \<Rightarrow> ('s, 'd, unit) cprog" where
  "check_name others name =
     and_then (fail_if (name = []) (Anyhow ''vault name cannot be empty'')) (\<lambda>_ k.
       if list_ex (\<lambda>(i, st). others i \<and> eq_ignore_ascii_case (ve_name (mv_entry st)) name) (k_vaults k)
       then (Inl (Anyhow (''a vault named '' @ [CHR 39] @ name @ [CHR 39] @ '' already exists'')), k)
       else (Inr (), k))"

definition register_new :: "vault_registry_entry \<Rightarrow> vault_registry_config \<Rightarrow> vault_registry_config" where
  "register_new entry v =
     v\<lparr>vr_entries := vr_entries v @ [entry], vr_open_vault_ids := vr_open_vault_ids v @ [ve_id entry],
       vr_default_target_vault_id :=
         (case vr_default_target_vault_id v of None \<Rightarrow> Some (ve_id entry) | Some i \<Rightarrow> Some i)\<rparr>"

definition create_store :: "'d core_env \<Rightarrow> string \<Rightarrow> string \<Rightarrow> string \<Rightarrow> ('s, 'd, 'd vault_store) cprog" where
  "create_store env path passphrase device_name k =
     (case open_store env path k of
        Inl e \<Rightarrow> (Inl (Ctx ''failed to create vault database'' (FromVault e)), k)
      | Inr s0 \<Rightarrow>
          (let (r, s) = create_vault (ke_vault env) passphrase device_name s0
           in (map_err (\<lambda>e. Ctx ''failed to initialize vault'' (FromVault e)) (and_then_r r (\<lambda>_. Inr s)), put_file s k)))"

definition remove_file :: "'d core_env \<Rightarrow> string \<Rightarrow> ('s, 'd, unit) cprog" where
  "remove_file env path =
     and_then tick (\<lambda>n. case ke_remove env n of
       Some e \<Rightarrow> fail (Ctx (''failed to remove vault at '' @ path) (FromIo e))
     | None \<Rightarrow> modify (\<lambda>k. k\<lparr>k_disk := hm_remove path (k_disk k)\<rparr>))"

definition or_undo :: "('s, 'd, 'a) cprog \<Rightarrow> ('s, 'd, unit) cprog \<Rightarrow> ('s, 'd, 'a) cprog" where
  "or_undo m undo k = (case m k of (Inl e, k') \<Rightarrow> (Inl e, snd (undo k')) | (Inr x, k') \<Rightarrow> (Inr x, k'))"

definition create_named_vault ::
  "'d core_env \<Rightarrow> string \<Rightarrow> string \<Rightarrow> string \<Rightarrow> ('s, 'd, managed_vault_summary) cprog" where
  "create_named_vault env name passphrase device_name =
     and_then (check_name (\<lambda>_. True) (trim name)) (\<lambda>_.
     and_then tick (\<lambda>n.
     and_then (case ke_mkdir env n of
                 Some e \<Rightarrow> fail (Ctx ''failed to create vault storage directory'' (FromIo e))
               | None \<Rightarrow> ok ()) (\<lambda>_.
     and_then tick (\<lambda>n.
       let vault_id = ke_uuid env n; db_file = vault_id @ ''.sqlite'' in
     and_then (reads (\<lambda>k. Inr (path_join (ap_vaults_dir (k_paths k)) db_file))) (\<lambda>db_path.
     and_then (create_store env db_path passphrase device_name) (\<lambda>s.
     and_then tick (\<lambda>n.
       let entry = \<lparr>ve_id = vault_id, ve_name = trim name, ve_db_file = db_file,
                    ve_created_at = ke_now env n, ve_updated_at = ke_now env n\<rparr> in
     and_then (or_undo (update_config env (on_vaults (register_new entry))) (remove_file env db_path)) (\<lambda>_.
     and_then (modify (set_state vault_id \<lparr>mv_entry = entry, mv_store = Some s, mv_availability_error = None\<rparr>)) (\<lambda>_.
     and_then (rebuild_vault_auth_reference_index env vault_id) (\<lambda>_.
     and_then (reads (vault_state vault_id)) (\<lambda>st.
       reads (\<lambda>k. Inr (summary env st k)))))))))))))"

fun replace_entry :: "string \<Rightarrow> vault_registry_entry \<Rightarrow> vault_registry_entry list \<Rightarrow> vault_registry_entry list" where
  "replace_entry i e [] = []"
| "replace_entry i e (x # xs) = (if ve_id x = i then e # xs else x # replace_entry i e xs)"

definition rename_vault :: "'d core_env \<Rightarrow> string \<Rightarrow> string \<Rightarrow> ('s, 'd, managed_vault_summary) cprog" where
  "rename_vault env i name =
     and_then (check_name (\<lambda>j. j \<noteq> i) (trim name)) (\<lambda>_.
     and_then (reads (vault_state i)) (\<lambda>st.
     and_then tick (\<lambda>n.
       let entry = (mv_entry st)\<lparr>ve_name := trim name, ve_updated_at := ke_now env n\<rparr>;
           st' = st\<lparr>mv_entry := entry\<rparr> in
     and_then (modify (set_state i st')) (\<lambda>_.
     and_then (reads (\<lambda>k. Inr (summary env st' k))) (\<lambda>result.
     and_then (update_config env (on_vaults (\<lambda>v. v\<lparr>vr_entries := replace_entry i entry (vr_entries v)\<rparr>))) (\<lambda>_.
       ok result))))))"

definition open_vault :: "'d core_env \<Rightarrow> string \<Rightarrow> ('s, 'd, unit) cprog" where
  "open_vault env i =
     and_then (reads (vault_state i)) (\<lambda>st.
     and_then (case mv_store st of
         Some _ \<Rightarrow> ok ()
       | None \<Rightarrow> (\<lambda>k.
           let path = vault_db_path (mv_entry st) k in
           case open_store env path k of
             Inl e \<Rightarrow> (Inl (Ctx (''failed to open vault database at '' @ path) (FromVault e)), k)
           | Inr s \<Rightarrow> (Inr (), put_file s (set_state i (st\<lparr>mv_store := Some s, mv_availability_error := None\<rparr>) k)))) (\<lambda>_ k.
       if i \<in> set (vr_open_vault_ids (vaults_config k)) then (Inr (), k)
       else and_then (update_config env (on_vaults (\<lambda>v. v\<lparr>vr_open_vault_ids := vr_open_vault_ids v @ [i]\<rparr>))) (\<lambda>_. ok ()) k))"

text \<open>Dropping a store leaves its file.\<close>

definition drop_store :: "'d managed_vault_state \<Rightarrow> ('s, 'd) controller \<Rightarrow> ('s, 'd) controller" where
  "drop_store st k = (case mv_store st of None \<Rightarrow> k | Some s \<Rightarrow> put_file s k)"

definition close_vault :: "'d core_env \<Rightarrow> string \<Rightarrow> ('s, 'd, unit) cprog" where
  "close_vault env i =
     and_then (reads (vault_state i)) (\<lambda>st.
     and_then (modify (\<lambda>k. drop_index i (set_state i (st\<lparr>mv_store := None\<rparr>) (drop_store st k)))) (\<lambda>_.
     and_then (update_config env (on_vaults (\<lambda>v. v\<lparr>vr_open_vault_ids := filter (\<lambda>j. j \<noteq> i) (vr_open_vault_ids v)\<rparr>))) (\<lambda>_.
       ok ())))"

definition unlock_vault :: "'d core_env \<Rightarrow> string \<Rightarrow> string \<Rightarrow> string \<Rightarrow> ('s, 'd, unit) cprog" where
  "unlock_vault env i passphrase device_name =
     and_then (open_vault env i) (\<lambda>_.
     and_then (store_with (\<lambda>e. Ctx ''failed to unlock vault'' (FromVault e)) i
                 (unlock_with_passphrase (ke_vault env) passphrase device_name)) (\<lambda>_.
     and_then (modify (\<lambda>k. k\<lparr>k_device_unlock_attempted := True\<rparr>)) (\<lambda>_.
       rebuild_vault_auth_reference_index env i)))"

definition try_unlock_vault_with_device :: "'d core_env \<Rightarrow> string \<Rightarrow> ('s, 'd, bool) cprog" where
  "try_unlock_vault_with_device env i =
     and_then (open_vault env i) (\<lambda>_.
     and_then (modify (\<lambda>k. k\<lparr>k_device_unlock_attempted := True\<rparr>)) (\<lambda>_.
     and_then (store_mut i (try_unlock_with_device (ke_vault env))) (\<lambda>unlocked.
     and_then (if unlocked then rebuild_vault_auth_reference_index env i else ok ()) (\<lambda>_. ok unlocked))))"

definition lock_vault :: "string \<Rightarrow> ('s, 'd, unit) cprog" where
  "lock_vault i = and_then (store_mut i lock) (\<lambda>_. modify (drop_index i))"

definition unregister :: "string \<Rightarrow> vault_registry_config \<Rightarrow> vault_registry_config" where
  "unregister i v =
     v\<lparr>vr_entries := filter (\<lambda>e. ve_id e \<noteq> i) (vr_entries v),
       vr_open_vault_ids := filter (\<lambda>j. j \<noteq> i) (vr_open_vault_ids v),
       vr_default_target_vault_id :=
         (if vr_default_target_vault_id v = Some i then None else vr_default_target_vault_id v)\<rparr>"

definition delete_vault_permanently :: "'d core_env \<Rightarrow> string \<Rightarrow> ('s, 'd, unit) cprog" where
  "delete_vault_permanently env i =
     and_then (reads (vault_state i)) (\<lambda>st.
     and_then (fail_if (is_unlocked st) (Anyhow ''lock the vault before deleting it'')) (\<lambda>_.
     and_then (reads (\<lambda>k. Inr (vault_db_path (mv_entry st) k))) (\<lambda>path.
     and_then (modify (\<lambda>k. drop_index i ((drop_store st k)\<lparr>k_vaults := hm_remove i (k_vaults k)\<rparr>))) (\<lambda>_.
     and_then (update_config env (on_vaults (unregister i))) (\<lambda>_ k.
       if path_exists path k then remove_file env path k else (Inr (), k))))))"

definition set_default_target_vault :: "'d core_env \<Rightarrow> string \<Rightarrow> ('s, 'd, unit) cprog" where
  "set_default_target_vault env i =
     and_then (reads (ensure_vault_exists i)) (\<lambda>_.
     and_then (update_config env (on_vaults (\<lambda>v. v\<lparr>vr_default_target_vault_id := Some i\<rparr>))) (\<lambda>_. ok ()))"

definition default_target_vault_id_for_actions :: "'d core_env \<Rightarrow> ('s, 'd) controller \<Rightarrow> string option" where
  "default_target_vault_id_for_actions env k =
     (let unlocked_id = (\<lambda>i. case hm_get (k_vaults k) i of None \<Rightarrow> False | Some st \<Rightarrow> is_unlocked st);
          unlocked = map (\<lambda>(i, st). (i, k_lower env (ve_name (mv_entry st)))) (filter (\<lambda>(_, st). is_unlocked st) (k_vaults k));
          first = (case sort_key snd unlocked of [] \<Rightarrow> None | (i, _) # _ \<Rightarrow> Some i)
      in case vr_default_target_vault_id (vaults_config k) of
           Some i \<Rightarrow> if unlocked_id i then Some i else first
         | None \<Rightarrow> first)"

definition aggregate_vault_status :: "('s, 'd) controller \<Rightarrow> vault_status" where
  "aggregate_vault_status k =
     (case List.map_filter (\<lambda>e. mv_store (snd e)) (k_vaults k) of
        s # _ \<Rightarrow> status s
      | [] \<Rightarrow>
          \<lparr>st_initialized = list_ex (\<lambda>e. ve_db_file (mv_entry (snd e)) = LEGACY_VAULT_DB_FILE \<or> mv_store (snd e) \<noteq> None) (k_vaults k),
           st_unlocked = False, st_vault_path = ap_vault_db_path (k_paths k),
           st_device_unlock_available = False, st_device_unlock_message = None\<rparr>)"

section \<open>Starting\<close>

definition adopt_legacy :: "vault_registry_entry \<Rightarrow> vault_registry_config \<Rightarrow> vault_registry_config" where
  "adopt_legacy entry v =
     v\<lparr>vr_entries := vr_entries v @ [entry], vr_open_vault_ids := vr_open_vault_ids v @ [ve_id entry],
       vr_default_target_vault_id := Some (ve_id entry)\<rparr>"

definition migrate_legacy_vault_registry :: "'d core_env \<Rightarrow> ('s, 'd, unit) cprog" where
  "migrate_legacy_vault_registry env k =
     (if vr_entries (vaults_config k) \<noteq> [] \<or> \<not> path_exists (ap_vault_db_path (k_paths k)) k then (Inr (), k)
      else and_then tick (\<lambda>n. and_then tick (\<lambda>m k.
        let entry = \<lparr>ve_id = ke_uuid env m, ve_name = ''Personal'', ve_db_file = LEGACY_VAULT_DB_FILE,
                     ve_created_at = ke_now env n, ve_updated_at = ke_now env n\<rparr> in
        case update_store (ke_config env) (on_vaults (adopt_legacy entry)) (k_config k) of
          (Inl e, c) \<Rightarrow> (Inl (Ctx ''failed to migrate legacy vault registry'' (FromConfig e)), k\<lparr>k_config := c\<rparr>)
        | (Inr _, c) \<Rightarrow> (Inr (), k\<lparr>k_config := c\<rparr>))) k)"

definition load_managed_vault :: "'d core_env \<Rightarrow> vault_registry_entry \<Rightarrow> ('s, 'd) controller \<Rightarrow> ('s, 'd) controller" where
  "load_managed_vault env entry k =
     (let st = \<lparr>mv_entry = entry, mv_store = None, mv_availability_error = None\<rparr> in
      if ve_id entry \<in> set (vr_open_vault_ids (vaults_config k))
      then (case open_store env (vault_db_path entry k) k of
              Inr s \<Rightarrow> set_state (ve_id entry) (st\<lparr>mv_store := Some s\<rparr>) (put_file s k)
            | Inl e \<Rightarrow> set_state (ve_id entry) (st\<lparr>mv_availability_error := Some (ke_show env e)\<rparr>) k)
      else set_state (ve_id entry) st k)"

definition load_managed_vaults :: "'d core_env \<Rightarrow> ('s, 'd) controller \<Rightarrow> ('s, 'd) controller" where
  "load_managed_vaults env k = fold (load_managed_vault env) (vr_entries (vaults_config k)) (k\<lparr>k_vaults := []\<rparr>)"

text \<open>
  \<open>AppContext::open\<close> and \<open>AppControllerHandle::new\<close>: \<open>contents\<close> is what reading the configuration
  file gives, \<open>disk\<close> the vault files.
\<close>

definition initial_config :: "'d core_env \<Rightarrow> app_paths \<Rightarrow> (string + string) option \<Rightarrow> config_store" where
  "initial_config env paths contents =
     (case load_or_default (ke_config env) (ap_config_path paths) contents of
        Inr c \<Rightarrow> c
      | Inl _ \<Rightarrow> with_defaults (ap_config_path paths) (Option.bind contents ok_opt))"

definition initial_controller :: "app_paths \<Rightarrow> config_store \<Rightarrow> (string, 'd vault_file) hashmap \<Rightarrow> nat \<Rightarrow> ('s, 'd) controller" where
  "initial_controller paths config disk n =
     \<lparr>k_paths = paths, k_config = config, k_vaults = [], k_disk = disk,
      k_desk = \<lparr>d_sessions = empty_registry, d_open_windows = 0, d_policy = policy_from (cst_config config),
                d_access_seq = 0, d_spawns = 0\<rparr>,
      k_index = empty_index, k_update_settings = update_settings_from_config (cst_config config),
      k_config_subscribers = [], k_device_unlock_attempted = False, k_tick = n\<rparr>"

definition start :: "'d core_env \<Rightarrow> app_paths \<Rightarrow> (string + string) option \<Rightarrow> (string, 'd vault_file) hashmap \<Rightarrow> nat \<Rightarrow>
   core_error + ('s, 'd) controller" where
  "start env paths contents disk n =
     (case migrate_legacy_vault_registry env (initial_controller paths (initial_config env paths contents) disk n) of
        (Inl e, _) \<Rightarrow> Inl e
      | (Inr _, k) \<Rightarrow>
          (let k' = load_managed_vaults env k; config = cst_config (k_config k') in
           Inr (k'\<lparr>k_desk := (k_desk k')\<lparr>d_policy := policy_from config\<rparr>,
                   k_update_settings := update_settings_from_config config\<rparr>)))"

definition device_unlock_state :: "'d core_env \<Rightarrow> 'd managed_vault_state \<Rightarrow> bool \<times> 'd managed_vault_state" where
  "device_unlock_state env st =
     (case mv_store st of
        Some s \<Rightarrow> if st_initialized (status s)
          then (True, st\<lparr>mv_store := Some (snd (try_unlock_with_device (ke_vault env) s))\<rparr>) else (False, st)
      | None \<Rightarrow> (False, st))"

definition bootstrap ::
  "'d core_env \<Rightarrow> ('s \<Rightarrow> session_id) \<Rightarrow> (nat \<Rightarrow> string + 's) \<Rightarrow> ('s, 'd, unit) cprog" where
  "bootstrap env sid spawn =
     and_then (modify (\<lambda>k. k\<lparr>k_vaults := map (\<lambda>(i, st). (i, snd (device_unlock_state env st))) (k_vaults k),
         k_device_unlock_attempted := (k_device_unlock_attempted k
           \<or> list_ex (\<lambda>(i, st). fst (device_unlock_state env st)) (k_vaults k))\<rparr>)) (\<lambda>_.
     and_then (rebuild_all_auth_reference_indexes env) (\<lambda>_ k.
       if registry_is_empty (d_sessions (k_desk k))
       then (case spawn_local_session sid spawn (k_desk k) of
               (Inl e, d) \<Rightarrow> (Inl (Anyhow e), k\<lparr>k_desk := d\<rparr>)
             | (Inr _, d) \<Rightarrow> (Inr (), k\<lparr>k_desk := d\<rparr>))
       else (Inr (), k)))"

section \<open>The handle\<close>

text \<open>The methods of the handle that choose the vault themselves.\<close>

definition handle_unlock_vault :: "'d core_env \<Rightarrow> string \<Rightarrow> string \<Rightarrow> ('s, 'd, unit) cprog" where
  "handle_unlock_vault env passphrase device_name =
     and_then (reads (\<lambda>k. ok_or (default_target_vault_id_for_actions env k) (Anyhow ''no vault available to unlock''))) (\<lambda>i.
       unlock_vault env i passphrase device_name)"

definition handle_try_unlock_with_device :: "'d core_env \<Rightarrow> ('s, 'd, bool) cprog" where
  "handle_try_unlock_with_device env =
     and_then (reads (\<lambda>k. ok_or (default_target_vault_id_for_actions env k) (Anyhow ''no vault available to unlock''))) (\<lambda>i.
       try_unlock_vault_with_device env i)"

definition handle_lock_vault :: "'d core_env \<Rightarrow> ('s, 'd) controller \<Rightarrow> ('s, 'd) controller" where
  "handle_lock_vault env k =
     (case default_target_vault_id_for_actions env k of None \<Rightarrow> k | Some i \<Rightarrow> snd (lock_vault i k))"

definition handle_create_vault :: "'d core_env \<Rightarrow> string \<Rightarrow> string \<Rightarrow> ('s, 'd, unit) cprog" where
  "handle_create_vault env passphrase device_name =
     and_then (create_named_vault env ''Personal'' passphrase device_name) (\<lambda>_. ok ())"

end
