(* ===== verification/Core_Registry.thy ===== *)
theory Core_Registry
  imports Core_Controller
begin

text \<open>
  The vault registry in memory mirrors the one in the configuration, through every operation on vaults,
  when the configuration file can be written: each operation changes both in the same way.
\<close>

section \<open>Changing the registry of a good configuration\<close>

definition registry_good :: "(string \<Rightarrow> string) \<Rightarrow> vault_registry_config \<Rightarrow> bool" where
  "registry_good lower v \<longleftrightarrow> registry_valid lower v
     \<and> (\<forall>e\<in>set (vr_entries v). trim (ve_id e) = ve_id e \<and> trim (ve_name e) = ve_name e \<and> trim (ve_db_file e) = ve_db_file e)"

lemma registry_good_ids:
  assumes "registry_good lower v" and "i \<in> set (vr_open_vault_ids v) \<or> vr_default_target_vault_id v = Some i"
  shows "trim i = i \<and> i \<noteq> []"
proof -
  from assms obtain e where "e \<in> set (vr_entries v)" "i = ve_id e"
    by (auto simp: registry_good_def registry_valid_def)
  with assms(1) show ?thesis by (auto simp: registry_good_def registry_valid_def list_all_iff entry_ok_def)
qed

lemma normalize_vaults:
  assumes "registry_good lower v"
  shows "map normalize_entry (vr_entries v) = vr_entries v"
    and "filter (\<lambda>i. i \<noteq> []) (map trim (vr_open_vault_ids v)) = vr_open_vault_ids v"
    and "trim_opt (vr_default_target_vault_id v) = vr_default_target_vault_id v"
proof -
  show "map normalize_entry (vr_entries v) = vr_entries v"
    using assms by (intro map_idI) (auto simp: registry_good_def normalize_entry_def)
  have "map trim (vr_open_vault_ids v) = vr_open_vault_ids v"
    using registry_good_ids [OF assms] by (intro map_idI) blast
  moreover have "filter (\<lambda>i. i \<noteq> []) (vr_open_vault_ids v) = vr_open_vault_ids v"
    using registry_good_ids [OF assms] by (intro filter_True) blast
  ultimately show "filter (\<lambda>i. i \<noteq> []) (map trim (vr_open_vault_ids v)) = vr_open_vault_ids v" by simp
  show "trim_opt (vr_default_target_vault_id v) = vr_default_target_vault_id v"
    using registry_good_ids [OF assms] by (cases "vr_default_target_vault_id v") (auto simp: trim_opt_def)
qed

lemma store_ok_registry: "store_ok env s \<Longrightarrow> registry_good (ce_lower env) (cfg_vaults (cst_config s))"
proof -
  assume ok: "store_ok env s"
  let ?c = "cst_config s"
  have "cfg_vaults (normalized ?c) = cfg_vaults ?c" using ok by (simp add: store_ok_def)
  then have "vr_entries (cfg_vaults (normalized ?c)) = vr_entries (cfg_vaults ?c)" by simp
  then have "map normalize_entry (vr_entries (cfg_vaults ?c)) = vr_entries (cfg_vaults ?c)"
    by (simp add: normalized_def Let_def)
  then have "normalize_entry e = e" if "e \<in> set (vr_entries (cfg_vaults ?c))" for e
    using that by (metis in_set_conv_nth nth_map)
  then have "trim (ve_id e) = ve_id e \<and> trim (ve_name e) = ve_name e \<and> trim (ve_db_file e) = ve_db_file e"
    if "e \<in> set (vr_entries (cfg_vaults ?c))" for e
    using that by (metis normalize_entry_def vault_registry_entry.select_convs vault_registry_entry.surjective
        vault_registry_entry.update_convs)
  with ok show ?thesis by (simp add: registry_good_def store_ok_def config_ok_def)
qed

lemma on_vaults_ok:
  assumes "store_ok env s" and good: "registry_good (ce_lower env) (g (cfg_vaults (cst_config s)))"
  shows "config_ok (ce_lower env) (on_vaults g (cst_config s)) \<and> normalized (on_vaults g (cst_config s)) = on_vaults g (cst_config s)"
proof -
  let ?c = "cst_config s"
  from assms have "config_ok (ce_lower env) (on_vaults g ?c)"
    by (simp add: config_ok_def store_ok_def registry_good_def)
  moreover have "normalized ?c = ?c" using assms(1) by (simp add: store_ok_def)
  then have "cfg_appearance (normalized ?c) = cfg_appearance ?c" "cfg_terminal (normalized ?c) = cfg_terminal ?c"
    "cfg_keybindings (normalized ?c) = cfg_keybindings ?c" by simp_all
  then have "normalized (on_vaults g ?c) = on_vaults g ?c"
    using normalize_vaults [OF good] by (simp add: normalized_def Let_def)
  ultimately show ?thesis by blast
qed

text \<open>The configuration file can be written.\<close>

definition writes_ok :: "config_env \<Rightarrow> bool" where
  "writes_ok env \<longleftrightarrow> (\<forall>n. ce_io env n = \<lparr>wi_create_dir = None, wi_temp = None, wi_write = None, wi_flush = None, wi_persist = None\<rparr>)
     \<and> (\<forall>c. \<exists>out. ce_print env c = Inr out)"

lemma persist_config_ok: "writes_ok env \<Longrightarrow> \<exists>t. persist_config env c s = (Inr (), t)"
proof -
  assume w: "writes_ok env"
  then obtain out where "ce_print env c = Inr out" by (auto simp: writes_ok_def)
  with w show ?thesis by (simp add: persist_config_def writes_ok_def io_step_def map_err_def Let_def)
qed

text \<open>The parts of the controller a change of the configuration leaves alone.\<close>

definition same_vaults :: "('s, 'd) controller \<Rightarrow> ('s, 'd) controller \<Rightarrow> bool" where
  "same_vaults k k' \<longleftrightarrow> k_vaults k' = k_vaults k \<and> k_disk k' = k_disk k \<and> k_index k' = k_index k
     \<and> k_paths k' = k_paths k \<and> k_tick k' = k_tick k"

lemma same_vaults_refl [simp]: "same_vaults k k"
  by (simp add: same_vaults_def)

lemma update_config_cases:
  assumes "store_ok (ke_config env) (k_config k)" and "update_config env f k = (r, k')"
  shows "store_ok (ke_config env) (k_config k') \<and> same_vaults k k' \<and>
     (case r of Inl _ \<Rightarrow> cst_config (k_config k') = cst_config (k_config k)
      | Inr c \<Rightarrow> c = normalized (f (cst_config (k_config k))) \<and> cst_config (k_config k') = c)"
proof -
  obtain r' c' where u: "update_store (ke_config env) f (k_config k) = (r', c')" by fastforce
  from update_store_cases [OF assms(1) u] u assms(2) show ?thesis
    by (cases r') (auto simp: update_config_def config_changed_def publish_config_update_def same_vaults_def)
qed

lemma update_config_registry:
  assumes ok: "store_ok (ke_config env) (k_config k)" and "writes_ok (ke_config env)"
    and good: "registry_good (k_lower env) (g (vaults_config k))"
  obtains c k' where "update_config env (on_vaults g) k = (Inr c, k')" "store_ok (ke_config env) (k_config k')" "same_vaults k k'"
    "vaults_config k' = g (vaults_config k)"
proof -
  have c: "config_ok (k_lower env) (on_vaults g (cst_config (k_config k)))"
    "normalized (on_vaults g (cst_config (k_config k))) = on_vaults g (cst_config (k_config k))"
    using on_vaults_ok [OF ok, of g] good by blast+
  obtain t where "persist_config (ke_config env) (on_vaults g (cst_config (k_config k))) (k_config k) = (Inr (), t)"
    using persist_config_ok [OF assms(2)] by blast
  with c have "\<exists>c' t'. update_store (ke_config env) (on_vaults g) (k_config k) = (Inr c', t')"
    by (simp add: update_store_def replace_config_def and_then_def lift_r_def validate_iff [THEN iffD2] Let_def)
  then obtain c' k' where u: "update_config env (on_vaults g) k = (Inr c', k')"
    by (auto simp: update_config_def)
  from update_config_cases [OF ok u] c show thesis by (intro that [OF u]) auto
qed

section \<open>What the operations do to the registry\<close>

lemma registry_good_open:
  "registry_good lower v \<Longrightarrow> i \<in> ve_id ` set (vr_entries v) \<Longrightarrow>
     registry_good lower (v\<lparr>vr_open_vault_ids := vr_open_vault_ids v @ [i]\<rparr>)"
  by (auto simp: registry_good_def registry_valid_def)

lemma registry_good_close:
  "registry_good lower v \<Longrightarrow> registry_good lower (v\<lparr>vr_open_vault_ids := filter P (vr_open_vault_ids v)\<rparr>)"
  by (auto simp: registry_good_def registry_valid_def)

lemma registry_good_default:
  "registry_good lower v \<Longrightarrow> i \<in> ve_id ` set (vr_entries v) \<Longrightarrow>
     registry_good lower (v\<lparr>vr_default_target_vault_id := Some i\<rparr>)"
  by (auto simp: registry_good_def registry_valid_def)

lemma registry_good_unregister: "registry_good lower v \<Longrightarrow> registry_good lower (unregister i v)"
  by (auto simp: registry_good_def registry_valid_def unregister_def list_all_iff image_iff distinct_map_filter)

lemma replace_entry_ids: "ve_id e = i \<Longrightarrow> map ve_id (replace_entry i e es) = map ve_id es"
  by (induction es) auto

lemma replace_entry_map:
  "distinct (map ve_id es) \<Longrightarrow> replace_entry i e es = map (\<lambda>x. if ve_id x = i then e else x) es"
  by (induction es) (auto intro!: map_idI [symmetric] simp: image_iff)

lemma registry_good_entries:
  assumes "\<And>x. x \<in> set es \<Longrightarrow> entry_ok x \<and> trim (ve_id x) = ve_id x \<and> trim (ve_name x) = ve_name x \<and> trim (ve_db_file x) = ve_db_file x"
    and "distinct (map ve_id es)" "distinct (map (\<lambda>e. lower (ve_name e)) es)" "distinct (map ve_db_file es)"
    and "set (vr_open_vault_ids v) \<subseteq> ve_id ` set es" "set_option (vr_default_target_vault_id v) \<subseteq> ve_id ` set es"
  shows "registry_good lower (v\<lparr>vr_entries := es\<rparr>)"
  using assms by (simp add: registry_good_def registry_valid_def list_all_iff)

lemma registry_good_rename:
  assumes good: "registry_good lower v" and old: "old \<in> set (vr_entries v)"
    and e: "ve_id e = ve_id old" "ve_db_file e = ve_db_file old" "ve_name e \<noteq> []" "trim (ve_name e) = ve_name e"
    and new: "\<And>x. x \<in> set (vr_entries v) \<Longrightarrow> ve_id x \<noteq> ve_id old \<Longrightarrow> lower (ve_name x) \<noteq> lower (ve_name e)"
  shows "registry_good lower (v\<lparr>vr_entries := replace_entry (ve_id old) e (vr_entries v)\<rparr>)"
proof -
  let ?es = "vr_entries v" and ?sub = "\<lambda>x. if ve_id x = ve_id old then e else x"
  have d: "distinct (map ve_id ?es)" "distinct (map (\<lambda>e. lower (ve_name e)) ?es)" "distinct (map ve_db_file ?es)"
    using good by (auto simp: registry_good_def registry_valid_def)
  have one: "x = old" if "x \<in> set ?es" "ve_id x = ve_id old" for x
    using that old d(1) by (metis distinct_map inj_onD)
  have ids: "map ve_id (map ?sub ?es) = map ve_id ?es" using e by simp
  have files: "map ve_db_file (map ?sub ?es) = map ve_db_file ?es" using one e by auto
  have names: "distinct (map (\<lambda>x. lower (ve_name (?sub x))) ?es)"
    unfolding distinct_map
  proof
    show "distinct ?es" using d(1) by (simp add: distinct_map)
    show "inj_on (\<lambda>x. lower (ve_name (?sub x))) (set ?es)"
    proof (rule inj_onI)
      fix x y assume x: "x \<in> set ?es" and y: "y \<in> set ?es" and eq: "lower (ve_name (?sub x)) = lower (ve_name (?sub y))"
      have "x = y" if "lower (ve_name x) = lower (ve_name y)" using d(2) x y that by (simp add: distinct_map inj_on_def)
      with x y eq one [OF x] one [OF y] new [OF x] new [OF y] show "x = y"
        by (cases "ve_id x = ve_id old"; cases "ve_id y = ve_id old") auto
    qed
  qed
  have names': "distinct (map (\<lambda>e. lower (ve_name e)) (map ?sub ?es))" using names by (simp add: comp_def)
  have set_ids: "ve_id ` set (map ?sub ?es) = ve_id ` set ?es" using arg_cong [OF ids, of set] by (simp only: list.set_map)
  have "entry_ok x \<and> trim (ve_id x) = ve_id x \<and> trim (ve_name x) = ve_name x \<and> trim (ve_db_file x) = ve_db_file x"
    if "x \<in> set (map ?sub ?es)" for x
  proof (cases "x = e")
    case True
    have "entry_ok old" "trim (ve_id old) = ve_id old" "trim (ve_db_file old) = ve_db_file old"
      using good old by (auto simp: registry_good_def registry_valid_def list_all_iff)
    with True e show ?thesis by (simp add: entry_ok_def)
  next
    case False
    with that have "x \<in> set ?es" by (auto split: if_splits)
    with good show ?thesis by (auto simp: registry_good_def registry_valid_def list_all_iff)
  qed
  then show ?thesis unfolding replace_entry_map [OF d(1)]
  proof (rule registry_good_entries [OF _ _ names'])
    show "distinct (map ve_id (map ?sub ?es))" unfolding ids by (rule d(1))
    show "distinct (map ve_db_file (map ?sub ?es))" unfolding files by (rule d(3))
    show "set (vr_open_vault_ids v) \<subseteq> ve_id ` set (map ?sub ?es)" "set_option (vr_default_target_vault_id v) \<subseteq> ve_id ` set (map ?sub ?es)"
      unfolding set_ids using good by (simp_all add: registry_good_def registry_valid_def)
  qed
qed

section \<open>The mirror\<close>

text \<open>
  Memory and configuration have the same entries, each filed under its own identifier, and every open
  vault, but those of \<open>X\<close>, is listed as open.
\<close>

definition opened_ids :: "('s, 'd) controller \<Rightarrow> string set" where
  "opened_ids k = {i. Option.bind (hm_get (k_vaults k) i) mv_store \<noteq> None}"

lemma opened_ids_set_state:
  "opened_ids (set_state i st k) = (if mv_store st = None then opened_ids k - {i} else insert i (opened_ids k))"
  by (auto simp: opened_ids_def set_state_def)

lemma opened_ids_cong: "k_vaults k' = k_vaults k \<Longrightarrow> opened_ids k' = opened_ids k"
  by (simp add: opened_ids_def)

definition mirror_but :: "string set \<Rightarrow> 'd core_env \<Rightarrow> ('s, 'd) controller \<Rightarrow> bool" where
  "mirror_but X env k \<longleftrightarrow> store_ok (ke_config env) (k_config k) \<and> hm_ok (k_vaults k)
     \<and> (\<forall>i st. hm_get (k_vaults k) i = Some st \<longrightarrow> ve_id (mv_entry st) = i)
     \<and> (\<forall>e. e \<in> set (vr_entries (vaults_config k)) \<longleftrightarrow> (\<exists>st. hm_get (k_vaults k) (ve_id e) = Some st \<and> mv_entry st = e))
     \<and> opened_ids k \<subseteq> X \<union> set (vr_open_vault_ids (vaults_config k))"

definition mirrored :: "'d core_env \<Rightarrow> ('s, 'd) controller \<Rightarrow> bool" where
  "mirrored env k \<longleftrightarrow> mirror_but {} env k"

lemma mirror_cong: "k_vaults k' = k_vaults k \<Longrightarrow> k_config k' = k_config k \<Longrightarrow> mirror_but X env k' = mirror_but X env k"
  by (simp add: mirror_but_def opened_ids_def)

lemma keeps_mirror:
  assumes "\<And>k. k_vaults (snd (m k)) = k_vaults k \<and> k_config (snd (m k)) = k_config k"
  shows "keeps (mirrored env) m"
  using assms by (auto simp: keeps_def mirrored_def mirror_cong [of "snd (m _)"])

lemma mirror_set_state:
  assumes "mirror_but X env k" and "hm_get (k_vaults k) i = Some st" and "mv_entry st' = mv_entry st"
    and "mv_store st' = None \<or> mv_store st \<noteq> None \<or> i \<in> Y" and "X \<subseteq> Y"
  shows "mirror_but Y env (set_state i st' k)"
proof -
  have "opened_ids (set_state i st' k) \<subseteq> Y \<union> set (vr_open_vault_ids (vaults_config k))"
  proof -
    have "i \<in> opened_ids k" if "mv_store st \<noteq> None" using that assms(2) by (simp add: opened_ids_def)
    moreover have "opened_ids k \<subseteq> X \<union> set (vr_open_vault_ids (vaults_config k))" using assms(1) by (simp add: mirror_but_def)
    ultimately show ?thesis using assms(4,5) by (auto simp: opened_ids_set_state)
  qed
  with assms show ?thesis by (auto simp: mirror_but_def set_state_def split: if_splits)
qed

lemma mirror_entry:
  "mirror_but X env k \<Longrightarrow> hm_get (k_vaults k) i = Some st \<Longrightarrow> mv_entry st \<in> set (vr_entries (vaults_config k)) \<and> ve_id (mv_entry st) = i"
  by (auto simp: mirror_but_def)

lemma mirror_registry: "mirror_but X env k \<Longrightarrow> registry_good (k_lower env) (vaults_config k)"
  by (simp add: mirror_but_def store_ok_registry)

lemma mirrored_store_with: "keeps (mirrored env) (store_with err i m)"
proof (rule keepsI)
  fix k assume k: "mirrored env k"
  show "mirrored env (snd (store_with err i m k))"
    using k mirror_set_state [of "{}" env k i _ _ "{}"]
    by (auto simp: store_with_def mirrored_def split: option.split prod.split)
qed

text \<open>A change of the open list.\<close>

lemma mirror_update:
  assumes "mirror_but X env k" and "writes_ok (ke_config env)" and "registry_good (k_lower env) (g (vaults_config k))"
    and "vr_entries (g (vaults_config k)) = vr_entries (vaults_config k)"
    and "opened_ids k \<subseteq> set (vr_open_vault_ids (g (vaults_config k)))"
  shows "mirrored env (snd (update_config env (on_vaults g) k)) \<and> (\<exists>c. fst (update_config env (on_vaults g) k) = Inr c)"
proof -
  obtain c k' where u: "update_config env (on_vaults g) k = (Inr c, k')" "store_ok (ke_config env) (k_config k')"
    "same_vaults k k'" "vaults_config k' = g (vaults_config k)"
    by (rule update_config_registry [of env k g]) (use assms(1-3) in \<open>auto simp: mirror_but_def\<close>)
  have "k_vaults k' = k_vaults k" using u(3) by (simp add: same_vaults_def)
  with assms(1,4,5) u(2,4) have "mirrored env k'" by (simp add: mirrored_def mirror_but_def opened_ids_cong [of k' k])
  with u(1) show ?thesis by simp
qed

lemma mirrored_open_vault:
  assumes w: "writes_ok (ke_config env)"
  shows "keeps (mirrored env) (open_vault env i)"
proof (rule keepsI)
  fix k assume k: "mirrored env k"
  let ?push = "\<lambda>v. v\<lparr>vr_open_vault_ids := vr_open_vault_ids v @ [i]\<rparr>"
  have push: "mirrored env (snd (and_then (update_config env (on_vaults ?push)) (\<lambda>_. ok ()) k'))"
    if m: "mirror_but {i} env k'" and i: "hm_get (k_vaults k') i = Some st" for k' st
  proof -
    from mirror_entry [OF m i] have "registry_good (k_lower env) (?push (vaults_config k'))"
      by (intro registry_good_open mirror_registry [OF m]) auto
    moreover have "opened_ids k' \<subseteq> set (vr_open_vault_ids (?push (vaults_config k')))" using m by (auto simp: mirror_but_def)
    ultimately show ?thesis using mirror_update [OF m w, of ?push] by (auto simp: and_then_def split: prod.splits sum.splits)
  qed
  have listed: "mirrored env k'" if "mirror_but {i} env k'" "i \<in> set (vr_open_vault_ids (vaults_config k'))" for k'
    using that by (auto simp: mirrored_def mirror_but_def)
  show "mirrored env (snd (open_vault env i k))"
  proof (cases "hm_get (k_vaults k) i")
    case None
    with k show ?thesis by (simp add: open_vault_def vault_state_def and_then_def)
  next
    case (Some st)
    have k1: "mirror_but {i} env (put_file s (set_state i (st\<lparr>mv_store := Some s, mv_availability_error := None\<rparr>) k))" for s
      using mirror_set_state [of "{}" env k i st _ "{i}"] k Some
      by (simp add: mirrored_def put_file_def mirror_cong [of "_\<lparr>k_disk := _\<rparr>"])
    have k0: "mirror_but {i} env k" using k by (auto simp: mirrored_def mirror_but_def)
    have get: "hm_get (k_vaults (put_file s (set_state i st' k))) i = Some st'" for s st'
      by (simp add: put_file_def set_state_def)
    show ?thesis
      using Some k k0 k1 push [OF k0 Some] push [OF k1 get] listed
      by (auto simp: open_vault_def vault_state_def and_then_def [of "reads _"] and_then_def [of "case _ of None \<Rightarrow> _ | Some _ \<Rightarrow> _"]
          Let_def split: option.split sum.split)
  qed
qed

lemma mirrored_close_vault:
  assumes w: "writes_ok (ke_config env)"
  shows "keeps (mirrored env) (close_vault env i)"
proof (rule keepsI)
  fix k assume k: "mirrored env k"
  let ?out = "\<lambda>v. v\<lparr>vr_open_vault_ids := filter (\<lambda>j. j \<noteq> i) (vr_open_vault_ids v)\<rparr>"
  show "mirrored env (snd (close_vault env i k))"
  proof (cases "hm_get (k_vaults k) i")
    case None
    with k show ?thesis by (simp add: close_vault_def vault_state_def and_then_def)
  next
    case (Some st)
    define k1 where "k1 = drop_index i (set_state i (st\<lparr>mv_store := None\<rparr>) (drop_store st k))"
    have k1: "k_vaults k1 = k_vaults (set_state i (st\<lparr>mv_store := None\<rparr>) k)" "k_config k1 = k_config (set_state i (st\<lparr>mv_store := None\<rparr>) k)"
      by (simp_all add: k1_def drop_index_def set_state_def drop_store_def put_file_def split: option.split)
    have m: "mirror_but {} env k1"
      using mirror_set_state [of "{}" env k i st "st\<lparr>mv_store := None\<rparr>" "{}"] k Some
      by (simp add: mirrored_def mirror_cong [OF k1])
    have "opened_ids k1 = opened_ids k - {i}" using opened_ids_cong [OF k1(1)] by (simp add: opened_ids_set_state)
    moreover have "vaults_config k1 = vaults_config k" by (simp add: k1 set_state_def)
    ultimately have "opened_ids k1 \<subseteq> set (vr_open_vault_ids (?out (vaults_config k1)))"
      using k by (auto simp: mirrored_def mirror_but_def)
    with mirror_update [OF m w, of ?out] registry_good_close [OF mirror_registry [OF m]] Some show ?thesis
      by (auto simp: close_vault_def vault_state_def and_then_def k1_def [symmetric] split: prod.splits sum.splits)
  qed
qed

lemma mirrored_set_default:
  assumes w: "writes_ok (ke_config env)"
  shows "keeps (mirrored env) (set_default_target_vault env i)"
proof (rule keepsI)
  fix k assume k: "mirrored env k"
  let ?g = "\<lambda>v. v\<lparr>vr_default_target_vault_id := Some i\<rparr>"
  show "mirrored env (snd (set_default_target_vault env i k))"
  proof (cases "hm_get (k_vaults k) i")
    case None
    with k show ?thesis by (simp add: set_default_target_vault_def ensure_vault_exists_def and_then_def)
  next
    case (Some st)
    have m: "mirror_but {} env k" using k by (simp add: mirrored_def)
    from mirror_entry [OF m Some] have "registry_good (k_lower env) (?g (vaults_config k))"
      by (intro registry_good_default mirror_registry [OF m]) auto
    moreover have "opened_ids k \<subseteq> set (vr_open_vault_ids (?g (vaults_config k)))" using m by (simp add: mirror_but_def)
    ultimately show ?thesis using mirror_update [OF m w, of ?g] Some
      by (auto simp: set_default_target_vault_def ensure_vault_exists_def and_then_def split: prod.splits sum.splits)
  qed
qed

lemma mirrored_rebuild: "keeps (mirrored env') (rebuild_vault_auth_reference_index env i)"
  by (rule keeps_mirror) (simp add: rebuild_vault_auth_reference_index_def Let_def drop_index_def split: option.split sum.split)

lemma mirrored_modify:
  assumes "\<And>k. k_vaults (f k) = k_vaults k \<and> k_config (f k) = k_config k"
  shows "keeps (mirrored env) (modify f)"
  using assms by (intro keeps_mirror) (simp add: modify_def)

lemma mirrored_unlock_ops:
  assumes w: "writes_ok (ke_config env)"
  shows "keeps (mirrored env) (unlock_vault env i passphrase device)"
    and "keeps (mirrored env) (try_unlock_vault_with_device env i)"
    and "keeps (mirrored env) (lock_vault i)"
  unfolding unlock_vault_def try_unlock_vault_with_device_def lock_vault_def
  by (intro keeps_rules mirrored_open_vault [OF w] mirrored_store_with mirrored_rebuild mirrored_modify keeps_pure;
      simp add: drop_index_def)+

lemma check_name_Inr:
  "check_name others name k = (Inr u, k') \<longleftrightarrow> k' = k \<and> name \<noteq> [] \<and>
     (\<forall>(i, st)\<in>set (k_vaults k). others i \<longrightarrow> \<not> eq_ignore_ascii_case (ve_name (mv_entry st)) name)"
  by (auto simp: check_name_def and_then_def fail_if_def list_ex_iff split: if_splits)

lemma check_name_state: "snd (check_name others name k) = k"
  by (simp add: check_name_def and_then_def fail_if_def)

text \<open>\<open>rename_vault\<close> compares names up to ASCII case, the validation of the configuration compares them lowered. The
  two agree on a new name when every other vault whose name lowers to the same text also has the same name up to
  ASCII case, as it always is for ASCII names.\<close>

definition rename_safe :: "'d core_env \<Rightarrow> string \<Rightarrow> string \<Rightarrow> ('s, 'd) controller \<Rightarrow> bool" where
  "rename_safe env i name k \<longleftrightarrow>
     (\<forall>(j, st)\<in>set (k_vaults k). j \<noteq> i \<and> k_lower env (ve_name (mv_entry st)) = k_lower env (trim name) \<longrightarrow>
        eq_ignore_ascii_case (ve_name (mv_entry st)) (trim name))"

lemma mirrored_renamed:
  assumes m: "mirror_but {} env k" and w: "writes_ok (ke_config env)"
    and st: "hm_get (k_vaults k) i = Some st" and name: "name \<noteq> []" "trim name = name"
    and free: "\<forall>(j, s)\<in>set (k_vaults k). j \<noteq> i \<longrightarrow> k_lower env (ve_name (mv_entry s)) \<noteq> k_lower env name"
    and entry: "entry = (mv_entry st)\<lparr>ve_name := name, ve_updated_at := now\<rparr>"
  shows "mirrored env (snd (update_config env (on_vaults (\<lambda>v. v\<lparr>vr_entries := replace_entry i entry (vr_entries v)\<rparr>))
           (set_state i (st\<lparr>mv_entry := entry\<rparr>) k)))"
proof -
  let ?k1 = "set_state i (st\<lparr>mv_entry := entry\<rparr>) k" and ?g = "\<lambda>v. v\<lparr>vr_entries := replace_entry i entry (vr_entries v)\<rparr>"
  have ok: "hm_ok (k_vaults k)" using m by (simp add: mirror_but_def)
  from mirror_entry [OF m st] have old: "mv_entry st \<in> set (vr_entries (vaults_config k))" "ve_id (mv_entry st) = i" by blast+
  have mem: "x \<in> set (vr_entries (vaults_config k)) \<longleftrightarrow> (\<exists>s. hm_get (k_vaults k) (ve_id x) = Some s \<and> mv_entry s = x)" for x
    using m by (simp add: mirror_but_def)
  have "k_lower env (ve_name x) \<noteq> k_lower env (ve_name entry)" if x: "x \<in> set (vr_entries (vaults_config k))" "ve_id x \<noteq> ve_id (mv_entry st)" for x
  proof -
    from x(1) obtain s where "hm_get (k_vaults k) (ve_id x) = Some s" "mv_entry s = x" using mem by blast
    with free x(2) old ok have "k_lower env (ve_name x) \<noteq> k_lower env name" by (auto simp: hm_get_mem)
    with entry show ?thesis by simp
  qed
  from registry_good_rename [OF mirror_registry [OF m] old(1) _ _ _ _ this] old(2) entry name
  have "registry_good (k_lower env) (?g (vaults_config ?k1))" by (simp add: set_state_def)
  moreover have "store_ok (ke_config env) (k_config ?k1)" using m by (simp add: mirror_but_def set_state_def)
  ultimately obtain c k' where u: "update_config env (on_vaults ?g) ?k1 = (Inr c, k')" "store_ok (ke_config env) (k_config k')"
    "same_vaults ?k1 k'" "vaults_config k' = ?g (vaults_config ?k1)"
    using w by (rule_tac update_config_registry [of env ?k1 ?g]) auto
  have v: "k_vaults k' = k_vaults ?k1" using u(3) by (simp add: same_vaults_def)
  have d: "distinct (map ve_id (vr_entries (vaults_config k)))"
    using mirror_registry [OF m] by (simp add: registry_good_def registry_valid_def)
  have es: "set (vr_entries (vaults_config k')) = {x \<in> set (vr_entries (vaults_config k)). ve_id x \<noteq> i} \<union> {entry}"
    using old by (auto simp: u(4) set_state_def replace_entry_map [OF d])
  have "x \<in> set (vr_entries (vaults_config k')) \<longleftrightarrow> (\<exists>s. hm_get (k_vaults k') (ve_id x) = Some s \<and> mv_entry s = x)" for x
    using old(2) entry by (cases "ve_id x = i") (auto simp: es v mem set_state_def)
  moreover have "opened_ids k' \<subseteq> set (vr_open_vault_ids (vaults_config k'))"
  proof -
    have "i \<in> opened_ids k" if "mv_store st \<noteq> None" using that st by (simp add: opened_ids_def)
    then have "opened_ids k' \<subseteq> opened_ids k" by (auto simp: opened_ids_cong [OF v] opened_ids_set_state)
    moreover have "vr_open_vault_ids (vaults_config k') = vr_open_vault_ids (vaults_config k)" by (simp add: u(4) set_state_def)
    ultimately show ?thesis using m by (auto simp: mirror_but_def)
  qed
  moreover have "\<forall>j s. hm_get (k_vaults k') j = Some s \<longrightarrow> ve_id (mv_entry s) = j"
    using m old(2) entry by (auto simp: v set_state_def mirror_but_def)
  ultimately have "mirrored env k'" using u(2) ok by (simp add: mirrored_def mirror_but_def v set_state_def)
  with u(1) show ?thesis by simp
qed

lemma mirrored_rename_vault:
  assumes w: "writes_ok (ke_config env)" and safe: "rename_safe env i name k" and k: "mirrored env k"
  shows "mirrored env (snd (rename_vault env i name k))"
proof (cases "fst (check_name (\<lambda>j. j \<noteq> i) (trim name) k)")
  case (Inl e)
  then have "check_name (\<lambda>j. j \<noteq> i) (trim name) k = (Inl e, k)" by (metis check_name_state prod.collapse)
  with k show ?thesis by (simp add: rename_vault_def and_then_def)
next
  case (Inr u)
  then have c: "check_name (\<lambda>j. j \<noteq> i) (trim name) k = (Inr u, k)" by (metis check_name_state prod.collapse)
  show ?thesis
  proof (cases "hm_get (k_vaults k) i")
    case None
    with c k show ?thesis by (simp add: rename_vault_def and_then_def vault_state_def)
  next
    case (Some st)
    let ?k = "k\<lparr>k_tick := Suc (k_tick k)\<rparr>"
    have m: "mirror_but {} env ?k" using k by (simp add: mirrored_def mirror_cong [of ?k k])
    have "mirrored env (snd (update_config env (on_vaults (\<lambda>v. v\<lparr>vr_entries := replace_entry i
        ((mv_entry st)\<lparr>ve_name := trim name, ve_updated_at := ke_now env (k_tick k)\<rparr>) (vr_entries v)\<rparr>))
        (set_state i (st\<lparr>mv_entry := (mv_entry st)\<lparr>ve_name := trim name, ve_updated_at := ke_now env (k_tick k)\<rparr>\<rparr>) ?k)))"
      by (rule mirrored_renamed [OF m w]) (use c Some safe in \<open>auto simp: check_name_Inr rename_safe_def\<close>)
    then show ?thesis using c Some
      by (auto simp: rename_vault_def and_then_def vault_state_def tick_def Let_def split: prod.split sum.split)
  qed
qed

lemma mirrored_unregistered:
  assumes m: "mirror_but {} env k" and w: "writes_ok (ke_config env)"
    and k1: "k_vaults k1 = hm_remove i (k_vaults k)" "k_config k1 = k_config k"
  shows "mirrored env (snd (update_config env (on_vaults (unregister i)) k1))"
proof -
  have "registry_good (k_lower env) (unregister i (vaults_config k1))" "store_ok (ke_config env) (k_config k1)"
    using mirror_registry [OF m] m by (simp_all add: k1 registry_good_unregister mirror_but_def)
  then obtain c k' where u: "update_config env (on_vaults (unregister i)) k1 = (Inr c, k')" "store_ok (ke_config env) (k_config k')"
    "same_vaults k1 k'" "vaults_config k' = unregister i (vaults_config k1)"
    using w by (rule_tac update_config_registry [of env k1 "unregister i"]) auto
  have v: "k_vaults k' = hm_remove i (k_vaults k)" using u(3) k1 by (simp add: same_vaults_def)
  have "opened_ids k' \<subseteq> opened_ids k - {i}" by (auto simp: opened_ids_def v split: if_splits)
  then have "opened_ids k' \<subseteq> set (vr_open_vault_ids (vaults_config k'))"
    using m by (auto simp: u(4) unregister_def k1 mirror_but_def)
  moreover have "x \<in> set (vr_entries (vaults_config k')) \<longleftrightarrow> (\<exists>s. hm_get (k_vaults k') (ve_id x) = Some s \<and> mv_entry s = x)" for x
    using m by (auto simp: u(4) unregister_def k1 mirror_but_def v)
  moreover have "\<forall>j s. hm_get (k_vaults k') j = Some s \<longrightarrow> ve_id (mv_entry s) = j" "hm_ok (k_vaults k')"
    using m by (auto simp: v mirror_but_def)
  ultimately have "mirrored env k'" using u(2) by (simp add: mirrored_def mirror_but_def)
  with u(1) show ?thesis by simp
qed

lemma mirrored_remove_file: "keeps (mirrored env') (remove_file env path)"
  by (rule keeps_mirror) (simp add: remove_file_def and_then_def tick_def fail_def modify_def split: option.split)

lemma mirrored_delete_vault:
  assumes w: "writes_ok (ke_config env)"
  shows "keeps (mirrored env) (delete_vault_permanently env i)"
proof (rule keepsI)
  fix k assume k: "mirrored env k"
  show "mirrored env (snd (delete_vault_permanently env i k))"
  proof (cases "hm_get (k_vaults k) i")
    case None
    with k show ?thesis by (simp add: delete_vault_permanently_def and_then_def vault_state_def)
  next
    case (Some st)
    let ?k1 = "drop_index i ((drop_store st k)\<lparr>k_vaults := hm_remove i (k_vaults k)\<rparr>)"
    have "mirrored env (snd (update_config env (on_vaults (unregister i)) ?k1))"
      by (rule mirrored_unregistered [OF _ w, of k])
         (use k in \<open>auto simp: mirrored_def drop_index_def drop_store_def put_file_def split: option.split\<close>)
    then show ?thesis using k Some keepsD [OF mirrored_remove_file]
      by (auto simp: delete_vault_permanently_def and_then_def vault_state_def fail_if_def split: prod.split sum.split)
  qed
qed

lemma registered_config:
  assumes good: "registry_good lower (cfg_vaults c)"
    and e: "normalize_entry e = e" "ve_id e \<noteq> []"
  shows "cfg_vaults (normalized (on_vaults (register_new e) c)) = register_new e (cfg_vaults c)"
proof -
  have "trim (ve_id e) = ve_id e" using e(1) by (metis normalize_entry_def trim_trim vault_registry_entry.select_convs(1)
      vault_registry_entry.surjective vault_registry_entry.update_convs)
  moreover from this e(2) have "trim_opt (vr_default_target_vault_id (register_new e (cfg_vaults c))) =
      vr_default_target_vault_id (register_new e (cfg_vaults c))"
    using normalize_vaults(3) [OF good] by (cases "vr_default_target_vault_id (cfg_vaults c)") (simp_all add: register_new_def trim_opt_def)
  ultimately show ?thesis using normalize_vaults(1,2) [OF good] e
    by (simp add: normalized_def Let_def register_new_def)
qed

lemma mirrored_registered:
  assumes m: "mirror_but {} env k" and u: "update_config env (on_vaults (register_new e)) k = (Inr c, k')"
    and e: "normalize_entry e = e" "ve_id e \<noteq> []"
  shows "mirrored env (set_state (ve_id e) \<lparr>mv_entry = e, mv_store = s, mv_availability_error = None\<rparr> k')"
proof -
  have "store_ok (ke_config env) (k_config k)" using m by (simp add: mirror_but_def)
  from update_config_cases [OF this u] have u': "store_ok (ke_config env) (k_config k')" "same_vaults k k'"
    "vaults_config k' = cfg_vaults (normalized (on_vaults (register_new e) (cst_config (k_config k))))" by auto
  with registered_config [OF mirror_registry [OF m] e] have v: "vaults_config k' = register_new e (vaults_config k)" by simp
  have "distinct (map ve_id (vr_entries (vaults_config k')))"
    using u'(1) by (simp add: store_ok_def config_ok_def registry_valid_def)
  then have new: "ve_id e \<notin> ve_id ` set (vr_entries (vaults_config k))" by (simp add: v register_new_def)
  have none: "hm_get (k_vaults k) (ve_id e) = None"
    using mirror_entry [OF m, of "ve_id e"] new by (metis image_eqI not_Some_eq)
  let ?k = "set_state (ve_id e) \<lparr>mv_entry = e, mv_store = s, mv_availability_error = None\<rparr> k'"
  have "k_vaults k' = k_vaults k" using u'(2) by (simp add: same_vaults_def)
  then have kv: "hm_get (k_vaults ?k) j = (if j = ve_id e then Some \<lparr>mv_entry = e, mv_store = s, mv_availability_error = None\<rparr> else hm_get (k_vaults k) j)" for j
    by (simp add: set_state_def)
  have "opened_ids ?k \<subseteq> set (vr_open_vault_ids (vaults_config k'))"
  proof -
    have "opened_ids k \<subseteq> set (vr_open_vault_ids (vaults_config k))" using m by (simp add: mirror_but_def)
    moreover have "opened_ids k' = opened_ids k" using u'(2) by (intro opened_ids_cong) (simp add: same_vaults_def)
    ultimately show ?thesis by (auto simp: opened_ids_set_state v register_new_def)
  qed
  moreover have "x \<in> set (vr_entries (vaults_config k')) \<longleftrightarrow> (\<exists>t. hm_get (k_vaults ?k) (ve_id x) = Some t \<and> mv_entry t = x)" for x
  proof (cases "ve_id x = ve_id e")
    case True
    with new have "x \<notin> set (vr_entries (vaults_config k))" by (metis image_eqI)
    with True show ?thesis by (auto simp: kv v register_new_def)
  next
    case False
    with m show ?thesis by (auto simp: kv v register_new_def mirror_but_def)
  qed
  moreover have "\<forall>j t. hm_get (k_vaults ?k) j = Some t \<longrightarrow> ve_id (mv_entry t) = j"
    using m by (auto simp: kv mirror_but_def)
  moreover have "hm_ok (k_vaults ?k)" using m u'(2) by (simp add: mirror_but_def same_vaults_def set_state_def)
  ultimately show ?thesis using u'(1) by (simp add: mirrored_def mirror_but_def) (simp add: set_state_def)
qed

definition uuids_plain :: "'d core_env \<Rightarrow> bool" where
  "uuids_plain env \<longleftrightarrow> (\<forall>n. ke_uuid env n \<noteq> [] \<and> list_all visible (ke_uuid env n))"

lemma new_entry_normal:
  assumes "uuids_plain env" and "e = \<lparr>ve_id = ke_uuid env n, ve_name = trim name, ve_db_file = ke_uuid env n @ ''.sqlite'', ve_created_at = a, ve_updated_at = b\<rparr>"
  shows "normalize_entry e = e \<and> ve_id e \<noteq> []"
proof -
  have u: "ke_uuid env n \<noteq> []" "list_all visible (ke_uuid env n)" using assms(1) by (auto simp: uuids_plain_def)
  then have "visible (hd (ke_uuid env n))" "visible (last (ke_uuid env n))" by (auto simp: list_all_iff)
  then have "trim (ke_uuid env n) = ke_uuid env n" "trim (ke_uuid env n @ ''.sqlite'') = ke_uuid env n @ ''.sqlite''"
    using u by (auto simp: visible_def intro!: trim_visible)
  with u show ?thesis by (simp add: assms(2) normalize_entry_def)
qed

lemma mirrored_create_store: "keeps (mirrored env') (create_store env path passphrase device)"
  by (rule keeps_mirror) (simp add: create_store_def put_file_def split: sum.split prod.split)

lemma mirrored_tick: "keeps (mirrored env) tick"
  by (rule keeps_mirror) (simp add: tick_def)

text \<open>The entry goes into the configuration, then into memory, or into neither.\<close>

lemma mirrored_commit:
  fixes rest :: "unit \<Rightarrow> ('s, 'd, 'a) cprog"
  assumes e: "normalize_entry e = e" "ve_id e \<noteq> []" and rest: "\<And>u. keeps (mirrored env) (rest u)"
  shows "keeps (mirrored env) (and_then (or_undo (update_config env (on_vaults (register_new e))) (remove_file env path)) (\<lambda>_.
      and_then (modify (set_state (ve_id e) \<lparr>mv_entry = e, mv_store = Some s, mv_availability_error = None\<rparr>)) rest))"
proof (rule keepsI)
  fix k :: "('s, 'd) controller" assume k: "mirrored env k"
  obtain r k' where u: "update_config env (on_vaults (register_new e)) k = (r, k')" by fastforce
  show "mirrored env (snd (and_then (or_undo (update_config env (on_vaults (register_new e))) (remove_file env path)) (\<lambda>_.
      and_then (modify (set_state (ve_id e) \<lparr>mv_entry = e, mv_store = Some s, mv_availability_error = None\<rparr>)) rest) k))"
  proof (cases r)
    case (Inr c)
    from k have m: "mirror_but {} env k" by (simp add: mirrored_def)
    from mirrored_registered [OF m u [unfolded Inr] e] keepsD [OF rest] show ?thesis
      by (simp add: u Inr or_undo_def and_then_def modify_def)
  next
    case (Inl er)
    from k have ok: "store_ok (ke_config env) (k_config k)" by (simp add: mirrored_def mirror_but_def)
    from update_config_cases [OF ok u] Inl k have "mirrored env k'"
      by (auto simp: mirrored_def mirror_but_def same_vaults_def opened_ids_def)
    with keepsD [OF mirrored_remove_file] Inl show ?thesis by (simp add: u or_undo_def and_then_def)
  qed
qed

lemma mirrored_create_vault:
  assumes "uuids_plain env"
  shows "keeps (mirrored env) (create_named_vault env name passphrase device)"
proof -
  have check: "keeps (mirrored env) (check_name others n)" for others n
    by (rule keepsI) (simp add: check_name_state)
  let ?e = "\<lambda>n n'. \<lparr>ve_id = ke_uuid env n, ve_name = trim name, ve_db_file = ke_uuid env n @ ''.sqlite'',
      ve_created_at = ke_now env n', ve_updated_at = ke_now env n'\<rparr>"
  have e: "normalize_entry (?e n n') = ?e n n'" "ve_id (?e n n') \<noteq> []" for n n'
    using new_entry_normal [OF assms] by blast+
  note commit = mirrored_commit [OF e, simplified vault_registry_entry.select_convs]
  show ?thesis
    unfolding create_named_vault_def Let_def
    by (intro keeps_and_then check mirrored_tick mirrored_create_store commit mirrored_rebuild keeps_case_option keeps_pure)
qed

end
