(* ===== verification/Core_Theorems.thy ===== *)
theory Core_Theorems
  imports Core_Registry Machines
begin

text \<open>
  The controller as a machine: it starts from the configuration and the files on disk, and runs the
  operations on vaults in any order. The properties of the registry, of the choice of a vault for an
  action, of deleting a vault and of the index of host references.
\<close>

section \<open>Starting\<close>

text \<open>The entries \<open>es\<close> have been loaded.\<close>

definition loaded :: "'d core_env \<Rightarrow> vault_registry_entry set \<Rightarrow> ('s, 'd) controller \<Rightarrow> bool" where
  "loaded env es k \<longleftrightarrow> hm_ok (k_vaults k)
     \<and> (\<forall>i st. hm_get (k_vaults k) i = Some st \<longrightarrow> ve_id (mv_entry st) = i)
     \<and> (\<forall>e. e \<in> es \<longleftrightarrow> (\<exists>st. hm_get (k_vaults k) (ve_id e) = Some st \<and> mv_entry st = e))
     \<and> opened_ids k \<subseteq> set (vr_open_vault_ids (vaults_config k))"

lemma loaded_set_state:
  assumes k: "loaded env es k" and new: "ve_id e \<notin> ve_id ` es" and st: "mv_entry st = e"
    and "mv_store st = None \<or> ve_id e \<in> set (vr_open_vault_ids (vaults_config k))"
  shows "loaded env (insert e es) (set_state (ve_id e) st k)"
proof -
  have "x \<in> insert e es \<longleftrightarrow> (\<exists>t. hm_get (k_vaults (set_state (ve_id e) st k)) (ve_id x) = Some t \<and> mv_entry t = x)" for x
  proof (cases "ve_id x = ve_id e")
    case True
    with new have "x \<notin> es" by (metis image_eqI)
    with True st show ?thesis by (auto simp: set_state_def)
  next
    case False
    then have "x \<noteq> e" by auto
    with False k show ?thesis by (simp add: set_state_def loaded_def)
  qed
  moreover have "opened_ids (set_state (ve_id e) st k) \<subseteq> set (vr_open_vault_ids (vaults_config (set_state (ve_id e) st k)))"
    using k assms(4) unfolding opened_ids_set_state by (auto simp: loaded_def) (auto simp: set_state_def)
  ultimately show ?thesis using k st by (auto simp: loaded_def) (auto simp: set_state_def split: if_splits)
qed

lemma load_one:
  assumes "loaded env es k" and "ve_id e \<notin> ve_id ` es"
  shows "loaded env (insert e es) (load_managed_vault env e k) \<and> k_config (load_managed_vault env e k) = k_config k"
proof -
  have put: "loaded env es (put_file s k)" "k_config (put_file s k) = k_config k" for s
    using assms(1) by (simp_all add: loaded_def put_file_def opened_ids_def)
  show ?thesis
    using loaded_set_state [OF assms] loaded_set_state [OF put(1) assms(2)]
    by (auto simp: load_managed_vault_def Let_def put split: sum.split) (simp_all add: set_state_def put)
qed

lemma load_all:
  assumes "distinct (map ve_id es)" and "loaded env ps k" and "ve_id ` ps \<inter> ve_id ` set es = {}"
  shows "loaded env (ps \<union> set es) (fold (load_managed_vault env) es k) \<and> k_config (fold (load_managed_vault env) es k) = k_config k"
  using assms
proof (induction es arbitrary: ps k)
  case (Cons e es)
  then have "ve_id e \<notin> ve_id ` ps" by auto
  from load_one [OF Cons.prems(2) this] Cons.IH [of "insert e ps" "load_managed_vault env e k"] Cons.prems
  show ?case by auto
qed simp

lemma mirrored_loaded:
  assumes ok: "store_ok (ke_config env) (k_config k)"
  shows "mirrored env (load_managed_vaults env k)"
proof -
  let ?k = "k\<lparr>k_vaults := []\<rparr>"
  have "loaded env {} ?k" by (simp add: loaded_def opened_ids_def)
  moreover have "distinct (map ve_id (vr_entries (vaults_config k)))"
    using ok by (simp add: store_ok_def config_ok_def registry_valid_def)
  ultimately have "loaded env (set (vr_entries (vaults_config k))) (load_managed_vaults env k)
     \<and> k_config (load_managed_vaults env k) = k_config k"
    using load_all [of "vr_entries (vaults_config k)" env "{}" ?k] by (simp add: load_managed_vaults_def)
  with ok show ?thesis by (auto simp: mirrored_def mirror_but_def loaded_def)
qed

lemma load_or_default_ok: "load_or_default env path contents = Inr s \<Longrightarrow> store_ok env s"
  using default_config_ok
  by (auto simp: load_or_default_def store_ok_def with_defaults_def map_err_def Let_def validate_iff normalized_normalized
      split: option.splits sum.splits)

lemma migrate_ok:
  assumes "store_ok (ke_config env) (k_config k)" and "migrate_legacy_vault_registry env k = (r, k')"
  shows "store_ok (ke_config env) (k_config k')"
  using assms
  by (auto simp: migrate_legacy_vault_registry_def and_then_def tick_def Let_def
      split: if_splits prod.splits sum.splits dest: update_store_cases)

lemma mirrored_start:
  fixes k :: "('s, 'd) controller"
  assumes "start env paths contents disk n = Inr k"
  shows "mirrored env k"
proof -
  have defaults: "store_ok (ke_config env) (with_defaults p c)" for p c
    using default_config_ok by (simp add: store_ok_def with_defaults_def)
  let ?k0 = "initial_controller paths (initial_config env paths contents) disk n :: ('s, 'd) controller"
  have ok: "store_ok (ke_config env) (k_config ?k0)"
    using load_or_default_ok defaults by (auto simp: initial_config_def initial_controller_def split: sum.split)
  obtain u k' where k': "migrate_legacy_vault_registry env ?k0 = (Inr u, k')"
    and k: "k_vaults k = k_vaults (load_managed_vaults env k')" "k_config k = k_config (load_managed_vaults env k')"
    using assms by (auto simp: start_def Let_def split: prod.splits sum.splits)
  from mirrored_loaded [OF migrate_ok [OF ok k']] show ?thesis
    unfolding mirrored_def mirror_cong [OF k] .
qed

section \<open>The machine\<close>

datatype vault_action =
    CreateNamed string string string
  | Rename string string
  | OpenVault string
  | CloseVault string
  | UnlockNamed string string string
  | UnlockWithDevice string
  | LockNamed string
  | DeleteVault string
  | SetDefault string

fun act :: "'d core_env \<Rightarrow> vault_action \<Rightarrow> ('s, 'd) controller \<Rightarrow> ('s, 'd) controller" where
  "act env (CreateNamed n p d) k = snd (create_named_vault env n p d k)"
| "act env (Rename i n) k = snd (rename_vault env i n k)"
| "act env (OpenVault i) k = snd (open_vault env i k)"
| "act env (CloseVault i) k = snd (close_vault env i k)"
| "act env (UnlockNamed i p d) k = snd (unlock_vault env i p d k)"
| "act env (UnlockWithDevice i) k = snd (try_unlock_vault_with_device env i k)"
| "act env (LockNamed i) k = snd (lock_vault i k)"
| "act env (DeleteVault i) k = snd (delete_vault_permanently env i k)"
| "act env (SetDefault i) k = snd (set_default_target_vault env i k)"

text \<open>Whether an action renames a vault to a name on which the check of \<open>rename_vault\<close> and the validation of the
  configuration disagree, and a run without such an action.\<close>

fun act_safe :: "'d core_env \<Rightarrow> vault_action \<Rightarrow> ('s, 'd) controller \<Rightarrow> bool" where
  "act_safe env (Rename i n) k \<longleftrightarrow> rename_safe env i n k"
| "act_safe env _ k \<longleftrightarrow> True"

fun run_safe :: "'d core_env \<Rightarrow> vault_action list \<Rightarrow> ('s, 'd) controller \<Rightarrow> bool" where
  "run_safe env [] k \<longleftrightarrow> True"
| "run_safe env (a # actions) k \<longleftrightarrow> act_safe env a k \<and> run_safe env actions (act env a k)"

lemma mirrored_act:
  assumes "writes_ok (ke_config env)" and "uuids_plain env" and "act_safe env a k" and "mirrored env k"
  shows "mirrored env (act env a k)"
  using assms
  by (cases a) (auto intro: mirrored_rename_vault keepsD [OF mirrored_create_vault] keepsD [OF mirrored_open_vault]
      keepsD [OF mirrored_close_vault] keepsD [OF mirrored_unlock_ops(1)] keepsD [OF mirrored_unlock_ops(2)]
      keepsD [OF mirrored_unlock_ops(3)] keepsD [OF mirrored_delete_vault] keepsD [OF mirrored_set_default])

text \<open>The registry as a machine that notes whether every action so far was safe.\<close>

definition noting_act :: "'d core_env \<Rightarrow> vault_action \<Rightarrow> ('s, 'd) controller \<times> bool \<Rightarrow> ('s, 'd) controller \<times> bool" where
  "noting_act env a s = (act env a (fst s), snd s \<and> act_safe env a (fst s))"

interpretation registry: machine "noting_act env" "\<lambda>_. True"
    "\<lambda>s. writes_ok (ke_config env) \<and> uuids_plain env \<and> snd s \<longrightarrow> mirrored env (fst s)"
  by unfold_locales (simp add: noting_act_def mirrored_act)

lemma noting_run: "fold (noting_act env) actions (k, b) = (fold (act env) actions k, b \<and> run_safe env actions k)"
  by (induction actions arbitrary: k b) (auto simp: noting_act_def)

lemma mirrored_acts:
  assumes "writes_ok (ke_config env)" and "uuids_plain env" and "run_safe env actions k" and "mirrored env k"
  shows "mirrored env (fold (act env) actions k)"
  using registry.inv_run [of env "(k, True)" actions] assms by (simp add: noting_run list.pred_True)

section \<open>Rebuilding the index\<close>

text \<open>The hosts an unlocked vault contributes, with the vault's name.\<close>

definition hosts_in :: "'d core_env \<Rightarrow> ('s, 'd) controller \<Rightarrow> string \<Rightarrow> host_auth_summary list" where
  "hosts_in env k i =
     (case Option.bind (hm_get (k_vaults k) i) mv_store of
        None \<Rightarrow> []
      | Some s \<Rightarrow> if st_unlocked (status s)
          then (case list_host_auth_summaries (ke_vault env) s of Inl _ \<Rightarrow> [] | Inr hosts \<Rightarrow> hosts) else [])"

definition name_of :: "('s, 'd) controller \<Rightarrow> string \<Rightarrow> string" where
  "name_of k i = (case hm_get (k_vaults k) i of None \<Rightarrow> [] | Some st \<Rightarrow> ve_name (mv_entry st))"

lemma rebuild_run:
  assumes "rebuild_vault_auth_reference_index env i k = (Inr u, k')"
  shows "k' = k\<lparr>k_index := fold (index_step (k_lower env)) (DropVault i # map (IndexHost i (name_of k i)) (hosts_in env k i)) (k_index k)\<rparr>"
proof -
  have "fold (index_step lower) (map (IndexHost i n) hosts) ix = fold (upsert_host_auth_reference_summary lower i n) hosts ix" for lower n hosts ix
    by (induction hosts arbitrary: ix) auto
  with assms show ?thesis
    by (auto simp: rebuild_vault_auth_reference_index_def drop_index_def hosts_in_def name_of_def Let_def
        split: option.splits if_splits sum.splits)
qed

lemma rebuild_all_run:
  assumes "for_all (rebuild_vault_auth_reference_index env) ids k = (Inr u, k')"
  shows "k' = k\<lparr>k_index := fold (index_step (k_lower env))
     (concat (map (\<lambda>i. DropVault i # map (IndexHost i (name_of k i)) (hosts_in env k i)) ids)) (k_index k)\<rparr>"
  using assms
proof (induction ids arbitrary: k)
  case (Cons i ids)
  then obtain k1 where k1: "rebuild_vault_auth_reference_index env i k = (Inr (), k1)"
    and rest: "for_all (rebuild_vault_auth_reference_index env) ids k1 = (Inr u, k')"
    by (auto simp: and_then_eq_Inr)
  from rebuild_run [OF k1] have "hosts_in env k1 = hosts_in env k" "name_of k1 = name_of k"
    by (simp_all add: hosts_in_def name_of_def fun_eq_iff)
  with Cons.IH [OF rest] rebuild_run [OF k1] show ?case by simp
qed simp

text \<open>What those operations leave, told on the map of hosts.\<close>

lemma host_steps_index:
  assumes "distinct (map ha_host_id hosts)"
  shows "fold host_step (map (IndexHost i n) hosts) H (v, h) =
     (if v = i \<and> h \<in> ha_host_id ` set hosts then map_option (\<lambda>x. (n, x)) (find (\<lambda>x. ha_host_id x = h) hosts) else H (v, h))"
  using assms
proof (induction hosts arbitrary: H)
  case (Cons x hosts)
  have "find (\<lambda>y. ha_host_id y = ha_host_id x) hosts = None" using Cons.prems by (auto simp: find_None_iff image_iff)
  with Cons show ?case by (auto simp: image_iff)
qed simp

lemma host_steps_all:
  assumes "distinct ids" and "\<And>i. i \<in> set ids \<Longrightarrow> distinct (map ha_host_id (hosts i))"
  shows "fold host_step (concat (map (\<lambda>i. DropVault i # map (IndexHost i (n i)) (hosts i)) ids)) H (v, h) =
     (if v \<in> set ids then map_option (\<lambda>x. (n v, x)) (find (\<lambda>x. ha_host_id x = h) (hosts v)) else H (v, h))"
  using assms
proof (induction ids arbitrary: H)
  case (Cons i ids)
  have "find (\<lambda>x. ha_host_id x = h) (hosts i) = None" if "h \<notin> ha_host_id ` set (hosts i)"
    using that by (auto simp: find_None_iff image_iff)
  with Cons show ?case by (auto simp: host_steps_index)
qed simp

section \<open>A concrete controller\<close>

definition demo_paths :: app_paths where
  "demo_paths = \<lparr>ap_app_root = ''r'', ap_config_path = ''r/config.toml'', ap_diagnostics_dir = ''r/logs'',
     ap_session_logs_dir = ''r/session-logs'', ap_vault_db_path = ''r/vault.sqlite'', ap_vaults_dir = ''r/vaults'',
     ap_ipc_socket_path = ''r/resident.sock'', ap_instance_lock_path = ''r/resident.lock''\<rparr>"

text \<open>Every write succeeds; \<open>low\<close> lowers names.\<close>

definition demo_core_env :: "(string \<Rightarrow> string) \<Rightarrow> (string \<times> bytes) list core_env" where
  "demo_core_env low =
     \<lparr>ke_vault = demo_env,
      ke_config = \<lparr>ce_print = (\<lambda>_. Inr ''toml''), ce_parse = (\<lambda>_. Inl ''malformed''),
        ce_io = (\<lambda>_. \<lparr>wi_create_dir = None, wi_temp = None, wi_write = None, wi_flush = None, wi_persist = None\<rparr>),
        ce_lower = low, ce_macos = False\<rparr>,
      ke_open_error = (\<lambda>_. None), ke_fresh_device = [], ke_mkdir = (\<lambda>_. None), ke_remove = (\<lambda>_. None),
      ke_uuid = (\<lambda>n. replicate (Suc n) (CHR ''u'')), ke_now = int, ke_show = (\<lambda>_. ''unavailable'')\<rparr>"

abbreviation ascii_env :: "(string \<times> bytes) list core_env" where
  "ascii_env \<equiv> demo_core_env (map to_ascii_lower)"

lemma demo_core_hyps:
  "writes_ok (ke_config (demo_core_env low))" "uuids_plain (demo_core_env low)"
  by (simp_all add: writes_ok_def demo_core_env_def uuids_plain_def list_all_iff visible_def)

lemma demo_start: "\<exists>k. start (demo_core_env low) demo_paths None [] 0 = Inr k"
  by (simp add: start_def migrate_legacy_vault_registry_def initial_controller_def path_exists_def Let_def)

section \<open>Properties\<close>

text \<open>
  C12. The registry of vaults in memory always mirrors the one in the configuration, from the start of
  the program on and whatever vaults are created, renamed, opened, closed, unlocked, locked, deleted or
  made the default: the entries are the same, each vault is filed under its own identifier, every open
  vault is listed as open, and the configuration stays valid. Two conditions: the configuration can be
  written, and no vault is renamed to a name that lowers to the same text as another vault's name without
  being equal to it up to ASCII case; on such a name, which has a letter beyond ASCII, \<open>rename_vault\<close> and the
  validation of the configuration disagree.
\<close>

theorem registry_mirrors_config:
  assumes "writes_ok (ke_config env)" and "uuids_plain env"
    and "start env paths contents disk n = Inr k0" and "run_safe env actions k0" and "k = fold (act env) actions k0"
  shows "(\<forall>e. e \<in> set (vr_entries (vaults_config k)) \<longleftrightarrow> (\<exists>st. hm_get (k_vaults k) (ve_id e) = Some st \<and> mv_entry st = e))
     \<and> (\<forall>i st. hm_get (k_vaults k) i = Some st \<longrightarrow> ve_id (mv_entry st) = i)
     \<and> opened_ids k \<subseteq> set (vr_open_vault_ids (vaults_config k))
     \<and> store_ok (ke_config env) (k_config k)"
proof -
  from mirrored_acts [OF assms(1,2,4) mirrored_start [OF assms(3)]] assms(5) show ?thesis by (simp add: mirrored_def mirror_but_def)
qed

text \<open>With a lowering that knows a letter beyond ASCII, and a rename.\<close>

abbreviation upper_oe :: string where "upper_oe \<equiv> [CHR 0xC3, CHR 0x96]"
abbreviation lower_oe :: string where "lower_oe \<equiv> [CHR 0xC3, CHR 0xB6]"

abbreviation latin_env :: "(string \<times> bytes) list core_env" where
  "latin_env \<equiv> demo_core_env (\<lambda>s. if s = upper_oe then lower_oe else map to_ascii_lower s)"

theorem registry_mirrors_config_witness:
  "\<exists>k0 :: (unit, (string \<times> bytes) list) controller. start latin_env demo_paths None [] 0 = Inr k0 \<and>
     store_ok (ke_config latin_env) (k_config (fold (act latin_env) [Rename ''2'' upper_oe, CreateNamed ''Work'' ''pass'' ''mac'', CloseVault ''uu''] k0))"
proof -
  obtain k0 :: "(unit, (string \<times> bytes) list) controller" where k0: "start latin_env demo_paths None [] 0 = Inr k0" using demo_start by blast
  have "k_vaults k0 = []"
    using k0 by (auto simp: start_def migrate_legacy_vault_registry_def initial_controller_def path_exists_def Let_def
        load_managed_vaults_def initial_config_def load_or_default_def with_defaults_def default_app_config_def
        split: prod.splits sum.splits if_splits)
  then have "run_safe latin_env [Rename ''2'' upper_oe, CreateNamed ''Work'' ''pass'' ''mac'', CloseVault ''uu''] k0"
    by (simp add: rename_safe_def)
  from registry_mirrors_config [OF demo_core_hyps k0 this refl] k0 show ?thesis by blast
qed

text \<open>A controller with two vaults that are not open.\<close>

lemma unit_result_Inl: "(r :: 'e + unit) \<noteq> Inr () \<Longrightarrow> \<exists>e. r = Inl e"
  by (cases r) auto

lemma trim_bytes:
  assumes "s \<noteq> []" and "\<And>w. w \<in> set whitespace_seqs \<Longrightarrow> hd w \<noteq> hd s \<and> last w \<noteq> last s"
  shows "trim s = s"
proof -
  have ne: "w \<noteq> []" if "w \<in> set whitespace_seqs" for w using whitespace_invisible [OF that] by blast
  have "trim_start s = s" unfolding trim_start_def using assms ne by (intro strip_all_id) auto
  moreover have "strip_all (map rev whitespace_seqs) (rev s) = rev s"
    using assms ne by (intro strip_all_id) (auto simp: hd_rev)
  ultimately show ?thesis by (simp add: trim_def trim_end_def)
qed

lemma trim_oe [simp]: "trim upper_oe = upper_oe" "trim lower_oe = lower_oe"
proof -
  have "list_all (\<lambda>w. (of_char (hd w) :: nat) \<noteq> 195 \<and> (of_char (last w) :: nat) \<noteq> 150 \<and> (of_char (last w) :: nat) \<noteq> 182) whitespace_seqs"
    by (simp add: whitespace_seqs_def)
  then show "trim upper_oe = upper_oe" "trim lower_oe = lower_oe"
    by (intro trim_bytes; force simp: list_all_iff)+
qed

definition demo_entry :: "string \<Rightarrow> string \<Rightarrow> vault_registry_entry" where
  "demo_entry i n = \<lparr>ve_id = i, ve_name = n, ve_db_file = i, ve_created_at = 0, ve_updated_at = 0\<rparr>"

definition demo_two :: "(unit, (string \<times> bytes) list) controller" where
  "demo_two = (initial_controller demo_paths ((with_defaults ''c'' None)\<lparr>cst_config := default_app_config\<lparr>cfg_vaults :=
       \<lparr>vr_entries = [demo_entry ''1'' lower_oe, demo_entry ''2'' ''work''], vr_open_vault_ids = [], vr_default_target_vault_id = None\<rparr>\<rparr>\<rparr>) [] 0)
     \<lparr>k_vaults := [(''1'', \<lparr>mv_entry = demo_entry ''1'' lower_oe, mv_store = None, mv_availability_error = None\<rparr>),
                   (''2'', \<lparr>mv_entry = demo_entry ''2'' ''work'', mv_store = None, mv_availability_error = None\<rparr>)]\<rparr>"

text \<open>
  A name that differs from another vault's only in the case of a letter beyond ASCII passes the check
  of \<open>rename_vault\<close> and is then refused by the validation of the configuration: the call fails, but the
  vault has its new name in memory while the configuration still has the old one.
\<close>

theorem failed_rename_diverges:
  "\<exists>e k st. rename_vault latin_env ''2'' upper_oe demo_two = (Inl e, k)
     \<and> hm_get (k_vaults k) ''2'' = Some st \<and> ve_name (mv_entry st) = upper_oe
     \<and> vaults_config k = vaults_config demo_two"
proof -
  let ?e = "(demo_entry ''2'' ''work'')\<lparr>ve_name := upper_oe, ve_updated_at := 0\<rparr>"
  let ?k = "set_state ''2'' \<lparr>mv_entry = ?e, mv_store = None, mv_availability_error = None\<rparr> (demo_two\<lparr>k_tick := 1\<rparr>)"
  let ?f = "on_vaults (\<lambda>v. v\<lparr>vr_entries := replace_entry ''2'' ?e (vr_entries v)\<rparr>)"
  have vs: "cfg_vaults (normalized (?f (cst_config (k_config ?k)))) =
      \<lparr>vr_entries = [demo_entry ''1'' lower_oe, ?e], vr_open_vault_ids = [], vr_default_target_vault_id = None\<rparr>"
    by (simp add: demo_two_def initial_controller_def with_defaults_def set_state_def demo_entry_def normalized_def Let_def
        normalize_entry_def trim_visible trim_opt_def)
  have "\<not> config_ok (k_lower latin_env) (normalized (?f (cst_config (k_config ?k))))"
    unfolding config_ok_def registry_valid_def vs by (simp add: demo_core_env_def demo_entry_def to_ascii_lower_def)
  then have "validate (k_lower latin_env) (ce_macos (ke_config latin_env)) (normalized (?f (cst_config (k_config ?k)))) \<noteq> Inr ()"
    by (simp add: validate_iff)
  then obtain er where "validate (k_lower latin_env) (ce_macos (ke_config latin_env)) (normalized (?f (cst_config (k_config ?k)))) = Inl er"
    using unit_result_Inl by blast
  then have u: "update_config latin_env ?f ?k = (Inl (Ctx ''failed to persist app config'' (FromConfig er)), ?k)"
    by (simp add: update_config_def update_store_def replace_config_def and_then_def lift_r_def Let_def)
  have c: "check_name (\<lambda>j. j \<noteq> ''2'') upper_oe demo_two = (Inr (), demo_two)"
    by (simp add: check_name_Inr demo_two_def demo_entry_def eq_ignore_ascii_case_def to_ascii_lower_def)
  have st: "hm_get (k_vaults demo_two) ''2'' = Some \<lparr>mv_entry = demo_entry ''2'' ''work'', mv_store = None, mv_availability_error = None\<rparr>"
    "k_tick demo_two = 0" "ke_now latin_env 0 = 0"
    by (simp_all add: demo_two_def initial_controller_def demo_core_env_def)
  have "rename_vault latin_env ''2'' upper_oe demo_two = (Inl (Ctx ''failed to persist app config'' (FromConfig er)), ?k)"
    using u by (simp add: rename_vault_def and_then_def c vault_state_def st tick_def Let_def)
  moreover have "hm_get (k_vaults ?k) ''2'' = Some \<lparr>mv_entry = ?e, mv_store = None, mv_availability_error = None\<rparr>"
    "vaults_config ?k = vaults_config demo_two" by (simp_all add: set_state_def)
  ultimately show ?thesis by fastforce
qed

text \<open>
  C38. An action without a vault goes to an unlocked vault: the default one when it is unlocked, some
  unlocked one when there is any. So the methods of the handle that unlock a vault without naming it
  cannot unlock anything: while every vault is locked they fail and change nothing.
\<close>

theorem default_target_unlocked:
  assumes "hm_ok (k_vaults k)"
  shows "(\<forall>i. default_target_vault_id_for_actions env k = Some i \<longrightarrow>
            (\<exists>st. hm_get (k_vaults k) i = Some st \<and> is_unlocked st))
     \<and> (\<forall>i st. vr_default_target_vault_id (vaults_config k) = Some i \<and> hm_get (k_vaults k) i = Some st \<and> is_unlocked st \<longrightarrow>
            default_target_vault_id_for_actions env k = Some i)
     \<and> (default_target_vault_id_for_actions env k = None \<longleftrightarrow> (\<forall>(i, st)\<in>set (k_vaults k). \<not> is_unlocked st))
     \<and> ((\<forall>(i, st)\<in>set (k_vaults k). \<not> is_unlocked st) \<longrightarrow>
          handle_unlock_vault env p d k = (Inl (Anyhow ''no vault available to unlock''), k)
          \<and> handle_try_unlock_with_device env k = (Inl (Anyhow ''no vault available to unlock''), k))"
proof -
  define xs where "xs = sort_key snd (map (\<lambda>(i, st). (i, k_lower env (ve_name (mv_entry st)))) (filter (\<lambda>(_, st). is_unlocked st) (k_vaults k)))"
  have xs: "fst ` set xs = {i. \<exists>st. hm_get (k_vaults k) i = Some st \<and> is_unlocked st}"
    by (force simp: xs_def hm_get_mem [OF assms])
  have head: "(case xs of [] \<Rightarrow> None | (i, _) # _ \<Rightarrow> Some i) = Some j \<Longrightarrow> j \<in> fst ` set xs" for j
    by (auto split: list.splits prod.splits)
  have empty: "xs = [] \<longleftrightarrow> (\<forall>(i, st)\<in>set (k_vaults k). \<not> is_unlocked st)"
    unfolding set_empty [symmetric] by (auto simp: xs_def filter_empty_conv)
  have t: "default_target_vault_id_for_actions env k =
      (case vr_default_target_vault_id (vaults_config k) of
         Some i \<Rightarrow> if i \<in> fst ` set xs then Some i else (case xs of [] \<Rightarrow> None | (i, _) # _ \<Rightarrow> Some i)
       | None \<Rightarrow> (case xs of [] \<Rightarrow> None | (i, _) # _ \<Rightarrow> Some i))"
    unfolding xs default_target_vault_id_for_actions_def Let_def xs_def [symmetric] by (auto split: option.split)
  have one: "default_target_vault_id_for_actions env k = Some i \<Longrightarrow> i \<in> fst ` set xs" for i
    unfolding t using head by (auto split: option.splits if_splits)
  have none: "default_target_vault_id_for_actions env k = None \<longleftrightarrow> xs = []"
    unfolding t by (auto split: option.splits list.splits)
  have dflt: "default_target_vault_id_for_actions env k = Some i"
    if "vr_default_target_vault_id (vaults_config k) = Some i" "i \<in> fst ` set xs" for i
    using that by (simp add: t)
  show ?thesis
  proof (intro conjI allI impI)
    show "\<exists>st. hm_get (k_vaults k) i = Some st \<and> is_unlocked st" if "default_target_vault_id_for_actions env k = Some i" for i
      using one [OF that] xs by auto
    show "default_target_vault_id_for_actions env k = Some i"
      if "vr_default_target_vault_id (vaults_config k) = Some i \<and> hm_get (k_vaults k) i = Some st \<and> is_unlocked st" for i st
      using dflt [of i] that xs by auto
    show "default_target_vault_id_for_actions env k = None \<longleftrightarrow> (\<forall>(i, st)\<in>set (k_vaults k). \<not> is_unlocked st)"
      unfolding none empty ..
    assume "\<forall>(i, st)\<in>set (k_vaults k). \<not> is_unlocked st"
    then have "default_target_vault_id_for_actions env k = None" unfolding none empty .
    then show "handle_unlock_vault env p d k = (Inl (Anyhow ''no vault available to unlock''), k)"
      "handle_try_unlock_with_device env k = (Inl (Anyhow ''no vault available to unlock''), k)"
      by (simp_all add: handle_unlock_vault_def handle_try_unlock_with_device_def and_then_def reads_def ok_or_def)
  qed
qed

theorem default_target_unlocked_witness:
  "handle_unlock_vault ascii_env ''pass'' ''mac'' demo_two = (Inl (Anyhow ''no vault available to unlock''), demo_two)"
proof -
  have "hm_ok (k_vaults demo_two)" "\<forall>(i, st)\<in>set (k_vaults demo_two). \<not> is_unlocked st"
    by (simp_all add: demo_two_def hm_ok_def is_unlocked_def)
  with default_target_unlocked [of demo_two ascii_env "''pass''" "''mac''"] show ?thesis by blast
qed

text \<open>
  Deleting a vault needs it locked: while it is unlocked the call is refused and changes nothing.
  Otherwise, when the configuration and the file can be written, the vault is gone from memory, from the
  entries, the open list and the default of the configuration, from the index and from the disk, and
  every other vault is as before.
\<close>

theorem deleted_vault_is_gone:
  assumes "mirrored env k" and "writes_ok (ke_config env)" and "\<And>n. ke_remove env n = None" and "index_ok (k_lower env) (k_index k)"
    and st: "hm_get (k_vaults k) i = Some st"
  shows "if is_unlocked st
     then delete_vault_permanently env i k = (Inl (Anyhow ''lock the vault before deleting it''), k)
     else (\<exists>k'. delete_vault_permanently env i k = (Inr (), k') \<and> hm_get (k_vaults k') = (hm_get (k_vaults k))(i := None)
       \<and> vr_entries (vaults_config k') = filter (\<lambda>e. ve_id e \<noteq> i) (vr_entries (vaults_config k))
       \<and> i \<notin> set (vr_open_vault_ids (vaults_config k')) \<and> vr_default_target_vault_id (vaults_config k') \<noteq> Some i
       \<and> indexed (k_index k') = (\<lambda>s. if fst s = i then None else indexed (k_index k) s)
       \<and> \<not> path_exists (vault_db_path (mv_entry st) k) k')"
proof (cases "is_unlocked st")
  case True
  with st show ?thesis by (simp add: delete_vault_permanently_def and_then_def vault_state_def fail_if_def)
next
  case False
  let ?k1 = "drop_index i ((drop_store st k)\<lparr>k_vaults := hm_remove i (k_vaults k)\<rparr>)" and ?path = "vault_db_path (mv_entry st) k"
  have k1: "k_config ?k1 = k_config k" "k_vaults ?k1 = hm_remove i (k_vaults k)" "k_index ?k1 = remove_vault_auth_reference_index i (k_index k)"
    by (simp_all add: drop_index_def drop_store_def put_file_def split: option.split)
  have "registry_good (k_lower env) (unregister i (vaults_config ?k1))" "store_ok (ke_config env) (k_config ?k1)"
    using assms(1) mirror_registry [of "{}" env k] by (simp_all add: k1 mirrored_def registry_good_unregister mirror_but_def)
  then obtain c k' where u: "update_config env (on_vaults (unregister i)) ?k1 = (Inr c, k')"
    "same_vaults ?k1 k'" "vaults_config k' = unregister i (vaults_config ?k1)"
    using assms(2) by (rule_tac update_config_registry [of env ?k1 "unregister i"]) auto
  define k2 where "k2 = (if path_exists ?path k' then snd (remove_file env ?path k') else k')"
  have k2: "k_vaults k2 = k_vaults k'" "k_config k2 = k_config k'" "k_index k2 = k_index k'" "\<not> path_exists ?path k2"
    using assms(3) by (simp_all add: k2_def remove_file_def and_then_def tick_def modify_def path_exists_def)
  have "delete_vault_permanently env i k = (Inr (), k2)"
    using st False u(1) assms(3)
    by (simp add: delete_vault_permanently_def and_then_def vault_state_def fail_if_def k2_def)
       (simp add: remove_file_def and_then_def tick_def modify_def)
  moreover have "hm_get (k_vaults k2) = (hm_get (k_vaults k))(i := None)"
    using u(2) k1 by (simp add: k2 same_vaults_def fun_eq_iff)
  moreover have "indexed (k_index k2) = (\<lambda>s. if fst s = i then None else indexed (k_index k) s)"
    using u(2) k1 remove_vault_ok [OF assms(4), of i] by (simp add: k2 same_vaults_def)
  ultimately show ?thesis using False k2(4) u(3) k1 by (simp add: k2 unregister_def)
qed

lemma demo_two_mirrored: "mirrored ascii_env demo_two"
proof -
  have "normalized (cst_config (k_config demo_two)) = cst_config (k_config demo_two)"
    using default_config_ok [of id]
    by (simp add: demo_two_def initial_controller_def with_defaults_def normalized_def Let_def normalize_entry_def demo_entry_def
        trim_visible trim_opt_def default_app_config_def)
  moreover have "config_ok (map to_ascii_lower) (cst_config (k_config demo_two))"
    using default_config_ok [of "map to_ascii_lower"]
    by (simp add: demo_two_def initial_controller_def with_defaults_def config_ok_def registry_valid_def demo_entry_def entry_ok_def)
  ultimately have "store_ok (ke_config ascii_env) (k_config demo_two)" by (simp add: store_ok_def demo_core_env_def)
  then show ?thesis
    by (auto simp: mirrored_def mirror_but_def opened_ids_def)
       (auto simp: demo_two_def initial_controller_def hm_ok_def demo_entry_def split: if_splits)
qed

theorem deleted_vault_is_gone_witness:
  "\<exists>k'. delete_vault_permanently ascii_env ''2'' demo_two = (Inr (), k') \<and> hm_get (k_vaults k') ''2'' = None"
proof -
  let ?st = "\<lparr>mv_entry = demo_entry ''2'' ''work'', mv_store = None, mv_availability_error = None\<rparr> :: (string \<times> bytes) list managed_vault_state"
  have st: "hm_get (k_vaults demo_two) ''2'' = Some ?st" and ix: "index_ok (k_lower ascii_env) (k_index demo_two)"
    by (simp_all add: demo_two_def initial_controller_def index_ok_empty)
  have rm: "\<And>n. ke_remove ascii_env n = None" by (simp add: demo_core_env_def)
  from deleted_vault_is_gone [OF demo_two_mirrored demo_core_hyps(1) rm ix st] show ?thesis
    by (auto simp: is_unlocked_def)
qed

text \<open>
  After the index has been rebuilt, as at the start of the program, the hosts that refer to a private
  key of a vault are exactly the hosts stored in that vault, if it is unlocked, whose authentication order
  has the key, and likewise for a credential; a locked or closed vault contributes none.
\<close>

theorem rebuilt_index_exact:
  assumes "rebuild_all_auth_reference_indexes env k = (Inr u, k')" and "hm_ok (k_vaults k)"
    and hosts: "\<And>i. distinct (map ha_host_id (hosts_in env k i))" and "hm_get (k_vaults k) i \<noteq> None"
  shows "(\<exists>refs. host_references_for_key i key k' = Inr refs
       \<and> set refs = {reference_to i (name_of k i) h | h. h \<in> set (hosts_in env k i) \<and> (\<exists>p. AuthPrivateKey key p \<in> set (ha_auth_order h))})
     \<and> (\<exists>refs. host_references_for_credential i cred k' = Inr refs
       \<and> set refs = {reference_to i (name_of k i) h | h. h \<in> set (hosts_in env k i)
           \<and> (AuthPassword cred \<in> set (ha_auth_order h) \<or> (\<exists>q. AuthPrivateKey q (Some cred) \<in> set (ha_auth_order h)))})"
proof -
  let ?ids = "map fst (k_vaults k)" and ?k = "k\<lparr>k_index := empty_index\<rparr>"
  let ?ops = "concat (map (\<lambda>i. DropVault i # map (IndexHost i (name_of k i)) (hosts_in env k i)) ?ids)"
  have hk: "hosts_in env ?k = hosts_in env k" "name_of ?k = name_of k" by (simp_all add: hosts_in_def name_of_def fun_eq_iff)
  from assms(1) have "for_all (rebuild_vault_auth_reference_index env) ?ids ?k = (Inr u, k')"
    by (simp add: rebuild_all_auth_reference_indexes_def and_then_def modify_def)
  from rebuild_all_run [OF this] have k': "k' = k\<lparr>k_index := fold (index_step (k_lower env)) ?ops empty_index\<rparr>"
    unfolding hk by simp
  define H where "H = fold host_step ?ops (\<lambda>_. None)"
  have ids: "distinct ?ids" "i \<in> set ?ids" using assms(2,4) unfolding hm_ok_def set_map hm_keys by blast+
  have H: "H (i, h) = map_option (\<lambda>x. (name_of k i, x)) (find (\<lambda>x. ha_host_id x = h) (hosts_in env k i))" for h
    unfolding H_def host_steps_all [OF ids(1) hosts] using ids(2) by simp
  have mem: "(\<exists>h. H (i, h) = Some (n, x)) \<longleftrightarrow> n = name_of k i \<and> x \<in> set (hosts_in env k i)" for n x
  proof
    assume "\<exists>h. H (i, h) = Some (n, x)"
    then show "n = name_of k i \<and> x \<in> set (hosts_in env k i)" by (auto simp: H find_Some_iff)
  next
    assume x: "n = name_of k i \<and> x \<in> set (hosts_in env k i)"
    then have "find (\<lambda>y. ha_host_id y = ha_host_id x) (hosts_in env k i) \<noteq> None" by (auto simp: find_None_iff simp del: not_None_eq)
    then obtain y where y: "find (\<lambda>y. ha_host_id y = ha_host_id x) (hosts_in env k i) = Some y" by blast
    then have "y \<in> set (hosts_in env k i)" "ha_host_id y = ha_host_id x" by (auto simp: find_Some_iff)
    with x hosts [of i] have "y = x" by (auto simp: distinct_map inj_on_def)
    with x y show "\<exists>h. H (i, h) = Some (n, x)" by (auto simp: H)
  qed
  have "indexed empty_index = entry_at (\<lambda>_. None)" by (simp add: empty_index_def entry_at_def fun_eq_iff)
  from index_run [OF index_ok_empty this, of "k_lower env" ?ops]
  have "index_ok (k_lower env) (k_index k')" "indexed (k_index k') = entry_at H" by (simp_all add: k' H_def)
  then have "set (refs_at (hosts_for_keys (k_index k')) (i, key)) = users_of ix_key_ids (entry_at H) (i, key)"
    "set (refs_at (hosts_for_credentials (k_index k')) (i, cred)) = users_of ix_credential_ids (entry_at H) (i, cred)"
    unfolding index_ok_def inverts_def by metis+
  moreover have "ensure_vault_exists i k' = Inr ()" using assms(4) by (simp add: ensure_vault_exists_def k')
  moreover have sets: "{reference_to i n x |j n x. H (i, j) = Some (n, x) \<and> P x} =
      {reference_to i (name_of k i) x |x. x \<in> set (hosts_in env k i) \<and> P x}" for P
  proof (intro set_eqI iffI)
    fix r assume "r \<in> {reference_to i n x |j n x. H (i, j) = Some (n, x) \<and> P x}"
    then obtain j n x where "r = reference_to i n x" "H (i, j) = Some (n, x)" "P x" by blast
    with mem [of n x] show "r \<in> {reference_to i (name_of k i) x |x. x \<in> set (hosts_in env k i) \<and> P x}" by blast
  next
    fix r assume "r \<in> {reference_to i (name_of k i) x |x. x \<in> set (hosts_in env k i) \<and> P x}"
    then obtain x where x: "r = reference_to i (name_of k i) x" "x \<in> set (hosts_in env k i)" "P x" by blast
    with mem [of "name_of k i" x] obtain j where "H (i, j) = Some (name_of k i, x)" by blast
    with x show "r \<in> {reference_to i n x |j n x. H (i, j) = Some (n, x) \<and> P x}" by blast
  qed
  ultimately show ?thesis
    unfolding users_entry_at sets host_references_for_key_def host_references_for_credential_def
    by (simp only: and_then_r_simps) blast
qed

text \<open>A controller with one unlocked vault, which holds a host that uses a key and a credential.\<close>

definition demo_one :: "(unit, (string \<times> bytes) list) controller" where
  "demo_one = (initial_controller demo_paths (with_defaults ''c'' None) [] 0)
     \<lparr>k_vaults := [(''1'', \<lparr>mv_entry = demo_entry ''1'' ''work'', mv_store = Some (demo_after 4), mv_availability_error = None\<rparr>)]\<rparr>"

lemma demo_auth_summaries: "list_host_auth_summaries demo_env (demo_after 4) = Inr [auth_summary demo_host]"
  by (simp add: list_host_auth_summaries_def demo_run)

lemma demo_unlocked: "st_unlocked (status (demo_after 4))"
  by (simp add: status_def Let_def demo_state_defs)

theorem rebuilt_index_exact_witness:
  "\<exists>k' refs. rebuild_all_auth_reference_indexes ascii_env demo_one = (Inr (), k')
     \<and> host_references_for_key ''1'' ''k1'' k' = Inr refs \<and> hr_host_id ` set refs = {''h1''}"
proof -
  have h: "hosts_in ascii_env demo_one i = (if i = ''1'' then [auth_summary demo_host] else [])" for i
    by (simp add: hosts_in_def demo_one_def demo_unlocked demo_core_env_def demo_auth_summaries)
  have "\<exists>k'. rebuild_all_auth_reference_indexes ascii_env demo_one = (Inr (), k')"
    by (simp add: rebuild_all_auth_reference_indexes_def demo_one_def and_then_def modify_def
        rebuild_vault_auth_reference_index_def drop_index_def Let_def demo_unlocked demo_core_env_def demo_auth_summaries)
  then obtain k' where k': "rebuild_all_auth_reference_indexes ascii_env demo_one = (Inr (), k')" ..
  have ok: "hm_ok (k_vaults demo_one)" "hm_get (k_vaults demo_one) ''1'' \<noteq> None" by (simp_all add: demo_one_def hm_ok_def)
  have "distinct (map ha_host_id (hosts_in ascii_env demo_one i))" for i by (simp add: h)
  from rebuilt_index_exact [OF k' ok(1) this ok(2), of "''k1''" undefined] obtain refs where
    refs: "host_references_for_key ''1'' ''k1'' k' = Inr refs"
    "set refs = {reference_to ''1'' (name_of demo_one ''1'') x |x. x \<in> set (hosts_in ascii_env demo_one ''1'') \<and> (\<exists>p. AuthPrivateKey ''k1'' p \<in> set (ha_auth_order x))}"
    by blast
  have "hr_host_id ` set refs = {''h1''}"
    unfolding refs(2) by (auto simp: h auth_summary_def demo_host_def reference_to_def)
  with k' refs(1) show ?thesis by blast
qed

end
