(* ===== verification/Core_Records.thy ===== *)
theory Core_Records
  imports Core_Theorems "HOL-Library.Sublist"
begin

text \<open>
  The controller's operations on the records of its vaults, \<^verbatim>\<open>seance-core/src/lib.rs\<close>: listing over all
  unlocked vaults, loading, saving and deleting in one of them with the upkeep of the index, and the
  discovery and import of private keys from files. Reading a file is a parameter.
\<close>

section \<open>Summaries with their vault\<close>

record vault_scoped_host_summary =
  sh_vault_id :: string
  sh_vault_name :: string
  sh_host :: host_summary

record vault_scoped_credential_summary =
  vc_vault_id :: string
  vc_vault_name :: string
  vc_credential :: credential_summary

record vault_scoped_key_summary =
  vk_vault_id :: string
  vk_vault_name :: string
  vk_key :: key_summary

record vault_scoped_port_forward_summary =
  vp_vault_id :: string
  vp_vault_name :: string
  vp_host_id :: string
  vp_host_label :: string
  vp_port_forward :: port_forward_summary

text \<open>The loop over the vaults: closed and locked ones are passed over, the first error ends it.\<close>

definition over_unlocked ::
  "('d vault_store \<Rightarrow> vault_error + 'x list) \<Rightarrow> (string \<Rightarrow> string \<Rightarrow> 'd vault_store \<Rightarrow> 'x \<Rightarrow> 'y list) \<Rightarrow>
   ('s, 'd) controller \<Rightarrow> core_error + 'y list" where
  "over_unlocked lister wrap k =
     and_then_r (try_map (\<lambda>(i, st).
       case mv_store st of
         None \<Rightarrow> Inr []
       | Some s \<Rightarrow>
           if \<not> st_unlocked (status s) then Inr []
           else and_then_r (vault_r (lister s)) (\<lambda>xs. Inr (concat (map (wrap i (ve_name (mv_entry st)) s) xs)))) (k_vaults k))
       (\<lambda>xss. Inr (concat xss))"

definition list_hosts :: "'d core_env \<Rightarrow> ('s, 'd) controller \<Rightarrow> core_error + vault_scoped_host_summary list" where
  "list_hosts env k =
     and_then_r (over_unlocked (list_host_profiles (ke_vault env))
       (\<lambda>i n s x. [\<lparr>sh_vault_id = i, sh_vault_name = n, sh_host = x\<rparr>]) k) (\<lambda>hosts.
       Inr (sort_key (\<lambda>x. (k_lower env (hs_label (sh_host x)), k_lower env (sh_vault_name x))) hosts))"

definition list_password_credentials_all ::
  "'d core_env \<Rightarrow> ('s, 'd) controller \<Rightarrow> core_error + vault_scoped_credential_summary list" where
  "list_password_credentials_all env k =
     and_then_r (over_unlocked (list_password_credentials (ke_vault env))
       (\<lambda>i n s x. [\<lparr>vc_vault_id = i, vc_vault_name = n, vc_credential = x\<rparr>]) k) (\<lambda>credentials.
       Inr (sort_key (\<lambda>x. (k_lower env (cs_label (vc_credential x)), k_lower env (vc_vault_name x))) credentials))"

definition list_private_keys_all :: "'d core_env \<Rightarrow> ('s, 'd) controller \<Rightarrow> core_error + vault_scoped_key_summary list" where
  "list_private_keys_all env k =
     and_then_r (over_unlocked (list_private_keys (ke_vault env))
       (\<lambda>i n s x. [\<lparr>vk_vault_id = i, vk_vault_name = n, vk_key = x\<rparr>]) k) (\<lambda>keys.
       Inr (sort_key (\<lambda>x. (k_lower env (ks_label (vk_key x)), k_lower env (vk_vault_name x))) keys))"

text \<open>A port forward whose host does not load is left out.\<close>

definition list_port_forwards_all ::
  "'d core_env \<Rightarrow> ('s, 'd) controller \<Rightarrow> core_error + vault_scoped_port_forward_summary list" where
  "list_port_forwards_all env k =
     and_then_r (over_unlocked (list_port_forwards (ke_vault env))
       (\<lambda>i n s x. case Option.bind (ok_opt (load_host_profile (ke_vault env) (ps_host_id x) s)) id of
            None \<Rightarrow> []
          | Some host \<Rightarrow> [\<lparr>vp_vault_id = i, vp_vault_name = n, vp_host_id = ho_id host, vp_host_label = ho_label host,
                           vp_port_forward = x\<rparr>]) k) (\<lambda>forwards.
       Inr (sort_key (\<lambda>x. (k_lower env (ps_label (vp_port_forward x)), k_lower env (vp_host_label x), k_lower env (vp_vault_name x)))
         forwards))"

section \<open>Loading, saving and deleting\<close>

definition load_host :: "'d core_env \<Rightarrow> string \<Rightarrow> string \<Rightarrow> ('s, 'd) controller \<Rightarrow> core_error + vault_host_profile option" where
  "load_host env i h k = and_then_r (store_of i k) (\<lambda>s. vault_r (load_host_profile (ke_vault env) h s))"

definition load_port_forward_in ::
  "'d core_env \<Rightarrow> string \<Rightarrow> string \<Rightarrow> ('s, 'd) controller \<Rightarrow> core_error + vault_port_forward_profile option" where
  "load_port_forward_in env i p k = and_then_r (store_of i k) (\<lambda>s. vault_r (load_port_forward (ke_vault env) p s))"

definition load_password_credential_in ::
  "'d core_env \<Rightarrow> string \<Rightarrow> string \<Rightarrow> ('s, 'd) controller \<Rightarrow> core_error + vault_password_credential option" where
  "load_password_credential_in env i c k = and_then_r (store_of i k) (\<lambda>s. vault_r (load_password_credential (ke_vault env) c s))"

definition load_public_key :: "'d core_env \<Rightarrow> string \<Rightarrow> string \<Rightarrow> ('s, 'd) controller \<Rightarrow> core_error + string option" where
  "load_public_key env i key k =
     and_then_r (store_of i k) (\<lambda>s.
     and_then_r (vault_r (load_private_key (ke_vault env) key s)) (\<lambda>found. Inr (map_option pk_public_key_openssh found)))"

definition save_host :: "'d core_env \<Rightarrow> string \<Rightarrow> vault_host_profile \<Rightarrow> ('s, 'd, vault_scoped_host_summary) cprog" where
  "save_host env i host =
     and_then (store_mut i (store_host_profile (ke_vault env) host)) (\<lambda>saved.
     and_then (reads (vault_entry i)) (\<lambda>entry.
     and_then (reads (load_host env i (hs_id saved))) (\<lambda>found.
     and_then (case found of
                 None \<Rightarrow> ok ()
               | Some h \<Rightarrow> modify (\<lambda>k. k\<lparr>k_index := upsert_host_auth_reference (k_lower env) i (ve_name entry) h (k_index k)\<rparr>)) (\<lambda>_.
       ok \<lparr>sh_vault_id = i, sh_vault_name = ve_name entry, sh_host = saved\<rparr>))))"

definition delete_host :: "'d core_env \<Rightarrow> string \<Rightarrow> string \<Rightarrow> ('s, 'd, bool) cprog" where
  "delete_host env i h =
     and_then (store_mut i (delete_host_profile (ke_vault env) h)) (\<lambda>deleted.
     and_then (if deleted then modify (\<lambda>k. k\<lparr>k_index := remove_host_auth_reference i h (k_index k)\<rparr>) else ok ()) (\<lambda>_.
       ok deleted))"

definition save_port_forward ::
  "'d core_env \<Rightarrow> string \<Rightarrow> vault_port_forward_profile \<Rightarrow> ('s, 'd, vault_scoped_port_forward_summary) cprog" where
  "save_port_forward env i forward =
     and_then (store_mut i (store_port_forward (ke_vault env) forward)) (\<lambda>saved.
     and_then (reads (vault_entry i)) (\<lambda>entry.
     and_then (reads (load_host env i (ps_host_id saved))) (\<lambda>found.
     and_then (lift_r (ok_or found (Anyhow ''saved host not found''))) (\<lambda>host.
       ok \<lparr>vp_vault_id = i, vp_vault_name = ve_name entry, vp_host_id = ho_id host, vp_host_label = ho_label host,
           vp_port_forward = saved\<rparr>))))"

definition delete_port_forward_in :: "'d core_env \<Rightarrow> string \<Rightarrow> string \<Rightarrow> ('s, 'd, bool) cprog" where
  "delete_port_forward_in env i p = store_mut i (delete_port_forward (ke_vault env) p)"

definition save_password_credential ::
  "'d core_env \<Rightarrow> string \<Rightarrow> vault_password_credential \<Rightarrow> ('s, 'd, vault_scoped_credential_summary) cprog" where
  "save_password_credential env i credential =
     and_then (store_mut i (store_password_credential (ke_vault env) credential)) (\<lambda>saved.
     and_then (reads (vault_entry i)) (\<lambda>entry.
       ok \<lparr>vc_vault_id = i, vc_vault_name = ve_name entry, vc_credential = saved\<rparr>))"

definition delete_password_credential_in :: "'d core_env \<Rightarrow> string \<Rightarrow> string \<Rightarrow> ('s, 'd, bool) cprog" where
  "delete_password_credential_in env i c = store_mut i (delete_password_credential (ke_vault env) c)"

definition scoped_key :: "string \<Rightarrow> ('d, key_summary) vprog \<Rightarrow> ('s, 'd, vault_scoped_key_summary) cprog" where
  "scoped_key i m =
     and_then (store_mut i m) (\<lambda>saved.
     and_then (reads (vault_entry i)) (\<lambda>entry. ok \<lparr>vk_vault_id = i, vk_vault_name = ve_name entry, vk_key = saved\<rparr>))"

definition generate_private_key_in ::
  "'d core_env \<Rightarrow> string \<Rightarrow> generate_key_request \<Rightarrow> ('s, 'd, vault_scoped_key_summary) cprog" where
  "generate_private_key_in env i request = scoped_key i (generate_private_key (ke_vault env) request)"

definition import_private_key_in ::
  "'d core_env \<Rightarrow> string \<Rightarrow> import_key_request \<Rightarrow> ('s, 'd, vault_scoped_key_summary) cprog" where
  "import_private_key_in env i request = scoped_key i (import_private_key (ke_vault env) request)"

definition delete_private_key_in :: "'d core_env \<Rightarrow> string \<Rightarrow> string \<Rightarrow> ('s, 'd, bool) cprog" where
  "delete_private_key_in env i key = store_mut i (delete_private_key (ke_vault env) key)"

definition build_port_forward_request_in ::
  "'d core_env \<Rightarrow> string \<Rightarrow> string \<Rightarrow> ('s, 'd) controller \<Rightarrow> core_error + ssh_port_forward_request" where
  "build_port_forward_request_in env i p k =
     and_then_r (store_of i k) (\<lambda>s.
     and_then_r (vault_r (load_port_forward (ke_vault env) p s)) (\<lambda>found.
     and_then_r (ok_or found (Anyhow ''saved port forward not found'')) (\<lambda>forward.
       build_port_forward_request (ke_vault env) s i forward)))"

definition build_connect_request_in ::
  "'d core_env \<Rightarrow> string \<Rightarrow> string \<Rightarrow> ('s, 'd) controller \<Rightarrow> core_error + ssh_connect_request" where
  "build_connect_request_in env i h k =
     and_then_r (store_of i k) (\<lambda>s.
     and_then_r (vault_r (load_host_profile (ke_vault env) h s)) (\<lambda>found.
     and_then_r (ok_or found (Anyhow ''saved host not found'')) (\<lambda>host.
       build_connect_request (ke_vault env) s host)))"

section \<open>Private keys from files\<close>

text \<open>Paths by their components, in the order of \<open>Path\<close>.\<close>

definition path_components :: "string \<Rightarrow> string list" where
  "path_components path = filter (\<lambda>c. c \<noteq> [] \<and> c \<noteq> ''.'') (split_on (CHR ''/'') path)"

definition path_order :: "string \<Rightarrow> (nat \<times> string) list" where
  "path_order path =
     (if path \<noteq> [] \<and> hd path = CHR ''/'' then [(1, [])]
      else if hd (split_on (CHR ''/'') path) = ''.'' then [(2, [])] else [])
     @ map (\<lambda>c. (if c = ''..'' then 3 else 4, c)) (path_components path)"

definition file_name :: "string \<Rightarrow> string option" where
  "file_name path =
     (let cs = path_components path in if cs = [] \<or> last cs = ''..'' then None else Some (last cs))"

definition file_stem :: "string \<Rightarrow> string option" where
  "file_stem path =
     map_option (\<lambda>name.
       let parts = split_on (CHR ''.'') name; before = join ''.'' (butlast parts)
       in if length parts = 1 \<or> before = [] then name else before) (file_name path)"

definition key_label_from_path :: "string \<Rightarrow> string" where
  "key_label_from_path path =
     (case file_stem path of
        None \<Rightarrow> ''imported-key''
      | Some label \<Rightarrow> if trim label = [] then ''imported-key'' else label)"

text \<open>\<open>dir\<close>: nothing if there is no such directory, else what reading it gives: paths, and whether they are files.\<close>

definition is_key_file_name :: "(string \<Rightarrow> string) \<Rightarrow> string \<Rightarrow> bool" where
  "is_key_file_name lower name \<longleftrightarrow>
     (let l = lower name in
      \<not> (length l \<ge> 4 \<and> drop (length l - 4) l = ''.pub'')
      \<and> l \<notin> set [''known_hosts'', ''known_hosts.old'', ''config'', ''authorized_keys''])"

definition discover_private_key_paths_in_dir ::
  "(string \<Rightarrow> string) \<Rightarrow> (core_error + (string \<times> bool) list) option \<Rightarrow> core_error + string list" where
  "discover_private_key_paths_in_dir lower dir =
     (case dir of
        None \<Rightarrow> Inr []
      | Some entries \<Rightarrow>
          and_then_r entries (\<lambda>es.
            Inr (sort_key path_order (map fst (filter (\<lambda>(path, is_file). is_file
              \<and> (case file_name path of None \<Rightarrow> False | Some name \<Rightarrow> is_key_file_name lower name)) es)))))"

record discovered_private_key_candidate =
  dk_path :: string
  dk_label :: string
  dk_algorithm :: private_key_algorithm
  dk_encrypted_at_rest :: bool
  dk_duplicate_public_key :: bool

record import_private_key_from_path_request =
  ip_path :: string
  ip_label :: "string option"
  ip_skip_duplicate :: bool

definition known_public_keys :: "'d env \<Rightarrow> 'd vault_store \<Rightarrow> vault_error + string list" where
  "known_public_keys env s =
     and_then_r (list_private_keys env s) (\<lambda>ks.
       Inr (map pk_public_key_openssh
         (List.map_filter (\<lambda>x. Option.bind (ok_opt (load_private_key env (ks_id x) s)) id) ks)))"

definition candidate_from ::
  "'d env \<Rightarrow> (string \<Rightarrow> string + string) \<Rightarrow> string list \<Rightarrow> string \<Rightarrow> discovered_private_key_candidate option" where
  "candidate_from env read known path =
     Option.bind (ok_opt (read path)) (\<lambda>pem.
     Option.bind (ok_opt (inspect_private_key_pem env pem)) (\<lambda>inspection.
       Some \<lparr>dk_path = path, dk_label = key_label_from_path path, dk_algorithm = pi_algorithm inspection,
             dk_encrypted_at_rest = pi_encrypted_at_rest inspection,
             dk_duplicate_public_key = (pi_public_key_openssh inspection \<in> set known)\<rparr>))"

definition discover_private_key_candidates_from_paths ::
  "'d core_env \<Rightarrow> (string \<Rightarrow> string + string) \<Rightarrow> string \<Rightarrow> string list \<Rightarrow> ('s, 'd) controller \<Rightarrow>
   core_error + discovered_private_key_candidate list" where
  "discover_private_key_candidates_from_paths env read i discovered k =
     and_then_r (store_of i k) (\<lambda>s.
     and_then_r (vault_r (known_public_keys (ke_vault env) s)) (\<lambda>known.
       Inr (sort_key (\<lambda>c. path_order (dk_path c)) (List.map_filter (candidate_from (ke_vault env) read known) discovered))))"

type_synonym ('d, 'a) sprog = "('d vault_store, core_error, 'a) prog"

definition as_core :: "('d, 'a) vprog \<Rightarrow> ('d, 'a) sprog" where
  "as_core m s = (let (r, t) = m s in (vault_r r, t))"

fun import_loop ::
  "'d env \<Rightarrow> (string \<Rightarrow> string + string) \<Rightarrow> string list \<Rightarrow> import_private_key_from_path_request list \<Rightarrow>
   ('d, key_summary list) sprog" where
  "import_loop env read known [] = ok []"
| "import_loop env read known (q # qs) =
     and_then (lift_r (map_err (\<lambda>e. Ctx (''failed reading private key from path '' @ [CHR 39] @ ip_path q @ [CHR 39]) (FromIo e))
                 (read (ip_path q)))) (\<lambda>pem.
     and_then (lift_r (vault_r (inspect_private_key_pem env pem))) (\<lambda>inspection.
       if pi_public_key_openssh inspection \<in> set known \<and> ip_skip_duplicate q then import_loop env read known qs
       else and_then (as_core (import_private_key env
                \<lparr>ik_label = (case ip_label q of Some l \<Rightarrow> l | None \<Rightarrow> key_label_from_path (ip_path q)),
                 ik_private_key_pem = pem\<rparr>)) (\<lambda>saved.
            and_then (import_loop env read (pi_public_key_openssh inspection # known) qs) (\<lambda>rest.
              ok (saved # rest)))))"

definition import_private_keys_from_paths ::
  "'d core_env \<Rightarrow> (string \<Rightarrow> string + string) \<Rightarrow> string \<Rightarrow> import_private_key_from_path_request list \<Rightarrow>
   ('s, 'd, vault_scoped_key_summary list) cprog" where
  "import_private_keys_from_paths env read i requests =
     and_then (reads (vault_entry i)) (\<lambda>entry.
     and_then (\<lambda>k.
       case hm_get (k_vaults k) i of
         None \<Rightarrow> (Inl (Anyhow ''vault is not open''), k)
       | Some st \<Rightarrow>
           (case mv_store st of
              None \<Rightarrow> (Inl (Anyhow ''vault is not open''), k)
            | Some s \<Rightarrow>
                (let (r, t) = and_then (lift_r (vault_r (known_public_keys (ke_vault env) s))) (\<lambda>known.
                                import_loop (ke_vault env) read known requests) s
                 in (r, set_state i (st\<lparr>mv_store := Some t\<rparr>) k)))) (\<lambda>imported.
       ok (map (\<lambda>x. \<lparr>vk_vault_id = i, vk_vault_name = ve_name entry, vk_key = x\<rparr>) imported)))"

section \<open>Properties\<close>

lemma over_unlocked_Inr:
  assumes "over_unlocked lister wrap k = Inr ys" and "hm_ok (k_vaults k)"
  shows "set ys = {y. \<exists>i st s xs x. hm_get (k_vaults k) i = Some st \<and> mv_store st = Some s \<and> st_unlocked (status s)
     \<and> lister s = Inr xs \<and> x \<in> set xs \<and> y \<in> set (wrap i (ve_name (mv_entry st)) s x)}"
proof -
  let ?one = "\<lambda>(i, st). case mv_store st of None \<Rightarrow> Inr [] | Some s \<Rightarrow> if \<not> st_unlocked (status s) then Inr []
      else and_then_r (vault_r (lister s)) (\<lambda>xs. Inr (concat (map (wrap i (ve_name (mv_entry st)) s) xs)))"
  obtain yss where yss: "list_all2 (\<lambda>e ys. ?one e = Inr ys) (k_vaults k) yss" "ys = concat yss"
    using assms(1) by (auto simp: over_unlocked_def and_then_r_Inr try_map_Inr_iff)
  have "set (concat yss) = {y. \<exists>e\<in>set es. \<exists>ys. ?one e = Inr ys \<and> y \<in> set ys}"
    if "list_all2 (\<lambda>e ys. ?one e = Inr ys) es yss" for es yss
    using that by (induction rule: list_all2_induct) auto
  from this [OF yss(1)] yss(2) have ys: "set ys = {y. \<exists>e\<in>set (k_vaults k). \<exists>ys. ?one e = Inr ys \<and> y \<in> set ys}" by simp
  have one: "(\<exists>ys. ?one (i, st) = Inr ys \<and> y \<in> set ys) \<longleftrightarrow> (\<exists>s xs x. mv_store st = Some s \<and> st_unlocked (status s)
     \<and> lister s = Inr xs \<and> x \<in> set xs \<and> y \<in> set (wrap i (ve_name (mv_entry st)) s x))" for i st y
  proof (cases "mv_store st")
    case (Some s)
    then show ?thesis by (cases "lister s") auto
  qed simp
  show ?thesis unfolding ys using one by (auto simp: hm_get_mem [OF assms(2)]; blast)
qed

text \<open>
  The list of hosts shows exactly the hosts of the unlocked vaults, each with the identifier and the
  name of its vault, ordered by label and vault name; locked and closed vaults contribute nothing.
\<close>

theorem list_hosts_exact:
  assumes "list_hosts env k = Inr xs" and "hm_ok (k_vaults k)"
  shows "set xs = {\<lparr>sh_vault_id = i, sh_vault_name = ve_name (mv_entry st), sh_host = x\<rparr> | i st s hosts x.
       hm_get (k_vaults k) i = Some st \<and> mv_store st = Some s \<and> st_unlocked (status s)
       \<and> list_host_profiles (ke_vault env) s = Inr hosts \<and> x \<in> set hosts}
     \<and> sorted (map (\<lambda>x. (k_lower env (hs_label (sh_host x)), k_lower env (sh_vault_name x))) xs)"
proof -
  from assms(1) obtain ys where ys: "over_unlocked (list_host_profiles (ke_vault env))
       (\<lambda>i n s x. [\<lparr>sh_vault_id = i, sh_vault_name = n, sh_host = x\<rparr>]) k = Inr ys"
    and xs: "xs = sort_key (\<lambda>x. (k_lower env (hs_label (sh_host x)), k_lower env (sh_vault_name x))) ys"
    by (auto simp: list_hosts_def and_then_r_Inr)
  have "set xs = set ys" by (simp add: xs)
  with over_unlocked_Inr [OF ys assms(2)] show ?thesis by (simp only: xs sorted_sort_key simp_thms set_simps singleton_iff) blast
qed

theorem list_hosts_exact_witness:
  "\<exists>xs. list_hosts ascii_env demo_one = Inr xs \<and> \<lparr>sh_vault_id = ''1'', sh_vault_name = ''work'', sh_host = host_summary_of demo_host 121\<rparr> \<in> set xs"
proof -
  have l: "list_host_profiles demo_env (demo_after 4) = Inr [host_summary_of demo_host 121]"
    by (simp add: list_host_profiles_def demo_run)
  have ok: "hm_ok (k_vaults demo_one)" by (simp add: demo_one_def hm_ok_def)
  obtain xs where xs: "list_hosts ascii_env demo_one = Inr xs"
    by (simp add: list_hosts_def over_unlocked_def demo_one_def demo_unlocked demo_core_env_def l)
  have "hm_get (k_vaults demo_one) ''1'' = Some \<lparr>mv_entry = demo_entry ''1'' ''work'', mv_store = Some (demo_after 4), mv_availability_error = None\<rparr>"
    by (simp add: demo_one_def)
  moreover have "ke_vault ascii_env = demo_env" "ve_name (demo_entry ''1'' ''work'') = ''work''" by (simp_all add: demo_core_env_def demo_entry_def)
  ultimately show ?thesis using list_hosts_exact [OF xs ok] xs l demo_unlocked
    by (intro exI [of _ xs] conjI xs) (auto intro!: exI [of _ "''1''"])
qed

section \<open>Imported keys\<close>

text \<open>Draws only move on.\<close>

lemma keeps_tick [keeps_rules]:
  "keeps (\<lambda>s. n \<le> s_tick s) (draw f)" "keeps (\<lambda>s. n \<le> s_tick s) (on_db m)"
  "keeps (\<lambda>s. n \<le> s_tick s) (modify (\<lambda>s. s\<lparr>s_header := h s\<rparr>))"
  by (auto simp: keeps_def on_db_simp modify_def)

lemma keeps_tick_encrypt [keeps_rules]: "keeps (\<lambda>s. n \<le> s_tick s) (encrypt_m env k p a)"
  unfolding encrypt_m_def by (intro keeps_rules)

lemma keeps_tick_store: "keeps (\<lambda>s. n \<le> s_tick s) (store_record env T x kind)"
  unfolding store_record_def next_version_def seal_and_write_def Let_def by (intro keeps_rules)

text \<open>The public key of the file a request names, and the label of its key.\<close>

definition public_key_at :: "'d env \<Rightarrow> (string \<Rightarrow> string + string) \<Rightarrow> import_private_key_from_path_request \<Rightarrow> string option" where
  "public_key_at env read q =
     Option.bind (ok_opt (read (ip_path q))) (\<lambda>pem.
       map_option pi_public_key_openssh (ok_opt (inspect_private_key_pem env pem)))"

definition request_label :: "import_private_key_from_path_request \<Rightarrow> string" where
  "request_label q = (case ip_label q of Some l \<Rightarrow> l | None \<Rightarrow> key_label_from_path (ip_path q))"

text \<open>A vault holds the key of a request: its contents are those of the file, under the label of the request, and
  the summary tells of it.\<close>

definition key_held ::
  "'d env \<Rightarrow> (string \<Rightarrow> string + string) \<Rightarrow> 'd vault_store \<Rightarrow> import_private_key_from_path_request \<Rightarrow> key_summary \<Rightarrow> bool" where
  "key_held env read t q x \<longleftrightarrow>
     (\<exists>key m. load_private_key env (ks_id x) t = Inr (Some key) \<and> read (ip_path q) = Inr (pk_private_key_pem key)
        \<and> pk_label key = request_label q \<and> public_key_at env read q = Some (pk_public_key_openssh key)
        \<and> pk_source key = Imported \<and> x = key_summary_of key m)"

lemma import_stores:
  assumes "import_private_key env \<lparr>ik_label = request_label q, ik_private_key_pem = pem\<rparr> s = (Inr x, t)"
    and "ready env (key_codec env) s" and "read (ip_path q) = Inr pem"
  shows "key_held env read t q x" and "ks_id x = uuid_at env (s_tick s)" and "Suc (s_tick s) \<le> s_tick t"
    and "ready env (key_codec env) t" and "j \<noteq> ks_id x \<Longrightarrow> load_private_key env j t = load_private_key env j s"
proof -
  from assms(1) obtain k algorithm pub where k: "from_openssh env pem = Inr k" "private_key_algorithm_of k = Inr algorithm"
      "sk_public_openssh k = Inr pub"
    and st: "store_private_key env \<lparr>pk_id = [], pk_label = request_label q, pk_algorithm = algorithm, pk_public_key_openssh = pub,
        pk_private_key_pem = pem, pk_encrypted_at_rest = sk_is_encrypted k, pk_source = Imported\<rparr> s = (Inr x, t)" (is "store_private_key env ?k s = _")
    by (auto simp: import_private_key_def and_then_eq_Inr ssh_result_def split: sum.splits)
  let ?i = "uuid_at env (s_tick s)"
  have ready: "ready env (rt_codec (key_type env)) s" using assms(2) by (simp add: key_type_def)
  have run: "store_payload env (key_type env) KPrivateKey key_summary_of ?k s = (Inr x, t)"
    using st stores_via_ops(3) [of env] by (auto simp: stores_via_def)
  from store_payload_Inr [OF run ready lens_types(3)] obtain m where x: "x = key_summary_of (?k\<lparr>pk_id := ?i\<rparr>) m"
    by (auto simp: key_type_def id_for_def)
  then show id: "ks_id x = ?i" by (simp add: key_summary_of_def)
  from keys.store_same [OF assms(2) st] have "load_private_key env ?i t = Inr (Some (?k\<lparr>pk_id := ?i\<rparr>))" by (simp add: id_for_def)
  moreover have "public_key_at env read q = Some pub" by (simp add: public_key_at_def assms(3) inspect_private_key_pem_def k ssh_result_def)
  ultimately show "key_held env read t q x" unfolding key_held_def id using x assms(3) by (intro exI [of _ "?k\<lparr>pk_id := ?i\<rparr>"]) auto
  show "j \<noteq> ks_id x \<Longrightarrow> load_private_key env j t = load_private_key env j s"
    using keys.store_other [OF assms(2) st, of j] by (simp add: id_for_def id)
  show "ready env (key_codec env) t" by (rule keeps_eq [OF keys.good_store assms(2) st])
  from run obtain w where "store_record env (key_type env) (?k\<lparr>pk_id := ?i\<rparr>) KPrivateKey (s\<lparr>s_tick := Suc (s_tick s)\<rparr>) = (Inr w, t)"
    by (auto simp: store_payload_def and_then_eq_Inr key_type_def)
  from keeps_eq [OF keeps_tick_store _ this] show "Suc (s_tick s) \<le> s_tick t" by simp
qed

lemma import_loop_selects:
  assumes "import_loop env read known qs s = (Inr xs, t)" and "\<forall>q\<in>set qs. ip_skip_duplicate q" and "ready env (key_codec env) s"
  shows "\<exists>sel. subseq sel qs \<and> list_all2 (key_held env read t) sel xs \<and> distinct (map (public_key_at env read) sel)
     \<and> set (map (public_key_at env read) sel) = set (map (public_key_at env read) qs) - Some ` set known
     \<and> set (map ks_id xs) \<subseteq> uuid_at env ` {s_tick s..} \<and> distinct (map ks_id xs)
     \<and> (\<forall>j. j \<notin> set (map ks_id xs) \<longrightarrow> load_private_key env j t = load_private_key env j s)"
  using assms
proof (induction qs arbitrary: known s xs)
  case (Cons q qs)
  from Cons.prems(1) obtain pem ins where pem: "read (ip_path q) = Inr pem" and ins: "inspect_private_key_pem env pem = Inr ins"
    by (auto simp: and_then_eq_Inr map_err_def vault_r_def split: sum.splits)
  let ?p = "pi_public_key_openssh ins" and ?at = "public_key_at env read"
  have p: "?at q = Some ?p" by (simp add: public_key_at_def pem ins)
  show ?case
  proof (cases "?p \<in> set known")
    case True
    with Cons.prems pem ins have "import_loop env read known qs s = (Inr xs, t)" by (auto simp: map_err_def vault_r_def and_then_def)
    from Cons.IH [OF this _ Cons.prems(3)] Cons.prems(2) obtain sel where "subseq sel qs" "list_all2 (key_held env read t) sel xs"
      "distinct (map ?at sel)" "set (map ?at sel) = set (map ?at qs) - Some ` set known"
      "set (map ks_id xs) \<subseteq> uuid_at env ` {s_tick s..}" "distinct (map ks_id xs)"
      "\<forall>j. j \<notin> set (map ks_id xs) \<longrightarrow> load_private_key env j t = load_private_key env j s" by auto
    with True p show ?thesis by (intro exI [of _ sel]) auto
  next
    case False
    with Cons.prems(1) pem ins obtain x ys s' where x: "import_private_key env \<lparr>ik_label = request_label q, ik_private_key_pem = pem\<rparr> s = (Inr x, s')"
      and ys: "import_loop env read (?p # known) qs s' = (Inr ys, t)" "xs = x # ys"
      by (auto simp: and_then_eq_Inr map_err_def vault_r_def as_core_def request_label_def split: prod.splits sum.splits)
    note i = import_stores [where read = read, OF x Cons.prems(3) pem]
    from Cons.IH [OF ys(1) _ i(4)] Cons.prems(2) obtain sel where sel: "subseq sel qs" "list_all2 (key_held env read t) sel ys"
      "distinct (map ?at sel)" "set (map ?at sel) = set (map ?at qs) - Some ` set (?p # known)"
      "set (map ks_id ys) \<subseteq> uuid_at env ` {s_tick s'..}" "distinct (map ks_id ys)"
      "\<forall>j. j \<notin> set (map ks_id ys) \<longrightarrow> load_private_key env j t = load_private_key env j s'" by auto
    have inj: "inj (uuid_at env)" using Cons.prems(3) by (simp add: ready_def uuids_fresh_def)
    have "uuid_at env (s_tick s) \<notin> uuid_at env ` {s_tick s'..}" using i(3) by (auto dest: injD [OF inj])
    with sel(5) have new: "ks_id x \<notin> set (map ks_id ys)" unfolding i(2) by blast
    with i(1) sel(7) have "key_held env read t q x" by (simp add: key_held_def)
    moreover have "uuid_at env ` {s_tick s'..} \<subseteq> uuid_at env ` {s_tick s..}" using i(3) by (intro image_mono) auto
    with sel(5) have "set (map ks_id ys) \<subseteq> uuid_at env ` {s_tick s..}" by (rule order_trans)
    moreover have "ks_id x \<in> uuid_at env ` {s_tick s..}" unfolding i(2) by (rule imageI) simp
    ultimately have held: "key_held env read t q x" and ids: "set (map ks_id xs) \<subseteq> uuid_at env ` {s_tick s..}"
      by (simp_all only: ys(2) list.map list.set insert_subset simp_thms)
    have "\<forall>j. j \<notin> set (map ks_id xs) \<longrightarrow> load_private_key env j t = load_private_key env j s"
      using sel(7) i(5) ys(2) by simp
    with ids held sel(1-4,6) False p new show ?thesis by (intro exI [of _ "q # sel"]) (auto simp: ys(2))
  qed
qed simp


text \<open>Two files with the same key are imported into a vault that holds a credential only.\<close>

definition imported_key :: vault_private_key where
  "imported_key = \<lparr>pk_id = replicate 16 CHR ''u'', pk_label = ''id'', pk_algorithm = Ed25519, pk_public_key_openssh = ''pub'',
     pk_private_key_pem = ''pem'', pk_encrypted_at_rest = False, pk_source = Imported\<rparr>"

definition import_env :: "(string \<times> bytes) list env" where
  "import_env = demo_env\<lparr>key_codec := table_codec [(imported_key, [4])]\<rparr>"

lemma import_env_sel [simp]:
  "aead_encrypt import_env = aead_encrypt demo_env" "aead_decrypt import_env = aead_decrypt demo_env"
  "uuid_at import_env = uuid_at demo_env" "now_at import_env = now_at demo_env" "key_at import_env = key_at demo_env"
  "nonce_at import_env = nonce_at demo_env" "from_openssh import_env = from_openssh demo_env"
  "key_codec import_env = table_codec [(imported_key, [4])]"
  by (simp_all add: import_env_def)

lemma import_ready: "ready import_env (key_codec import_env) (demo_after 1)"
  using demo_aead demo_sized demo_uuids demo_after_inv(1)
  by (simp add: ready_def aead_correct_def draws_sized_def uuids_fresh_def json_correct_table import_env_def del: demo_env_sel)


end
