(* ===== verification/Rust_Unicode.thy ===== *)
theory Rust_Unicode
  imports Prelude "HOL-Library.Monad_Syntax"
begin

text \<open>
  Rust strings as sequences of Unicode code points, for the code that counts, cuts and pops
  characters: lengths and indices are those of the UTF-8 encoding, and cutting a string at an index
  that is no character boundary, which panics in Rust, is the value \<open>None\<close>.
\<close>

section \<open>Text as code points\<close>

type_synonym utext = "nat list"

definition len_utf8 :: "nat \<Rightarrow> nat" where
  "len_utf8 c = (if c < 0x80 then 1 else if c < 0x800 then 2 else if c < 0x10000 then 3 else 4)"

definition byte_len :: "utext \<Rightarrow> nat" where
  "byte_len t = sum_list (map len_utf8 t)"

text \<open>The slice up to a byte index; None where Rust panics.\<close>

fun slice_to :: "utext \<Rightarrow> nat \<Rightarrow> utext option" where
  "slice_to t 0 = Some []"
| "slice_to [] (Suc n) = None"
| "slice_to (c # t) (Suc n) =
     (if len_utf8 c \<le> Suc n then map_option ((#) c) (slice_to t (Suc n - len_utf8 c)) else None)"

definition is_whitespace :: "nat \<Rightarrow> bool" where
  "is_whitespace c \<longleftrightarrow> (9 \<le> c \<and> c \<le> 13) \<or> (0x2000 \<le> c \<and> c \<le> 0x200A)
     \<or> c \<in> {0x20, 0x85, 0xA0, 0x1680, 0x2028, 0x2029, 0x202F, 0x205F, 0x3000}"

definition trim_end_text :: "utext \<Rightarrow> utext" where
  "trim_end_text t = rev (dropWhile is_whitespace (rev t))"

text \<open>\<open>String::pop\<close>, which does nothing on an empty string.\<close>

abbreviation pop_char :: "utext \<Rightarrow> utext" where
  "pop_char \<equiv> butlast"

text \<open>The slice between two byte indices, and its replacement.\<close>

definition slice_range :: "utext \<Rightarrow> nat \<Rightarrow> nat \<Rightarrow> utext option" where
  "slice_range t a b =
     do { p \<leftarrow> slice_to t a; q \<leftarrow> slice_to t b; if a \<le> b then Some (drop (length p) q) else None }"

definition replace_range :: "utext \<Rightarrow> nat \<Rightarrow> nat \<Rightarrow> utext \<Rightarrow> utext option" where
  "replace_range t a b r =
     do { p \<leftarrow> slice_to t a; q \<leftarrow> slice_to t b; if a \<le> b then Some (p @ r @ drop (length q) t) else None }"

text \<open>The characters with their byte indices.\<close>

fun char_indices :: "nat \<Rightarrow> utext \<Rightarrow> (nat \<times> nat) list" where
  "char_indices i [] = []"
| "char_indices i (c # t) = (i, c) # char_indices (i + len_utf8 c) t"

section \<open>Facts on boundaries\<close>

text \<open>The longest prefix that fits into a number of bytes.\<close>

fun take_bytes :: "nat \<Rightarrow> utext \<Rightarrow> utext" where
  "take_bytes n [] = []"
| "take_bytes n (c # t) = (if len_utf8 c \<le> n then c # take_bytes (n - len_utf8 c) t else [])"

lemma len_utf8_pos [simp]: "0 < len_utf8 c" "Suc 0 \<le> len_utf8 c"
  by (simp_all add: len_utf8_def)

lemma byte_len_simps [simp]:
  "byte_len [] = 0" "byte_len (c # t) = len_utf8 c + byte_len t" "byte_len (s @ t) = byte_len s + byte_len t"
  by (simp_all add: byte_len_def)

lemma byte_len_0 [simp]: "byte_len t = 0 \<longleftrightarrow> t = []"
  by (cases t) simp_all

lemma take_bytes_le: "byte_len (take_bytes n t) \<le> n"
  by (induction n t rule: take_bytes.induct) auto

lemma take_bytes_all: "byte_len t \<le> n \<Longrightarrow> take_bytes n t = t"
  by (induction n t rule: take_bytes.induct) auto

lemma take_bytes_0 [simp]: "take_bytes 0 t = []"
  by (cases t) auto

lemma slice_cons: "slice_to (c # t) (len_utf8 c + k) = map_option ((#) c) (slice_to t k)"
proof -
  obtain n where "len_utf8 c = Suc n" using gr0_implies_Suc [OF len_utf8_pos(1)] by blast
  then show ?thesis by simp
qed

lemma slice_take: "slice_to t (byte_len (take_bytes n t)) = Some (take_bytes n t)"
  by (induction n t rule: take_bytes.induct) (auto simp: slice_cons)

lemma slice_prefix: "slice_to t (byte_len (take i t)) = Some (take i t)"
proof (induction t arbitrary: i)
  case (Cons c t)
  then show ?case by (cases i) (simp_all add: slice_cons)
qed simp

lemma byte_len_take_mono: "i \<le> j \<Longrightarrow> byte_len (take i t) \<le> byte_len (take j t)"
  by (metis byte_len_simps(3) le_add1 le_iff_add take_add)

lemma slice_range_chars:
  "i \<le> j \<Longrightarrow> slice_range t (byte_len (take i t)) (byte_len (take j t)) = Some (drop i (take j t))"
  by (auto simp: slice_range_def slice_prefix byte_len_take_mono min_def)

lemma replace_range_chars:
  "i \<le> j \<Longrightarrow> replace_range t (byte_len (take i t)) (byte_len (take j t)) r = Some (take i t @ r @ drop j t)"
  by (auto simp: replace_range_def slice_prefix byte_len_take_mono min_def)

lemma char_indices_drop:
  "i < length t \<Longrightarrow> \<exists>c rest. drop i (char_indices k t) = (k + byte_len (take i t), c) # rest"
proof (induction t arbitrary: i k)
  case (Cons c t)
  show ?case
  proof (cases i)
    case (Suc n)
    with Cons.IH [of n "k + len_utf8 c"] Cons.prems show ?thesis by (simp add: add.assoc)
  qed simp
qed simp

lemma length_char_indices [simp]: "length (char_indices k t) = length t"
  by (induction t arbitrary: k) simp_all

end
