(* ===== verification/Core_Transcripts.thy ===== *)
theory Core_Transcripts
  imports Config Core_Sessions Rust_Unicode Machines
begin

text \<open>
  Session transcripts (seance-core, session\_logs.rs; seance-terminal, history.rs): the sink a
  terminal records its events into, its bounded channel, and the thread that appends the events to a
  file up to a limit. The JSON encoding of an event and of the truncation marker (serde\_json, base64)
  are parameters. The specification is a bounded log: which events were accepted, which were taken by
  the writer, and the file as a function of those.
\<close>

section \<open>Data\<close>

datatype transcript_stream = StreamInput | StreamOutput

text \<open>A time is in nanoseconds from the Unix epoch.\<close>

record transcript_event =
  te_timestamp :: int
  te_stream :: transcript_stream
  te_bytes :: bytes

definition system_time_seconds :: "int \<Rightarrow> u64" where
  "system_time_seconds t = word_of_int ((if t < 0 then 0 else t) div 1000000000)"

definition transcript_channel_capacity :: nat where
  "transcript_channel_capacity = 512"

text \<open>The encoders: an event by its second, stream and bytes; the marker by its second.\<close>

record transcript_encoder =
  en_event :: "u64 \<Rightarrow> transcript_stream \<Rightarrow> bytes \<Rightarrow> bytes"
  en_marker :: "u64 \<Rightarrow> bytes"

text \<open>The file sink with its channel, counter and writer. The writer stops on an I/O error.\<close>

record file_transcript_sink =
  ft_queue :: "transcript_event list"
  ft_dropped :: u64
  ft_running :: bool
  ft_truncated :: bool
  ft_bytes_written :: u64
  ft_file :: bytes

datatype transcript_sink = NoopTranscriptSink | FileTranscriptSink file_transcript_sink

section \<open>Creating a sink\<close>

definition is_ascii_alphanumeric :: "nat \<Rightarrow> bool" where
  "is_ascii_alphanumeric c \<longleftrightarrow> (48 \<le> c \<and> c \<le> 57) \<or> (65 \<le> c \<and> c \<le> 90) \<or> (97 \<le> c \<and> c \<le> 122)"

definition trim_matches :: "nat \<Rightarrow> utext \<Rightarrow> utext" where
  "trim_matches c t = rev (dropWhile ((=) c) (rev (dropWhile ((=) c) t)))"

text \<open>45 is the hyphen, 95 the underscore.\<close>

definition sanitize_path_component :: "utext \<Rightarrow> utext" where
  "sanitize_path_component value =
     (let sanitized = map (\<lambda>ch. if is_ascii_alphanumeric ch \<or> ch = 45 \<or> ch = 95 then ch else 45) value;
          trimmed = trim_matches 45 sanitized in
      if trimmed = [] then map of_char ''session'' else trimmed)"

definition new_file_transcript_sink :: file_transcript_sink where
  "new_file_transcript_sink =
     \<lparr>ft_queue = [], ft_dropped = 0, ft_running = True, ft_truncated = False, ft_bytes_written = 0, ft_file = []\<rparr>"

text \<open>\<open>io\<close> is whether the directory, the metadata and the writer thread could be created.\<close>

definition sink_for_session :: "app_config \<Rightarrow> bool \<Rightarrow> transcript_sink" where
  "sink_for_session config io =
     (if \<not> lc_session_transcript_enabled (cfg_logging config) then NoopTranscriptSink
      else if io then FileTranscriptSink new_file_transcript_sink else NoopTranscriptSink)"

section \<open>Recording and writing\<close>

definition record_event :: "transcript_event \<Rightarrow> file_transcript_sink \<Rightarrow> file_transcript_sink" where
  "record_event event s =
     (if ft_running s \<and> length (ft_queue s) < transcript_channel_capacity
      then s\<lparr>ft_queue := ft_queue s @ [event]\<rparr>
      else s\<lparr>ft_dropped := ft_dropped s + 1\<rparr>)"

definition saturating_add_u64 :: "u64 \<Rightarrow> u64 \<Rightarrow> u64" where
  "saturating_add_u64 a b = (if unat a + unat b < 2 ^ 64 then a + b else - 1)"

text \<open>\<open>write_all\<close>: all bytes, or (after \<open>Some n\<close>) at most \<open>n\<close> of them and an error, which ends the
  writer and closes the channel.\<close>

definition write_bytes :: "nat option \<Rightarrow> bytes \<Rightarrow> file_transcript_sink \<Rightarrow> file_transcript_sink" where
  "write_bytes io bs s =
     (case io of
        None \<Rightarrow> s\<lparr>ft_file := ft_file s @ bs\<rparr>
      | Some n \<Rightarrow> s\<lparr>ft_file := ft_file s @ take n bs, ft_running := False, ft_queue := []\<rparr>)"

definition event_line :: "transcript_encoder \<Rightarrow> transcript_event \<Rightarrow> bytes" where
  "event_line en event =
     en_event en (system_time_seconds (te_timestamp event)) (te_stream event) (te_bytes event) @ [10]"

definition marker_line :: "transcript_encoder \<Rightarrow> int \<Rightarrow> bytes" where
  "marker_line en now = en_marker en (system_time_seconds now) @ [10]"

text \<open>One round of the writer's loop: receive an event and write it, at time \<open>now\<close>.\<close>

definition write_next ::
  "transcript_encoder \<Rightarrow> u64 \<Rightarrow> int \<Rightarrow> nat option \<Rightarrow> file_transcript_sink \<Rightarrow> file_transcript_sink" where
  "write_next en max_bytes now io s0 =
     (if \<not> ft_running s0 then s0 else
      case ft_queue s0 of
        [] \<Rightarrow> s0
      | event # queue \<Rightarrow>
          let s = s0\<lparr>ft_queue := queue\<rparr> in
          if ft_truncated s then s
          else
            let encoded = event_line en event;
                next_total = saturating_add_u64 (ft_bytes_written s) (word_of_nat (length encoded)) in
            if next_total > max_bytes
            then write_bytes io (marker_line en now) (s\<lparr>ft_truncated := True, ft_dropped := ft_dropped s + 1\<rparr>)
            else let s' = write_bytes io encoded s in
              if io = None then s'\<lparr>ft_bytes_written := next_total\<rparr> else s')"

datatype transcript_op = RecordEvent transcript_event | WriteNext int "nat option"

fun transcript_step :: "transcript_encoder \<Rightarrow> u64 \<Rightarrow> transcript_op \<Rightarrow> file_transcript_sink \<Rightarrow> file_transcript_sink" where
  "transcript_step en max_bytes (RecordEvent event) s = record_event event s"
| "transcript_step en max_bytes (WriteNext now io) s = write_next en max_bytes now io s"

section \<open>The specification\<close>

text \<open>The events taken by the writer, each with the time it was taken at; the events waiting; and how
  many were refused.\<close>

record transcript_log =
  tl_taken :: "(transcript_event \<times> int) list"
  tl_waiting :: "transcript_event list"
  tl_refused :: nat

definition empty_log :: transcript_log where
  "empty_log = \<lparr>tl_taken = [], tl_waiting = [], tl_refused = 0\<rparr>"

fun log_step :: "transcript_op \<Rightarrow> transcript_log \<Rightarrow> transcript_log" where
  "log_step (RecordEvent event) t =
     (if length (tl_waiting t) < 512 then t\<lparr>tl_waiting := tl_waiting t @ [event]\<rparr>
      else t\<lparr>tl_refused := Suc (tl_refused t)\<rparr>)"
| "log_step (WriteNext now io) t =
     (case tl_waiting t of
        [] \<Rightarrow> t
      | event # q \<Rightarrow> t\<lparr>tl_taken := tl_taken t @ [(event, now)], tl_waiting := q\<rparr>)"

text \<open>The longest prefix whose lines fit into a number of bytes, and the time of the first event that
  does not fit.\<close>

fun fitting :: "transcript_encoder \<Rightarrow> nat \<Rightarrow> (transcript_event \<times> int) list \<Rightarrow> transcript_event list" where
  "fitting en n [] = []"
| "fitting en n ((e, now) # xs) =
     (if length (event_line en e) \<le> n then e # fitting en (n - length (event_line en e)) xs else [])"

fun overflow_at :: "transcript_encoder \<Rightarrow> nat \<Rightarrow> (transcript_event \<times> int) list \<Rightarrow> int option" where
  "overflow_at en n [] = None"
| "overflow_at en n ((e, now) # xs) =
     (if length (event_line en e) \<le> n then overflow_at en (n - length (event_line en e)) xs else Some now)"

definition transcript_file :: "transcript_encoder \<Rightarrow> nat \<Rightarrow> (transcript_event \<times> int) list \<Rightarrow> bytes" where
  "transcript_file en n xs =
     concat (map (event_line en) (fitting en n xs))
     @ (case overflow_at en n xs of None \<Rightarrow> [] | Some now \<Rightarrow> marker_line en now)"

definition log_rel :: "transcript_encoder \<Rightarrow> u64 \<Rightarrow> file_transcript_sink \<Rightarrow> transcript_log \<Rightarrow> bool" where
  "log_rel en max_bytes s t \<longleftrightarrow>
     ft_running s \<and> ft_queue s = tl_waiting t
     \<and> ft_file s = transcript_file en (unat max_bytes) (tl_taken t)
     \<and> (ft_truncated s \<longleftrightarrow> overflow_at en (unat max_bytes) (tl_taken t) \<noteq> None)
     \<and> ft_dropped s = word_of_nat (tl_refused t + (if ft_truncated s then 1 else 0))
     \<and> (\<not> ft_truncated s \<longrightarrow> unat (ft_bytes_written s) = length (ft_file s) \<and> ft_bytes_written s \<le> max_bytes)"

lemma overflow_snoc:
  "overflow_at en n (xs @ [(e, now)]) =
     (if overflow_at en n xs \<noteq> None then overflow_at en n xs
      else if length (concat (map (event_line en) (fitting en n xs))) + length (event_line en e) \<le> n then None else Some now)"
  by (induction en n xs rule: overflow_at.induct) auto

lemma fitting_snoc:
  "fitting en n (xs @ [(e, now)]) =
     (if overflow_at en n xs = None
         \<and> length (concat (map (event_line en) (fitting en n xs))) + length (event_line en e) \<le> n
      then fitting en n xs @ [e] else fitting en n xs)"
  by (induction en n xs rule: overflow_at.induct) auto

lemma fitting_bound: "length (concat (map (event_line en) (fitting en n xs))) \<le> n"
  by (induction en n xs rule: fitting.induct) auto

lemma fitting_all: "overflow_at en n xs = None \<longleftrightarrow> fitting en n xs = map fst xs"
  by (induction en n xs rule: fitting.induct) auto

lemma unat_word_of_nat: "k < 2 ^ 63 \<Longrightarrow> unat (word_of_nat k :: u64) = k"
  by (simp add: unsigned_of_nat take_bit_nat_eq_self)

lemma saturating_gt:
  "saturating_add_u64 a (word_of_nat k) > m \<longleftrightarrow> \<not> unat a + k \<le> unat m" if "k < 2 ^ 63" "m < 2 ^ 63"
proof -
  from that(1) have k: "unat (word_of_nat k :: u64) = k" by (simp add: unat_word_of_nat)
  from that(2) have m: "unat m < 2 ^ 63" by (simp add: word_less_nat_alt)
  show ?thesis
  proof (cases "unat a + k < 2 ^ 64")
    case True
    then have "unat (a + word_of_nat k) = unat a + k" using k by (subst unat_add_lem [THEN iffD1]) simp_all
    with True k show ?thesis by (simp add: saturating_add_u64_def word_less_nat_alt not_le)
  next
    case False
    have "unat (- 1 :: u64) = 2 ^ 64 - 1" by (simp add: unsigned_minus_1_eq_mask mask_eq_exp_minus_1)
    with False k m show ?thesis by (simp add: saturating_add_u64_def word_less_nat_alt not_le)
  qed
qed

text \<open>A buffer is at most \<open>isize::MAX\<close> bytes long, and a validated limit is below 1 GiB.\<close>

definition limits_ok :: "transcript_encoder \<Rightarrow> u64 \<Rightarrow> bool" where
  "limits_ok en max_bytes \<longleftrightarrow> (\<forall>e. length (event_line en e) < 2 ^ 63) \<and> max_bytes < 2 ^ 63"

fun io_ok :: "transcript_op \<Rightarrow> bool" where
  "io_ok (RecordEvent event) = True"
| "io_ok (WriteNext now io) = (io = None)"

lemma write_next_rel:
  assumes "limits_ok en max_bytes" "log_rel en max_bytes s t"
  shows "log_rel en max_bytes (write_next en max_bytes now None s) (log_step (WriteNext now None) t)"
proof (cases "tl_waiting t")
  case Nil
  with assms(2) show ?thesis by (simp add: write_next_def log_rel_def)
next
  case (Cons e q)
  let ?k = "length (event_line en e)" and ?n = "unat max_bytes"
  from assms(1) have k: "?k < 2 ^ 63" and m: "max_bytes < 2 ^ 63" by (simp_all add: limits_ok_def)
  have run: "ft_running s" "ft_queue s = e # q" using assms(2) Cons by (auto simp: log_rel_def)
  show ?thesis
  proof (cases "ft_truncated s")
    case True
    with assms(2) run Cons show ?thesis
      by (auto simp: log_rel_def write_next_def transcript_file_def overflow_snoc fitting_snoc)
  next
    case False
    with assms(2) have none: "overflow_at en ?n (tl_taken t) = None"
      and content: "ft_file s = concat (map (event_line en) (fitting en ?n (tl_taken t)))"
      and bw: "unat (ft_bytes_written s) = length (ft_file s)"
      by (auto simp: log_rel_def transcript_file_def)
    note gt = saturating_gt [OF k m, of "ft_bytes_written s"]
    show ?thesis
    proof (cases "length (ft_file s) + ?k \<le> ?n")
      case fits: True
      with gt bw have le: "\<not> saturating_add_u64 (ft_bytes_written s) (word_of_nat ?k) > max_bytes" by simp
      have "unat (ft_bytes_written s) + ?k < 2 ^ 64" using fits bw m by (simp add: word_less_nat_alt)
      moreover have "unat (word_of_nat ?k :: u64) = ?k" using k by (simp add: unat_word_of_nat)
      ultimately have "unat (saturating_add_u64 (ft_bytes_written s) (word_of_nat ?k)) = length (ft_file s) + ?k"
        using bw by (simp add: saturating_add_u64_def unat_word_ariths)
      with assms(2) run Cons False none content le fits show ?thesis
        by (auto simp: log_rel_def write_next_def write_bytes_def transcript_file_def overflow_snoc fitting_snoc Let_def)
    next
      case over: False
      with gt bw have "saturating_add_u64 (ft_bytes_written s) (word_of_nat ?k) > max_bytes" by simp
      with assms(2) run Cons False none content over show ?thesis
        by (auto simp: log_rel_def write_next_def write_bytes_def transcript_file_def overflow_snoc fitting_snoc Let_def)
    qed
  qed
qed

lemma record_rel:
  "log_rel en max_bytes s t \<Longrightarrow> log_rel en max_bytes (record_event e s) (log_step (RecordEvent e) t)"
  by (auto simp: log_rel_def record_event_def transcript_channel_capacity_def)

interpretation transcript: simulation "transcript_step en max_bytes" log_step io_ok
  "\<lambda>s t. limits_ok en max_bytes \<and> log_rel en max_bytes s t" for en max_bytes
proof (unfold_locales, elim conjE, intro conjI)
  fix s t a
  assume "limits_ok en max_bytes" "log_rel en max_bytes s t" "io_ok a"
  then show "log_rel en max_bytes (transcript_step en max_bytes a s) (log_step a t)"
    by (cases a) (auto simp del: log_step.simps intro: record_rel write_next_rel)
qed

lemma new_sink_rel: "log_rel en max_bytes new_file_transcript_sink empty_log"
  by (simp add: log_rel_def new_file_transcript_sink_def empty_log_def transcript_file_def)

lemma transcript_run:
  assumes "limits_ok en max_bytes" "list_all io_ok ops"
  shows "log_rel en max_bytes (fold (transcript_step en max_bytes) ops new_file_transcript_sink) (fold log_step ops empty_log)"
  using transcript.rel_run [of en max_bytes new_file_transcript_sink empty_log ops] assms new_sink_rel by blast

text \<open>C24. A transcript is the longest prefix of the session that fits. Under a validated configuration,
  after any interleaving of recorded events and rounds of the writer (with a file that accepts writes),
  the file holds exactly the lines of the longest prefix of the events taken, in order, whose total
  length is within the configured limit, followed by one truncation marker if and only if some event
  did not fit; the events waiting are the channel's, of which there are at most 512; and the drop
  counter is the number of events refused, plus one if the transcript was truncated.\<close>

theorem transcript_is_fitting_prefix:
  assumes "validate lower macos config = Inr ()"
    and "\<forall>e. length (event_line en e) < 2 ^ 63"
    and "list_all io_ok ops"
  defines "limit \<equiv> lc_session_transcript_max_bytes_per_session (cfg_logging config)"
  defines "s \<equiv> fold (transcript_step en limit) ops new_file_transcript_sink" and "t \<equiv> fold log_step ops empty_log"
  shows "ft_file s = concat (map (event_line en) (fitting en (unat limit) (tl_taken t)))
       @ (case overflow_at en (unat limit) (tl_taken t) of None \<Rightarrow> [] | Some now \<Rightarrow> marker_line en now)
    \<and> length (concat (map (event_line en) (fitting en (unat limit) (tl_taken t)))) \<le> unat limit
    \<and> (overflow_at en (unat limit) (tl_taken t) = None \<longleftrightarrow> fitting en (unat limit) (tl_taken t) = map fst (tl_taken t))
    \<and> ft_queue s = tl_waiting t
    \<and> ft_dropped s = word_of_nat (tl_refused t + (if overflow_at en (unat limit) (tl_taken t) \<noteq> None then 1 else 0))"
proof -
  from assms(1) have "logging_ok (cfg_logging config)" by (simp add: validate_iff config_ok_def)
  then have "limit \<le> 2 ^ 30" by (simp add: logging_ok_def limit_def)
  then have "limit < 2 ^ 63" by (simp add: word_le_nat_alt word_less_nat_alt)
  with assms(2) have "limits_ok en limit" by (simp add: limits_ok_def)
  from transcript_run [OF this assms(3)] have "log_rel en limit s t" by (simp add: s_def t_def)
  then show ?thesis
    unfolding log_rel_def transcript_file_def fitting_all [symmetric] using fitting_bound by auto
qed

definition demo_encoder :: transcript_encoder where
  "demo_encoder = \<lparr>en_event = (\<lambda>_ _ _. [0, 0]), en_marker = (\<lambda>_. [1])\<rparr>"

definition demo_event :: transcript_event where
  "demo_event = \<lparr>te_timestamp = 5, te_stream = StreamOutput, te_bytes = [7]\<rparr>"

theorem transcript_is_fitting_prefix_witness:
  "ft_file (fold (transcript_step demo_encoder (lc_session_transcript_max_bytes_per_session (cfg_logging demo_config)))
     [RecordEvent demo_event, WriteNext 9 None] new_file_transcript_sink) = [0, 0, 10]"
proof -
  have v: "validate (map to_ascii_lower) False demo_config = Inr ()"
    using demo_config_ok by (simp add: validate_iff)
  have big: "1024 \<le> unat (lc_session_transcript_max_bytes_per_session (cfg_logging demo_config))"
    using demo_config_ok [of "map to_ascii_lower"] by (auto simp: config_ok_def logging_ok_def word_le_nat_alt)
  show ?thesis
    using transcript_is_fitting_prefix [OF v, of demo_encoder "[RecordEvent demo_event, WriteNext 9 None]"] big
    by (simp add: demo_encoder_def event_line_def empty_log_def)
qed

text \<open>After the truncation every further event is lost without being counted: neither the file nor the
  counter changes.\<close>

theorem transcript_undercounts:
  assumes "ft_running s" "ft_truncated s" "ft_queue s = event # queue"
  shows "write_next en max_bytes now io s = s\<lparr>ft_queue := queue\<rparr>"
  using assms by (simp add: write_next_def Let_def)

lemma set_trim_matches: "set (trim_matches c t) \<subseteq> set t"
  by (auto simp: trim_matches_def dest!: set_dropWhileD)

lemma hd_dropWhile_ne: "dropWhile ((=) c) xs \<noteq> [] \<Longrightarrow> hd (dropWhile ((=) c) xs) \<noteq> c"
  using hd_dropWhile [of "(=) c" xs] by auto

lemma trim_matches_ends:
  assumes "trim_matches c t \<noteq> []"
  shows "hd (trim_matches c t) \<noteq> c" "last (trim_matches c t) \<noteq> c"
proof -
  let ?d = "dropWhile ((=) c) t"
  from assms have r: "dropWhile ((=) c) (rev ?d) \<noteq> []" by (simp add: trim_matches_def)
  then show "last (trim_matches c t) \<noteq> c" using hd_dropWhile_ne [OF r] by (simp add: trim_matches_def last_rev)
  have "?d = trim_matches c t @ rev (takeWhile ((=) c) (rev ?d))"
    unfolding trim_matches_def by (metis rev_append rev_rev_ident takeWhile_dropWhile_id)
  with assms have "hd ?d = hd (trim_matches c t)" "?d \<noteq> []" by (metis hd_append2, metis append_is_Nil_conv)
  with hd_dropWhile_ne [of c t] show "hd (trim_matches c t) \<noteq> c" by simp
qed

lemma trim_matches_id: "t \<noteq> [] \<Longrightarrow> hd t \<noteq> c \<Longrightarrow> last t \<noteq> c \<Longrightarrow> trim_matches c t = t"
proof -
  assume a: "t \<noteq> []" "hd t \<noteq> c" "last t \<noteq> c"
  then have "dropWhile ((=) c) t = t" by (cases t) auto
  moreover have "dropWhile ((=) c) (rev t) = rev t" using a by (cases t rule: rev_cases) auto
  ultimately show ?thesis by (simp add: trim_matches_def)
qed

lemma sanitize_id:
  assumes "t \<noteq> []" "list_all (\<lambda>c. is_ascii_alphanumeric c \<or> c = 45 \<or> c = 95) t" "hd t \<noteq> 45" "last t \<noteq> 45"
  shows "sanitize_path_component t = t"
proof -
  have "map (\<lambda>ch. if is_ascii_alphanumeric ch \<or> ch = 45 \<or> ch = 95 then ch else 45) t = t"
    using assms(2) by (auto simp: list_all_iff intro: map_idI)
  then show ?thesis using assms by (simp add: sanitize_path_component_def trim_matches_id)
qed

text \<open>A directory name made from a session's title cannot leave the log directory or hide in it: it
  is never empty, has only ASCII letters, digits, hyphens and underscores, and neither starts nor ends
  with a hyphen; a title that is such a name is kept.\<close>

theorem sanitize_path_component_safe:
  "(let name = sanitize_path_component title in
     name \<noteq> [] \<and> list_all (\<lambda>c. is_ascii_alphanumeric c \<or> c = 45 \<or> c = 95) name \<and> hd name \<noteq> 45 \<and> last name \<noteq> 45
     \<and> sanitize_path_component name = name)"
proof -
  have "list_all (\<lambda>c. is_ascii_alphanumeric c \<or> c = 45 \<or> c = 95) (sanitize_path_component title)"
    using set_trim_matches [of 45] by (fastforce simp: sanitize_path_component_def list_all_iff Let_def is_ascii_alphanumeric_def)
  moreover have "sanitize_path_component title \<noteq> [] \<and> hd (sanitize_path_component title) \<noteq> 45
      \<and> last (sanitize_path_component title) \<noteq> 45"
    by (simp add: sanitize_path_component_def Let_def trim_matches_ends)
  ultimately show ?thesis
    using sanitize_id by (metis (no_types, lifting))
qed

end
