(* ===== verification/Terminal_Turns.thy ===== *)
theory Terminal_Turns
  imports Rust_Unicode Machines
begin

text \<open>
  The turn tracker of the terminal (seance-terminal, turns.rs): it reads the bytes sent to the
  shell and the bytes the shell sends back, and keeps the last commands with their output, in
  bounded memory. Text is the sequence of its Unicode code points here, since the code pops and
  cuts characters; lengths are lengths of the UTF-8 encoding. Cutting a string at an index that is
  no character boundary is a panic in Rust and the value \<open>None\<close> in the model.
\<close>

section \<open>State\<close>

record turn_record =
  tr_turn_id :: u64
  tr_command_text :: utext
  tr_output_text :: utext
  tr_start_row :: u64
  tr_end_row :: u64
  tr_command_truncated :: bool
  tr_output_truncated :: bool

record terminal_turn_snapshot =
  ts_turn_id :: u64
  ts_command_text :: utext
  ts_output_text :: utext
  ts_combined_text :: utext
  ts_start_row :: u64
  ts_end_row :: u64

definition turn_snapshot :: "turn_record \<Rightarrow> terminal_turn_snapshot" where
  "turn_snapshot r =
     \<lparr>ts_turn_id = tr_turn_id r, ts_command_text = tr_command_text r, ts_output_text = tr_output_text r,
      ts_combined_text = (if tr_output_text r = [] then tr_command_text r
                          else tr_command_text r @ [10] @ tr_output_text r),
      ts_start_row = tr_start_row r, ts_end_row = tr_end_row r\<rparr>"

datatype escape_state = Ground | Escape | Csi | Ss3

record turn_tracker =
  tt_completed_turns :: "turn_record list"
  tt_active_turn :: "turn_record option"
  tt_input_line_buffer :: utext
  tt_input_escape_state :: escape_state
  tt_output_escape_state :: escape_state
  tt_latest_cursor_abs_row :: u64
  tt_capture_primary_screen :: bool
  tt_next_turn_id :: u64
  tt_max_turns :: nat
  tt_max_bytes_per_turn :: nat

definition DEFAULT_MAX_TURNS :: nat where
  "DEFAULT_MAX_TURNS = 256"

definition DEFAULT_MAX_BYTES_PER_TURN :: nat where
  "DEFAULT_MAX_BYTES_PER_TURN = 256 * 1024"

definition TRUNCATION_MARKER :: utext where
  "TRUNCATION_MARKER = 10 # map of_char ''...[truncated]''"

definition new_turn_tracker :: "nat \<Rightarrow> nat \<Rightarrow> turn_tracker" where
  "new_turn_tracker max_turns max_bytes_per_turn =
     \<lparr>tt_completed_turns = [], tt_active_turn = None, tt_input_line_buffer = [],
      tt_input_escape_state = Ground, tt_output_escape_state = Ground,
      tt_latest_cursor_abs_row = 0, tt_capture_primary_screen = True, tt_next_turn_id = 1,
      tt_max_turns = max max_turns 1,
      tt_max_bytes_per_turn = max max_bytes_per_turn (byte_len TRUNCATION_MARKER)\<rparr>"

definition default_turn_tracker :: turn_tracker where
  "default_turn_tracker = new_turn_tracker DEFAULT_MAX_TURNS DEFAULT_MAX_BYTES_PER_TURN"

definition saturating_inc :: "u64 \<Rightarrow> u64" where
  "saturating_inc n = (if n = - 1 then n else n + 1)"

section \<open>Bounded text\<close>

text \<open>\<open>char_boundary_loop\<close> is the loop of \<open>floor_char_boundary\<close> over the characters with their
  byte indices.\<close>

fun char_boundary_loop :: "utext \<Rightarrow> nat \<Rightarrow> nat \<Rightarrow> nat \<Rightarrow> nat" where
  "char_boundary_loop [] idx max_len boundary = boundary"
| "char_boundary_loop (c # t) idx max_len boundary =
     (let nxt = idx + len_utf8 c in
      if max_len < nxt then boundary else char_boundary_loop t nxt max_len nxt)"

definition floor_char_boundary :: "utext \<Rightarrow> nat \<Rightarrow> nat" where
  "floor_char_boundary t max_len =
     (if byte_len t \<le> max_len then byte_len t else char_boundary_loop t 0 max_len 0)"

definition append_truncation_marker :: "utext \<Rightarrow> nat \<Rightarrow> utext option" where
  "append_truncation_marker buffer max_bytes =
     (if max_bytes \<le> byte_len buffer then Some buffer
      else let remaining = max_bytes - byte_len buffer in
        if byte_len TRUNCATION_MARKER \<le> remaining then Some (buffer @ TRUNCATION_MARKER)
        else let cutoff = floor_char_boundary TRUNCATION_MARKER remaining in
          if 0 < cutoff then map_option (\<lambda>p. buffer @ p) (slice_to TRUNCATION_MARKER cutoff)
          else Some buffer)"

definition append_bounded_text :: "utext \<Rightarrow> utext \<Rightarrow> nat \<Rightarrow> bool \<Rightarrow> (utext \<times> bool) option" where
  "append_bounded_text buffer incoming max_bytes already_truncated =
     (if incoming = [] \<or> already_truncated then Some (buffer, already_truncated)
      else if max_bytes \<le> byte_len buffer
        then map_option (\<lambda>b. (b, True)) (append_truncation_marker buffer max_bytes)
      else let remaining = max_bytes - byte_len buffer in
        if byte_len incoming \<le> remaining then Some (buffer @ incoming, already_truncated)
        else let marker_reserve = min (byte_len TRUNCATION_MARKER) remaining;
                 cutoff_budget = remaining - marker_reserve;
                 cutoff = floor_char_boundary incoming cutoff_budget in
          do { b \<leftarrow> (if 0 < cutoff then map_option (\<lambda>p. buffer @ p) (slice_to incoming cutoff)
                    else Some buffer);
               b' \<leftarrow> append_truncation_marker b max_bytes;
               Some (b', True) })"

definition append_lossy_byte :: "utext \<Rightarrow> u8 \<Rightarrow> utext" where
  "append_lossy_byte target byte = target @ [if byte < 0x80 then unat byte else 0xFFFD]"

definition csi_sequence_complete :: "u8 \<Rightarrow> bool" where
  "csi_sequence_complete byte \<longleftrightarrow> 0x40 \<le> byte \<and> byte \<le> 0x7e"

section \<open>Operations\<close>

definition set_primary_screen :: "bool \<Rightarrow> turn_tracker \<Rightarrow> turn_tracker" where
  "set_primary_screen primary t = t\<lparr>tt_capture_primary_screen := primary\<rparr>"

definition update_cursor_abs_row :: "u64 \<Rightarrow> turn_tracker \<Rightarrow> turn_tracker" where
  "update_cursor_abs_row row t =
     t\<lparr>tt_latest_cursor_abs_row := row,
       tt_active_turn := map_option (\<lambda>r. r\<lparr>tr_end_row := row\<rparr>) (tt_active_turn t)\<rparr>"

fun enforce_history_limit :: "nat \<Rightarrow> turn_record list \<Rightarrow> turn_record list" where
  "enforce_history_limit max_turns [] = []"
| "enforce_history_limit max_turns (r # rs) =
     (if max_turns < length (r # rs) then enforce_history_limit max_turns rs else r # rs)"

definition finish_turn :: "turn_tracker \<Rightarrow> turn_tracker" where
  "finish_turn t = (case tt_active_turn t of
       None \<Rightarrow> t
     | Some previous \<Rightarrow> t\<lparr>tt_active_turn := None,
         tt_completed_turns := enforce_history_limit (tt_max_turns t) (tt_completed_turns t @ [previous])\<rparr>)"

definition submit_command :: "turn_tracker \<Rightarrow> turn_tracker option" where
  "submit_command t0 =
     (let command = trim_end_text (tt_input_line_buffer t0);
          t1 = t0\<lparr>tt_input_line_buffer := [], tt_input_escape_state := Ground\<rparr> in
      if command = [] then Some t1
      else let t2 = finish_turn t1; turn_id = tt_next_turn_id t2 in
        do { (txt, trunc) \<leftarrow> append_bounded_text [] command (tt_max_bytes_per_turn t2) False;
             Some (t2\<lparr>tt_next_turn_id := saturating_inc turn_id,
               tt_active_turn := Some \<lparr>tr_turn_id = turn_id, tr_command_text = txt, tr_output_text = [],
                 tr_start_row = tt_latest_cursor_abs_row t2, tr_end_row = tt_latest_cursor_abs_row t2,
                 tr_command_truncated = trunc, tr_output_truncated = False\<rparr>\<rparr>) })"

definition process_input_ground_byte :: "u8 \<Rightarrow> turn_tracker \<Rightarrow> turn_tracker option" where
  "process_input_ground_byte byte t =
     (if byte = 0x1b then Some (t\<lparr>tt_input_escape_state := Escape\<rparr>)
      else if byte = 0x0d \<or> byte = 0x0a then submit_command t
      else if byte = 0x08 \<or> byte = 0x7f
        then Some (t\<lparr>tt_input_line_buffer := pop_char (tt_input_line_buffer t)\<rparr>)
      else if byte = 0x15 then Some (t\<lparr>tt_input_line_buffer := []\<rparr>)
      else if 0x20 \<le> byte \<and> byte \<le> 0x7e
        then Some (t\<lparr>tt_input_line_buffer := tt_input_line_buffer t @ [unat byte]\<rparr>)
      else if 0x80 \<le> byte
        then Some (t\<lparr>tt_input_line_buffer := append_lossy_byte (tt_input_line_buffer t) byte\<rparr>)
      else Some t)"

text \<open>The step of both escape machines on a byte outside the ground state.\<close>

fun escape_step :: "escape_state \<Rightarrow> u8 \<Rightarrow> escape_state" where
  "escape_step Escape byte = (if byte = 0x5b then Csi else if byte = 0x4f then Ss3 else Ground)"
| "escape_step Csi byte = (if csi_sequence_complete byte then Ground else Csi)"
| "escape_step Ss3 byte = Ground"
| "escape_step Ground byte = Ground"

definition track_input_byte :: "turn_tracker \<Rightarrow> u8 \<Rightarrow> turn_tracker option" where
  "track_input_byte t byte =
     (if tt_input_escape_state t = Ground then process_input_ground_byte byte t
      else Some (t\<lparr>tt_input_escape_state := escape_step (tt_input_escape_state t) byte\<rparr>))"

fun track_input_loop :: "turn_tracker \<Rightarrow> bytes \<Rightarrow> turn_tracker option" where
  "track_input_loop t [] = Some t"
| "track_input_loop t (byte # bs) = do { t' \<leftarrow> track_input_byte t byte; track_input_loop t' bs }"

definition track_input_bytes :: "bytes \<Rightarrow> turn_tracker \<Rightarrow> turn_tracker option" where
  "track_input_bytes bs t = (if tt_capture_primary_screen t then track_input_loop t bs else Some t)"

definition sanitize_byte :: "u8 \<Rightarrow> utext \<Rightarrow> utext" where
  "sanitize_byte byte sanitized =
     (if byte = 0x0d then sanitized
      else if byte = 0x0a then sanitized @ [10]
      else if byte = 0x08 \<or> byte = 0x7f then pop_char sanitized
      else if 0x20 \<le> byte \<and> byte \<le> 0x7e then sanitized @ [unat byte]
      else if 0x80 \<le> byte then append_lossy_byte sanitized byte
      else sanitized)"

fun sanitize :: "escape_state \<Rightarrow> utext \<Rightarrow> bytes \<Rightarrow> utext \<times> escape_state" where
  "sanitize e sanitized [] = (sanitized, e)"
| "sanitize e sanitized (byte # bs) =
     (if e = Ground then (if byte = 0x1b then sanitize Escape sanitized bs
                          else sanitize Ground (sanitize_byte byte sanitized) bs)
      else sanitize (escape_step e byte) sanitized bs)"

definition track_output_bytes :: "bytes \<Rightarrow> turn_tracker \<Rightarrow> turn_tracker option" where
  "track_output_bytes bs t =
     (if \<not> tt_capture_primary_screen t then Some t
      else case tt_active_turn t of
        None \<Rightarrow> Some t
      | Some r \<Rightarrow>
          let (sanitized, e) = sanitize (tt_output_escape_state t) [] bs;
              t' = t\<lparr>tt_output_escape_state := e\<rparr> in
          if sanitized = [] then Some t'
          else do { (txt, trunc) \<leftarrow> append_bounded_text (tr_output_text r) sanitized
                                     (tt_max_bytes_per_turn t') (tr_output_truncated r);
                    Some (t'\<lparr>tt_active_turn :=
                      Some (r\<lparr>tr_output_text := txt, tr_output_truncated := trunc\<rparr>)\<rparr>) })"

definition previous_turn_snapshot :: "turn_tracker \<Rightarrow> terminal_turn_snapshot option" where
  "previous_turn_snapshot t = map_option turn_snapshot
     (case tt_active_turn t of Some r \<Rightarrow> Some r
      | None \<Rightarrow> if tt_completed_turns t = [] then None else Some (last (tt_completed_turns t)))"

section \<open>Cutting text at character boundaries\<close>

lemma boundary_loop:
  "idx \<le> m \<Longrightarrow> char_boundary_loop t idx m idx = idx + byte_len (take_bytes (m - idx) t)"
  by (induction t arbitrary: idx) (auto simp: Let_def)

lemma floor_char_boundary_take: "floor_char_boundary t n = byte_len (take_bytes n t)"
  by (simp add: floor_char_boundary_def boundary_loop take_bytes_all)

lemma push_slice:
  "(if 0 < floor_char_boundary t n then map_option (\<lambda>p. b @ p) (slice_to t (floor_char_boundary t n))
    else Some b) = Some (b @ take_bytes n t)"
  by (simp add: floor_char_boundary_take slice_take)

lemma append_truncation_marker_eq:
  "append_truncation_marker b m = Some (b @ take_bytes (m - byte_len b) TRUNCATION_MARKER)"
  by (simp add: append_truncation_marker_def Let_def push_slice take_bytes_all)

text \<open>What a text becomes when more is appended to it: all of it while it fits, and otherwise as
  much as leaves room for the marker, or for the part of the marker that fits.\<close>

definition bounded_append :: "nat \<Rightarrow> utext \<Rightarrow> utext \<Rightarrow> utext" where
  "bounded_append m b i =
     (if byte_len b + byte_len i \<le> m then b @ i
      else let b' = b @ take_bytes (m - byte_len b - byte_len TRUNCATION_MARKER) i in
        b' @ take_bytes (m - byte_len b') TRUNCATION_MARKER)"

lemma append_bounded_text_eq:
  "append_bounded_text b i m tr =
     Some (if i = [] \<or> tr then (b, tr) else (bounded_append m b i, m < byte_len b + byte_len i))"
proof -
  have "m < byte_len b + byte_len i" if "m \<le> byte_len b" "i \<noteq> []"
    using that by (cases i) (auto simp: add_strict_increasing2 le_less_trans)
  moreover have "m - byte_len b - min (byte_len TRUNCATION_MARKER) (m - byte_len b)
      = m - byte_len b - byte_len TRUNCATION_MARKER" by simp
  ultimately show ?thesis
    by (auto simp: append_bounded_text_def append_truncation_marker_eq bounded_append_def Let_def push_slice
        not_le less_diff_conv2)
qed

lemma bounded_append_le: "byte_len b \<le> m \<Longrightarrow> byte_len (bounded_append m b i) \<le> m"
  using take_bytes_le [of "m - byte_len b - byte_len TRUNCATION_MARKER" i]
    take_bytes_le [of "m - byte_len (b @ take_bytes (m - byte_len b - byte_len TRUNCATION_MARKER) i)"
      TRUNCATION_MARKER]
  by (auto simp: bounded_append_def Let_def)

section \<open>The invariant of the tracker\<close>

definition turns_of :: "turn_tracker \<Rightarrow> turn_record list" where
  "turns_of t = tt_completed_turns t @ (case tt_active_turn t of None \<Rightarrow> [] | Some r \<Rightarrow> [r])"

definition turn_fits :: "nat \<Rightarrow> turn_record \<Rightarrow> bool" where
  "turn_fits m r \<longleftrightarrow> tr_command_text r \<noteq> [] \<and> byte_len (tr_command_text r) \<le> m
     \<and> byte_len (tr_output_text r) \<le> m"

text \<open>Identifiers grow with the turns, until the counter has reached its last value.\<close>

definition ids_grow :: "turn_tracker \<Rightarrow> bool" where
  "ids_grow t \<longleftrightarrow> tt_next_turn_id t = - 1
     \<or> sorted_wrt (<) (map tr_turn_id (turns_of t) @ [tt_next_turn_id t])"

definition tracker_inv :: "turn_tracker \<Rightarrow> bool" where
  "tracker_inv t \<longleftrightarrow> length (tt_completed_turns t) \<le> tt_max_turns t
     \<and> list_all (turn_fits (tt_max_bytes_per_turn t)) (turns_of t) \<and> ids_grow t
     \<and> byte_len TRUNCATION_MARKER \<le> tt_max_bytes_per_turn t"

text \<open>What happens to a tracker: the four methods its owner calls, in any order.\<close>

datatype tracker_event = SetPrimary bool | CursorRow u64 | SentToShell bytes | ReceivedFromShell bytes

fun run_tracker_event :: "tracker_event \<Rightarrow> turn_tracker \<Rightarrow> turn_tracker option" where
  "run_tracker_event (SetPrimary p) t = Some (set_primary_screen p t)"
| "run_tracker_event (CursorRow row) t = Some (update_cursor_abs_row row t)"
| "run_tracker_event (SentToShell bs) t = track_input_bytes bs t"
| "run_tracker_event (ReceivedFromShell bs) t = track_output_bytes bs t"

fun run_tracker_events :: "tracker_event list \<Rightarrow> turn_tracker \<Rightarrow> turn_tracker option" where
  "run_tracker_events [] t = Some t"
| "run_tracker_events (e # es) t = do { t' \<leftarrow> run_tracker_event e t; run_tracker_events es t' }"

lemma enforce_history_limit_eq: "enforce_history_limit m rs = drop (length rs - m) rs"
  by (induction rs) (auto simp: Suc_diff_le)

lemma marker_nonempty: "0 < n \<Longrightarrow> take_bytes n TRUNCATION_MARKER \<noteq> []"
  by (simp add: TRUNCATION_MARKER_def len_utf8_def)

lemma bounded_append_nonempty: "i \<noteq> [] \<Longrightarrow> 0 < m \<Longrightarrow> bounded_append m [] i \<noteq> []"
  by (cases "take_bytes (m - byte_len TRUNCATION_MARKER) i = []")
    (auto simp: bounded_append_def Let_def marker_nonempty)

lemma marker_pos: "0 < byte_len TRUNCATION_MARKER"
  by (simp add: TRUNCATION_MARKER_def len_utf8_def)

text \<open>Operations that leave the turns alone, or change the open one within its limits.\<close>

lemma tracker_inv_same:
  assumes "tracker_inv t" and "turns_of t' = turns_of t" and "tt_completed_turns t' = tt_completed_turns t"
    and "tt_next_turn_id t' = tt_next_turn_id t" and "tt_max_turns t' = tt_max_turns t"
    and "tt_max_bytes_per_turn t' = tt_max_bytes_per_turn t"
  shows "tracker_inv t'"
  using assms by (simp add: tracker_inv_def ids_grow_def)

lemma tracker_inv_active:
  assumes "tracker_inv t" and "tt_active_turn t = Some r" and "tt_active_turn t' = Some r'"
    and "turn_fits (tt_max_bytes_per_turn t) r'" and "tr_turn_id r' = tr_turn_id r"
    and "tt_completed_turns t' = tt_completed_turns t"
    and "tt_next_turn_id t' = tt_next_turn_id t" and "tt_max_turns t' = tt_max_turns t"
    and "tt_max_bytes_per_turn t' = tt_max_bytes_per_turn t"
  shows "tracker_inv t'"
  using assms by (simp add: tracker_inv_def ids_grow_def turns_of_def)

lemma finish_turn_facts:
  "tt_active_turn (finish_turn t) = None"
  "\<exists>k. tt_completed_turns (finish_turn t) = drop k (turns_of t)"
  "length (tt_completed_turns t) \<le> tt_max_turns t \<Longrightarrow> length (tt_completed_turns (finish_turn t)) \<le> tt_max_turns t"
  "tt_next_turn_id (finish_turn t) = tt_next_turn_id t"
  "tt_max_turns (finish_turn t) = tt_max_turns t"
  "tt_max_bytes_per_turn (finish_turn t) = tt_max_bytes_per_turn t"
  "tt_latest_cursor_abs_row (finish_turn t) = tt_latest_cursor_abs_row t"
proof -
  show "\<exists>k. tt_completed_turns (finish_turn t) = drop k (turns_of t)"
  proof (cases "tt_active_turn t")
    case None
    then have "tt_completed_turns (finish_turn t) = drop 0 (turns_of t)"
      by (simp add: finish_turn_def turns_of_def)
    then show ?thesis ..
  next
    case (Some r)
    then show ?thesis by (auto simp: finish_turn_def turns_of_def enforce_history_limit_eq simp del: drop_append)
  qed
qed (auto simp: finish_turn_def enforce_history_limit_eq split: option.splits)

text \<open>The turn that a submitted command opens.\<close>

definition opened_turn :: "turn_tracker \<Rightarrow> utext \<Rightarrow> turn_record" where
  "opened_turn t command =
     \<lparr>tr_turn_id = tt_next_turn_id t,
      tr_command_text = bounded_append (tt_max_bytes_per_turn t) [] command, tr_output_text = [],
      tr_start_row = tt_latest_cursor_abs_row t, tr_end_row = tt_latest_cursor_abs_row t,
      tr_command_truncated = (tt_max_bytes_per_turn t < byte_len command), tr_output_truncated = False\<rparr>"

lemma submit_command_eq:
  "submit_command t =
     (let command = trim_end_text (tt_input_line_buffer t);
          t' = t\<lparr>tt_input_line_buffer := [], tt_input_escape_state := Ground\<rparr> in
      Some (if command = [] then t'
            else (finish_turn t')\<lparr>tt_next_turn_id := saturating_inc (tt_next_turn_id t),
                   tt_active_turn := Some (opened_turn t command)\<rparr>))"
  by (simp add: submit_command_def Let_def append_bounded_text_eq opened_turn_def finish_turn_facts)

lemma opened_turn_fits:
  "command \<noteq> [] \<Longrightarrow> 0 < tt_max_bytes_per_turn t
   \<Longrightarrow> turn_fits (tt_max_bytes_per_turn t) (opened_turn t command)"
  by (simp add: turn_fits_def opened_turn_def bounded_append_nonempty bounded_append_le)

lemma ids_grow_next:
  assumes "sorted_wrt (<) (xs @ [n :: u64])" and "n \<noteq> - 1"
  shows "saturating_inc n = - 1 \<or> sorted_wrt (<) (drop k xs @ [n, saturating_inc n])"
proof -
  have "1 + n \<noteq> 0" using assms(2) by (simp add: add.commute eq_neg_iff_add_eq_0)
  then have "n < n + 1" by (simp add: word_less_nat_alt unatSuc add.commute)
  then show ?thesis using assms
    by (auto simp: sorted_wrt_append saturating_inc_def sorted_wrt_drop dest: in_set_dropD intro: less_trans)
qed

lemma tracker_inv_submit:
  assumes "tracker_inv t"
  shows "\<exists>t'. submit_command t = Some t' \<and> tracker_inv t'"
proof -
  let ?command = "trim_end_text (tt_input_line_buffer t)"
  let ?t1 = "t\<lparr>tt_input_line_buffer := [], tt_input_escape_state := Ground\<rparr>"
  let ?t2 = "(finish_turn ?t1)\<lparr>tt_next_turn_id := saturating_inc (tt_next_turn_id t),
      tt_active_turn := Some (opened_turn t ?command)\<rparr>"
  have t1: "tracker_inv ?t1" using assms by (rule tracker_inv_same) (simp_all add: turns_of_def)
  have "tracker_inv ?t2" if "?command \<noteq> []"
  proof -
    obtain k where k: "tt_completed_turns (finish_turn ?t1) = drop k (turns_of t)"
      using finish_turn_facts(2) [of ?t1] by (auto simp: turns_of_def)
    then have turns: "turns_of ?t2 = drop k (turns_of t) @ [opened_turn t ?command]"
      by (simp add: turns_of_def)
    have "0 < tt_max_bytes_per_turn t" using assms marker_pos by (auto simp: tracker_inv_def)
    with that have "turn_fits (tt_max_bytes_per_turn t) (opened_turn t ?command)" by (rule opened_turn_fits)
    then have "list_all (turn_fits (tt_max_bytes_per_turn t)) (turns_of ?t2)"
      using assms unfolding turns by (auto simp: tracker_inv_def list_all_iff dest: in_set_dropD)
    moreover have "ids_grow ?t2"
      using assms ids_grow_next [of "map tr_turn_id (turns_of t)" "tt_next_turn_id t" k] unfolding ids_grow_def turns
      by (auto simp: tracker_inv_def ids_grow_def drop_map opened_turn_def saturating_inc_def)
    ultimately show ?thesis
      using t1 finish_turn_facts(3) [of ?t1] by (simp add: tracker_inv_def finish_turn_facts)
  qed
  with t1 show ?thesis by (simp add: submit_command_eq Let_def)
qed

lemma tracker_inv_ground:
  assumes "tracker_inv t"
  shows "\<exists>t'. process_input_ground_byte byte t = Some t' \<and> tracker_inv t'"
proof -
  have "tracker_inv (t\<lparr>tt_input_line_buffer := b\<rparr>)" "tracker_inv (t\<lparr>tt_input_escape_state := e\<rparr>)" for b e
    using assms by (auto intro!: tracker_inv_same [OF assms] simp: turns_of_def)
  then show ?thesis using tracker_inv_submit [OF assms] assms by (simp add: process_input_ground_byte_def)
qed

lemma tracker_inv_input_loop:
  "tracker_inv t \<Longrightarrow> \<exists>t'. track_input_loop t bs = Some t' \<and> tracker_inv t'"
proof (induction bs arbitrary: t)
  case (Cons byte bs)
  have "tracker_inv (t\<lparr>tt_input_escape_state := e\<rparr>)" for e
    by (rule tracker_inv_same [OF Cons.prems]) (simp_all add: turns_of_def)
  then have "\<exists>t'. track_input_byte t byte = Some t' \<and> tracker_inv t'"
    using tracker_inv_ground [OF Cons.prems, of byte] by (simp add: track_input_byte_def)
  with Cons.IH show ?case by auto
qed simp

lemma tracker_inv_output:
  assumes "tracker_inv t"
  shows "\<exists>t'. track_output_bytes bs t = Some t' \<and> tracker_inv t'"
proof (cases "tt_capture_primary_screen t \<and> tt_active_turn t \<noteq> None")
  case True
  then obtain r where r: "tt_active_turn t = Some r" by auto
  obtain clean e where se: "sanitize (tt_output_escape_state t) [] bs = (clean, e)" by fastforce
  have fits: "turn_fits (tt_max_bytes_per_turn t) r"
    using assms r by (simp add: tracker_inv_def turns_of_def)
  have esc: "tracker_inv (t\<lparr>tt_output_escape_state := e\<rparr>)"
    by (rule tracker_inv_same [OF assms]) (simp_all add: turns_of_def)
  have "tracker_inv (t\<lparr>tt_output_escape_state := e, tt_active_turn := Some r'\<rparr>)"
    if "turn_fits (tt_max_bytes_per_turn t) r'" "tr_turn_id r' = tr_turn_id r" for r'
    by (rule tracker_inv_active [OF assms r, of _ r']) (use that in simp_all)
  moreover have "byte_len (bounded_append (tt_max_bytes_per_turn t) (tr_output_text r) clean) \<le> tt_max_bytes_per_turn t"
    using fits by (auto simp: turn_fits_def intro: bounded_append_le)
  ultimately show ?thesis using True r se esc fits
    by (simp add: track_output_bytes_def append_bounded_text_eq turn_fits_def Let_def)
qed (use assms in \<open>auto simp: track_output_bytes_def\<close>)

lemma tracker_inv_event:
  assumes "tracker_inv t"
  shows "\<exists>t'. run_tracker_event e t = Some t' \<and> tracker_inv t'"
proof (cases e)
  case (SetPrimary p)
  have "tracker_inv (set_primary_screen p t)"
    by (rule tracker_inv_same [OF assms]) (simp_all add: set_primary_screen_def turns_of_def)
  with SetPrimary show ?thesis by simp
next
  case (CursorRow row)
  have "tracker_inv (update_cursor_abs_row row t)"
  proof (cases "tt_active_turn t")
    case None
    then show ?thesis
      by (intro tracker_inv_same [OF assms]) (simp_all add: update_cursor_abs_row_def turns_of_def)
  next
    case (Some r)
    then show ?thesis using assms
      by (intro tracker_inv_active [OF assms Some, of _ "r\<lparr>tr_end_row := row\<rparr>"])
        (simp_all add: update_cursor_abs_row_def tracker_inv_def turns_of_def turn_fits_def)
  qed
  with CursorRow show ?thesis by simp
qed (use assms tracker_inv_input_loop tracker_inv_output in \<open>auto simp: track_input_bytes_def\<close>)

text \<open>No operation changes the limits.\<close>

definition limits :: "turn_tracker \<Rightarrow> nat \<times> nat" where
  "limits t = (tt_max_turns t, tt_max_bytes_per_turn t)"

lemma limits_submit: "submit_command t = Some t' \<Longrightarrow> limits t' = limits t"
  by (auto simp: submit_command_eq Let_def limits_def finish_turn_facts split: if_splits)

lemma limits_input_loop: "track_input_loop t bs = Some t' \<Longrightarrow> limits t' = limits t"
proof (induction bs arbitrary: t)
  case (Cons b bs)
  then obtain u where u: "track_input_byte t b = Some u" "track_input_loop u bs = Some t'"
    by (auto simp: bind_eq_Some_conv)
  then have "limits u = limits t"
    by (auto simp: track_input_byte_def process_input_ground_byte_def limits_submit limits_def [abs_def] split: if_splits
        dest: limits_submit)
  with Cons.IH [OF u(2)] show ?case by simp
qed simp

lemma limits_event: "run_tracker_event e t = Some t' \<Longrightarrow> limits t' = limits t"
  by (cases e) (auto simp: limits_def set_primary_screen_def update_cursor_abs_row_def track_input_bytes_def
      track_output_bytes_def Let_def append_bounded_text_eq split: if_splits option.splits prod.splits
      dest: limits_input_loop [unfolded limits_def])

text \<open>A run never fails, keeps the invariant and the limits.\<close>

definition tracking :: "nat \<times> nat \<Rightarrow> turn_tracker option \<Rightarrow> bool" where
  "tracking l s \<longleftrightarrow> (\<exists>t. s = Some t \<and> tracker_inv t \<and> limits t = l)"

interpretation tracker: machine "\<lambda>e s. Option.bind s (run_tracker_event e)" "\<lambda>_. True" "tracking l"
proof unfold_locales
  fix s e
  assume "tracking l s"
  then obtain t where t: "s = Some t" "tracker_inv t" "limits t = l" by (auto simp: tracking_def)
  from tracker_inv_event [OF t(2), of e] limits_event [of e t] t(1,3)
  show "tracking l (Option.bind s (run_tracker_event e))" by (auto simp: tracking_def)
qed

lemma run_tracker_events_fold:
  "run_tracker_events es t = fold (\<lambda>e s. Option.bind s (run_tracker_event e)) es (Some t)"
proof (induction es arbitrary: t)
  case (Cons e es)
  have "fold (\<lambda>e s. Option.bind s (run_tracker_event e)) es None = None" by (induction es) simp_all
  with Cons show ?case by (cases "run_tracker_event e t") simp_all
qed simp

lemma tracker_runs:
  "tracker_inv t \<Longrightarrow> \<exists>t'. run_tracker_events es t = Some t' \<and> tracker_inv t' \<and> limits t' = limits t"
  using tracker.inv_run [of "limits t" "Some t" es]
  by (simp add: tracking_def run_tracker_events_fold list_all_iff)

lemma tracker_inv_new: "tracker_inv (new_turn_tracker n m)"
  by (simp add: tracker_inv_def new_turn_tracker_def turns_of_def ids_grow_def)

section \<open>What a turn shows\<close>

text \<open>The bytes outside of escape sequences.\<close>

fun strip_escapes :: "escape_state \<Rightarrow> bytes \<Rightarrow> bytes \<times> escape_state" where
  "strip_escapes e [] = ([], e)"
| "strip_escapes e (b # bs) =
     (if e = Ground then if b = 0x1b then strip_escapes Escape bs
        else (let (ks, e') = strip_escapes Ground bs in (b # ks, e'))
      else strip_escapes (escape_step e b) bs)"

text \<open>The line editor a shell is expected to have, on keys other than Return, and the text that
  the output bytes show.\<close>

definition edit_line :: "utext \<Rightarrow> u8 \<Rightarrow> utext" where
  "edit_line l k =
     (if k = 0x08 \<or> k = 0x7f then butlast l
      else if k = 0x15 then []
      else if 0x20 \<le> k \<and> k \<le> 0x7e then l @ [unat k]
      else if 0x80 \<le> k then l @ [0xFFFD]
      else l)"

definition shown_byte :: "u8 \<Rightarrow> utext" where
  "shown_byte b =
     (if b = 0x0a then [10] else if 0x20 \<le> b \<and> b \<le> 0x7e then [unat b] else if 0x80 \<le> b then [0xFFFD] else [])"

definition shown :: "bytes \<Rightarrow> utext" where
  "shown bs = concat (map shown_byte bs)"

definition is_return :: "u8 \<Rightarrow> bool" where
  "is_return k \<longleftrightarrow> k = 0x0d \<or> k = 0x0a"

definition is_erase :: "u8 \<Rightarrow> bool" where
  "is_erase k \<longleftrightarrow> k = 0x08 \<or> k = 0x7f"

lemma strip_escapes_append:
  "strip_escapes e (as @ bs) =
     (let (ks, e1) = strip_escapes e as; (ls, e2) = strip_escapes e1 bs in (ks @ ls, e2))"
  by (induction as arbitrary: e) (auto simp: split_beta)

lemma lossy_high: "0x80 \<le> b \<Longrightarrow> append_lossy_byte l b = l @ [0xFFFD]"
  by (auto simp: append_lossy_byte_def dest: leD)

lemma ground_edits:
  "b \<noteq> 0x1b \<Longrightarrow> \<not> is_return b \<Longrightarrow>
   process_input_ground_byte b t = Some (t\<lparr>tt_input_line_buffer := edit_line (tt_input_line_buffer t) b\<rparr>)"
  by (auto simp: process_input_ground_byte_def edit_line_def is_return_def lossy_high)

lemma input_loop_edits:
  "strip_escapes (tt_input_escape_state t) bs = (ks, e) \<Longrightarrow> list_all (\<lambda>k. \<not> is_return k) ks \<Longrightarrow>
   track_input_loop t bs =
     Some (t\<lparr>tt_input_line_buffer := foldl edit_line (tt_input_line_buffer t) ks, tt_input_escape_state := e\<rparr>)"
proof (induction bs arbitrary: t ks)
  case (Cons b bs)
  show ?case
  proof (cases "tt_input_escape_state t = Ground")
    case True
    show ?thesis
    proof (cases "b = 0x1b")
      case esc: True
      let ?t = "t\<lparr>tt_input_escape_state := Escape\<rparr>"
      from Cons.IH [of ?t ks] Cons.prems True esc show ?thesis
        by (simp add: track_input_byte_def process_input_ground_byte_def)
    next
      case False
      then obtain ks' where ks: "strip_escapes Ground bs = (ks', e)" "ks = b # ks'"
        using Cons.prems(1) True by (auto split: prod.splits)
      let ?t = "t\<lparr>tt_input_line_buffer := edit_line (tt_input_line_buffer t) b\<rparr>"
      from Cons.IH [of ?t ks'] Cons.prems(2) True False ks show ?thesis
        by (simp add: track_input_byte_def ground_edits)
    qed
  next
    case False
    let ?t = "t\<lparr>tt_input_escape_state := escape_step (tt_input_escape_state t) b\<rparr>"
    from Cons.IH [of ?t ks] Cons.prems False show ?thesis by (simp add: track_input_byte_def)
  qed
qed simp

lemma input_loop_append:
  "track_input_loop t (as @ bs) = Option.bind (track_input_loop t as) (\<lambda>t'. track_input_loop t' bs)"
  by (induction as arbitrary: t) auto

lemma sanitize_shown:
  "strip_escapes e bs = (ks, e') \<Longrightarrow> list_all (\<lambda>k. \<not> is_erase k) ks \<Longrightarrow>
   sanitize e l bs = (l @ shown ks, e')"
proof (induction bs arbitrary: e l ks)
  case (Cons b bs)
  have byte: "sanitize_byte b l = l @ shown_byte b" if "\<not> is_erase b"
    using that by (auto simp: sanitize_byte_def shown_byte_def is_erase_def lossy_high)
  show ?case using Cons byte by (auto simp: shown_def split: if_splits prod.splits)
qed (simp add: shown_def)

text \<open>One chunk of output that fits, and then any number of them.\<close>

lemma output_chunk:
  assumes "tt_capture_primary_screen t" and "tt_active_turn t = Some r" and "\<not> tr_output_truncated r"
    and "strip_escapes (tt_output_escape_state t) bs = (ks, e)" and "list_all (\<lambda>k. \<not> is_erase k) ks"
    and "byte_len (tr_output_text r @ shown ks) \<le> tt_max_bytes_per_turn t"
  shows "track_output_bytes bs t = Some (t\<lparr>tt_output_escape_state := e,
           tt_active_turn := Some (r\<lparr>tr_output_text := tr_output_text r @ shown ks\<rparr>)\<rparr>)"
  using assms by (auto simp: track_output_bytes_def sanitize_shown [OF assms(4,5)] append_bounded_text_eq
      bounded_append_def Let_def)

lemma output_chunks:
  "\<lbrakk>tt_capture_primary_screen t; tt_active_turn t = Some r; \<not> tr_output_truncated r;
    strip_escapes (tt_output_escape_state t) (concat chunks) = (ks, e); list_all (\<lambda>k. \<not> is_erase k) ks;
    byte_len (tr_output_text r @ shown ks) \<le> tt_max_bytes_per_turn t\<rbrakk>
   \<Longrightarrow> run_tracker_events (map ReceivedFromShell chunks) t = Some (t\<lparr>tt_output_escape_state := e,
         tt_active_turn := Some (r\<lparr>tr_output_text := tr_output_text r @ shown ks\<rparr>)\<rparr>)"
proof (induction chunks arbitrary: t r ks)
  case Nil
  then show ?case by (simp add: shown_def)
next
  case (Cons c chunks)
  obtain k1 e1 k2 where strip: "strip_escapes (tt_output_escape_state t) c = (k1, e1)"
      "strip_escapes e1 (concat chunks) = (k2, e)" "ks = k1 @ k2"
    using Cons.prems(4) by (auto simp: strip_escapes_append Let_def split: prod.splits)
  then have shown: "shown ks = shown k1 @ shown k2" by (simp add: shown_def)
  let ?r = "r\<lparr>tr_output_text := tr_output_text r @ shown k1\<rparr>"
  let ?t = "t\<lparr>tt_output_escape_state := e1, tt_active_turn := Some ?r\<rparr>"
  have "track_output_bytes c t = Some ?t"
    using Cons.prems strip shown by (intro output_chunk) auto
  moreover have "run_tracker_events (map ReceivedFromShell chunks) ?t = Some (?t\<lparr>tt_output_escape_state := e,
      tt_active_turn := Some (?r\<lparr>tr_output_text := tr_output_text ?r @ shown k2\<rparr>)\<rparr>)"
    using Cons.prems strip shown by (intro Cons.IH) auto
  ultimately show ?case by (simp add: shown)
qed

section \<open>The properties\<close>

text \<open>C29. Whatever is typed and printed, in any order and any pieces, the tracker does not panic
  (no string is ever cut inside a character) and stays within its limits: no more completed turns
  than the maximum, no command and no output longer than the maximal number of bytes, no empty
  command, and identifiers that strictly grow until the counter is exhausted.\<close>

theorem turns_stay_bounded:
  "\<exists>t. run_tracker_events es (new_turn_tracker max_turns max_bytes) = Some t
     \<and> length (tt_completed_turns t) \<le> max max_turns 1
     \<and> list_all (\<lambda>r. tr_command_text r \<noteq> []
          \<and> byte_len (tr_command_text r) \<le> max max_bytes (byte_len TRUNCATION_MARKER)
          \<and> byte_len (tr_output_text r) \<le> max max_bytes (byte_len TRUNCATION_MARKER)) (turns_of t)
     \<and> (tt_next_turn_id t = - 1 \<or> sorted_wrt (<) (map tr_turn_id (turns_of t)))"
proof -
  obtain t where t: "run_tracker_events es (new_turn_tracker max_turns max_bytes) = Some t" "tracker_inv t"
      "limits t = limits (new_turn_tracker max_turns max_bytes)"
    using tracker_runs [OF tracker_inv_new] by blast
  then have "tt_max_turns t = max max_turns 1 \<and> tt_max_bytes_per_turn t = max max_bytes (byte_len TRUNCATION_MARKER)"
    by (simp add: new_turn_tracker_def limits_def)
  then show ?thesis using t
    by (auto simp: tracker_inv_def ids_grow_def turn_fits_def [abs_def] sorted_wrt_append)
qed

text \<open>The same with the escape sequences taken out by the tracker's own automaton.\<close>

lemma turn_shows_stripped:
  assumes "tt_capture_primary_screen t" and "tt_input_escape_state t = Ground" and "tt_input_line_buffer t = []"
    and "strip_escapes Ground line = (keys, Ground)" and "list_all (\<lambda>k. \<not> is_return k) keys"
    and "command = trim_end_text (foldl edit_line [] keys)" and "command \<noteq> []"
    and "byte_len command \<le> tt_max_bytes_per_turn t"
    and "strip_escapes (tt_output_escape_state t) (concat chunks) = (printed, e)"
    and "list_all (\<lambda>k. \<not> is_erase k) printed" and "byte_len (shown printed) \<le> tt_max_bytes_per_turn t"
  shows "\<exists>t'. run_tracker_events (SentToShell (line @ [0x0d]) # map ReceivedFromShell chunks) t = Some t'
     \<and> previous_turn_snapshot t' = Some
         \<lparr>ts_turn_id = tt_next_turn_id t, ts_command_text = command, ts_output_text = shown printed,
          ts_combined_text = (if shown printed = [] then command else command @ [10] @ shown printed),
          ts_start_row = tt_latest_cursor_abs_row t, ts_end_row = tt_latest_cursor_abs_row t\<rparr>
     \<and> tt_input_line_buffer t' = []"
proof -
  let ?t1 = "t\<lparr>tt_input_line_buffer := [], tt_input_escape_state := Ground\<rparr>"
  let ?t2 = "(finish_turn ?t1)\<lparr>tt_next_turn_id := saturating_inc (tt_next_turn_id t),
      tt_active_turn := Some (opened_turn t command)\<rparr>"
  have same: "tt_capture_primary_screen (finish_turn ?t1) = tt_capture_primary_screen t"
      "tt_output_escape_state (finish_turn ?t1) = tt_output_escape_state t"
      "tt_input_line_buffer (finish_turn ?t1) = []"
    by (simp_all add: finish_turn_def split: option.splits)
  have "track_input_bytes (line @ [0x0d]) t = Some ?t2"
    using assms(1-7) input_loop_edits [of t line keys Ground]
    by (simp add: track_input_bytes_def input_loop_append track_input_byte_def process_input_ground_byte_def
        submit_command_eq Let_def opened_turn_def)
  moreover have "run_tracker_events (map ReceivedFromShell chunks) ?t2 = Some (?t2\<lparr>tt_output_escape_state := e,
      tt_active_turn := Some ((opened_turn t command)\<lparr>tr_output_text := shown printed\<rparr>)\<rparr>)"
    using output_chunks [of ?t2 "opened_turn t command" chunks printed e] assms
    by (simp add: same finish_turn_facts opened_turn_def)
  ultimately show ?thesis using assms(8)
    by (auto simp: previous_turn_snapshot_def turn_snapshot_def opened_turn_def bounded_append_def same)
qed

text \<open>What a terminal sends and receives, as the standard for control sequences (ECMA-48) has it: plain bytes,
  control sequences (parameter and intermediate bytes, then a final byte), single shifts with the
  character they shift, and escape sequences of two bytes that introduce nothing. The control strings
  (OSC, DCS, SOS, PM, APC), whose payload follows, are left out.\<close>

datatype terminal_item = Plain u8 | CsiSequence bytes u8 | SingleShift u8 | ShortEscape u8

fun item_bytes :: "terminal_item \<Rightarrow> bytes" where
  "item_bytes (Plain b) = [b]"
| "item_bytes (CsiSequence params final) = [0x1b, 0x5b] @ params @ [final]"
| "item_bytes (SingleShift b) = [0x1b, 0x4f, b]"
| "item_bytes (ShortEscape b) = [0x1b, b]"

fun item_ok :: "terminal_item \<Rightarrow> bool" where
  "item_ok (Plain b) \<longleftrightarrow> b \<noteq> 0x1b"
| "item_ok (CsiSequence params final) \<longleftrightarrow> list_all (\<lambda>p. 0x20 \<le> p \<and> p \<le> 0x3f) params \<and> 0x40 \<le> final \<and> final \<le> 0x7e"
| "item_ok (SingleShift b) \<longleftrightarrow> 0x20 \<le> b \<and> b \<le> 0x7e"
| "item_ok (ShortEscape b) \<longleftrightarrow> 0x30 \<le> b \<and> b \<le> 0x7e \<and> b \<notin> {0x4f, 0x50, 0x58, 0x5b, 0x5d, 0x5e, 0x5f}"

definition stream :: "terminal_item list \<Rightarrow> bytes" where
  "stream items = concat (map item_bytes items)"

fun plain_bytes :: "terminal_item list \<Rightarrow> bytes" where
  "plain_bytes [] = []"
| "plain_bytes (Plain b # items) = b # plain_bytes items"
| "plain_bytes (i # items) = plain_bytes items"

lemma strip_params:
  "list_all (\<lambda>p. 0x20 \<le> p \<and> p \<le> 0x3f) params \<Longrightarrow> strip_escapes Csi (params @ bs) = strip_escapes Csi bs"
proof (induction params)
  case (Cons p params)
  then have "p < 0x40" by (simp add: order_le_less_trans [of p "0x3f" "0x40"])
  then have "\<not> 0x40 \<le> p" by (simp add: not_le)
  with Cons show ?case by (simp add: csi_sequence_complete_def)
qed simp

lemma strip_stream:
  "list_all item_ok items \<Longrightarrow> strip_escapes Ground (stream items) = (plain_bytes items, Ground)"
proof (induction items)
  case (Cons i items)
  then show ?case
    by (cases i) (simp_all add: stream_def strip_params csi_sequence_complete_def)
qed (simp add: stream_def)

text \<open>C30. A turn shows what was typed and what was printed. A line typed with any editing keys and control
  sequences in it and finished by Return, and then output cut into pieces anywhere, even inside control
  sequences, give a turn whose command is the edited line without trailing blanks and whose output is the
  printed text: the plain bytes of the output without its control sequences, carriage returns and other
  control characters, as long as both fit the limits and the output erases nothing. Text is ASCII: every
  byte of another character, typed or printed, becomes U+FFFD. Control strings such as OSC titles are not
  covered, since the tracker leaves their payload in the text.\<close>

theorem turn_shows_command_and_output:
  assumes "tt_capture_primary_screen t" and "tt_input_line_buffer t = []"
    and "tt_input_escape_state t = Ground" and "tt_output_escape_state t = Ground"
    and "list_all item_ok typed" and "list_all (\<lambda>k. \<not> is_return k) (plain_bytes typed)"
    and "command = trim_end_text (foldl edit_line [] (plain_bytes typed))" and "command \<noteq> []"
    and "byte_len command \<le> tt_max_bytes_per_turn t"
    and "list_all item_ok printed" and "concat chunks = stream printed"
    and "list_all (\<lambda>k. \<not> is_erase k) (plain_bytes printed)"
    and "output = shown (plain_bytes printed)" and "byte_len output \<le> tt_max_bytes_per_turn t"
  shows "\<exists>t'. run_tracker_events (SentToShell (stream typed @ [0x0d]) # map ReceivedFromShell chunks) t = Some t'
     \<and> previous_turn_snapshot t' = Some
         \<lparr>ts_turn_id = tt_next_turn_id t, ts_command_text = command, ts_output_text = output,
          ts_combined_text = (if output = [] then command else command @ [10] @ output),
          ts_start_row = tt_latest_cursor_abs_row t, ts_end_row = tt_latest_cursor_abs_row t\<rparr>
     \<and> tt_input_line_buffer t' = []"
proof -
  have "strip_escapes (tt_output_escape_state t) (concat chunks) = (plain_bytes printed, Ground)"
    using assms(4,11) strip_stream [OF assms(10)] by simp
  from turn_shows_stripped [OF assms(1,3,2) strip_stream [OF assms(5)] assms(6-9) this assms(12) assms(14) [unfolded assms(13)]]
  show ?thesis unfolding assms(13) .
qed

text \<open>The keys \<open>l\<close>, cursor up, \<open>x\<close>, backspace, \<open>s\<close> and a blank; output in colour, cut inside a sequence.\<close>

theorem turn_shows_command_and_output_witness:
  "\<exists>t'. run_tracker_events [SentToShell [0x6c, 0x1b, 0x5b, 0x41, 0x78, 0x7f, 0x73, 0x20, 0x0d],
          ReceivedFromShell [0x61, 0x1b], ReceivedFromShell [0x5b, 0x30, 0x6d, 0x0d, 0x0a]] (new_turn_tracker 2 64) = Some t'
     \<and> previous_turn_snapshot t' = Some
         \<lparr>ts_turn_id = 1, ts_command_text = [0x6c, 0x73], ts_output_text = [0x61, 10],
          ts_combined_text = [0x6c, 0x73, 10, 0x61, 10], ts_start_row = 0, ts_end_row = 0\<rparr>
     \<and> tt_input_line_buffer t' = []"
  using turn_shows_command_and_output
    [of "new_turn_tracker 2 64" "[Plain 0x6c, CsiSequence [] 0x41, Plain 0x78, Plain 0x7f, Plain 0x73, Plain 0x20]" "[0x6c, 0x73]"
        "[Plain 0x61, CsiSequence [0x30] 0x6d, Plain 0x0d, Plain 0x0a]" "[[0x61, 0x1b], [0x5b, 0x30, 0x6d, 0x0d, 0x0a]]" "[0x61, 10]"]
  by (simp add: new_turn_tracker_def is_return_def is_erase_def edit_line_def stream_def
      trim_end_text_def is_whitespace_def shown_def shown_byte_def len_utf8_def TRUNCATION_MARKER_def)

text \<open>The payload of a control string is shown: a shell that sets the title \<open>t\<close> of its window (\<open>ESC ] 0 ; t BEL\<close>)
  before it prints \<open>a\<close> gives the output \<open>0;ta\<close>.\<close>

theorem title_shown_in_output:
  "map_option (map_option ts_output_text \<circ> previous_turn_snapshot)
     (run_tracker_events [SentToShell [0x6c, 0x73, 0x0d], ReceivedFromShell [0x1b, 0x5d, 0x30, 0x3b, 0x74, 0x07, 0x61]]
       (new_turn_tracker 2 64)) = Some (Some [0x30, 0x3b, 0x74, 0x61])"
  by (simp add: new_turn_tracker_def track_input_bytes_def track_input_byte_def process_input_ground_byte_def submit_command_eq
      track_output_bytes_def sanitize_byte_def previous_turn_snapshot_def turn_snapshot_def append_bounded_text_eq bounded_append_def
      trim_end_text_def is_whitespace_def len_utf8_def TRUNCATION_MARKER_def opened_turn_def finish_turn_def Let_def)

end
