(* ===== verification/Ui_Frame_Pacer.thy ===== *)
theory Ui_Frame_Pacer
  imports Config Machines
begin

text \<open>
  The frame pacer of the user interface (seance-ui, frame_pacer.rs): every producer of a redraw
  asks it for a repaint, and it issues at most one refresh per display frame, postponing it by at
  most two frames to keep the display's cadence. Instants and durations are nanoseconds. The
  frame callbacks of the window toolkit are a counter of callbacks in the queue; a refresh
  (\<open>cx.notify\<close> and \<open>window.refresh\<close>) is an entry in a log. The floating-point operations are
  arguments of the definitions that use them, with no law assumed.
\<close>

unbundle bit_operations_syntax

section \<open>Repaint reasons\<close>

type_synonym instant = nat
type_synonym duration = nat
type_synonym repaint_reason_set = u8

definition TERMINAL_UPDATE :: repaint_reason_set where "TERMINAL_UPDATE = push_bit 0 1"

definition SCROLL :: repaint_reason_set where "SCROLL = push_bit 1 1"

definition INPUT :: repaint_reason_set where "INPUT = push_bit 2 1"

definition UI_STATE :: repaint_reason_set where "UI_STATE = push_bit 3 1"

definition PALETTE :: repaint_reason_set where "PALETTE = push_bit 4 1"

definition DISPLAY_PROBE :: repaint_reason_set where "DISPLAY_PROBE = push_bit 5 1"

definition reasons_insert :: "repaint_reason_set \<Rightarrow> repaint_reason_set \<Rightarrow> repaint_reason_set" where
  "reasons_insert self other = self OR other"

definition reasons_contains :: "repaint_reason_set \<Rightarrow> repaint_reason_set \<Rightarrow> bool" where
  "reasons_contains self other \<longleftrightarrow> self AND other = other \<and> other \<noteq> 0"

definition reasons_is_empty :: "repaint_reason_set \<Rightarrow> bool" where
  "reasons_is_empty self \<longleftrightarrow> self = 0"

datatype redraw_reason = DisplayProbe | Input | TerminalUpdate | Palette | UiRefresh | Unknown

definition dominant_reason :: "repaint_reason_set \<Rightarrow> redraw_reason" where
  "dominant_reason self =
     (if reasons_contains self TERMINAL_UPDATE then TerminalUpdate
      else if reasons_contains self SCROLL then TerminalUpdate
      else if reasons_contains self PALETTE then Palette
      else if reasons_contains self INPUT then Input
      else if reasons_contains self UI_STATE then UiRefresh
      else if reasons_contains self DISPLAY_PROBE then DisplayProbe
      else Unknown)"

section \<open>The performance overlay\<close>

datatype ui_perf_mode = PerfOff | PerfCompact | PerfExpanded

record ('f, 'p) perf_overlay_state =
  po_mode :: ui_perf_mode
  po_last_present_timestamp :: "instant option"
  po_present_timestamps :: "instant list"
  po_present_intervals :: "(instant \<times> duration) list"
  po_last_display_probe_timestamp :: "instant option"
  po_display_probe_timestamps :: "instant list"
  po_display_probe_intervals :: "(instant \<times> duration) list"
  po_display_probe_enabled :: bool
  po_display_probe_scheduled :: bool
  po_display_probe_epoch :: u64
  po_render_cost_samples :: "(instant \<times> duration) list"
  po_ui_refresh_timestamps :: "instant list"
  po_terminal_refresh_timestamps :: "instant list"
  po_active_session_perf_snapshot :: "'p option"
  po_frame_stats :: 'f
  po_visible_line_count :: nat
  po_pending_redraw_reason :: redraw_reason

definition PERF_WINDOW :: duration where
  "PERF_WINDOW = 1000000000"

fun trim_instants :: "instant list \<Rightarrow> instant \<Rightarrow> duration \<Rightarrow> instant list" where
  "trim_instants [] now window = []"
| "trim_instants (front # samples) now window =
     (if now - front \<le> window then front # samples else trim_instants samples now window)"

definition mark_terminal_refresh_request ::
  "instant \<Rightarrow> redraw_reason \<Rightarrow> 'p option \<Rightarrow> ('f, 'p) perf_overlay_state \<Rightarrow> ('f, 'p) perf_overlay_state" where
  "mark_terminal_refresh_request now reason session_perf o' =
     o'\<lparr>po_pending_redraw_reason := reason, po_active_session_perf_snapshot := session_perf,
        po_terminal_refresh_timestamps :=
          trim_instants (po_terminal_refresh_timestamps o' @ [now]) now PERF_WINDOW,
        po_ui_refresh_timestamps := trim_instants (po_ui_refresh_timestamps o' @ [now]) now PERF_WINDOW\<rparr>"

definition mark_ui_refresh_request ::
  "instant \<Rightarrow> redraw_reason \<Rightarrow> ('f, 'p) perf_overlay_state \<Rightarrow> ('f, 'p) perf_overlay_state" where
  "mark_ui_refresh_request now reason o' =
     o'\<lparr>po_pending_redraw_reason := reason,
        po_ui_refresh_timestamps := trim_instants (po_ui_refresh_timestamps o' @ [now]) now PERF_WINDOW\<rparr>"

definition mark_input :: "redraw_reason \<Rightarrow> ('f, 'p) perf_overlay_state \<Rightarrow> ('f, 'p) perf_overlay_state" where
  "mark_input reason o' = o'\<lparr>po_pending_redraw_reason := reason\<rparr>"

definition mark_display_probe :: "('f, 'p) perf_overlay_state \<Rightarrow> ('f, 'p) perf_overlay_state" where
  "mark_display_probe o' =
     (if po_pending_redraw_reason o' \<in> {Unknown, DisplayProbe}
      then o'\<lparr>po_pending_redraw_reason := DisplayProbe\<rparr> else o')"

section \<open>The pacer\<close>

definition DEFAULT_TARGET_INTERVAL :: duration where "DEFAULT_TARGET_INTERVAL = 7500000"

definition MIN_TARGET_INTERVAL :: duration where "MIN_TARGET_INTERVAL = 3500000"

definition MAX_TARGET_INTERVAL :: duration where "MAX_TARGET_INTERVAL = 16800000"

definition MAX_FRAME_DEFERS :: u8 where "MAX_FRAME_DEFERS = 2"

definition CALIBRATION_SAMPLE_CAPACITY :: nat where "CALIBRATION_SAMPLE_CAPACITY = 16"

definition CALIBRATION_MIN_SAMPLES :: nat where "CALIBRATION_MIN_SAMPLES = 6"

definition CALIBRATION_MAX_GAP :: duration where "CALIBRATION_MAX_GAP = 100000000"

record frame_pacer =
  fp_pending :: repaint_reason_set
  fp_frame_scheduled :: bool
  fp_last_flush_at :: "instant option"
  fp_target_interval :: duration
  fp_requests_total :: u64
  fp_coalesced_total :: u64
  fp_flushes_total :: u64
  fp_defers_total :: u64
  fp_pending_defers :: u8
  fp_requests_window :: u64
  fp_flushes_window :: u64
  fp_defers_window :: u64
  fp_window_started_at :: "instant option"
  fp_calibration_last_tick_at :: "instant option"
  fp_calibration_samples :: "duration list"
  fp_calibrated_display_hz :: "f32 option"

definition default_frame_pacer :: frame_pacer where
  "default_frame_pacer =
     \<lparr>fp_pending = 0, fp_frame_scheduled = False, fp_last_flush_at = None,
      fp_target_interval = DEFAULT_TARGET_INTERVAL, fp_requests_total = 0, fp_coalesced_total = 0,
      fp_flushes_total = 0, fp_defers_total = 0, fp_pending_defers = 0, fp_requests_window = 0,
      fp_flushes_window = 0, fp_defers_window = 0, fp_window_started_at = None,
      fp_calibration_last_tick_at = None, fp_calibration_samples = [], fp_calibrated_display_hz = None\<rparr>"

text \<open>The operations on \<open>f32\<close> values that round: \<open>Duration::as_secs_f32\<close>, division, subtraction,
  \<open>round\<close> and \<open>Duration::from_secs_f32\<close> (which is only applied to the reciprocal of a finite
  number from 24 on, where it does not panic).\<close>

record float_ops =
  fo_as_secs :: "duration \<Rightarrow> f32"
  fo_div :: "f32 \<Rightarrow> f32 \<Rightarrow> f32"
  fo_sub :: "f32 \<Rightarrow> f32 \<Rightarrow> f32"
  fo_round :: "f32 \<Rightarrow> f32"
  fo_from_secs :: "f32 \<Rightarrow> duration"

definition f32_lt :: "f32 \<Rightarrow> f32 \<Rightarrow> bool" where
  "f32_lt a b \<longleftrightarrow> f32_le a b \<and> a \<noteq> b"

fun is_finite :: "f32 \<Rightarrow> bool" where
  "is_finite (Fin _) = True"
| "is_finite _ = False"

fun f32_abs :: "f32 \<Rightarrow> f32" where
  "f32_abs (Fin a) = Fin \<bar>a\<bar>"
| "f32_abs NegInf = PosInf"
| "f32_abs x = x"

definition sat_inc :: "'a::len word \<Rightarrow> 'a word" where
  "sat_inc n = (if n = - 1 then n else n + 1)"

definition bump_window :: "instant \<Rightarrow> frame_pacer \<Rightarrow> frame_pacer" where
  "bump_window now p =
     (let started = (case fp_window_started_at p of None \<Rightarrow> now | Some s \<Rightarrow> s) in
      if now - started > 1000000000
      then p\<lparr>fp_window_started_at := Some now, fp_requests_window := 0, fp_flushes_window := 0, fp_defers_window := 0\<rparr>
      else p\<lparr>fp_window_started_at := Some started\<rparr>)"

definition note_request :: "repaint_reason_set \<Rightarrow> instant \<Rightarrow> frame_pacer \<Rightarrow> frame_pacer" where
  "note_request reason now p =
     (let p1 = p\<lparr>fp_pending := reasons_insert (fp_pending p) reason, fp_requests_total := sat_inc (fp_requests_total p)\<rparr>;
          p2 = bump_window now p1 in
      p2\<lparr>fp_requests_window := sat_inc (fp_requests_window p2)\<rparr>)"

definition note_flush :: "instant \<Rightarrow> frame_pacer \<Rightarrow> frame_pacer" where
  "note_flush now p = bump_window now
     (p\<lparr>fp_flushes_total := sat_inc (fp_flushes_total p), fp_flushes_window := sat_inc (fp_flushes_window p),
        fp_last_flush_at := Some now\<rparr>)"

definition note_defer :: "instant \<Rightarrow> frame_pacer \<Rightarrow> frame_pacer" where
  "note_defer now p = bump_window now
     (p\<lparr>fp_defers_total := sat_inc (fp_defers_total p), fp_defers_window := sat_inc (fp_defers_window p)\<rparr>)"

definition note_coalesce :: "frame_pacer \<Rightarrow> frame_pacer" where
  "note_coalesce p = p\<lparr>fp_coalesced_total := sat_inc (fp_coalesced_total p)\<rparr>"

definition set_target_hz :: "float_ops \<Rightarrow> f32 \<Rightarrow> frame_pacer \<Rightarrow> frame_pacer" where
  "set_target_hz fo display_hz p =
     (if \<not> is_finite display_hz \<or> f32_lt display_hz (Fin 24)
      then p\<lparr>fp_target_interval := DEFAULT_TARGET_INTERVAL\<rparr>
      else p\<lparr>fp_target_interval :=
        min MAX_TARGET_INTERVAL (max MIN_TARGET_INTERVAL (fo_from_secs fo (fo_div fo (Fin 1) display_hz)))\<rparr>)"

text \<open>The calibration from the samples, the part of \<open>record_display_tick\<close> after the sample is kept.\<close>

definition calibrate :: "float_ops \<Rightarrow> frame_pacer \<Rightarrow> f32 option \<times> frame_pacer" where
  "calibrate fo p =
     (let samples = fp_calibration_samples p in
      if length samples < CALIBRATION_MIN_SAMPLES then (None, p)
      else let avg = sum_list samples div length samples; avg_secs = fo_as_secs fo avg in
        if f32_le avg_secs (Fin 0) then (None, p)
        else let hz = fo_round fo (fo_div fo (Fin 1) avg_secs) in
          if \<not> is_finite hz \<or> f32_lt hz (Fin 24) then (None, p)
          else let changed = (case fp_calibrated_display_hz p of
                   Some prev_hz \<Rightarrow> f32_le (Fin 8) (f32_abs (fo_sub fo prev_hz hz))
                 | None \<Rightarrow> True) in
            if \<not> changed then (None, p)
            else (Some hz, set_target_hz fo hz (p\<lparr>fp_calibrated_display_hz := Some hz\<rparr>)))"

definition push_sample :: "duration \<Rightarrow> duration list \<Rightarrow> duration list" where
  "push_sample delta samples =
     (if length samples = CALIBRATION_SAMPLE_CAPACITY then tl samples else samples) @ [delta]"

definition record_display_tick :: "float_ops \<Rightarrow> instant \<Rightarrow> frame_pacer \<Rightarrow> f32 option \<times> frame_pacer" where
  "record_display_tick fo now p =
     (let previous = fp_calibration_last_tick_at p; p1 = p\<lparr>fp_calibration_last_tick_at := Some now\<rparr> in
      case previous of
        None \<Rightarrow> (None, p1)
      | Some prev \<Rightarrow>
          let delta = now - prev in
          if delta = 0 \<or> CALIBRATION_MAX_GAP < delta then (None, p1\<lparr>fp_calibration_samples := []\<rparr>)
          else calibrate fo (p1\<lparr>fp_calibration_samples := push_sample delta (fp_calibration_samples p1)\<rparr>))"

definition should_defer :: "frame_pacer \<Rightarrow> instant \<Rightarrow> bool" where
  "should_defer p now =
     (if MAX_FRAME_DEFERS \<le> fp_pending_defers p then False
      else case fp_last_flush_at p of
        None \<Rightarrow> False
      | Some lst \<Rightarrow> now - lst < fp_target_interval p)"

section \<open>The workspace\<close>

text \<open>The part of the workspace the pacer works on: the pacer, the overlay, the number of frame
  callbacks in the window's queue and the instants of the refreshes issued, newest first.\<close>

record ('f, 'p) workspace_frames =
  wf_pacer :: frame_pacer
  wf_overlay :: "('f, 'p) perf_overlay_state"
  wf_callbacks :: nat
  wf_refreshes :: "instant list"

abbreviation on_pacer :: "(frame_pacer \<Rightarrow> frame_pacer) \<Rightarrow> ('f, 'p) workspace_frames \<Rightarrow> ('f, 'p) workspace_frames" where
  "on_pacer f w \<equiv> w\<lparr>wf_pacer := f (wf_pacer w)\<rparr>"

abbreviation on_next_frame :: "('f, 'p) workspace_frames \<Rightarrow> ('f, 'p) workspace_frames" where
  "on_next_frame w \<equiv> w\<lparr>wf_callbacks := Suc (wf_callbacks w)\<rparr>"

definition mark_perf_reason :: "repaint_reason_set \<Rightarrow> ('f, 'p) workspace_frames \<Rightarrow> ('f, 'p) workspace_frames" where
  "mark_perf_reason reason w =
     (let label = dominant_reason reason in
      if label = DisplayProbe then w\<lparr>wf_overlay := mark_display_probe (wf_overlay w)\<rparr>
      else w\<lparr>wf_overlay := mark_input label (wf_overlay w)\<rparr>)"

definition mark_perf_refresh ::
  "redraw_reason \<Rightarrow> instant \<Rightarrow> 'p option \<Rightarrow> ('f, 'p) workspace_frames \<Rightarrow> ('f, 'p) workspace_frames" where
  "mark_perf_refresh reason now snapshot w =
     (case reason of
        TerminalUpdate \<Rightarrow> w\<lparr>wf_overlay := mark_terminal_refresh_request now reason snapshot (wf_overlay w)\<rparr>
      | DisplayProbe \<Rightarrow> w\<lparr>wf_overlay := mark_display_probe (wf_overlay w)\<rparr>
      | other \<Rightarrow> w\<lparr>wf_overlay := mark_ui_refresh_request now other (wf_overlay w)\<rparr>)"

definition request_repaint ::
  "repaint_reason_set \<Rightarrow> instant \<Rightarrow> ('f, 'p) workspace_frames \<Rightarrow> ('f, 'p) workspace_frames" where
  "request_repaint reason now w =
     (let w1 = (if \<not> reasons_is_empty (fp_pending (wf_pacer w)) \<and> fp_frame_scheduled (wf_pacer w)
                then on_pacer note_coalesce w else w);
          w2 = mark_perf_reason reason (on_pacer (note_request reason now) w1) in
      if fp_frame_scheduled (wf_pacer w2) then w2
      else on_next_frame (on_pacer (\<lambda>p. p\<lparr>fp_frame_scheduled := True, fp_pending_defers := 0\<rparr>) w2))"

definition flush_frame_pacer ::
  "float_ops \<Rightarrow> instant \<Rightarrow> 'p option \<Rightarrow> ('f, 'p) workspace_frames \<Rightarrow> ('f, 'p) workspace_frames" where
  "flush_frame_pacer fo now snapshot w =
     (let w1 = on_pacer (\<lambda>p. snd (record_display_tick fo now p)) w in
      if should_defer (wf_pacer w1) now
      then on_next_frame (on_pacer (\<lambda>p. note_defer now (p\<lparr>fp_pending_defers := sat_inc (fp_pending_defers p)\<rparr>)) w1)
      else let w2 = on_pacer (\<lambda>p. p\<lparr>fp_frame_scheduled := False, fp_pending_defers := 0\<rparr>) w1 in
        if reasons_is_empty (fp_pending (wf_pacer w2)) then w2
        else let reason = dominant_reason (fp_pending (wf_pacer w2));
                 w3 = on_pacer (\<lambda>p. note_flush now (p\<lparr>fp_pending := 0\<rparr>)) w2;
                 w4 = mark_perf_refresh reason now snapshot w3 in
          w4\<lparr>wf_refreshes := now # wf_refreshes w4\<rparr>)"

definition apply_display_hz_hint :: "float_ops \<Rightarrow> f32 \<Rightarrow> ('f, 'p) workspace_frames \<Rightarrow> ('f, 'p) workspace_frames" where
  "apply_display_hz_hint fo display_hz w = on_pacer (set_target_hz fo display_hz) w"

text \<open>What happens to the workspace: a producer asks for a repaint, a hint about the display
  arrives, or the display starts a frame and the window runs a queued callback.\<close>

datatype 'p frame_action =
    RequestRepaint repaint_reason_set instant
  | DisplayHint f32
  | DisplayFrame instant "'p option"

fun frame_step :: "float_ops \<Rightarrow> 'p frame_action \<Rightarrow> ('f, 'p) workspace_frames \<Rightarrow> ('f, 'p) workspace_frames" where
  "frame_step fo (RequestRepaint reason now) w = request_repaint reason now w"
| "frame_step fo (DisplayHint hz) w = apply_display_hz_hint fo hz w"
| "frame_step fo (DisplayFrame now snapshot) w =
     (if wf_callbacks w = 0 then w
      else flush_frame_pacer fo now snapshot (w\<lparr>wf_callbacks := wf_callbacks w - 1\<rparr>))"

section \<open>The invariant\<close>

text \<open>The workspaces of a run: it starts with a fresh pacer and an empty queue.\<close>

inductive reachable_frames :: "float_ops \<Rightarrow> ('f, 'p) workspace_frames \<Rightarrow> bool" for fo where
  start: "reachable_frames fo \<lparr>wf_pacer = default_frame_pacer, wf_overlay = o', wf_callbacks = 0, wf_refreshes = []\<rparr>"
| step: "reachable_frames fo w \<Longrightarrow> reachable_frames fo (frame_step fo a w)"

definition interval_ok :: "duration \<Rightarrow> bool" where
  "interval_ok d \<longleftrightarrow> MIN_TARGET_INTERVAL \<le> d \<and> d \<le> MAX_TARGET_INTERVAL"

definition frames_inv :: "('f, 'p) workspace_frames \<Rightarrow> bool" where
  "frames_inv w \<longleftrightarrow> (let p = wf_pacer w in
     wf_callbacks w = (if fp_frame_scheduled p then 1 else 0)
     \<and> (fp_pending p \<noteq> 0 \<longrightarrow> fp_frame_scheduled p)
     \<and> fp_pending_defers p \<le> MAX_FRAME_DEFERS \<and> interval_ok (fp_target_interval p))"

lemma bump_window_keeps [simp]:
  "fp_pending (bump_window now p) = fp_pending p"
  "fp_frame_scheduled (bump_window now p) = fp_frame_scheduled p"
  "fp_pending_defers (bump_window now p) = fp_pending_defers p"
  "fp_target_interval (bump_window now p) = fp_target_interval p"
  by (simp_all add: bump_window_def Let_def)

lemma set_target_hz_keeps [simp]:
  "fp_pending (set_target_hz fo hz p) = fp_pending p"
  "fp_frame_scheduled (set_target_hz fo hz p) = fp_frame_scheduled p"
  "fp_pending_defers (set_target_hz fo hz p) = fp_pending_defers p"
  "fp_last_flush_at (set_target_hz fo hz p) = fp_last_flush_at p"
  by (simp_all add: set_target_hz_def)

lemma set_target_hz_interval: "interval_ok (fp_target_interval (set_target_hz fo hz p))"
  by (simp add: set_target_hz_def interval_ok_def DEFAULT_TARGET_INTERVAL_def MIN_TARGET_INTERVAL_def
      MAX_TARGET_INTERVAL_def)

lemma calibrate_keeps [simp]:
  "fp_pending (snd (calibrate fo p)) = fp_pending p"
  "fp_frame_scheduled (snd (calibrate fo p)) = fp_frame_scheduled p"
  "fp_pending_defers (snd (calibrate fo p)) = fp_pending_defers p"
  by (simp_all add: calibrate_def Let_def)

lemma calibrate_interval:
  "interval_ok (fp_target_interval p) \<Longrightarrow> interval_ok (fp_target_interval (snd (calibrate fo p)))"
  by (simp add: calibrate_def Let_def set_target_hz_interval)

lemma record_display_tick_keeps [simp]:
  "fp_pending (snd (record_display_tick fo now p)) = fp_pending p"
  "fp_frame_scheduled (snd (record_display_tick fo now p)) = fp_frame_scheduled p"
  "fp_pending_defers (snd (record_display_tick fo now p)) = fp_pending_defers p"
  by (simp_all add: record_display_tick_def Let_def split: option.split)

lemma record_display_tick_interval:
  "interval_ok (fp_target_interval p) \<Longrightarrow> interval_ok (fp_target_interval (snd (record_display_tick fo now p)))"
  by (simp add: record_display_tick_def Let_def calibrate_interval split: option.split)

lemma mark_perf_keeps [simp]:
  "wf_pacer (mark_perf_reason r w) = wf_pacer w" "wf_callbacks (mark_perf_reason r w) = wf_callbacks w"
  "wf_refreshes (mark_perf_reason r w) = wf_refreshes w"
  "wf_pacer (mark_perf_refresh d now x w) = wf_pacer w" "wf_callbacks (mark_perf_refresh d now x w) = wf_callbacks w"
  "wf_refreshes (mark_perf_refresh d now x w) = wf_refreshes w"
  by (simp_all add: mark_perf_reason_def mark_perf_refresh_def Let_def split: redraw_reason.split)

lemma defer_bound: "n < MAX_FRAME_DEFERS \<Longrightarrow> unat (sat_inc n) = Suc (unat n) \<and> sat_inc n \<le> MAX_FRAME_DEFERS"
proof -
  assume n: "n < MAX_FRAME_DEFERS"
  then have "unat n < 2" by (simp add: MAX_FRAME_DEFERS_def word_less_nat_alt)
  then have "n = 0 \<or> n = 1" by (auto simp: word_unat_eq_iff less_2_cases_iff)
  then show ?thesis by (auto simp: sat_inc_def MAX_FRAME_DEFERS_def)
qed

lemma or_zero: "(a :: u8) OR b = 0 \<longleftrightarrow> a = 0 \<and> b = 0"
  by (fact or_eq_0_iff)

text \<open>What each operation does to the fields the invariant speaks of.\<close>

lemma request_repaint_facts:
  "fp_pending (wf_pacer (request_repaint r now w)) = fp_pending (wf_pacer w) OR r"
  "fp_frame_scheduled (wf_pacer (request_repaint r now w))"
  "fp_pending_defers (wf_pacer (request_repaint r now w)) =
     (if fp_frame_scheduled (wf_pacer w) then fp_pending_defers (wf_pacer w) else 0)"
  "fp_target_interval (wf_pacer (request_repaint r now w)) = fp_target_interval (wf_pacer w)"
  "wf_callbacks (request_repaint r now w) =
     (if fp_frame_scheduled (wf_pacer w) then wf_callbacks w else Suc (wf_callbacks w))"
  "wf_refreshes (request_repaint r now w) = wf_refreshes w"
  by (simp_all add: request_repaint_def note_request_def note_coalesce_def reasons_insert_def Let_def)

lemma frames_inv_request: "frames_inv w \<Longrightarrow> frames_inv (request_repaint r now w)"
  by (simp add: frames_inv_def Let_def request_repaint_facts)

lemma flush_cases:
  assumes "frames_inv w" and "fp_frame_scheduled (wf_pacer w)" and "w' = frame_step fo (DisplayFrame now x) w"
  shows "frames_inv w'
    \<and> (fp_pending (wf_pacer w') = fp_pending (wf_pacer w) \<and> fp_frame_scheduled (wf_pacer w')
         \<and> unat (fp_pending_defers (wf_pacer w')) = Suc (unat (fp_pending_defers (wf_pacer w)))
         \<and> wf_refreshes w' = wf_refreshes w
       \<or> fp_pending (wf_pacer w') = 0 \<and> \<not> fp_frame_scheduled (wf_pacer w')
         \<and> wf_refreshes w' = (if fp_pending (wf_pacer w) = 0 then wf_refreshes w else now # wf_refreshes w))"
proof -
  let ?p = "snd (record_display_tick fo now (wf_pacer w))"
  have interval: "interval_ok (fp_target_interval ?p)"
    using assms(1) by (simp add: frames_inv_def Let_def record_display_tick_interval)
  show ?thesis
  proof (cases "should_defer ?p now")
    case True
    then have "fp_pending_defers (wf_pacer w) < MAX_FRAME_DEFERS"
      by (simp add: should_defer_def split: if_splits)
    from defer_bound [OF this] True assms interval show ?thesis
      by (simp add: flush_frame_pacer_def frames_inv_def note_defer_def Let_def)
  next
    case False
    with assms interval show ?thesis
      by (simp add: flush_frame_pacer_def frames_inv_def note_flush_def reasons_is_empty_def Let_def)
  qed
qed

lemma frames_inv_step: "frames_inv w \<Longrightarrow> frames_inv (frame_step fo a w)"
proof (cases a)
  case (DisplayFrame now x)
  assume w: "frames_inv w"
  show ?thesis
  proof (cases "fp_frame_scheduled (wf_pacer w)")
    case True
    from flush_cases [OF w this refl] show ?thesis unfolding DisplayFrame by blast
  next
    case False
    with w have "wf_callbacks w = 0" by (simp add: frames_inv_def Let_def)
    with w DisplayFrame show ?thesis by simp
  qed
next
  case (DisplayHint hz)
  assume "frames_inv w"
  with DisplayHint show ?thesis
    by (simp add: frames_inv_def Let_def apply_display_hz_hint_def set_target_hz_interval)
qed (simp add: frames_inv_request)

lemma frames_inv_reachable: "reachable_frames fo w \<Longrightarrow> frames_inv w"
proof (induction rule: reachable_frames.induct)
  case (start o')
  show ?case by (simp add: frames_inv_def default_frame_pacer_def interval_ok_def DEFAULT_TARGET_INTERVAL_def
        MIN_TARGET_INTERVAL_def MAX_TARGET_INTERVAL_def MAX_FRAME_DEFERS_def)
qed (rule frames_inv_step)

section \<open>Every repaint is shown\<close>

fun is_frame :: "'p frame_action \<Rightarrow> bool" where
  "is_frame (DisplayFrame now x) = True"
| "is_frame _ = False"

definition frames_in :: "'p frame_action list \<Rightarrow> nat" where
  "frames_in as = length (filter is_frame as)"

abbreviation run_frames ::
  "float_ops \<Rightarrow> 'p frame_action list \<Rightarrow> ('f, 'p) workspace_frames \<Rightarrow> ('f, 'p) workspace_frames" where
  "run_frames fo as w \<equiv> fold (frame_step fo) as w"

lemma idle_frame:
  "frames_inv w \<Longrightarrow> \<not> fp_frame_scheduled (wf_pacer w) \<Longrightarrow> frame_step fo (DisplayFrame now x) w = w"
  by (simp add: frames_inv_def Let_def)

lemma refreshes_step:
  assumes "frames_inv w"
  shows "length (wf_refreshes w) \<le> length (wf_refreshes (frame_step fo a w))
    \<and> length (wf_refreshes (frame_step fo a w)) \<le> length (wf_refreshes w) + (if is_frame a then 1 else 0)"
proof (cases a)
  case (DisplayFrame now x)
  then show ?thesis using flush_cases [OF assms _ refl, of fo now x] idle_frame [OF assms, of fo now x]
    by (cases "fp_frame_scheduled (wf_pacer w)") (auto simp del: frame_step.simps)
qed (simp_all add: request_repaint_facts apply_display_hz_hint_def)

text \<open>The frames left until a pending repaint is shown for certain.\<close>

definition frames_left :: "('f, 'p) workspace_frames \<Rightarrow> nat" where
  "frames_left w = 3 - unat (fp_pending_defers (wf_pacer w))"

lemma frames_left_pos: "frames_inv w \<Longrightarrow> 0 < frames_left w"
  by (simp add: frames_left_def frames_inv_def Let_def MAX_FRAME_DEFERS_def word_le_nat_alt)

lemma frame_nears:
  assumes "frames_inv w" and "fp_pending (wf_pacer w) \<noteq> 0" and "is_frame a"
  shows "length (wf_refreshes w) < length (wf_refreshes (frame_step fo a w))
    \<or> fp_pending (wf_pacer (frame_step fo a w)) \<noteq> 0 \<and> frames_left (frame_step fo a w) < frames_left w"
proof -
  from assms(3) obtain now x where a: "a = DisplayFrame now x" by (cases a) auto
  have "fp_frame_scheduled (wf_pacer w)" using assms(1,2) by (simp add: frames_inv_def Let_def)
  from flush_cases [OF assms(1) this refl, of fo now x, folded a] assms(2) frames_left_pos [OF assms(1)]
  show ?thesis by (auto simp: frames_left_def)
qed

lemma other_action_waits:
  assumes "frames_inv w" and "fp_pending (wf_pacer w) \<noteq> 0" and "\<not> is_frame a"
  shows "fp_pending (wf_pacer (frame_step fo a w)) \<noteq> 0 \<and> frames_left (frame_step fo a w) \<le> frames_left w"
proof -
  have "fp_frame_scheduled (wf_pacer w)" using assms(1,2) by (simp add: frames_inv_def Let_def)
  with assms show ?thesis
    by (cases a) (simp_all add: request_repaint_facts or_zero frames_left_def apply_display_hz_hint_def)
qed

interpretation pacer: responsive "frame_step fo" "\<lambda>_. True" frames_inv is_frame
    "\<lambda>w. fp_pending (wf_pacer w) \<noteq> 0" frames_left "\<lambda>w. length (wf_refreshes w)"
  by unfold_locales
    (use frames_inv_step refreshes_step frames_left_pos frame_nears other_action_waits in blast)+

text \<open>A concrete run, with exact rational arithmetic for the floating-point operations.\<close>

definition exact_floats :: float_ops where
  "exact_floats =
     \<lparr>fo_as_secs = (\<lambda>d. Fin (of_nat d / 1000000000)),
      fo_div = (\<lambda>a b. case (a, b) of (Fin x, Fin y) \<Rightarrow> (if y = 0 then NaN else Fin (x / y)) | _ \<Rightarrow> NaN),
      fo_sub = (\<lambda>a b. case (a, b) of (Fin x, Fin y) \<Rightarrow> Fin (x - y) | _ \<Rightarrow> NaN),
      fo_round = (\<lambda>a. case a of Fin x \<Rightarrow> Fin (of_int (round x)) | y \<Rightarrow> y),
      fo_from_secs = (\<lambda>a. case a of Fin x \<Rightarrow> nat \<lfloor>x * 1000000000\<rfloor> | _ \<Rightarrow> 0)\<rparr>"

definition blank_overlay :: "(unit, unit) perf_overlay_state" where
  "blank_overlay =
     \<lparr>po_mode = PerfOff, po_last_present_timestamp = None, po_present_timestamps = [], po_present_intervals = [],
      po_last_display_probe_timestamp = None, po_display_probe_timestamps = [], po_display_probe_intervals = [],
      po_display_probe_enabled = False, po_display_probe_scheduled = False, po_display_probe_epoch = 0,
      po_render_cost_samples = [], po_ui_refresh_timestamps = [], po_terminal_refresh_timestamps = [],
      po_active_session_perf_snapshot = None, po_frame_stats = (), po_visible_line_count = 0,
      po_pending_redraw_reason = Unknown\<rparr>"

definition scroll_requested :: "(unit, unit) workspace_frames" where
  "scroll_requested = frame_step exact_floats (RequestRepaint SCROLL 5)
     \<lparr>wf_pacer = default_frame_pacer, wf_overlay = blank_overlay, wf_callbacks = 0, wf_refreshes = []\<rparr>"

text \<open>C31. Every requested repaint is shown, and never twice in a frame: whatever requests, display
  hints and frames came before, and whatever comes next, the window has at most one callback of the
  pacer in its queue, each frame issues at most one refresh, and when a repaint is pending the next
  three frames issue one; the target interval stays between its bounds.\<close>

theorem repaint_shown_within_three_frames:
  assumes "reachable_frames fo w"
  shows "wf_callbacks w \<le> 1
    \<and> length (wf_refreshes (run_frames fo as w)) \<le> length (wf_refreshes w) + frames_in as
    \<and> (fp_pending (wf_pacer w) \<noteq> 0 \<and> 3 \<le> frames_in as
         \<longrightarrow> length (wf_refreshes w) < length (wf_refreshes (run_frames fo as w)))
    \<and> MIN_TARGET_INTERVAL \<le> fp_target_interval (wf_pacer w) \<and> fp_target_interval (wf_pacer w) \<le> MAX_TARGET_INTERVAL"
proof -
  note inv = frames_inv_reachable [OF assms]
  then have "wf_callbacks w \<le> 1" "interval_ok (fp_target_interval (wf_pacer w))"
    by (simp_all add: frames_inv_def Let_def)
  moreover have "length (wf_refreshes w) < length (wf_refreshes (run_frames fo as w))"
    if "fp_pending (wf_pacer w) \<noteq> 0" "3 \<le> frames_in as"
    using pacer.pending_served [OF inv _ that(1)] that(2) by (simp add: frames_left_def frames_in_def list_all_iff)
  ultimately show ?thesis using pacer.served_run [OF inv, of as fo]
    by (simp add: interval_ok_def frames_in_def list_all_iff)
qed

theorem repaint_shown_within_three_frames_witness:
  "reachable_frames exact_floats scroll_requested \<and> fp_pending (wf_pacer scroll_requested) = SCROLL
     \<and> length (wf_refreshes scroll_requested) < length (wf_refreshes (run_frames exact_floats
          [DisplayFrame 10 None, RequestRepaint INPUT 20, DisplayFrame 30 None, DisplayFrame 40 None] scroll_requested))"
proof -
  have reach: "reachable_frames exact_floats scroll_requested"
    unfolding scroll_requested_def by (intro reachable_frames.intros)
  have pending: "fp_pending (wf_pacer scroll_requested) = SCROLL"
    by (simp add: scroll_requested_def request_repaint_facts default_frame_pacer_def)
  then have "fp_pending (wf_pacer scroll_requested) \<noteq> 0" by (simp add: SCROLL_def)
  with repaint_shown_within_three_frames [OF reach,
      of "[DisplayFrame 10 None, RequestRepaint INPUT 20, DisplayFrame 30 None, DisplayFrame 40 None]"] reach pending
  show ?thesis by (simp add: frames_in_def)
qed

end
