(* ===== verification/Ui_Text_Input.thy ===== *)
theory Ui_Text_Input
  imports Rust_Unicode Machines
begin

text \<open>
  The text fields of the user interface (seance-ui, text_input.rs): a caret and a selection as two
  character indices beside the text, with every change of the text done on byte indices. The fields
  refine an editor on the three parts of its text: before, inside and after the selection.
\<close>

section \<open>The code\<close>

record text_edit_state =
  te_anchor :: nat
  te_focus :: nat

record text_display_fragments =
  tf_prefix :: utext
  tf_selected :: "utext option"
  tf_suffix :: utext
  tf_caret_visible :: bool

definition char_to_byte_index :: "utext \<Rightarrow> nat \<Rightarrow> nat" where
  "char_to_byte_index t char_index =
     (case drop char_index (char_indices 0 t) of [] \<Rightarrow> byte_len t | (idx, _) # _ \<Rightarrow> idx)"

definition slice_chars :: "utext \<Rightarrow> nat \<Rightarrow> nat \<Rightarrow> utext option" where
  "slice_chars t start stop = slice_range t (char_to_byte_index t start) (char_to_byte_index t stop)"

definition replace_char_range :: "utext \<Rightarrow> nat \<Rightarrow> nat \<Rightarrow> utext \<Rightarrow> utext option" where
  "replace_char_range t start stop replacement =
     replace_range t (char_to_byte_index t start) (char_to_byte_index t stop) replacement"

definition with_text :: "utext \<Rightarrow> text_edit_state" where
  "with_text t = \<lparr>te_anchor = length t, te_focus = length t\<rparr>"

definition sync :: "utext \<Rightarrow> text_edit_state \<Rightarrow> text_edit_state" where
  "sync t s = \<lparr>te_anchor = min (te_anchor s) (length t), te_focus = min (te_focus s) (length t)\<rparr>"

definition has_selection :: "text_edit_state \<Rightarrow> bool" where
  "has_selection s \<longleftrightarrow> te_anchor s \<noteq> te_focus s"

definition selection_range :: "text_edit_state \<Rightarrow> nat \<times> nat" where
  "selection_range s = (if te_anchor s \<le> te_focus s then (te_anchor s, te_focus s) else (te_focus s, te_anchor s))"

definition clamped_range :: "nat \<Rightarrow> text_edit_state \<Rightarrow> nat \<times> nat" where
  "clamped_range len s = (let (start, stop) = selection_range s in (min start len, min stop len))"

definition caret_at :: "nat \<Rightarrow> text_edit_state" where
  "caret_at i = \<lparr>te_anchor = i, te_focus = i\<rparr>"

definition move_left :: "utext \<Rightarrow> bool \<Rightarrow> text_edit_state \<Rightarrow> text_edit_state" where
  "move_left t extending s0 =
     (let s = sync t s0 in
      if \<not> extending \<and> has_selection s then caret_at (fst (selection_range s))
      else let focus = te_focus s - 1 in
        if \<not> extending then caret_at focus else s\<lparr>te_focus := focus\<rparr>)"

definition move_right :: "utext \<Rightarrow> bool \<Rightarrow> text_edit_state \<Rightarrow> text_edit_state" where
  "move_right t extending s0 =
     (let s = sync t s0 in
      if \<not> extending \<and> has_selection s then caret_at (snd (selection_range s))
      else let focus = min (te_focus s + 1) (length t) in
        if \<not> extending then caret_at focus else s\<lparr>te_focus := focus\<rparr>)"

definition move_home :: "bool \<Rightarrow> text_edit_state \<Rightarrow> text_edit_state" where
  "move_home extending s = (if \<not> extending then caret_at 0 else s\<lparr>te_focus := 0\<rparr>)"

definition move_end :: "utext \<Rightarrow> bool \<Rightarrow> text_edit_state \<Rightarrow> text_edit_state" where
  "move_end t extending s = (if \<not> extending then caret_at (length t) else s\<lparr>te_focus := length t\<rparr>)"

definition select_all :: "utext \<Rightarrow> text_edit_state \<Rightarrow> text_edit_state" where
  "select_all t s = \<lparr>te_anchor = 0, te_focus = length t\<rparr>"

definition replace_selection :: "utext \<Rightarrow> utext \<Rightarrow> text_edit_state \<Rightarrow> (utext \<times> text_edit_state) option" where
  "replace_selection t replacement s0 =
     (let s = sync t s0; (start, stop) = selection_range s in
      do { t' \<leftarrow> replace_char_range t start stop replacement;
           Some (t', caret_at (start + length replacement)) })"

definition insert_text :: "utext \<Rightarrow> utext \<Rightarrow> text_edit_state \<Rightarrow> (utext \<times> text_edit_state) option" where
  "insert_text t input s = replace_selection t input s"

definition backspace :: "utext \<Rightarrow> text_edit_state \<Rightarrow> (utext \<times> text_edit_state) option" where
  "backspace t s0 =
     (let s = sync t s0 in
      if has_selection s then replace_selection t [] s
      else if te_focus s = 0 then Some (t, s)
      else let start = te_focus s - 1 in
        do { t' \<leftarrow> replace_char_range t start (te_focus s) []; Some (t', caret_at start) })"

definition delete_forward :: "utext \<Rightarrow> text_edit_state \<Rightarrow> (utext \<times> text_edit_state) option" where
  "delete_forward t s0 =
     (let s = sync t s0 in
      if has_selection s then replace_selection t [] s
      else if length t \<le> te_focus s then Some (t, s)
      else do { t' \<leftarrow> replace_char_range t (te_focus s) (te_focus s + 1) [];
                Some (t', s\<lparr>te_anchor := te_focus s\<rparr>) })"

text \<open>\<open>copy\<close> gives \<open>None\<close> for nothing to copy; the outer option is the panic.\<close>

definition copy :: "utext \<Rightarrow> text_edit_state \<Rightarrow> utext option option" where
  "copy t s =
     (if has_selection s
      then let (start, stop) = selection_range s in
        do { v \<leftarrow> slice_chars t start stop; Some (if v = [] then None else Some v) }
      else Some None)"

definition cut :: "utext \<Rightarrow> text_edit_state \<Rightarrow> (utext option \<times> utext \<times> text_edit_state) option" where
  "cut t s =
     do { copied \<leftarrow> copy t s;
          case copied of
            None \<Rightarrow> Some (None, t, s)
          | Some v \<Rightarrow> do { (t', s') \<leftarrow> replace_selection t [] s; Some (Some v, t', s') } }"

definition display_fragments :: "utext \<Rightarrow> text_edit_state \<Rightarrow> text_display_fragments option" where
  "display_fragments t s =
     (let len = length t; (start, stop) = clamped_range len s in
      if start \<noteq> stop
      then do { p \<leftarrow> slice_chars t 0 start; sel \<leftarrow> slice_chars t start stop; q \<leftarrow> slice_chars t stop len;
                Some \<lparr>tf_prefix = p, tf_selected = Some sel, tf_suffix = q, tf_caret_visible = False\<rparr> }
      else do { p \<leftarrow> slice_chars t 0 stop; q \<leftarrow> slice_chars t stop len;
                Some \<lparr>tf_prefix = p, tf_selected = None, tf_suffix = q, tf_caret_visible = True\<rparr> })"

section \<open>The abstract editor\<close>

text \<open>The text before, inside and after the selection, and whether the caret is at the left end of
  the selection.\<close>

record zipper =
  z_before :: utext
  z_selected :: utext
  z_after :: utext
  z_left :: bool

definition caret :: "utext \<Rightarrow> utext \<Rightarrow> zipper" where
  "caret l r = \<lparr>z_before = l, z_selected = [], z_after = r, z_left = False\<rparr>"

text \<open>Selections with the caret at the left or right end; an empty one is a caret.\<close>

definition leftward :: "utext \<Rightarrow> utext \<Rightarrow> utext \<Rightarrow> zipper" where
  "leftward l s r = \<lparr>z_before = l, z_selected = s, z_after = r, z_left = (s \<noteq> [])\<rparr>"

definition rightward :: "utext \<Rightarrow> utext \<Rightarrow> utext \<Rightarrow> zipper" where
  "rightward l s r = \<lparr>z_before = l, z_selected = s, z_after = r, z_left = False\<rparr>"

datatype key =
    KeyLeft bool | KeyRight bool | KeyHome bool | KeyEnd bool | SelectAll
  | Typed utext | Backspace | DeleteForward | Copy | Cut

fun edit :: "key \<Rightarrow> zipper \<Rightarrow> zipper" where
  "edit (KeyLeft False) z =
     (if z_selected z \<noteq> [] then caret (z_before z) (z_selected z @ z_after z)
      else caret (butlast (z_before z)) (drop (length (z_before z) - 1) (z_before z) @ z_after z))"
| "edit (KeyRight False) z =
     (if z_selected z \<noteq> [] then caret (z_before z @ z_selected z) (z_after z)
      else caret (z_before z @ take 1 (z_after z)) (drop 1 (z_after z)))"
| "edit (KeyLeft True) z =
     (if z_selected z \<noteq> [] \<and> \<not> z_left z
      then rightward (z_before z) (butlast (z_selected z)) (last (z_selected z) # z_after z)
      else leftward (butlast (z_before z)) (drop (length (z_before z) - 1) (z_before z) @ z_selected z) (z_after z))"
| "edit (KeyRight True) z =
     (if z_left z then leftward (z_before z @ take 1 (z_selected z)) (drop 1 (z_selected z)) (z_after z)
      else rightward (z_before z) (z_selected z @ take 1 (z_after z)) (drop 1 (z_after z)))"
| "edit (KeyHome False) z = caret [] (z_before z @ z_selected z @ z_after z)"
| "edit (KeyHome True) z =
     (if z_left z then leftward [] (z_before z @ z_selected z) (z_after z)
      else leftward [] (z_before z) (z_selected z @ z_after z))"
| "edit (KeyEnd False) z = caret (z_before z @ z_selected z @ z_after z) []"
| "edit (KeyEnd True) z =
     (if z_left z then rightward (z_before z @ z_selected z) (z_after z) []
      else rightward (z_before z) (z_selected z @ z_after z) [])"
| "edit SelectAll z = rightward [] (z_before z @ z_selected z @ z_after z) []"
| "edit (Typed w) z = caret (z_before z @ w) (z_after z)"
| "edit Backspace z =
     (if z_selected z \<noteq> [] then caret (z_before z) (z_after z) else caret (butlast (z_before z)) (z_after z))"
| "edit DeleteForward z =
     (if z_selected z \<noteq> [] then caret (z_before z) (z_after z) else caret (z_before z) (drop 1 (z_after z)))"
| "edit Copy z = z"
| "edit Cut z = (if z_selected z \<noteq> [] then caret (z_before z) (z_after z) else z)"

text \<open>The field: its text, its state and the clipboard.\<close>

type_synonym field = "utext \<times> text_edit_state \<times> utext option"

fun press :: "key \<Rightarrow> field \<Rightarrow> field option" where
  "press (KeyLeft x) (t, s, c) = Some (t, move_left t x s, c)"
| "press (KeyRight x) (t, s, c) = Some (t, move_right t x s, c)"
| "press (KeyHome x) (t, s, c) = Some (t, move_home x s, c)"
| "press (KeyEnd x) (t, s, c) = Some (t, move_end t x s, c)"
| "press SelectAll (t, s, c) = Some (t, select_all t s, c)"
| "press (Typed w) (t, s, c) = map_option (\<lambda>(t', s'). (t', s', c)) (insert_text t w s)"
| "press Backspace (t, s, c) = map_option (\<lambda>(t', s'). (t', s', c)) (backspace t s)"
| "press DeleteForward (t, s, c) = map_option (\<lambda>(t', s'). (t', s', c)) (delete_forward t s)"
| "press Copy (t, s, c) = map_option (\<lambda>v. (t, s, if v = None then c else v)) (copy t s)"
| "press Cut (t, s, c) = map_option (\<lambda>(v, t', s'). (t', s', if v = None then c else v)) (cut t s)"

fun clip :: "key \<Rightarrow> zipper \<Rightarrow> utext option \<Rightarrow> utext option" where
  "clip Copy z c = (if z_selected z \<noteq> [] then Some (z_selected z) else c)"
| "clip Cut z c = (if z_selected z \<noteq> [] then Some (z_selected z) else c)"
| "clip _ z c = c"

definition zip_of :: "utext \<Rightarrow> text_edit_state \<Rightarrow> zipper" where
  "zip_of t s = (let a = min (te_anchor s) (length t); f = min (te_focus s) (length t) in
     if f < a then \<lparr>z_before = take f t, z_selected = drop f (take a t), z_after = drop a t, z_left = True\<rparr>
     else \<lparr>z_before = take a t, z_selected = drop a (take f t), z_after = drop f t, z_left = False\<rparr>)"

section \<open>Refinement\<close>

lemma char_to_byte_index_eq: "char_to_byte_index t i = byte_len (take i t)"
proof (cases "i < length t")
  case True
  from char_indices_drop [OF this, of 0] show ?thesis by (auto simp: char_to_byte_index_def)
qed (simp add: char_to_byte_index_def)

lemma slice_chars_eq: "i \<le> j \<Longrightarrow> slice_chars t i j = Some (drop i (take j t))"
  by (simp add: slice_chars_def char_to_byte_index_eq slice_range_chars)

lemma replace_char_range_eq: "i \<le> j \<Longrightarrow> replace_char_range t i j r = Some (take i t @ r @ drop j t)"
  by (simp add: replace_char_range_def char_to_byte_index_eq replace_range_chars)

text \<open>A field in its parts: the caret at the right or at the left end of the selection.\<close>

definition at_right :: "utext \<Rightarrow> utext \<Rightarrow> text_edit_state" where
  "at_right l m = \<lparr>te_anchor = length l, te_focus = length l + length m\<rparr>"

definition at_left :: "utext \<Rightarrow> utext \<Rightarrow> text_edit_state" where
  "at_left l m = \<lparr>te_anchor = length l + length m, te_focus = length l\<rparr>"

lemma sync_sync [simp]: "sync t (sync t s) = sync t s"
  by (simp add: sync_def)

lemma sync_parts [simp]:
  "sync (l @ m @ r) (at_right l m) = at_right l m" "sync (l @ m @ r) (at_left l m) = at_left l m"
  by (simp_all add: sync_def at_right_def at_left_def)

lemma zip_sync [simp]: "zip_of t (sync t s) = zip_of t s"
  by (simp add: zip_of_def sync_def)

lemma zip_parts:
  "zip_of (l @ m @ r) (at_right l m) = rightward l m r"
  "zip_of (l @ m @ r) (at_left l m) = leftward l m r"
  "zip_of (l @ r) (caret_at (length l)) = caret l r"
  by (auto simp: zip_of_def at_right_def at_left_def rightward_def leftward_def caret_def caret_at_def Let_def)

lemma field_parts:
  obtains (right) l m r where "t = l @ m @ r" "sync t s = at_right l m"
  | (left) l m r where "t = l @ m @ r" "sync t s = at_left l m" "m \<noteq> []"
proof -
  let ?a = "min (te_anchor s) (length t)" and ?f = "min (te_focus s) (length t)"
  have split: "t = take i t @ drop i (take j t) @ drop j t" if "i \<le> j" for i j
    using that by (metis append_take_drop_id append.assoc min.absorb1 take_take)
  show thesis
  proof (cases "?f < ?a")
    case True
    then show thesis
      by (intro left [of "take ?f t" "drop ?f (take ?a t)" "drop ?a t"] split)
        (auto simp: sync_def at_left_def)
  next
    case False
    then show thesis
      by (intro right [of "take ?a t" "drop ?a (take ?f t)" "drop ?f t"] split)
        (auto simp: sync_def at_right_def)
  qed
qed

lemma selection_parts [simp]:
  "has_selection (at_right l m) \<longleftrightarrow> m \<noteq> []" "has_selection (at_left l m) \<longleftrightarrow> m \<noteq> []"
  "selection_range (at_right l m) = (length l, length l + length m)"
  "selection_range (at_left l m) = (length l, length l + length m)"
  by (auto simp: has_selection_def selection_range_def at_right_def at_left_def)

lemma replace_parts:
  "sync t s = at_right l m \<or> sync t s = at_left l m \<Longrightarrow> t = l @ m @ r \<Longrightarrow>
   replace_selection t w s = Some (l @ w @ r, caret_at (length l + length w))"
  by (auto simp: replace_selection_def replace_char_range_eq)

lemma zip_caret_after: "zip_of (l @ w @ r) (caret_at (length l + length w)) = caret (l @ w) r"
  using zip_parts(3) [of "l @ w" r] by simp

lemmas part_defs = rightward_def leftward_def caret_def

text \<open>The position of every field, by its parts.\<close>

lemma zip_cases:
  obtains (right) l m r where "t = l @ m @ r" "sync t s = at_right l m" "zip_of t s = rightward l m r"
  | (left) l m r where "t = l @ m @ r" "sync t s = at_left l m" "m \<noteq> []" "zip_of t s = leftward l m r"
proof (rule field_parts [of t s])
  fix l m r
  assume t: "t = l @ m @ r" and s: "sync t s = at_right l m"
  have "zip_of t s = zip_of t (at_right l m)" using zip_sync [of t s] s by simp
  also have "\<dots> = rightward l m r" unfolding t by (rule zip_parts(1))
  finally show thesis by (rule right [OF t s])
next
  fix l m r
  assume t: "t = l @ m @ r" and s: "sync t s = at_left l m" and m: "m \<noteq> []"
  have "zip_of t s = zip_of t (at_left l m)" using zip_sync [of t s] s by simp
  also have "\<dots> = leftward l m r" unfolding t by (rule zip_parts(2))
  finally show thesis by (rule left [OF t s m])
qed

text \<open>Where a field stands after its indices are set.\<close>

lemma zip_caret_at: "t = l @ r \<Longrightarrow> i = length l \<Longrightarrow> zip_of t (caret_at i) = caret l r"
  by (simp only: zip_parts(3))

lemma zip_right_at:
  "t = l @ m @ r \<Longrightarrow> a = length l \<Longrightarrow> f = length l + length m \<Longrightarrow>
   zip_of t \<lparr>te_anchor = a, te_focus = f\<rparr> = rightward l m r"
  by (simp only: zip_parts(1) [unfolded at_right_def])

lemma zip_left_at:
  "t = l @ m @ r \<Longrightarrow> f = length l \<Longrightarrow> a = length l + length m \<Longrightarrow>
   zip_of t \<lparr>te_anchor = a, te_focus = f\<rparr> = leftward l m r"
  by (simp only: zip_parts(2) [unfolded at_left_def])

lemma rightward_nil: "rightward l [] r = caret l r" "leftward l [] r = caret l r"
  by (simp_all add: part_defs)

lemma move_left_refines: "zip_of t (move_left t x s) = edit (KeyLeft x) (zip_of t s)"
proof (cases rule: zip_cases [of t s])
  case (right l m r)
  show ?thesis
  proof (cases x)
    case False
    show ?thesis
    proof (cases "m = []")
      case True
      have "zip_of t (caret_at (length l - 1)) = caret (butlast l) (drop (length l - 1) l @ r)"
        by (rule zip_caret_at) (use True right(1) in \<open>simp_all add: butlast_conv_take\<close>)
      with True right False show ?thesis by (simp add: move_left_def at_right_def part_defs has_selection_def Let_def)
    next
      case m: False
      have "zip_of t (caret_at (length l)) = caret l (m @ r)" by (rule zip_caret_at) (use right(1) in simp_all)
      with m right False show ?thesis by (simp add: move_left_def part_defs)
    qed
  next
    case True
    show ?thesis
    proof (cases "m = []")
      case m: True
      have "zip_of t \<lparr>te_anchor = length l, te_focus = length l - 1\<rparr> = leftward (butlast l) (drop (length l - 1) l) r"
        by (rule zip_left_at) (use m right(1) in \<open>auto simp: butlast_conv_take\<close>)
      with m right True show ?thesis by (simp add: move_left_def at_right_def part_defs)
    next
      case m: False
      have "zip_of t \<lparr>te_anchor = length l, te_focus = length l + length m - 1\<rparr> = rightward l (butlast m) (last m # r)"
        by (rule zip_right_at) (use m right(1) in \<open>auto simp: Suc_leI\<close>)
      with m right True show ?thesis by (simp add: move_left_def at_right_def part_defs)
    qed
  qed
next
  case (left l m r)
  show ?thesis
  proof (cases x)
    case False
    have "zip_of t (caret_at (length l)) = caret l (m @ r)" by (rule zip_caret_at) (use left(1) in simp_all)
    with left False show ?thesis by (simp add: move_left_def part_defs)
  next
    case True
    have "zip_of t \<lparr>te_anchor = length l + length m, te_focus = length l - 1\<rparr> =
        leftward (butlast l) (drop (length l - 1) l @ m) r"
      by (rule zip_left_at) (use left(1) in \<open>auto simp: butlast_conv_take\<close>)
    with left True show ?thesis by (simp add: move_left_def at_left_def part_defs)
  qed
qed

lemma move_right_refines: "zip_of t (move_right t x s) = edit (KeyRight x) (zip_of t s)"
proof (cases rule: zip_cases [of t s])
  case (right l m r)
  show ?thesis
  proof (cases "x \<or> m = []")
    case True
    have "zip_of t \<lparr>te_anchor = length l, te_focus = min (length l + length m + 1) (length t)\<rparr> =
        rightward l (m @ take 1 r) (drop 1 r)"
      by (rule zip_right_at) (use right(1) in \<open>cases r; simp\<close>)+
    moreover have "zip_of t (caret_at (min (length l + 1) (length t))) = caret (l @ take 1 r) (drop 1 r)" if "m = []"
      by (rule zip_caret_at) (use right(1) that in \<open>cases r; simp\<close>)+
    ultimately show ?thesis using True right
      by (cases x) (simp_all add: move_right_def at_right_def part_defs has_selection_def Let_def)
  next
    case False
    have "zip_of t (caret_at (length l + length m)) = caret (l @ m) r"
      by (rule zip_caret_at) (use right(1) in simp_all)
    with False right show ?thesis by (simp add: move_right_def part_defs)
  qed
next
  case (left l m r)
  show ?thesis
  proof (cases x)
    case False
    have "zip_of t (caret_at (length l + length m)) = caret (l @ m) r"
      by (rule zip_caret_at) (use left(1) in simp_all)
    with left False show ?thesis by (simp add: move_right_def part_defs)
  next
    case True
    have "zip_of t \<lparr>te_anchor = length l + length m, te_focus = min (length l + 1) (length t)\<rparr> =
        leftward (l @ take 1 m) (drop 1 m) r"
      by (rule zip_left_at) (use left(1,3) in \<open>cases m; simp\<close>)+
    with left True show ?thesis by (simp add: move_right_def at_left_def part_defs has_selection_def Let_def)
  qed
qed

lemma move_home_sync: "zip_of t (move_home x s) = zip_of t (move_home x (sync t s))"
  by (simp add: move_home_def zip_of_def sync_def Let_def)

lemma move_home_refines: "zip_of t (move_home x s) = edit (KeyHome x) (zip_of t s)"
proof (cases x)
  case False
  have "zip_of t (caret_at 0) = caret [] t" by (rule zip_caret_at) simp_all
  with False show ?thesis
    by (cases rule: zip_cases [of t s]) (simp_all add: move_home_def part_defs)
next
  case True
  show ?thesis
  proof (cases rule: zip_cases [of t s])
    case (right l m r)
    have "zip_of t \<lparr>te_anchor = length l, te_focus = 0\<rparr> = leftward [] l (m @ r)"
      by (rule zip_left_at) (use right(1) in simp_all)
    with True right move_home_sync [of t x s] show ?thesis by (simp add: move_home_def at_right_def part_defs)
  next
    case (left l m r)
    have "zip_of t \<lparr>te_anchor = length l + length m, te_focus = 0\<rparr> = leftward [] (l @ m) r"
      by (rule zip_left_at) (use left(1) in simp_all)
    with True left move_home_sync [of t x s] show ?thesis by (simp add: move_home_def at_left_def part_defs)
  qed
qed

lemma move_end_sync: "zip_of t (move_end t x s) = zip_of t (move_end t x (sync t s))"
  by (simp add: move_end_def zip_of_def sync_def Let_def)

lemma move_end_refines: "zip_of t (move_end t x s) = edit (KeyEnd x) (zip_of t s)"
proof (cases x)
  case False
  have "zip_of t (caret_at (length t)) = caret t []" by (rule zip_caret_at) simp_all
  with False show ?thesis
    by (cases rule: zip_cases [of t s]) (simp_all add: move_end_def part_defs)
next
  case True
  show ?thesis
  proof (cases rule: zip_cases [of t s])
    case (right l m r)
    have "zip_of t \<lparr>te_anchor = length l, te_focus = length t\<rparr> = rightward l (m @ r) []"
      by (rule zip_right_at) (use right(1) in simp_all)
    with True right move_end_sync [of t x s] show ?thesis by (simp add: move_end_def at_right_def part_defs)
  next
    case (left l m r)
    have "zip_of t \<lparr>te_anchor = length l + length m, te_focus = length t\<rparr> = rightward (l @ m) r []"
      by (rule zip_right_at) (use left(1) in simp_all)
    with True left move_end_sync [of t x s] show ?thesis by (simp add: move_end_def at_left_def part_defs)
  qed
qed

lemma select_all_refines: "zip_of t (select_all t s) = edit SelectAll (zip_of t s)"
proof -
  have "zip_of t \<lparr>te_anchor = 0, te_focus = length t\<rparr> = rightward [] t []" by (rule zip_right_at) simp_all
  then show ?thesis by (cases rule: zip_cases [of t s]) (simp_all add: select_all_def part_defs)
qed

text \<open>Changes of the text.\<close>

lemma replace_refines:
  "\<exists>t' s'. replace_selection t w s = Some (t', s') \<and> zip_of t' s' = caret (z_before (zip_of t s) @ w) (z_after (zip_of t s))"
proof -
  obtain l m r where t: "t = l @ m @ r" "sync t s = at_right l m \<or> sync t s = at_left l m"
      "z_before (zip_of t s) = l" "z_after (zip_of t s) = r"
    by (cases rule: zip_cases [of t s]) (auto simp: part_defs)
  from replace_parts [OF t(2,1)] zip_caret_after t(3,4) show ?thesis by simp
qed

lemma has_selection_sync: "has_selection (sync t s) \<longleftrightarrow> z_selected (zip_of t s) \<noteq> []"
  by (cases rule: zip_cases [of t s]) (simp_all add: part_defs)

lemma replace_sync: "replace_selection t w (sync t s) = replace_selection t w s"
  by (simp add: replace_selection_def)

lemma caret_parts:
  assumes "z_selected (zip_of t s) = []"
  obtains l r where "t = l @ r" "sync t s = caret_at (length l)" "zip_of t s = caret l r"
  using assms
  by (cases rule: zip_cases [of t s]) (auto simp: part_defs at_right_def caret_at_def)

lemma backspace_refines:
  "\<exists>t' s'. backspace t s = Some (t', s') \<and> zip_of t' s' = edit Backspace (zip_of t s)"
proof (cases "z_selected (zip_of t s) = []")
  case False
  with replace_refines [of t "[]" s] show ?thesis by (simp add: backspace_def has_selection_sync replace_sync)
next
  case True
  then obtain l r where lr: "t = l @ r" "sync t s = caret_at (length l)" "zip_of t s = caret l r"
    by (rule caret_parts)
  show ?thesis
  proof (cases "l = []")
    case l: True
    have "zip_of t (caret_at 0) = caret [] r" by (rule zip_caret_at) (use l lr(1) in simp_all)
    with l lr True show ?thesis by (simp add: backspace_def caret_at_def caret_def has_selection_def Let_def)
  next
    case l: False
    have "replace_char_range t (length l - 1) (length l) [] = Some (butlast l @ r)"
      using lr(1) by (simp add: replace_char_range_eq butlast_conv_take)
    moreover have "zip_of (butlast l @ r) (caret_at (length l - 1)) = caret (butlast l) r"
      by (rule zip_caret_at) simp_all
    ultimately show ?thesis using l lr by (simp add: backspace_def caret_at_def caret_def has_selection_def Let_def)
  qed
qed

lemma delete_forward_refines:
  "\<exists>t' s'. delete_forward t s = Some (t', s') \<and> zip_of t' s' = edit DeleteForward (zip_of t s)"
proof (cases "z_selected (zip_of t s) = []")
  case False
  with replace_refines [of t "[]" s] show ?thesis by (simp add: delete_forward_def has_selection_sync replace_sync)
next
  case True
  then obtain l r where lr: "t = l @ r" "sync t s = caret_at (length l)" "zip_of t s = caret l r"
    by (rule caret_parts)
  show ?thesis
  proof (cases "r = []")
    case r: True
    have "zip_of t (caret_at (length l)) = caret l []" by (rule zip_caret_at) (use r lr(1) in simp_all)
    with r lr True show ?thesis by (simp add: delete_forward_def caret_at_def caret_def has_selection_def Let_def)
  next
    case r: False
    have "replace_char_range t (length l) (length l + 1) [] = Some (l @ drop 1 r)"
      using lr(1) by (simp add: replace_char_range_eq)
    moreover have "zip_of (l @ drop 1 r) (caret_at (length l)) = caret l (drop 1 r)"
      by (rule zip_caret_at) simp_all
    ultimately show ?thesis using r lr by (simp add: delete_forward_def caret_at_def caret_def has_selection_def Let_def)
  qed
qed

lemma copy_eq:
  "copy t s = Some (if z_selected (zip_of t s) = [] then None else Some (z_selected (zip_of t s)))"
proof -
  obtain a b where ab: "selection_range s = (a, b)" by fastforce
  have le: "a \<le> b" using ab by (auto simp: selection_range_def split: if_splits)
  have sel: "z_selected (zip_of t s) = drop a (take b t)"
  proof (cases "a \<le> length t")
    case True
    with ab le show ?thesis by (auto simp: zip_of_def selection_range_def Let_def min_def split: if_splits)
  next
    case False
    with ab le show ?thesis by (auto simp: zip_of_def selection_range_def Let_def min_def split: if_splits)
  qed
  show ?thesis
  proof (cases "has_selection s")
    case True
    then show ?thesis using ab le sel by (simp add: copy_def slice_chars_eq)
  next
    case False
    then have "a = b" using ab by (auto simp: has_selection_def selection_range_def split: if_splits)
    with False sel show ?thesis by (simp add: copy_def)
  qed
qed

lemma cut_refines:
  "\<exists>t' s'. cut t s = Some (if z_selected (zip_of t s) = [] then None else Some (z_selected (zip_of t s)), t', s')
     \<and> zip_of t' s' = edit Cut (zip_of t s)"
  using replace_refines [of t "[]" s] by (auto simp: cut_def copy_eq)

lemma press_refines:
  "\<exists>t' s'. press k (t, s, c) = Some (t', s', clip k (zip_of t s) c) \<and> zip_of t' s' = edit k (zip_of t s)"
proof (cases k)
  case (Typed w)
  with replace_refines [of t w s] show ?thesis by (auto simp: insert_text_def)
next
  case Backspace
  with backspace_refines [of t s] show ?thesis by auto
next
  case DeleteForward
  with delete_forward_refines [of t s] show ?thesis by auto
next
  case Copy
  then show ?thesis by (simp add: copy_eq)
next
  case Cut
  with cut_refines [of t s] show ?thesis by fastforce
qed (simp_all add: move_left_refines move_right_refines move_home_refines move_end_refines select_all_refines
    del: edit.simps)

lemma display_refines:
  "display_fragments t s = Some (let z = zip_of t s in
     \<lparr>tf_prefix = z_before z, tf_selected = (if z_selected z = [] then None else Some (z_selected z)),
      tf_suffix = z_after z, tf_caret_visible = (z_selected z = [])\<rparr>)"
  by (auto simp: display_fragments_def clamped_range_def selection_range_def zip_of_def slice_chars_eq Let_def min_def)

lemma text_of_zip: "z_before (zip_of t s) @ z_selected (zip_of t s) @ z_after (zip_of t s) = t"
  by (cases rule: zip_cases [of t s]) (simp_all add: part_defs)

definition edit_clip :: "key \<Rightarrow> zipper \<times> utext option \<Rightarrow> zipper \<times> utext option" where
  "edit_clip k zc = (edit k (fst zc), clip k (fst zc) (snd zc))"

interpretation field: simulation "\<lambda>k f. Option.bind f (press k)" edit_clip "\<lambda>_. True"
    "\<lambda>f zc. \<exists>t s. f = Some (t, s, snd zc) \<and> zip_of t s = fst zc"
proof unfold_locales
  fix f :: "field option" and zc k
  assume "\<exists>t s. f = Some (t, s, snd zc) \<and> zip_of t s = fst zc"
  then obtain t s where "f = Some (t, s, snd zc)" "zip_of t s = fst zc" by blast
  with press_refines [of k t s "snd zc"]
  show "\<exists>t s. Option.bind f (press k) = Some (t, s, snd (edit_clip k zc)) \<and> zip_of t s = fst (edit_clip k zc)"
    by (auto simp: edit_clip_def)
qed

text \<open>C23. A text field is an editor: whatever its text and its indices are, even indices past the
  end of a text that was replaced, and whatever keys are pressed, no key panics (no string is cut
  inside a character), the text, the selection and the clipboard are those of the editor on the
  three parts of the text, and what the field shows are exactly these parts, with a caret when
  nothing is selected.\<close>

theorem text_field_refines_editor:
  "\<exists>t' s' c' z. fold (\<lambda>k f. Option.bind f (press k)) ks (Some (t, s, c)) = Some (t', s', c')
     \<and> fold edit_clip ks (zip_of t s, c) = (z, c')
     \<and> t' = z_before z @ z_selected z @ z_after z
     \<and> display_fragments t' s' = Some
         \<lparr>tf_prefix = z_before z, tf_selected = (if z_selected z = [] then None else Some (z_selected z)),
          tf_suffix = z_after z, tf_caret_visible = (z_selected z = [])\<rparr>"
proof -
  obtain z c' where zc: "fold edit_clip ks (zip_of t s, c) = (z, c')" by fastforce
  from field.rel_run [of "Some (t, s, c)" "(zip_of t s, c)" ks]
  obtain t' s' where f: "fold (\<lambda>k f. Option.bind f (press k)) ks (Some (t, s, c)) = Some (t', s', c')" "zip_of t' s' = z"
    by (auto simp: list_all_iff zc)
  with zc text_of_zip [of t' s'] display_refines [of t' s'] show ?thesis by (auto simp: Let_def)
qed

end
