(* ===== verification/Ssh_Tunnels.thy ===== *)
theory Ssh_Tunnels
  imports Core_Tunnels Rust_Maps Machines
begin

text \<open>
  The runtime of port forwards (seance-ssh: tunnel.rs, and the port forward methods of manager.rs): the
  registry of snapshots and handles, and the tasks that run the forwards. A handle owns the sender
  of a task's stop channel; a task whose sender was used or dropped is told to stop. The methods of
  the registry are atomic, each under its mutex; a task runs its own calls one after the other, and
  the calls of different tasks and of the user interface interleave in any way. What the network
  does is free: when a task gets its connection, with which port, and with which result it ends are
  arguments of the events.
\<close>

section \<open>Data\<close>

datatype ssh_error =
    MissingAuthMethods
  | AuthenticationRejected
  | InvalidPrivateKeyConfig string
  | Transport string
  | TimedOut
  | Cancelled
  | SftpBootstrap string
  | SftpNotConnected
  | SftpOperation string
  | PortForwardAlreadyRunning string
  | PortForwardBind string
  | PortForwardTargetConnect string
  | PortForwardChannel string

datatype port_forward_status = Starting | Running | Failed

record port_forward_runtime_snapshot =
  rs_id :: string
  rs_vault_id :: string
  rs_forward_id :: string
  rs_host_id :: string
  rs_label :: string
  rs_host_label :: string
  rs_mode :: ssh_port_forward_mode
  rs_status :: port_forward_status
  rs_listen_address :: string
  rs_listen_port :: u16
  rs_target_address :: string
  rs_target_port :: u16
  rs_opened_at :: "i64 option"
  rs_active_connections :: nat
  rs_bytes_in :: u64
  rs_bytes_out :: u64
  rs_last_error :: "string option"

text \<open>A task of the runtime, by its number: the request it serves, whether its stop channel has
  fired, and how far it is. \<open>Connecting\<close> and \<open>Forwarding\<close> are inside \<open>run_port_forward\<close>, where only
  the loop of \<open>Forwarding\<close> polls the stop channel; then the task removes its handle and reports.\<close>

datatype task_phase =
    Connecting
  | Forwarding
  | Returned "ssh_error + unit"
  | HandleRemoved "ssh_error + unit"
  | Ended

record tunnel_task =
  tk_request :: ssh_port_forward_request
  tk_told_to_stop :: bool
  tk_phase :: task_phase

text \<open>A subscriber is connected or not, and has the messages sent to it, newest first.\<close>

type_synonym subscriber = "bool \<times> port_forward_runtime_snapshot list list"

record tunnel_registry =
  tn_snapshots :: "(string, port_forward_runtime_snapshot) hashmap"
  tn_handles :: "(string, nat) hashmap"
  tn_subscribers :: "subscriber list"
  tn_tasks :: "tunnel_task list"

definition new_tunnel_registry :: tunnel_registry where
  "new_tunnel_registry = \<lparr>tn_snapshots = [], tn_handles = [], tn_subscribers = [], tn_tasks = []\<rparr>"

section \<open>The registry\<close>

definition list_tunnels :: "(string \<Rightarrow> string) \<Rightarrow> tunnel_registry \<Rightarrow> port_forward_runtime_snapshot list" where
  "list_tunnels lower r = sort_key (\<lambda>s. lower (rs_label s)) (map snd (tn_snapshots r))"

definition subscribe_tunnels :: "(string \<Rightarrow> string) \<Rightarrow> tunnel_registry \<Rightarrow> tunnel_registry" where
  "subscribe_tunnels lower r = r\<lparr>tn_subscribers := tn_subscribers r @ [(True, [list_tunnels lower r])]\<rparr>"

definition broadcast :: "(string \<Rightarrow> string) \<Rightarrow> tunnel_registry \<Rightarrow> tunnel_registry" where
  "broadcast lower r = r\<lparr>tn_subscribers :=
     map (\<lambda>(c, ms). (c, list_tunnels lower r # ms)) (filter fst (tn_subscribers r))\<rparr>"

definition update_tunnel ::
  "(string \<Rightarrow> string) \<Rightarrow> string \<Rightarrow> (port_forward_runtime_snapshot \<Rightarrow> port_forward_runtime_snapshot)
     \<Rightarrow> tunnel_registry \<Rightarrow> tunnel_registry" where
  "update_tunnel lower i f r = broadcast lower (r\<lparr>tn_snapshots := hm_adjust i f (tn_snapshots r)\<rparr>)"

definition has_active_handle :: "string \<Rightarrow> tunnel_registry \<Rightarrow> bool" where
  "has_active_handle i r \<longleftrightarrow> hm_get (tn_handles r) i \<noteq> None"

definition insert_handle :: "string \<Rightarrow> nat \<Rightarrow> tunnel_registry \<Rightarrow> (ssh_error + unit) \<times> tunnel_registry" where
  "insert_handle i n r =
     (if hm_get (tn_handles r) i \<noteq> None then (Inl (PortForwardAlreadyRunning i), r)
      else (Inr (), r\<lparr>tn_handles := hm_insert i n (tn_handles r)\<rparr>))"

text \<open>The stop channel of a task fires when its sender is used, and also when it is dropped.\<close>

definition fire :: "nat \<Rightarrow> tunnel_registry \<Rightarrow> tunnel_registry" where
  "fire n r = r\<lparr>tn_tasks := (tn_tasks r)[n := (tn_tasks r ! n)\<lparr>tk_told_to_stop := True\<rparr>]\<rparr>"

text \<open>The receiver lives as long as \<open>run_port_forward\<close>.\<close>

definition listens :: "tunnel_task \<Rightarrow> bool" where
  "listens k \<longleftrightarrow> tk_phase k = Connecting \<or> tk_phase k = Forwarding"

definition abort_handle :: "nat \<Rightarrow> tunnel_registry \<Rightarrow> bool \<times> tunnel_registry" where
  "abort_handle n r = (listens (tn_tasks r ! n), fire n r)"

definition remove_handle :: "string \<Rightarrow> tunnel_registry \<Rightarrow> tunnel_registry" where
  "remove_handle i r =
     (case hm_get (tn_handles r) i of
        None \<Rightarrow> r
      | Some n \<Rightarrow> fire n (r\<lparr>tn_handles := hm_remove i (tn_handles r)\<rparr>))"

definition stop_tunnel :: "(string \<Rightarrow> string) \<Rightarrow> string \<Rightarrow> tunnel_registry \<Rightarrow> bool \<times> tunnel_registry" where
  "stop_tunnel lower i r =
     (case hm_get (tn_handles r) i of
        Some n \<Rightarrow> abort_handle n (r\<lparr>tn_handles := hm_remove i (tn_handles r)\<rparr>)
      | None \<Rightarrow>
          let removed = hm_get (tn_snapshots r) i \<noteq> None;
              r' = r\<lparr>tn_snapshots := hm_remove i (tn_snapshots r)\<rparr> in
          (removed, if removed then broadcast lower r' else r'))"

definition starting_snapshot :: "ssh_port_forward_request \<Rightarrow> port_forward_runtime_snapshot" where
  "starting_snapshot q =
     \<lparr>rs_id = fq_id q, rs_vault_id = fq_vault_id q, rs_forward_id = fq_forward_id q,
      rs_host_id = fq_host_id q, rs_label = fq_label q, rs_host_label = fq_host_label q,
      rs_mode = fq_mode q, rs_status = Starting, rs_listen_address = fq_listen_address q,
      rs_listen_port = fq_listen_port q, rs_target_address = fq_target_address q,
      rs_target_port = fq_target_port q, rs_opened_at = None, rs_active_connections = 0,
      rs_bytes_in = 0, rs_bytes_out = 0, rs_last_error = None\<rparr>"

definition upsert_starting ::
  "(string \<Rightarrow> string) \<Rightarrow> ssh_port_forward_request \<Rightarrow> tunnel_registry \<Rightarrow> port_forward_runtime_snapshot \<times> tunnel_registry" where
  "upsert_starting lower q r =
     (let s = starting_snapshot q in
      (s, broadcast lower (r\<lparr>tn_snapshots := hm_insert (fq_id q) s (tn_snapshots r)\<rparr>)))"

definition mark_running :: "(string \<Rightarrow> string) \<Rightarrow> string \<Rightarrow> u16 \<Rightarrow> i64 \<Rightarrow> tunnel_registry \<Rightarrow> tunnel_registry" where
  "mark_running lower i port now = update_tunnel lower i (\<lambda>s.
     s\<lparr>rs_status := Running, rs_listen_port := port, rs_opened_at := Some now, rs_last_error := None\<rparr>)"

definition mark_failed :: "(string \<Rightarrow> string) \<Rightarrow> string \<Rightarrow> string \<Rightarrow> tunnel_registry \<Rightarrow> tunnel_registry" where
  "mark_failed lower i e = update_tunnel lower i (\<lambda>s.
     s\<lparr>rs_status := Failed, rs_last_error := Some e, rs_active_connections := 0\<rparr>)"

definition note_error :: "(string \<Rightarrow> string) \<Rightarrow> string \<Rightarrow> string \<Rightarrow> tunnel_registry \<Rightarrow> tunnel_registry" where
  "note_error lower i e = update_tunnel lower i (\<lambda>s. s\<lparr>rs_last_error := Some e\<rparr>)"

definition remove_snapshot :: "(string \<Rightarrow> string) \<Rightarrow> string \<Rightarrow> tunnel_registry \<Rightarrow> tunnel_registry" where
  "remove_snapshot lower i r = broadcast lower (r\<lparr>tn_snapshots := hm_remove i (tn_snapshots r)\<rparr>)"

definition connection_opened :: "(string \<Rightarrow> string) \<Rightarrow> string \<Rightarrow> tunnel_registry \<Rightarrow> tunnel_registry" where
  "connection_opened lower i = update_tunnel lower i (\<lambda>s. s\<lparr>rs_active_connections := rs_active_connections s + 1\<rparr>)"

definition connection_closed :: "(string \<Rightarrow> string) \<Rightarrow> string \<Rightarrow> tunnel_registry \<Rightarrow> tunnel_registry" where
  "connection_closed lower i = update_tunnel lower i (\<lambda>s. s\<lparr>rs_active_connections := rs_active_connections s - 1\<rparr>)"

definition sat_add :: "u64 \<Rightarrow> u64 \<Rightarrow> u64" where
  "sat_add a b = (if a + b < a then - 1 else a + b)"

definition record_bytes_in :: "(string \<Rightarrow> string) \<Rightarrow> string \<Rightarrow> u64 \<Rightarrow> tunnel_registry \<Rightarrow> tunnel_registry" where
  "record_bytes_in lower i n = update_tunnel lower i (\<lambda>s. s\<lparr>rs_bytes_in := sat_add (rs_bytes_in s) n\<rparr>)"

definition record_bytes_out :: "(string \<Rightarrow> string) \<Rightarrow> string \<Rightarrow> u64 \<Rightarrow> tunnel_registry \<Rightarrow> tunnel_registry" where
  "record_bytes_out lower i n = update_tunnel lower i (\<lambda>s. s\<lparr>rs_bytes_out := sat_add (rs_bytes_out s) n\<rparr>)"

section \<open>The manager and its tasks\<close>

definition spawn_task :: "ssh_port_forward_request \<Rightarrow> tunnel_registry \<Rightarrow> tunnel_registry" where
  "spawn_task q r = r\<lparr>tn_tasks := tn_tasks r @ [\<lparr>tk_request = q, tk_told_to_stop = False, tk_phase = Connecting\<rparr>]\<rparr>"

text \<open>The manager checks for a running tunnel, records the new one and spawns its task under separate locks;
  its callers hold the controller's lock throughout, so that a start is one step here.\<close>

definition start_port_forward ::
  "(string \<Rightarrow> string) \<Rightarrow> ssh_port_forward_request \<Rightarrow> tunnel_registry
     \<Rightarrow> (ssh_error + port_forward_runtime_snapshot) \<times> tunnel_registry" where
  "start_port_forward lower q r =
     (if fq_auth_order q = [] then (Inl MissingAuthMethods, r)
      else if has_active_handle (fq_id q) r then (Inl (PortForwardAlreadyRunning (fq_id q)), r)
      else let (snapshot, r1) = upsert_starting lower q r;
               (inserted, r2) = insert_handle (fq_id q) (length (tn_tasks r1)) r1 in
        case inserted of
          Inl e \<Rightarrow> (Inl e, r2)
        | Inr _ \<Rightarrow> (Inr snapshot, spawn_task q r2))"

definition set_phase :: "nat \<Rightarrow> task_phase \<Rightarrow> tunnel_registry \<Rightarrow> tunnel_registry" where
  "set_phase n p r = r\<lparr>tn_tasks := (tn_tasks r)[n := (tn_tasks r ! n)\<lparr>tk_phase := p\<rparr>]\<rparr>"

abbreviation task_id :: "nat \<Rightarrow> tunnel_registry \<Rightarrow> string" where
  "task_id n r \<equiv> fq_id (tk_request (tn_tasks r ! n))"

text \<open>The last call of a task. \<open>show\<close> is the text of an error.\<close>

definition report_result ::
  "(string \<Rightarrow> string) \<Rightarrow> (ssh_error \<Rightarrow> string) \<Rightarrow> string \<Rightarrow> ssh_error + unit \<Rightarrow> tunnel_registry \<Rightarrow> tunnel_registry" where
  "report_result lower show_error i result r =
     (case result of
        Inr _ \<Rightarrow> remove_snapshot lower i r
      | Inl e \<Rightarrow> if e = Cancelled then remove_snapshot lower i r else mark_failed lower i (show_error e) r)"

datatype tunnel_event =
    Start ssh_port_forward_request
  | Stop string
  | Subscribe
  | Unsubscribe nat
  | Connected nat u16 i64
  | Finishes nat "ssh_error + unit"
  | RemovesHandle nat
  | Reports nat
  | ConnectionOpened string
  | ConnectionClosed string
  | BytesIn string u64
  | BytesOut string u64
  | Noted string string

text \<open>When an event of a task can happen: a task ends with success only when it is told to stop.\<close>

fun enabled :: "tunnel_registry \<Rightarrow> tunnel_event \<Rightarrow> bool" where
  "enabled r (Connected n port now) \<longleftrightarrow> n < length (tn_tasks r) \<and> tk_phase (tn_tasks r ! n) = Connecting"
| "enabled r (Finishes n result) \<longleftrightarrow> n < length (tn_tasks r) \<and>
     (case result of Inr _ \<Rightarrow> tk_phase (tn_tasks r ! n) = Forwarding \<and> tk_told_to_stop (tn_tasks r ! n)
                   | Inl _ \<Rightarrow> listens (tn_tasks r ! n))"
| "enabled r (RemovesHandle n) \<longleftrightarrow> n < length (tn_tasks r) \<and> (\<exists>x. tk_phase (tn_tasks r ! n) = Returned x)"
| "enabled r (Reports n) \<longleftrightarrow> n < length (tn_tasks r) \<and> (\<exists>x. tk_phase (tn_tasks r ! n) = HandleRemoved x)"
| "enabled r _ \<longleftrightarrow> True"

fun tunnel_step :: "(string \<Rightarrow> string) \<Rightarrow> (ssh_error \<Rightarrow> string) \<Rightarrow> tunnel_event \<Rightarrow> tunnel_registry \<Rightarrow> tunnel_registry" where
  "tunnel_step lower sh (Start q) r = snd (start_port_forward lower q r)"
| "tunnel_step lower sh (Stop i) r = snd (stop_tunnel lower i r)"
| "tunnel_step lower sh Subscribe r = subscribe_tunnels lower r"
| "tunnel_step lower sh (Unsubscribe k) r = r\<lparr>tn_subscribers :=
     map (\<lambda>(j, (c, ms)). (c \<and> j \<noteq> k, ms)) (enumerate 0 (tn_subscribers r))\<rparr>"
| "tunnel_step lower sh (Connected n port now) r =
     set_phase n Forwarding (mark_running lower (task_id n r) port now r)"
| "tunnel_step lower sh (Finishes n result) r = set_phase n (Returned result) r"
| "tunnel_step lower sh (RemovesHandle n) r =
     (case tk_phase (tn_tasks r ! n) of
        Returned x \<Rightarrow> set_phase n (HandleRemoved x) (remove_handle (task_id n r) r) | _ \<Rightarrow> r)"
| "tunnel_step lower sh (Reports n) r =
     (case tk_phase (tn_tasks r ! n) of
        HandleRemoved x \<Rightarrow> set_phase n Ended (report_result lower sh (task_id n r) x r) | _ \<Rightarrow> r)"
| "tunnel_step lower sh (ConnectionOpened i) r = connection_opened lower i r"
| "tunnel_step lower sh (ConnectionClosed i) r = connection_closed lower i r"
| "tunnel_step lower sh (BytesIn i n) r = record_bytes_in lower i n r"
| "tunnel_step lower sh (BytesOut i n) r = record_bytes_out lower i n r"
| "tunnel_step lower sh (Noted i e) r = note_error lower i e r"

inductive tunnels_reach :: "(string \<Rightarrow> string) \<Rightarrow> (ssh_error \<Rightarrow> string) \<Rightarrow> tunnel_registry \<Rightarrow> bool" for lower sh where
  fresh: "tunnels_reach lower sh new_tunnel_registry"
| event: "tunnels_reach lower sh r \<Longrightarrow> enabled r e \<Longrightarrow> tunnels_reach lower sh (tunnel_step lower sh e r)"

section \<open>Handles and tasks\<close>

abbreviation told :: "nat \<Rightarrow> tunnel_registry \<Rightarrow> bool" where
  "told n r \<equiv> tk_told_to_stop (tn_tasks r ! n)"

abbreviation phase :: "nat \<Rightarrow> tunnel_registry \<Rightarrow> task_phase" where
  "phase n r \<equiv> tk_phase (tn_tasks r ! n)"

text \<open>The parts of the registry that decide which tunnels run: the handles, and the identifier of
  every task with whether it is told to stop. Most operations leave them alone.\<close>

definition control :: "tunnel_registry \<Rightarrow> (string \<Rightarrow> nat option) \<times> (string \<times> bool) list" where
  "control r = (hm_get (tn_handles r), map (\<lambda>k. (fq_id (tk_request k), tk_told_to_stop k)) (tn_tasks r))"

text \<open>The handles in the map are exactly the senders of the tasks that have not been told to stop.\<close>

fun owned :: "(string \<Rightarrow> nat option) \<times> (string \<times> bool) list \<Rightarrow> bool" where
  "owned (H, ks) \<longleftrightarrow> (\<forall>i n. H i = Some n \<longrightarrow> n < length ks \<and> ks ! n = (i, False))
     \<and> (\<forall>n < length ks. \<not> snd (ks ! n) \<longrightarrow> H (fst (ks ! n)) = Some n)"

abbreviation handles_ok :: "tunnel_registry \<Rightarrow> bool" where
  "handles_ok r \<equiv> owned (control r)"

declare owned.simps [simp del]

lemma handle_task:
  assumes "handles_ok r" and "hm_get (tn_handles r) i = Some n"
  shows "n < length (tn_tasks r) \<and> task_id n r = i \<and> \<not> told n r"
proof -
  from assms have "n < length (tn_tasks r)
      \<and> map (\<lambda>k. (fq_id (tk_request k), tk_told_to_stop k)) (tn_tasks r) ! n = (i, False)"
    unfolding control_def owned.simps length_map by blast
  then show ?thesis by auto
qed

lemma task_handle:
  "handles_ok r \<Longrightarrow> n < length (tn_tasks r) \<Longrightarrow> \<not> told n r \<Longrightarrow> hm_get (tn_handles r) (task_id n r) = Some n"
  by (simp add: control_def owned.simps)

lemma owned_take:
  assumes "owned (H, ks)" and "H i = Some n"
  shows "owned (H(i := None), ks[n := (i, True)])"
  unfolding owned.simps
proof (intro conjI allI impI)
  fix j m
  assume "(H(i := None)) j = Some m"
  then have j: "j \<noteq> i" "H j = Some m" by (auto split: if_splits)
  with assms have "m < length ks" "ks ! m = (j, False)" "ks ! n = (i, False)" by (simp_all add: owned.simps)
  with j(1) show "m < length (ks[n := (i, True)])" "ks[n := (i, True)] ! m = (j, False)"
    by (cases "m = n", simp_all)+
next
  fix m
  assume m: "m < length (ks[n := (i, True)])" "\<not> snd (ks[n := (i, True)] ! m)"
  then have mn: "m \<noteq> n" by (auto simp: nth_list_update)
  with m assms(1) have "H (fst (ks ! m)) = Some m" by (simp add: owned.simps)
  moreover with mn assms(2) have "fst (ks ! m) \<noteq> i" by auto
  ultimately show "(H(i := None)) (fst (ks[n := (i, True)] ! m)) = Some m" using mn by simp
qed

lemma owned_add:
  assumes "owned (H, ks)" and "H i = None"
  shows "owned (H(i \<mapsto> length ks), ks @ [(i, False)])"
  unfolding owned.simps
proof (intro conjI allI impI)
  fix j n
  assume "(H(i \<mapsto> length ks)) j = Some n"
  then have "n < length ks \<and> ks ! n = (j, False) \<or> n = length ks \<and> j = i"
    using assms(1) by (cases "j = i") (auto simp: owned.simps)
  then show "n < length (ks @ [(i, False)])" "(ks @ [(i, False)]) ! n = (j, False)" by (auto simp: nth_append)
next
  fix n
  assume n: "n < length (ks @ [(i, False)])" "\<not> snd ((ks @ [(i, False)]) ! n)"
  show "(H(i \<mapsto> length ks)) (fst ((ks @ [(i, False)]) ! n)) = Some n"
  proof (cases "n < length ks")
    case True
    with n(2) assms(1) have "H (fst (ks ! n)) = Some n" by (simp add: owned.simps nth_append)
    with True assms(2) show ?thesis by (auto simp: nth_append)
  next
    case False
    with n(1) show ?thesis by (simp add: nth_append)
  qed
qed

lemma broadcast_keeps [simp]:
  "tn_snapshots (broadcast lower r) = tn_snapshots r" "tn_handles (broadcast lower r) = tn_handles r"
  "tn_tasks (broadcast lower r) = tn_tasks r"
  by (simp_all add: broadcast_def)

lemma update_tunnel_keeps [simp]:
  "tn_snapshots (update_tunnel lower i f r) = hm_adjust i f (tn_snapshots r)"
  "tn_handles (update_tunnel lower i f r) = tn_handles r" "tn_tasks (update_tunnel lower i f r) = tn_tasks r"
  by (simp_all add: update_tunnel_def)

lemma remove_snapshot_keeps [simp]:
  "tn_snapshots (remove_snapshot lower i r) = hm_remove i (tn_snapshots r)"
  "tn_handles (remove_snapshot lower i r) = tn_handles r" "tn_tasks (remove_snapshot lower i r) = tn_tasks r"
  by (simp_all add: remove_snapshot_def)

lemma report_result_keeps [simp]:
  "tn_handles (report_result lower sh i x r) = tn_handles r" "tn_tasks (report_result lower sh i x r) = tn_tasks r"
  by (simp_all add: report_result_def mark_failed_def split: sum.split)

lemma set_phase_keeps [simp]:
  "tn_snapshots (set_phase n p r) = tn_snapshots r" "tn_handles (set_phase n p r) = tn_handles r"
  "length (tn_tasks (set_phase n p r)) = length (tn_tasks r)"
  by (simp_all add: set_phase_def)

lemma control_set_phase [simp]: "control (set_phase n p r) = control r"
proof (cases "n < length (tn_tasks r)")
  case True
  then show ?thesis by (simp add: control_def set_phase_def map_update list_update_same_conv)
next
  case False
  then show ?thesis by (simp add: control_def set_phase_def list_update_beyond)
qed

lemma fire_task: "n < length (tn_tasks r) \<Longrightarrow> tn_tasks (fire n r) ! m =
   (if m = n then (tn_tasks r ! n)\<lparr>tk_told_to_stop := True\<rparr> else tn_tasks r ! m)"
  by (simp add: fire_def nth_list_update)

lemma fire_keeps [simp]:
  "tn_snapshots (fire n r) = tn_snapshots r" "tn_handles (fire n r) = tn_handles r"
  "length (tn_tasks (fire n r)) = length (tn_tasks r)"
  by (simp_all add: fire_def)

text \<open>Taking a handle out of the map and firing its channel, as stopping and cleaning up both do.\<close>

definition take_handle :: "string \<Rightarrow> nat \<Rightarrow> tunnel_registry \<Rightarrow> tunnel_registry" where
  "take_handle i n r = fire n (r\<lparr>tn_handles := hm_remove i (tn_handles r)\<rparr>)"

lemma control_take:
  assumes "handles_ok r" and "hm_get (tn_handles r) i = Some n"
  shows "control (take_handle i n r) = ((fst (control r))(i := None), (snd (control r))[n := (i, True)])"
  using handle_task [OF assms]
  by (auto simp: control_def take_handle_def fire_def map_update fun_eq_iff)

lemma handles_ok_take:
  assumes "handles_ok r" and "hm_get (tn_handles r) i = Some n"
  shows "handles_ok (take_handle i n r)"
proof -
  have "fst (control r) i = Some n" using assms(2) by (simp add: control_def)
  with owned_take [of "fst (control r)" "snd (control r)" i n] assms(1) show ?thesis
    by (simp only: control_take [OF assms] prod.collapse)
qed

lemma stop_cases:
  obtains (handle) n where "hm_get (tn_handles r) i = Some n"
    "stop_tunnel lower i r = (listens (tn_tasks r ! n), take_handle i n r)"
  | (none) r' where "hm_get (tn_handles r) i = None" "stop_tunnel lower i r = (hm_get (tn_snapshots r) i \<noteq> None, r')"
    "tn_handles r' = tn_handles r" "tn_tasks r' = tn_tasks r" "tn_snapshots r' = hm_remove i (tn_snapshots r)"
proof (cases "hm_get (tn_handles r) i")
  case None
  then show thesis by (intro none [of "snd (stop_tunnel lower i r)"]) (simp_all add: stop_tunnel_def Let_def)
next
  case (Some n)
  then show thesis by (intro handle [of n]) (simp_all add: stop_tunnel_def abort_handle_def take_handle_def)
qed

lemma remove_handle_eq:
  "remove_handle i r = (case hm_get (tn_handles r) i of None \<Rightarrow> r | Some n \<Rightarrow> take_handle i n r)"
  by (simp add: remove_handle_def take_handle_def split: option.split)

lemma handles_ok_remove: "handles_ok r \<Longrightarrow> handles_ok (remove_handle i r)"
  by (cases "hm_get (tn_handles r) i") (simp_all only: remove_handle_eq option.case handles_ok_take)

lemma handles_ok_stop: "handles_ok r \<Longrightarrow> handles_ok (snd (stop_tunnel lower i r))"
  by (rule stop_cases [of r i lower]) (simp_all only: snd_conv handles_ok_take, simp add: control_def)

lemma start_cases:
  obtains (refused) e where "start_port_forward lower q r = (Inl e, r)"
    "e = MissingAuthMethods \<and> fq_auth_order q = []
      \<or> e = PortForwardAlreadyRunning (fq_id q) \<and> fq_auth_order q \<noteq> [] \<and> has_active_handle (fq_id q) r"
  | (started) r' where "start_port_forward lower q r = (Inr (starting_snapshot q), r')"
    "fq_auth_order q \<noteq> []" "\<not> has_active_handle (fq_id q) r"
    "tn_snapshots r' = hm_insert (fq_id q) (starting_snapshot q) (tn_snapshots r)"
    "tn_handles r' = hm_insert (fq_id q) (length (tn_tasks r)) (tn_handles r)"
    "tn_tasks r' = tn_tasks r @ [\<lparr>tk_request = q, tk_told_to_stop = False, tk_phase = Connecting\<rparr>]"
proof (cases "fq_auth_order q = [] \<or> has_active_handle (fq_id q) r")
  case True
  then show thesis by (intro refused [of "if fq_auth_order q = [] then MissingAuthMethods else PortForwardAlreadyRunning (fq_id q)"])
    (auto simp: start_port_forward_def)
next
  case False
  then show thesis
    by (intro started [of "snd (start_port_forward lower q r)"])
      (auto simp: start_port_forward_def upsert_starting_def insert_handle_def spawn_task_def has_active_handle_def Let_def)
qed

lemma handles_ok_start: "handles_ok r \<Longrightarrow> handles_ok (snd (start_port_forward lower q r))"
proof (rule start_cases [of lower q r])
  fix r'
  assume ok: "handles_ok r" and st: "start_port_forward lower q r = (Inr (starting_snapshot q), r')"
    and no: "\<not> has_active_handle (fq_id q) r"
    and h: "tn_handles r' = hm_insert (fq_id q) (length (tn_tasks r)) (tn_handles r)"
    and k: "tn_tasks r' = tn_tasks r @ [\<lparr>tk_request = q, tk_told_to_stop = False, tk_phase = Connecting\<rparr>]"
  have "control r' = ((fst (control r))(fq_id q \<mapsto> length (snd (control r))), snd (control r) @ [(fq_id q, False)])"
    by (auto simp: control_def h k)
  moreover have "fst (control r) (fq_id q) = None" using no by (simp add: has_active_handle_def control_def)
  ultimately have "handles_ok r'" using owned_add [of "fst (control r)" "snd (control r)" "fq_id q"] ok by simp
  with st show ?thesis by simp
qed simp

lemma control_report: "control (report_result lower sh i x r) = control r"
  by (simp add: control_def)

lemmas counter_defs = mark_running_def mark_failed_def connection_opened_def connection_closed_def
  record_bytes_in_def record_bytes_out_def note_error_def

lemma handles_ok_step: "handles_ok r \<Longrightarrow> handles_ok (tunnel_step lower sh e r)"
proof (cases e)
  case (RemovesHandle n)
  assume "handles_ok r"
  with handles_ok_remove [of r "task_id n r"] RemovesHandle show ?thesis
    by (simp split: task_phase.split)
next
  case (Reports n)
  assume "handles_ok r"
  then show ?thesis using Reports by (simp add: control_report split: task_phase.split)
qed (simp_all only: tunnel_step.simps handles_ok_start handles_ok_stop control_set_phase,
    simp_all add: counter_defs subscribe_tunnels_def control_def)

lemma handles_ok_reach: "tunnels_reach lower sh r \<Longrightarrow> handles_ok r"
  by (induction rule: tunnels_reach.induct)
    (simp add: control_def new_tunnel_registry_def owned.simps, rule handles_ok_step)

text \<open>What stopping does to the tasks.\<close>

lemma take_handle_task:
  "n < length (tn_tasks r) \<Longrightarrow> tn_tasks (take_handle i n r) ! m =
     (if m = n then (tn_tasks r ! n)\<lparr>tk_told_to_stop := True\<rparr> else tn_tasks r ! m)"
  by (simp add: take_handle_def fire_task)

lemma stop_tells:
  assumes "handles_ok r" and "stop_tunnel lower i r = (b, r')" and "n < length (tn_tasks r)"
  shows "tn_tasks r' ! n = (if task_id n r = i then (tn_tasks r ! n)\<lparr>tk_told_to_stop := True\<rparr> else tn_tasks r ! n)"
proof (cases rule: stop_cases [of r i lower])
  case (handle m)
  from handle_task [OF assms(1) handle(1)] have m: "m < length (tn_tasks r)" "task_id m r = i" "\<not> told m r" by auto
  have told: "told n r" if "n \<noteq> m" "task_id n r = i"
    using task_handle [OF assms(1,3)] that handle(1) by auto
  from handle(2) assms(2) have "r' = take_handle i m r" by simp
  then show ?thesis using told m by (cases "n = m") (auto simp: take_handle_task)
next
  case (none r'')
  have "told n r" if "task_id n r = i" using task_handle [OF assms(1,3)] that none(1) by auto
  with none assms(2) show ?thesis by auto
qed

section \<open>Orderly restarts\<close>

text \<open>A run is orderly when a forward is started again only after its previous task has ended.\<close>

fun orderly :: "tunnel_registry \<Rightarrow> tunnel_event \<Rightarrow> bool" where
  "orderly r (Start q) \<longleftrightarrow> list_all (\<lambda>k. fq_id (tk_request k) = fq_id q \<longrightarrow> tk_phase k = Ended) (tn_tasks r)"
| "orderly r _ \<longleftrightarrow> True"

inductive orderly_reach :: "(string \<Rightarrow> string) \<Rightarrow> (ssh_error \<Rightarrow> string) \<Rightarrow> tunnel_registry \<Rightarrow> bool" for lower sh where
  fresh: "orderly_reach lower sh new_tunnel_registry"
| event: "orderly_reach lower sh r \<Longrightarrow> enabled r e \<Longrightarrow> orderly r e \<Longrightarrow> orderly_reach lower sh (tunnel_step lower sh e r)"

text \<open>What the user sees of a task: the status of the snapshot that fits its phase.\<close>

fun agrees :: "task_phase \<Rightarrow> port_forward_status option \<Rightarrow> bool" where
  "agrees Connecting st \<longleftrightarrow> st = Some Starting"
| "agrees Forwarding st \<longleftrightarrow> st = Some Running"
| "agrees (Returned x) st \<longleftrightarrow> st \<noteq> None"
| "agrees _ st \<longleftrightarrow> False"

definition statuses :: "tunnel_registry \<Rightarrow> string \<Rightarrow> port_forward_status option" where
  "statuses r i = map_option rs_status (hm_get (tn_snapshots r) i)"

definition phases :: "tunnel_registry \<Rightarrow> (string \<times> task_phase) list" where
  "phases r = map (\<lambda>k. (fq_id (tk_request k), tk_phase k)) (tn_tasks r)"

definition one_each :: "(string \<times> task_phase) list \<Rightarrow> bool" where
  "one_each ks \<longleftrightarrow> (\<forall>m < length ks. \<forall>n < length ks.
     fst (ks ! m) = fst (ks ! n) \<longrightarrow> snd (ks ! m) \<noteq> Ended \<longrightarrow> snd (ks ! n) \<noteq> Ended \<longrightarrow> m = n)"

definition shows_tasks ::
  "(string \<Rightarrow> nat option) \<Rightarrow> (string \<Rightarrow> port_forward_status option) \<Rightarrow> (string \<times> task_phase) list \<Rightarrow> bool" where
  "shows_tasks H S ks \<longleftrightarrow> one_each ks
     \<and> (\<forall>i n. H i = Some n \<longrightarrow> n < length ks \<and> fst (ks ! n) = i \<and> agrees (snd (ks ! n)) (S i))"

lemma one_each_update:
  assumes "one_each ks" and "n < length ks" and "snd (ks ! n) \<noteq> Ended"
  shows "one_each (ks[n := (fst (ks ! n), p)])"
  unfolding one_each_def
proof (intro allI impI)
  fix a b
  let ?ks = "ks[n := (fst (ks ! n), p)]"
  assume "a < length ?ks" "b < length ?ks" "fst (?ks ! a) = fst (?ks ! b)" "snd (?ks ! a) \<noteq> Ended" "snd (?ks ! b) \<noteq> Ended"
  then have "a < length ks" "b < length ks" "fst (ks ! a) = fst (ks ! b)" "snd (ks ! a) \<noteq> Ended" "snd (ks ! b) \<noteq> Ended"
    using assms(2,3) by (auto simp: nth_list_update split: if_splits)
  with assms(1) show "a = b" by (simp add: one_each_def)
qed

lemma shows_focus:
  assumes "shows_tasks H S ks" and "n < length ks" and "snd (ks ! n) \<noteq> Ended" and "H (fst (ks ! n)) = Some m"
  shows "m = n"
proof -
  from assms(1,4) have m: "m < length ks" "fst (ks ! m) = fst (ks ! n)" "agrees (snd (ks ! m)) (S (fst (ks ! n)))"
    unfolding shows_tasks_def by blast+
  from m(3) have "snd (ks ! m) \<noteq> Ended" by (cases "snd (ks ! m)") auto
  with m(1,2) assms(1-3) show ?thesis by (simp add: shows_tasks_def one_each_def)
qed

text \<open>A task changes its phase; the handle and the status of its own identifier may change with it.\<close>

lemma shows_update:
  assumes "shows_tasks H S ks" and "n < length ks" and "snd (ks ! n) \<noteq> Ended"
    and "\<And>j. j \<noteq> fst (ks ! n) \<Longrightarrow> H' j = H j \<and> S' j = S j"
    and "H' (fst (ks ! n)) = None \<or> H' (fst (ks ! n)) = Some n \<and> agrees p (S' (fst (ks ! n)))"
  shows "shows_tasks H' S' (ks[n := (fst (ks ! n), p)])"
  unfolding shows_tasks_def
proof (intro conjI allI impI)
  show "one_each (ks[n := (fst (ks ! n), p)])"
    using assms(1-3) by (intro one_each_update) (simp_all add: shows_tasks_def)
next
  fix j m
  assume m: "H' j = Some m"
  show "m < length (ks[n := (fst (ks ! n), p)])" "fst (ks[n := (fst (ks ! n), p)] ! m) = j"
      "agrees (snd (ks[n := (fst (ks ! n), p)] ! m)) (S' j)"
  proof (atomize (full), cases "j = fst (ks ! n)")
    case True
    with m assms(2,5) show "m < length (ks[n := (fst (ks ! n), p)]) \<and> fst (ks[n := (fst (ks ! n), p)] ! m) = j
      \<and> agrees (snd (ks[n := (fst (ks ! n), p)] ! m)) (S' j)" by auto
  next
    case False
    with m assms(4) [of j] assms(1) have "m < length ks" "fst (ks ! m) = j" "agrees (snd (ks ! m)) (S' j)"
      by (auto simp: shows_tasks_def)
    with False show "m < length (ks[n := (fst (ks ! n), p)]) \<and> fst (ks[n := (fst (ks ! n), p)] ! m) = j
      \<and> agrees (snd (ks[n := (fst (ks ! n), p)] ! m)) (S' j)" by (cases "m = n") auto
  qed
qed

text \<open>A handle or a status without a handle goes.\<close>

lemma shows_drop:
  assumes "shows_tasks H S ks" and "\<And>j n. H' j = Some n \<Longrightarrow> H j = Some n \<and> S' j = S j"
  shows "shows_tasks H' S' ks"
  using assms by (fastforce simp: shows_tasks_def)

lemma shows_add:
  assumes "shows_tasks H S ks" and "list_all (\<lambda>k. fst k = i \<longrightarrow> snd k = Ended) ks"
  shows "shows_tasks (H(i \<mapsto> length ks)) (S(i \<mapsto> Starting)) (ks @ [(i, Connecting)])"
  unfolding shows_tasks_def
proof (intro conjI allI impI)
  have old: "snd (ks ! m) = Ended" if "m < length ks" "fst (ks ! m) = i" for m
    using assms(2) that by (auto simp: list_all_length)
  have one: "one_each ks" using assms(1) by (simp add: shows_tasks_def)
  show "one_each (ks @ [(i, Connecting)])"
    unfolding one_each_def
  proof (intro allI impI)
    fix a b
    let ?ks = "ks @ [(i, Connecting)]"
    assume ab: "a < length ?ks" "b < length ?ks" "fst (?ks ! a) = fst (?ks ! b)" "snd (?ks ! a) \<noteq> Ended" "snd (?ks ! b) \<noteq> Ended"
    show "a = b"
    proof (cases "a < length ks \<and> b < length ks")
      case True
      with ab one show ?thesis by (simp add: one_each_def nth_append)
    next
      case False
      with ab old [of a] old [of b] show ?thesis by (cases "a < length ks"; cases "b < length ks") (auto simp: nth_append)
    qed
  qed
next
  fix j n
  assume "(H(i \<mapsto> length ks)) j = Some n"
  then have n: "j = i \<and> n = length ks \<or> j \<noteq> i \<and> H j = Some n" by (auto split: if_splits)
  have "n < length (ks @ [(i, Connecting)]) \<and> fst ((ks @ [(i, Connecting)]) ! n) = j
      \<and> agrees (snd ((ks @ [(i, Connecting)]) ! n)) ((S(i \<mapsto> Starting)) j)"
  proof (cases "j = i")
    case True
    with n show ?thesis by simp
  next
    case False
    with n have "H j = Some n" by simp
    with assms(1) have "n < length ks \<and> fst (ks ! n) = j \<and> agrees (snd (ks ! n)) (S j)"
      unfolding shows_tasks_def by blast
    with False show ?thesis by (simp add: nth_append)
  qed
  then show "n < length (ks @ [(i, Connecting)])" "fst ((ks @ [(i, Connecting)]) ! n) = j"
      "agrees (snd ((ks @ [(i, Connecting)]) ! n)) ((S(i \<mapsto> Starting)) j)" by blast+
qed

abbreviation in_order :: "tunnel_registry \<Rightarrow> bool" where
  "in_order r \<equiv> shows_tasks (hm_get (tn_handles r)) (statuses r) (phases r)"

lemma phases_nth: "n < length (tn_tasks r) \<Longrightarrow> phases r ! n = (task_id n r, phase n r)"
  by (simp add: phases_def)

lemma length_phases [simp]: "length (phases r) = length (tn_tasks r)"
  by (simp add: phases_def)

lemma phases_set_phase: "n < length (tn_tasks r) \<Longrightarrow> phases (set_phase n p r) = (phases r)[n := (task_id n r, p)]"
  by (simp add: phases_def set_phase_def map_update)

lemma phases_fire [simp]: "phases (take_handle i n r) = phases r"
proof (cases "n < length (tn_tasks r)")
  case True
  then show ?thesis by (simp add: phases_def take_handle_def fire_def map_update list_update_same_conv)
next
  case False
  then show ?thesis by (simp add: phases_def take_handle_def fire_def list_update_beyond)
qed

lemma take_handle_keeps [simp]:
  "tn_handles (take_handle i n r) = hm_remove i (tn_handles r)" "tn_snapshots (take_handle i n r) = tn_snapshots r"
  "length (tn_tasks (take_handle i n r)) = length (tn_tasks r)"
  by (simp_all add: take_handle_def)

lemma statuses_cong: "tn_snapshots r' = tn_snapshots r \<Longrightarrow> statuses r' = statuses r"
  by (simp add: statuses_def fun_eq_iff)

lemma statuses_subscribers [simp]: "statuses (r\<lparr>tn_subscribers := x\<rparr>) = statuses r"
  by (simp add: statuses_def fun_eq_iff)

lemma phases_cong: "tn_tasks r' = tn_tasks r \<Longrightarrow> phases r' = phases r"
  by (simp add: phases_def)

lemma take_handle_request: "tk_request (tn_tasks (take_handle i n r) ! m) = tk_request (tn_tasks r ! m)"
  by (cases "n < length (tn_tasks r)") (auto simp: take_handle_def fire_def nth_list_update list_update_beyond)

lemma remove_handle_facts:
  "hm_get (tn_handles (remove_handle i r)) = (hm_get (tn_handles r))(i := None)"
  "statuses (remove_handle i r) = statuses r" "phases (remove_handle i r) = phases r"
  "length (tn_tasks (remove_handle i r)) = length (tn_tasks r)"
  "tk_request (tn_tasks (remove_handle i r) ! m) = tk_request (tn_tasks r ! m)"
  by (auto simp: remove_handle_eq fun_eq_iff statuses_def take_handle_request split: option.split)

lemma statuses_adjust:
  "(\<And>s. rs_status (f s) = rs_status s) \<Longrightarrow> statuses (update_tunnel lower i f r) = statuses r"
  by (auto simp: statuses_def fun_eq_iff option.map_comp comp_def)

text \<open>A task of an orderly run advances.\<close>

lemma in_order_phase:
  assumes "in_order r" and "n < length (tn_tasks r)" and "phase n r \<noteq> Ended"
    and "phases r' = (phases r)[n := (task_id n r, p)]"
    and "\<And>j. j \<noteq> task_id n r \<Longrightarrow> hm_get (tn_handles r') j = hm_get (tn_handles r) j \<and> statuses r' j = statuses r j"
    and "hm_get (tn_handles r') (task_id n r) = None
      \<or> hm_get (tn_handles r') (task_id n r) = Some n \<and> agrees p (statuses r' (task_id n r))"
  shows "in_order r'"
  using shows_update [of "hm_get (tn_handles r)" "statuses r" "phases r" n "hm_get (tn_handles r')" "statuses r'" p]
    assms by (simp add: phases_nth)

lemma own_handle:
  assumes "in_order r" and "n < length (tn_tasks r)" and "phase n r \<noteq> Ended"
  shows "hm_get (tn_handles r) (task_id n r) = None
    \<or> hm_get (tn_handles r) (task_id n r) = Some n \<and> agrees (phase n r) (statuses r (task_id n r))"
proof (cases "hm_get (tn_handles r) (task_id n r)")
  case (Some m)
  with shows_focus [OF assms(1), of n m] assms(2,3) have "m = n" by (simp add: phases_nth)
  moreover have "agrees (snd (phases r ! m)) (statuses r (task_id n r))"
    using assms(1) Some unfolding shows_tasks_def by blast
  ultimately show ?thesis using Some assms(2) by (simp add: phases_nth)
qed simp

lemma in_order_start:
  assumes "in_order r" and "orderly r (Start q)"
  shows "in_order (snd (start_port_forward lower q r))"
proof (cases rule: start_cases [of lower q r])
  case (started r')
  have ph: "phases r' = phases r @ [(fq_id q, Connecting)]" by (simp add: phases_def started)
  have st: "statuses r' = (statuses r)(fq_id q \<mapsto> Starting)"
    by (auto simp: statuses_def started fun_eq_iff starting_snapshot_def)
  have hd: "hm_get (tn_handles r') = (hm_get (tn_handles r))(fq_id q \<mapsto> length (phases r))"
    by (auto simp: started fun_eq_iff)
  have "list_all (\<lambda>k. fst k = fq_id q \<longrightarrow> snd k = Ended) (phases r)"
    using assms(2) by (simp add: phases_def list_all_iff)
  from shows_add [OF assms(1) this] have "in_order r'" by (simp only: ph st hd)
  with started(1) show ?thesis by simp
qed (use assms in simp)

lemma in_order_stop:
  assumes "in_order r"
  shows "in_order (snd (stop_tunnel lower i r))"
proof (cases rule: stop_cases [of r i lower])
  case (handle n)
  have "in_order (take_handle i n r)"
    unfolding phases_fire
    by (rule shows_drop [OF assms]) (auto simp: statuses_def split: if_splits)
  with handle show ?thesis by simp
next
  case (none r')
  have "in_order r'"
    unfolding phases_cong [OF none(4)]
    by (rule shows_drop [OF assms]) (use none in \<open>auto simp: statuses_def\<close>)
  with none show ?thesis by simp
qed

lemma in_order_cong:
  "in_order r \<Longrightarrow> tn_handles r' = tn_handles r \<Longrightarrow> statuses r' = statuses r \<Longrightarrow> phases r' = phases r \<Longrightarrow> in_order r'"
  by simp

lemma in_order_step:
  assumes "in_order r" and "enabled r e" and "orderly r e"
  shows "in_order (tunnel_step lower sh e r)"
proof (cases e)
  case (Start q)
  with assms in_order_start show ?thesis by simp
next
  case (Stop i)
  with assms in_order_stop show ?thesis by simp
next
  case (Connected n port now)
  then have n: "n < length (tn_tasks r)" "phase n r = Connecting" using assms(2) by simp_all
  show ?thesis
  proof (rule in_order_phase [OF assms(1) n(1), where p = Forwarding])
    show "hm_get (tn_handles (tunnel_step lower sh e r)) (task_id n r) = None
      \<or> hm_get (tn_handles (tunnel_step lower sh e r)) (task_id n r) = Some n
        \<and> agrees Forwarding (statuses (tunnel_step lower sh e r) (task_id n r))"
      using own_handle [OF assms(1) n(1)] n(2) Connected by (auto simp: statuses_def mark_running_def)
  qed (use n Connected in \<open>auto simp: phases_set_phase mark_running_def statuses_def phases_cong [of "update_tunnel lower i f r" r for i f]\<close>)
next
  case (Finishes n x)
  then have n: "n < length (tn_tasks r)" "phase n r \<noteq> Ended" "listens (tn_tasks r ! n)"
    using assms(2) by (auto simp: listens_def split: sum.splits)
  show ?thesis
  proof (rule in_order_phase [OF assms(1) n(1), where p = "Returned x"])
    show "hm_get (tn_handles (tunnel_step lower sh e r)) (task_id n r) = None
      \<or> hm_get (tn_handles (tunnel_step lower sh e r)) (task_id n r) = Some n
        \<and> agrees (Returned x) (statuses (tunnel_step lower sh e r) (task_id n r))"
      using own_handle [OF assms(1) n(1,2)] n(3) Finishes by (auto simp: statuses_def listens_def)
  qed (use n Finishes in \<open>auto simp: phases_set_phase statuses_def\<close>)
next
  case (RemovesHandle n)
  then obtain x where n: "n < length (tn_tasks r)" "phase n r = Returned x" using assms(2) by auto
  show ?thesis
    by (rule in_order_phase [OF assms(1) n(1), where p = "HandleRemoved x"])
      (use n RemovesHandle in \<open>auto simp: phases_set_phase remove_handle_facts statuses_cong [OF set_phase_keeps(1)]\<close>)
next
  case (Reports n)
  then obtain x where n: "n < length (tn_tasks r)" "phase n r = HandleRemoved x" using assms(2) by auto
  have other: "statuses (report_result lower sh (task_id n r) x r) j = statuses r j" if "j \<noteq> task_id n r" for j
    using that by (auto simp: report_result_def statuses_def mark_failed_def split: sum.split)
  show ?thesis
    by (rule in_order_phase [OF assms(1) n(1), where p = Ended])
      (use n Reports own_handle [OF assms(1) n(1)] other in
        \<open>auto simp: phases_set_phase phases_cong [of "report_result lower sh (task_id n r) x r" r] statuses_cong [OF set_phase_keeps(1)]\<close>)
qed (rule in_order_cong [OF assms(1)]; simp add: counter_defs subscribe_tunnels_def statuses_adjust phases_def)+

lemma in_order_reach: "orderly_reach lower sh r \<Longrightarrow> in_order r"
  by (induction rule: orderly_reach.induct)
    (simp add: shows_tasks_def one_each_def phases_def new_tunnel_registry_def, rule in_order_step)

lemma orderly_reaches: "orderly_reach lower sh r \<Longrightarrow> tunnels_reach lower sh r"
  by (induction rule: orderly_reach.induct) (auto intro: tunnels_reach.intros)

text \<open>Only a stop of its own identifier tells a listening task of an orderly run to stop.\<close>

lemma told_by_stop:
  assumes "orderly_reach lower sh r" and "enabled r e" and "n < length (tn_tasks r)"
    and "listens (tn_tasks r ! n)" and "\<not> told n r" and "told n (tunnel_step lower sh e r)"
  shows "e = Stop (task_id n r)"
proof (cases e)
  case (Start q)
  then show ?thesis using assms(3,5,6) by (cases rule: start_cases [of lower q r]) (auto simp: nth_append)
next
  case (Stop i)
  have "handles_ok r" by (rule handles_ok_reach [OF orderly_reaches [OF assms(1)]])
  from stop_tells [OF this _ assms(3), of lower i] Stop assms(5,6) show ?thesis
    by (cases "stop_tunnel lower i r") (auto split: if_splits)
next
  case (RemovesHandle m)
  then obtain x where m: "m < length (tn_tasks r)" "phase m r = Returned x" using assms(2) by auto
  then have mn: "m \<noteq> n" using assms(4) by (auto simp: listens_def)
  have "hm_get (tn_handles r) (task_id m r) \<noteq> Some n"
    using own_handle [OF in_order_reach [OF assms(1)] m(1)] m(2) mn by auto
  then have "told n (remove_handle (task_id m r) r) = told n r"
    by (auto simp: remove_handle_eq take_handle_def fire_def split: option.split)
  then show ?thesis using assms(5,6) RemovesHandle m mn by (simp add: set_phase_def)
next
  case (Reports m)
  then show ?thesis using assms(2,3,5,6) by (auto simp: set_phase_def nth_list_update split: if_splits)
next
  case (Connected m port now)
  then show ?thesis using assms(2,3,5,6) by (auto simp: set_phase_def nth_list_update mark_running_def split: if_splits)
next
  case (Finishes m x)
  then show ?thesis using assms(2,3,5,6) by (auto simp: set_phase_def nth_list_update split: if_splits)
qed (use assms(5,6) in \<open>simp_all add: counter_defs subscribe_tunnels_def\<close>)

section \<open>The properties\<close>

definition demo_tunnel_request :: ssh_port_forward_request where
  "demo_tunnel_request =
     \<lparr>fq_id = ''v::f'', fq_vault_id = ''v'', fq_forward_id = ''f'', fq_host_id = ''h'', fq_label = ''web'',
      fq_host_label = ''host'', fq_mode = SshLocal, fq_listen_address = ''127.0.0.1'', fq_listen_port = 8080,
      fq_target_address = ''localhost'', fq_target_port = 80,
      fq_connection = \<lparr>sc_label = ''host'', sc_hostname = ''h'', sc_port = 22, sc_username = ''u''\<rparr>,
      fq_auth_order = [ResolvedPassword ''s'']\<rparr>"

lemma demo_tunnel_request_facts [simp]: "fq_auth_order demo_tunnel_request \<noteq> []" "fq_id demo_tunnel_request = ''v::f''"
  by (simp_all add: demo_tunnel_request_def)

text \<open>A forward that was started and got its connection.\<close>

definition demo_running :: tunnel_registry where
  "demo_running = tunnel_step id (\<lambda>_. ''error'') (Connected 0 8080 5)
     (tunnel_step id (\<lambda>_. ''error'') (Start demo_tunnel_request) new_tunnel_registry)"

lemmas tunnel_run_defs = start_port_forward_def has_active_handle_def upsert_starting_def insert_handle_def
  spawn_task_def new_tunnel_registry_def set_phase_def broadcast_def mark_running_def update_tunnel_def hm_adjust_def Let_def

lemma demo_started: "orderly_reach id sh (tunnel_step id sh (Start demo_tunnel_request) new_tunnel_registry)"
  by (intro orderly_reach.intros) (simp_all add: new_tunnel_registry_def)

lemma demo_running_orderly: "orderly_reach id (\<lambda>_. ''error'') demo_running"
  unfolding demo_running_def
  by (rule orderly_reach.event [OF demo_started]) (simp_all add: tunnel_run_defs)

lemma demo_running_task:
  "tn_tasks demo_running = [\<lparr>tk_request = demo_tunnel_request, tk_told_to_stop = False, tk_phase = Forwarding\<rparr>]"
  by (simp add: demo_running_def tunnel_run_defs)

text \<open>C19. Port forwards are controlled by their handles, however the user and the tasks interleave:
  of the tasks ever started for a forward at most one has not been told to stop; stopping a forward
  tells exactly its tasks to stop; and starting one is refused as running exactly when such a task
  is there.\<close>

theorem one_tunnel_per_forward:
  assumes "tunnels_reach lower sh r"
  shows "(\<forall>m n. m < length (tn_tasks r) \<and> n < length (tn_tasks r) \<and> task_id m r = task_id n r
            \<and> \<not> told m r \<and> \<not> told n r \<longrightarrow> m = n)
     \<and> (\<forall>n. n < length (tn_tasks r) \<longrightarrow> tn_tasks (snd (stop_tunnel lower i r)) ! n =
            (if task_id n r = i then (tn_tasks r ! n)\<lparr>tk_told_to_stop := True\<rparr> else tn_tasks r ! n))
     \<and> (fq_auth_order q \<noteq> [] \<longrightarrow>
          fst (start_port_forward lower q r) = Inl (PortForwardAlreadyRunning (fq_id q)) \<longleftrightarrow>
          (\<exists>n < length (tn_tasks r). task_id n r = fq_id q \<and> \<not> told n r))"
proof (intro conjI allI impI)
  note ok = handles_ok_reach [OF assms]
  show "m = n" if "m < length (tn_tasks r) \<and> n < length (tn_tasks r) \<and> task_id m r = task_id n r
      \<and> \<not> told m r \<and> \<not> told n r" for m n
  proof -
    from that have "hm_get (tn_handles r) (task_id m r) = Some m" "hm_get (tn_handles r) (task_id n r) = Some n"
      using task_handle [OF ok, of m] task_handle [OF ok, of n] by blast+
    moreover from that have "task_id m r = task_id n r" by blast
    ultimately have "Some m = Some n" by (simp only:)
    then show ?thesis by simp
  qed
  show "tn_tasks (snd (stop_tunnel lower i r)) ! n =
      (if task_id n r = i then (tn_tasks r ! n)\<lparr>tk_told_to_stop := True\<rparr> else tn_tasks r ! n)"
    if "n < length (tn_tasks r)" for n
    using stop_tells [OF ok _ that, of lower i] by (cases "stop_tunnel lower i r") simp
  assume q: "fq_auth_order q \<noteq> []"
  have "has_active_handle (fq_id q) r \<longleftrightarrow> (\<exists>n < length (tn_tasks r). task_id n r = fq_id q \<and> \<not> told n r)"
  proof
    assume "has_active_handle (fq_id q) r"
    then obtain n where "hm_get (tn_handles r) (fq_id q) = Some n" by (auto simp: has_active_handle_def)
    from handle_task [OF ok this] show "\<exists>n < length (tn_tasks r). task_id n r = fq_id q \<and> \<not> told n r" by blast
  next
    assume "\<exists>n < length (tn_tasks r). task_id n r = fq_id q \<and> \<not> told n r"
    then obtain n where n: "n < length (tn_tasks r)" "task_id n r = fq_id q" "\<not> told n r" by blast
    from task_handle [OF ok n(1,3)] n(2) show "has_active_handle (fq_id q) r" by (simp add: has_active_handle_def)
  qed
  then show "fst (start_port_forward lower q r) = Inl (PortForwardAlreadyRunning (fq_id q)) \<longleftrightarrow>
      (\<exists>n < length (tn_tasks r). task_id n r = fq_id q \<and> \<not> told n r)"
    using q by (cases rule: start_cases [of lower q r]) auto
qed

theorem one_tunnel_per_forward_witness:
  "tunnels_reach id (\<lambda>_. ''error'') demo_running
     \<and> fst (start_port_forward id demo_tunnel_request demo_running) = Inl (PortForwardAlreadyRunning ''v::f'')
     \<and> told 0 (snd (stop_tunnel id ''v::f'' demo_running))"
  using one_tunnel_per_forward [OF orderly_reaches [OF demo_running_orderly], of "''v::f''" demo_tunnel_request]
    orderly_reaches [OF demo_running_orderly]
  by (simp add: demo_running_task)

text \<open>C20. When a forward is only started again after its previous task has ended, the list shows the
  truth and nothing but a stop ends a forward: every forward that can be stopped is listed, as starting
  while it connects and as running once it forwards, and a task that serves is told to stop only by a
  stop of its own forward.\<close>

theorem orderly_tunnels_are_shown:
  assumes "orderly_reach lower sh r"
  shows "(hm_get (tn_handles r) i = Some n \<longrightarrow>
            n < length (tn_tasks r) \<and> task_id n r = i
            \<and> (\<exists>s. hm_get (tn_snapshots r) i = Some s
                 \<and> (phase n r = Connecting \<longrightarrow> rs_status s = Starting) \<and> (phase n r = Forwarding \<longrightarrow> rs_status s = Running)))
     \<and> (n < length (tn_tasks r) \<and> listens (tn_tasks r ! n) \<and> \<not> told n r \<and> enabled r e
            \<and> told n (tunnel_step lower sh e r) \<longrightarrow> e = Stop (task_id n r))"
proof (intro conjI impI)
  note ord = in_order_reach [OF assms]
  assume h: "hm_get (tn_handles r) i = Some n"
  with ord have n: "n < length (phases r) \<and> fst (phases r ! n) = i \<and> agrees (snd (phases r ! n)) (statuses r i)"
    unfolding shows_tasks_def by blast
  then show "n < length (tn_tasks r)" "task_id n r = i" by (auto simp: phases_nth)
  from n have "agrees (phase n r) (statuses r i)" by (auto simp: phases_nth)
  then show "\<exists>s. hm_get (tn_snapshots r) i = Some s
      \<and> (phase n r = Connecting \<longrightarrow> rs_status s = Starting) \<and> (phase n r = Forwarding \<longrightarrow> rs_status s = Running)"
    by (cases "phase n r") (auto simp: statuses_def)
next
  assume "n < length (tn_tasks r) \<and> listens (tn_tasks r ! n) \<and> \<not> told n r \<and> enabled r e \<and> told n (tunnel_step lower sh e r)"
  then show "e = Stop (task_id n r)" using told_by_stop [OF assms, of e n] by blast
qed

theorem orderly_tunnels_are_shown_witness:
  "orderly_reach id (\<lambda>_. ''error'') demo_running
     \<and> (\<exists>s. hm_get (tn_snapshots demo_running) ''v::f'' = Some s \<and> rs_status s = Running)"
proof -
  have "hm_get (tn_handles demo_running) ''v::f'' = Some 0" by (simp add: demo_running_def tunnel_run_defs)
  with orderly_tunnels_are_shown [OF demo_running_orderly, of "''v::f''" 0] demo_running_orderly show ?thesis
    by (auto simp: demo_running_task)
qed

text \<open>Restarting a forward while the stopped task is still ending breaks both: the stopped task
  removes the handle of the new one, which tells it to stop although nobody stopped it, and then
  its entry from the list, although it still serves.\<close>

theorem restart_race:
  fixes lower sh
  defines "run \<equiv> \<lambda>es. fold (tunnel_step lower sh) es new_tunnel_registry"
  defines "stopped \<equiv> run [Start demo_tunnel_request, Connected 0 8080 5, Stop ''v::f'']"
    and "raced \<equiv> run [Start demo_tunnel_request, Connected 0 8080 5, Stop ''v::f'', Start demo_tunnel_request,
               Finishes 0 (Inr ()), RemovesHandle 0, Reports 0]"
  shows "tunnels_reach lower sh raced
     \<and> fst (start_port_forward lower demo_tunnel_request stopped) = Inr (starting_snapshot demo_tunnel_request)
     \<and> listens (tn_tasks raced ! 1) \<and> told 1 raced \<and> list_tunnels lower raced = []"
proof -
  let ?q = demo_tunnel_request
  let ?task = "\<lambda>t p. \<lparr>tk_request = ?q, tk_told_to_stop = t, tk_phase = p\<rparr>"
  let ?run = "(starting_snapshot ?q)\<lparr>rs_status := Running, rs_listen_port := 8080, rs_opened_at := Some 5, rs_last_error := None\<rparr>"
  let ?r = "\<lambda>S H ks. \<lparr>tn_snapshots = S, tn_handles = H, tn_subscribers = [], tn_tasks = ks\<rparr>"
  let ?i = "''v::f''"
  have s1: "tunnel_step lower sh (Start ?q) new_tunnel_registry = ?r [(?i, starting_snapshot ?q)] [(?i, 0)] [?task False Connecting]"
    by (simp add: tunnel_run_defs)
  have s2: "tunnel_step lower sh (Connected 0 8080 5) (?r [(?i, starting_snapshot ?q)] [(?i, 0)] [?task False Connecting]) =
      ?r [(?i, ?run)] [(?i, 0)] [?task False Forwarding]"
    by (simp add: tunnel_run_defs)
  have s3: "tunnel_step lower sh (Stop ?i) (?r [(?i, ?run)] [(?i, 0)] [?task False Forwarding]) =
      ?r [(?i, ?run)] [] [?task True Forwarding]"
    by (simp add: stop_tunnel_def abort_handle_def fire_def)
  have s4: "start_port_forward lower ?q (?r [(?i, ?run)] [] [?task True Forwarding]) =
      (Inr (starting_snapshot ?q), ?r [(?i, starting_snapshot ?q)] [(?i, 1)] [?task True Forwarding, ?task False Connecting])"
    by (simp add: tunnel_run_defs)
  then have s4': "tunnel_step lower sh (Start ?q) (?r [(?i, ?run)] [] [?task True Forwarding]) =
      ?r [(?i, starting_snapshot ?q)] [(?i, 1)] [?task True Forwarding, ?task False Connecting]"
    by simp
  have s5: "tunnel_step lower sh (Finishes 0 (Inr ())) (?r [(?i, starting_snapshot ?q)] [(?i, 1)] [?task True Forwarding, ?task False Connecting]) =
      ?r [(?i, starting_snapshot ?q)] [(?i, 1)] [?task True (Returned (Inr ())), ?task False Connecting]"
    by (simp add: set_phase_def)
  have s6: "tunnel_step lower sh (RemovesHandle 0) (?r [(?i, starting_snapshot ?q)] [(?i, 1)] [?task True (Returned (Inr ())), ?task False Connecting]) =
      ?r [(?i, starting_snapshot ?q)] [] [?task True (HandleRemoved (Inr ())), ?task True Connecting]"
    by (simp add: set_phase_def remove_handle_def fire_def)
  have s7: "tunnel_step lower sh (Reports 0) (?r [(?i, starting_snapshot ?q)] [] [?task True (HandleRemoved (Inr ())), ?task True Connecting]) =
      ?r [] [] [?task True Ended, ?task True Connecting]"
    by (simp add: set_phase_def report_result_def remove_snapshot_def broadcast_def)
  have stopped: "stopped = ?r [(?i, ?run)] [] [?task True Forwarding]"
    unfolding stopped_def run_def by (simp only: fold_simps s1 s2 s3)
  have raced: "raced = ?r [] [] [?task True Ended, ?task True Connecting]"
    unfolding raced_def run_def
    by (simp only: fold_simps s1 s2 s3 s4' s5 s6 s7)
  have "tunnels_reach lower sh raced"
    unfolding raced_def run_def fold_simps
    by (intro tunnels_reach.intros) (simp_all only: s1 s2 s3 s4' s5 s6, simp_all add: new_tunnel_registry_def)
  then show ?thesis by (simp add: s4 stopped raced listens_def list_tunnels_def)
qed

end
