(* ===== verification/Ssh_Connect.thy ===== *)
theory Ssh_Connect
  imports Ssh_Tunnels
begin

text \<open>
  Opening an SSH connection (seance-ssh: auth.rs and the connection methods of manager.rs): the
  authentication loop, the stages of a connection, and the wrapper that cancels it or lets it time
  out. The SSH library (russh) is an oracle that answers every call.
\<close>

section \<open>Authentication\<close>

text \<open>What the key library and the server answer to one method: to a password; to parsing a key
  (whether it is encrypted, whether it is an RSA key), decrypting it, asking for the hash of RSA
  signatures, and offering it.\<close>

record auth_oracle =
  ao_password :: "string \<Rightarrow> string + bool"
  ao_parse :: "string \<Rightarrow> string + bool \<times> bool"
  ao_decrypt :: "string \<Rightarrow> string \<Rightarrow> string + unit"
  ao_rsa_hash :: "string + unit"
  ao_publickey :: "string \<Rightarrow> string + bool"

text \<open>One round of the loop: an error, or whether the server accepted.\<close>

fun try_method :: "auth_oracle \<Rightarrow> resolved_auth_method \<Rightarrow> ssh_error + bool" where
  "try_method w (ResolvedPassword password) = map_err Transport (ao_password w password)"
| "try_method w (ResolvedPrivateKey private_key_pem passphrase) =
     and_then_r (map_err InvalidPrivateKeyConfig (ao_parse w private_key_pem)) (\<lambda>(is_encrypted, is_rsa).
     and_then_r (if is_encrypted
                 then case passphrase of
                        None \<Rightarrow> Inl (InvalidPrivateKeyConfig ''encrypted private key is missing a passphrase'')
                      | Some p \<Rightarrow> map_err InvalidPrivateKeyConfig (ao_decrypt w private_key_pem p)
                 else Inr ()) (\<lambda>_.
     and_then_r (if is_rsa then map_err Transport (ao_rsa_hash w) else Inr ()) (\<lambda>_.
       map_err Transport (ao_publickey w private_key_pem))))"

text \<open>The loop over the methods; the answers may change from round to round.\<close>

fun authenticate_from :: "(nat \<Rightarrow> auth_oracle) \<Rightarrow> nat \<Rightarrow> resolved_auth_method list \<Rightarrow> ssh_error + unit" where
  "authenticate_from w n [] = Inl AuthenticationRejected"
| "authenticate_from w n (auth # auth_order) =
     and_then_r (try_method (w n) auth) (\<lambda>success.
       if success then Inr () else authenticate_from w (Suc n) auth_order)"

definition authenticate :: "(nat \<Rightarrow> auth_oracle) \<Rightarrow> resolved_auth_method list \<Rightarrow> ssh_error + unit" where
  "authenticate w auth_order = authenticate_from w 0 auth_order"

section \<open>The stages of a connection\<close>

record connect_oracle =
  co_connect :: "string + unit"
  co_auth :: "nat \<Rightarrow> auth_oracle"
  co_channel :: "string + unit"
  co_pty :: "string + unit"
  co_shell :: "string + unit"
  co_sftp_channel :: "string + unit"
  co_sftp_subsystem :: "string + unit"
  co_sftp_session :: "string + unit"
  co_thread :: "string + unit"

text \<open>The sessions whose SFTP channel is open.\<close>

type_synonym sftp_session_map = "(u64, unit) hashmap"

definition bootstrap_sftp :: "connect_oracle \<Rightarrow> u64 \<Rightarrow> sftp_session_map \<Rightarrow> (ssh_error + unit) \<times> sftp_session_map" where
  "bootstrap_sftp w session_id sftp_sessions =
     (case and_then_r (map_err SftpBootstrap (co_sftp_channel w)) (\<lambda>_.
           and_then_r (map_err SftpBootstrap (co_sftp_subsystem w)) (\<lambda>_.
             map_err SftpBootstrap (co_sftp_session w))) of
        Inl e \<Rightarrow> (Inl e, sftp_sessions)
      | Inr _ \<Rightarrow> (Inr (), hm_insert session_id () sftp_sessions))"

definition connect_async ::
  "connect_oracle \<Rightarrow> u64 \<Rightarrow> ssh_connect_request \<Rightarrow> sftp_session_map \<Rightarrow> (ssh_error + u64) \<times> sftp_session_map" where
  "connect_async w session_id request sftp_sessions =
     (case and_then_r (map_err Transport (co_connect w)) (\<lambda>_.
           and_then_r (authenticate (co_auth w) (cq_auth_order request)) (\<lambda>_.
           and_then_r (map_err Transport (co_channel w)) (\<lambda>_.
           and_then_r (map_err Transport (co_pty w)) (\<lambda>_.
             map_err Transport (co_shell w))))) of
        Inl e \<Rightarrow> (Inl e, sftp_sessions)
      | Inr _ \<Rightarrow>
          let (r, sftp_sessions') = bootstrap_sftp w session_id sftp_sessions in
          (and_then_r r (\<lambda>_. and_then_r (map_err Transport (co_thread w)) (\<lambda>_. Inr session_id)), sftp_sessions'))"

text \<open>How the race of the wrapper ends: its cancel channel fires or is dropped, the deadline passes, or
  the connection has its result. The cancel channel is polled first.\<close>

datatype connect_end = CancelFired | DeadlinePassed | ConnectCompleted

definition clear_sftp_session :: "u64 \<Rightarrow> sftp_session_map \<Rightarrow> sftp_session_map" where
  "clear_sftp_session session_id sftp_sessions = hm_remove session_id sftp_sessions"

definition run_connect_future ::
  "connect_oracle \<Rightarrow> connect_end \<Rightarrow> u64 \<Rightarrow> ssh_connect_request \<Rightarrow> sftp_session_map
     \<Rightarrow> (ssh_error + u64) \<times> sftp_session_map" where
  "run_connect_future w ended session_id request sftp_sessions =
     (let (result, sftp_sessions') =
        (case ended of
           CancelFired \<Rightarrow> (Inl Cancelled, sftp_sessions)
         | DeadlinePassed \<Rightarrow> (Inl TimedOut, sftp_sessions)
         | ConnectCompleted \<Rightarrow> connect_async w session_id request sftp_sessions) in
      (result, case result of Inl _ \<Rightarrow> clear_sftp_session session_id sftp_sessions' | Inr _ \<Rightarrow> sftp_sessions'))"

definition ssh_connect ::
  "connect_oracle \<Rightarrow> connect_end \<Rightarrow> u64 \<Rightarrow> ssh_connect_request \<Rightarrow> sftp_session_map
     \<Rightarrow> (ssh_error + u64) \<times> sftp_session_map" where
  "ssh_connect w ended session_id request sftp_sessions =
     (if cq_auth_order request = [] then (Inl MissingAuthMethods, sftp_sessions)
      else run_connect_future w ended session_id request sftp_sessions)"

definition sftp_ready :: "u64 \<Rightarrow> sftp_session_map \<Rightarrow> bool" where
  "sftp_ready session_id sftp_sessions \<longleftrightarrow> hm_get sftp_sessions session_id \<noteq> None"

section \<open>Authentication takes the first accepted method\<close>

text \<open>The first round that does not end with a refusal.\<close>

fun decisive :: "(nat \<Rightarrow> auth_oracle) \<Rightarrow> nat \<Rightarrow> resolved_auth_method list \<Rightarrow> (nat \<times> (ssh_error + bool)) option" where
  "decisive w n [] = None"
| "decisive w n (auth # auth_order) =
     (let r = try_method (w n) auth in if r = Inr False then decisive w (Suc n) auth_order else Some (n, r))"

lemma decisive_None:
  "decisive w n ms = None \<longleftrightarrow> (\<forall>k < length ms. try_method (w (n + k)) (ms ! k) = Inr False)"
proof (induction ms arbitrary: n)
  case (Cons m ms)
  have "(\<forall>k < length (m # ms). try_method (w (n + k)) ((m # ms) ! k) = Inr False) \<longleftrightarrow>
      try_method (w n) m = Inr False \<and> (\<forall>k < length ms. try_method (w (Suc n + k)) (ms ! k) = Inr False)"
    by (auto simp: less_Suc_eq_0_disj)
  with Cons.IH [of "Suc n"] show ?case by (simp add: Let_def)
qed simp

lemma decisive_Some:
  "decisive w n ms = Some (j, r) \<Longrightarrow>
   \<exists>k < length ms. j = n + k \<and> r = try_method (w j) (ms ! k) \<and> r \<noteq> Inr False
     \<and> (\<forall>i < k. try_method (w (n + i)) (ms ! i) = Inr False)"
proof (induction ms arbitrary: n)
  case (Cons m ms)
  show ?case
  proof (cases "try_method (w n) m = Inr False")
    case True
    with Cons obtain k where "k < length ms" "j = Suc n + k" "r = try_method (w j) (ms ! k)" "r \<noteq> Inr False"
      "\<forall>i < k. try_method (w (Suc n + i)) (ms ! i) = Inr False" by (fastforce simp: Let_def)
    with True show ?thesis by (intro exI [of _ "Suc k"]) (auto simp: less_Suc_eq_0_disj)
  next
    case False
    with Cons.prems show ?thesis by (intro exI [of _ 0]) (auto simp: Let_def)
  qed
qed simp

lemma authenticate_decisive:
  "authenticate_from w n ms = (case decisive w n ms of
     None \<Rightarrow> Inl AuthenticationRejected | Some (_, Inl e) \<Rightarrow> Inl e | Some (_, Inr _) \<Rightarrow> Inr ())"
proof (induction ms arbitrary: n)
  case (Cons m ms)
  show ?case
  proof (cases "try_method (w n) m")
    case (Inr b)
    with Cons show ?thesis by (cases b) (simp_all add: Let_def)
  qed (simp add: Let_def)
qed simp

text \<open>Authentication tries the methods of the host in their order and stops at the first that does
  not end with a refusal. It succeeds exactly when some method is accepted and all before it were
  refused; it fails with \<open>AuthenticationRejected\<close> exactly when every method was refused; and otherwise
  it fails with the error of a method all of whose predecessors were refused.\<close>

theorem authenticate_first_accepted:
  fixes w :: "nat \<Rightarrow> auth_oracle" and methods :: "resolved_auth_method list"
  defines "answer \<equiv> \<lambda>k. try_method (w k) (methods ! k)"
  defines "refused \<equiv> \<lambda>k. \<forall>i < k. answer i = Inr False"
  shows "(authenticate w methods = Inr () \<longleftrightarrow> (\<exists>k < length methods. answer k = Inr True \<and> refused k))
    \<and> (authenticate w methods = Inl e \<longleftrightarrow>
         (refused (length methods) \<and> e = AuthenticationRejected) \<or> (\<exists>k < length methods. answer k = Inl e \<and> refused k))"
proof (cases "decisive w 0 methods")
  case None
  then have all: "answer k = Inr False" if "k < length methods" for k
    using that by (simp add: decisive_None answer_def)
  then have "refused (length methods)" by (simp add: refused_def)
  with all None show ?thesis by (auto simp: authenticate_def authenticate_decisive)
next
  case (Some d)
  obtain j r where d: "d = (j, r)" by fastforce
  from decisive_Some [OF Some [unfolded d]] have j: "j < length methods" "answer j = r" "r \<noteq> Inr False" "refused j"
    by (auto simp: answer_def refused_def)
  have only: "k = j" if "answer k \<noteq> Inr False" "refused k" for k
    using that j by (metis linorder_neqE_nat refused_def)
  have "\<not> refused (length methods)" using j by (auto simp: refused_def)
  with only j Some d show ?thesis
    by (cases r) (auto simp: authenticate_def authenticate_decisive, (metis sum.sel sum.distinct)+)
qed

definition demo_auth_oracle :: auth_oracle where
  "demo_auth_oracle = \<lparr>ao_password = (\<lambda>p. Inr (p = ''good'')), ao_parse = (\<lambda>_. Inr (True, False)),
     ao_decrypt = (\<lambda>_ _. Inr ()), ao_rsa_hash = Inr (), ao_publickey = (\<lambda>_. Inr True)\<rparr>"

theorem authenticate_first_accepted_witness:
  "authenticate (\<lambda>_. demo_auth_oracle) [ResolvedPassword ''bad'', ResolvedPassword ''good''] = Inr ()"
proof -
  let ?ms = "[ResolvedPassword ''bad'', ResolvedPassword ''good'']"
  have "\<exists>k < length ?ms. try_method demo_auth_oracle (?ms ! k) = Inr True
      \<and> (\<forall>i < k. try_method demo_auth_oracle (?ms ! i) = Inr False)"
    by (rule exI [of _ 1]) (simp add: demo_auth_oracle_def map_err_def)
  then show ?thesis using authenticate_first_accepted [of "\<lambda>_. demo_auth_oracle" ?ms] by blast
qed

text \<open>A key that cannot be used ends the authentication, though a later method would be accepted.\<close>

theorem unusable_key_blocks_password:
  "authenticate (\<lambda>_. demo_auth_oracle) [ResolvedPrivateKey pem None, ResolvedPassword ''good''] =
     Inl (InvalidPrivateKeyConfig ''encrypted private key is missing a passphrase'')"
  "try_method demo_auth_oracle (ResolvedPassword ''good'') = Inr True"
  by (simp_all add: authenticate_def demo_auth_oracle_def map_err_def)

section \<open>A connection and its SFTP session\<close>

lemma bootstrap_cases:
  "case bootstrap_sftp w i m of (Inl e, m') \<Rightarrow> m' = m | (Inr _, m') \<Rightarrow> m' = hm_insert i () m"
  by (auto simp: bootstrap_sftp_def split: sum.splits)

lemma connect_async_cases:
  "case connect_async w i req m of
     (Inr j, m') \<Rightarrow> j = i \<and> m' = hm_insert i () m \<and> authenticate (co_auth w) (cq_auth_order req) = Inr ()
   | (Inl e, m') \<Rightarrow> m' = m \<or> m' = hm_insert i () m"
proof -
  obtain r m1 where b: "bootstrap_sftp w i m = (r, m1)" by fastforce
  show ?thesis
    using bootstrap_cases [where w = w and i = i and m = m] b
    by (auto simp: connect_async_def and_then_r_Inr split: sum.splits)
qed

text \<open>C22. A connection is made completely or not at all. If it succeeds, it was neither cancelled nor
  timed out, a method of the host was accepted, the result is the session asked for, and its SFTP
  session is ready. If it fails at any stage, is cancelled or times out, no SFTP session is left
  under its number. The SFTP sessions of other connections stay as they are in either case.\<close>

theorem connect_all_or_nothing:
  assumes "ssh_connect w ended i req m = (r, m')"
  shows "(case r of
        Inr j \<Rightarrow> j = i \<and> ended = ConnectCompleted \<and> authenticate (co_auth w) (cq_auth_order req) = Inr () \<and> sftp_ready i m'
      | Inl e \<Rightarrow> if cq_auth_order req = [] then e = MissingAuthMethods \<and> m' = m else \<not> sftp_ready i m')
    \<and> (\<forall>j. j = i \<or> sftp_ready j m' = sftp_ready j m)"
proof (cases "cq_auth_order req = []")
  case True
  with assms show ?thesis by (auto simp: ssh_connect_def)
next
  case False
  obtain r0 m0 where c: "connect_async w i req m = (r0, m0)" by fastforce
  have run: "run_connect_future w ended i req m = (r, m')" using assms False by (simp add: ssh_connect_def)
  show ?thesis
  proof (cases "ended = ConnectCompleted \<and> (\<exists>j. r0 = Inr j)")
    case True
    then obtain j where j: "ended = ConnectCompleted" "r0 = Inr j" by blast
    with connect_async_cases [where w = w and i = i and req = req and m = m] c
    have "j = i" "m0 = hm_insert i () m" "authenticate (co_auth w) (cq_auth_order req) = Inr ()" by simp_all
    moreover from run c j have "r = Inr j" "m' = m0" by (simp_all add: run_connect_future_def)
    ultimately show ?thesis using j by (simp add: sftp_ready_def)
  next
    case none: False
    have "\<exists>e m1. r = Inl e \<and> m' = clear_sftp_session i m1 \<and> (m1 = m \<or> m1 = hm_insert i () m)"
    proof (cases ended)
      case ConnectCompleted
      with none obtain e where "r0 = Inl e" by (cases r0) auto
      with ConnectCompleted run c connect_async_cases [where w = w and i = i and req = req and m = m]
      show ?thesis by (auto simp: run_connect_future_def)
    qed (use run in \<open>auto simp: run_connect_future_def\<close>)
    then show ?thesis using False by (auto simp: clear_sftp_session_def sftp_ready_def)
  qed
qed

definition demo_connect_oracle :: connect_oracle where
  "demo_connect_oracle = \<lparr>co_connect = Inr (), co_auth = (\<lambda>_. demo_auth_oracle), co_channel = Inr (), co_pty = Inr (),
     co_shell = Inr (), co_sftp_channel = Inr (), co_sftp_subsystem = Inr (), co_sftp_session = Inr (),
     co_thread = Inl ''no threads''\<rparr>"

definition demo_connect_request :: ssh_connect_request where
  "demo_connect_request = \<lparr>cq_connection = \<lparr>sc_label = ''a'', sc_hostname = ''h'', sc_port = 22, sc_username = ''u''\<rparr>,
     cq_auth_order = [ResolvedPassword ''good'']\<rparr>"

theorem connect_all_or_nothing_witness:
  "\<not> sftp_ready 7 (snd (ssh_connect demo_connect_oracle ConnectCompleted 7 demo_connect_request []))"
proof -
  have "ssh_connect demo_connect_oracle ConnectCompleted 7 demo_connect_request [] = (Inl (Transport ''no threads''), [])"
    by (simp add: ssh_connect_def run_connect_future_def connect_async_def bootstrap_sftp_def demo_connect_oracle_def
        demo_connect_request_def authenticate_def demo_auth_oracle_def map_err_def clear_sftp_session_def)
  from connect_all_or_nothing [OF this] this show ?thesis by (simp add: demo_connect_request_def)
qed

end
