(* ===== verification/Ui_Palette.thy ===== *)
theory Ui_Palette
  imports Core_Records Ssh_Tunnels Updater Rust_Unicode
begin

text \<open>
  The command palette (seance-ui, palette.rs, with the theme identifiers of theme.rs, the scope keys
  and the selection of workspace.rs): the fuzzy matcher, the list of actions the palette offers, its
  rows with their group headers, and paging through them. Unicode lower case of a character is a
  parameter.
\<close>

section \<open>Scope keys and themes\<close>

definition item_scope_key :: "string \<Rightarrow> string \<Rightarrow> string" where
  "item_scope_key vault_id item_id = vault_id @ ''::'' @ item_id"

definition host_scope_key :: "string \<Rightarrow> string \<Rightarrow> string" where
  "host_scope_key vault_id host_id = item_scope_key vault_id host_id"

text \<open>\<open>split_once\<close> cuts at the first occurrence.\<close>

fun split_scope_key :: "string \<Rightarrow> (string \<times> string) option" where
  "split_scope_key (a # b # s) =
     (if a = CHR '':'' \<and> b = CHR '':'' then Some ([], s)
      else map_option (\<lambda>(p, q). (a # p, q)) (split_scope_key (b # s)))"
| "split_scope_key s = None"

datatype theme_id = ObsidianSmoke | MidnightFrost | Bone | Phosphor | TokyoNight | CatppuccinMocha
  | RosePine | Dracula | Nord | SolarizedDark

definition all_themes :: "theme_id list" where
  "all_themes = [ObsidianSmoke, MidnightFrost, Bone, Phosphor, TokyoNight, CatppuccinMocha, RosePine, Dracula,
     Nord, SolarizedDark]"

fun theme_key :: "theme_id \<Rightarrow> string" where
  "theme_key ObsidianSmoke = ''obsidian-smoke''"
| "theme_key MidnightFrost = ''midnight-frost''"
| "theme_key Bone = ''bone''"
| "theme_key Phosphor = ''phosphor''"
| "theme_key TokyoNight = ''tokyo-night''"
| "theme_key CatppuccinMocha = ''catppuccin-mocha''"
| "theme_key RosePine = ''rose-pine''"
| "theme_key Dracula = ''dracula''"
| "theme_key Nord = ''nord''"
| "theme_key SolarizedDark = ''solarized-dark''"

definition theme_from_key :: "string \<Rightarrow> theme_id option" where
  "theme_from_key key = find (\<lambda>t. theme_key t = key) all_themes"

text \<open>The name of a theme, as UTF-8 (the accent of the seventh is two bytes).\<close>

fun theme_name :: "theme_id \<Rightarrow> string" where
  "theme_name ObsidianSmoke = ''Obsidian Smoke''"
| "theme_name MidnightFrost = ''Midnight Frost''"
| "theme_name Bone = ''Bone''"
| "theme_name Phosphor = ''Phosphor''"
| "theme_name TokyoNight = ''Tokyo Night''"
| "theme_name CatppuccinMocha = ''Catppuccin Mocha''"
| "theme_name RosePine = ''Ros'' @ [CHR 0xC3, CHR 0xA9] @ '' Pine''"
| "theme_name Dracula = ''Dracula''"
| "theme_name Nord = ''Nord''"
| "theme_name SolarizedDark = ''Solarized Dark''"

section \<open>Items\<close>

datatype palette_group = GSessions | GHosts | GTunnels | GVault | GAppearance | GSystem

fun group_label :: "palette_group \<Rightarrow> string" where
  "group_label GSessions = ''SESSIONS''"
| "group_label GHosts = ''HOSTS''"
| "group_label GTunnels = ''TUNNELS''"
| "group_label GVault = ''VAULT''"
| "group_label GAppearance = ''APPEARANCE''"
| "group_label GSystem = ''SYSTEM''"

datatype palette_action =
    NewLocalTerminal | CheckForUpdates | InstallAvailableUpdate | SwitchSession u64 | CloseActiveSession
  | CopyPreviousTurn | SelectPreviousTurn | CopyTerminalOutput | SwitchTheme theme_id
  | UnlockVault | LockVault | OpenVaultPanel | AddSavedHost | OpenNewHostWizard | AddPasswordCredential
  | EditPasswordCredential string string | DeletePasswordCredential string string
  | GenerateEd25519Key | GenerateRsaKey | ImportPrivateKeyFiles | DiscoverPrivateKeys | PastePrivateKey
  | DeletePrivateKey string string | EditSavedHost string string | DeleteSavedHost string string
  | CancelSavedHostConnect u64 | ConnectSavedHost string string | OpenSftpBrowser u64 | OpenTunnelManager
  | OpenHostTunnelSettings string string | StartTunnel string string | StopTunnel string | OpenPreferences

record palette_item =
  pi_glyph :: string
  pi_label :: string
  pi_hint :: string
  pi_action :: palette_action
  pi_group :: palette_group
  pi_shortcut_command :: "string option"
  pi_match_indices :: "nat list"

record pending_connect_summary =
  pc_id :: u64
  pc_host_scope_key :: string
  pc_host_label :: string

text \<open>A session as the palette sees it: its id and title.\<close>

record palette_session =
  ps_session_id :: u64
  ps_title :: string

text \<open>A struct literal of the source, with its fields in order and no matches.\<close>

definition new_item ::
  "palette_group \<Rightarrow> string \<Rightarrow> string \<Rightarrow> string \<Rightarrow> palette_action \<Rightarrow> string option \<Rightarrow> palette_item" where
  "new_item grp g label hint action shortcut =
     \<lparr>pi_glyph = g, pi_label = label, pi_hint = hint, pi_action = action, pi_group = grp,
      pi_shortcut_command = shortcut, pi_match_indices = []\<rparr>"

definition glyph :: "nat list \<Rightarrow> string" where
  "glyph bs = map char_of bs"

abbreviation cross_glyph :: string where "cross_glyph \<equiv> glyph [0xC3, 0x97]"
abbreviation arrow_glyph :: string where "arrow_glyph \<equiv> glyph [0xE2, 0x86, 0x92]"
abbreviation pencil_glyph :: string where "pencil_glyph \<equiv> glyph [0xE2, 0x9C, 0x8E]"
abbreviation gear_glyph :: string where "gear_glyph \<equiv> glyph [0xE2, 0x9A, 0x99]"
abbreviation diamond_glyph :: string where "diamond_glyph \<equiv> glyph [0xE2, 0x97, 0x88]"
abbreviation squares_glyph :: string where "squares_glyph \<equiv> glyph [0xE2, 0xA7, 0x89]"

definition session_label :: "(u64, string) hashmap \<Rightarrow> palette_session \<Rightarrow> string" where
  "session_label labels session =
     (case hm_get labels (ps_session_id session) of Some l \<Rightarrow> l | None \<Rightarrow> ps_title session)"

definition session_items ::
  "palette_session list \<Rightarrow> (u64, string) hashmap \<Rightarrow> u64 \<Rightarrow> u64 list \<Rightarrow> palette_item list" where
  "session_items sessions labels active_id remote_session_ids =
     [new_item GSessions ''+'' ''New Local Terminal'' ''Spawn a new shell session'' NewLocalTerminal
        (Some ''session.new_local'')]
     @ map (\<lambda>s. new_item GSessions (glyph [0xE2, 0x80, 0xBA]) (''Switch to '' @ session_label labels s)
           (''session #'' @ show_nat (unat (ps_session_id s))) (SwitchSession (ps_session_id s)) None)
         (filter (\<lambda>s. ps_session_id s \<noteq> active_id) sessions)
     @ (if sessions \<noteq> [] then
          [new_item GSessions cross_glyph ''Close Active Session'' ''Terminate the current terminal''
             CloseActiveSession (Some ''session.close_active'')]
          @ (if list_ex (\<lambda>s. ps_session_id s = active_id) sessions then
               [new_item GSessions (glyph [0xE2, 0xA4, 0xBA]) ''Select Previous Turn''
                  ''Highlight the latest submitted command turn'' SelectPreviousTurn None,
                new_item GSessions squares_glyph ''Copy Previous Turn''
                  ''Copy latest submitted command + output'' CopyPreviousTurn (Some ''session.copy_previous_turn''),
                new_item GSessions squares_glyph ''Copy Terminal Output''
                  ''Copy active screen output to clipboard'' CopyTerminalOutput None]
             else [])
        else [])
     @ map (\<lambda>s. new_item GSessions (glyph [0xE2, 0x96, 0xA4]) (''Browse Files: '' @ session_label labels s)
           ''Open SFTP file browser'' (OpenSftpBrowser (ps_session_id s)) None)
         (filter (\<lambda>s. ps_session_id s \<in> set remote_session_ids) sessions)"

text \<open>The last pending attempt of a scope wins, as in a map collected from the list.\<close>

definition pending_by_scope :: "pending_connect_summary list \<Rightarrow> string \<Rightarrow> pending_connect_summary option" where
  "pending_by_scope pending key = find (\<lambda>p. pc_host_scope_key p = key) (rev pending)"

definition host_items ::
  "vault_scoped_host_summary list \<Rightarrow> pending_connect_summary list \<Rightarrow> palette_item list" where
  "host_items saved_hosts pending =
     [new_item GHosts diamond_glyph ''Add Saved Host'' ''Store an encrypted SSH config'' AddSavedHost None,
      new_item GHosts (glyph [0xE2, 0x98, 0xB0]) ''New Host Wizard'' ''Guided host setup with auth and review''
        OpenNewHostWizard None]
     @ concat (map (\<lambda>h.
         let v = sh_vault_id h; i = hs_id (sh_host h); label = hs_label (sh_host h);
             bracket = '' ['' @ sh_vault_name h @ '']'';
             target = hs_username (sh_host h) @ ''@'' @ hs_hostname (sh_host h) @ '':'' @ show_nat (unat (hs_port (sh_host h)))
         in
         [case pending_by_scope pending (host_scope_key v i) of
            Some p \<Rightarrow> new_item GHosts cross_glyph (''Cancel Connect: '' @ pc_host_label p @ bracket)
              (''connecting to '' @ target) (CancelSavedHostConnect (pc_id p)) None
          | None \<Rightarrow> new_item GHosts arrow_glyph (''Connect: '' @ label @ bracket) target (ConnectSavedHost v i) None,
          new_item GHosts pencil_glyph (''Edit: '' @ label @ bracket) ''Update the encrypted record'' (EditSavedHost v i) None,
          new_item GHosts cross_glyph (''Delete: '' @ label @ bracket) ''Remove this saved host'' (DeleteSavedHost v i) None])
       saved_hosts)"

definition tunnel_items ::
  "vault_scoped_host_summary list \<Rightarrow> vault_scoped_port_forward_summary list
     \<Rightarrow> port_forward_runtime_snapshot list \<Rightarrow> palette_item list" where
  "tunnel_items saved_hosts port_forwards active =
     [new_item GTunnels (glyph [0xE2, 0x87, 0x84]) ''Open Tunnel Manager'' ''Manage saved port forwarding rules''
        OpenTunnelManager None]
     @ map (\<lambda>p.
         let f = vp_port_forward p; key = item_scope_key (vp_vault_id p) (ps_id f);
             name = ps_label f @ '' ['' @ vp_host_label p @ '' / '' @ vp_vault_name p @ '']'';
             target = ps_listen_address f @ '':'' @ show_nat (unat (ps_listen_port f)) @ '' -> ''
               @ ps_target_address f @ '':'' @ show_nat (unat (ps_target_port f))
         in
         if list_ex (\<lambda>s. rs_id s = key) active
         then new_item GTunnels cross_glyph (''Stop Tunnel: '' @ name) target (StopTunnel key) None
         else new_item GTunnels arrow_glyph (''Start Tunnel: '' @ name) target (StartTunnel (vp_vault_id p) (ps_id f)) None)
       port_forwards
     @ map (\<lambda>h. new_item GTunnels gear_glyph
           (''Host Tunnel Settings: '' @ hs_label (sh_host h) @ '' ['' @ sh_vault_name h @ '']'')
           ''Jump to linked port forwarding rules'' (OpenHostTunnelSettings (sh_vault_id h) (hs_id (sh_host h))) None)
         (filter (\<lambda>h. list_ex (\<lambda>p. vp_vault_id p = sh_vault_id h \<and> vp_host_id p = hs_id (sh_host h)) port_forwards)
           saved_hosts)"

fun algorithm_hint :: "private_key_algorithm \<Rightarrow> string" where
  "algorithm_hint Ed25519 = ''Ed25519''"
| "algorithm_hint (Rsa bits) = (if bits = 4096 then ''RSA-4096'' else ''RSA'')"

definition vault_items ::
  "vault_scoped_credential_summary list \<Rightarrow> vault_scoped_key_summary list \<Rightarrow> palette_item list" where
  "vault_items credentials keys =
     [new_item GVault diamond_glyph ''Open Vault Panel'' ''Manage credentials and SSH keys'' OpenVaultPanel None,
      new_item GVault ''+'' ''Add Password Credential'' ''Store an encrypted password'' AddPasswordCredential None,
      new_item GVault ''+'' ''Generate Ed25519 Key'' ''Create a new vault-backed Ed25519 key'' GenerateEd25519Key None,
      new_item GVault ''+'' ''Generate RSA Key'' ''Create a new vault-backed RSA key'' GenerateRsaKey None,
      new_item GVault (glyph [0xE2, 0xA4, 0x93]) ''Import Key Files'' ''Choose one or more private key files''
        ImportPrivateKeyFiles None,
      new_item GVault (glyph [0xE2, 0x8C, 0x82]) ''Discover ~/.ssh Keys''
        ''Scan ~/.ssh and import available private keys'' DiscoverPrivateKeys None,
      new_item GVault (glyph [0xC2, 0xB6]) ''Paste Private Key'' ''Import a PEM key from clipboard text''
        PastePrivateKey None]
     @ concat (map (\<lambda>c.
         let v = vc_vault_id c; i = cs_id (vc_credential c);
             name = cs_label (vc_credential c) @ '' ['' @ vc_vault_name c @ '']'' in
         [new_item GVault pencil_glyph (''Edit: '' @ name)
            (case cs_username_hint (vc_credential c) of Some h \<Rightarrow> h | None \<Rightarrow> ''password credential'')
            (EditPasswordCredential v i) None,
          new_item GVault cross_glyph (''Delete: '' @ name) ''Remove this credential'' (DeletePasswordCredential v i) None])
       credentials)
     @ map (\<lambda>k. new_item GVault cross_glyph (''Delete Key: '' @ ks_label (vk_key k) @ '' ['' @ vk_vault_name k @ '']'')
           (algorithm_hint (ks_algorithm (vk_key k))) (DeletePrivateKey (vk_vault_id k) (ks_id (vk_key k))) None) keys
     @ [new_item GVault (glyph [0xE2, 0x97, 0x86]) ''Lock Vault'' ''Remove decrypted keys from memory'' LockVault None]"

definition unlock_item :: palette_item where
  "unlock_item = new_item GVault (glyph [0xE2, 0x97, 0x87]) ''Unlock Vault'' ''Use your passphrase or enrolled device''
     UnlockVault None"

definition appearance_items :: "theme_id \<Rightarrow> palette_item list" where
  "appearance_items active_theme =
     map (\<lambda>t. new_item GAppearance (glyph [0xE2, 0x97, 0x91]) (''Theme: '' @ theme_name t) ''Switch appearance''
         (SwitchTheme t) None) (filter (\<lambda>t. t \<noteq> active_theme) all_themes)"

definition system_items :: "update_state \<Rightarrow> palette_item list" where
  "system_items update_state =
     [new_item GSystem gear_glyph ''Open Preferences'' ''App settings and configuration'' OpenPreferences
        (Some ''app.open_preferences''),
      new_item GSystem (glyph [0xE2, 0x86, 0x91]) ''Check for Updates'' ''Query the stable release channel''
        CheckForUpdates None]
     @ (case update_state of
          Available u \<Rightarrow> [new_item GSystem (glyph [0xE2, 0x87, 0xAA]) ''Install Available Update''
            ''Download and install the newest release'' InstallAvailableUpdate None]
        | _ \<Rightarrow> [])"

section \<open>The matcher\<close>

text \<open>\<open>str::chars\<close>: the code points of a UTF-8 text, by the length its first byte announces.\<close>

definition cont :: "char \<Rightarrow> nat" where
  "cont c = of_char c mod 64"

fun chars_of :: "string \<Rightarrow> utext" where
  "chars_of [] = []"
| "chars_of (a # s) =
     (let n = (of_char a :: nat) in
      if n < 0x80 then n # chars_of s
      else if n < 0xE0 then (n mod 32 * 64 + cont (hd s)) # chars_of (drop 1 s)
      else if n < 0xF0 then (n mod 16 * 4096 + cont (hd s) * 64 + cont (s ! 1)) # chars_of (drop 2 s)
      else (n mod 8 * 262144 + cont (hd s) * 4096 + cont (s ! 1) * 64 + cont (s ! 2)) # chars_of (drop 3 s))"

text \<open>Space, underscore, hyphen and colon.\<close>

definition word_break :: "nat \<Rightarrow> bool" where
  "word_break c \<longleftrightarrow> c \<in> {32, 95, 45, 58}"

record fuzzy_state =
  fz_score :: int
  fz_indices :: "nat list"
  fz_hay_idx :: nat
  fz_prev_match :: bool
  fz_consecutive :: int

text \<open>What a match of \<open>nc\<close> at position \<open>i\<close> adds.\<close>

definition fuzzy_hit :: "utext \<Rightarrow> nat \<Rightarrow> nat \<Rightarrow> fuzzy_state \<Rightarrow> fuzzy_state" where
  "fuzzy_hit hay nc i z =
     (let consecutive = (if fz_prev_match z then fz_consecutive z + 1 else 0);
          base = (if fz_prev_match z then 4 + consecutive else 1);
          is_word_start = (i = 0 \<or> word_break (hay ! (i - 1))) in
      \<lparr>fz_score = fz_score z + base + (if is_word_start then 6 else 0) + (if i = 0 then 8 else 0)
         + (if hay ! i = nc then 1 else 0),
       fz_indices = fz_indices z @ [i], fz_hay_idx = i + 1, fz_prev_match = True, fz_consecutive = consecutive\<rparr>)"

definition fuzzy_miss :: "nat \<Rightarrow> fuzzy_state \<Rightarrow> fuzzy_state" where
  "fuzzy_miss i z = z\<lparr>fz_hay_idx := i + 1, fz_prev_match := False, fz_consecutive := 0\<rparr>"

text \<open>The inner loop: scan on to the next match of \<open>nc\<close>.\<close>

function fuzzy_scan :: "(nat \<Rightarrow> nat) \<Rightarrow> utext \<Rightarrow> nat \<Rightarrow> fuzzy_state \<Rightarrow> fuzzy_state option" where
  "fuzzy_scan lower hay nc z =
     (if fz_hay_idx z < length hay
      then if lower (hay ! fz_hay_idx z) = lower nc then Some (fuzzy_hit hay nc (fz_hay_idx z) z)
           else fuzzy_scan lower hay nc (fuzzy_miss (fz_hay_idx z) z)
      else None)"
  by pat_completeness auto
termination
  by (relation "measure (\<lambda>(lower, hay, nc, z). length hay - fz_hay_idx z)") (auto simp: fuzzy_miss_def)

declare fuzzy_scan.simps [simp del]

fun fuzzy_loop :: "(nat \<Rightarrow> nat) \<Rightarrow> utext \<Rightarrow> utext \<Rightarrow> fuzzy_state \<Rightarrow> fuzzy_state option" where
  "fuzzy_loop lower hay [] z = Some z"
| "fuzzy_loop lower hay (nc # need) z = Option.bind (fuzzy_scan lower hay nc z) (fuzzy_loop lower hay need)"

definition fuzzy_start :: fuzzy_state where
  "fuzzy_start = \<lparr>fz_score = 0, fz_indices = [], fz_hay_idx = 0, fz_prev_match = False, fz_consecutive = 0\<rparr>"

text \<open>The score is an \<open>i32\<close> in the code; it would take tens of thousands of consecutive matches to exceed it, so
  that it is an integer here.\<close>

definition fuzzy_score :: "(nat \<Rightarrow> nat) \<Rightarrow> string \<Rightarrow> string \<Rightarrow> (int \<times> nat list) option" where
  "fuzzy_score lower haystack needle =
     (if needle = [] then Some (0, [])
      else map_option (\<lambda>z. (fz_score z, fz_indices z)) (fuzzy_loop lower (chars_of haystack) (chars_of needle) fuzzy_start))"

section \<open>Building the list\<close>

text \<open>The arguments of \<open>build_items\<close>.\<close>

record palette_context =
  px_sessions :: "palette_session list"
  px_session_labels :: "(u64, string) hashmap"
  px_saved_hosts :: "vault_scoped_host_summary list"
  px_pending_connects :: "pending_connect_summary list"
  px_credentials :: "vault_scoped_credential_summary list"
  px_keys :: "vault_scoped_key_summary list"
  px_port_forwards :: "vault_scoped_port_forward_summary list"
  px_active_port_forwards :: "port_forward_runtime_snapshot list"
  px_active_id :: u64
  px_active_theme :: theme_id
  px_query :: string
  px_vault_unlocked :: bool
  px_remote_session_ids :: "u64 list"
  px_update_state :: update_state

definition all_items :: "palette_context \<Rightarrow> palette_item list" where
  "all_items x =
     session_items (px_sessions x) (px_session_labels x) (px_active_id x) (px_remote_session_ids x)
     @ (if px_vault_unlocked x then host_items (px_saved_hosts x) (px_pending_connects x) else [])
     @ (if px_vault_unlocked x
        then tunnel_items (px_saved_hosts x) (px_port_forwards x) (px_active_port_forwards x) else [])
     @ (if px_vault_unlocked x then vault_items (px_credentials x) (px_keys x) else [unlock_item])
     @ appearance_items (px_active_theme x)
     @ system_items (px_update_state x)"

definition score_item :: "(nat \<Rightarrow> nat) \<Rightarrow> string \<Rightarrow> palette_item \<Rightarrow> (int \<times> palette_item) option" where
  "score_item lower query item =
     (case fuzzy_score lower (pi_label item) query of
        Some (ls, indices) \<Rightarrow> Some (ls + 10, item\<lparr>pi_match_indices := indices\<rparr>)
      | None \<Rightarrow>
          case fuzzy_score lower (pi_hint item) query of
            Some (hs, _) \<Rightarrow> Some (hs, item)
          | None \<Rightarrow> None)"

definition build_items :: "(nat \<Rightarrow> nat) \<Rightarrow> palette_context \<Rightarrow> palette_item list" where
  "build_items lower x =
     (if px_query x \<noteq> []
      then map snd (sort_key (\<lambda>p. - fst p) (List.map_filter (score_item lower (px_query x)) (all_items x)))
      else all_items x)"

section \<open>Rows\<close>

datatype palette_row = Header palette_group | Item nat palette_item

record palette_view_model =
  vm_items :: "palette_item list"
  vm_rows :: "palette_row list"
  vm_item_to_row :: "nat list"
  vm_row_to_item :: "nat option list"

fun flatten_loop ::
  "bool \<Rightarrow> nat \<Rightarrow> palette_item list \<Rightarrow> palette_group option \<Rightarrow> palette_row list \<Rightarrow> nat list \<Rightarrow> nat option list
     \<Rightarrow> palette_row list \<times> nat list \<times> nat option list" where
  "flatten_loop show_groups n [] prev rows item_to_row row_to_item = (rows, item_to_row, row_to_item)"
| "flatten_loop show_groups n (item # items) prev rows item_to_row row_to_item =
     (let header = (show_groups \<and> prev \<noteq> Some (pi_group item));
          rows' = (if header then rows @ [Header (pi_group item)] else rows);
          row_to_item' = (if header then row_to_item @ [None] else row_to_item);
          prev' = (if header then Some (pi_group item) else prev) in
      flatten_loop show_groups (Suc n) items prev' (rows' @ [Item n item]) (item_to_row @ [length rows'])
        (row_to_item' @ [Some n]))"

definition flatten_items :: "palette_item list \<Rightarrow> bool \<Rightarrow> palette_view_model" where
  "flatten_items items show_groups =
     (let (rows, item_to_row, row_to_item) = flatten_loop show_groups 0 items None [] [] [] in
      \<lparr>vm_items = items, vm_rows = rows, vm_item_to_row = item_to_row, vm_row_to_item = row_to_item\<rparr>)"

definition first_item :: "nat option list \<Rightarrow> nat option" where
  "first_item xs = (case List.map_filter id xs of [] \<Rightarrow> None | n # _ \<Rightarrow> Some n)"

definition find_item_at_or_after :: "nat option list \<Rightarrow> nat \<Rightarrow> nat option" where
  "find_item_at_or_after row_to_item target_row = first_item (drop target_row row_to_item)"

definition find_item_at_or_before :: "nat option list \<Rightarrow> nat \<Rightarrow> nat option" where
  "find_item_at_or_before row_to_item target_row = first_item (rev (take (target_row + 1) row_to_item))"

datatype page_direction = PageUp | PageDown

definition or_else :: "'a option \<Rightarrow> 'a option \<Rightarrow> 'a option" where
  "or_else a b = (case a of Some x \<Rightarrow> Some x | None \<Rightarrow> b)"

definition page_target_index :: "nat option list \<Rightarrow> nat list \<Rightarrow> nat \<Rightarrow> nat \<Rightarrow> page_direction \<Rightarrow> nat" where
  "page_target_index row_to_item item_to_row current_item visible_row_span direction =
     (if item_to_row = [] then 0 else
      let current_row = item_to_row ! min current_item (length item_to_row - 1);
          span = max visible_row_span 1 in
      case direction of
        PageDown \<Rightarrow>
          (case or_else (find_item_at_or_after row_to_item (min (current_row + span) (length row_to_item - 1)))
             (find_item_at_or_before row_to_item (length row_to_item - 1)) of Some n \<Rightarrow> n | None \<Rightarrow> 0)
      | PageUp \<Rightarrow>
          (case or_else (find_item_at_or_before row_to_item (current_row - span))
             (find_item_at_or_after row_to_item 0) of Some n \<Rightarrow> n | None \<Rightarrow> 0))"

definition palette_view_model_of :: "(nat \<Rightarrow> nat) \<Rightarrow> palette_context \<Rightarrow> palette_view_model" where
  "palette_view_model_of lower x = flatten_items (build_items lower x) (px_query x = [])"

definition set_palette_selection :: "palette_view_model \<Rightarrow> nat \<Rightarrow> nat" where
  "set_palette_selection vm new_index =
     (if vm_items vm = [] then 0 else min new_index (length (vm_items vm) - 1))"

definition move_palette_by_page :: "palette_view_model \<Rightarrow> nat \<Rightarrow> page_direction \<Rightarrow> nat \<Rightarrow> nat" where
  "move_palette_by_page vm visible_row_span direction selected =
     (if vm_items vm = [] then 0
      else set_palette_selection vm
        (page_target_index (vm_row_to_item vm) (vm_item_to_row vm) (min selected (length (vm_items vm) - 1)) visible_row_span direction))"

section \<open>The matcher finds exactly the subsequences\<close>

text \<open>The positions \<open>js\<close> match \<open>need\<close> from position \<open>i\<close> on, in order.\<close>

definition matches_from :: "(nat \<Rightarrow> nat) \<Rightarrow> utext \<Rightarrow> nat \<Rightarrow> utext \<Rightarrow> nat list \<Rightarrow> bool" where
  "matches_from lower hay i need js \<longleftrightarrow>
     sorted_wrt (<) js \<and> list_all (\<lambda>j. i \<le> j \<and> j < length hay) js \<and> list_all2 (\<lambda>j c. lower (hay ! j) = lower c) js need"

lemma scan_subseq:
  "case fuzzy_scan lower hay nc z of
     None \<Rightarrow> \<not> subseq (lower nc # need) (map lower (drop (fz_hay_idx z) hay))
   | Some z' \<Rightarrow> subseq (lower nc # need) (map lower (drop (fz_hay_idx z) hay)) = subseq need (map lower (drop (fz_hay_idx z') hay))
       \<and> fz_indices z' = fz_indices z @ [fz_hay_idx z' - 1] \<and> lower (hay ! (fz_hay_idx z' - 1)) = lower nc
       \<and> fz_hay_idx z < fz_hay_idx z' \<and> fz_hay_idx z' \<le> length hay"
proof (induction lower hay nc z rule: fuzzy_scan.induct)
  case (1 lower hay nc z)
  let ?i = "fz_hay_idx z"
  show ?case
  proof (cases "?i < length hay")
    case True
    then have d: "drop ?i hay = hay ! ?i # drop (Suc ?i) hay" by (simp add: Cons_nth_drop_Suc)
    show ?thesis
    proof (cases "lower (hay ! ?i) = lower nc")
      case hit: True
      with True d show ?thesis
        by (subst fuzzy_scan.simps) (simp add: fuzzy_hit_def Let_def)
    next
      case miss: False
      have "fuzzy_scan lower hay nc z = fuzzy_scan lower hay nc (fuzzy_miss ?i z)"
        by (subst fuzzy_scan.simps) (simp add: True miss)
      moreover have "fz_hay_idx (fuzzy_miss ?i z) = Suc ?i" "fz_indices (fuzzy_miss ?i z) = fz_indices z"
        by (simp_all add: fuzzy_miss_def)
      ultimately show ?thesis
        using "1.IH" [OF True miss] d miss by (auto split: option.splits)
    qed
  next
    case False
    then show ?thesis by (subst fuzzy_scan.simps) simp
  qed
qed

lemma fuzzy_loop_exact:
  "case fuzzy_loop lower hay need z of
     None \<Rightarrow> \<not> subseq (map lower need) (map lower (drop (fz_hay_idx z) hay))
   | Some z' \<Rightarrow> subseq (map lower need) (map lower (drop (fz_hay_idx z) hay))
       \<and> (\<exists>js. fz_indices z' = fz_indices z @ js \<and> matches_from lower hay (fz_hay_idx z) need js)"
proof (induction need arbitrary: z)
  case Nil
  show ?case by (simp add: matches_from_def)
next
  case (Cons nc need)
  note scan = scan_subseq [where lower = lower and hay = hay and nc = nc and z = z and need = "map lower need"]
  show ?case
  proof (cases "fuzzy_scan lower hay nc z")
    case None
    with scan show ?thesis by simp
  next
    case (Some y)
    show ?thesis
    proof (cases "fuzzy_loop lower hay need y")
      case None
      with Some scan Cons.IH [of y] show ?thesis by simp
    next
      case found: (Some z')
      with Cons.IH [of y] obtain js where js: "fz_indices z' = fz_indices y @ js" "matches_from lower hay (fz_hay_idx y) need js"
        and sub: "subseq (map lower need) (map lower (drop (fz_hay_idx y) hay))" by auto
      have "matches_from lower hay (fz_hay_idx z) (nc # need) ((fz_hay_idx y - 1) # js)"
        using js(2) scan Some by (auto simp: matches_from_def list_all_iff)
      with Some found js(1) sub scan show ?thesis by auto
    qed
  qed
qed

definition fuzzy_matches :: "(nat \<Rightarrow> nat) \<Rightarrow> string \<Rightarrow> string \<Rightarrow> bool" where
  "fuzzy_matches lower haystack needle \<longleftrightarrow> subseq (map lower (chars_of needle)) (map lower (chars_of haystack))"

lemma fuzzy_score_exact:
  "case fuzzy_score lower haystack needle of
     None \<Rightarrow> \<not> fuzzy_matches lower haystack needle
   | Some (score, js) \<Rightarrow> fuzzy_matches lower haystack needle
       \<and> matches_from lower (chars_of haystack) 0 (chars_of needle) js"
  using fuzzy_loop_exact [where lower = lower and hay = "chars_of haystack" and need = "chars_of needle" and z = fuzzy_start]
  by (auto simp: fuzzy_score_def fuzzy_matches_def fuzzy_start_def matches_from_def split: option.splits)

section \<open>Rows and items are inverse\<close>

definition row_item :: "palette_row \<Rightarrow> nat option" where
  "row_item r = (case r of Header _ \<Rightarrow> None | Item n _ \<Rightarrow> Some n)"

text \<open>The tables after \<open>n\<close> items: the rows are those of the first \<open>n\<close> items, at the recorded positions.\<close>

definition tables_ok :: "palette_item list \<Rightarrow> nat \<Rightarrow> palette_row list \<Rightarrow> nat list \<Rightarrow> nat option list \<Rightarrow> bool" where
  "tables_ok items n rows itr rti \<longleftrightarrow>
     rti = map row_item rows \<and> length itr = n \<and> sorted_wrt (<) itr
     \<and> (\<forall>r < length rows. case rows ! r of Header _ \<Rightarrow> True | Item k x \<Rightarrow> k < n \<and> x = items ! k \<and> itr ! k = r)
     \<and> (\<forall>k < n. itr ! k < length rows \<and> rows ! (itr ! k) = Item k (items ! k))"

lemma tables_header: "tables_ok items n rows itr rti \<Longrightarrow> tables_ok items n (rows @ [Header g]) itr (rti @ [None])"
  by (auto simp: tables_ok_def row_item_def nth_append less_Suc_eq)

lemma tables_item:
  assumes "tables_ok items n rows itr rti" "x = items ! n"
  shows "tables_ok items (Suc n) (rows @ [Item n x]) (itr @ [length rows]) (rti @ [Some n])"
  using assms unfolding tables_ok_def
  by (auto simp: row_item_def nth_append less_Suc_eq sorted_wrt_append in_set_conv_nth split: palette_row.splits)

lemma flatten_loop_ok:
  assumes "tables_ok items n rows itr rti" "xs = drop n items"
  shows "case flatten_loop g n xs prev rows itr rti of (rows', itr', rti') \<Rightarrow> tables_ok items (n + length xs) rows' itr' rti'"
  using assms
proof (induction g n xs prev rows itr rti rule: flatten_loop.induct)
  case (2 g n x xs prev rows itr rti)
  then have n: "x = items ! n" "xs = drop (Suc n) items"
    by (metis Cons_nth_drop_Suc drop_eq_Nil2 list.distinct(1) list.inject not_le, metis drop_Suc list.sel(3) tl_drop)
  let ?h = "g \<and> prev \<noteq> Some (pi_group x)"
  have "tables_ok items n (if ?h then rows @ [Header (pi_group x)] else rows) itr (if ?h then rti @ [None] else rti)"
    using "2.prems"(1) tables_header by auto
  from "2.IH" [OF refl refl refl refl tables_item [OF this n(1)] n(2)] show ?case
    by (simp add: Let_def)
qed simp

lemma flatten_ok:
  "tables_ok items (length items) (vm_rows (flatten_items items g)) (vm_item_to_row (flatten_items items g))
     (vm_row_to_item (flatten_items items g))"
proof -
  have "tables_ok items 0 [] [] []" by (simp add: tables_ok_def)
  from flatten_loop_ok [OF this, of items g None] show ?thesis
    by (simp add: flatten_items_def split: prod.splits)
qed

section \<open>Paging\<close>

lemma first_item_simps [simp]:
  "first_item [] = None" "first_item (None # xs) = first_item xs" "first_item (Some n # xs) = Some n"
  by (simp_all add: first_item_def List.map_filter_def)

lemma first_item_Some: "first_item xs = Some n \<Longrightarrow> \<exists>k < length xs. xs ! k = Some n \<and> (\<forall>j < k. xs ! j = None)"
proof (induction xs)
  case (Cons x xs)
  show ?case
  proof (cases x)
    case None
    with Cons obtain k where "k < length xs" "xs ! k = Some n" "\<forall>j < k. xs ! j = None" by auto
    with None have "Suc k < length (x # xs) \<and> (x # xs) ! Suc k = Some n \<and> (\<forall>j < Suc k. (x # xs) ! j = None)"
      by (auto simp: less_Suc_eq_0_disj)
    then show ?thesis by blast
  qed (use Cons.prems in auto)
qed simp

lemma first_item_None: "first_item xs = None \<Longrightarrow> j < length xs \<Longrightarrow> xs ! j = None"
proof (induction xs arbitrary: j)
  case (Cons x xs)
  then show ?case by (cases x; cases j) auto
qed simp

text \<open>The contract of the two tables: they are inverse to each other, and rows grow with items.\<close>

locale row_table =
  fixes rti :: "nat option list" and itr :: "nat list" and N :: nat
  assumes length_itr: "length itr = N"
    and growing: "m < n \<Longrightarrow> n < N \<Longrightarrow> itr ! m < itr ! n"
    and row_of_item: "n < N \<Longrightarrow> itr ! n < length rti \<and> rti ! (itr ! n) = Some n"
    and item_of_row: "r < length rti \<Longrightarrow> rti ! r = Some n \<Longrightarrow> n < N \<and> itr ! n = r"
begin

lemma after_Some:
  assumes "find_item_at_or_after rti t = Some n"
  shows "n < N \<and> t \<le> itr ! n \<and> (\<forall>m < n. itr ! m < t)"
proof -
  from first_item_Some [of "drop t rti" n] assms obtain k where
    k: "t + k < length rti" "rti ! (t + k) = Some n" "\<forall>j < k. rti ! (t + j) = None"
    by (auto simp: find_item_at_or_after_def less_diff_conv add.commute)
  note n = item_of_row [OF k(1,2)]
  have "itr ! m < t" if "m < n" for m
  proof (rule ccontr)
    assume a: "\<not> itr ! m < t"
    from growing [OF that] n have "itr ! m < t + k" by simp
    then have "rti ! (itr ! m) = None" using k(3) [rule_format, of "itr ! m - t"] a by simp
    with row_of_item [of m] that n show False by simp
  qed
  with n show ?thesis by simp
qed

lemma after_None: "find_item_at_or_after rti t = None \<Longrightarrow> m < N \<Longrightarrow> itr ! m < t"
proof (rule ccontr)
  assume a: "find_item_at_or_after rti t = None" "m < N" "\<not> itr ! m < t"
  note m = row_of_item [OF a(2)]
  have "drop t rti ! (itr ! m - t) = None"
    using a m by (intro first_item_None) (auto simp: find_item_at_or_after_def)
  with a(3) m show False by simp
qed

lemma before_Some:
  assumes "find_item_at_or_before rti t = Some n"
  shows "n < N \<and> itr ! n \<le> t \<and> (\<forall>m < N. n < m \<longrightarrow> t < itr ! m)"
proof -
  let ?l = "min (length rti) (t + 1)"
  from first_item_Some [of "rev (take (t + 1) rti)" n] assms obtain k where
    k: "k < ?l" "rev (take (t + 1) rti) ! k = Some n" "\<forall>j < k. rev (take (t + 1) rti) ! j = None"
    by (auto simp: find_item_at_or_before_def)
  have nth: "rev (take (t + 1) rti) ! j = rti ! (?l - Suc j)" if "j < ?l" for j
    using that by (simp add: rev_nth)
  have r: "?l - Suc k < length rti" using k(1) by auto
  from item_of_row [OF r, of n] nth [OF k(1)] k(2) have n: "n < N" "itr ! n = ?l - Suc k" by auto
  have "t < itr ! m" if "m < N" "n < m" for m
  proof (rule ccontr)
    assume a: "\<not> t < itr ! m"
    let ?j = "?l - Suc (itr ! m)"
    from growing [OF that(2,1)] n have gt: "?l - Suc k < itr ! m" by simp
    have m: "itr ! m < ?l" using a row_of_item [OF that(1)] by auto
    then have "?j < k" "?j < ?l" "?l - Suc ?j = itr ! m" using gt by auto
    with k(3) nth [of ?j] have "rti ! (itr ! m) = None" by auto
    with row_of_item [OF that(1)] show False by simp
  qed
  moreover have "itr ! n \<le> t" using n k(1) by auto
  ultimately show ?thesis using n by blast
qed

lemma before_None: "find_item_at_or_before rti t = None \<Longrightarrow> m < N \<Longrightarrow> t < itr ! m"
proof (rule ccontr)
  assume a: "find_item_at_or_before rti t = None" "m < N" "\<not> t < itr ! m"
  let ?l = "min (length rti) (t + 1)"
  have m: "itr ! m < ?l" using a row_of_item [OF a(2)] by auto
  then have "?l - Suc (?l - Suc (itr ! m)) = itr ! m" by simp
  with m have "rev (take (t + 1) rti) ! (?l - Suc (itr ! m)) = rti ! (itr ! m)"
    by (subst rev_nth) (auto simp: min.commute)
  moreover have "rev (take (t + 1) rti) ! (?l - Suc (itr ! m)) = None"
    using a(1) m by (intro first_item_None) (auto simp: find_item_at_or_before_def)
  ultimately show False using row_of_item [OF a(2)] by simp
qed

lemma rows_apart: "n + k < N \<Longrightarrow> itr ! n + k \<le> itr ! (n + k)"
proof (induction k)
  case (Suc k)
  then show ?case using growing [of "n + k" "n + Suc k"] by simp
qed simp

text \<open>Paging down moves by at least one item and by at most the span, and stays in range.\<close>

lemma page_down:
  fixes sp :: nat
  assumes "cur < N"
  defines "d \<equiv> page_target_index rti itr cur sp PageDown"
  shows "d < N \<and> (if cur + 1 < N then cur < d \<and> d \<le> cur + max sp 1 else d = cur)"
proof -
  let ?s = "max sp 1" and ?last = "length rti - 1"
  define t where "t = min (itr ! cur + ?s) ?last"
  note row = row_of_item [OF assms(1)]
  have d: "d = (case or_else (find_item_at_or_after rti t) (find_item_at_or_before rti ?last) of Some n \<Rightarrow> n | None \<Rightarrow> 0)"
    using assms(1) length_itr by (auto simp: d_def page_target_index_def t_def)
  show ?thesis
  proof (cases "find_item_at_or_after rti t")
    case (Some n)
    with d have dn: "d = n" by (simp add: or_else_def)
    note n = after_Some [OF Some]
    have "cur < n" if "cur + 1 < N"
    proof -
      have "itr ! cur < t" using row_of_item [OF that] growing [of cur "cur + 1"] that by (auto simp: t_def)
      with n that show ?thesis by (metis assms(1) le_less_trans linorder_neqE_nat not_less_iff_gr_or_eq growing)
    qed
    moreover have "n \<le> cur + ?s"
    proof (cases "cur + ?s < N")
      case True
      have "t \<le> itr ! (cur + ?s)" using rows_apart [OF True] by (simp add: t_def)
      with n show ?thesis by (metis not_le)
    next
      case False
      with n show ?thesis by simp
    qed
    moreover have "n = cur" if "\<not> cur + 1 < N"
    proof -
      have "cur \<le> n"
      proof (rule ccontr)
        assume "\<not> cur \<le> n"
        then have "itr ! n < itr ! cur" using growing assms(1) by simp
        moreover have "itr ! cur \<le> t" using row by (auto simp: t_def)
        ultimately show False using n by simp
      qed
      with n that show ?thesis by simp
    qed
    ultimately show ?thesis using n dn by auto
  next
    case None
    obtain n where b: "find_item_at_or_before rti ?last = Some n"
      using before_None [of ?last cur] assms(1) row by (cases "find_item_at_or_before rti ?last") auto
    have "\<not> n < N - 1"
      using before_Some [OF b] row_of_item [of "N - 1"] assms(1) by (auto dest: spec [of _ "N - 1"])
    with before_Some [OF b] have n: "n = N - 1" by auto
    from None b d have dn: "d = n" by (simp add: or_else_def)
    have "itr ! cur + (N - 1 - cur) \<le> itr ! (N - 1)" using rows_apart [of cur "N - 1 - cur"] assms(1) by simp
    moreover have "itr ! (N - 1) < itr ! cur + ?s" using after_None [OF None, of "N - 1"] assms(1) by (simp add: t_def)
    ultimately show ?thesis using dn n assms(1) by auto
  qed
qed

lemma page_up:
  fixes sp :: nat
  assumes "cur < N"
  defines "u \<equiv> page_target_index rti itr cur sp PageUp"
  shows "if 0 < cur then u < cur \<and> cur \<le> u + max sp 1 else u = 0"
proof -
  let ?s = "max sp 1"
  define t where "t = itr ! cur - ?s"
  have u: "u = (case or_else (find_item_at_or_before rti t) (find_item_at_or_after rti 0) of Some n \<Rightarrow> n | None \<Rightarrow> 0)"
    using assms(1) length_itr by (auto simp: u_def page_target_index_def t_def)
  show ?thesis
  proof (cases "find_item_at_or_before rti t")
    case (Some n)
    note n = before_Some [OF Some]
    from Some u have un: "u = n" by (simp add: or_else_def)
    have "n < cur" if "0 < cur"
    proof (rule ccontr)
      assume "\<not> n < cur"
      then have "itr ! cur \<le> itr ! n" using growing [of cur n] n by (cases "cur = n") auto
      moreover have "0 < itr ! cur" using growing [OF that assms(1)] by simp
      then have "t < itr ! cur" by (simp add: t_def)
      ultimately show False using n by simp
    qed
    moreover have "cur \<le> n + ?s"
    proof (rule ccontr)
      assume a: "\<not> cur \<le> n + ?s"
      then have "t < itr ! (cur - ?s)" using n assms(1) by auto
      moreover have "itr ! (cur - ?s) + ?s \<le> itr ! cur" using rows_apart [of "cur - ?s" ?s] a assms(1) by simp
      ultimately show False by (simp add: t_def)
    qed
    moreover have "n = 0" if "cur = 0"
    proof (rule ccontr)
      assume "n \<noteq> 0"
      then have "itr ! cur < itr ! n" using growing [of 0 n] n that by simp
      moreover have "t \<le> itr ! cur" by (simp add: t_def)
      ultimately show False using n by simp
    qed
    ultimately show ?thesis using un by auto
  next
    case None
    have "u = 0"
    proof (cases "find_item_at_or_after rti 0")
      case (Some n)
      with None u after_Some [OF Some] show ?thesis by (auto simp: or_else_def)
    qed (use None u in \<open>simp add: or_else_def\<close>)
    moreover have "cur \<le> ?s" if "0 < cur"
    proof (rule ccontr)
      assume a: "\<not> cur \<le> ?s"
      have "itr ! 0 + cur \<le> itr ! cur" using rows_apart [of 0 cur] assms(1) by simp
      moreover have "t < itr ! 0" using before_None [OF None, of 0] assms(1) by simp
      ultimately show False using a by (simp add: t_def)
    qed
    ultimately show ?thesis by auto
  qed
qed

end

interpretation rows: row_table "vm_row_to_item (flatten_items items g)" "vm_item_to_row (flatten_items items g)"
  "length items" for items g
  using flatten_ok [of items g]
  by unfold_locales (auto simp: tables_ok_def row_item_def sorted_wrt_iff_nth_less split: palette_row.splits)

lemma flatten_items_items [simp]: "vm_items (flatten_items items g) = items"
  by (simp add: flatten_items_def split: prod.splits)

text \<open>Paging through the palette always makes progress and never overshoots. From any selected item,
  with or without group headers and for every height of the list, a page down ends on an item, moves
  down by at least one item (unless the last one is selected) and by at most as many items as rows
  are visible; a page up does the same upwards.\<close>

theorem palette_paging:
  fixes items :: "palette_item list" and g :: bool and sp :: nat
  assumes "cur < length items"
  defines "vm \<equiv> flatten_items items g"
  shows "(let d = move_palette_by_page vm sp PageDown cur in
      if cur + 1 < length items then cur < d \<and> d < length items \<and> d \<le> cur + max sp 1 else d = cur)
    \<and> (let u = move_palette_by_page vm sp PageUp cur in if 0 < cur then u < cur \<and> cur \<le> u + max sp 1 else u = cur)"
proof -
  have "move_palette_by_page vm sp dir cur = min (page_target_index (vm_row_to_item vm) (vm_item_to_row vm) cur sp dir) (length items - 1)"
    for dir using assms by (auto simp: move_palette_by_page_def set_palette_selection_def)
  then show ?thesis
    using rows.page_down [OF assms(1), of g sp] rows.page_up [OF assms(1), of g sp]
    by (auto simp: vm_def Let_def min_def split: if_splits)
qed

theorem palette_paging_witness:
  "move_palette_by_page (flatten_items (appearance_items Bone) True) 3 PageUp 5 < 5"
proof -
  have "5 < length (appearance_items Bone)" by (simp add: appearance_items_def all_themes_def)
  from palette_paging [OF this, of True 3] show ?thesis by (simp add: Let_def)
qed

section \<open>What the palette offers\<close>

lemma new_item_simps [simp]:
  "pi_group (new_item grp g l h a c) = grp" "pi_action (new_item grp g l h a c) = a"
  "pi_label (new_item grp g l h a c) = l" "pi_hint (new_item grp g l h a c) = h"
  "pi_match_indices (new_item grp g l h a c) = []"
  by (simp_all add: new_item_def)

lemmas item_defs = session_items_def host_items_def tunnel_items_def vault_items_def unlock_item_def
  appearance_items_def system_items_def

lemma items_group:
  "list_all (\<lambda>i. pi_group i = GSessions \<and> pi_match_indices i = []) (session_items ss ls a rs)"
  "list_all (\<lambda>i. pi_group i = GHosts \<and> pi_match_indices i = []) (host_items hs ps)"
  "list_all (\<lambda>i. pi_group i = GTunnels \<and> pi_match_indices i = []) (tunnel_items hs fs ts)"
  "list_all (\<lambda>i. pi_group i = GVault \<and> pi_match_indices i = []) (vault_items cs ks)"
  "list_all (\<lambda>i. pi_group i = GAppearance \<and> pi_match_indices i = []) (appearance_items t)"
  "list_all (\<lambda>i. pi_group i = GSystem \<and> pi_match_indices i = []) (system_items u)"
  by (auto simp: item_defs list_all_iff Let_def split: option.splits update_state.splits)

lemma all_items_unmarked: "i \<in> set (all_items x) \<Longrightarrow> pi_match_indices i = []"
  using items_group by (auto simp: all_items_def list_all_iff unlock_item_def split: if_splits)

instantiation palette_group :: linorder
begin

fun group_rank :: "palette_group \<Rightarrow> nat" where
  "group_rank GSessions = 0"
| "group_rank GHosts = 1"
| "group_rank GTunnels = 2"
| "group_rank GVault = 3"
| "group_rank GAppearance = 4"
| "group_rank GSystem = 5"

definition less_eq_palette_group :: "palette_group \<Rightarrow> palette_group \<Rightarrow> bool" where
  "less_eq_palette_group a b \<longleftrightarrow> group_rank a \<le> group_rank b"

definition less_palette_group :: "palette_group \<Rightarrow> palette_group \<Rightarrow> bool" where
  "less_palette_group a b \<longleftrightarrow> group_rank a < group_rank b"

instance
proof
  fix a b :: palette_group
  assume "a \<le> b" "b \<le> a"
  then show "a = b" by (cases a; cases b) (auto simp: less_eq_palette_group_def)
qed (auto simp: less_eq_palette_group_def less_palette_group_def)

end

lemma all_items_sorted: "sorted (map pi_group (all_items x))"
proof -
  have blocks: "list_all (\<lambda>i. pi_group i = GSessions) (session_items ss ls a rs)"
    "list_all (\<lambda>i. pi_group i = GHosts) (host_items hs ps)" "list_all (\<lambda>i. pi_group i = GTunnels) (tunnel_items hs fs ts)"
    "list_all (\<lambda>i. pi_group i = GVault) (vault_items cs ks)" "list_all (\<lambda>i. pi_group i = GAppearance) (appearance_items t)"
    "list_all (\<lambda>i. pi_group i = GSystem) (system_items u)" "list_all (\<lambda>i. pi_group i = GVault) [unlock_item]"
    for ss ls a rs hs ps fs ts cs ks t u
    using items_group by (auto simp: list_all_iff unlock_item_def)
  have const: "sorted (map f xs) \<and> (\<forall>y \<in> set xs. f y = a)" if "list_all (\<lambda>i. f i = a) xs" for f :: "palette_item \<Rightarrow> palette_group" and a xs
    using that by (induction xs) auto
  show ?thesis
    using const [OF blocks(1)] const [OF blocks(2)] const [OF blocks(3)] const [OF blocks(4)] const [OF blocks(5)]
      const [OF blocks(6)]
    by (auto simp: all_items_def sorted_append unlock_item_def less_eq_palette_group_def)
qed

section \<open>Headers\<close>

definition header_groups :: "palette_row list \<Rightarrow> palette_group list" where
  "header_groups rows = List.map_filter (\<lambda>r. case r of Header g \<Rightarrow> Some g | Item _ _ \<Rightarrow> None) rows"

text \<open>For every item its nearest header above.\<close>

fun headers_above :: "palette_group option \<Rightarrow> palette_row list \<Rightarrow> palette_group option list" where
  "headers_above h [] = []"
| "headers_above h (Header g # rows) = headers_above (Some g) rows"
| "headers_above h (Item n x # rows) = h # headers_above h rows"

fun last_header :: "palette_group option \<Rightarrow> palette_row list \<Rightarrow> palette_group option" where
  "last_header h [] = h"
| "last_header h (Header g # rows) = last_header (Some g) rows"
| "last_header h (Item n x # rows) = last_header h rows"

lemma headers_append:
  "headers_above h (rows @ rows') = headers_above h rows @ headers_above (last_header h rows) rows'"
  "last_header h (rows @ rows') = last_header (last_header h rows) rows'"
  by (induction h rows rule: headers_above.induct) auto

lemma header_groups_simps [simp]:
  "header_groups [] = []" "header_groups (Header g # rows) = g # header_groups rows"
  "header_groups (Item n x # rows) = header_groups rows" "header_groups (r1 @ r2) = header_groups r1 @ header_groups r2"
  by (simp_all add: header_groups_def List.map_filter_def)

fun changes :: "'a option \<Rightarrow> 'a list \<Rightarrow> 'a list" where
  "changes p [] = []"
| "changes p (g # gs) = (if p = Some g then changes p gs else g # changes (Some g) gs)"

lemma changes_remdups: "changes None gs = remdups_adj gs" "g # changes (Some g) gs = remdups_adj (g # gs)"
proof -
  show c: "g # changes (Some g) gs = remdups_adj (g # gs)" for g and gs :: "'a list"
    by (induction gs arbitrary: g) auto
  show "changes None gs = remdups_adj gs" by (cases gs) (simp_all add: c del: remdups_adj.simps(3))
qed

lemma strict_remdups_adj: "sorted xs \<Longrightarrow> sorted_wrt (<) (remdups_adj xs)" for xs :: "'a :: linorder list"
  by (induction xs rule: remdups_adj.induct) (auto simp: le_less)

lemma flatten_loop_headers:
  "prev = last_header None rows \<Longrightarrow>
   header_groups (fst (flatten_loop True n xs prev rows itr rti)) = header_groups rows @ changes prev (map pi_group xs)
   \<and> headers_above None (fst (flatten_loop True n xs prev rows itr rti)) = headers_above None rows @ map (Some \<circ> pi_group) xs"
proof (induction xs arbitrary: n prev rows itr rti)
  case (Cons x xs)
  let ?h = "if prev \<noteq> Some (pi_group x) then rows @ [Header (pi_group x)] else rows"
  have "Some (pi_group x) = last_header None (?h @ [Item n x])" using Cons.prems by (auto simp: headers_append)
  note Cons.IH [OF this, of "Suc n"]
  with Cons.prems show ?case by (auto simp: Let_def headers_append split: if_splits)
qed simp

lemma flatten_loop_plain:
  "header_groups (fst (flatten_loop False n xs prev rows itr rti)) = header_groups rows"
  by (induction xs arbitrary: n prev rows itr rti) (simp_all add: Let_def)

lemma flatten_headers:
  "header_groups (vm_rows (flatten_items items g)) = (if g then remdups_adj (map pi_group items) else [])"
  "g \<Longrightarrow> headers_above None (vm_rows (flatten_items items g)) = map (Some \<circ> pi_group) items"
  using flatten_loop_headers [of None "[]" 0 items "[]" "[]"] flatten_loop_plain [of 0 items None "[]" "[]" "[]"]
  by (auto simp: flatten_items_def changes_remdups split: prod.splits)

lemma flatten_loop_length:
  "length rows = length (header_groups rows) + n \<Longrightarrow>
   length (fst (flatten_loop g n xs prev rows itr rti)) = length (header_groups (fst (flatten_loop g n xs prev rows itr rti))) + n + length xs"
  by (induction xs arbitrary: n prev rows itr rti) (simp_all add: Let_def)

lemma flatten_length:
  "length (header_groups (vm_rows (flatten_items items g))) + length items = length (vm_rows (flatten_items items g))"
  using flatten_loop_length [of "[]" 0 g items None "[]" "[]"] by (simp add: flatten_items_def split_beta)

text \<open>The palette's rows and items are two views of one list. The table from rows to items is that
  of the rows, the two tables are inverse to each other, and each row of an item shows that item.
  Without a query, every item stands below the header of its own group, each group that has an item
  has exactly one header, and the groups come in the order of the source; a search shows no headers.\<close>

theorem palette_rows_and_items:
  fixes lower :: "nat \<Rightarrow> nat" and x :: palette_context
  defines "vm \<equiv> palette_view_model_of lower x"
  shows "vm_row_to_item vm = map row_item (vm_rows vm)
    \<and> map (\<lambda>r. vm_rows vm ! r) (vm_item_to_row vm) = map (\<lambda>(n, i). Item n i) (enumerate 0 (vm_items vm))
    \<and> map (\<lambda>r. vm_row_to_item vm ! r) (vm_item_to_row vm) = map Some [0..<length (vm_items vm)]
    \<and> length (header_groups (vm_rows vm)) + length (vm_items vm) = length (vm_rows vm)
    \<and> (if px_query x = []
        then headers_above None (vm_rows vm) = map (Some \<circ> pi_group) (vm_items vm)
          \<and> set (header_groups (vm_rows vm)) = pi_group ` set (vm_items vm) \<and> sorted_wrt (<) (header_groups (vm_rows vm))
        else header_groups (vm_rows vm) = [])"
proof -
  define items where "items = build_items lower x"
  have vm: "vm = flatten_items items (px_query x = [])" by (simp add: vm_def palette_view_model_of_def items_def)
  note t = flatten_ok [of items "px_query x = []", folded vm, unfolded tables_ok_def]
  have len: "length (vm_item_to_row vm) = length items" using t by blast
  have "map (\<lambda>r. vm_rows vm ! r) (vm_item_to_row vm) = map (\<lambda>(n, i). Item n i) (enumerate 0 items)"
    using t len by (intro nth_equalityI) (simp_all add: nth_enumerate_eq)
  moreover have "map (\<lambda>r. vm_row_to_item vm ! r) (vm_item_to_row vm) = map Some [0..<length items]"
    using t len by (intro nth_equalityI) (simp_all add: row_item_def)
  moreover have "length (header_groups (vm_rows vm)) + length items = length (vm_rows vm)"
    unfolding vm by (rule flatten_length)
  moreover have "sorted_wrt (<) (remdups_adj (map pi_group items))" if "px_query x = []"
    using that all_items_sorted [of x] by (simp add: items_def build_items_def strict_remdups_adj)
  moreover have "vm_items vm = items" by (simp add: vm)
  ultimately show ?thesis using t flatten_headers [where items = items and g = "px_query x = []", folded vm] by (auto simp: remdups_adj_set)
qed

section \<open>Searching\<close>

definition item_matches :: "(nat \<Rightarrow> nat) \<Rightarrow> string \<Rightarrow> palette_item \<Rightarrow> bool" where
  "item_matches lower query i \<longleftrightarrow> fuzzy_matches lower (pi_label i) query \<or> fuzzy_matches lower (pi_hint i) query"

text \<open>The rank of an item: its label's score and ten, or else its hint's score.\<close>

definition item_rank :: "(nat \<Rightarrow> nat) \<Rightarrow> string \<Rightarrow> palette_item \<Rightarrow> int" where
  "item_rank lower query i =
     (case fuzzy_score lower (pi_label i) query of
        Some (s, _) \<Rightarrow> s + 10
      | None \<Rightarrow> (case fuzzy_score lower (pi_hint i) query of Some (s, _) \<Rightarrow> s | None \<Rightarrow> 0))"

definition highlight_ok :: "(nat \<Rightarrow> nat) \<Rightarrow> string \<Rightarrow> palette_item \<Rightarrow> bool" where
  "highlight_ok lower query i =
     (if fuzzy_matches lower (pi_label i) query
      then matches_from lower (chars_of (pi_label i)) 0 (chars_of query) (pi_match_indices i)
      else pi_match_indices i = [])"

lemma score_item_Some:
  assumes "score_item lower query i = Some (s, j)" "pi_match_indices i = []"
  shows "item_matches lower query i \<and> j\<lparr>pi_match_indices := []\<rparr> = i \<and> s = item_rank lower query j \<and> highlight_ok lower query j"
  using assms fuzzy_score_exact [where lower = lower and haystack = "pi_label i" and needle = query]
    fuzzy_score_exact [where lower = lower and haystack = "pi_hint i" and needle = query]
  by (auto simp: score_item_def item_matches_def item_rank_def highlight_ok_def split: option.splits)

lemma score_item_None: "score_item lower query i = None \<longleftrightarrow> \<not> item_matches lower query i"
  using fuzzy_score_exact [where lower = lower and haystack = "pi_label i" and needle = query]
    fuzzy_score_exact [where lower = lower and haystack = "pi_hint i" and needle = query]
  by (auto simp: score_item_def item_matches_def split: option.splits)

lemma map_filter_score:
  assumes "\<forall>i \<in> set items. pi_match_indices i = []"
  shows "map (\<lambda>p. (snd p)\<lparr>pi_match_indices := []\<rparr>) (List.map_filter (score_item lower query) items)
      = filter (item_matches lower query) items
    \<and> (\<forall>p \<in> set (List.map_filter (score_item lower query) items).
         fst p = item_rank lower query (snd p) \<and> highlight_ok lower query (snd p))"
  using assms
proof (induction items)
  case (Cons i items)
  show ?case
  proof (cases "score_item lower query i")
    case None
    with Cons show ?thesis by (simp add: List.map_filter_def score_item_None [symmetric])
  next
    case (Some p)
    obtain s j where p: "p = (s, j)" by fastforce
    with Some Cons score_item_Some [of lower query i s j] show ?thesis
      by (auto simp: List.map_filter_def)
  qed
qed (simp add: List.map_filter_def)

lemma fuzzy_empty [simp]: "fuzzy_matches lower h []" "fuzzy_score lower h [] = Some (0, [])"
  by (simp_all add: fuzzy_matches_def fuzzy_score_def)

lemma search_exact:
  fixes lower :: "nat \<Rightarrow> nat" and x :: palette_context
  defines "found \<equiv> build_items lower x" and "q \<equiv> px_query x"
  shows "mset (map (\<lambda>i. i\<lparr>pi_match_indices := []\<rparr>) found) = mset (filter (item_matches lower q) (all_items x))
    \<and> sorted (map (\<lambda>i. - item_rank lower q i) found) \<and> list_all (highlight_ok lower q) found"
proof (cases "q = []")
  case True
  then have found: "found = all_items x" by (simp add: found_def q_def build_items_def)
  have "map (\<lambda>i. i\<lparr>pi_match_indices := []\<rparr>) (all_items x) = all_items x"
    using all_items_unmarked [of _ x] by (auto intro!: map_idI)
  moreover have "sorted (map (\<lambda>i. - item_rank lower [] i) xs)" for xs by (induction xs) (auto simp: item_rank_def)
  ultimately show ?thesis
    using True all_items_unmarked by (auto simp: found item_matches_def highlight_ok_def matches_from_def list_all_iff)
next
  case False
  let ?ps = "List.map_filter (score_item lower q) (all_items x)"
  have found: "found = map snd (sort_key (\<lambda>p. - fst p) ?ps)" using False by (simp add: found_def q_def build_items_def)
  have f: "map (\<lambda>p. (snd p)\<lparr>pi_match_indices := []\<rparr>) ?ps = filter (item_matches lower q) (all_items x)"
    and r: "\<forall>p \<in> set ?ps. fst p = item_rank lower q (snd p) \<and> highlight_ok lower q (snd p)"
    using map_filter_score [of "all_items x" lower q] all_items_unmarked by blast+
  have "mset (map (\<lambda>i. i\<lparr>pi_match_indices := []\<rparr>) found) = mset (map (\<lambda>p. (snd p)\<lparr>pi_match_indices := []\<rparr>) ?ps)"
    by (simp add: found image_mset.compositionality comp_def)
  moreover have "map (\<lambda>i. - item_rank lower q i) found = map (\<lambda>p. - fst p) (sort_key (\<lambda>p. - fst p) ?ps)"
    using r by (auto simp: found)
  then have "sorted (map (\<lambda>i. - item_rank lower q i) found)" by simp
  moreover have "list_all (highlight_ok lower q) found" using r by (simp add: found list_all_iff)
  ultimately show ?thesis by (simp only: f simp_thms)
qed

lemmas search_mset = search_exact [THEN conjunct1]

text \<open>C27. A search in the palette shows exactly the actions that match, best first. For every query, the
  items shown are, up to their order, the items on offer whose label or hint has the query as a
  subsequence (characters compared by their lower case); they come by falling score; and the
  highlighted positions of an item are increasing positions of its label that spell the query, or none
  if only the hint matches. The greedy matcher misses no match.\<close>

theorem palette_search_exact:
  fixes lower :: "nat \<Rightarrow> nat" and x :: palette_context
  defines "found \<equiv> build_items lower x" and "q \<equiv> px_query x"
  shows "mset (map (\<lambda>i. i\<lparr>pi_match_indices := []\<rparr>) found) = mset (filter (item_matches lower q) (all_items x))
    \<and> sorted (map (\<lambda>i. - item_rank lower q i) found) \<and> list_all (highlight_ok lower q) found"
  unfolding found_def q_def by (rule search_exact)

section \<open>The locked palette\<close>

text \<open>The actions that need no unlocked vault.\<close>

fun needs_no_vault :: "palette_action \<Rightarrow> bool" where
  "needs_no_vault NewLocalTerminal = True"
| "needs_no_vault (SwitchSession i) = True"
| "needs_no_vault CloseActiveSession = True"
| "needs_no_vault SelectPreviousTurn = True"
| "needs_no_vault CopyPreviousTurn = True"
| "needs_no_vault CopyTerminalOutput = True"
| "needs_no_vault (OpenSftpBrowser i) = True"
| "needs_no_vault UnlockVault = True"
| "needs_no_vault (SwitchTheme t) = True"
| "needs_no_vault OpenPreferences = True"
| "needs_no_vault CheckForUpdates = True"
| "needs_no_vault InstallAvailableUpdate = True"
| "needs_no_vault a = False"

definition offered :: "(nat \<Rightarrow> nat) \<Rightarrow> palette_context \<Rightarrow> palette_action set" where
  "offered lower x = pi_action ` set (build_items lower x)"

lemma offered_eq: "offered lower x = pi_action ` set (filter (item_matches lower (px_query x)) (all_items x))"
proof -
  have "pi_action ` set xs = pi_action ` set (map (\<lambda>i. i\<lparr>pi_match_indices := []\<rparr>) xs)" for xs
    by (simp add: image_image)
  then have "offered lower x = pi_action ` set (map (\<lambda>i. i\<lparr>pi_match_indices := []\<rparr>) (build_items lower x))"
    by (simp only: offered_def)
  also have "\<dots> = pi_action ` set (filter (item_matches lower (px_query x)) (all_items x))"
    using mset_eq_setD [OF search_mset [of lower x]] by simp
  finally show ?thesis .
qed

text \<open>The group each action is offered in.\<close>

fun action_group :: "palette_action \<Rightarrow> palette_group" where
  "action_group NewLocalTerminal = GSessions"
| "action_group (SwitchSession i) = GSessions"
| "action_group CloseActiveSession = GSessions"
| "action_group SelectPreviousTurn = GSessions"
| "action_group CopyPreviousTurn = GSessions"
| "action_group CopyTerminalOutput = GSessions"
| "action_group (OpenSftpBrowser i) = GSessions"
| "action_group AddSavedHost = GHosts"
| "action_group OpenNewHostWizard = GHosts"
| "action_group (CancelSavedHostConnect i) = GHosts"
| "action_group (ConnectSavedHost v i) = GHosts"
| "action_group (EditSavedHost v i) = GHosts"
| "action_group (DeleteSavedHost v i) = GHosts"
| "action_group OpenTunnelManager = GTunnels"
| "action_group (StartTunnel v i) = GTunnels"
| "action_group (StopTunnel k) = GTunnels"
| "action_group (OpenHostTunnelSettings v i) = GTunnels"
| "action_group (SwitchTheme t) = GAppearance"
| "action_group OpenPreferences = GSystem"
| "action_group CheckForUpdates = GSystem"
| "action_group InstallAvailableUpdate = GSystem"
| "action_group a = GVault"

lemma block_actions:
  "i \<in> set (session_items ss ls a rs) \<Longrightarrow> action_group (pi_action i) = GSessions"
  "i \<in> set (host_items hs ps) \<Longrightarrow> action_group (pi_action i) = GHosts"
  "i \<in> set (tunnel_items hs fs ts) \<Longrightarrow> action_group (pi_action i) = GTunnels"
  "i \<in> set (vault_items cs ks) \<Longrightarrow> action_group (pi_action i) = GVault"
  "i \<in> set (appearance_items t) \<Longrightarrow> action_group (pi_action i) = GAppearance"
  "i \<in> set (system_items u) \<Longrightarrow> action_group (pi_action i) = GSystem"
  by (auto simp: item_defs Let_def split: option.splits update_state.splits if_splits)

lemma action_in_block:
  assumes "px_vault_unlocked x"
  shows "action_group a = GHosts \<Longrightarrow> a \<in> pi_action ` set (all_items x) \<longleftrightarrow> a \<in> pi_action ` set (host_items (px_saved_hosts x) (px_pending_connects x))"
    and "action_group a = GTunnels \<Longrightarrow> a \<in> pi_action ` set (all_items x) \<longleftrightarrow>
      a \<in> pi_action ` set (tunnel_items (px_saved_hosts x) (px_port_forwards x) (px_active_port_forwards x))"
  using assms by (auto simp: all_items_def dest: block_actions)

text \<open>The action a saved forward is offered with.\<close>

definition forward_action :: "port_forward_runtime_snapshot list \<Rightarrow> vault_scoped_port_forward_summary \<Rightarrow> palette_action" where
  "forward_action ts p =
     (let k = item_scope_key (vp_vault_id p) (ps_id (vp_port_forward p)) in
      if k \<in> rs_id ` set ts then StopTunnel k else StartTunnel (vp_vault_id p) (ps_id (vp_port_forward p)))"

lemma tunnel_actions:
  "\<exists>A. pi_action ` set (tunnel_items hs fs ts) = forward_action ts ` set fs \<union> A
     \<and> (\<forall>a \<in> A. (\<forall>v i. a \<noteq> StartTunnel v i) \<and> (\<forall>k. a \<noteq> StopTunnel k))"
proof -
  have "list_ex (\<lambda>s. rs_id s = k) ts \<longleftrightarrow> k \<in> rs_id ` set ts" for k by (auto simp: list_ex_iff)
  moreover have fa: "forward_action ts = (\<lambda>p. if item_scope_key (vp_vault_id p) (ps_id (vp_port_forward p)) \<in> rs_id ` set ts
      then StopTunnel (item_scope_key (vp_vault_id p) (ps_id (vp_port_forward p)))
      else StartTunnel (vp_vault_id p) (ps_id (vp_port_forward p)))"
    by (simp add: forward_action_def Let_def fun_eq_iff)
  ultimately have eq: "pi_action ` set (tunnel_items hs fs ts) = forward_action ts ` set fs
      \<union> ({OpenTunnelManager} \<union> (\<lambda>h. OpenHostTunnelSettings (sh_vault_id h) (hs_id (sh_host h))) `
          set (filter (\<lambda>h. list_ex (\<lambda>p. vp_vault_id p = sh_vault_id h \<and> vp_host_id p = hs_id (sh_host h)) fs) hs))"
    by (simp only: tunnel_items_def fa Let_def set_append set_map image_Un image_image new_item_simps
        if_distrib [of pi_action] list.set image_insert image_empty) (simp only: Un_ac)
  show ?thesis by (rule exI, rule conjI, rule eq) auto
qed

lemma start_offered:
  "StartTunnel v i \<in> pi_action ` set (tunnel_items hs fs ts) \<longleftrightarrow>
   (\<exists>p \<in> set fs. vp_vault_id p = v \<and> ps_id (vp_port_forward p) = i \<and> item_scope_key v i \<notin> rs_id ` set ts)"
proof -
  have "StartTunnel v i \<in> pi_action ` set (tunnel_items hs fs ts) \<longleftrightarrow> StartTunnel v i \<in> forward_action ts ` set fs"
    using tunnel_actions [of hs fs ts] by blast
  also have "\<dots> \<longleftrightarrow> (\<exists>p \<in> set fs. StartTunnel v i = forward_action ts p)" by blast
  finally have offered: "StartTunnel v i \<in> pi_action ` set (tunnel_items hs fs ts) \<longleftrightarrow> (\<exists>p \<in> set fs. StartTunnel v i = forward_action ts p)" .
  have "StartTunnel v i = forward_action ts p \<longleftrightarrow>
      vp_vault_id p = v \<and> ps_id (vp_port_forward p) = i \<and> item_scope_key v i \<notin> rs_id ` set ts" for p
    by (auto simp: forward_action_def Let_def)
  then show ?thesis unfolding offered by blast
qed

lemma stop_offered:
  "StopTunnel k \<in> pi_action ` set (tunnel_items hs fs ts) \<longleftrightarrow>
   (\<exists>p \<in> set fs. item_scope_key (vp_vault_id p) (ps_id (vp_port_forward p)) = k) \<and> k \<in> rs_id ` set ts"
proof -
  have "StopTunnel k \<in> pi_action ` set (tunnel_items hs fs ts) \<longleftrightarrow> StopTunnel k \<in> forward_action ts ` set fs"
    using tunnel_actions [of hs fs ts] by blast
  also have "\<dots> \<longleftrightarrow> (\<exists>p \<in> set fs. StopTunnel k = forward_action ts p)" by blast
  finally have offered: "StopTunnel k \<in> pi_action ` set (tunnel_items hs fs ts) \<longleftrightarrow> (\<exists>p \<in> set fs. StopTunnel k = forward_action ts p)" .
  have "StopTunnel k = forward_action ts p \<longleftrightarrow>
      item_scope_key (vp_vault_id p) (ps_id (vp_port_forward p)) = k \<and> k \<in> rs_id ` set ts" for p
    by (auto simp: forward_action_def Let_def)
  then show ?thesis unfolding offered by blast
qed

lemma pending_None: "pending_by_scope ps k = None \<longleftrightarrow> k \<notin> pc_host_scope_key ` set ps"
  by (auto simp: pending_by_scope_def find_None_iff)

lemma find_after: "find P (xs @ ys) = (case find P xs of None \<Rightarrow> find P ys | Some x \<Rightarrow> Some x)"
  by (induction xs) auto

lemma pending_Some:
  "pending_by_scope ps k = Some p \<longleftrightarrow>
     (\<exists>before after. ps = before @ p # after \<and> pc_host_scope_key p = k \<and> k \<notin> pc_host_scope_key ` set after)"
proof
  assume "pending_by_scope ps k = Some p"
  then have p: "pc_host_scope_key p = k" and "\<exists>i. i < length (rev ps) \<and> rev ps ! i = p \<and> (\<forall>j<i. pc_host_scope_key (rev ps ! j) \<noteq> k)"
    by (auto simp: pending_by_scope_def find_Some_iff)
  then obtain i where i: "i < length (rev ps)" "rev ps ! i = p" "\<forall>j<i. pc_host_scope_key (rev ps ! j) \<noteq> k" by blast
  have "rev ps = take i (rev ps) @ p # drop (Suc i) (rev ps)" using id_take_nth_drop [OF i(1)] i(2) by simp
  then have "ps = rev (drop (Suc i) (rev ps)) @ p # rev (take i (rev ps))"
    by (metis append.assoc append_Cons append_Nil rev.simps(2) rev_append rev_rev_ident)
  moreover have "k \<notin> pc_host_scope_key ` set (rev (take i (rev ps)))"
  proof
    assume "k \<in> pc_host_scope_key ` set (rev (take i (rev ps)))"
    then obtain q where "q \<in> set (take i (rev ps))" and q: "pc_host_scope_key q = k" by auto
    then obtain j where "j < i" "q = rev ps ! j" by (auto simp only: in_set_conv_nth length_take min_less_iff_conj nth_take)
    with i(3) q show False by blast
  qed
  ultimately show "\<exists>before after. ps = before @ p # after \<and> pc_host_scope_key p = k \<and> k \<notin> pc_host_scope_key ` set after"
    using p by blast
next
  assume "\<exists>before after. ps = before @ p # after \<and> pc_host_scope_key p = k \<and> k \<notin> pc_host_scope_key ` set after"
  then obtain before after where *: "ps = before @ p # after" "pc_host_scope_key p = k" "k \<notin> pc_host_scope_key ` set after"
    by blast
  then have "find (\<lambda>p. pc_host_scope_key p = k) (rev after) = None"
    unfolding find_None_iff by (metis imageI set_rev)
  with * show "pending_by_scope ps k = Some p"
    by (auto simp: pending_by_scope_def find_after)
qed

lemma cancel_offered:
  "CancelSavedHostConnect a \<in> pi_action ` set (host_items hs ps) \<longleftrightarrow>
   (\<exists>before p after. ps = before @ p # after \<and> pc_id p = a
      \<and> (\<exists>h \<in> set hs. pc_host_scope_key p = host_scope_key (sh_vault_id h) (hs_id (sh_host h)))
      \<and> pc_host_scope_key p \<notin> pc_host_scope_key ` set after)"
proof -
  have "CancelSavedHostConnect a \<in> pi_action ` set (host_items hs ps) \<longleftrightarrow>
    (\<exists>h \<in> set hs. \<exists>p. pending_by_scope ps (host_scope_key (sh_vault_id h) (hs_id (sh_host h))) = Some p \<and> pc_id p = a)"
    by (auto simp: host_items_def Let_def image_iff split: option.splits)
  also have "\<dots> \<longleftrightarrow> (\<exists>p. pc_id p = a \<and> (\<exists>h \<in> set hs. pc_host_scope_key p = host_scope_key (sh_vault_id h) (hs_id (sh_host h))
      \<and> (\<exists>before after. ps = before @ p # after \<and> pc_host_scope_key p \<notin> pc_host_scope_key ` set after)))"
    unfolding pending_Some by metis
  finally show ?thesis by blast
qed

lemma edit_offered:
  "EditSavedHost v i \<in> pi_action ` set (host_items hs ps) \<longleftrightarrow> (\<exists>h \<in> set hs. sh_vault_id h = v \<and> hs_id (sh_host h) = i)"
  "DeleteSavedHost v i \<in> pi_action ` set (host_items hs ps) \<longleftrightarrow> (\<exists>h \<in> set hs. sh_vault_id h = v \<and> hs_id (sh_host h) = i)"
  by (auto simp: host_items_def Let_def image_iff split: option.splits)

lemma connect_offered:
  "ConnectSavedHost v i \<in> pi_action ` set (host_items hs ps) \<longleftrightarrow>
   (\<exists>h \<in> set hs. sh_vault_id h = v \<and> hs_id (sh_host h) = i) \<and> host_scope_key v i \<notin> pc_host_scope_key ` set ps"
proof -
  have "ConnectSavedHost v i \<in> pi_action ` set (host_items hs ps) \<longleftrightarrow>
    (\<exists>h \<in> set hs. sh_vault_id h = v \<and> hs_id (sh_host h) = i \<and> pending_by_scope ps (host_scope_key v i) = None)"
    by (auto simp: host_items_def Let_def image_iff split: option.splits)
  then show ?thesis by (auto simp: pending_None)
qed

lemma locked_items: "\<not> px_vault_unlocked x \<Longrightarrow> i \<in> set (all_items x) \<Longrightarrow> needs_no_vault (pi_action i)"
  by (auto simp: all_items_def item_defs split: if_splits update_state.splits)

lemma offered_unsearched: "offered lower (x\<lparr>px_query := []\<rparr>) = pi_action ` set (all_items x)"
proof -
  have "all_items (x\<lparr>px_query := []\<rparr>) = all_items x" by (simp add: all_items_def)
  then show ?thesis by (simp add: offered_eq item_matches_def)
qed

text \<open>C28. The palette offers what the vault and the tunnels allow. While no vault is unlocked, whatever is
  searched for, no offered action touches a vault, a saved host or a tunnel except unlocking. When one
  is, an unsearched palette offers to stop exactly the saved tunnels that have a runtime entry, which a
  failed tunnel also has, and to start exactly the others; it offers to connect exactly to the saved hosts
  without a pending connection, to cancel exactly the latest pending connection of each saved host that has
  one, and to edit and delete exactly the saved hosts.\<close>

theorem palette_offers:
  "(if px_vault_unlocked x
    then (\<forall>v i. StartTunnel v i \<in> offered lower (x\<lparr>px_query := []\<rparr>) \<longleftrightarrow>
            (\<exists>p \<in> set (px_port_forwards x). vp_vault_id p = v \<and> ps_id (vp_port_forward p) = i
               \<and> item_scope_key v i \<notin> rs_id ` set (px_active_port_forwards x)))
      \<and> (\<forall>k. StopTunnel k \<in> offered lower (x\<lparr>px_query := []\<rparr>) \<longleftrightarrow>
            (\<exists>p \<in> set (px_port_forwards x). item_scope_key (vp_vault_id p) (ps_id (vp_port_forward p)) = k)
              \<and> k \<in> rs_id ` set (px_active_port_forwards x))
      \<and> (\<forall>v i. ConnectSavedHost v i \<in> offered lower (x\<lparr>px_query := []\<rparr>) \<longleftrightarrow>
            (\<exists>h \<in> set (px_saved_hosts x). sh_vault_id h = v \<and> hs_id (sh_host h) = i)
              \<and> host_scope_key v i \<notin> pc_host_scope_key ` set (px_pending_connects x))
      \<and> (\<forall>a. CancelSavedHostConnect a \<in> offered lower (x\<lparr>px_query := []\<rparr>) \<longleftrightarrow>
            (\<exists>before p after. px_pending_connects x = before @ p # after \<and> pc_id p = a
               \<and> (\<exists>h \<in> set (px_saved_hosts x). pc_host_scope_key p = host_scope_key (sh_vault_id h) (hs_id (sh_host h)))
               \<and> pc_host_scope_key p \<notin> pc_host_scope_key ` set after))
      \<and> (\<forall>v i. EditSavedHost v i \<in> offered lower (x\<lparr>px_query := []\<rparr>) \<longleftrightarrow>
            (\<exists>h \<in> set (px_saved_hosts x). sh_vault_id h = v \<and> hs_id (sh_host h) = i))
      \<and> (\<forall>v i. DeleteSavedHost v i \<in> offered lower (x\<lparr>px_query := []\<rparr>) \<longleftrightarrow>
            (\<exists>h \<in> set (px_saved_hosts x). sh_vault_id h = v \<and> hs_id (sh_host h) = i))
    else offered lower x \<subseteq> {a. needs_no_vault a})"
proof (cases "px_vault_unlocked x")
  case True
  let ?hosts = "pi_action ` set (host_items (px_saved_hosts x) (px_pending_connects x))"
  let ?tunnels = "pi_action ` set (tunnel_items (px_saved_hosts x) (px_port_forwards x) (px_active_port_forwards x))"
  have "StartTunnel v i \<in> pi_action ` set (all_items x) \<longleftrightarrow> StartTunnel v i \<in> ?tunnels"
    "StopTunnel k \<in> pi_action ` set (all_items x) \<longleftrightarrow> StopTunnel k \<in> ?tunnels"
    "ConnectSavedHost v i \<in> pi_action ` set (all_items x) \<longleftrightarrow> ConnectSavedHost v i \<in> ?hosts"
    "CancelSavedHostConnect a \<in> pi_action ` set (all_items x) \<longleftrightarrow> CancelSavedHostConnect a \<in> ?hosts"
    "EditSavedHost v i \<in> pi_action ` set (all_items x) \<longleftrightarrow> EditSavedHost v i \<in> ?hosts"
    "DeleteSavedHost v i \<in> pi_action ` set (all_items x) \<longleftrightarrow> DeleteSavedHost v i \<in> ?hosts"
    for v i k a using action_in_block [OF True] by simp_all
  with True show ?thesis
    by (simp only: offered_unsearched start_offered stop_offered connect_offered cancel_offered edit_offered
        if_True) blast
next
  case False
  then show ?thesis using locked_items by (auto simp: offered_eq)
qed

section \<open>Keys\<close>

text \<open>The keys of the themes are the ones the configuration accepts, so that a validated configuration
  always names a theme.\<close>

lemma theme_keys_supported: "map theme_key all_themes = SUPPORTED_THEME_KEYS"
  by (simp add: all_themes_def SUPPORTED_THEME_KEYS_def)

lemma theme_from_key_theme_key: "theme_from_key (theme_key t) = Some t"
  by (cases t) (simp_all add: theme_from_key_def all_themes_def)

lemma validated_theme_known:
  assumes "validate lower macos config = Inr ()"
  shows "\<exists>t. theme_from_key (ac_theme (cfg_appearance config)) = Some t \<and> theme_key t = ac_theme (cfg_appearance config)"
proof -
  from assms have "ac_theme (cfg_appearance config) \<in> set (map theme_key all_themes)"
    by (simp add: validate_iff config_ok_def theme_keys_supported)
  then show ?thesis using theme_from_key_theme_key by auto
qed

lemma split_scope_key_round_trip:
  assumes "CHR '':'' \<notin> set vault_id"
  shows "split_scope_key (item_scope_key vault_id item_id) = Some (vault_id, item_id)"
  using assms unfolding item_scope_key_def
proof (induction vault_id)
  case (Cons c v)
  then show ?case by (cases "v @ ''::'' @ item_id") auto
qed simp

end
