(* ===== verification/Ui_Connect.thy ===== *)
theory Ui_Connect
  imports Ssh_Connect Ui_Palette Core_Sessions
begin

text \<open>
  Connection attempts in the user interface (seance-ui: connect.rs and the connection methods of
  sessions.rs): the tracker of pending attempts, starting, cancelling and completing one, and the
  tasks that make the connections. Between the moment a task has its result and the moment its
  cancel channel is gone, a cancellation still counts as sent though it has no effect; the result
  then arrives for an attempt that was removed.
\<close>

section \<open>The tracker\<close>

record pending_connect =
  pd_id :: u64
  pd_host_scope_key :: string
  pd_vault_id :: string
  pd_host_id :: string
  pd_host_label :: string
  pd_session_id :: u64

record connect_attempt_tracker =
  ct_next_attempt_id :: u64
  ct_by_attempt_id :: "(u64, pending_connect) hashmap"
  ct_by_host_scope_key :: "(string, u64) hashmap"
  ct_last_foreground_attempt_id :: "u64 option"

definition default_tracker :: connect_attempt_tracker where
  "default_tracker = \<lparr>ct_next_attempt_id = 1, ct_by_attempt_id = [], ct_by_host_scope_key = [],
     ct_last_foreground_attempt_id = None\<rparr>"

definition attempt_id_for_host :: "string \<Rightarrow> connect_attempt_tracker \<Rightarrow> u64 option" where
  "attempt_id_for_host key t = hm_get (ct_by_host_scope_key t) key"

definition saturating_next :: "u64 \<Rightarrow> u64" where
  "saturating_next n = (if n = - 1 then n else n + 1)"

definition start_attempt :: "pending_connect \<Rightarrow> connect_attempt_tracker \<Rightarrow> connect_attempt_tracker" where
  "start_attempt p t =
     t\<lparr>ct_by_host_scope_key := hm_insert (pd_host_scope_key p) (pd_id p) (ct_by_host_scope_key t),
       ct_by_attempt_id := hm_insert (pd_id p) p (ct_by_attempt_id t),
       ct_last_foreground_attempt_id := Some (pd_id p),
       ct_next_attempt_id := max (ct_next_attempt_id t) (saturating_next (pd_id p))\<rparr>"

definition next_attempt_id :: "connect_attempt_tracker \<Rightarrow> u64 \<times> connect_attempt_tracker" where
  "next_attempt_id t = (ct_next_attempt_id t, t\<lparr>ct_next_attempt_id := saturating_next (ct_next_attempt_id t)\<rparr>)"

text \<open>The removed attempt, and whether it was in the foreground.\<close>

definition remove_attempt ::
  "u64 \<Rightarrow> connect_attempt_tracker \<Rightarrow> (pending_connect \<times> bool) option \<times> connect_attempt_tracker" where
  "remove_attempt i t =
     (case hm_get (ct_by_attempt_id t) i of
        None \<Rightarrow> (None, t)
      | Some p \<Rightarrow>
          let was_foreground = (ct_last_foreground_attempt_id t = Some i) in
          (Some (p, was_foreground),
           t\<lparr>ct_by_attempt_id := hm_remove i (ct_by_attempt_id t),
             ct_by_host_scope_key := hm_remove (pd_host_scope_key p) (ct_by_host_scope_key t),
             ct_last_foreground_attempt_id :=
               (if was_foreground then None else ct_last_foreground_attempt_id t)\<rparr>))"

definition pending_summaries :: "connect_attempt_tracker \<Rightarrow> pending_connect_summary list" where
  "pending_summaries t =
     sort_key pc_id (map (\<lambda>(i, p). \<lparr>pc_id = pd_id p, pc_host_scope_key = pd_host_scope_key p,
       pc_host_label = pd_host_label p\<rparr>) (ct_by_attempt_id t))"

section \<open>The window and the tasks\<close>

text \<open>A task: connecting; told to cancel; with its result but still listening; ended with its result in
  the channel; and with the result taken.\<close>

datatype connect_task = TaskConnecting | TaskCancelled | TaskDecided "ssh_error + u64"
  | TaskEnded "ssh_error + u64" | TaskTaken

text \<open>The window: its tracker, the tasks by attempt, the selected host, the sessions it registered with
  their attempt and origin, the attempts it reported as cancelled, the active session, and the
  toasts it showed, newest first.\<close>

record connect_window =
  cw_tracker :: connect_attempt_tracker
  cw_tasks :: "(u64, connect_task) hashmap"
  cw_selected_host_id :: "string option"
  cw_registered :: "(u64 \<times> u64 \<times> session_origin) list"
  cw_cancelled :: "u64 list"
  cw_active_session_id :: u64
  cw_toasts :: "string list"

definition new_connect_window :: connect_window where
  "new_connect_window = \<lparr>cw_tracker = default_tracker, cw_tasks = [], cw_selected_host_id = None, cw_registered = [],
     cw_cancelled = [], cw_active_session_id = 0, cw_toasts = []\<rparr>"

definition show_toast :: "string \<Rightarrow> connect_window \<Rightarrow> connect_window" where
  "show_toast msg c = c\<lparr>cw_toasts := msg # cw_toasts c\<rparr>"

text \<open>\<open>request\<close> is the label of the request that the backend builds, \<open>task\<close> the session number of the
  task that it starts, or the text of the error.\<close>

definition start_connect_attempt ::
  "string \<Rightarrow> string \<Rightarrow> string + string \<Rightarrow> string + u64 \<Rightarrow> connect_window \<Rightarrow> connect_window" where
  "start_connect_attempt vault_id host_id request started c0 =
     (let scope_key = host_scope_key vault_id host_id;
          c = c0\<lparr>cw_selected_host_id := Some scope_key\<rparr> in
      if attempt_id_for_host scope_key (cw_tracker c) \<noteq> None then c
      else
        case request of
          Inl e \<Rightarrow> show_toast e c
        | Inr host_label \<Rightarrow>
            case started of
              Inl e \<Rightarrow> show_toast e c
            | Inr session_id \<Rightarrow>
                let (attempt_id, t) = next_attempt_id (cw_tracker c);
                    p = \<lparr>pd_id = attempt_id, pd_host_scope_key = scope_key, pd_vault_id = vault_id,
                         pd_host_id = host_id, pd_host_label = host_label, pd_session_id = session_id\<rparr>
                in show_toast (''Connecting to '' @ host_label @ ''...'')
                     (c\<lparr>cw_tracker := start_attempt p t, cw_tasks := hm_insert attempt_id TaskConnecting (cw_tasks c)\<rparr>))"

text \<open>\<open>SshConnectAbortHandle::abort\<close>: whether the cancellation was sent to a task that listens.\<close>

fun abort_connect :: "connect_task \<Rightarrow> bool \<times> connect_task" where
  "abort_connect TaskConnecting = (True, TaskCancelled)"
| "abort_connect (TaskDecided r) = (True, TaskDecided r)"
| "abort_connect k = (False, k)"

definition cancel_connect_attempt :: "u64 \<Rightarrow> connect_window \<Rightarrow> connect_window" where
  "cancel_connect_attempt i c =
     (case hm_get (ct_by_attempt_id (cw_tracker c)) i of
        None \<Rightarrow> c
      | Some p \<Rightarrow>
          case hm_get (cw_tasks c) i of
            None \<Rightarrow> c
          | Some k \<Rightarrow>
              let (cancelled, k') = abort_connect k; c1 = c\<lparr>cw_tasks := hm_insert i k' (cw_tasks c)\<rparr> in
              if \<not> cancelled then c1
              else
                case remove_attempt i (cw_tracker c1) of
                  (None, t) \<Rightarrow> c1\<lparr>cw_tracker := t\<rparr>
                | (Some (q, was_foreground), t) \<Rightarrow>
                    show_toast (''Cancelled connect: '' @ pd_host_label q)
                      (c1\<lparr>cw_tracker := t, cw_cancelled := i # cw_cancelled c1\<rparr>))"

text \<open>The text of an error, from its attributes.\<close>

fun ssh_error_text :: "ssh_error \<Rightarrow> string" where
  "ssh_error_text MissingAuthMethods = ''no SSH auth methods were resolved for this host''"
| "ssh_error_text AuthenticationRejected = ''all configured SSH auth methods were rejected by the server''"
| "ssh_error_text (InvalidPrivateKeyConfig s) = ''invalid private key configuration: '' @ s"
| "ssh_error_text (Transport s) = ''SSH transport error: '' @ s"
| "ssh_error_text TimedOut = ''SSH connect timed out''"
| "ssh_error_text Cancelled = ''SSH connect cancelled''"
| "ssh_error_text (SftpBootstrap s) = ''SFTP bootstrap failed: '' @ s"
| "ssh_error_text SftpNotConnected = ''no SFTP session for this connection''"
| "ssh_error_text (SftpOperation s) = ''SFTP operation failed: '' @ s"
| "ssh_error_text (PortForwardAlreadyRunning s) = ''port forward '' @ s @ '' is already running''"
| "ssh_error_text (PortForwardBind s) = ''port forward listener failed: '' @ s"
| "ssh_error_text (PortForwardTargetConnect s) = ''port forward target connect failed: '' @ s"
| "ssh_error_text (PortForwardChannel s) = ''port forward channel open failed: '' @ s"

definition complete_connect_attempt :: "u64 \<Rightarrow> ssh_error + u64 \<Rightarrow> connect_window \<Rightarrow> connect_window" where
  "complete_connect_attempt i result c =
     (case remove_attempt i (cw_tracker c) of
        (None, t) \<Rightarrow> c
      | (Some (p, was_foreground), t) \<Rightarrow>
          let c1 = c\<lparr>cw_tracker := t\<rparr> in
          case result of
            Inr session \<Rightarrow>
              let c2 = c1\<lparr>cw_registered := (i, session, \<lparr>so_vault_id = pd_vault_id p, so_host_id = pd_host_id p,
                    so_host_label_at_connect = pd_host_label p\<rparr>) # cw_registered c1\<rparr>;
                  c3 = (if was_foreground then c2\<lparr>cw_active_session_id := session\<rparr> else c2)
              in show_toast (''Connected: '' @ pd_host_label p) c3
          | Inl e \<Rightarrow>
              show_toast
                (case e of
                   TimedOut \<Rightarrow> ''Connect timed out: '' @ pd_host_label p
                 | Cancelled \<Rightarrow> ''Cancelled connect: '' @ pd_host_label p
                 | other \<Rightarrow> ssh_error_text other) c1)"

datatype connect_event =
    StartConnect string string "string + string" "string + u64"
  | CancelConnect u64
  | TaskDecides u64 "ssh_error + u64"
  | TaskEnds u64
  | ResultArrives u64

text \<open>A cancelled task decides for \<open>Cancelled\<close>, since the cancel channel is polled first.\<close>

fun connect_step :: "connect_event \<Rightarrow> connect_window \<Rightarrow> connect_window" where
  "connect_step (StartConnect v h request started) c = start_connect_attempt v h request started c"
| "connect_step (CancelConnect i) c = cancel_connect_attempt i c"
| "connect_step (TaskDecides i r) c =
     (case hm_get (cw_tasks c) i of
        Some TaskConnecting \<Rightarrow> c\<lparr>cw_tasks := hm_insert i (TaskDecided r) (cw_tasks c)\<rparr>
      | Some TaskCancelled \<Rightarrow> c\<lparr>cw_tasks := hm_insert i (TaskDecided (Inl Cancelled)) (cw_tasks c)\<rparr>
      | _ \<Rightarrow> c)"
| "connect_step (TaskEnds i) c =
     (case hm_get (cw_tasks c) i of
        Some (TaskDecided r) \<Rightarrow> c\<lparr>cw_tasks := hm_insert i (TaskEnded r) (cw_tasks c)\<rparr>
      | _ \<Rightarrow> c)"
| "connect_step (ResultArrives i) c =
     (case hm_get (cw_tasks c) i of
        Some (TaskEnded r) \<Rightarrow> complete_connect_attempt i r (c\<lparr>cw_tasks := hm_insert i TaskTaken (cw_tasks c)\<rparr>)
      | _ \<Rightarrow> c)"

section \<open>The invariant\<close>

definition tracker_ok :: "connect_attempt_tracker \<Rightarrow> bool" where
  "tracker_ok t \<longleftrightarrow>
     hm_ok (ct_by_attempt_id t) \<and> hm_ok (ct_by_host_scope_key t)
     \<and> (\<forall>k i. hm_get (ct_by_host_scope_key t) k = Some i \<longleftrightarrow>
          (\<exists>p. hm_get (ct_by_attempt_id t) i = Some p \<and> pd_host_scope_key p = k))
     \<and> (\<forall>i p. hm_get (ct_by_attempt_id t) i = Some p \<longrightarrow> pd_id p = i \<and> i < ct_next_attempt_id t)
     \<and> (\<forall>i. ct_last_foreground_attempt_id t = Some i \<longrightarrow> hm_get (ct_by_attempt_id t) i \<noteq> None)"

text \<open>A task has ended for the window exactly when its attempt is gone or its result was taken, and what
  became of an attempt is one thing only.\<close>

definition connect_ok :: "connect_window \<Rightarrow> bool" where
  "connect_ok c \<longleftrightarrow>
     tracker_ok (cw_tracker c)
     \<and> (\<forall>i p. hm_get (ct_by_attempt_id (cw_tracker c)) i = Some p \<longrightarrow>
          (\<exists>k. hm_get (cw_tasks c) i = Some k \<and> k \<noteq> TaskTaken \<and> k \<noteq> TaskCancelled) \<and> i \<notin> set (cw_cancelled c) \<and> i \<notin> fst ` set (cw_registered c))
     \<and> set (cw_cancelled c) \<inter> fst ` set (cw_registered c) = {}
     \<and> distinct (cw_cancelled c) \<and> distinct (map fst (cw_registered c))
     \<and> (\<forall>i \<in> set (cw_cancelled c) \<union> fst ` set (cw_registered c). i < ct_next_attempt_id (cw_tracker c))"

lemma tracker_hosts:
  "tracker_ok t \<Longrightarrow> hm_get (ct_by_host_scope_key t) k = Some i \<longleftrightarrow>
     (\<exists>p. hm_get (ct_by_attempt_id t) i = Some p \<and> pd_host_scope_key p = k)"
  unfolding tracker_ok_def by blast

lemma tracker_ids: "tracker_ok t \<Longrightarrow> hm_get (ct_by_attempt_id t) i = Some p \<Longrightarrow> pd_id p = i \<and> i < ct_next_attempt_id t"
  unfolding tracker_ok_def by blast

lemma tracker_foreground: "tracker_ok t \<Longrightarrow> ct_last_foreground_attempt_id t = Some i \<Longrightarrow> hm_get (ct_by_attempt_id t) i \<noteq> None"
  unfolding tracker_ok_def by blast

lemma tracker_tables: "tracker_ok t \<Longrightarrow> hm_ok (ct_by_attempt_id t) \<and> hm_ok (ct_by_host_scope_key t)"
  unfolding tracker_ok_def by blast

lemma remove_attempt_ok:
  assumes "tracker_ok t" "remove_attempt i t = (r, t')"
  shows "tracker_ok t' \<and> ct_next_attempt_id t' = ct_next_attempt_id t
    \<and> ct_by_attempt_id t' = (if r = None then ct_by_attempt_id t else hm_remove i (ct_by_attempt_id t))
    \<and> (r = None \<longleftrightarrow> hm_get (ct_by_attempt_id t) i = None)"
proof (cases "hm_get (ct_by_attempt_id t) i")
  case None
  with assms show ?thesis by (auto simp: remove_attempt_def)
next
  case (Some p)
  let ?h = "hm_remove (pd_host_scope_key p) (ct_by_host_scope_key t)" and ?a = "hm_remove i (ct_by_attempt_id t)"
  have t': "ct_by_attempt_id t' = ?a" "ct_by_host_scope_key t' = ?h" "ct_next_attempt_id t' = ct_next_attempt_id t"
    "ct_last_foreground_attempt_id t' = (if ct_last_foreground_attempt_id t = Some i then None else ct_last_foreground_attempt_id t)"
    and r: "r \<noteq> None"
    using assms(2) Some by (auto simp: remove_attempt_def Let_def)
  have "hm_get ?h k = Some j \<longleftrightarrow> (\<exists>q. hm_get ?a j = Some q \<and> pd_host_scope_key q = k)" for k j
  proof (cases "k = pd_host_scope_key p")
    case True
    have "j = i" if "hm_get (ct_by_attempt_id t) j = Some q" "pd_host_scope_key q = k" for q
      using tracker_hosts [OF assms(1), of k] Some True that by (metis option.inject)
    with True show ?thesis by auto
  next
    case False
    with Some tracker_hosts [OF assms(1), of k j] show ?thesis by auto
  qed
  moreover have "hm_ok ?a" "hm_ok ?h" using tracker_tables [OF assms(1)] by simp_all
  ultimately show ?thesis
    using Some r tracker_ids [OF assms(1)] tracker_foreground [OF assms(1)]
    unfolding tracker_ok_def t' by auto
qed

lemma start_attempt_ok:
  assumes "tracker_ok t" "attempt_id_for_host (pd_host_scope_key p) t = None" "next_attempt_id t = (pd_id p, t1)"
    and "ct_next_attempt_id t \<noteq> - 1"
  shows "tracker_ok (start_attempt p t1) \<and> ct_next_attempt_id (start_attempt p t1) = ct_next_attempt_id t + 1
    \<and> ct_by_attempt_id (start_attempt p t1) = hm_insert (ct_next_attempt_id t) p (ct_by_attempt_id t)"
proof -
  have t1: "pd_id p = ct_next_attempt_id t" "ct_by_attempt_id t1 = ct_by_attempt_id t"
    "ct_by_host_scope_key t1 = ct_by_host_scope_key t" "ct_next_attempt_id t1 = ct_next_attempt_id t + 1"
    using assms(3,4) by (auto simp: next_attempt_id_def saturating_next_def)
  define n where "n = ct_next_attempt_id t"
  have "1 + n \<noteq> 0" using assms(4) by (auto simp: n_def add_eq_0_iff)
  then have lt: "n < n + 1" using unatSuc [of n] by (simp add: word_less_nat_alt add.commute)
  have fresh: "hm_get (ct_by_attempt_id t) n = None"
    using tracker_ids [OF assms(1), of n] by (cases "hm_get (ct_by_attempt_id t) n") (auto simp: n_def)
  let ?s = "start_attempt p t1"
  have s: "ct_by_attempt_id ?s = hm_insert n p (ct_by_attempt_id t)"
    "ct_by_host_scope_key ?s = hm_insert (pd_host_scope_key p) n (ct_by_host_scope_key t)"
    "ct_next_attempt_id ?s = n + 1" "ct_last_foreground_attempt_id ?s = Some n"
    using assms(4) by (simp_all add: start_attempt_def t1 n_def saturating_next_def)
  have none: "pd_host_scope_key q \<noteq> pd_host_scope_key p" if "hm_get (ct_by_attempt_id t) j = Some q" for j q
    using that assms(2) tracker_hosts [OF assms(1), of "pd_host_scope_key p" j] by (auto simp: attempt_id_for_host_def)
  have "hm_get (ct_by_host_scope_key ?s) k = Some j \<longleftrightarrow>
      (\<exists>q. hm_get (ct_by_attempt_id ?s) j = Some q \<and> pd_host_scope_key q = k)" for k j
    using none fresh tracker_hosts [OF assms(1), of k j] by (auto simp: s)
  moreover have "hm_ok (ct_by_attempt_id ?s)" "hm_ok (ct_by_host_scope_key ?s)"
    using tracker_tables [OF assms(1)] by (simp_all add: s)
  moreover have "pd_id q = i \<and> i < n + 1" if "hm_get (ct_by_attempt_id ?s) i = Some q" for i q
    using that tracker_ids [OF assms(1), of i q] lt t1(1) by (auto simp: s n_def split: if_splits)
  ultimately show ?thesis unfolding tracker_ok_def s by (auto simp: s n_def)
qed

text \<open>The attempts whose fate is known, and those still pending.\<close>

abbreviation pending_in :: "connect_window \<Rightarrow> u64 \<Rightarrow> pending_connect option" where
  "pending_in c i \<equiv> hm_get (ct_by_attempt_id (cw_tracker c)) i"

definition settled :: "connect_window \<Rightarrow> u64 set" where
  "settled c = set (cw_cancelled c) \<union> fst ` set (cw_registered c)"

lemma connect_okI:
  assumes "tracker_ok (cw_tracker c)"
    and "\<And>i p. pending_in c i = Some p \<Longrightarrow> \<exists>k. hm_get (cw_tasks c) i = Some k \<and> k \<noteq> TaskTaken \<and> k \<noteq> TaskCancelled"
    and "\<And>i p. pending_in c i = Some p \<Longrightarrow> i \<notin> settled c"
    and "set (cw_cancelled c) \<inter> fst ` set (cw_registered c) = {}" "distinct (cw_cancelled c)" "distinct (map fst (cw_registered c))"
    and "\<And>i. i \<in> settled c \<Longrightarrow> i < ct_next_attempt_id (cw_tracker c)"
  shows "connect_ok c"
  unfolding connect_ok_def using assms unfolding settled_def by blast

lemma connect_okD:
  assumes "connect_ok c"
  shows "tracker_ok (cw_tracker c)"
    and "pending_in c i = Some p \<Longrightarrow> \<exists>k. hm_get (cw_tasks c) i = Some k \<and> k \<noteq> TaskTaken \<and> k \<noteq> TaskCancelled"
    and "pending_in c i = Some p \<Longrightarrow> i \<notin> settled c"
    and "set (cw_cancelled c) \<inter> fst ` set (cw_registered c) = {}" "distinct (cw_cancelled c)" "distinct (map fst (cw_registered c))"
    and "i \<in> settled c \<Longrightarrow> i < ct_next_attempt_id (cw_tracker c)"
  using assms unfolding connect_ok_def settled_def by blast+

lemma connect_ok_tasks:
  assumes "connect_ok c" "pending_in c i = None \<or> k \<noteq> TaskTaken \<and> k \<noteq> TaskCancelled"
  shows "connect_ok (c\<lparr>cw_tasks := hm_insert i k (cw_tasks c)\<rparr>)"
  using connect_okD [OF assms(1)] assms(2) by (intro connect_okI) (auto simp: settled_def)

lemma connect_ok_other [simp]:
  "connect_ok (show_toast msg c) = connect_ok c" "connect_ok (c\<lparr>cw_selected_host_id := h\<rparr>) = connect_ok c"
  "connect_ok (c\<lparr>cw_active_session_id := a\<rparr>) = connect_ok c"
  by (simp_all add: connect_ok_def show_toast_def)

lemma connect_ok_remove:
  assumes "connect_ok c" "remove_attempt i (cw_tracker c) = (Some (p, f), t)"
  shows "connect_ok (c\<lparr>cw_tracker := t\<rparr>)" "hm_get (ct_by_attempt_id t) i = None" "i \<notin> settled c"
    "i < ct_next_attempt_id t" "ct_next_attempt_id t = ct_next_attempt_id (cw_tracker c)"
proof -
  note d = connect_okD [OF assms(1)] and r = remove_attempt_ok [OF connect_okD(1) [OF assms(1)] assms(2)]
  from r obtain q where q: "pending_in c i = Some q" by auto
  show "hm_get (ct_by_attempt_id t) i = None" "ct_next_attempt_id t = ct_next_attempt_id (cw_tracker c)" using r by auto
  show "i \<notin> settled c" using d(3) q by blast
  show "i < ct_next_attempt_id t" using tracker_ids [OF d(1) q] r by simp
  show "connect_ok (c\<lparr>cw_tracker := t\<rparr>)"
    using r d by (intro connect_okI) (auto simp: settled_def split: if_splits)
qed

lemma connect_ok_settle:
  assumes "connect_ok c" "pending_in c i = None" "i \<notin> settled c" "i < ct_next_attempt_id (cw_tracker c)"
  shows "connect_ok (c\<lparr>cw_cancelled := i # cw_cancelled c\<rparr>)"
    and "connect_ok (c\<lparr>cw_registered := (i, x) # cw_registered c\<rparr>)"
proof -
  define R where "R = fst ` set (cw_registered c)"
  note d = connect_okD [OF assms(1), unfolded settled_def, folded R_def] and a = assms(2-4) [unfolded settled_def, folded R_def]
  show "connect_ok (c\<lparr>cw_cancelled := i # cw_cancelled c\<rparr>)"
    using d a by (intro connect_okI) (auto simp: settled_def R_def [symmetric])
  show "connect_ok (c\<lparr>cw_registered := (i, x) # cw_registered c\<rparr>)"
    using d a by (intro connect_okI) (auto simp: settled_def R_def [symmetric])
qed

lemma connect_step_ok:
  assumes "connect_ok c" "ct_next_attempt_id (cw_tracker c) \<noteq> - 1"
  shows "connect_ok (connect_step e c)
    \<and> unat (ct_next_attempt_id (cw_tracker (connect_step e c))) \<le> unat (ct_next_attempt_id (cw_tracker c)) + 1"
proof (cases e)
  case (StartConnect v h request started)
  let ?n = "ct_next_attempt_id (cw_tracker c)"
  show ?thesis
  proof (cases "attempt_id_for_host (host_scope_key v h) (cw_tracker c) = None \<and> (\<exists>l. request = Inr l) \<and> (\<exists>s. started = Inr s)")
    case True
    then obtain l s where ls: "request = Inr l" "started = Inr s" by blast
    define p where "p = \<lparr>pd_id = ?n, pd_host_scope_key = host_scope_key v h, pd_vault_id = v, pd_host_id = h,
      pd_host_label = l, pd_session_id = s\<rparr>"
    obtain t1 where t1: "next_attempt_id (cw_tracker c) = (pd_id p, t1)" by (simp add: next_attempt_id_def p_def)
    have key: "attempt_id_for_host (pd_host_scope_key p) (cw_tracker c) = None" using True by (simp add: p_def)
    note st = start_attempt_ok [OF connect_okD(1) [OF assms(1)] key t1 assms(2)]
    have "1 + ?n \<noteq> 0" using assms(2) by (auto simp: add_eq_0_iff)
    then have u: "unat (?n + 1) = unat ?n + 1" using unatSuc [of ?n] by (simp add: add.commute)
    then have lt: "i < ?n \<Longrightarrow> i < ?n + 1" for i by (simp add: word_less_nat_alt)
    have "?n \<notin> settled c" using connect_okD(7) [OF assms(1), of ?n] by auto
    then have fresh: "?n \<notin> set (cw_cancelled c)" "(?n, x) \<notin> set (cw_registered c)" for x
      by (force simp: settled_def)+
    have c': "connect_step e c = show_toast (''Connecting to '' @ l @ ''...'') (c\<lparr>cw_selected_host_id := Some (host_scope_key v h),
        cw_tracker := start_attempt p t1, cw_tasks := hm_insert ?n TaskConnecting (cw_tasks c)\<rparr>)"
      using StartConnect True ls t1 by (simp add: start_connect_attempt_def p_def Let_def)
    have "connect_ok (c\<lparr>cw_selected_host_id := Some (host_scope_key v h), cw_tracker := start_attempt p t1,
        cw_tasks := hm_insert ?n TaskConnecting (cw_tasks c)\<rparr>)"
      using connect_okD [OF assms(1)] st lt fresh
      by (intro connect_okI) (auto simp: settled_def split: if_splits)
    then show ?thesis using c' st u by (simp add: show_toast_def connect_ok_def)
  next
    case False
    then show ?thesis using assms(1) StartConnect
      by (cases request; cases started) (auto simp: start_connect_attempt_def Let_def, auto simp: show_toast_def)
  qed
next
  case (CancelConnect i)
  show ?thesis
  proof (cases "\<exists>p k. pending_in c i = Some p \<and> hm_get (cw_tasks c) i = Some k \<and> fst (abort_connect k)")
    case True
    then obtain p k k' where k: "pending_in c i = Some p" "hm_get (cw_tasks c) i = Some k" "abort_connect k = (True, k')"
      by (metis prod.collapse)
    obtain q f t where r: "remove_attempt i (cw_tracker c) = (Some (q, f), t)"
      using k(1) by (simp add: remove_attempt_def Let_def)
    note m = connect_ok_remove [OF assms(1) r]
    have "connect_ok (c\<lparr>cw_tracker := t, cw_cancelled := i # cw_cancelled c\<rparr>)"
      using connect_ok_settle(1) [of "c\<lparr>cw_tracker := t\<rparr>" i] m by (simp add: settled_def)
    from connect_ok_tasks [OF this, of i k'] m(2)
    have "connect_ok (c\<lparr>cw_tracker := t, cw_cancelled := i # cw_cancelled c, cw_tasks := hm_insert i k' (cw_tasks c)\<rparr>)"
      by simp
    moreover have "c\<lparr>cw_tracker := t, cw_cancelled := i # cw_cancelled c, cw_tasks := hm_insert i k' (cw_tasks c)\<rparr>
        = c\<lparr>cw_tasks := hm_insert i k' (cw_tasks c), cw_tracker := t, cw_cancelled := i # cw_cancelled c\<rparr>" by (cases c) simp
    ultimately have "connect_ok (c\<lparr>cw_tasks := hm_insert i k' (cw_tasks c), cw_tracker := t, cw_cancelled := i # cw_cancelled c\<rparr>)"
      by simp
    then show ?thesis using CancelConnect k r m(5)
      by (simp add: cancel_connect_attempt_def Let_def) (simp add: show_toast_def)
  next
    case False
    have "connect_ok (cancel_connect_attempt i c) \<and> cw_tracker (cancel_connect_attempt i c) = cw_tracker c"
    proof (cases "pending_in c i = None \<or> hm_get (cw_tasks c) i = None")
      case True
      then show ?thesis using assms(1) by (auto simp: cancel_connect_attempt_def split: option.splits)
    next
      case n: False
      then obtain p k where k: "pending_in c i = Some p" "hm_get (cw_tasks c) i = Some k" by auto
      then have "abort_connect k = (False, k)" using False by (cases k) auto
      moreover have "connect_ok (c\<lparr>cw_tasks := hm_insert i k (cw_tasks c)\<rparr>)"
        using connect_okD(2) [OF assms(1) k(1)] k(2) by (intro connect_ok_tasks [OF assms(1)]) auto
      ultimately show ?thesis using k by (simp add: cancel_connect_attempt_def)
    qed
    then show ?thesis using CancelConnect by simp
  qed
next
  case (ResultArrives i)
  show ?thesis
  proof (cases "\<exists>r. hm_get (cw_tasks c) i = Some (TaskEnded r)")
    case True
    then obtain r where r: "hm_get (cw_tasks c) i = Some (TaskEnded r)" by blast
    obtain x t where x: "remove_attempt i (cw_tracker c) = (x, t)" by fastforce
    show ?thesis
    proof (cases x)
      case None
      then have "pending_in c i = None" using remove_attempt_ok [OF connect_okD(1) [OF assms(1)] x] by simp
      then show ?thesis using ResultArrives r x None connect_ok_tasks [OF assms(1), of i TaskTaken]
        by (simp add: complete_connect_attempt_def)
    next
      case (Some y)
      obtain p f where y: "y = (p, f)" by fastforce
      note m = connect_ok_remove [OF assms(1) x [unfolded Some y]]
      let ?c = "c\<lparr>cw_tasks := hm_insert i TaskTaken (cw_tasks c), cw_tracker := t\<rparr>"
      have "connect_ok (c\<lparr>cw_tracker := t, cw_tasks := hm_insert i TaskTaken (cw_tasks c)\<rparr>)"
        using connect_ok_tasks [OF m(1), of i TaskTaken] m(2) by simp
      then have ok: "connect_ok ?c" by (cases c) simp
      have reg: "connect_ok (?c\<lparr>cw_registered := (i, o') # cw_registered c\<rparr>)" for o'
        using connect_ok_settle(2) [OF ok, of i o'] m by (simp add: settled_def)
      show ?thesis using ResultArrives r x Some y m(5) ok reg
        by (cases r) (simp_all add: complete_connect_attempt_def Let_def, simp_all add: show_toast_def)
    qed
  next
    case False
    then show ?thesis using assms(1) ResultArrives by (auto split: option.splits connect_task.splits)
  qed
qed (use assms(1) connect_ok_tasks [OF assms(1)] in \<open>auto split: option.splits connect_task.splits\<close>)

lemma connect_run_ok:
  assumes "connect_ok c" "unat (ct_next_attempt_id (cw_tracker c)) + length es < 2 ^ 64"
  shows "connect_ok (fold connect_step es c)"
  using assms
proof (induction es arbitrary: c)
  case (Cons e es)
  have "ct_next_attempt_id (cw_tracker c) \<noteq> - 1"
    using Cons.prems(2) by (auto simp: unsigned_minus_1_eq_mask mask_eq_exp_minus_1)
  from connect_step_ok [OF Cons.prems(1) this, of e] Cons.prems(2) Cons.IH [of "connect_step e c"] show ?case by simp
qed simp

lemma new_connect_window_ok: "connect_ok new_connect_window"
  by (simp add: connect_ok_def new_connect_window_def tracker_ok_def default_tracker_def)

lemma pending_summaries_exact:
  assumes "tracker_ok t"
  shows "(\<exists>s \<in> set (pending_summaries t). pc_id s = i \<and> pc_host_scope_key s = k) \<longleftrightarrow> attempt_id_for_host k t = Some i"
proof -
  have "(\<exists>s \<in> set (pending_summaries t). pc_id s = i \<and> pc_host_scope_key s = k) \<longleftrightarrow>
      (\<exists>j p. hm_get (ct_by_attempt_id t) j = Some p \<and> pd_id p = i \<and> pd_host_scope_key p = k)"
    using tracker_tables [OF assms] by (auto simp: pending_summaries_def hm_get_mem split_beta) force+
  also have "\<dots> \<longleftrightarrow> (\<exists>p. hm_get (ct_by_attempt_id t) i = Some p \<and> pd_host_scope_key p = k)"
    using tracker_ids [OF assms] by blast
  finally show ?thesis using tracker_hosts [OF assms] by (simp add: attempt_id_for_host_def)
qed

text \<open>C21. A host has at most one connection attempt at a time, and an attempt has one outcome. Whatever is
  started, cancelled and completed in a window, in any order and however the tasks run (fewer than
  \<open>2 ^ 64 - 1\<close> events), the attempts listed are exactly those the hosts are marked busy with; an attempt
  reported as cancelled never becomes a session, even if its task had connected before the
  cancellation reached it; and no attempt is registered or cancelled twice or while it is listed.\<close>

theorem connect_attempts_consistent:
  assumes "length es < 2 ^ 64 - 1"
  defines "c \<equiv> fold connect_step es new_connect_window"
  shows "((\<exists>s \<in> set (pending_summaries (cw_tracker c)). pc_id s = i \<and> pc_host_scope_key s = k) \<longleftrightarrow>
        attempt_id_for_host k (cw_tracker c) = Some i)
    \<and> set (cw_cancelled c) \<inter> fst ` set (cw_registered c) = {}
    \<and> distinct (cw_cancelled c) \<and> distinct (map fst (cw_registered c))
    \<and> (set (cw_cancelled c) \<union> fst ` set (cw_registered c)) \<inter> pc_id ` set (pending_summaries (cw_tracker c)) = {}"
proof -
  have "connect_ok c"
    unfolding c_def using assms(1)
    by (intro connect_run_ok new_connect_window_ok) (simp add: new_connect_window_def default_tracker_def)
  note d = connect_okD [OF this]
  have "pending_in c (pc_id s) \<noteq> None" if "s \<in> set (pending_summaries (cw_tracker c))" for s
    using that tracker_tables [OF d(1)] tracker_ids [OF d(1)]
    by (auto simp: pending_summaries_def hm_get_mem)
  with d(3) have "settled c \<inter> pc_id ` set (pending_summaries (cw_tracker c)) = {}" by blast
  with d(4-6) pending_summaries_exact [OF d(1)] show ?thesis by (simp add: settled_def)
qed

definition demo_connect_events :: "connect_event list" where
  "demo_connect_events = [StartConnect ''v'' ''h'' (Inr ''l'') (Inr 3), TaskDecides 1 (Inr 3), CancelConnect 1,
     TaskEnds 1, ResultArrives 1]"

theorem connect_attempts_consistent_witness:
  "length demo_connect_events = 5
   \<and> set (cw_cancelled (fold connect_step demo_connect_events new_connect_window))
     \<inter> fst ` set (cw_registered (fold connect_step demo_connect_events new_connect_window)) = {}"
proof -
  have l: "length demo_connect_events = 5" by (simp add: demo_connect_events_def)
  then have "length demo_connect_events < 2 ^ 64 - 1" by simp
  from connect_attempts_consistent [OF this] l show ?thesis by blast
qed

end
