(* ===== verification/Ui_Forms.thy ===== *)
theory Ui_Forms
  imports Core_Records Rust_Text
begin

text \<open>
  The forms of the user interface, \<^verbatim>\<open>seance-ui/src/forms.rs\<close>: the drafts of a host, a tunnel and a
  credential with their checks, the profile that saving a draft hands to the backend (the first half of
  \<open>save_host_draft\<close>, \<open>save_tunnel_draft\<close> and \<open>save_credential_draft\<close>), the vault dialog and the
  confirmation dialogs. Port numbers are text in a draft; reading and printing them is \<open>u16\<close>'s
  \<open>FromStr\<close> and \<open>Display\<close>.
\<close>

section \<open>Port numbers as text\<close>

fun show_dec :: "nat \<Rightarrow> string" where
  "show_dec n = (if n < 10 then [char_of (48 + n)] else show_dec (n div 10) @ [char_of (48 + n mod 10)])"

declare show_dec.simps [simp del]

text \<open>Digit by digit; a character that is no digit and a value beyond \<open>u16::MAX\<close> are errors.\<close>

fun dec_value :: "nat \<Rightarrow> string \<Rightarrow> nat option" where
  "dec_value a [] = Some a"
| "dec_value a (c # s) =
     (let d = (of_char c :: nat) in
      if 48 \<le> d \<and> d \<le> 57 \<and> 10 * a + (d - 48) < 65536 then dec_value (10 * a + (d - 48)) s else None)"

definition parse_u16 :: "string \<Rightarrow> u16 option" where
  "parse_u16 s =
     map_option word_of_nat
       (case s of
          [] \<Rightarrow> None
        | c # t \<Rightarrow> if c = CHR ''+'' then (if t = [] then None else dec_value 0 t) else dec_value 0 s)"

section \<open>Host drafts\<close>

datatype host_draft_field = HostLabel | HostHostname | HostUsername | HostPort | HostNotes

record host_draft_state =
  hf_vault_id :: "string option"
  hf_host_id :: "string option"
  hf_label :: string
  hf_hostname :: string
  hf_username :: string
  hf_port :: string
  hf_notes :: string
  hf_auth_items :: "host_auth_ref list"
  hf_selected_field :: host_draft_field
  hf_selected_auth :: "nat option"
  hf_dirty :: bool
  hf_error :: "string option"

definition host_draft_blank :: host_draft_state where
  "host_draft_blank =
     \<lparr>hf_vault_id = None, hf_host_id = None, hf_label = [], hf_hostname = [], hf_username = [], hf_port = ''22'',
      hf_notes = [], hf_auth_items = [], hf_selected_field = HostLabel, hf_selected_auth = None, hf_dirty = False,
      hf_error = None\<rparr>"

definition unwrap_or_default :: "string option \<Rightarrow> string" where
  "unwrap_or_default x = (case x of None \<Rightarrow> [] | Some s \<Rightarrow> s)"

definition host_draft_from_host :: "vault_host_profile \<Rightarrow> host_draft_state" where
  "host_draft_from_host host =
     \<lparr>hf_vault_id = None, hf_host_id = Some (ho_id host), hf_label = ho_label host, hf_hostname = ho_hostname host,
      hf_username = ho_username host, hf_port = show_dec (unat (ho_port host)),
      hf_notes = unwrap_or_default (ho_notes host), hf_auth_items = ho_auth_order host,
      hf_selected_field = HostLabel, hf_selected_auth = None, hf_dirty = False, hf_error = None\<rparr>"

definition hf_parsed_port :: "host_draft_state \<Rightarrow> u16 option" where
  "hf_parsed_port d = parse_u16 (trim (hf_port d))"

definition hf_validation_errors :: "host_draft_state \<Rightarrow> string list" where
  "hf_validation_errors d =
     (if trim (hf_label d) = [] then [''Label is required.''] else [])
     @ (if trim (hf_hostname d) = [] then [''Hostname is required.''] else [])
     @ (if trim (hf_username d) = [] then [''Username is required.''] else [])
     @ (if hf_parsed_port d = None then [''Port must be a number between 1 and 65535.''] else [])
     @ (if hf_auth_items d = [] then [''At least one authentication method is required.''] else [])"

definition hf_can_save :: "host_draft_state \<Rightarrow> bool" where
  "hf_can_save d \<longleftrightarrow> hf_validation_errors d = []"

text \<open>Text that is blank is left out, other text is trimmed.\<close>

definition optional_text :: "string \<Rightarrow> string option" where
  "optional_text s = (if trim s = [] then None else Some (trim s))"

definition host_of_draft :: "host_draft_state \<Rightarrow> vault_host_profile" where
  "host_of_draft d =
     \<lparr>ho_id = unwrap_or_default (hf_host_id d), ho_label = trim (hf_label d), ho_hostname = trim (hf_hostname d),
      ho_port = (case hf_parsed_port d of None \<Rightarrow> 22 | Some p \<Rightarrow> p), ho_username = trim (hf_username d),
      ho_notes = optional_text (hf_notes d), ho_auth_order = hf_auth_items d\<rparr>"

section \<open>Tunnel drafts\<close>

datatype tunnel_draft_field =
    TunnelLabel | TunnelMode | TunnelListenAddress | TunnelListenPort | TunnelTargetAddress | TunnelTargetPort | TunnelNotes

record tunnel_draft_state =
  tn_vault_id :: "string option"
  tn_port_forward_id :: "string option"
  tn_host_id :: "string option"
  tn_host_label :: string
  tn_label :: string
  tn_mode :: port_forward_mode
  tn_listen_address :: string
  tn_listen_port :: string
  tn_target_address :: string
  tn_target_port :: string
  tn_notes :: string
  tn_selected_field :: tunnel_draft_field
  tn_dirty :: bool
  tn_error :: "string option"

definition tunnel_draft_blank :: tunnel_draft_state where
  "tunnel_draft_blank =
     \<lparr>tn_vault_id = None, tn_port_forward_id = None, tn_host_id = None, tn_host_label = [], tn_label = [],
      tn_mode = LocalForward, tn_listen_address = ''127.0.0.1'', tn_listen_port = [],
      tn_target_address = ''127.0.0.1'', tn_target_port = [], tn_notes = [], tn_selected_field = TunnelLabel,
      tn_dirty = False, tn_error = None\<rparr>"

definition tunnel_draft_from_port_forward :: "vault_port_forward_profile \<Rightarrow> tunnel_draft_state" where
  "tunnel_draft_from_port_forward p =
     \<lparr>tn_vault_id = None, tn_port_forward_id = Some (pf_id p), tn_host_id = Some (pf_host_id p), tn_host_label = [],
      tn_label = pf_label p, tn_mode = pf_mode p, tn_listen_address = pf_listen_address p,
      tn_listen_port = show_dec (unat (pf_listen_port p)), tn_target_address = pf_target_address p,
      tn_target_port = show_dec (unat (pf_target_port p)), tn_notes = unwrap_or_default (pf_notes p),
      tn_selected_field = TunnelLabel, tn_dirty = False, tn_error = None\<rparr>"

definition tn_parsed_listen_port :: "tunnel_draft_state \<Rightarrow> u16 option" where
  "tn_parsed_listen_port d = parse_u16 (trim (tn_listen_port d))"

definition tn_parsed_target_port :: "tunnel_draft_state \<Rightarrow> u16 option" where
  "tn_parsed_target_port d = parse_u16 (trim (tn_target_port d))"

definition tn_validation_errors :: "tunnel_draft_state \<Rightarrow> string list" where
  "tn_validation_errors d =
     (if trim (unwrap_or_default (tn_host_id d)) = [] then [''Linked host is required.''] else [])
     @ (if trim (tn_label d) = [] then [''Label is required.''] else [])
     @ (if trim (tn_listen_address d) = [] then [''Listen address is required.''] else [])
     @ (if tn_parsed_listen_port d = None then [''Listen port must be a number between 1 and 65535.''] else [])
     @ (if trim (tn_target_address d) = [] then [''Target address is required.''] else [])
     @ (if tn_parsed_target_port d = None then [''Target port must be a number between 1 and 65535.''] else [])"

definition tn_can_save :: "tunnel_draft_state \<Rightarrow> bool" where
  "tn_can_save d \<longleftrightarrow> tn_validation_errors d = []"

text \<open>\<open>host_id\<close> is the draft's host, which saving has found to be set.\<close>

definition forward_of_draft :: "string \<Rightarrow> tunnel_draft_state \<Rightarrow> vault_port_forward_profile" where
  "forward_of_draft host_id d =
     \<lparr>pf_id = unwrap_or_default (tn_port_forward_id d), pf_host_id = host_id, pf_label = trim (tn_label d),
      pf_mode = tn_mode d, pf_listen_address = trim (tn_listen_address d),
      pf_listen_port = (case tn_parsed_listen_port d of None \<Rightarrow> 0 | Some p \<Rightarrow> p),
      pf_target_address = trim (tn_target_address d),
      pf_target_port = (case tn_parsed_target_port d of None \<Rightarrow> 0 | Some p \<Rightarrow> p),
      pf_notes = optional_text (tn_notes d)\<rparr>"

section \<open>Credential drafts\<close>

datatype credential_draft_field = CredLabel | CredUsernameHint | CredSecret

datatype credential_draft_origin = Standalone | HostAuth

record credential_draft_state =
  cf_vault_id :: "string option"
  cf_credential_id :: "string option"
  cf_label :: string
  cf_username_hint :: string
  cf_secret :: string
  cf_selected_field :: credential_draft_field
  cf_dirty :: bool
  cf_error :: "string option"
  cf_reveal_secret :: bool
  cf_origin :: credential_draft_origin

definition credential_draft_blank :: "credential_draft_origin \<Rightarrow> credential_draft_state" where
  "credential_draft_blank origin =
     \<lparr>cf_vault_id = None, cf_credential_id = None, cf_label = [], cf_username_hint = [], cf_secret = [],
      cf_selected_field = CredLabel, cf_dirty = False, cf_error = None, cf_reveal_secret = False, cf_origin = origin\<rparr>"

definition credential_draft_from_credential ::
  "vault_password_credential \<Rightarrow> credential_draft_origin \<Rightarrow> credential_draft_state" where
  "credential_draft_from_credential cred origin =
     \<lparr>cf_vault_id = None, cf_credential_id = Some (cr_id cred), cf_label = cr_label cred,
      cf_username_hint = unwrap_or_default (cr_username_hint cred), cf_secret = cr_secret cred,
      cf_selected_field = CredLabel, cf_dirty = False, cf_error = None, cf_reveal_secret = False, cf_origin = origin\<rparr>"

definition cf_validation_errors :: "credential_draft_state \<Rightarrow> string list" where
  "cf_validation_errors d =
     (if trim (cf_label d) = [] then [''Label is required.''] else [])
     @ (if trim (cf_secret d) = [] then [''Password is required.''] else [])"

definition cf_can_save :: "credential_draft_state \<Rightarrow> bool" where
  "cf_can_save d \<longleftrightarrow> cf_validation_errors d = []"

definition credential_of_draft :: "credential_draft_state \<Rightarrow> vault_password_credential" where
  "credential_of_draft d =
     \<lparr>cr_id = unwrap_or_default (cf_credential_id d), cr_label = trim (cf_label d),
      cr_username_hint = optional_text (cf_username_hint d), cr_secret = cf_secret d\<rparr>"

section \<open>The vault dialog\<close>

datatype unlock_mode = ModeCreate | ModeUnlock | ModeRename

datatype vault_modal_origin = InitialSetup | UserAction | SecureAccess

record vault_modal_state =
  vmo_open :: bool
  vmo_mode :: unlock_mode
  vmo_origin :: vault_modal_origin
  vmo_target_vault_id :: "string option"
  vmo_vault_name :: string
  vmo_unlock_method :: unlock_method
  vmo_passphrase :: string
  vmo_confirm_passphrase :: string
  vmo_selected_field :: nat
  vmo_message :: "string option"
  vmo_error :: "string option"
  vmo_busy :: bool
  vmo_reveal_secret :: bool

definition vault_modal_new :: "bool \<Rightarrow> bool \<Rightarrow> bool \<Rightarrow> string option \<Rightarrow> vault_modal_state" where
  "vault_modal_new initialized unlocked device_unlock_attempted device_unlock_message =
     \<lparr>vmo_open = (\<not> unlocked),
      vmo_mode = (if initialized then ModeUnlock else ModeCreate),
      vmo_origin = (if initialized then UserAction else InitialSetup),
      vmo_target_vault_id = None, vmo_vault_name = [],
      vmo_unlock_method =
        (if initialized \<and> unlocked \<and> device_unlock_attempted \<and> device_unlock_message = None then UnlockDevice
         else UnlockPassphrase),
      vmo_passphrase = [], vmo_confirm_passphrase = [], vmo_selected_field = 0,
      vmo_message = Some
        (if unlocked then ''Vault unlocked from the local device key store.''
         else if initialized \<and> device_unlock_attempted
         then (case device_unlock_message of
                 None \<Rightarrow> ''Device unlock unavailable. Enter your recovery passphrase.'' | Some m \<Rightarrow> m)
         else if initialized then ''Unlock the vault to decrypt saved hosts.''
         else ''Create a recovery passphrase for the encrypted vault.''),
      vmo_error = None, vmo_busy = False, vmo_reveal_secret = False\<rparr>"

definition vault_modal_open :: "unlock_mode \<Rightarrow> vault_modal_origin \<Rightarrow> string \<Rightarrow> vault_modal_state \<Rightarrow> vault_modal_state" where
  "vault_modal_open mode origin message m =
     m\<lparr>vmo_open := True, vmo_mode := mode, vmo_origin := origin, vmo_message := Some message, vmo_error := None,
       vmo_busy := False, vmo_reveal_secret := False, vmo_unlock_method := UnlockPassphrase,
       vmo_target_vault_id := None, vmo_vault_name := [], vmo_passphrase := [], vmo_confirm_passphrase := [],
       vmo_selected_field := 0\<rparr>"

definition vault_modal_can_close :: "vault_modal_state \<Rightarrow> bool" where
  "vault_modal_can_close m \<longleftrightarrow> vmo_origin m \<noteq> InitialSetup"

definition vault_modal_close :: "vault_modal_state \<Rightarrow> vault_modal_state" where
  "vault_modal_close m =
     m\<lparr>vmo_open := False, vmo_busy := False, vmo_error := None, vmo_target_vault_id := None, vmo_vault_name := [],
       vmo_passphrase := [], vmo_confirm_passphrase := [], vmo_selected_field := 0\<rparr>"

definition passphrase_field_count :: "vault_modal_state \<Rightarrow> nat" where
  "passphrase_field_count m =
     (case vmo_mode m of
        ModeCreate \<Rightarrow> 3
      | ModeRename \<Rightarrow> 1
      | ModeUnlock \<Rightarrow> if vmo_unlock_method m = UnlockDevice then 0 else 1)"

definition can_submit :: "vault_modal_state \<Rightarrow> bool" where
  "can_submit m \<longleftrightarrow>
     (if vmo_busy m then False
      else case vmo_mode m of
        ModeCreate \<Rightarrow> trim (vmo_vault_name m) \<noteq> [] \<and> trim (vmo_passphrase m) \<noteq> []
          \<and> vmo_passphrase m = vmo_confirm_passphrase m \<and> vmo_unlock_method m = UnlockPassphrase
      | ModeRename \<Rightarrow> trim (vmo_vault_name m) \<noteq> []
      | ModeUnlock \<Rightarrow>
          (case vmo_unlock_method m of UnlockDevice \<Rightarrow> True | UnlockPassphrase \<Rightarrow> trim (vmo_passphrase m) \<noteq> []))"

section \<open>Sections, targets and confirmations\<close>

datatype workspace_surface = SurfaceTerminal | SurfaceSettings | SurfaceSftp | SurfaceSecure

datatype secure_section = SectionHosts | SectionTunnels | SectionCredentials | SectionKeys

datatype secure_input_target =
    HostSearch | TunnelSearch | CredentialSearch | KeySearch
  | HostDraft host_draft_field | TunnelDraft tunnel_draft_field | CredentialDraft credential_draft_field

datatype pending_action =
    CloseSecureWorkspace
  | SwitchSecureSection secure_section
  | OpenHostDraft "string option"
  | OpenTunnelDraft "string option" "string option"
  | OpenCredentialDraft "string option" credential_draft_origin

datatype confirm_dialog_kind =
    DiscardChanges pending_action
  | BlockedDeletion secure_section "string option"
  | DeleteVault string

record confirm_dialog_state =
  dg_title :: string
  dg_message :: string
  dg_confirm_label :: string
  dg_cancel_label :: string
  dg_kind :: confirm_dialog_kind

definition dialog_discard_changes :: "pending_action \<Rightarrow> confirm_dialog_state" where
  "dialog_discard_changes pending =
     \<lparr>dg_title = ''Discard unsaved changes?'',
      dg_message = ''You have edits in progress. Continuing will discard them.'',
      dg_confirm_label = ''discard changes'', dg_cancel_label = ''keep editing'', dg_kind = DiscardChanges pending\<rparr>"

definition dialog_blocked_deletion :: "string \<Rightarrow> string list \<Rightarrow> secure_section \<Rightarrow> string option \<Rightarrow> confirm_dialog_state" where
  "dialog_blocked_deletion asset_label host_labels review_section review_host_id =
     \<lparr>dg_title = ''Cannot delete '' @ asset_label,
      dg_message = ''This item is still referenced by: '' @ join '', '' host_labels @ ''.'',
      dg_confirm_label = ''review hosts'', dg_cancel_label = ''close'',
      dg_kind = BlockedDeletion review_section review_host_id\<rparr>"

definition dialog_delete_vault :: "string \<Rightarrow> string \<Rightarrow> string \<Rightarrow> confirm_dialog_state" where
  "dialog_delete_vault vault_name db_path vault_id =
     \<lparr>dg_title = ''Delete vault '' @ [CHR 39] @ vault_name @ [CHR 39] @ ''?'',
      dg_message = ''This permanently removes the vault database at '' @ db_path @ ''.'',
      dg_confirm_label = ''delete vault'', dg_cancel_label = ''keep vault'', dg_kind = DeleteVault vault_id\<rparr>"

section \<open>Printing and reading numbers\<close>

lemma dec_value_append: "dec_value a (s @ t) = Option.bind (dec_value a s) (\<lambda>b. dec_value b t)"
  by (induction a s rule: dec_value.induct) (auto simp: Let_def)

lemma show_dec_digits: "c \<in> set (show_dec n) \<Longrightarrow> 48 \<le> (of_char c :: nat) \<and> of_char c \<le> (57 :: nat)"
proof (induction n rule: show_dec.induct)
  case (1 n)
  have "(of_char (char_of (48 + n mod 10)) :: nat) = 48 + n mod 10" by simp
  moreover have "n mod 10 < 10" by simp
  ultimately show ?case using 1 by (cases "n < 10") (auto simp: show_dec.simps [of n])
qed

lemma show_dec_nonempty [simp]: "show_dec n \<noteq> []"
  by (simp add: show_dec.simps [of n])

lemma dec_value_show: "n < 65536 \<Longrightarrow> dec_value 0 (show_dec n) = Some n"
proof (induction n rule: show_dec.induct)
  case (1 n)
  show ?case
  proof (cases "n < 10")
    case False
    with 1 have "dec_value 0 (show_dec (n div 10)) = Some (n div 10)" by simp
    then have "dec_value 0 (show_dec n) = dec_value (n div 10) [char_of (48 + n mod 10)]"
      using False by (simp add: show_dec.simps [of n] dec_value_append)
    also have "\<dots> = Some n" using 1(2) by (simp add: Let_def)
    finally show ?thesis .
  qed (simp add: show_dec.simps [of n] Let_def)
qed

lemma trim_show_dec [simp]: "trim (show_dec n) = show_dec n"
  using show_dec_digits [of "hd (show_dec n)" n] show_dec_digits [of "last (show_dec n)" n]
  by (intro trim_visible) auto

lemma parse_u16_show [simp]: "parse_u16 (show_dec (unat p)) = Some p"
proof -
  obtain c s where cs: "show_dec (unat p) = c # s" using show_dec_nonempty [of "unat p"] by (meson list.exhaust)
  then have "c \<noteq> CHR ''+''" using show_dec_digits [of c "unat p"] by auto
  moreover have "unat p < 65536" using unsigned_less [of p, where ?'a = nat] by simp
  ultimately show ?thesis using dec_value_show [of "unat p"] by (simp add: parse_u16_def cs)
qed

lemma unwrap_or_default_simps [simp]: "unwrap_or_default None = []" "unwrap_or_default (Some s) = s"
  by (simp_all add: unwrap_or_default_def)

section \<open>Drafts and the checks of the vault\<close>

lemma optional_text_unwrap: "optional_text (unwrap_or_default x) = Option.bind x optional_text"
  by (cases x) (simp_all add: optional_text_def)

lemma hf_can_save_iff:
  "hf_can_save d \<longleftrightarrow> trim (hf_label d) \<noteq> [] \<and> trim (hf_hostname d) \<noteq> [] \<and> trim (hf_username d) \<noteq> []
     \<and> hf_parsed_port d \<noteq> None \<and> hf_auth_items d \<noteq> []"
  by (simp add: hf_can_save_def hf_validation_errors_def)

lemma tn_can_save_iff:
  "tn_can_save d \<longleftrightarrow> trim (unwrap_or_default (tn_host_id d)) \<noteq> [] \<and> trim (tn_label d) \<noteq> []
     \<and> trim (tn_listen_address d) \<noteq> [] \<and> tn_parsed_listen_port d \<noteq> None
     \<and> trim (tn_target_address d) \<noteq> [] \<and> tn_parsed_target_port d \<noteq> None"
  by (simp add: tn_can_save_def tn_validation_errors_def)

lemma cf_can_save_iff: "cf_can_save d \<longleftrightarrow> trim (cf_label d) \<noteq> [] \<and> trim (cf_secret d) \<noteq> []"
  by (simp add: cf_can_save_def cf_validation_errors_def)

lemma validate_host_ok:
  "validate_host h = Inr () \<longleftrightarrow> trim (ho_label h) \<noteq> [] \<and> trim (ho_hostname h) \<noteq> [] \<and> trim (ho_username h) \<noteq> []"
  by (auto simp: validate_host_def)

lemma validate_credential_ok:
  "validate_password_credential c = Inr () \<longleftrightarrow> trim (cr_label c) \<noteq> [] \<and> trim (cr_secret c) \<noteq> []"
  by (auto simp: validate_password_credential_def)

text \<open>
  Opening a saved record in its form and saving the form without an edit keeps every field of the
  record but for blanks around its texts: the port numbers print and read back to themselves, and the
  saved identifier, mode, authentication order and secret are the ones that were loaded. Such a form can
  be saved exactly if the record passes the vault's own checks of its texts (and, for a host, has an
  authentication method).
\<close>

theorem forms_round_trip:
  "host_of_draft (host_draft_from_host h) =
     h\<lparr>ho_label := trim (ho_label h), ho_hostname := trim (ho_hostname h), ho_username := trim (ho_username h),
       ho_notes := Option.bind (ho_notes h) optional_text\<rparr>
   \<and> (hf_can_save (host_draft_from_host h) \<longleftrightarrow> validate_host h = Inr () \<and> ho_auth_order h \<noteq> [])
   \<and> forward_of_draft (pf_host_id p) (tunnel_draft_from_port_forward p) =
     p\<lparr>pf_label := trim (pf_label p), pf_listen_address := trim (pf_listen_address p),
       pf_target_address := trim (pf_target_address p), pf_notes := Option.bind (pf_notes p) optional_text\<rparr>
   \<and> credential_of_draft (credential_draft_from_credential c origin) =
     c\<lparr>cr_label := trim (cr_label c), cr_username_hint := Option.bind (cr_username_hint c) optional_text\<rparr>
   \<and> (cf_can_save (credential_draft_from_credential c origin) \<longleftrightarrow> validate_password_credential c = Inr ())"
proof (intro conjI)
  show "host_of_draft (host_draft_from_host h) =
     h\<lparr>ho_label := trim (ho_label h), ho_hostname := trim (ho_hostname h), ho_username := trim (ho_username h),
       ho_notes := Option.bind (ho_notes h) optional_text\<rparr>"
    by (cases h) (simp add: host_of_draft_def host_draft_from_host_def hf_parsed_port_def optional_text_unwrap)
  show "hf_can_save (host_draft_from_host h) \<longleftrightarrow> validate_host h = Inr () \<and> ho_auth_order h \<noteq> []"
    by (auto simp: hf_can_save_iff validate_host_ok host_draft_from_host_def hf_parsed_port_def)
  show "forward_of_draft (pf_host_id p) (tunnel_draft_from_port_forward p) =
     p\<lparr>pf_label := trim (pf_label p), pf_listen_address := trim (pf_listen_address p),
       pf_target_address := trim (pf_target_address p), pf_notes := Option.bind (pf_notes p) optional_text\<rparr>"
    by (cases p) (simp add: forward_of_draft_def tunnel_draft_from_port_forward_def tn_parsed_listen_port_def
        tn_parsed_target_port_def optional_text_unwrap)
  show "credential_of_draft (credential_draft_from_credential c origin) =
     c\<lparr>cr_label := trim (cr_label c), cr_username_hint := Option.bind (cr_username_hint c) optional_text\<rparr>"
    by (cases c) (simp add: credential_of_draft_def credential_draft_from_credential_def optional_text_unwrap)
  show "cf_can_save (credential_draft_from_credential c origin) \<longleftrightarrow> validate_password_credential c = Inr ()"
    by (simp add: cf_can_save_iff validate_credential_ok credential_draft_from_credential_def)
qed

text \<open>
  C40. What the vault makes of a form that can be saved. A host form: it is stored with the port that was
  typed, unless one of its authentication methods names a credential or key that the vault does not have
  (or cannot read); then the vault refuses it and changes nothing. The form itself does not check these
  references. A credential form is always stored. A tunnel form for a host that exists and an endpoint
  that no other forward has is stored, with one exception: port 0, which the form's own message excludes,
  is accepted by the form and refused by the vault, which changes nothing. Being stored means that every
  check of the vault's store method passes and that it goes on to encrypt and write exactly the profile of
  the form; a locked vault or a failing encryption can still stop that.
\<close>

theorem saveable_forms_accepted:
  "(hf_can_save d \<longrightarrow> hf_parsed_port d = Some (ho_port (host_of_draft d))
      \<and> (if list_all (resolves_auth env s) (hf_auth_items d)
         then store_host_profile env (host_of_draft d) s =
                store_payload env (host_type env) KHost host_summary_of (host_of_draft d) s
         else \<exists>e. validate_host_auth_refs env s (host_of_draft d) = Inl e
                \<and> store_host_profile env (host_of_draft d) s = (Inl e, s)))
   \<and> (cf_can_save c \<longrightarrow> store_password_credential env (credential_of_draft c) s =
        store_payload env (credential_type env) KPasswordCredential credential_summary_of (credential_of_draft c) s)
   \<and> (tn_can_save t \<and> tn_host_id t = Some i \<longrightarrow>
       (if tn_parsed_listen_port t = Some 0 \<or> tn_parsed_target_port t = Some 0
        then store_port_forward env (forward_of_draft i t) s = (Inl InvalidPortForwardPort, s)
        else load_host_profile env i s = Inr (Some h) \<and> active_port_forwards env s = Inr fs
          \<and> (\<forall>f \<in> set fs. pf_id f = pf_id (forward_of_draft i t) \<or> \<not> same_endpoint f (forward_of_draft i t)) \<longrightarrow>
          store_port_forward env (forward_of_draft i t) s =
            store_payload env (port_forward_type env) KPortForward port_forward_summary_of (forward_of_draft i t) s))"
proof (intro conjI impI)
  assume d: "hf_can_save d"
  then show "hf_parsed_port d = Some (ho_port (host_of_draft d))"
    by (auto simp: hf_can_save_iff host_of_draft_def)
  have "validate_host (host_of_draft d) = Inr ()" "ho_auth_order (host_of_draft d) = hf_auth_items d"
    using d by (auto simp: hf_can_save_iff validate_host_ok host_of_draft_def)
  then show "if list_all (resolves_auth env s) (hf_auth_items d)
     then store_host_profile env (host_of_draft d) s =
            store_payload env (host_type env) KHost host_summary_of (host_of_draft d) s
     else \<exists>e. validate_host_auth_refs env s (host_of_draft d) = Inl e
            \<and> store_host_profile env (host_of_draft d) s = (Inl e, s)"
    using validate_host_auth_refs_iff [of env s "host_of_draft d" "()"]
    by (cases "validate_host_auth_refs env s (host_of_draft d)") (auto simp: store_host_profile_def)
next
  assume "cf_can_save c"
  then show "store_password_credential env (credential_of_draft c) s =
        store_payload env (credential_type env) KPasswordCredential credential_summary_of (credential_of_draft c) s"
    by (simp add: cf_can_save_iff validate_credential_ok credential_of_draft_def store_password_credential_def)
next
  assume t: "tn_can_save t \<and> tn_host_id t = Some i"
  let ?p = "forward_of_draft i t"
  obtain lp tp where ports: "tn_parsed_listen_port t = Some lp" "tn_parsed_target_port t = Some tp"
    using t by (auto simp: tn_can_save_iff)
  have fields: "trim (pf_label ?p) \<noteq> []" "pf_host_id ?p = i" "trim i \<noteq> []" "trim (pf_listen_address ?p) \<noteq> []"
    "trim (pf_target_address ?p) \<noteq> []" "pf_listen_port ?p = lp" "pf_target_port ?p = tp"
    using t ports by (auto simp: tn_can_save_iff forward_of_draft_def)
  have "validate_port_forward env ?p s = Inl InvalidPortForwardPort" if "lp = 0 \<or> tp = 0"
    using that by (simp add: validate_port_forward_def fields)
  moreover have "validate_port_forward env ?p s = Inr ()"
    if "lp \<noteq> 0" "tp \<noteq> 0" "load_host_profile env i s = Inr (Some h)" "active_port_forwards env s = Inr fs"
      "\<forall>f \<in> set fs. pf_id f = pf_id ?p \<or> \<not> same_endpoint f ?p"
    using that by (auto simp: validate_port_forward_def fields for_each_Inr)
  ultimately show "if tn_parsed_listen_port t = Some 0 \<or> tn_parsed_target_port t = Some 0
        then store_port_forward env ?p s = (Inl InvalidPortForwardPort, s)
        else load_host_profile env i s = Inr (Some h) \<and> active_port_forwards env s = Inr fs
          \<and> (\<forall>f \<in> set fs. pf_id f = pf_id ?p \<or> \<not> same_endpoint f ?p) \<longrightarrow>
          store_port_forward env ?p s = store_payload env (port_forward_type env) KPortForward port_forward_summary_of ?p s"
    using ports by (simp add: store_port_forward_def)
qed

text \<open>A host form in the vault that holds its credential and key, the same form in a vault without
  records, and a tunnel form with port 0.\<close>

theorem saveable_forms_accepted_witness:
  "store_host_profile demo_env (host_of_draft (host_draft_from_host demo_host)) (demo_after 2) =
     store_payload demo_env (host_type demo_env) KHost host_summary_of
       (host_of_draft (host_draft_from_host demo_host)) (demo_after 2)
   \<and> (\<exists>e. store_host_profile demo_env (host_of_draft (host_draft_from_host demo_host)) demo_created = (Inl e, demo_created))
   \<and> store_port_forward demo_env (forward_of_draft ''h1''
       ((tunnel_draft_from_port_forward demo_forward)\<lparr>tn_listen_port := ''0''\<rparr>)) demo_created =
       (Inl InvalidPortForwardPort, demo_created)"
proof -
  let ?d = "host_draft_from_host demo_host"
  let ?t = "(tunnel_draft_from_port_forward demo_forward)\<lparr>tn_listen_port := ''0''\<rparr>"
  have tr: "trim ''prod'' = ''prod''" "trim ''ex.org'' = ''ex.org''" "trim ''root'' = ''root''" "trim ''h1'' = ''h1''"
    "trim ''db'' = ''db''" "trim ''lo'' = ''lo''" "trim ''0'' = ''0''"
    by (intro trim_visible; simp)+
  have d: "hf_can_save ?d"
    using parse_u16_show [of 22] by (simp add: hf_can_save_iff host_draft_from_host_def demo_host_def hf_parsed_port_def tr)
  have auth: "hf_auth_items ?d = ho_auth_order demo_host" by (simp add: host_draft_from_host_def)
  have "validate_host_auth_refs demo_env (demo_after 2) demo_host = Inr ()"
    "validate_host_auth_refs demo_env demo_created demo_host \<noteq> Inr ()"
    by (simp_all add: demo_run)
  then have refs: "list_all (resolves_auth demo_env (demo_after 2)) (hf_auth_items ?d)"
    "\<not> list_all (resolves_auth demo_env demo_created) (hf_auth_items ?d)"
    by (simp_all add: validate_host_auth_refs_iff auth)
  have z: "tn_parsed_listen_port ?t = Some 0"
    by (simp add: tn_parsed_listen_port_def tr parse_u16_def Let_def)
  have t: "tn_can_save ?t" "tn_host_id ?t = Some ''h1''"
    using z parse_u16_show [of 81]
    by (simp_all add: tn_can_save_iff tunnel_draft_from_port_forward_def demo_forward_def tn_parsed_target_port_def tr)
  note forms = saveable_forms_accepted [of ?d demo_env _ "credential_draft_blank HostAuth" ?t "''h1''"]
  show ?thesis using forms [of "demo_after 2"] forms [of demo_created] d refs z t by auto
qed

end
