(* ===== verification/Ui_Workspace.thy ===== *)
theory Ui_Workspace
  imports Ui_Forms Ui_Connect
begin

text \<open>
  The part of the user interface's workspace that shows and edits the vaults
  (\<^verbatim>\<open>seance-ui/src/workspace.rs\<close>, \<^verbatim>\<open>vault.rs\<close>, \<^verbatim>\<open>hosts.rs\<close> and the state of \<^verbatim>\<open>forms.rs\<close>): the cached
  lists of vaults, hosts, credentials, keys and tunnels with their search, and what a new snapshot of the
  vaults does to the selections and the open drafts. The backend is the controller of \<open>Core_Controller\<close>.
  Redrawing, the performance overlay and the caret of the focused field (see \<open>Ui_Text_Input\<close>) are left out.
\<close>

section \<open>State\<close>

datatype key_import_tab = TabDiscover | TabFiles | TabPaste

record key_import_candidate_state =
  kc_path :: string
  kc_label :: string
  kc_algorithm :: private_key_algorithm
  kc_encrypted_at_rest :: bool
  kc_duplicate_public_key :: bool
  kc_skip_duplicate :: bool

record key_import_modal_state =
  ki_open :: bool
  ki_tab :: key_import_tab
  ki_target_vault_id :: "string option"
  ki_discover_loading :: bool
  ki_discover_candidates :: "key_import_candidate_state list"
  ki_selected_paths :: "string list"
  ki_paste_label :: string
  ki_paste_private_key_pem :: string
  ki_message :: "string option"
  ki_error :: "string option"

datatype host_wizard_step = ConnectionIdentity | AuthenticationSetup | Review

record host_wizard_state =
  hw_open :: bool
  hw_step :: host_wizard_step
  hw_save_and_connect_requested :: bool
  hw_message :: "string option"

record secure_workspace_state =
  sx_section :: secure_section
  sx_host_search :: string
  sx_tunnel_search :: string
  sx_credential_search :: string
  sx_key_search :: string
  sx_selected_host_id :: "string option"
  sx_selected_tunnel_id :: "string option"
  sx_selected_credential_id :: "string option"
  sx_selected_key_id :: "string option"
  sx_host_draft :: "host_draft_state option"
  sx_tunnel_draft :: "tunnel_draft_state option"
  sx_credential_draft :: "credential_draft_state option"
  sx_key_import_modal :: key_import_modal_state
  sx_host_wizard :: host_wizard_state
  sx_pending_passphrase_auth_index :: "nat option"
  sx_message :: "string option"
  sx_input_target :: secure_input_target

definition default_key_import_modal :: key_import_modal_state where
  "default_key_import_modal =
     \<lparr>ki_open = False, ki_tab = TabDiscover, ki_target_vault_id = None, ki_discover_loading = False,
      ki_discover_candidates = [], ki_selected_paths = [], ki_paste_label = [], ki_paste_private_key_pem = [],
      ki_message = None, ki_error = None\<rparr>"

definition default_host_wizard :: host_wizard_state where
  "default_host_wizard =
     \<lparr>hw_open = False, hw_step = ConnectionIdentity, hw_save_and_connect_requested = False, hw_message = None\<rparr>"

definition default_secure :: secure_workspace_state where
  "default_secure =
     \<lparr>sx_section = SectionHosts, sx_host_search = [], sx_tunnel_search = [], sx_credential_search = [],
      sx_key_search = [], sx_selected_host_id = None, sx_selected_tunnel_id = None, sx_selected_credential_id = None,
      sx_selected_key_id = None, sx_host_draft = None, sx_tunnel_draft = None, sx_credential_draft = None,
      sx_key_import_modal = default_key_import_modal, sx_host_wizard = default_host_wizard,
      sx_pending_passphrase_auth_index = None, sx_message = None, sx_input_target = HostSearch\<rparr>"

text \<open>The selected host and the toast belong to the connection part of the window.\<close>

record ('s, 'd) workspace =
  w_backend :: "('s, 'd) controller"
  w_config :: app_config
  w_surface :: workspace_surface
  w_secure :: secure_workspace_state
  w_confirm_dialog :: "confirm_dialog_state option"
  w_vault_modal :: vault_modal_state
  w_connect :: connect_window
  w_managed_vaults :: "managed_vault_summary list"
  w_saved_hosts :: "vault_scoped_host_summary list"
  w_cached_credentials :: "vault_scoped_credential_summary list"
  w_cached_keys :: "vault_scoped_key_summary list"
  w_cached_port_forwards :: "vault_scoped_port_forward_summary list"
  w_host_blobs :: "string list"
  w_credential_blobs :: "string list"
  w_key_blobs :: "string list"
  w_filtered_hosts :: "nat list"
  w_filtered_credentials :: "nat list"
  w_filtered_keys :: "nat list"

text \<open>What the workspace asks of its surroundings: the texts of errors, a suffix for names from the
  clock, the readable files and the answer of the connection starter.\<close>

record 'd ui_env =
  ue_core :: "'d core_env"
  ue_show_config :: "config_error \<Rightarrow> string"
  ue_suffix :: string
  ue_ssh_dir :: "(core_error + (string \<times> bool) list) option"
  ue_read :: "string \<Rightarrow> string + string"
  ue_started :: "string + u64"

abbreviation ue_lower :: "'d ui_env \<Rightarrow> string \<Rightarrow> string" where
  "ue_lower env \<equiv> k_lower (ue_core env)"

fun core_error_text :: "'d ui_env \<Rightarrow> core_error \<Rightarrow> string" where
  "core_error_text env (Anyhow s) = s"
| "core_error_text env (FromVault e) = ke_show (ue_core env) e"
| "core_error_text env (FromConfig e) = ue_show_config env e"
| "core_error_text env (FromIo s) = s"
| "core_error_text env (Ctx message e) = message"

definition toast :: "string \<Rightarrow> ('s, 'd) workspace \<Rightarrow> ('s, 'd) workspace" where
  "toast msg w = w\<lparr>w_connect := show_toast msg (w_connect w)\<rparr>"

abbreviation selected_host_id :: "('s, 'd) workspace \<Rightarrow> string option" where
  "selected_host_id w \<equiv> cw_selected_host_id (w_connect w)"

definition set_selected_host :: "string option \<Rightarrow> ('s, 'd) workspace \<Rightarrow> ('s, 'd) workspace" where
  "set_selected_host x w = w\<lparr>w_connect := (w_connect w)\<lparr>cw_selected_host_id := x\<rparr>\<rparr>"

definition on_secure :: "(secure_workspace_state \<Rightarrow> secure_workspace_state) \<Rightarrow> ('s, 'd) workspace \<Rightarrow> ('s, 'd) workspace" where
  "on_secure f w = w\<lparr>w_secure := f (w_secure w)\<rparr>"

text \<open>A call of the backend: its answer, and the workspace with the backend after it.\<close>

definition call :: "('s, 'd, 'a) cprog \<Rightarrow> ('s, 'd) workspace \<Rightarrow> (core_error + 'a) \<times> ('s, 'd) workspace" where
  "call m w = (let (r, k) = m (w_backend w) in (r, w\<lparr>w_backend := k\<rparr>))"

section \<open>Search\<close>

definition host_blob :: "'d ui_env \<Rightarrow> vault_scoped_host_summary \<Rightarrow> string" where
  "host_blob env h =
     ue_lower env (hs_label (sh_host h) @ '' '' @ hs_hostname (sh_host h) @ '' '' @ hs_username (sh_host h) @ '' '' @ sh_vault_name h)"

definition credential_blob :: "'d ui_env \<Rightarrow> vault_scoped_credential_summary \<Rightarrow> string" where
  "credential_blob env c =
     ue_lower env (cs_label (vc_credential c) @ '' '' @ unwrap_or_default (cs_username_hint (vc_credential c)) @ '' '' @ vc_vault_name c)"

definition key_blob :: "'d ui_env \<Rightarrow> vault_scoped_key_summary \<Rightarrow> string" where
  "key_blob env k = ue_lower env (ks_label (vk_key k) @ '' '' @ vk_vault_name k)"

definition matching_indices :: "string \<Rightarrow> nat \<Rightarrow> string list \<Rightarrow> nat list" where
  "matching_indices query len blobs =
     (if query = [] then [0..<len]
      else List.map_filter (\<lambda>(index, blob). if sublist query blob then Some index else None) (enumerate 0 blobs))"

definition recompute_secure_filtered_indices :: "'d ui_env \<Rightarrow> ('s, 'd) workspace \<Rightarrow> ('s, 'd) workspace" where
  "recompute_secure_filtered_indices env w =
     w\<lparr>w_filtered_hosts :=
         matching_indices (ue_lower env (trim (sx_host_search (w_secure w)))) (length (w_saved_hosts w)) (w_host_blobs w),
       w_filtered_credentials :=
         matching_indices (ue_lower env (trim (sx_credential_search (w_secure w)))) (length (w_cached_credentials w)) (w_credential_blobs w),
       w_filtered_keys :=
         matching_indices (ue_lower env (trim (sx_key_search (w_secure w)))) (length (w_cached_keys w)) (w_key_blobs w)\<rparr>"

definition rebuild_secure_search_cache :: "'d ui_env \<Rightarrow> ('s, 'd) workspace \<Rightarrow> ('s, 'd) workspace" where
  "rebuild_secure_search_cache env w =
     recompute_secure_filtered_indices env
       (w\<lparr>w_host_blobs := map (host_blob env) (w_saved_hosts w),
          w_credential_blobs := map (credential_blob env) (w_cached_credentials w),
          w_key_blobs := map (key_blob env) (w_cached_keys w)\<rparr>)"

section \<open>Refreshing\<close>

definition unwrap_list :: "'e + 'a list \<Rightarrow> 'a list" where
  "unwrap_list r = (case r of Inl _ \<Rightarrow> [] | Inr xs \<Rightarrow> xs)"

definition vault_unlocked :: "('s, 'd) workspace \<Rightarrow> bool" where
  "vault_unlocked w \<longleftrightarrow> list_ex ms_unlocked (w_managed_vaults w)"

definition refresh_managed_vaults :: "'d ui_env \<Rightarrow> ('s, 'd) workspace \<Rightarrow> ('s, 'd) workspace" where
  "refresh_managed_vaults env w = w\<lparr>w_managed_vaults := list_vaults (ue_core env) (w_backend w)\<rparr>"

definition refresh_vault_cache :: "'d ui_env \<Rightarrow> ('s, 'd) workspace \<Rightarrow> ('s, 'd) workspace" where
  "refresh_vault_cache env w0 =
     (let w = refresh_managed_vaults env w0; k = w_backend w in
      rebuild_secure_search_cache env
        (w\<lparr>w_cached_credentials := unwrap_list (list_password_credentials_all (ue_core env) k),
           w_cached_keys := unwrap_list (list_private_keys_all (ue_core env) k),
           w_cached_port_forwards := unwrap_list (list_port_forwards_all (ue_core env) k)\<rparr>))"

definition first_host_key :: "('s, 'd) workspace \<Rightarrow> string option" where
  "first_host_key w =
     (case w_saved_hosts w of [] \<Rightarrow> None | h # _ \<Rightarrow> Some (host_scope_key (sh_vault_id h) (hs_id (sh_host h))))"

definition refresh_saved_hosts :: "'d ui_env \<Rightarrow> ('s, 'd) workspace \<Rightarrow> ('s, 'd) workspace" where
  "refresh_saved_hosts env w0 =
     (let w = (refresh_managed_vaults env w0)\<lparr>w_saved_hosts := unwrap_list (list_hosts (ue_core env) (w_backend w0))\<rparr>;
          stale = (case selected_host_id w of
                     None \<Rightarrow> False
                   | Some i \<Rightarrow> \<not> list_ex (\<lambda>h. host_scope_key (sh_vault_id h) (hs_id (sh_host h)) = i) (w_saved_hosts w))
      in rebuild_secure_search_cache env (if stale then set_selected_host (first_host_key w) w else w))"

definition default_target_vault_id :: "'d ui_env \<Rightarrow> ('s, 'd) workspace \<Rightarrow> string option" where
  "default_target_vault_id env w =
     (let first = (case sort_key snd (map (\<lambda>v. (ms_vault_id v, ue_lower env (ms_name v))) (filter ms_unlocked (w_managed_vaults w))) of
                     [] \<Rightarrow> None | (i, _) # _ \<Rightarrow> Some i)
      in case vr_default_target_vault_id (cfg_vaults (w_config w)) of
           Some i \<Rightarrow> if list_ex (\<lambda>v. ms_vault_id v = i \<and> ms_unlocked v) (w_managed_vaults w) then Some i else first
         | None \<Rightarrow> first)"

section \<open>Snapshots of the vaults\<close>

record vault_ui_snapshot =
  vs_managed_vaults :: "managed_vault_summary list"
  vs_saved_hosts :: "vault_scoped_host_summary list"
  vs_cached_credentials :: "vault_scoped_credential_summary list"
  vs_cached_keys :: "vault_scoped_key_summary list"
  vs_cached_port_forwards :: "vault_scoped_port_forward_summary list"

definition current_vault_ui_snapshot :: "'d ui_env \<Rightarrow> ('s, 'd) workspace \<Rightarrow> vault_ui_snapshot" where
  "current_vault_ui_snapshot env w =
     (let k = w_backend w; c = ue_core env in
      \<lparr>vs_managed_vaults = list_vaults c k,
       vs_saved_hosts = unwrap_list (list_hosts c k),
       vs_cached_credentials = unwrap_list (list_password_credentials_all c k),
       vs_cached_keys = unwrap_list (list_private_keys_all c k),
       vs_cached_port_forwards = unwrap_list (list_port_forwards_all c k)\<rparr>)"

definition has_unlocked_vault :: "string \<Rightarrow> ('s, 'd) workspace \<Rightarrow> bool" where
  "has_unlocked_vault i w \<longleftrightarrow> list_ex (\<lambda>v. ms_vault_id v = i \<and> ms_unlocked v) (w_managed_vaults w)"

definition saved_host_exists :: "('s, 'd) workspace \<Rightarrow> string \<Rightarrow> string \<Rightarrow> bool" where
  "saved_host_exists w v i \<longleftrightarrow> list_ex (\<lambda>h. sh_vault_id h = v \<and> hs_id (sh_host h) = i) (w_saved_hosts w)"

definition saved_tunnel_exists :: "('s, 'd) workspace \<Rightarrow> string \<Rightarrow> string \<Rightarrow> bool" where
  "saved_tunnel_exists w v i \<longleftrightarrow>
     list_ex (\<lambda>t. vp_vault_id t = v \<and> ps_id (vp_port_forward t) = i) (w_cached_port_forwards w)"

definition saved_credential_exists :: "('s, 'd) workspace \<Rightarrow> string \<Rightarrow> string \<Rightarrow> bool" where
  "saved_credential_exists w v i \<longleftrightarrow>
     list_ex (\<lambda>c. vc_vault_id c = v \<and> cs_id (vc_credential c) = i) (w_cached_credentials w)"

definition saved_key_exists :: "('s, 'd) workspace \<Rightarrow> string \<Rightarrow> string \<Rightarrow> bool" where
  "saved_key_exists w v i \<longleftrightarrow> list_ex (\<lambda>k. vk_vault_id k = v \<and> ks_id (vk_key k) = i) (w_cached_keys w)"

text \<open>A selection whose key does not split or whose record is gone.\<close>

definition dangling :: "(string \<Rightarrow> string \<Rightarrow> bool) \<Rightarrow> string option \<Rightarrow> bool" where
  "dangling exists sel =
     (case sel of
        None \<Rightarrow> False
      | Some scope_key \<Rightarrow> (case split_scope_key scope_key of None \<Rightarrow> True | Some (v, i) \<Rightarrow> \<not> exists v i))"

definition reconcile_saved_selection_state :: "('s, 'd) workspace \<Rightarrow> ('s, 'd) workspace" where
  "reconcile_saved_selection_state w =
     (let w1 = (if dangling (saved_host_exists w) (selected_host_id w) then set_selected_host (first_host_key w) w else w) in
      on_secure (\<lambda>x. x
        \<lparr>sx_selected_host_id := (if dangling (saved_host_exists w) (sx_selected_host_id x) then None else sx_selected_host_id x),
         sx_selected_tunnel_id := (if dangling (saved_tunnel_exists w) (sx_selected_tunnel_id x) then None else sx_selected_tunnel_id x),
         sx_selected_credential_id :=
           (if dangling (saved_credential_exists w) (sx_selected_credential_id x) then None else sx_selected_credential_id x),
         sx_selected_key_id := (if dangling (saved_key_exists w) (sx_selected_key_id x) then None else sx_selected_key_id x)\<rparr>) w1)"

definition deleted_notice :: string where
  "deleted_notice = ''This saved item was deleted from the vault. Saving will create a new record.''"

definition reconcile_host_draft_after_vault_snapshot :: "('s, 'd) workspace \<Rightarrow> ('s, 'd) workspace" where
  "reconcile_host_draft_after_vault_snapshot w =
     (case sx_host_draft (w_secure w) of
        None \<Rightarrow> w
      | Some d \<Rightarrow>
          case hf_vault_id d of
            None \<Rightarrow> w
          | Some v \<Rightarrow>
              if \<not> has_unlocked_vault v w
              then toast ''Host editor closed because its vault is no longer available.''
                     (on_secure (\<lambda>x. x\<lparr>sx_host_draft := None, sx_selected_host_id := None\<rparr>) w)
              else
                case hf_host_id d of
                  None \<Rightarrow> w
                | Some i \<Rightarrow>
                    if saved_host_exists w v i then w
                    else toast ''Saved host was deleted from the vault. Editing a new copy.''
                           (on_secure (\<lambda>x. x
                              \<lparr>sx_host_draft := Some (d\<lparr>hf_host_id := None, hf_dirty := True, hf_error := Some deleted_notice\<rparr>),
                               sx_selected_host_id := None\<rparr>) w))"

definition reconcile_tunnel_draft_after_vault_snapshot :: "('s, 'd) workspace \<Rightarrow> ('s, 'd) workspace" where
  "reconcile_tunnel_draft_after_vault_snapshot w =
     (case sx_tunnel_draft (w_secure w) of
        None \<Rightarrow> w
      | Some d \<Rightarrow>
          case tn_vault_id d of
            None \<Rightarrow> w
          | Some v \<Rightarrow>
              if \<not> has_unlocked_vault v w
              then toast ''Tunnel editor closed because its vault is no longer available.''
                     (on_secure (\<lambda>x. x\<lparr>sx_tunnel_draft := None, sx_selected_tunnel_id := None\<rparr>) w)
              else
                case tn_port_forward_id d of
                  None \<Rightarrow> w
                | Some i \<Rightarrow>
                    if saved_tunnel_exists w v i then w
                    else toast ''Saved tunnel was deleted from the vault. Editing a new copy.''
                           (on_secure (\<lambda>x. x
                              \<lparr>sx_tunnel_draft := Some (d\<lparr>tn_port_forward_id := None, tn_dirty := True, tn_error := Some deleted_notice\<rparr>),
                               sx_selected_tunnel_id := None\<rparr>) w))"

definition reconcile_credential_draft_after_vault_snapshot :: "('s, 'd) workspace \<Rightarrow> ('s, 'd) workspace" where
  "reconcile_credential_draft_after_vault_snapshot w =
     (case sx_credential_draft (w_secure w) of
        None \<Rightarrow> w
      | Some d \<Rightarrow>
          case cf_vault_id d of
            None \<Rightarrow> w
          | Some v \<Rightarrow>
              if \<not> has_unlocked_vault v w
              then toast ''Credential editor closed because its vault is no longer available.''
                     (on_secure (\<lambda>x. x\<lparr>sx_credential_draft := None, sx_selected_credential_id := None\<rparr>) w)
              else
                case cf_credential_id d of
                  None \<Rightarrow> w
                | Some i \<Rightarrow>
                    if saved_credential_exists w v i then w
                    else toast ''Saved credential was deleted from the vault. Editing a new copy.''
                           (on_secure (\<lambda>x. x
                              \<lparr>sx_credential_draft := Some (d\<lparr>cf_credential_id := None, cf_dirty := True, cf_error := Some deleted_notice\<rparr>),
                               sx_selected_credential_id := None\<rparr>) w))"

definition apply_vault_snapshot :: "'d ui_env \<Rightarrow> vault_ui_snapshot \<Rightarrow> ('s, 'd) workspace \<Rightarrow> ('s, 'd) workspace" where
  "apply_vault_snapshot env snapshot w =
     reconcile_credential_draft_after_vault_snapshot
       (reconcile_tunnel_draft_after_vault_snapshot
         (reconcile_host_draft_after_vault_snapshot
           (reconcile_saved_selection_state
             (rebuild_secure_search_cache env
               (w\<lparr>w_managed_vaults := vs_managed_vaults snapshot,
                  w_saved_hosts := vs_saved_hosts snapshot,
                  w_cached_credentials := vs_cached_credentials snapshot,
                  w_cached_keys := vs_cached_keys snapshot,
                  w_cached_port_forwards := vs_cached_port_forwards snapshot\<rparr>)))))"

definition refresh_vault_ui :: "'d ui_env \<Rightarrow> ('s, 'd) workspace \<Rightarrow> ('s, 'd) workspace" where
  "refresh_vault_ui env w = apply_vault_snapshot env (current_vault_ui_snapshot env w) w"

section \<open>Opening the vault dialog\<close>

definition open_vault_modal_for ::
  "'d ui_env \<Rightarrow> string option \<Rightarrow> unlock_mode \<Rightarrow> vault_modal_origin \<Rightarrow> string \<Rightarrow> ('s, 'd) workspace \<Rightarrow> ('s, 'd) workspace" where
  "open_vault_modal_for env target_vault_id mode origin message w =
     (let target = Option.bind target_vault_id (\<lambda>i. find (\<lambda>v. ms_vault_id v = i) (w_managed_vaults w));
          m = (vault_modal_open mode origin message (w_vault_modal w))\<lparr>vmo_target_vault_id := target_vault_id\<rparr>;
          m1 = (case mode of
                  ModeCreate \<Rightarrow> m\<lparr>vmo_vault_name := ''Vault '' @ show_dec (length (w_managed_vaults w) + 1)\<rparr>
                | ModeRename \<Rightarrow> (case target of None \<Rightarrow> m | Some v \<Rightarrow> m\<lparr>vmo_vault_name := ms_name v\<rparr>)
                | ModeUnlock \<Rightarrow> m);
          device_unlock_available =
            (case target of
               Some v \<Rightarrow> ms_device_unlock_available v
             | None \<Rightarrow> st_device_unlock_available (aggregate_vault_status (w_backend w)));
          m2 = (if mode = ModeUnlock \<and> device_unlock_available then m1\<lparr>vmo_unlock_method := UnlockDevice\<rparr> else m1)
      in w\<lparr>w_vault_modal := m2\<rparr>)"

definition open_vault_modal ::
  "'d ui_env \<Rightarrow> unlock_mode \<Rightarrow> vault_modal_origin \<Rightarrow> string \<Rightarrow> ('s, 'd) workspace \<Rightarrow> ('s, 'd) workspace" where
  "open_vault_modal env = open_vault_modal_for env None"

section \<open>What the helpers leave alone\<close>

lemma on_secure_sel [simp]:
  "w_secure (on_secure f w) = f (w_secure w)" "w_backend (on_secure f w) = w_backend w"
  "w_config (on_secure f w) = w_config w" "w_surface (on_secure f w) = w_surface w"
  "w_confirm_dialog (on_secure f w) = w_confirm_dialog w" "w_vault_modal (on_secure f w) = w_vault_modal w"
  "w_connect (on_secure f w) = w_connect w" "w_managed_vaults (on_secure f w) = w_managed_vaults w"
  "w_saved_hosts (on_secure f w) = w_saved_hosts w" "w_cached_credentials (on_secure f w) = w_cached_credentials w"
  "w_cached_keys (on_secure f w) = w_cached_keys w" "w_cached_port_forwards (on_secure f w) = w_cached_port_forwards w"
  "w_host_blobs (on_secure f w) = w_host_blobs w" "w_credential_blobs (on_secure f w) = w_credential_blobs w"
  "w_key_blobs (on_secure f w) = w_key_blobs w" "w_filtered_hosts (on_secure f w) = w_filtered_hosts w"
  "w_filtered_credentials (on_secure f w) = w_filtered_credentials w" "w_filtered_keys (on_secure f w) = w_filtered_keys w"
  by (simp_all add: on_secure_def)

text \<open>A toast and the selection of a host change the connection part only.\<close>

definition up_to_connect :: "('s, 'd) workspace \<Rightarrow> ('s, 'd) workspace" where
  "up_to_connect w = w\<lparr>w_connect := new_connect_window\<rparr>"

lemma toast_sel [simp]:
  "w_secure (toast m w) = w_secure w" "w_backend (toast m w) = w_backend w"
  "w_config (toast m w) = w_config w" "w_surface (toast m w) = w_surface w"
  "w_confirm_dialog (toast m w) = w_confirm_dialog w" "w_vault_modal (toast m w) = w_vault_modal w"
  "w_managed_vaults (toast m w) = w_managed_vaults w" "w_saved_hosts (toast m w) = w_saved_hosts w"
  "w_cached_credentials (toast m w) = w_cached_credentials w" "w_cached_keys (toast m w) = w_cached_keys w"
  "w_cached_port_forwards (toast m w) = w_cached_port_forwards w"
  "w_host_blobs (toast m w) = w_host_blobs w" "w_credential_blobs (toast m w) = w_credential_blobs w"
  "w_key_blobs (toast m w) = w_key_blobs w" "w_filtered_hosts (toast m w) = w_filtered_hosts w"
  "w_filtered_credentials (toast m w) = w_filtered_credentials w" "w_filtered_keys (toast m w) = w_filtered_keys w"
  by (simp_all add: toast_def)

lemma set_selected_host_sel [simp]:
  "w_secure (set_selected_host x w) = w_secure w" "w_backend (set_selected_host x w) = w_backend w"
  "w_config (set_selected_host x w) = w_config w" "w_surface (set_selected_host x w) = w_surface w"
  "w_confirm_dialog (set_selected_host x w) = w_confirm_dialog w" "w_vault_modal (set_selected_host x w) = w_vault_modal w"
  "w_managed_vaults (set_selected_host x w) = w_managed_vaults w" "w_saved_hosts (set_selected_host x w) = w_saved_hosts w"
  "w_cached_credentials (set_selected_host x w) = w_cached_credentials w" "w_cached_keys (set_selected_host x w) = w_cached_keys w"
  "w_cached_port_forwards (set_selected_host x w) = w_cached_port_forwards w"
  "w_host_blobs (set_selected_host x w) = w_host_blobs w" "w_credential_blobs (set_selected_host x w) = w_credential_blobs w"
  "w_key_blobs (set_selected_host x w) = w_key_blobs w" "w_filtered_hosts (set_selected_host x w) = w_filtered_hosts w"
  "w_filtered_credentials (set_selected_host x w) = w_filtered_credentials w"
  "w_filtered_keys (set_selected_host x w) = w_filtered_keys w"
  by (simp_all add: set_selected_host_def)

lemma rebuild_sel [simp]:
  "w_secure (rebuild_secure_search_cache env w) = w_secure w" "w_backend (rebuild_secure_search_cache env w) = w_backend w"
  "w_config (rebuild_secure_search_cache env w) = w_config w" "w_surface (rebuild_secure_search_cache env w) = w_surface w"
  "w_confirm_dialog (rebuild_secure_search_cache env w) = w_confirm_dialog w"
  "w_vault_modal (rebuild_secure_search_cache env w) = w_vault_modal w"
  "w_connect (rebuild_secure_search_cache env w) = w_connect w"
  "w_managed_vaults (rebuild_secure_search_cache env w) = w_managed_vaults w"
  "w_saved_hosts (rebuild_secure_search_cache env w) = w_saved_hosts w"
  "w_cached_credentials (rebuild_secure_search_cache env w) = w_cached_credentials w"
  "w_cached_keys (rebuild_secure_search_cache env w) = w_cached_keys w"
  "w_cached_port_forwards (rebuild_secure_search_cache env w) = w_cached_port_forwards w"
  by (simp_all add: rebuild_secure_search_cache_def recompute_secure_filtered_indices_def)

text \<open>The cached lists, of which the existence tests are functions.\<close>

definition listed ::
  "('s, 'd) workspace \<Rightarrow> managed_vault_summary list \<times> vault_scoped_host_summary list \<times> vault_scoped_credential_summary list \<times>
     vault_scoped_key_summary list \<times> vault_scoped_port_forward_summary list" where
  "listed w = (w_managed_vaults w, w_saved_hosts w, w_cached_credentials w, w_cached_keys w, w_cached_port_forwards w)"

lemma exists_listed:
  assumes "listed w = listed w'"
  shows "has_unlocked_vault v w = has_unlocked_vault v w'" "saved_host_exists w = saved_host_exists w'"
    "saved_tunnel_exists w = saved_tunnel_exists w'" "saved_credential_exists w = saved_credential_exists w'"
    "saved_key_exists w = saved_key_exists w'"
  using assms
  by (simp_all add: listed_def has_unlocked_vault_def saved_host_exists_def saved_tunnel_exists_def
      saved_credential_exists_def saved_key_exists_def fun_eq_iff)

lemma listed_simps [simp]:
  "listed (on_secure f w) = listed w" "listed (toast m w) = listed w" "listed (set_selected_host x w) = listed w"
  "listed (rebuild_secure_search_cache env w) = listed w"
  by (simp_all add: listed_def)

section \<open>Drafts after a snapshot\<close>

text \<open>What becomes of one draft; the same for the three kinds, given the draft's vault and record, whether
  the record exists, and how the draft is turned into an unsaved copy.\<close>

definition fit :: "('s, 'd) workspace \<Rightarrow> string option \<Rightarrow> string option \<Rightarrow> (string \<Rightarrow> string \<Rightarrow> bool) \<Rightarrow> 'x \<Rightarrow> 'x \<Rightarrow> 'x option" where
  "fit w vault record exists d copy =
     (case vault of
        None \<Rightarrow> Some d
      | Some v \<Rightarrow>
          if \<not> has_unlocked_vault v w then None
          else case record of None \<Rightarrow> Some d | Some i \<Rightarrow> Some (if exists v i then d else copy))"

definition host_copy :: "host_draft_state \<Rightarrow> host_draft_state" where
  "host_copy d = d\<lparr>hf_host_id := None, hf_dirty := True, hf_error := Some deleted_notice\<rparr>"

definition tunnel_copy :: "tunnel_draft_state \<Rightarrow> tunnel_draft_state" where
  "tunnel_copy d = d\<lparr>tn_port_forward_id := None, tn_dirty := True, tn_error := Some deleted_notice\<rparr>"

definition credential_copy :: "credential_draft_state \<Rightarrow> credential_draft_state" where
  "credential_copy d = d\<lparr>cf_credential_id := None, cf_dirty := True, cf_error := Some deleted_notice\<rparr>"

definition fit_host :: "('s, 'd) workspace \<Rightarrow> host_draft_state \<Rightarrow> host_draft_state option" where
  "fit_host w d = fit w (hf_vault_id d) (hf_host_id d) (saved_host_exists w) d (host_copy d)"

definition fit_tunnel :: "('s, 'd) workspace \<Rightarrow> tunnel_draft_state \<Rightarrow> tunnel_draft_state option" where
  "fit_tunnel w d = fit w (tn_vault_id d) (tn_port_forward_id d) (saved_tunnel_exists w) d (tunnel_copy d)"

definition fit_credential :: "('s, 'd) workspace \<Rightarrow> credential_draft_state \<Rightarrow> credential_draft_state option" where
  "fit_credential w d = fit w (cf_vault_id d) (cf_credential_id d) (saved_credential_exists w) d (credential_copy d)"

lemma fit_listed:
  assumes "listed w = listed w'"
  shows "fit_host w = fit_host w'" "fit_tunnel w = fit_tunnel w'" "fit_credential w = fit_credential w'"
proof -
  have u: "has_unlocked_vault v w = has_unlocked_vault v w'" for v using exists_listed(1) [OF assms] .
  show "fit_host w = fit_host w'" "fit_tunnel w = fit_tunnel w'" "fit_credential w = fit_credential w'"
    by (simp_all add: fun_eq_iff fit_host_def fit_tunnel_def fit_credential_def fit_def u exists_listed(2-4) [OF assms]
        split: option.split)
qed

lemma reconcile_host_secure:
  "\<exists>sel. w_secure (reconcile_host_draft_after_vault_snapshot w) =
     (w_secure w)\<lparr>sx_host_draft := Option.bind (sx_host_draft (w_secure w)) (fit_host w), sx_selected_host_id := sel\<rparr>
     \<and> (sel = None \<or> sel = sx_selected_host_id (w_secure w))"
proof (cases "sx_host_draft (w_secure w)")
  case (Some d)
  then show ?thesis
    by (cases "w_secure w")
      (auto simp: reconcile_host_draft_after_vault_snapshot_def fit_host_def fit_def host_copy_def split: option.splits)
qed (cases "w_secure w", auto simp: reconcile_host_draft_after_vault_snapshot_def)

lemma reconcile_tunnel_secure:
  "\<exists>sel. w_secure (reconcile_tunnel_draft_after_vault_snapshot w) =
     (w_secure w)\<lparr>sx_tunnel_draft := Option.bind (sx_tunnel_draft (w_secure w)) (fit_tunnel w), sx_selected_tunnel_id := sel\<rparr>
     \<and> (sel = None \<or> sel = sx_selected_tunnel_id (w_secure w))"
proof (cases "sx_tunnel_draft (w_secure w)")
  case (Some d)
  then show ?thesis
    by (cases "w_secure w")
      (auto simp: reconcile_tunnel_draft_after_vault_snapshot_def fit_tunnel_def fit_def tunnel_copy_def split: option.splits)
qed (cases "w_secure w", auto simp: reconcile_tunnel_draft_after_vault_snapshot_def)

lemma reconcile_credential_secure:
  "\<exists>sel. w_secure (reconcile_credential_draft_after_vault_snapshot w) =
     (w_secure w)\<lparr>sx_credential_draft := Option.bind (sx_credential_draft (w_secure w)) (fit_credential w), sx_selected_credential_id := sel\<rparr>
     \<and> (sel = None \<or> sel = sx_selected_credential_id (w_secure w))"
proof (cases "sx_credential_draft (w_secure w)")
  case (Some d)
  then show ?thesis
    by (cases "w_secure w")
      (auto simp: reconcile_credential_draft_after_vault_snapshot_def fit_credential_def fit_def credential_copy_def split: option.splits)
qed (cases "w_secure w", auto simp: reconcile_credential_draft_after_vault_snapshot_def)

lemma reconcile_listed [simp]:
  "listed (reconcile_host_draft_after_vault_snapshot w) = listed w"
  "listed (reconcile_tunnel_draft_after_vault_snapshot w) = listed w"
  "listed (reconcile_credential_draft_after_vault_snapshot w) = listed w"
  "listed (reconcile_saved_selection_state w) = listed w"
  by (simp_all add: reconcile_host_draft_after_vault_snapshot_def reconcile_tunnel_draft_after_vault_snapshot_def
      reconcile_credential_draft_after_vault_snapshot_def reconcile_saved_selection_state_def Let_def split: option.split)

text \<open>The selections of the secure workspace after a snapshot; they may only be cleared afterwards.\<close>

definition valid_selections :: "('s, 'd) workspace \<Rightarrow> secure_workspace_state \<Rightarrow> bool" where
  "valid_selections w x \<longleftrightarrow>
     \<not> dangling (saved_host_exists w) (sx_selected_host_id x)
     \<and> \<not> dangling (saved_tunnel_exists w) (sx_selected_tunnel_id x)
     \<and> \<not> dangling (saved_credential_exists w) (sx_selected_credential_id x)
     \<and> \<not> dangling (saved_key_exists w) (sx_selected_key_id x)"

lemma dangling_None [simp]: "\<not> dangling e None"
  by (simp add: dangling_def)

text \<open>Everything of the secure workspace that a snapshot does not touch.\<close>

definition kept_secure :: "secure_workspace_state \<Rightarrow> secure_workspace_state" where
  "kept_secure x = x\<lparr>sx_host_draft := None, sx_tunnel_draft := None, sx_credential_draft := None, sx_selected_host_id := None,
     sx_selected_tunnel_id := None, sx_selected_credential_id := None, sx_selected_key_id := None\<rparr>"

lemma apply_vault_snapshot_secure:
  fixes w :: "('s, 'd) workspace" and env :: "'d ui_env" and snapshot :: vault_ui_snapshot
  defines "w' \<equiv> apply_vault_snapshot env snapshot w"
  shows "listed w' = (vs_managed_vaults snapshot, vs_saved_hosts snapshot, vs_cached_credentials snapshot,
      vs_cached_keys snapshot, vs_cached_port_forwards snapshot)"
    and "sx_host_draft (w_secure w') = Option.bind (sx_host_draft (w_secure w)) (fit_host w')"
    and "sx_tunnel_draft (w_secure w') = Option.bind (sx_tunnel_draft (w_secure w)) (fit_tunnel w')"
    and "sx_credential_draft (w_secure w') = Option.bind (sx_credential_draft (w_secure w)) (fit_credential w')"
    and "valid_selections w' (w_secure w')"
    and "kept_secure (w_secure w') = kept_secure (w_secure w)"
proof -
  define w0 where "w0 = rebuild_secure_search_cache env
      (w\<lparr>w_managed_vaults := vs_managed_vaults snapshot, w_saved_hosts := vs_saved_hosts snapshot,
         w_cached_credentials := vs_cached_credentials snapshot, w_cached_keys := vs_cached_keys snapshot,
         w_cached_port_forwards := vs_cached_port_forwards snapshot\<rparr>)"
  define w1 where "w1 = reconcile_saved_selection_state w0"
  define w2 where "w2 = reconcile_host_draft_after_vault_snapshot w1"
  define w3 where "w3 = reconcile_tunnel_draft_after_vault_snapshot w2"
  have w': "w' = reconcile_credential_draft_after_vault_snapshot w3"
    by (simp add: w'_def apply_vault_snapshot_def w0_def w1_def w2_def w3_def)
  have ls: "listed w0 = listed w'" "listed w1 = listed w'" "listed w2 = listed w'" "listed w3 = listed w'"
    by (simp_all add: w' w1_def w2_def w3_def)
  show "listed w' = (vs_managed_vaults snapshot, vs_saved_hosts snapshot, vs_cached_credentials snapshot,
      vs_cached_keys snapshot, vs_cached_port_forwards snapshot)"
    using ls(1) by (simp add: w0_def) (simp add: listed_def)
  note e = exists_listed [OF ls(1)]
  have x1: "w_secure w1 = (w_secure w)
      \<lparr>sx_selected_host_id := sx_selected_host_id (w_secure w1), sx_selected_tunnel_id := sx_selected_tunnel_id (w_secure w1),
       sx_selected_credential_id := sx_selected_credential_id (w_secure w1), sx_selected_key_id := sx_selected_key_id (w_secure w1)\<rparr>"
    by (simp add: w1_def w0_def reconcile_saved_selection_state_def Let_def)
  have v1: "valid_selections w' (w_secure w1)"
    by (simp add: w1_def reconcile_saved_selection_state_def Let_def valid_selections_def e)
  obtain a where x2: "w_secure w2 = (w_secure w1)\<lparr>sx_host_draft := Option.bind (sx_host_draft (w_secure w1)) (fit_host w'), sx_selected_host_id := a\<rparr>"
    and a: "a = None \<or> a = sx_selected_host_id (w_secure w1)"
    using reconcile_host_secure [of w1] by (auto simp: w2_def fit_listed [OF ls(2)])
  obtain b where x3: "w_secure w3 = (w_secure w2)\<lparr>sx_tunnel_draft := Option.bind (sx_tunnel_draft (w_secure w2)) (fit_tunnel w'), sx_selected_tunnel_id := b\<rparr>"
    and b: "b = None \<or> b = sx_selected_tunnel_id (w_secure w2)"
    using reconcile_tunnel_secure [of w2] by (auto simp: w3_def fit_listed [OF ls(3)])
  obtain c where x4: "w_secure w' = (w_secure w3)\<lparr>sx_credential_draft := Option.bind (sx_credential_draft (w_secure w3)) (fit_credential w'), sx_selected_credential_id := c\<rparr>"
    and c: "c = None \<or> c = sx_selected_credential_id (w_secure w3)"
    using reconcile_credential_secure [of w3] by (auto simp: w' fit_listed [OF ls(4)])
  have d1: "sx_host_draft (w_secure w1) = sx_host_draft (w_secure w)" "sx_tunnel_draft (w_secure w1) = sx_tunnel_draft (w_secure w)"
    "sx_credential_draft (w_secure w1) = sx_credential_draft (w_secure w)"
    by (subst x1, simp)+
  show "sx_host_draft (w_secure w') = Option.bind (sx_host_draft (w_secure w)) (fit_host w')"
    "sx_tunnel_draft (w_secure w') = Option.bind (sx_tunnel_draft (w_secure w)) (fit_tunnel w')"
    "sx_credential_draft (w_secure w') = Option.bind (sx_credential_draft (w_secure w)) (fit_credential w')"
    by (simp_all add: x4 x3 x2 d1)
  show "valid_selections w' (w_secure w')"
    using v1 a b c unfolding valid_selections_def by (auto simp: x4 x3 x2)
  have "kept_secure (w_secure w1) = kept_secure (w_secure w)" by (subst x1, simp add: kept_secure_def)
  then show "kept_secure (w_secure w') = kept_secure (w_secure w)" by (simp add: x4 x3 x2 kept_secure_def)
qed

section \<open>Search results\<close>

text \<open>The filtered lists are what the current queries select from the current lists.\<close>

definition search_fresh :: "'d ui_env \<Rightarrow> ('s, 'd) workspace \<Rightarrow> bool" where
  "search_fresh env w \<longleftrightarrow>
     w_host_blobs w = map (host_blob env) (w_saved_hosts w)
     \<and> w_credential_blobs w = map (credential_blob env) (w_cached_credentials w)
     \<and> w_key_blobs w = map (key_blob env) (w_cached_keys w)
     \<and> w_filtered_hosts w =
         matching_indices (ue_lower env (trim (sx_host_search (w_secure w)))) (length (w_saved_hosts w)) (w_host_blobs w)
     \<and> w_filtered_credentials w =
         matching_indices (ue_lower env (trim (sx_credential_search (w_secure w)))) (length (w_cached_credentials w)) (w_credential_blobs w)
     \<and> w_filtered_keys w =
         matching_indices (ue_lower env (trim (sx_key_search (w_secure w)))) (length (w_cached_keys w)) (w_key_blobs w)"

lemma search_fresh_rebuild [simp]: "search_fresh env (rebuild_secure_search_cache env w)"
  by (simp add: search_fresh_def rebuild_secure_search_cache_def recompute_secure_filtered_indices_def)

lemma search_fresh_toast [simp]:
  "search_fresh env (toast m w) = search_fresh env w" "search_fresh env (set_selected_host x w) = search_fresh env w"
  by (simp_all add: search_fresh_def)

text \<open>The queries, which the search depends on beside the lists.\<close>

definition queries :: "secure_workspace_state \<Rightarrow> string \<times> string \<times> string" where
  "queries x = (sx_host_search x, sx_credential_search x, sx_key_search x)"

lemma search_fresh_on_secure [simp]:
  "queries (f (w_secure w)) = queries (w_secure w) \<Longrightarrow> search_fresh env (on_secure f w) = search_fresh env w"
  by (simp add: search_fresh_def queries_def)

lemma search_fresh_reconcile [simp]:
  "search_fresh env (reconcile_host_draft_after_vault_snapshot w) = search_fresh env w"
  "search_fresh env (reconcile_tunnel_draft_after_vault_snapshot w) = search_fresh env w"
  "search_fresh env (reconcile_credential_draft_after_vault_snapshot w) = search_fresh env w"
  "search_fresh env (reconcile_saved_selection_state w) = search_fresh env w"
  by (simp_all add: reconcile_host_draft_after_vault_snapshot_def reconcile_tunnel_draft_after_vault_snapshot_def
      reconcile_credential_draft_after_vault_snapshot_def reconcile_saved_selection_state_def Let_def queries_def split: option.split)

lemma search_fresh_snapshot [simp]: "search_fresh env (apply_vault_snapshot env snapshot w)"
  by (simp add: apply_vault_snapshot_def)

lemma matching_indices_filter:
  "matching_indices q (length blobs) blobs = filter (\<lambda>i. q = [] \<or> sublist q (blobs ! i)) [0..<length blobs]"
proof (cases "q = []")
  case False
  have "List.map_filter (\<lambda>(i, b). if sublist q b then Some i else None) (enumerate n bs)
      = filter (\<lambda>i. sublist q (bs ! (i - n))) [n..<n + length bs]" for n bs
  proof (induction bs arbitrary: n)
    case (Cons b bs)
    have "filter (\<lambda>i. sublist q (bs ! (i - Suc n))) [Suc n..<Suc n + length bs]
        = filter (\<lambda>i. sublist q ((b # bs) ! (i - n))) [Suc n..<Suc n + length bs]"
      by (rule filter_cong) (auto simp: nth_Cons' Suc_diff_le diff_Suc split: nat.splits)
    moreover have "[n..<n + length (b # bs)] = n # [Suc n..<Suc n + length bs]" by (simp add: upt_rec)
    ultimately show ?case using Cons [of "Suc n"] by (simp add: map_filter_simps)
  qed (simp add: map_filter_simps)
  from this [of 0 blobs] False show ?thesis by (simp add: matching_indices_def)
qed (simp add: matching_indices_def)

section \<open>Properties\<close>

definition demo_ui_env :: "(string \<times> bytes) list ui_env" where
  "demo_ui_env = \<lparr>ue_core = ascii_env, ue_show_config = (\<lambda>_. ''config''), ue_suffix = ''1'', ue_ssh_dir = None,
     ue_read = (\<lambda>_. Inl ''no file''), ue_started = Inr 7\<rparr>"

definition demo_vault_summary :: managed_vault_summary where
  "demo_vault_summary = \<lparr>ms_vault_id = ''v'', ms_name = ''Work'', ms_db_path = ''v'', ms_open = True, ms_initialized = True,
     ms_unlocked = True, ms_device_unlock_available = False, ms_device_unlock_message = None, ms_host_count = 0,
     ms_credential_count = 0, ms_key_count = 0, ms_availability_error = None\<rparr>"

definition demo_workspace :: "host_draft_state option \<Rightarrow> (unit, (string \<times> bytes) list) workspace" where
  "demo_workspace d = \<lparr>w_backend = demo_one, w_config = default_app_config, w_surface = SurfaceSecure,
     w_secure = default_secure\<lparr>sx_host_draft := d\<rparr>, w_confirm_dialog = None,
     w_vault_modal = vault_modal_new True True False None, w_connect = new_connect_window,
     w_managed_vaults = [demo_vault_summary], w_saved_hosts = [], w_cached_credentials = [], w_cached_keys = [],
     w_cached_port_forwards = [], w_host_blobs = [], w_credential_blobs = [], w_key_blobs = [], w_filtered_hosts = [],
     w_filtered_credentials = [], w_filtered_keys = []\<rparr>"

definition resolved :: "('s, 'd) workspace \<Rightarrow> (string \<Rightarrow> string \<Rightarrow> bool) \<Rightarrow> string option \<Rightarrow> string option \<Rightarrow> bool" where
  "resolved w exists vault record \<longleftrightarrow>
     (case vault of
        None \<Rightarrow> True
      | Some v \<Rightarrow> has_unlocked_vault v w \<and> (case record of None \<Rightarrow> True | Some i \<Rightarrow> exists v i))"

lemma fit_Some:
  assumes "fit w vault record exists d copy = Some d'"
  shows "d' = d \<and> resolved w exists vault record
     \<or> d' = copy \<and> (\<exists>v i. vault = Some v \<and> record = Some i \<and> has_unlocked_vault v w \<and> \<not> exists v i)"
  using assms by (auto simp: fit_def resolved_def split: option.splits if_splits)

lemma fit_None: "fit w vault record exists d copy = None \<longleftrightarrow> (\<exists>v. vault = Some v \<and> \<not> has_unlocked_vault v w)"
  by (auto simp: fit_def split: option.splits)

text \<open>A draft after a snapshot, given the draft's vault and record, the unlocked vaults and the records the
  snapshot lists, and the unsaved copy: closed if its vault is not unlocked, copied if its record is gone,
  and as it was otherwise.\<close>

definition reconciled ::
  "('x \<Rightarrow> string option) \<Rightarrow> ('x \<Rightarrow> string option) \<Rightarrow> string set \<Rightarrow> (string \<times> string) set \<Rightarrow> ('x \<Rightarrow> 'x)
     \<Rightarrow> 'x option \<Rightarrow> 'x option \<Rightarrow> bool" where
  "reconciled vault record unlocked records copy old new \<longleftrightarrow>
     (new = None \<longleftrightarrow> old = None \<or> (\<exists>d v. old = Some d \<and> vault d = Some v \<and> v \<notin> unlocked))
     \<and> (\<forall>d d'. old = Some d \<and> new = Some d' \<longrightarrow>
          d' = (if \<exists>v i. vault d = Some v \<and> record d = Some i \<and> (v, i) \<notin> records then copy d else d))"

lemma fit_reconciled:
  assumes "\<And>v. has_unlocked_vault v w \<longleftrightarrow> v \<in> unlocked" and "\<And>v i. exists v i \<longleftrightarrow> (v, i) \<in> records"
  shows "reconciled vault record unlocked records copy old (Option.bind old (\<lambda>d. fit w (vault d) (record d) exists d (copy d)))"
  by (cases old) (auto simp: reconciled_def fit_def assms split: option.splits)

text \<open>
  C15. What a new snapshot of the vaults does to an open host, tunnel or credential draft, exactly. The lists of
  the workspace become the snapshot's. A draft that has a vault is closed if and only if that vault is not unlocked in
  the snapshot; one without a vault stays as it is. A draft that stays open becomes an unsaved copy with the same texts, which saving stores as a new record, if it
  edits a saved record that the snapshot no longer lists, and is left exactly as it was otherwise; so a
  draft that has a vault and a record names one that is listed. No draft is opened. Every selection of the
  secure workspace names a listed record, the search results are those of the new lists, and nothing else of the secure
  workspace changes. (The host and authentication methods that a draft refers to are not reconciled.)
\<close>

theorem snapshot_reconciles:
  assumes "w' = apply_vault_snapshot env snapshot w"
  defines "unlocked \<equiv> {ms_vault_id m |m. m \<in> set (vs_managed_vaults snapshot) \<and> ms_unlocked m}"
  shows "listed w' = (vs_managed_vaults snapshot, vs_saved_hosts snapshot, vs_cached_credentials snapshot,
       vs_cached_keys snapshot, vs_cached_port_forwards snapshot)
     \<and> reconciled hf_vault_id hf_host_id unlocked {(sh_vault_id h, hs_id (sh_host h)) |h. h \<in> set (vs_saved_hosts snapshot)}
         host_copy (sx_host_draft (w_secure w)) (sx_host_draft (w_secure w'))
     \<and> reconciled tn_vault_id tn_port_forward_id unlocked
         {(vp_vault_id t, ps_id (vp_port_forward t)) |t. t \<in> set (vs_cached_port_forwards snapshot)}
         tunnel_copy (sx_tunnel_draft (w_secure w)) (sx_tunnel_draft (w_secure w'))
     \<and> reconciled cf_vault_id cf_credential_id unlocked
         {(vc_vault_id c, cs_id (vc_credential c)) |c. c \<in> set (vs_cached_credentials snapshot)}
         credential_copy (sx_credential_draft (w_secure w)) (sx_credential_draft (w_secure w'))
     \<and> valid_selections w' (w_secure w') \<and> search_fresh env w' \<and> kept_secure (w_secure w') = kept_secure (w_secure w)"
proof (intro conjI)
  note s = apply_vault_snapshot_secure [of env snapshot w, folded assms]
  from s(1) have lists: "w_managed_vaults w' = vs_managed_vaults snapshot" "w_saved_hosts w' = vs_saved_hosts snapshot"
    "w_cached_credentials w' = vs_cached_credentials snapshot" "w_cached_port_forwards w' = vs_cached_port_forwards snapshot"
    by (simp_all add: listed_def)
  have u: "has_unlocked_vault v w' \<longleftrightarrow> v \<in> unlocked" for v
    by (auto simp: has_unlocked_vault_def lists unlocked_def list_ex_iff)
  show "listed w' = (vs_managed_vaults snapshot, vs_saved_hosts snapshot, vs_cached_credentials snapshot,
       vs_cached_keys snapshot, vs_cached_port_forwards snapshot)" by (rule s(1))
  show "reconciled hf_vault_id hf_host_id unlocked {(sh_vault_id h, hs_id (sh_host h)) |h. h \<in> set (vs_saved_hosts snapshot)}
      host_copy (sx_host_draft (w_secure w)) (sx_host_draft (w_secure w'))"
    unfolding s(2) fit_host_def by (rule fit_reconciled [OF u]) (auto simp: saved_host_exists_def lists list_ex_iff)
  show "reconciled tn_vault_id tn_port_forward_id unlocked
      {(vp_vault_id t, ps_id (vp_port_forward t)) |t. t \<in> set (vs_cached_port_forwards snapshot)}
      tunnel_copy (sx_tunnel_draft (w_secure w)) (sx_tunnel_draft (w_secure w'))"
    unfolding s(3) fit_tunnel_def by (rule fit_reconciled [OF u]) (auto simp: saved_tunnel_exists_def lists list_ex_iff)
  show "reconciled cf_vault_id cf_credential_id unlocked
      {(vc_vault_id c, cs_id (vc_credential c)) |c. c \<in> set (vs_cached_credentials snapshot)}
      credential_copy (sx_credential_draft (w_secure w)) (sx_credential_draft (w_secure w'))"
    unfolding s(4) fit_credential_def by (rule fit_reconciled [OF u]) (auto simp: saved_credential_exists_def lists list_ex_iff)
  show "valid_selections w' (w_secure w')" by (rule s(5))
  show "search_fresh env w'" by (simp add: assms)
  show "kept_secure (w_secure w') = kept_secure (w_secure w)" by (rule s(6))
qed

text \<open>The host of an open draft is deleted while its vault stays unlocked.\<close>

theorem snapshot_reconciles_witness:
  "\<exists>d. sx_host_draft (w_secure (apply_vault_snapshot demo_ui_env
       \<lparr>vs_managed_vaults = [demo_vault_summary], vs_saved_hosts = [], vs_cached_credentials = [], vs_cached_keys = [],
        vs_cached_port_forwards = []\<rparr>
       (demo_workspace (Some ((host_draft_from_host demo_host)\<lparr>hf_vault_id := Some ''v''\<rparr>))))) = Some d
     \<and> hf_host_id d = None \<and> hf_label d = ''prod''"
proof -
  let ?s = "\<lparr>vs_managed_vaults = [demo_vault_summary], vs_saved_hosts = [], vs_cached_credentials = [], vs_cached_keys = [],
        vs_cached_port_forwards = []\<rparr>"
  let ?d = "(host_draft_from_host demo_host)\<lparr>hf_vault_id := Some ''v''\<rparr>"
  define w where "w = apply_vault_snapshot demo_ui_env ?s (demo_workspace (Some ?d))"
  from snapshot_reconciles [OF w_def]
  have "reconciled hf_vault_id hf_host_id {''v''} {} host_copy (Some ?d) (sx_host_draft (w_secure w))"
    by (simp add: demo_workspace_def demo_vault_summary_def)
  then have "sx_host_draft (w_secure w) = Some (host_copy ?d)"
    by (cases "sx_host_draft (w_secure w)") (auto simp: reconciled_def host_draft_from_host_def)
  then show ?thesis by (simp add: w_def host_copy_def host_draft_from_host_def demo_host_def)
qed

end
