(* ===== verification/Ui_Secure.thy ===== *)
theory Ui_Secure
  imports Ui_Workspace
begin

text \<open>
  The secure workspace (\<^verbatim>\<open>seance-ui/src/secure/mod.rs\<close>, \<^verbatim>\<open>host_wizard.rs\<close>, \<^verbatim>\<open>import_keys.rs\<close>, the editing
  part of \<^verbatim>\<open>tunnels.rs\<close> and the key handling of \<^verbatim>\<open>workspace.rs\<close>): opening, editing and saving drafts,
  attaching keys and credentials to a host, the guard against losing unsaved changes and the dialogs.
  A text field is a parameter of the key handler: it maps the field's text to the new one and says
  whether it changed (see \<open>Ui_Text_Input\<close>).
\<close>

section \<open>Focus\<close>

definition focus_secure_input_target :: "secure_input_target \<Rightarrow> secure_workspace_state \<Rightarrow> secure_workspace_state" where
  "focus_secure_input_target target x0 =
     (let x = x0\<lparr>sx_input_target := target\<rparr> in
      case target of
        HostDraft f \<Rightarrow> x\<lparr>sx_host_draft := map_option (hf_selected_field_update (\<lambda>_. f)) (sx_host_draft x)\<rparr>
      | TunnelDraft f \<Rightarrow> x\<lparr>sx_tunnel_draft := map_option (tn_selected_field_update (\<lambda>_. f)) (sx_tunnel_draft x)\<rparr>
      | CredentialDraft f \<Rightarrow> x\<lparr>sx_credential_draft := map_option (cf_selected_field_update (\<lambda>_. f)) (sx_credential_draft x)\<rparr>
      | _ \<Rightarrow> x)"

section \<open>Opening drafts\<close>

definition open_secure_workspace :: "secure_section \<Rightarrow> ('s, 'd) workspace \<Rightarrow> ('s, 'd) workspace" where
  "open_secure_workspace section w =
     on_secure (\<lambda>x. x\<lparr>sx_section := section, sx_message := None\<rparr>)
       (w\<lparr>w_surface := SurfaceSecure, w_confirm_dialog := None\<rparr>)"

definition has_unsaved_secure_changes :: "('s, 'd) workspace \<Rightarrow> bool" where
  "has_unsaved_secure_changes w \<longleftrightarrow>
     (case sx_host_draft (w_secure w) of None \<Rightarrow> False | Some d \<Rightarrow> hf_dirty d)
     \<or> (case sx_tunnel_draft (w_secure w) of None \<Rightarrow> False | Some d \<Rightarrow> tn_dirty d)
     \<or> (case sx_credential_draft (w_secure w) of None \<Rightarrow> False | Some d \<Rightarrow> cf_dirty d)"

text \<open>The end of \<open>activate_host_draft\<close>, with the new draft.\<close>

definition show_host_draft :: "host_draft_state option \<Rightarrow> ('s, 'd) workspace \<Rightarrow> ('s, 'd) workspace" where
  "show_host_draft d w =
     (on_secure (\<lambda>x0.
        let x = x0\<lparr>sx_host_draft := d\<rparr>;
            y = (if d \<noteq> None then focus_secure_input_target (HostDraft HostLabel) x else x)
        in y\<lparr>sx_tunnel_draft := None, sx_credential_draft := None\<rparr>) w)\<lparr>w_confirm_dialog := None\<rparr>"

definition activate_host_draft :: "'d ui_env \<Rightarrow> string option \<Rightarrow> ('s, 'd) workspace \<Rightarrow> ('s, 'd) workspace" where
  "activate_host_draft env host_id w0 =
     (let w1 = (if host_id = None then w0
                else on_secure (\<lambda>x. x\<lparr>sx_host_wizard := (sx_host_wizard x)\<lparr>hw_open := False, hw_message := None\<rparr>\<rparr>) w0);
          w2 = on_secure (\<lambda>x. x\<lparr>sx_section := SectionHosts\<rparr>) (w1\<lparr>w_surface := SurfaceSecure\<rparr>);
          w = refresh_saved_hosts env (refresh_vault_cache env w2)
      in case host_id of
           Some scope_key \<Rightarrow>
             (case split_scope_key scope_key of
                None \<Rightarrow> toast ''Saved host scope is invalid.'' w
              | Some (v, h) \<Rightarrow>
                  (case load_host (ue_core env) v h (w_backend w) of
                     Inr (Some host) \<Rightarrow>
                       show_host_draft (Some ((host_draft_from_host host)\<lparr>hf_vault_id := Some v\<rparr>))
                         (on_secure (\<lambda>x. x\<lparr>sx_selected_host_id := Some (item_scope_key v (ho_id host))\<rparr>) w)
                   | Inr None \<Rightarrow> show_host_draft None (toast ''Saved host not found.'' w)
                   | Inl e \<Rightarrow> show_host_draft None (toast (core_error_text env e) w)))
         | None \<Rightarrow>
             (case default_target_vault_id env w of
                None \<Rightarrow> toast ''Unlock a vault before creating a saved host.'' w
              | Some v \<Rightarrow>
                  show_host_draft (Some (host_draft_blank\<lparr>hf_vault_id := Some v\<rparr>))
                    (on_secure (\<lambda>x. x\<lparr>sx_selected_host_id := None\<rparr>) w)))"

definition show_credential_draft :: "credential_draft_state option \<Rightarrow> ('s, 'd) workspace \<Rightarrow> ('s, 'd) workspace" where
  "show_credential_draft d w =
     (on_secure (\<lambda>x0.
        let x = x0\<lparr>sx_credential_draft := d\<rparr>;
            y = (if d \<noteq> None then focus_secure_input_target (CredentialDraft CredLabel) x else x)
        in y\<lparr>sx_tunnel_draft := None\<rparr>) w)\<lparr>w_confirm_dialog := None\<rparr>"

text \<open>The vault of the host draft, or else the default one.\<close>

definition host_vault_or_default :: "'d ui_env \<Rightarrow> ('s, 'd) workspace \<Rightarrow> string option" where
  "host_vault_or_default env w =
     (case Option.bind (sx_host_draft (w_secure w)) hf_vault_id of
        Some v \<Rightarrow> Some v | None \<Rightarrow> default_target_vault_id env w)"

definition activate_credential_draft ::
  "'d ui_env \<Rightarrow> string option \<Rightarrow> credential_draft_origin \<Rightarrow> ('s, 'd) workspace \<Rightarrow> ('s, 'd) workspace" where
  "activate_credential_draft env credential_id origin w0 =
     (let w1 = (if origin = Standalone then on_secure (\<lambda>x. x\<lparr>sx_pending_passphrase_auth_index := None\<rparr>) w0 else w0);
          w2 = on_secure (\<lambda>x. x\<lparr>sx_section := SectionCredentials\<rparr>) (w1\<lparr>w_surface := SurfaceSecure\<rparr>);
          w = refresh_vault_cache env w2
      in case credential_id of
           Some scope_key \<Rightarrow>
             (case split_scope_key scope_key of
                None \<Rightarrow> toast ''Credential scope is invalid.'' w
              | Some (v, c) \<Rightarrow>
                  (case load_password_credential_in (ue_core env) v c (w_backend w) of
                     Inr (Some credential) \<Rightarrow>
                       show_credential_draft (Some ((credential_draft_from_credential credential origin)\<lparr>cf_vault_id := Some v\<rparr>))
                         (on_secure (\<lambda>x. x\<lparr>sx_selected_credential_id := Some (item_scope_key v (cr_id credential))\<rparr>) w)
                   | Inr None \<Rightarrow> show_credential_draft None (toast ''Credential not found.'' w)
                   | Inl e \<Rightarrow> show_credential_draft None (toast (core_error_text env e) w)))
         | None \<Rightarrow>
             (case if origin = HostAuth then host_vault_or_default env w else default_target_vault_id env w of
                None \<Rightarrow> toast ''Unlock a vault before creating a credential.'' w
              | Some v \<Rightarrow>
                  show_credential_draft (Some ((credential_draft_blank origin)\<lparr>cf_vault_id := Some v\<rparr>))
                    (on_secure (\<lambda>x. x\<lparr>sx_selected_credential_id := None\<rparr>) w)))"

definition show_tunnel_draft :: "tunnel_draft_state option \<Rightarrow> ('s, 'd) workspace \<Rightarrow> ('s, 'd) workspace" where
  "show_tunnel_draft d w =
     (on_secure (\<lambda>x0.
        let x = x0\<lparr>sx_tunnel_draft := d\<rparr>
        in if d \<noteq> None then focus_secure_input_target (TunnelDraft TunnelLabel) x else x) w)\<lparr>w_confirm_dialog := None\<rparr>"

definition find_host :: "string \<Rightarrow> string \<Rightarrow> ('s, 'd) workspace \<Rightarrow> vault_scoped_host_summary option" where
  "find_host v h w = find (\<lambda>x. sh_vault_id x = v \<and> hs_id (sh_host x) = h) (w_saved_hosts w)"

text \<open>\<open>or_else\<close> on options.\<close>

definition or_else :: "'a option \<Rightarrow> 'a option \<Rightarrow> 'a option" where
  "or_else x y = (case x of None \<Rightarrow> y | Some _ \<Rightarrow> x)"

definition activate_tunnel_draft ::
  "'d ui_env \<Rightarrow> string option \<Rightarrow> string option \<Rightarrow> ('s, 'd) workspace \<Rightarrow> ('s, 'd) workspace" where
  "activate_tunnel_draft env tunnel_scope_key host_scope_key0 w0 =
     (let w1 = on_secure (\<lambda>x. x\<lparr>sx_section := SectionTunnels\<rparr>) (w0\<lparr>w_surface := SurfaceSecure\<rparr>);
          w = on_secure (\<lambda>x. x\<lparr>sx_host_draft := None, sx_credential_draft := None\<rparr>)
                (refresh_vault_cache env (refresh_saved_hosts env w1))
      in case tunnel_scope_key of
           Some scope_key \<Rightarrow>
             (case split_scope_key scope_key of
                None \<Rightarrow> toast ''Tunnel scope is invalid.'' w
              | Some (v, t) \<Rightarrow>
                  (case load_port_forward_in (ue_core env) v t (w_backend w) of
                     Inr (Some forward) \<Rightarrow>
                       let d = (tunnel_draft_from_port_forward forward)\<lparr>tn_vault_id := Some v\<rparr>;
                           d' = (case find_host v (unwrap_or_default (tn_host_id d)) w of
                                   None \<Rightarrow> d | Some host \<Rightarrow> d\<lparr>tn_host_label := hs_label (sh_host host)\<rparr>)
                       in show_tunnel_draft (Some d')
                            (on_secure (\<lambda>x. x\<lparr>sx_selected_tunnel_id := Some (item_scope_key v t)\<rparr>) w)
                   | Inr None \<Rightarrow> show_tunnel_draft None (toast ''Saved tunnel not found.'' w)
                   | Inl e \<Rightarrow> show_tunnel_draft None (toast (core_error_text env e) w)))
         | None \<Rightarrow>
             (case or_else host_scope_key0 (or_else (selected_host_id w) (first_host_key w)) of
                None \<Rightarrow> toast ''Create or unlock a saved host before adding a tunnel.'' w
              | Some host_key \<Rightarrow>
                  (case split_scope_key host_key of
                     None \<Rightarrow> toast ''Host scope is invalid.'' w
                   | Some (v, h) \<Rightarrow>
                       (case find_host v h w of
                          None \<Rightarrow> toast ''Saved host not found.'' w
                        | Some host \<Rightarrow>
                            show_tunnel_draft (Some (tunnel_draft_blank
                                \<lparr>tn_vault_id := Some v, tn_host_id := Some (hs_id (sh_host host)),
                                 tn_host_label := hs_label (sh_host host)\<rparr>))
                              (on_secure (\<lambda>x. x\<lparr>sx_selected_tunnel_id := None\<rparr>) w)))))"

section \<open>Unsaved changes\<close>

definition apply_pending_action :: "'d ui_env \<Rightarrow> pending_action \<Rightarrow> ('s, 'd) workspace \<Rightarrow> ('s, 'd) workspace" where
  "apply_pending_action env pending w0 =
     (let w = w0\<lparr>w_confirm_dialog := None\<rparr> in
      case pending of
        CloseSecureWorkspace \<Rightarrow>
          on_secure (\<lambda>x. x\<lparr>sx_host_draft := None, sx_tunnel_draft := None, sx_credential_draft := None,
             sx_key_import_modal := (sx_key_import_modal x)\<lparr>ki_open := False\<rparr>,
             sx_host_wizard := (sx_host_wizard x)\<lparr>hw_open := False\<rparr>,
             sx_pending_passphrase_auth_index := None, sx_message := None\<rparr>) (w\<lparr>w_surface := SurfaceTerminal\<rparr>)
      | SwitchSecureSection section \<Rightarrow>
          on_secure (\<lambda>x. focus_secure_input_target
             (case section of SectionHosts \<Rightarrow> HostSearch | SectionTunnels \<Rightarrow> TunnelSearch
              | SectionCredentials \<Rightarrow> CredentialSearch | SectionKeys \<Rightarrow> KeySearch)
             (x\<lparr>sx_section := section, sx_host_draft := None, sx_tunnel_draft := None, sx_credential_draft := None,
                sx_host_wizard := (sx_host_wizard x)\<lparr>hw_open := False\<rparr>,
                sx_pending_passphrase_auth_index := None, sx_message := None\<rparr>)) w
      | OpenHostDraft host_id \<Rightarrow> activate_host_draft env host_id w
      | OpenTunnelDraft tunnel_id host_key \<Rightarrow> activate_tunnel_draft env tunnel_id host_key w
      | OpenCredentialDraft i origin \<Rightarrow> activate_credential_draft env i origin w)"

definition request_pending_action :: "'d ui_env \<Rightarrow> pending_action \<Rightarrow> ('s, 'd) workspace \<Rightarrow> ('s, 'd) workspace" where
  "request_pending_action env pending w =
     (if has_unsaved_secure_changes w then w\<lparr>w_confirm_dialog := Some (dialog_discard_changes pending)\<rparr>
      else apply_pending_action env pending w)"

definition cancel_confirm_dialog :: "('s, 'd) workspace \<Rightarrow> ('s, 'd) workspace" where
  "cancel_confirm_dialog w = w\<lparr>w_confirm_dialog := None\<rparr>"

text \<open>\<open>delete_managed_vault\<close> of \<^verbatim>\<open>vault.rs\<close>.\<close>

definition delete_managed_vault :: "'d ui_env \<Rightarrow> string \<Rightarrow> ('s, 'd) workspace \<Rightarrow> ('s, 'd) workspace" where
  "delete_managed_vault env vault_id w =
     (case call (delete_vault_permanently (ue_core env) vault_id) w of
        (Inr _, w') \<Rightarrow> refresh_vault_ui env (toast ''Vault deleted.'' w')
      | (Inl e, w') \<Rightarrow> toast (core_error_text env e) w')"

definition confirm_dialog_primary :: "'d ui_env \<Rightarrow> ('s, 'd) workspace \<Rightarrow> ('s, 'd) workspace" where
  "confirm_dialog_primary env w =
     (case w_confirm_dialog w of
        None \<Rightarrow> w
      | Some dialog \<Rightarrow>
          (case dg_kind dialog of
             DiscardChanges pending \<Rightarrow> apply_pending_action env pending w
           | BlockedDeletion review_section review_host_id \<Rightarrow>
               let w1 = open_secure_workspace review_section (w\<lparr>w_confirm_dialog := None\<rparr>) in
               (case review_host_id of None \<Rightarrow> w1 | Some host_id \<Rightarrow> activate_host_draft env (Some host_id) w1)
           | DeleteVault vault_id \<Rightarrow> delete_managed_vault env vault_id (w\<lparr>w_confirm_dialog := None\<rparr>)))"

definition close_secure_workspace :: "'d ui_env \<Rightarrow> ('s, 'd) workspace \<Rightarrow> ('s, 'd) workspace" where
  "close_secure_workspace env = request_pending_action env CloseSecureWorkspace"

definition begin_edit_host :: "'d ui_env \<Rightarrow> string \<Rightarrow> ('s, 'd) workspace \<Rightarrow> ('s, 'd) workspace" where
  "begin_edit_host env host_id = request_pending_action env (OpenHostDraft (Some host_id))"

definition begin_add_tunnel :: "'d ui_env \<Rightarrow> ('s, 'd) workspace \<Rightarrow> ('s, 'd) workspace" where
  "begin_add_tunnel env w =
     (case or_else (selected_host_id w) (first_host_key w) of
        None \<Rightarrow> toast ''Create or unlock a saved host before adding a tunnel.'' w
      | Some key \<Rightarrow> request_pending_action env (OpenTunnelDraft None (Some key)) w)"

definition begin_add_tunnel_for_host :: "'d ui_env \<Rightarrow> string \<Rightarrow> ('s, 'd) workspace \<Rightarrow> ('s, 'd) workspace" where
  "begin_add_tunnel_for_host env key = request_pending_action env (OpenTunnelDraft None (Some key))"

definition begin_edit_tunnel :: "'d ui_env \<Rightarrow> string \<Rightarrow> ('s, 'd) workspace \<Rightarrow> ('s, 'd) workspace" where
  "begin_edit_tunnel env key = request_pending_action env (OpenTunnelDraft (Some key) None)"

definition open_quick_create_credential :: "'d ui_env \<Rightarrow> ('s, 'd) workspace \<Rightarrow> ('s, 'd) workspace" where
  "open_quick_create_credential env w =
     request_pending_action env (OpenCredentialDraft None HostAuth)
       (on_secure (\<lambda>x. x\<lparr>sx_pending_passphrase_auth_index := None\<rparr>) w)"

definition begin_add_host :: "'d ui_env \<Rightarrow> ('s, 'd) workspace \<Rightarrow> ('s, 'd) workspace" where
  "begin_add_host env w =
     (if \<not> vault_unlocked w
      then open_vault_modal env ModeUnlock SecureAccess ''Unlock the vault before adding a saved host.'' w
      else activate_host_draft env None w)"

section \<open>Saving\<close>

definition on_host_draft :: "(host_draft_state \<Rightarrow> host_draft_state) \<Rightarrow> ('s, 'd) workspace \<Rightarrow> ('s, 'd) workspace" where
  "on_host_draft f = on_secure (\<lambda>x. x\<lparr>sx_host_draft := map_option f (sx_host_draft x)\<rparr>)"

definition on_tunnel_draft :: "(tunnel_draft_state \<Rightarrow> tunnel_draft_state) \<Rightarrow> ('s, 'd) workspace \<Rightarrow> ('s, 'd) workspace" where
  "on_tunnel_draft f = on_secure (\<lambda>x. x\<lparr>sx_tunnel_draft := map_option f (sx_tunnel_draft x)\<rparr>)"

definition on_credential_draft ::
  "(credential_draft_state \<Rightarrow> credential_draft_state) \<Rightarrow> ('s, 'd) workspace \<Rightarrow> ('s, 'd) workspace" where
  "on_credential_draft f = on_secure (\<lambda>x. x\<lparr>sx_credential_draft := map_option f (sx_credential_draft x)\<rparr>)"

definition quoted :: "string \<Rightarrow> string" where
  "quoted s = [CHR 39] @ s @ [CHR 39]"

definition save_host_draft :: "'d ui_env \<Rightarrow> ('s, 'd) workspace \<Rightarrow> ('s, 'd) workspace" where
  "save_host_draft env w =
     (case sx_host_draft (w_secure w) of
        None \<Rightarrow> w
      | Some draft \<Rightarrow>
          if hf_validation_errors draft \<noteq> []
          then on_host_draft (hf_error_update (\<lambda>_. Some (join '' '' (hf_validation_errors draft)))) w
          else
            case hf_vault_id draft of
              None \<Rightarrow> on_host_draft (hf_error_update (\<lambda>_. Some ''Choose an unlocked vault before saving this host.'')) w
            | Some vault_id \<Rightarrow>
                (case call (save_host (ue_core env) vault_id (host_of_draft draft)) w of
                   (Inr stored, w1) \<Rightarrow>
                     toast (''Saved host '' @ quoted (hs_label (sh_host stored)) @ ''.'')
                       (on_host_draft (\<lambda>d. d\<lparr>hf_vault_id := Some (sh_vault_id stored), hf_host_id := Some (hs_id (sh_host stored)),
                            hf_dirty := False, hf_error := None\<rparr>)
                         (on_secure (\<lambda>x. x\<lparr>sx_selected_host_id :=
                              Some (item_scope_key (sh_vault_id stored) (hs_id (sh_host stored)))\<rparr>)
                           (refresh_vault_ui env w1)))
                 | (Inl e, w1) \<Rightarrow> on_host_draft (hf_error_update (\<lambda>_. Some (core_error_text env e))) w1))"

definition save_tunnel_draft :: "'d ui_env \<Rightarrow> ('s, 'd) workspace \<Rightarrow> ('s, 'd) workspace" where
  "save_tunnel_draft env w =
     (case sx_tunnel_draft (w_secure w) of
        None \<Rightarrow> w
      | Some draft \<Rightarrow>
          if tn_validation_errors draft \<noteq> []
          then on_tunnel_draft (tn_error_update (\<lambda>_. Some (join '' '' (tn_validation_errors draft)))) w
          else
            case tn_vault_id draft of
              None \<Rightarrow> toast ''Choose an unlocked vault before saving this tunnel.'' w
            | Some vault_id \<Rightarrow>
                case tn_host_id draft of
                  None \<Rightarrow> toast ''Choose a host before saving this tunnel.'' w
                | Some host_id \<Rightarrow>
                    (case call (save_port_forward (ue_core env) vault_id (forward_of_draft host_id draft)) w of
                       (Inr stored, w1) \<Rightarrow>
                         toast (''Saved tunnel '' @ quoted (ps_label (vp_port_forward stored)) @ ''.'')
                           (on_tunnel_draft (\<lambda>d. d\<lparr>tn_vault_id := Some (vp_vault_id stored),
                                tn_port_forward_id := Some (ps_id (vp_port_forward stored)), tn_host_id := Some (vp_host_id stored),
                                tn_host_label := vp_host_label stored, tn_dirty := False, tn_error := None\<rparr>)
                             (on_secure (\<lambda>x. x\<lparr>sx_selected_tunnel_id :=
                                  Some (item_scope_key (vp_vault_id stored) (ps_id (vp_port_forward stored)))\<rparr>)
                               (refresh_vault_ui env w1)))
                     | (Inl e, w1) \<Rightarrow> on_tunnel_draft (tn_error_update (\<lambda>_. Some (core_error_text env e))) w1))"

text \<open>\<open>slice::get_mut\<close> on a private key entry: setting its passphrase, when the entry is one.\<close>

definition is_key_at :: "nat \<Rightarrow> host_auth_ref list \<Rightarrow> bool" where
  "is_key_at i items \<longleftrightarrow> i < length items \<and> (case items ! i of AuthPrivateKey _ _ \<Rightarrow> True | AuthPassword _ \<Rightarrow> False)"

definition set_passphrase_at :: "nat \<Rightarrow> string option \<Rightarrow> host_auth_ref list \<Rightarrow> host_auth_ref list" where
  "set_passphrase_at i p items =
     (if is_key_at i items
      then items[i := (case items ! i of AuthPrivateKey k _ \<Rightarrow> AuthPrivateKey k p | a \<Rightarrow> a)] else items)"

definition push_auth :: "host_auth_ref \<Rightarrow> host_draft_state \<Rightarrow> host_draft_state" where
  "push_auth a d = d\<lparr>hf_auth_items := hf_auth_items d @ [a], hf_selected_auth := Some (length (hf_auth_items d))\<rparr>"

text \<open>A credential that was created for a host: the passphrase of the pending key, or a password.\<close>

definition attach_created :: "string \<Rightarrow> nat option \<Rightarrow> host_draft_state \<Rightarrow> host_draft_state" where
  "attach_created credential_id pending d =
     (case pending of
        Some i \<Rightarrow>
          if is_key_at i (hf_auth_items d)
          then d\<lparr>hf_auth_items := set_passphrase_at i (Some credential_id) (hf_auth_items d), hf_selected_auth := Some i\<rparr>
          else push_auth (AuthPassword credential_id) d
      | None \<Rightarrow> push_auth (AuthPassword credential_id) d)\<lparr>hf_dirty := True\<rparr>"

definition focus_host_form :: "secure_workspace_state \<Rightarrow> secure_workspace_state" where
  "focus_host_form x =
     focus_secure_input_target
       (case sx_host_draft x of None \<Rightarrow> HostSearch | Some d \<Rightarrow> HostDraft (hf_selected_field d)) x"

definition created_for_host :: "vault_scoped_credential_summary \<Rightarrow> ('s, 'd) workspace \<Rightarrow> ('s, 'd) workspace" where
  "created_for_host stored w0 =
     (let w = on_secure (\<lambda>x. x\<lparr>sx_credential_draft := None, sx_section := SectionHosts\<rparr>) w0 in
      case sx_host_draft (w_secure w) of
        None \<Rightarrow> on_secure focus_host_form w
      | Some d \<Rightarrow>
          if hf_vault_id d \<noteq> Some (vc_vault_id stored)
          then toast ''Credentials can only be attached to hosts in the same vault.'' w
          else
            on_secure (\<lambda>x. focus_host_form
              (x\<lparr>sx_host_draft := Some (attach_created (cs_id (vc_credential stored)) (sx_pending_passphrase_auth_index x) d),
                 sx_pending_passphrase_auth_index := None\<rparr>)) w)"

definition save_credential_draft :: "'d ui_env \<Rightarrow> ('s, 'd) workspace \<Rightarrow> ('s, 'd) workspace" where
  "save_credential_draft env w =
     (case sx_credential_draft (w_secure w) of
        None \<Rightarrow> w
      | Some draft \<Rightarrow>
          if cf_validation_errors draft \<noteq> []
          then on_credential_draft (cf_error_update (\<lambda>_. Some (join '' '' (cf_validation_errors draft)))) w
          else
            case cf_vault_id draft of
              None \<Rightarrow> on_credential_draft (cf_error_update (\<lambda>_. Some ''Choose an unlocked vault before saving this credential.'')) w
            | Some vault_id \<Rightarrow>
                (case call (save_password_credential (ue_core env) vault_id (credential_of_draft draft)) w of
                   (Inr stored, w1) \<Rightarrow>
                     let w2 = toast (''Saved credential '' @ quoted (cs_label (vc_credential stored)) @ ''.'')
                                (on_secure (\<lambda>x. x\<lparr>sx_selected_credential_id :=
                                     Some (item_scope_key (vc_vault_id stored) (cs_id (vc_credential stored)))\<rparr>)
                                  (refresh_vault_ui env w1))
                     in case cf_origin draft of
                          Standalone \<Rightarrow>
                            on_credential_draft (\<lambda>d. d\<lparr>cf_vault_id := Some (vc_vault_id stored),
                                cf_credential_id := Some (cs_id (vc_credential stored)), cf_dirty := False, cf_error := None\<rparr>) w2
                        | HostAuth \<Rightarrow> created_for_host stored w2
                 | (Inl e, w1) \<Rightarrow> on_credential_draft (cf_error_update (\<lambda>_. Some (core_error_text env e))) w1))"

section \<open>Authentication methods of a host\<close>

definition add_auth_password :: "string \<Rightarrow> ('s, 'd) workspace \<Rightarrow> ('s, 'd) workspace" where
  "add_auth_password credential_id =
     on_host_draft (\<lambda>d. (push_auth (AuthPassword credential_id) d)\<lparr>hf_dirty := True, hf_error := None\<rparr>)"

definition add_auth_key :: "string \<Rightarrow> ('s, 'd) workspace \<Rightarrow> ('s, 'd) workspace" where
  "add_auth_key key_id =
     on_host_draft (\<lambda>d. (push_auth (AuthPrivateKey key_id None) d)\<lparr>hf_dirty := True, hf_error := None\<rparr>)"

definition host_draft_in :: "string \<Rightarrow> ('s, 'd) workspace \<Rightarrow> bool" where
  "host_draft_in vault_id w \<longleftrightarrow> Option.bind (sx_host_draft (w_secure w)) hf_vault_id = Some vault_id"

definition ensure_host_draft_for_vault :: "'d ui_env \<Rightarrow> string \<Rightarrow> ('s, 'd) workspace \<Rightarrow> bool \<times> ('s, 'd) workspace" where
  "ensure_host_draft_for_vault env vault_id w =
     (if host_draft_in vault_id w then (True, w)
      else
        case find (\<lambda>h. sh_vault_id h = vault_id) (w_saved_hosts w) of
          Some h \<Rightarrow>
            (let w1 = activate_host_draft env (Some (item_scope_key (sh_vault_id h) (hs_id (sh_host h)))) w
             in (host_draft_in vault_id w1, w1))
        | None \<Rightarrow> (False, toast ''No host exists in this vault yet. Create one first.'' w))"

definition attach_key_to_host :: "'d ui_env \<Rightarrow> string \<Rightarrow> string \<Rightarrow> bool \<Rightarrow> ('s, 'd) workspace \<Rightarrow> ('s, 'd) workspace" where
  "attach_key_to_host env vault_id key_id encrypted w0 =
     (let (ready, w) = ensure_host_draft_for_vault env vault_id w0 in
      if \<not> ready then w
      else
        case sx_host_draft (w_secure w) of
          None \<Rightarrow> w
        | Some d \<Rightarrow>
            let w1 = on_secure (\<lambda>x. x\<lparr>sx_host_draft := Some ((push_auth (AuthPrivateKey key_id None) d)\<lparr>hf_dirty := True\<rparr>),
                        sx_section := SectionHosts\<rparr>) w
            in if encrypted
               then toast ''Key attached. Add/select a passphrase credential.''
                      (activate_credential_draft env None HostAuth
                        (on_secure (\<lambda>x. x\<lparr>sx_pending_passphrase_auth_index := Some (length (hf_auth_items d))\<rparr>) w1))
               else toast ''Key attached to host auth order.'' w1)"

definition attach_credential_to_host_password :: "'d ui_env \<Rightarrow> string \<Rightarrow> string \<Rightarrow> ('s, 'd) workspace \<Rightarrow> ('s, 'd) workspace" where
  "attach_credential_to_host_password env vault_id credential_id w0 =
     (let (ready, w) = ensure_host_draft_for_vault env vault_id w0 in
      if \<not> ready then w
      else toast ''Credential attached as password auth.''
             (on_secure (\<lambda>x. x\<lparr>sx_section := SectionHosts\<rparr>) (add_auth_password credential_id w)))"

text \<open>The selected entry if it is a key, or else the first key.\<close>

definition passphrase_target :: "host_draft_state \<Rightarrow> nat option" where
  "passphrase_target d =
     or_else (Option.bind (hf_selected_auth d) (\<lambda>i. if is_key_at i (hf_auth_items d) then Some i else None))
       (find (\<lambda>i. is_key_at i (hf_auth_items d)) [0..<length (hf_auth_items d)])"

definition attach_credential_to_host_passphrase :: "'d ui_env \<Rightarrow> string \<Rightarrow> string \<Rightarrow> ('s, 'd) workspace \<Rightarrow> ('s, 'd) workspace" where
  "attach_credential_to_host_passphrase env vault_id credential_id w0 =
     (let (ready, w) = ensure_host_draft_for_vault env vault_id w0 in
      if \<not> ready then w
      else
        case sx_host_draft (w_secure w) of
          None \<Rightarrow> w
        | Some d \<Rightarrow>
            (case passphrase_target d of
               None \<Rightarrow> toast ''Add a private key auth method first, then set passphrase.'' w
             | Some i \<Rightarrow>
                 if is_key_at i (hf_auth_items d)
                 then toast ''Credential attached as key passphrase.''
                        (on_secure (\<lambda>x. x\<lparr>sx_host_draft := Some (d\<lparr>
                            hf_auth_items := set_passphrase_at i (Some credential_id) (hf_auth_items d),
                            hf_selected_auth := Some i, hf_dirty := True\<rparr>), sx_section := SectionHosts\<rparr>) w)
                 else w))"

definition remove_auth_item :: "nat \<Rightarrow> ('s, 'd) workspace \<Rightarrow> ('s, 'd) workspace" where
  "remove_auth_item index =
     on_host_draft (\<lambda>d.
       if length (hf_auth_items d) \<le> index then d
       else
         let items = take index (hf_auth_items d) @ drop (Suc index) (hf_auth_items d) in
         d\<lparr>hf_auth_items := items,
           hf_selected_auth := Option.bind (hf_selected_auth d) (\<lambda>selected.
             if items = [] then None else Some (min selected (length items - 1))),
           hf_dirty := True\<rparr>)"

definition swap_at :: "nat \<Rightarrow> nat \<Rightarrow> 'a list \<Rightarrow> 'a list" where
  "swap_at i j xs = xs[i := xs ! j, j := xs ! i]"

definition move_auth_item :: "nat \<Rightarrow> int \<Rightarrow> ('s, 'd) workspace \<Rightarrow> ('s, 'd) workspace" where
  "move_auth_item index direction =
     on_host_draft (\<lambda>d.
       let target = (if direction < 0 then index - nat (- direction) else index + nat direction) in
       if length (hf_auth_items d) \<le> index \<or> length (hf_auth_items d) \<le> target then d
       else d\<lparr>hf_auth_items := swap_at index target (hf_auth_items d), hf_selected_auth := Some target, hf_dirty := True\<rparr>)"

definition set_auth_passphrase_credential :: "nat \<Rightarrow> string option \<Rightarrow> ('s, 'd) workspace \<Rightarrow> ('s, 'd) workspace" where
  "set_auth_passphrase_credential index credential_id =
     on_host_draft (\<lambda>d.
       if is_key_at index (hf_auth_items d)
       then d\<lparr>hf_auth_items := set_passphrase_at index credential_id (hf_auth_items d), hf_dirty := True\<rparr> else d)"

text \<open>A click on an entry of the list.\<close>

definition select_auth_item :: "nat \<Rightarrow> ('s, 'd) workspace \<Rightarrow> ('s, 'd) workspace" where
  "select_auth_item index = on_host_draft (hf_selected_auth_update (\<lambda>_. Some index))"

section \<open>Keys\<close>

definition on_private_key_created ::
  "'d ui_env \<Rightarrow> vault_scoped_key_summary \<Rightarrow> string \<Rightarrow> ('s, 'd) workspace \<Rightarrow> ('s, 'd) workspace" where
  "on_private_key_created env stored verb w0 =
     (let w1 = on_secure (\<lambda>x. x\<lparr>sx_selected_key_id := Some (item_scope_key (vk_vault_id stored) (ks_id (vk_key stored)))\<rparr>)
                 (refresh_vault_ui env w0);
          attached = (if host_draft_in (vk_vault_id stored) w1 then sx_host_draft (w_secure w1) else None);
          w2 = (case attached of
                  None \<Rightarrow> w1
                | Some d \<Rightarrow>
                    on_secure (\<lambda>x. x\<lparr>sx_host_draft := Some ((push_auth (AuthPrivateKey (ks_id (vk_key stored)) None) d)\<lparr>hf_dirty := True\<rparr>),
                       sx_section := SectionHosts\<rparr>) w1)
      in if ks_encrypted_at_rest (vk_key stored)
         then (case attached of
                 Some d \<Rightarrow>
                   toast ''Encrypted key attached. Create or select a credential for the passphrase.''
                     (activate_credential_draft env None HostAuth
                       (on_secure (\<lambda>x. x\<lparr>sx_pending_passphrase_auth_index := Some (length (hf_auth_items d))\<rparr>) w2))
               | None \<Rightarrow>
                   toast (verb @ '' encrypted key '' @ quoted (ks_label (vk_key stored))
                            @ ''. Attach it to a host and set a passphrase credential.'') w2)
         else (case attached of
                 Some _ \<Rightarrow> toast (verb @ '' key '' @ quoted (ks_label (vk_key stored)) @ '' and attached it to this host.'') w2
               | None \<Rightarrow> toast (verb @ '' key '' @ quoted (ks_label (vk_key stored)) @ ''.'') w2))"

definition generate_key_for_secure ::
  "'d ui_env \<Rightarrow> string \<Rightarrow> generate_key_algorithm \<Rightarrow> ('s, 'd) workspace \<Rightarrow> ('s, 'd) workspace" where
  "generate_key_for_secure env name_start algorithm w =
     (case host_vault_or_default env w of
        None \<Rightarrow> toast ''Unlock a vault before generating a key.'' w
      | Some vault_id \<Rightarrow>
          (case call (generate_private_key_in (ue_core env) vault_id
                  \<lparr>gk_label = name_start @ ue_suffix env, gk_algorithm = algorithm\<rparr>) w of
             (Inr stored, w1) \<Rightarrow> on_private_key_created env stored ''Generated'' w1
           | (Inl e, w1) \<Rightarrow> toast (core_error_text env e) w1))"

definition generate_ed25519_key_for_secure :: "'d ui_env \<Rightarrow> ('s, 'd) workspace \<Rightarrow> ('s, 'd) workspace" where
  "generate_ed25519_key_for_secure env = generate_key_for_secure env ''ed25519-'' GenEd25519"

definition generate_rsa_key_for_secure :: "'d ui_env \<Rightarrow> ('s, 'd) workspace \<Rightarrow> ('s, 'd) workspace" where
  "generate_rsa_key_for_secure env = generate_key_for_secure env ''rsa-'' (GenRsa 4096)"

definition import_private_key_for_secure ::
  "'d ui_env \<Rightarrow> string \<Rightarrow> import_key_request \<Rightarrow> ('s, 'd) workspace \<Rightarrow> ('s, 'd) workspace" where
  "import_private_key_for_secure env vault_id request w =
     (case call (import_private_key_in (ue_core env) vault_id request) w of
        (Inr stored, w1) \<Rightarrow> on_private_key_created env stored ''Imported'' w1
      | (Inl e, w1) \<Rightarrow> toast (core_error_text env e) w1)"

section \<open>Deleting\<close>

definition blocked_by :: "string \<Rightarrow> host_reference_summary list \<Rightarrow> confirm_dialog_state" where
  "blocked_by asset refs =
     dialog_blocked_deletion asset (map (\<lambda>r. hr_host_label r @ '' ['' @ hr_vault_name r @ '']'') refs) SectionHosts
       (case refs of [] \<Rightarrow> None | r # _ \<Rightarrow> Some (item_scope_key (hr_vault_id r) (hr_host_id r)))"

definition attempt_delete_credential :: "'d ui_env \<Rightarrow> string \<Rightarrow> ('s, 'd) workspace \<Rightarrow> ('s, 'd) workspace" where
  "attempt_delete_credential env scope_key w =
     (case split_scope_key scope_key of
        None \<Rightarrow> toast ''Credential scope is invalid.'' w
      | Some (v, c) \<Rightarrow>
          let refs = unwrap_list (host_references_for_credential v c (w_backend w)) in
          if refs \<noteq> [] then w\<lparr>w_confirm_dialog := Some (blocked_by ''credential'' refs)\<rparr>
          else
            (case call (delete_password_credential_in (ue_core env) v c) w of
               (Inr True, w1) \<Rightarrow> toast ''Credential deleted.'' (refresh_vault_ui env w1)
             | (Inr False, w1) \<Rightarrow> toast ''Credential already removed.'' w1
             | (Inl e, w1) \<Rightarrow> toast (core_error_text env e) w1))"

definition attempt_delete_private_key :: "'d ui_env \<Rightarrow> string \<Rightarrow> ('s, 'd) workspace \<Rightarrow> ('s, 'd) workspace" where
  "attempt_delete_private_key env scope_key w =
     (case split_scope_key scope_key of
        None \<Rightarrow> toast ''Key scope is invalid.'' w
      | Some (v, k) \<Rightarrow>
          let refs = unwrap_list (host_references_for_key v k (w_backend w)) in
          if refs \<noteq> [] then w\<lparr>w_confirm_dialog := Some (blocked_by ''key'' refs)\<rparr>
          else
            (case call (delete_private_key_in (ue_core env) v k) w of
               (Inr True, w1) \<Rightarrow> toast ''Key deleted.'' (refresh_vault_ui env w1)
             | (Inr False, w1) \<Rightarrow> toast ''Key already removed.'' w1
             | (Inl e, w1) \<Rightarrow> toast (core_error_text env e) w1))"

definition delete_saved_host :: "'d ui_env \<Rightarrow> string \<Rightarrow> ('s, 'd) workspace \<Rightarrow> ('s, 'd) workspace" where
  "delete_saved_host env scope_key w =
     (case split_scope_key scope_key of
        None \<Rightarrow> toast ''Saved host scope is invalid.'' w
      | Some (v, h) \<Rightarrow>
          (case call (delete_host (ue_core env) v h) w of
             (Inr True, w1) \<Rightarrow> refresh_vault_ui env (toast ''Saved host removed.'' w1)
           | (Inr False, w1) \<Rightarrow> toast ''Saved host already removed.'' w1
           | (Inl e, w1) \<Rightarrow> toast (core_error_text env e) w1))"

text \<open>Whether the tunnel has a runtime entry is in the list of runtime snapshots, outside of this model's
  workspace; so is the request to stop it, whose result is ignored.\<close>

definition delete_saved_tunnel :: "'d ui_env \<Rightarrow> bool \<Rightarrow> string \<Rightarrow> ('s, 'd) workspace \<Rightarrow> ('s, 'd) workspace" where
  "delete_saved_tunnel env was_running scope_key w =
     (case split_scope_key scope_key of
        None \<Rightarrow> toast ''Tunnel scope is invalid.'' w
      | Some (v, t) \<Rightarrow>
          (case call (delete_port_forward_in (ue_core env) v t) w of
             (Inr True, w1) \<Rightarrow>
               toast (if was_running
                      then ''Tunnel deleted from the vault. The live tunnel is stopping in the background.''
                      else ''Tunnel removed from the vault.'') (refresh_vault_ui env w1)
           | (Inr False, w1) \<Rightarrow> toast ''Tunnel already removed.'' w1
           | (Inl e, w1) \<Rightarrow> toast (core_error_text env e) w1))"

section \<open>The wizard for a new host\<close>

definition on_wizard :: "(host_wizard_state \<Rightarrow> host_wizard_state) \<Rightarrow> ('s, 'd) workspace \<Rightarrow> ('s, 'd) workspace" where
  "on_wizard f = on_secure (\<lambda>x. x\<lparr>sx_host_wizard := f (sx_host_wizard x)\<rparr>)"

fun step_message :: "host_wizard_step \<Rightarrow> string" where
  "step_message ConnectionIdentity = ''Step 1 of 3: connection identity.''"
| "step_message AuthenticationSetup = ''Step 2 of 3: authentication setup.''"
| "step_message Review = ''Step 3 of 3: review and save.''"

definition begin_new_host_wizard :: "'d ui_env \<Rightarrow> ('s, 'd) workspace \<Rightarrow> ('s, 'd) workspace" where
  "begin_new_host_wizard env w0 =
     (let w = activate_host_draft env None (open_secure_workspace SectionHosts w0) in
      if sx_host_draft (w_secure w) = None then w
      else toast ''Started New Host Wizard.''
             (on_wizard (\<lambda>h. h\<lparr>hw_open := True, hw_step := ConnectionIdentity, hw_save_and_connect_requested := False,
                 hw_message := Some (step_message ConnectionIdentity)\<rparr>) w))"

definition close_host_wizard :: "('s, 'd) workspace \<Rightarrow> ('s, 'd) workspace" where
  "close_host_wizard = on_wizard (\<lambda>h. h\<lparr>hw_open := False, hw_save_and_connect_requested := False, hw_message := None\<rparr>)"

fun wizard_next :: "host_wizard_step \<Rightarrow> host_wizard_step" where
  "wizard_next ConnectionIdentity = AuthenticationSetup"
| "wizard_next AuthenticationSetup = Review"
| "wizard_next Review = Review"

fun wizard_previous :: "host_wizard_step \<Rightarrow> host_wizard_step" where
  "wizard_previous ConnectionIdentity = ConnectionIdentity"
| "wizard_previous AuthenticationSetup = ConnectionIdentity"
| "wizard_previous Review = AuthenticationSetup"

definition host_wizard_next_step :: "('s, 'd) workspace \<Rightarrow> ('s, 'd) workspace" where
  "host_wizard_next_step =
     on_wizard (\<lambda>h. h\<lparr>hw_step := wizard_next (hw_step h), hw_message := Some (step_message (wizard_next (hw_step h)))\<rparr>)"

definition host_wizard_previous_step :: "('s, 'd) workspace \<Rightarrow> ('s, 'd) workspace" where
  "host_wizard_previous_step =
     on_wizard (\<lambda>h. h\<lparr>hw_step := wizard_previous (hw_step h), hw_message := Some (step_message (wizard_previous (hw_step h)))\<rparr>)"

definition draft_scope :: "('s, 'd) workspace \<Rightarrow> (string \<times> string) option" where
  "draft_scope w =
     Option.bind (sx_host_draft (w_secure w)) (\<lambda>d.
     Option.bind (hf_vault_id d) (\<lambda>v. map_option (Pair v) (hf_host_id d)))"

text \<open>\<open>start_connect_attempt\<close> of \<open>Ui_Connect\<close>, with the request that the backend builds.\<close>

definition connect_host :: "'d ui_env \<Rightarrow> string \<Rightarrow> string \<Rightarrow> ('s, 'd) workspace \<Rightarrow> ('s, 'd) workspace" where
  "connect_host env v h w =
     w\<lparr>w_connect := start_connect_attempt v h
         (case build_connect_request_in (ue_core env) v h (w_backend w) of
            Inl e \<Rightarrow> Inl (core_error_text env e) | Inr q \<Rightarrow> Inr (sc_label (cq_connection q)))
         (ue_started env) (w_connect w)\<rparr>"

definition host_wizard_save :: "'d ui_env \<Rightarrow> bool \<Rightarrow> ('s, 'd) workspace \<Rightarrow> ('s, 'd) workspace" where
  "host_wizard_save env save_and_connect w =
     (let w1 = save_host_draft env w in
      if \<not> save_and_connect then close_host_wizard w1
      else
        case or_else (draft_scope w1) (draft_scope w) of
          None \<Rightarrow> w1
        | Some (v, h) \<Rightarrow> (close_host_wizard (connect_host env v h w1))\<lparr>w_surface := SurfaceTerminal\<rparr>)"

section \<open>Importing keys\<close>

definition on_import :: "(key_import_modal_state \<Rightarrow> key_import_modal_state) \<Rightarrow> ('s, 'd) workspace \<Rightarrow> ('s, 'd) workspace" where
  "on_import f = on_secure (\<lambda>x. x\<lparr>sx_key_import_modal := f (sx_key_import_modal x)\<rparr>)"

abbreviation import_modal :: "('s, 'd) workspace \<Rightarrow> key_import_modal_state" where
  "import_modal w \<equiv> sx_key_import_modal (w_secure w)"

definition discover_private_key_candidates ::
  "'d ui_env \<Rightarrow> string \<Rightarrow> ('s, 'd) controller \<Rightarrow> core_error + discovered_private_key_candidate list" where
  "discover_private_key_candidates env vault_id k =
     and_then_r (discover_private_key_paths_in_dir (ue_lower env) (ue_ssh_dir env)) (\<lambda>discovered.
       discover_private_key_candidates_from_paths (ue_core env) (ue_read env) vault_id discovered k)"

definition refresh_discovered_private_keys :: "'d ui_env \<Rightarrow> ('s, 'd) workspace \<Rightarrow> ('s, 'd) workspace" where
  "refresh_discovered_private_keys env w =
     (case ki_target_vault_id (import_modal w) of
        None \<Rightarrow> on_import (ki_error_update (\<lambda>_. Some ''Choose a vault before discovery.'')) w
      | Some vault_id \<Rightarrow>
          (case discover_private_key_candidates env vault_id (w_backend w) of
             Inr candidates \<Rightarrow>
               on_import (\<lambda>m. m
                 \<lparr>ki_discover_candidates :=
                    map (\<lambda>c. \<lparr>kc_path = dk_path c, kc_label = dk_label c, kc_algorithm = dk_algorithm c,
                          kc_encrypted_at_rest = dk_encrypted_at_rest c, kc_duplicate_public_key = dk_duplicate_public_key c,
                          kc_skip_duplicate = dk_duplicate_public_key c\<rparr>) candidates,
                  ki_error := None,
                  ki_message := Some (''Discovered '' @ show_dec (length candidates) @ '' candidate key file(s).''),
                  ki_discover_loading := False\<rparr>) w
           | Inl e \<Rightarrow> on_import (\<lambda>m. m\<lparr>ki_error := Some (core_error_text env e), ki_discover_loading := False\<rparr>) w))"

definition open_key_import_modal :: "'d ui_env \<Rightarrow> key_import_tab \<Rightarrow> ('s, 'd) workspace \<Rightarrow> ('s, 'd) workspace" where
  "open_key_import_modal env tab w =
     (case host_vault_or_default env w of
        None \<Rightarrow> toast ''Unlock a vault before importing keys.'' w
      | Some vault_id \<Rightarrow>
          let w1 = on_import (\<lambda>m. m\<lparr>ki_open := True, ki_tab := tab, ki_target_vault_id := Some vault_id,
                       ki_error := None, ki_message := None\<rparr>) w
          in if tab = TabDiscover then refresh_discovered_private_keys env w1 else w1)"

definition close_key_import_modal :: "('s, 'd) workspace \<Rightarrow> ('s, 'd) workspace" where
  "close_key_import_modal = on_import (\<lambda>m. m\<lparr>ki_open := False, ki_error := None, ki_message := None\<rparr>)"

definition toggle_discovered_duplicate_policy :: "nat \<Rightarrow> ('s, 'd) workspace \<Rightarrow> ('s, 'd) workspace" where
  "toggle_discovered_duplicate_policy i =
     on_import (\<lambda>m. if i < length (ki_discover_candidates m)
       then m\<lparr>ki_discover_candidates := (ki_discover_candidates m)[i :=
              (ki_discover_candidates m ! i)\<lparr>kc_skip_duplicate := \<not> kc_skip_duplicate (ki_discover_candidates m ! i)\<rparr>]\<rparr>
       else m)"

definition select_import_tab :: "'d ui_env \<Rightarrow> key_import_tab \<Rightarrow> ('s, 'd) workspace \<Rightarrow> ('s, 'd) workspace" where
  "select_import_tab env tab w =
     (let w1 = on_import (\<lambda>m. m\<lparr>ki_tab := tab, ki_error := None\<rparr>) w
      in if tab = TabDiscover then refresh_discovered_private_keys env w1 else w1)"

text \<open>The answer of the file picker: nothing if its channel was closed, else an error, or the paths unless
  the user cancelled.\<close>

definition key_files_picked :: "(string + string list option) option \<Rightarrow> ('s, 'd) workspace \<Rightarrow> ('s, 'd) workspace" where
  "key_files_picked picked =
     on_import (\<lambda>m.
       case picked of
         None \<Rightarrow> m\<lparr>ki_error := Some ''File picker was cancelled before completion.''\<rparr>
       | Some (Inl e) \<Rightarrow> m\<lparr>ki_error := Some (''File picker unavailable ('' @ e @
             ''). On Linux without xdg-desktop-portal, use Discover or Paste.'')\<rparr>
       | Some (Inr None) \<Rightarrow> m\<lparr>ki_message := Some ''File selection cancelled.''\<rparr>
       | Some (Inr (Some paths)) \<Rightarrow>
           m\<lparr>ki_selected_paths := paths, ki_error := None, ki_message := Some ''Selected files ready to import.''\<rparr>)"

definition import_discovered_candidate :: "'d ui_env \<Rightarrow> nat \<Rightarrow> ('s, 'd) workspace \<Rightarrow> ('s, 'd) workspace" where
  "import_discovered_candidate env i w =
     (case ki_target_vault_id (import_modal w) of
        None \<Rightarrow> toast ''Choose a vault before importing keys.'' w
      | Some vault_id \<Rightarrow>
          if length (ki_discover_candidates (import_modal w)) \<le> i then w
          else
            let candidate = ki_discover_candidates (import_modal w) ! i in
            (case call (import_private_keys_from_paths (ue_core env) (ue_read env) vault_id
                    [\<lparr>ip_path = kc_path candidate, ip_label = Some (kc_label candidate), ip_skip_duplicate = kc_skip_duplicate candidate\<rparr>]) w of
               (Inr imported, w1) \<Rightarrow>
                 refresh_discovered_private_keys env
                   (case imported of
                      stored # _ \<Rightarrow> on_private_key_created env stored ''Imported'' w1
                    | [] \<Rightarrow> toast ''Skipped duplicate key.'' w1)
             | (Inl e, w1) \<Rightarrow> toast (core_error_text env e) w1))"

definition import_selected_path_keys :: "'d ui_env \<Rightarrow> ('s, 'd) workspace \<Rightarrow> ('s, 'd) workspace" where
  "import_selected_path_keys env w =
     (case ki_target_vault_id (import_modal w) of
        None \<Rightarrow> toast ''Choose a vault before importing keys.'' w
      | Some vault_id \<Rightarrow>
          let requests = map (\<lambda>p. \<lparr>ip_path = p, ip_label = None, ip_skip_duplicate = True\<rparr>) (ki_selected_paths (import_modal w)) in
          if requests = [] then toast ''Select one or more key files first.'' w
          else
            (case call (import_private_keys_from_paths (ue_core env) (ue_read env) vault_id requests) w of
               (Inr imported, w1) \<Rightarrow>
                 if imported = [] then toast ''No keys were imported (duplicates were skipped).'' w1
                 else fold (\<lambda>stored. on_private_key_created env stored ''Imported'') imported w1
             | (Inl e, w1) \<Rightarrow> toast (core_error_text env e) w1))"

definition import_pasted_key :: "'d ui_env \<Rightarrow> ('s, 'd) workspace \<Rightarrow> ('s, 'd) workspace" where
  "import_pasted_key env w =
     (let m = import_modal w in
      case ki_target_vault_id m of
        None \<Rightarrow> toast ''Choose a vault before importing keys.'' w
      | Some vault_id \<Rightarrow>
          if trim (ki_paste_private_key_pem m) = []
          then on_import (ki_error_update (\<lambda>_. Some ''Paste a private key PEM block first.'')) w
          else
            import_private_key_for_secure env vault_id
              \<lparr>ik_label = (if trim (ki_paste_label m) = [] then ''imported-'' @ ue_suffix env else trim (ki_paste_label m)),
               ik_private_key_pem = trim (ki_paste_private_key_pem m)\<rparr> w)"

definition paste_key_from_clipboard :: "'d ui_env \<Rightarrow> string option \<Rightarrow> ('s, 'd) workspace \<Rightarrow> ('s, 'd) workspace" where
  "paste_key_from_clipboard env clipboard =
     on_import (\<lambda>m.
       case clipboard of
         None \<Rightarrow> m\<lparr>ki_error := Some ''Clipboard does not contain text.''\<rparr>
       | Some contents \<Rightarrow> m\<lparr>ki_paste_private_key_pem := contents, ki_paste_label := ''imported-'' @ ue_suffix env, ki_error := None\<rparr>)"

section \<open>Keyboard\<close>

text \<open>The text of the focused field, and the state with another one.\<close>

definition secure_text_value :: "secure_input_target \<Rightarrow> secure_workspace_state \<Rightarrow> string option" where
  "secure_text_value target x =
     (case target of
        HostSearch \<Rightarrow> Some (sx_host_search x)
      | TunnelSearch \<Rightarrow> Some (sx_tunnel_search x)
      | CredentialSearch \<Rightarrow> Some (sx_credential_search x)
      | KeySearch \<Rightarrow> Some (sx_key_search x)
      | HostDraft f \<Rightarrow> map_option (\<lambda>d. case f of HostLabel \<Rightarrow> hf_label d | HostHostname \<Rightarrow> hf_hostname d | HostUsername \<Rightarrow> hf_username d
            | HostPort \<Rightarrow> hf_port d | HostNotes \<Rightarrow> hf_notes d) (sx_host_draft x)
      | CredentialDraft f \<Rightarrow> map_option (\<lambda>d. case f of CredLabel \<Rightarrow> cf_label d | CredUsernameHint \<Rightarrow> cf_username_hint d
            | CredSecret \<Rightarrow> cf_secret d) (sx_credential_draft x)
      | TunnelDraft f \<Rightarrow> map_option (\<lambda>d. case f of TunnelLabel \<Rightarrow> tn_label d
            | TunnelMode \<Rightarrow> (if tn_mode d = LocalForward then ''Local'' else ''Remote'')
            | TunnelListenAddress \<Rightarrow> tn_listen_address d | TunnelListenPort \<Rightarrow> tn_listen_port d
            | TunnelTargetAddress \<Rightarrow> tn_target_address d | TunnelTargetPort \<Rightarrow> tn_target_port d | TunnelNotes \<Rightarrow> tn_notes d) (sx_tunnel_draft x))"

fun set_host_text :: "host_draft_field \<Rightarrow> string \<Rightarrow> host_draft_state \<Rightarrow> host_draft_state" where
  "set_host_text HostLabel t d = d\<lparr>hf_label := t\<rparr>"
| "set_host_text HostHostname t d = d\<lparr>hf_hostname := t\<rparr>"
| "set_host_text HostUsername t d = d\<lparr>hf_username := t\<rparr>"
| "set_host_text HostPort t d = d\<lparr>hf_port := t\<rparr>"
| "set_host_text HostNotes t d = d\<lparr>hf_notes := t\<rparr>"

fun set_credential_text :: "credential_draft_field \<Rightarrow> string \<Rightarrow> credential_draft_state \<Rightarrow> credential_draft_state" where
  "set_credential_text CredLabel t d = d\<lparr>cf_label := t\<rparr>"
| "set_credential_text CredUsernameHint t d = d\<lparr>cf_username_hint := t\<rparr>"
| "set_credential_text CredSecret t d = d\<lparr>cf_secret := t\<rparr>"

fun set_tunnel_text :: "tunnel_draft_field \<Rightarrow> string \<Rightarrow> tunnel_draft_state \<Rightarrow> tunnel_draft_state" where
  "set_tunnel_text TunnelLabel t d = d\<lparr>tn_label := t\<rparr>"
| "set_tunnel_text TunnelMode t d = d"
| "set_tunnel_text TunnelListenAddress t d = d\<lparr>tn_listen_address := t\<rparr>"
| "set_tunnel_text TunnelListenPort t d = d\<lparr>tn_listen_port := t\<rparr>"
| "set_tunnel_text TunnelTargetAddress t d = d\<lparr>tn_target_address := t\<rparr>"
| "set_tunnel_text TunnelTargetPort t d = d\<lparr>tn_target_port := t\<rparr>"
| "set_tunnel_text TunnelNotes t d = d\<lparr>tn_notes := t\<rparr>"

text \<open>
  \<open>handle_secure_text_input\<close>: \<open>key_char\<close> is the typed character; \<open>field\<close> maps the text of the focused
  field to the text after the key and whether it changed. The mode of a tunnel is not text: \<open>l\<close> and \<open>r\<close>
  choose it.
\<close>

definition handle_secure_text_input ::
  "'d ui_env \<Rightarrow> string option \<Rightarrow> (string \<Rightarrow> string \<times> bool) \<Rightarrow> ('s, 'd) workspace \<Rightarrow> ('s, 'd) workspace" where
  "handle_secure_text_input env key_char field w =
     (let target = sx_input_target (w_secure w) in
      if target = TunnelDraft TunnelMode
      then
        (case key_char of
           None \<Rightarrow> w
         | Some ch \<Rightarrow>
             if eq_ignore_ascii_case ch ''l'' then on_tunnel_draft (\<lambda>d. d\<lparr>tn_mode := LocalForward, tn_dirty := True\<rparr>) w
             else if eq_ignore_ascii_case ch ''r'' then on_tunnel_draft (\<lambda>d. d\<lparr>tn_mode := RemoteForward, tn_dirty := True\<rparr>) w
             else w)
      else
        case secure_text_value target (w_secure w) of
          None \<Rightarrow> w
        | Some value \<Rightarrow>
            let (new, changed) = field value in
            (case target of
               HostSearch \<Rightarrow> (let w1 = on_secure (\<lambda>x. x\<lparr>sx_host_search := new\<rparr>) w
                               in if changed then recompute_secure_filtered_indices env w1 else w1)
             | TunnelSearch \<Rightarrow> on_secure (\<lambda>x. x\<lparr>sx_tunnel_search := new\<rparr>) w
             | CredentialSearch \<Rightarrow> (let w1 = on_secure (\<lambda>x. x\<lparr>sx_credential_search := new\<rparr>) w
                               in if changed then recompute_secure_filtered_indices env w1 else w1)
             | KeySearch \<Rightarrow> (let w1 = on_secure (\<lambda>x. x\<lparr>sx_key_search := new\<rparr>) w
                               in if changed then recompute_secure_filtered_indices env w1 else w1)
             | HostDraft f \<Rightarrow> on_host_draft (\<lambda>d. (set_host_text f new d)\<lparr>hf_dirty := hf_dirty d \<or> changed\<rparr>) w
             | CredentialDraft f \<Rightarrow> on_credential_draft (\<lambda>d. (set_credential_text f new d)\<lparr>cf_dirty := cf_dirty d \<or> changed\<rparr>) w
             | TunnelDraft f \<Rightarrow> on_tunnel_draft (\<lambda>d. (set_tunnel_text f new d)\<lparr>tn_dirty := tn_dirty d \<or> changed\<rparr>) w))"

definition position :: "'a \<Rightarrow> 'a list \<Rightarrow> nat" where
  "position x xs = (case find (\<lambda>i. xs ! i = x) [0..<length xs] of None \<Rightarrow> 0 | Some i \<Rightarrow> i)"

text \<open>The field after or before another one, around the list.\<close>

definition cycled :: "bool \<Rightarrow> 'a list \<Rightarrow> 'a \<Rightarrow> 'a" where
  "cycled backward all f =
     all ! ((if backward then position f all + length all - 1 else position f all + 1) mod length all)"

definition host_fields :: "host_draft_field list" where
  "host_fields = [HostLabel, HostHostname, HostUsername, HostPort, HostNotes]"

definition tunnel_fields :: "tunnel_draft_field list" where
  "tunnel_fields = [TunnelLabel, TunnelMode, TunnelListenAddress, TunnelListenPort, TunnelTargetAddress, TunnelTargetPort, TunnelNotes]"

definition credential_fields :: "credential_draft_field list" where
  "credential_fields = [CredLabel, CredUsernameHint, CredSecret]"

definition cycle_secure_focus :: "bool \<Rightarrow> secure_workspace_state \<Rightarrow> secure_workspace_state" where
  "cycle_secure_focus backward x =
     (case sx_section x of
        SectionHosts \<Rightarrow>
          (case sx_host_draft x of
             None \<Rightarrow> x | Some d \<Rightarrow> focus_secure_input_target (HostDraft (cycled backward host_fields (hf_selected_field d))) x)
      | SectionCredentials \<Rightarrow>
          (case sx_credential_draft x of
             None \<Rightarrow> x | Some d \<Rightarrow> focus_secure_input_target (CredentialDraft (cycled backward credential_fields (cf_selected_field d))) x)
      | SectionTunnels \<Rightarrow>
          (case sx_tunnel_draft x of
             None \<Rightarrow> x | Some d \<Rightarrow> focus_secure_input_target (TunnelDraft (cycled backward tunnel_fields (tn_selected_field d))) x)
      | SectionKeys \<Rightarrow> focus_secure_input_target KeySearch x)"

definition save_open_draft :: "'d ui_env \<Rightarrow> ('s, 'd) workspace \<Rightarrow> ('s, 'd) workspace" where
  "save_open_draft env w =
     (if sx_host_draft (w_secure w) \<noteq> None then save_host_draft env w
      else if sx_tunnel_draft (w_secure w) \<noteq> None then save_tunnel_draft env w
      else if sx_credential_draft (w_secure w) \<noteq> None then save_credential_draft env w
      else w)"

record secure_key =
  sv_key :: string
  sv_primary :: bool
  sv_shift :: bool
  sv_char :: "string option"
  sv_field :: "string \<Rightarrow> string \<times> bool"

definition handle_secure_key :: "'d ui_env \<Rightarrow> secure_key \<Rightarrow> ('s, 'd) workspace \<Rightarrow> ('s, 'd) workspace" where
  "handle_secure_key env event w =
     (if ki_open (import_modal w)
      then
        (if sv_key event = ''escape'' then close_key_import_modal w
         else if sv_key event = ''enter'' then
           (case ki_tab (import_modal w) of
              TabDiscover \<Rightarrow> w | TabFiles \<Rightarrow> import_selected_path_keys env w | TabPaste \<Rightarrow> import_pasted_key env w)
         else w)
      else if sv_primary event \<and> sv_key event = ''s'' then save_open_draft env w
      else if sv_key event = ''escape'' then close_secure_workspace env w
      else if sv_key event = ''tab'' then on_secure (cycle_secure_focus (sv_shift event)) w
      else if sv_key event = ''enter'' then save_open_draft env w
      else handle_secure_text_input env (sv_char event) (sv_field event) w)"

section \<open>The workspace as a machine\<close>

text \<open>The user's actions, snapshots that arrive, and changes of the shared controller by other windows.
  A click on an authentication method is possible only where one is shown; a click on a text field, which
  focuses it, is possible anywhere in this model.\<close>

datatype ('s, 'd) secure_op =
    OpenSecure secure_section
  | Pending pending_action
  | ConfirmDialog
  | CancelDialog
  | AddTunnel
  | QuickCredential
  | AddHost
  | HostTunnelSettings string
  | NewCredential
  | EditCredential string
  | NewHostWizard
  | CloseWizard
  | WizardNext
  | WizardPrevious
  | WizardSave bool
  | SaveHost
  | SaveTunnel
  | SaveCredential
  | AddAuthPassword string
  | AddAuthKey string
  | AttachKey string string bool
  | AttachPassword string string
  | AttachPassphrase string string
  | RemoveAuth nat
  | MoveAuth nat int
  | SetPassphrase nat "string option"
  | SelectAuth nat
  | GenerateKey bool
  | DeleteCredential string
  | DeleteKey string
  | DeleteHost string
  | OpenImport key_import_tab
  | CloseImport
  | ToggleDuplicate nat
  | ImportCandidate nat
  | PasteKey "string option"
  | SelectImportTab key_import_tab
  | KeyFilesPicked "(string + string list option) option"
  | DeleteTunnel bool string
  | FocusInput secure_input_target
  | SelectDirection port_forward_mode
  | SelectKey string
  | RevealCredential
  | PressKey secure_key
  | SnapshotArrives vault_ui_snapshot
  | OtherWindow "('s, 'd) controller"

fun secure_step :: "'d ui_env \<Rightarrow> ('s, 'd) secure_op \<Rightarrow> ('s, 'd) workspace \<Rightarrow> ('s, 'd) workspace" where
  "secure_step env (OpenSecure section) w = open_secure_workspace section w"
| "secure_step env (Pending p) w = request_pending_action env p w"
| "secure_step env ConfirmDialog w = confirm_dialog_primary env w"
| "secure_step env CancelDialog w = cancel_confirm_dialog w"
| "secure_step env AddTunnel w = begin_add_tunnel env w"
| "secure_step env QuickCredential w = open_quick_create_credential env w"
| "secure_step env AddHost w = begin_add_host env w"
| "secure_step env (HostTunnelSettings key) w = activate_host_draft env (Some key) w"
| "secure_step env NewCredential w = activate_credential_draft env None Standalone (open_secure_workspace SectionCredentials w)"
| "secure_step env (EditCredential key) w =
     activate_credential_draft env (Some key) Standalone (open_secure_workspace SectionCredentials w)"
| "secure_step env NewHostWizard w = begin_new_host_wizard env w"
| "secure_step env CloseWizard w = close_host_wizard w"
| "secure_step env WizardNext w = host_wizard_next_step w"
| "secure_step env WizardPrevious w = host_wizard_previous_step w"
| "secure_step env (WizardSave c) w = host_wizard_save env c w"
| "secure_step env SaveHost w = save_host_draft env w"
| "secure_step env SaveTunnel w = save_tunnel_draft env w"
| "secure_step env SaveCredential w = save_credential_draft env w"
| "secure_step env (AddAuthPassword c) w = add_auth_password c w"
| "secure_step env (AddAuthKey k) w = add_auth_key k w"
| "secure_step env (AttachKey v k e) w = attach_key_to_host env v k e w"
| "secure_step env (AttachPassword v c) w = attach_credential_to_host_password env v c w"
| "secure_step env (AttachPassphrase v c) w = attach_credential_to_host_passphrase env v c w"
| "secure_step env (RemoveAuth i) w = remove_auth_item i w"
| "secure_step env (MoveAuth i n) w = move_auth_item i n w"
| "secure_step env (SetPassphrase i c) w = set_auth_passphrase_credential i c w"
| "secure_step env (SelectAuth i) w =
     (case sx_host_draft (w_secure w) of
        None \<Rightarrow> w | Some d \<Rightarrow> if i < length (hf_auth_items d) then select_auth_item i w else w)"
| "secure_step env (GenerateKey rsa) w = (if rsa then generate_rsa_key_for_secure env w else generate_ed25519_key_for_secure env w)"
| "secure_step env (DeleteCredential key) w = attempt_delete_credential env key w"
| "secure_step env (DeleteKey key) w = attempt_delete_private_key env key w"
| "secure_step env (DeleteHost key) w = delete_saved_host env key w"
| "secure_step env (OpenImport tab) w = open_key_import_modal env tab w"
| "secure_step env CloseImport w = close_key_import_modal w"
| "secure_step env (ToggleDuplicate i) w = toggle_discovered_duplicate_policy i w"
| "secure_step env (ImportCandidate i) w = import_discovered_candidate env i w"
| "secure_step env (PasteKey c) w = paste_key_from_clipboard env c w"
| "secure_step env (SelectImportTab tab) w = select_import_tab env tab w"
| "secure_step env (KeyFilesPicked picked) w = key_files_picked picked w"
| "secure_step env (DeleteTunnel was_running key) w = delete_saved_tunnel env was_running key w"
| "secure_step env (FocusInput target) w = on_secure (focus_secure_input_target target) w"
| "secure_step env (SelectDirection mode) w = on_tunnel_draft (\<lambda>d. d\<lparr>tn_mode := mode, tn_dirty := True\<rparr>) w"
| "secure_step env (SelectKey key) w =
     on_secure (\<lambda>x. focus_secure_input_target KeySearch (x\<lparr>sx_selected_key_id := Some key\<rparr>)) w"
| "secure_step env RevealCredential w = on_credential_draft (\<lambda>d. d\<lparr>cf_reveal_secret := \<not> cf_reveal_secret d\<rparr>) w"
| "secure_step env (PressKey e) w = handle_secure_key env e w"
| "secure_step env (SnapshotArrives snapshot) w = apply_vault_snapshot env snapshot w"
| "secure_step env (OtherWindow k) w = w\<lparr>w_backend := k\<rparr>"

text \<open>A text field that reports no change has not changed its text.\<close>

fun honest :: "('s, 'd) secure_op \<Rightarrow> bool" where
  "honest (PressKey e) \<longleftrightarrow> (\<forall>t. \<not> snd (sv_field e t) \<longrightarrow> fst (sv_field e t) = t)"
| "honest _ \<longleftrightarrow> True"

end
