(* ===== verification/Ui_Unsaved.thy ===== *)
theory Ui_Unsaved
  imports Ui_Secure Machines
begin

text \<open>
  What the secure workspace guarantees over any sequence of actions: the drafts and search results stay
  consistent, and unsaved edits are dropped only where this theory says so. The actions are the machine
  of \<open>Ui_Secure\<close>.
\<close>

section \<open>The invariant of the drafts\<close>

definition drafts_ok :: "secure_workspace_state \<Rightarrow> bool" where
  "drafts_ok x \<longleftrightarrow>
     (\<forall>d. sx_host_draft x = Some d \<longrightarrow>
        hf_vault_id d \<noteq> None \<and> (\<forall>i. hf_selected_auth d = Some i \<longrightarrow> i < length (hf_auth_items d)))
     \<and> (\<forall>d. sx_tunnel_draft x = Some d \<longrightarrow>
        tn_vault_id d \<noteq> None \<and> tn_host_id d \<noteq> None \<and> sx_host_draft x = None \<and> sx_credential_draft x = None)
     \<and> (\<forall>d. sx_credential_draft x = Some d \<longrightarrow> cf_vault_id d \<noteq> None)"

definition secure_ok :: "'d ui_env \<Rightarrow> ('s, 'd) workspace \<Rightarrow> bool" where
  "secure_ok env w \<longleftrightarrow> search_fresh env w \<and> drafts_ok (w_secure w)"

lemma secure_ok_sel [simp]:
  "secure_ok env (toast m w) = secure_ok env w"
  "secure_ok env (w\<lparr>w_confirm_dialog := dg\<rparr>) = secure_ok env w"
  "secure_ok env (w\<lparr>w_surface := sf\<rparr>) = secure_ok env w"
  "secure_ok env (w\<lparr>w_backend := k\<rparr>) = secure_ok env w"
  "secure_ok env (w\<lparr>w_vault_modal := vm\<rparr>) = secure_ok env w"
  "secure_ok env (w\<lparr>w_connect := c\<rparr>) = secure_ok env w"
  by (simp_all add: secure_ok_def search_fresh_def)

lemma secure_ok_on_secure:
  assumes "secure_ok env w" "queries (f (w_secure w)) = queries (w_secure w)" "drafts_ok (f (w_secure w))"
  shows "secure_ok env (on_secure f w)"
  using assms by (simp add: secure_ok_def)

lemma secure_ok_call: "call m w = (r, w') \<Longrightarrow> secure_ok env w' = secure_ok env w \<and> w_secure w' = w_secure w"
  by (auto simp: call_def split: prod.splits)

lemma refresh_secure [simp]:
  "w_secure (refresh_vault_cache env w) = w_secure w" "w_secure (refresh_saved_hosts env w) = w_secure w"
  "search_fresh env (refresh_vault_cache env w)" "search_fresh env (refresh_saved_hosts env w)"
  by (simp_all add: refresh_vault_cache_def refresh_saved_hosts_def refresh_managed_vaults_def Let_def)

lemma secure_ok_refresh [simp]:
  "drafts_ok (w_secure w) \<Longrightarrow> secure_ok env (refresh_vault_cache env w)"
  "drafts_ok (w_secure w) \<Longrightarrow> secure_ok env (refresh_saved_hosts env w)"
  by (simp_all add: secure_ok_def)

lemma focus_kept [simp]:
  "drafts_ok (focus_secure_input_target t x) = drafts_ok x" "queries (focus_secure_input_target t x) = queries x"
  by (auto simp: focus_secure_input_target_def drafts_ok_def queries_def Let_def split: secure_input_target.split)

lemma fit_host_kept:
  assumes "fit_host w d = Some d'"
  shows "hf_vault_id d' = hf_vault_id d" "hf_selected_auth d' = hf_selected_auth d" "hf_auth_items d' = hf_auth_items d"
  using fit_Some [OF assms [unfolded fit_host_def]] by (auto simp: host_copy_def)

lemma fit_tunnel_kept:
  assumes "fit_tunnel w d = Some d'"
  shows "tn_vault_id d' = tn_vault_id d" "tn_host_id d' = tn_host_id d"
  using fit_Some [OF assms [unfolded fit_tunnel_def]] by (auto simp: tunnel_copy_def)

lemma fit_credential_kept: "fit_credential w d = Some d' \<Longrightarrow> cf_vault_id d' = cf_vault_id d"
  using fit_Some [of w "cf_vault_id d" "cf_credential_id d" "saved_credential_exists w" d "credential_copy d"]
  by (auto simp: fit_credential_def credential_copy_def)

lemma secure_ok_snapshot:
  assumes "drafts_ok (w_secure w)"
  shows "secure_ok env (apply_vault_snapshot env snapshot w)"
proof -
  have "drafts_ok (w_secure (apply_vault_snapshot env snapshot w))"
    using assms unfolding drafts_ok_def apply_vault_snapshot_secure(2-4)
    by (auto simp: bind_eq_Some_conv dest: fit_host_kept fit_tunnel_kept fit_credential_kept)
       (simp_all add: fit_host_kept fit_tunnel_kept fit_credential_kept)
  then show ?thesis by (simp add: secure_ok_def)
qed

lemma secure_ok_refresh_ui [simp]: "drafts_ok (w_secure w) \<Longrightarrow> secure_ok env (refresh_vault_ui env w)"
  by (simp add: refresh_vault_ui_def secure_ok_snapshot)

lemma show_drafts_ok:
  "drafts_ok (w_secure w) \<Longrightarrow> d = None \<or> (\<exists>d'. d = Some d' \<and> hf_vault_id d' \<noteq> None \<and> hf_selected_auth d' = None)
     \<Longrightarrow> drafts_ok (w_secure (show_host_draft d w))"
  "drafts_ok (w_secure w) \<Longrightarrow> c = None \<or> (\<exists>c'. c = Some c' \<and> cf_vault_id c' \<noteq> None) \<Longrightarrow> drafts_ok (w_secure (show_credential_draft c w))"
  "drafts_ok (w_secure w) \<Longrightarrow> sx_host_draft (w_secure w) = None \<Longrightarrow> sx_credential_draft (w_secure w) = None \<Longrightarrow>
     t = None \<or> (\<exists>t'. t = Some t' \<and> tn_vault_id t' \<noteq> None \<and> tn_host_id t' \<noteq> None) \<Longrightarrow> drafts_ok (w_secure (show_tunnel_draft t w))"
  by (auto simp: show_host_draft_def show_credential_draft_def show_tunnel_draft_def Let_def drafts_ok_def focus_secure_input_target_def)

lemma drafts_ok_updates [simp]:
  "drafts_ok (x\<lparr>sx_section := a\<rparr>) = drafts_ok x" "drafts_ok (x\<lparr>sx_selected_host_id := b\<rparr>) = drafts_ok x"
  "drafts_ok (x\<lparr>sx_selected_credential_id := b\<rparr>) = drafts_ok x" "drafts_ok (x\<lparr>sx_selected_tunnel_id := b\<rparr>) = drafts_ok x"
  "drafts_ok (x\<lparr>sx_selected_key_id := b\<rparr>) = drafts_ok x" "drafts_ok (x\<lparr>sx_host_wizard := h\<rparr>) = drafts_ok x"
  "drafts_ok (x\<lparr>sx_key_import_modal := k\<rparr>) = drafts_ok x" "drafts_ok (x\<lparr>sx_pending_passphrase_auth_index := n\<rparr>) = drafts_ok x"
  "drafts_ok (x\<lparr>sx_message := m\<rparr>) = drafts_ok x" "drafts_ok (x\<lparr>sx_input_target := t\<rparr>) = drafts_ok x"
  "drafts_ok (x\<lparr>sx_host_search := q\<rparr>) = drafts_ok x" "drafts_ok (x\<lparr>sx_tunnel_search := q\<rparr>) = drafts_ok x"
  "drafts_ok (x\<lparr>sx_credential_search := q\<rparr>) = drafts_ok x" "drafts_ok (x\<lparr>sx_key_search := q\<rparr>) = drafts_ok x"
  by (simp_all add: drafts_ok_def)

lemma queries_updates [simp]:
  "queries (x\<lparr>sx_section := a\<rparr>) = queries x" "queries (x\<lparr>sx_selected_host_id := b\<rparr>) = queries x"
  "queries (x\<lparr>sx_selected_credential_id := b\<rparr>) = queries x" "queries (x\<lparr>sx_selected_tunnel_id := b\<rparr>) = queries x"
  "queries (x\<lparr>sx_selected_key_id := b\<rparr>) = queries x" "queries (x\<lparr>sx_host_wizard := h\<rparr>) = queries x"
  "queries (x\<lparr>sx_key_import_modal := k\<rparr>) = queries x" "queries (x\<lparr>sx_pending_passphrase_auth_index := n\<rparr>) = queries x"
  "queries (x\<lparr>sx_message := m\<rparr>) = queries x" "queries (x\<lparr>sx_input_target := t\<rparr>) = queries x"
  "queries (x\<lparr>sx_tunnel_search := q\<rparr>) = queries x" "queries (x\<lparr>sx_host_draft := ho\<rparr>) = queries x"
  "queries (x\<lparr>sx_tunnel_draft := tu\<rparr>) = queries x" "queries (x\<lparr>sx_credential_draft := cr\<rparr>) = queries x"
  by (simp_all add: queries_def)

lemma search_fresh_dialog [simp]: "search_fresh env (w\<lparr>w_confirm_dialog := dg\<rparr>) = search_fresh env w"
  by (simp add: search_fresh_def)

lemma show_search [simp]:
  "search_fresh env (show_host_draft d w) = search_fresh env w"
  "search_fresh env (show_credential_draft c w) = search_fresh env w"
  "search_fresh env (show_tunnel_draft t w) = search_fresh env w"
  by (simp_all add: show_host_draft_def show_credential_draft_def show_tunnel_draft_def Let_def)

text \<open>Closing drafts, and changing the open ones without their vault.\<close>

lemma drafts_ok_closed [simp]:
  "drafts_ok x \<Longrightarrow> drafts_ok (x\<lparr>sx_host_draft := None, sx_credential_draft := None\<rparr>)"
  "drafts_ok x \<Longrightarrow> drafts_ok (x\<lparr>sx_host_draft := None, sx_tunnel_draft := None, sx_credential_draft := None\<rparr>)"
  "drafts_ok x \<Longrightarrow> drafts_ok (x\<lparr>sx_credential_draft := None\<rparr>)"
  by (auto simp: drafts_ok_def)

definition host_edit_ok :: "(host_draft_state \<Rightarrow> host_draft_state) \<Rightarrow> bool" where
  "host_edit_ok f \<longleftrightarrow>
     (\<forall>d. hf_vault_id d \<noteq> None \<longrightarrow> (\<forall>i. hf_selected_auth d = Some i \<longrightarrow> i < length (hf_auth_items d)) \<longrightarrow>
        hf_vault_id (f d) \<noteq> None \<and> (\<forall>i. hf_selected_auth (f d) = Some i \<longrightarrow> i < length (hf_auth_items (f d))))"

lemma secure_ok_host_edit: "secure_ok env w \<Longrightarrow> host_edit_ok f \<Longrightarrow> secure_ok env (on_host_draft f w)"
  unfolding on_host_draft_def by (rule secure_ok_on_secure) (auto simp: secure_ok_def drafts_ok_def host_edit_ok_def)

lemma secure_ok_tunnel_edit:
  "secure_ok env w \<Longrightarrow> (\<And>d. tn_vault_id d \<noteq> None \<Longrightarrow> tn_host_id d \<noteq> None \<Longrightarrow> tn_vault_id (f d) \<noteq> None \<and> tn_host_id (f d) \<noteq> None) \<Longrightarrow>
   secure_ok env (on_tunnel_draft f w)"
  unfolding on_tunnel_draft_def by (rule secure_ok_on_secure) (auto simp: secure_ok_def drafts_ok_def)

lemma secure_ok_credential_edit:
  "secure_ok env w \<Longrightarrow> (\<And>d. cf_vault_id d \<noteq> None \<Longrightarrow> cf_vault_id (f d) \<noteq> None) \<Longrightarrow> secure_ok env (on_credential_draft f w)"
  unfolding on_credential_draft_def by (rule secure_ok_on_secure) (auto simp: secure_ok_def drafts_ok_def)

section \<open>Preservation\<close>

lemma ok_drafts: "secure_ok env w \<Longrightarrow> drafts_ok (w_secure w)"
  by (simp add: secure_ok_def)

lemma secure_ok_plain:
  "secure_ok env w \<Longrightarrow> (\<And>x. queries (f x) = queries x) \<Longrightarrow> (\<And>x. drafts_ok x \<Longrightarrow> drafts_ok (f x)) \<Longrightarrow> secure_ok env (on_secure f w)"
  by (rule secure_ok_on_secure) (auto simp: secure_ok_def)

lemma secure_ok_show:
  "secure_ok env w \<Longrightarrow> d = None \<or> (\<exists>d'. d = Some d' \<and> hf_vault_id d' \<noteq> None \<and> hf_selected_auth d' = None)
     \<Longrightarrow> secure_ok env (show_host_draft d w)"
  "secure_ok env w \<Longrightarrow> c = None \<or> (\<exists>c'. c = Some c' \<and> cf_vault_id c' \<noteq> None) \<Longrightarrow> secure_ok env (show_credential_draft c w)"
  "secure_ok env w \<Longrightarrow> sx_host_draft (w_secure w) = None \<Longrightarrow> sx_credential_draft (w_secure w) = None \<Longrightarrow>
     t = None \<or> (\<exists>t'. t = Some t' \<and> tn_vault_id t' \<noteq> None \<and> tn_host_id t' \<noteq> None) \<Longrightarrow> secure_ok env (show_tunnel_draft t w)"
  by (simp_all add: secure_ok_def show_drafts_ok)

lemma secure_ok_open [simp]: "secure_ok env w \<Longrightarrow> secure_ok env (open_secure_workspace s w)"
  unfolding open_secure_workspace_def by (rule secure_ok_plain) auto

lemma secure_ok_selected [simp]:
  "secure_ok env (on_secure (\<lambda>x. x\<lparr>sx_selected_host_id := k\<rparr>) w) = secure_ok env w"
  "secure_ok env (on_secure (\<lambda>x. x\<lparr>sx_selected_tunnel_id := k\<rparr>) w) = secure_ok env w"
  "secure_ok env (on_secure (\<lambda>x. x\<lparr>sx_selected_credential_id := k\<rparr>) w) = secure_ok env w"
  "secure_ok env (on_secure (\<lambda>x. x\<lparr>sx_selected_key_id := k\<rparr>) w) = secure_ok env w"
  "secure_ok env (on_secure (\<lambda>x. x\<lparr>sx_pending_passphrase_auth_index := n\<rparr>) w) = secure_ok env w"
  "secure_ok env (on_secure (\<lambda>x. x\<lparr>sx_section := s\<rparr>) w) = secure_ok env w"
  by (simp_all add: secure_ok_def)

lemma from_record_ok [simp]:
  "hf_selected_auth (host_draft_from_host h) = None" "hf_selected_auth host_draft_blank = None"
  "tn_host_id (tunnel_draft_from_port_forward p) \<noteq> None"
  by (simp_all add: host_draft_from_host_def host_draft_blank_def tunnel_draft_from_port_forward_def)

lemma secure_ok_activate_host:
  assumes "secure_ok env w"
  shows "secure_ok env (activate_host_draft env i w)"
  using ok_drafts [OF assms]
  by (auto simp: activate_host_draft_def Let_def intro!: secure_ok_show split: option.split sum.split)

lemma secure_ok_activate_credential:
  assumes "secure_ok env w"
  shows "secure_ok env (activate_credential_draft env i origin w)"
  using ok_drafts [OF assms]
  by (auto simp: activate_credential_draft_def Let_def intro!: secure_ok_show split: option.split sum.split)

lemma secure_ok_activate_tunnel:
  assumes "secure_ok env w"
  shows "secure_ok env (activate_tunnel_draft env i key w)"
proof -
  define v where "v = on_secure (\<lambda>x. x\<lparr>sx_host_draft := None, sx_credential_draft := None\<rparr>) (refresh_vault_cache env
      (refresh_saved_hosts env (on_secure (\<lambda>x. x\<lparr>sx_section := SectionTunnels\<rparr>) (w\<lparr>w_surface := SurfaceSecure\<rparr>))))"
  have v: "secure_ok env v" "sx_host_draft (w_secure v) = None" "sx_credential_draft (w_secure v) = None"
    using ok_drafts [OF assms] by (simp_all add: v_def secure_ok_on_secure)
  show ?thesis
    unfolding activate_tunnel_draft_def Let_def v_def [symmetric]
    by (auto simp: v intro!: secure_ok_show split: option.split sum.split)
qed

lemma drafts_ok_none: "sx_host_draft x = None \<Longrightarrow> sx_tunnel_draft x = None \<Longrightarrow> sx_credential_draft x = None \<Longrightarrow> drafts_ok x"
  by (simp add: drafts_ok_def)

lemma secure_ok_pending:
  assumes "secure_ok env w"
  shows "secure_ok env (apply_pending_action env p w)"
proof (cases p)
  case CloseSecureWorkspace
  then show ?thesis
    using assms by (simp add: apply_pending_action_def secure_ok_on_secure drafts_ok_none)
next
  case (SwitchSecureSection s)
  then show ?thesis
    using assms by (simp add: apply_pending_action_def secure_ok_on_secure drafts_ok_none)
qed (use assms in \<open>simp_all add: apply_pending_action_def Let_def secure_ok_activate_host secure_ok_activate_credential secure_ok_activate_tunnel\<close>)

lemma secure_ok_request: "secure_ok env w \<Longrightarrow> secure_ok env (request_pending_action env p w)"
  by (simp add: request_pending_action_def secure_ok_pending)

lemma secure_ok_refresh_toast [simp]: "drafts_ok (w_secure w) \<Longrightarrow> secure_ok env (refresh_vault_ui env (toast m w))"
  by simp

lemma secure_ok_delete_vault:
  assumes "secure_ok env w"
  shows "secure_ok env (delete_managed_vault env i w)"
proof (cases "call (delete_vault_permanently (ue_core env) i) w")
  case (Pair r w')
  with assms secure_ok_call [OF Pair, of env] ok_drafts [OF assms] show ?thesis by (cases r) (simp_all add: delete_managed_vault_def)
qed

lemma secure_ok_confirm:
  assumes "secure_ok env w"
  shows "secure_ok env (confirm_dialog_primary env w)"
proof (cases "w_confirm_dialog w")
  case (Some dg)
  then show ?thesis
    using assms by (cases "dg_kind dg")
      (simp_all add: confirm_dialog_primary_def secure_ok_pending secure_ok_delete_vault secure_ok_activate_host Let_def split: option.split)
qed (simp add: confirm_dialog_primary_def assms)

lemma host_edits_ok [simp]:
  "host_edit_ok (hf_error_update (\<lambda>_. e))"
  "host_edit_ok (\<lambda>d. d\<lparr>hf_vault_id := Some v, hf_host_id := h, hf_dirty := b, hf_error := e\<rparr>)"
  "host_edit_ok (\<lambda>d. (push_auth a d)\<lparr>hf_dirty := True, hf_error := e\<rparr>)"
  "host_edit_ok (\<lambda>d. (push_auth a d)\<lparr>hf_dirty := True\<rparr>)"
  "host_edit_ok (\<lambda>d. (set_host_text f t d)\<lparr>hf_dirty := hf_dirty d \<or> c\<rparr>)"
  by (simp_all add: host_edit_ok_def push_auth_def) (cases f; simp)

lemma length_set_passphrase [simp]: "length (set_passphrase_at i p items) = length items"
  by (simp add: set_passphrase_at_def)

lemma is_key_at_range: "is_key_at i items \<Longrightarrow> i < length items"
  by (simp add: is_key_at_def)

lemma host_edits_ok_items [simp]:
  "host_edit_ok (attach_created c pending)"
  "host_edit_ok (\<lambda>d. if is_key_at i (hf_auth_items d)
     then d\<lparr>hf_auth_items := set_passphrase_at i p (hf_auth_items d), hf_dirty := True\<rparr> else d)"
  by (auto simp: host_edit_ok_def attach_created_def push_auth_def dest: is_key_at_range split: option.split)

lemma secure_ok_save_host:
  assumes "secure_ok env w"
  shows "secure_ok env (save_host_draft env w)"
proof (cases "sx_host_draft (w_secure w)")
  case (Some d)
  show ?thesis
  proof (cases "hf_vault_id d")
    case None
    with Some assms show ?thesis by (simp add: save_host_draft_def secure_ok_host_edit)
  next
    case v: (Some v)
    obtain r w1 where c: "call (save_host (ue_core env) v (host_of_draft d)) w = (r, w1)" by fastforce
    note c1 = secure_ok_call [OF c, of env]
    show ?thesis
      using assms c1 ok_drafts [OF assms] Some v c
      by (cases r) (auto simp: save_host_draft_def intro!: secure_ok_host_edit)
  qed
qed (simp add: save_host_draft_def assms)

lemma secure_ok_save_tunnel:
  assumes "secure_ok env w"
  shows "secure_ok env (save_tunnel_draft env w)"
proof (cases "sx_tunnel_draft (w_secure w)")
  case (Some d)
  then obtain v h where v: "tn_vault_id d = Some v" "tn_host_id d = Some h"
    using ok_drafts [OF assms] by (auto simp: drafts_ok_def)
  obtain r w1 where c: "call (save_port_forward (ue_core env) v (forward_of_draft h d)) w = (r, w1)" by fastforce
  note c1 = secure_ok_call [OF c, of env]
  show ?thesis
    using assms c1 ok_drafts [OF assms] Some v c
    by (cases r) (auto simp: save_tunnel_draft_def intro!: secure_ok_tunnel_edit)
qed (simp add: save_tunnel_draft_def assms)

lemma focus_host_form_kept [simp]: "drafts_ok (focus_host_form x) = drafts_ok x" "queries (focus_host_form x) = queries x"
  by (simp_all add: focus_host_form_def)

lemma drafts_ok_host_edit:
  "drafts_ok x \<Longrightarrow> sx_host_draft x = Some d \<Longrightarrow> host_edit_ok f \<Longrightarrow> drafts_ok (x\<lparr>sx_host_draft := Some (f d)\<rparr>)"
  by (auto simp: drafts_ok_def host_edit_ok_def)

lemma secure_ok_created:
  assumes "secure_ok env w"
  shows "secure_ok env (created_for_host s w)"
proof -
  define w1 where "w1 = on_secure (\<lambda>x. x\<lparr>sx_credential_draft := None, sx_section := SectionHosts\<rparr>) w"
  have w1: "secure_ok env w1" using ok_drafts [OF assms] assms by (simp add: w1_def secure_ok_on_secure)
  show ?thesis
  proof (cases "sx_host_draft (w_secure w1)")
    case None
    then show ?thesis by (simp add: created_for_host_def w1_def [symmetric] w1 secure_ok_on_secure ok_drafts [OF w1])
  next
    case (Some d)
    have "drafts_ok ((w_secure w1)\<lparr>sx_host_draft := Some (attach_created c q d)\<rparr>)" for c q
      by (rule drafts_ok_host_edit [OF ok_drafts [OF w1] Some]) simp
    with Some show ?thesis by (simp add: created_for_host_def w1_def [symmetric] w1 secure_ok_on_secure)
  qed
qed

lemma secure_ok_save_credential:
  assumes "secure_ok env w"
  shows "secure_ok env (save_credential_draft env w)"
proof (cases "sx_credential_draft (w_secure w)")
  case (Some d)
  then obtain v where v: "cf_vault_id d = Some v" using ok_drafts [OF assms] by (auto simp: drafts_ok_def)
  obtain r w1 where c: "call (save_password_credential (ue_core env) v (credential_of_draft d)) w = (r, w1)" by fastforce
  note c1 = secure_ok_call [OF c, of env]
  show ?thesis
    using assms c1 ok_drafts [OF assms] Some v c
    by (cases r; cases "cf_origin d") (auto simp: save_credential_draft_def Let_def intro!: secure_ok_credential_edit secure_ok_created)
qed (simp add: save_credential_draft_def assms)

lemma secure_ok_auth_edits [simp]:
  assumes "secure_ok env w"
  shows "secure_ok env (add_auth_password c w)" "secure_ok env (add_auth_key k w)"
    "secure_ok env (set_auth_passphrase_credential i p w)"
  using assms by (simp_all add: add_auth_password_def add_auth_key_def set_auth_passphrase_credential_def secure_ok_host_edit)

lemma secure_ok_remove_auth [simp]: "secure_ok env w \<Longrightarrow> secure_ok env (remove_auth_item i w)"
  unfolding remove_auth_item_def
  by (rule secure_ok_host_edit) (auto simp: host_edit_ok_def Let_def bind_eq_Some_conv min_def split: if_splits)

lemma secure_ok_move_auth [simp]: "secure_ok env w \<Longrightarrow> secure_ok env (move_auth_item i n w)"
  unfolding move_auth_item_def by (rule secure_ok_host_edit) (auto simp: host_edit_ok_def Let_def swap_at_def)

lemma secure_ok_select_auth:
  "secure_ok env w \<Longrightarrow> sx_host_draft (w_secure w) = Some d \<Longrightarrow> i < length (hf_auth_items d) \<Longrightarrow> secure_ok env (select_auth_item i w)"
  unfolding select_auth_item_def on_host_draft_def
  by (rule secure_ok_on_secure) (auto simp: secure_ok_def drafts_ok_def)

lemma secure_ok_ensure:
  "secure_ok env w \<Longrightarrow> ensure_host_draft_for_vault env v w = (b, w') \<Longrightarrow> secure_ok env w'"
  by (auto simp: ensure_host_draft_for_vault_def Let_def secure_ok_activate_host split: if_splits option.splits)

text \<open>An edit of the open host draft that also shows the hosts.\<close>

lemma secure_ok_edit_and_show:
  assumes "secure_ok env w" "sx_host_draft (w_secure w) = Some d" "host_edit_ok f"
  shows "secure_ok env (on_secure (\<lambda>x. x\<lparr>sx_host_draft := Some (f d), sx_section := s\<rparr>) w)"
  using assms(1) drafts_ok_host_edit [OF ok_drafts [OF assms(1)] assms(2,3)]
  by (simp add: secure_ok_on_secure)

lemma secure_ok_attach_key:
  assumes "secure_ok env w"
  shows "secure_ok env (attach_key_to_host env v k e w)"
proof -
  obtain b w1 where en: "ensure_host_draft_for_vault env v w = (b, w1)" by fastforce
  note w1 = secure_ok_ensure [OF assms en]
  show ?thesis
  proof (cases "sx_host_draft (w_secure w1)")
    case (Some d)
    note edit = secure_ok_edit_and_show [OF w1 Some host_edits_ok(4) [of "AuthPrivateKey k None"], of SectionHosts]
    show ?thesis using Some edit w1 by (auto simp: attach_key_to_host_def en Let_def intro!: secure_ok_activate_credential)
  qed (simp add: attach_key_to_host_def en w1)
qed

lemma secure_ok_attach_password: "secure_ok env w \<Longrightarrow> secure_ok env (attach_credential_to_host_password env v c w)"
  by (auto simp: attach_credential_to_host_password_def dest: secure_ok_ensure split: prod.split)

lemma secure_ok_attach_passphrase:
  assumes "secure_ok env w"
  shows "secure_ok env (attach_credential_to_host_passphrase env v c w)"
proof -
  obtain b w1 where en: "ensure_host_draft_for_vault env v w = (b, w1)" by fastforce
  note w1 = secure_ok_ensure [OF assms en]
  show ?thesis
  proof (cases "sx_host_draft (w_secure w1)")
    case (Some d)
    have "host_edit_ok (\<lambda>d. if is_key_at i (hf_auth_items d) then d\<lparr>hf_auth_items := set_passphrase_at i (Some c) (hf_auth_items d),
        hf_selected_auth := Some i, hf_dirty := True\<rparr> else d)" for i
      by (auto simp: host_edit_ok_def dest: is_key_at_range)
    note edit = secure_ok_edit_and_show [OF w1 Some this, where s = SectionHosts]
    have "secure_ok env (on_secure (\<lambda>x. x\<lparr>sx_host_draft := Some (d\<lparr>hf_auth_items := set_passphrase_at i (Some c) (hf_auth_items d),
        hf_selected_auth := Some i, hf_dirty := True\<rparr>), sx_section := SectionHosts\<rparr>) w1)" if "is_key_at i (hf_auth_items d)" for i
      using edit [of i] that by simp
    then show ?thesis
      using Some w1 by (auto simp: attach_credential_to_host_passphrase_def en split: option.split if_splits)
  qed (simp add: attach_credential_to_host_passphrase_def en w1)
qed

lemma secure_ok_key_created:
  assumes "drafts_ok (w_secure w)"
  shows "secure_ok env (on_private_key_created env k verb w)"
proof -
  define w1 where "w1 = on_secure (\<lambda>x. x\<lparr>sx_selected_key_id := Some (item_scope_key (vk_vault_id k) (ks_id (vk_key k)))\<rparr>) (refresh_vault_ui env w)"
  have w1: "secure_ok env w1" using assms by (simp add: w1_def)
  show ?thesis
  proof (cases "host_draft_in (vk_vault_id k) w1")
    case True
    then obtain d where d: "sx_host_draft (w_secure w1) = Some d" by (auto simp: host_draft_in_def bind_eq_Some_conv)
    note edit = secure_ok_edit_and_show [OF w1 d host_edits_ok(4) [of "AuthPrivateKey (ks_id (vk_key k)) None"], of SectionHosts]
    show ?thesis
      unfolding on_private_key_created_def w1_def [symmetric] Let_def
      using True d edit by (simp add: secure_ok_activate_credential)
  next
    case False
    then show ?thesis unfolding on_private_key_created_def w1_def [symmetric] Let_def using w1 by simp
  qed
qed

lemma secure_ok_generate: "secure_ok env w \<Longrightarrow> secure_ok env (generate_key_for_secure env p a w)"
  by (frule ok_drafts) (auto simp: generate_key_for_secure_def dest!: secure_ok_call [where env = env]
      intro!: secure_ok_key_created split: option.split prod.split sum.split)

lemma secure_ok_import_one: "secure_ok env w \<Longrightarrow> secure_ok env (import_private_key_for_secure env v q w)"
  by (frule ok_drafts) (auto simp: import_private_key_for_secure_def dest!: secure_ok_call [where env = env]
      intro!: secure_ok_key_created split: prod.split sum.split)

lemma secure_ok_deletes:
  assumes "secure_ok env w"
  shows "secure_ok env (attempt_delete_credential env key w)" "secure_ok env (attempt_delete_private_key env key w)"
    "secure_ok env (delete_saved_host env key w)" "secure_ok env (delete_saved_tunnel env running key w)"
  using assms ok_drafts [OF assms]
  by (auto simp: attempt_delete_credential_def attempt_delete_private_key_def delete_saved_host_def delete_saved_tunnel_def Let_def
      dest!: secure_ok_call [where env = env] split: option.split prod.split sum.split bool.split)

lemma secure_ok_wizard [simp]: "secure_ok env (on_wizard f w) = secure_ok env w"
  by (simp add: on_wizard_def secure_ok_def)

lemma secure_ok_import_modal [simp]: "secure_ok env (on_import f w) = secure_ok env w"
  by (simp add: on_import_def secure_ok_def)

lemma secure_ok_wizard_save: "secure_ok env w \<Longrightarrow> secure_ok env (host_wizard_save env c w)"
  by (auto simp: host_wizard_save_def Let_def close_host_wizard_def connect_host_def secure_ok_save_host split: option.split)

lemma secure_ok_discover [simp]: "secure_ok env (refresh_discovered_private_keys env w) = secure_ok env w"
  by (simp add: refresh_discovered_private_keys_def split: option.split sum.split)

lemma secure_ok_import_candidate: "secure_ok env w \<Longrightarrow> secure_ok env (import_discovered_candidate env i w)"
  by (frule ok_drafts) (auto simp: import_discovered_candidate_def Let_def dest!: secure_ok_call [where env = env]
      intro!: secure_ok_key_created split: option.split prod.split sum.split list.split)

lemma secure_ok_import_many: "secure_ok env w \<Longrightarrow> secure_ok env (fold (\<lambda>k. on_private_key_created env k verb) ks w)"
  by (induction ks arbitrary: w) (simp_all add: secure_ok_key_created ok_drafts)

lemma secure_ok_import_paths: "secure_ok env w \<Longrightarrow> secure_ok env (import_selected_path_keys env w)"
  by (auto simp: import_selected_path_keys_def Let_def dest!: secure_ok_call [where env = env]
      intro!: secure_ok_import_many split: option.split prod.split sum.split)

lemma secure_ok_import_pasted: "secure_ok env w \<Longrightarrow> secure_ok env (import_pasted_key env w)"
  by (simp add: import_pasted_key_def Let_def secure_ok_import_one split: option.split)

lemma secure_ok_open_import: "secure_ok env w \<Longrightarrow> secure_ok env (open_key_import_modal env t w)"
  by (simp add: open_key_import_modal_def Let_def split: option.split)

lemma secure_ok_import_dialog:
  "secure_ok env w \<Longrightarrow> secure_ok env (select_import_tab env t w)" "secure_ok env w \<Longrightarrow> secure_ok env (key_files_picked p w)"
  by (simp_all add: select_import_tab_def key_files_picked_def Let_def)

lemma secure_ok_clicks:
  assumes "secure_ok env w"
  shows "secure_ok env (on_secure (focus_secure_input_target t) w)"
    "secure_ok env (on_secure (\<lambda>x. focus_secure_input_target KeySearch (x\<lparr>sx_selected_key_id := k\<rparr>)) w)"
    "secure_ok env (on_tunnel_draft (\<lambda>d. d\<lparr>tn_mode := mode, tn_dirty := True\<rparr>) w)"
    "secure_ok env (on_credential_draft (\<lambda>d. d\<lparr>cf_reveal_secret := \<not> cf_reveal_secret d\<rparr>) w)"
proof -
  have "drafts_ok (x\<lparr>sx_selected_key_id := k\<rparr>) = drafts_ok x" "queries (x\<lparr>sx_selected_key_id := k\<rparr>) = queries x" for x
    by (simp_all add: drafts_ok_def queries_def)
  with assms ok_drafts [OF assms] show "secure_ok env (on_secure (focus_secure_input_target t) w)"
    "secure_ok env (on_secure (\<lambda>x. focus_secure_input_target KeySearch (x\<lparr>sx_selected_key_id := k\<rparr>)) w)"
    by (simp_all add: secure_ok_on_secure)
qed (use assms in \<open>simp_all add: secure_ok_tunnel_edit secure_ok_credential_edit\<close>)

lemma secure_ok_wizard_begin: "secure_ok env w \<Longrightarrow> secure_ok env (begin_new_host_wizard env w)"
  by (simp add: begin_new_host_wizard_def Let_def secure_ok_activate_host)

lemma secure_ok_add_host: "secure_ok env w \<Longrightarrow> secure_ok env (begin_add_host env w)"
  by (simp add: begin_add_host_def open_vault_modal_def open_vault_modal_for_def Let_def secure_ok_activate_host)

lemma search_fresh_recomputed:
  "search_fresh env w \<Longrightarrow> search_fresh env (recompute_secure_filtered_indices env (on_secure f w))"
  by (simp add: search_fresh_def recompute_secure_filtered_indices_def)

lemma recompute_secure [simp]: "w_secure (recompute_secure_filtered_indices env w) = w_secure w"
  by (simp add: recompute_secure_filtered_indices_def)

lemma secure_ok_search:
  assumes "secure_ok env w" and "\<not> changed \<Longrightarrow> queries (f (w_secure w)) = queries (w_secure w)" "drafts_ok (f (w_secure w))"
  shows "secure_ok env (if changed then recompute_secure_filtered_indices env (on_secure f w) else on_secure f w)"
  using assms by (simp add: secure_ok_def search_fresh_recomputed)

lemma secure_ok_text_input:
  assumes "secure_ok env w" and "\<And>t. \<not> snd (field t) \<Longrightarrow> fst (field t) = t"
  shows "secure_ok env (handle_secure_text_input env c field w)"
proof (cases "sx_input_target (w_secure w) = TunnelDraft TunnelMode")
  case True
  with assms(1) show ?thesis by (auto simp: handle_secure_text_input_def Let_def intro!: secure_ok_tunnel_edit split: option.split)
next
  case False
  show ?thesis
  proof (cases "secure_text_value (sx_input_target (w_secure w)) (w_secure w)")
    case None
    with False assms(1) show ?thesis by (simp add: handle_secure_text_input_def Let_def)
  next
    case (Some old)
    obtain new changed where f: "field old = (new, changed)" by fastforce
    have same: "new = old" if "\<not> changed" using assms(2) [of old] f that by simp
    have tunnel: "tn_vault_id (set_tunnel_text tf new d) = tn_vault_id d" "tn_host_id (set_tunnel_text tf new d) = tn_host_id d" for tf d
      by (cases tf; simp)+
    have credential: "cf_vault_id (set_credential_text cf new d) = cf_vault_id d" for cf d by (cases cf) simp_all
    note search = secure_ok_search [OF assms(1), of changed] and edits = secure_ok_host_edit secure_ok_tunnel_edit secure_ok_credential_edit
    show ?thesis
    proof (cases "sx_input_target (w_secure w)")
      case HostSearch
      with Some same have "\<not> changed \<Longrightarrow> new = sx_host_search (w_secure w)" by (simp add: secure_text_value_def)
      with search [of "\<lambda>x. x\<lparr>sx_host_search := new\<rparr>"] HostSearch Some f ok_drafts [OF assms(1)] show ?thesis
        by (simp add: handle_secure_text_input_def Let_def queries_def)
    next
      case CredentialSearch
      with Some same have "\<not> changed \<Longrightarrow> new = sx_credential_search (w_secure w)" by (simp add: secure_text_value_def)
      with search [of "\<lambda>x. x\<lparr>sx_credential_search := new\<rparr>"] CredentialSearch Some f ok_drafts [OF assms(1)] show ?thesis
        by (simp add: handle_secure_text_input_def Let_def queries_def)
    next
      case KeySearch
      with Some same have "\<not> changed \<Longrightarrow> new = sx_key_search (w_secure w)" by (simp add: secure_text_value_def)
      with search [of "\<lambda>x. x\<lparr>sx_key_search := new\<rparr>"] KeySearch Some f ok_drafts [OF assms(1)] show ?thesis
        by (simp add: handle_secure_text_input_def Let_def queries_def)
    next
      case TunnelSearch
      with Some f assms(1) ok_drafts [OF assms(1)] show ?thesis by (simp add: handle_secure_text_input_def secure_ok_on_secure)
    next
      case (TunnelDraft tf)
      with False have "tf \<noteq> TunnelMode" by auto
      with TunnelDraft Some f assms(1) tunnel show ?thesis by (simp add: handle_secure_text_input_def edits)
    qed (use Some f assms(1) credential in \<open>simp_all add: handle_secure_text_input_def edits\<close>)
  qed
qed

lemma cycle_kept [simp]: "drafts_ok (cycle_secure_focus b x) = drafts_ok x" "queries (cycle_secure_focus b x) = queries x"
  by (simp_all add: cycle_secure_focus_def split: secure_section.split option.split)

lemma secure_ok_save_open: "secure_ok env w \<Longrightarrow> secure_ok env (save_open_draft env w)"
  by (simp add: save_open_draft_def secure_ok_save_host secure_ok_save_tunnel secure_ok_save_credential)

lemma secure_ok_key:
  assumes "secure_ok env w" and "\<And>t. \<not> snd (sv_field e t) \<Longrightarrow> fst (sv_field e t) = t"
  shows "secure_ok env (handle_secure_key env e w)"
  using assms(1) secure_ok_text_input [OF assms] ok_drafts [OF assms(1)]
  by (simp add: handle_secure_key_def close_key_import_modal_def close_secure_workspace_def secure_ok_request secure_ok_save_open
      secure_ok_import_paths secure_ok_import_pasted secure_ok_on_secure split: key_import_tab.split)

lemmas secure_ok_ops =
  secure_ok_request secure_ok_confirm secure_ok_add_host secure_ok_activate_host secure_ok_activate_credential
  secure_ok_wizard_begin secure_ok_wizard_save secure_ok_save_host secure_ok_save_tunnel secure_ok_save_credential
  secure_ok_attach_key secure_ok_attach_password secure_ok_attach_passphrase secure_ok_generate secure_ok_deletes
  secure_ok_open_import secure_ok_import_dialog secure_ok_clicks secure_ok_import_candidate secure_ok_key secure_ok_snapshot
  ok_drafts

lemma secure_ok_step: "secure_ok env w \<Longrightarrow> honest a \<Longrightarrow> secure_ok env (secure_step env a w)"
  by (cases a)
    (simp_all add: secure_ok_ops secure_ok_select_auth cancel_confirm_dialog_def begin_add_tunnel_def open_quick_create_credential_def
      close_host_wizard_def host_wizard_next_step_def host_wizard_previous_step_def generate_rsa_key_for_secure_def
      generate_ed25519_key_for_secure_def close_key_import_modal_def toggle_discovered_duplicate_policy_def paste_key_from_clipboard_def
      split: option.split)

interpretation secure: machine "secure_step env" honest "secure_ok env"
  by unfold_locales (rule secure_ok_step)

section \<open>Unsaved edits\<close>

text \<open>The texts of a host draft, and the actions that may drop a draft without asking: the confirmation of
  a dialog, and the ones that open another form at once.\<close>

definition hf_texts :: "host_draft_state \<Rightarrow> string \<times> string \<times> string \<times> string \<times> string" where
  "hf_texts d = (hf_label d, hf_hostname d, hf_username d, hf_port d, hf_notes d)"

fun unguarded :: "('s, 'd) secure_op \<Rightarrow> bool" where
  "unguarded ConfirmDialog \<longleftrightarrow> True"
| "unguarded AddHost \<longleftrightarrow> True"
| "unguarded (HostTunnelSettings key) \<longleftrightarrow> True"
| "unguarded NewHostWizard \<longleftrightarrow> True"
| "unguarded (AttachKey v k e) \<longleftrightarrow> True"
| "unguarded (AttachPassword v c) \<longleftrightarrow> True"
| "unguarded (AttachPassphrase v c) \<longleftrightarrow> True"
| "unguarded _ \<longleftrightarrow> False"

fun hf_text :: "host_draft_field \<Rightarrow> host_draft_state \<Rightarrow> string" where
  "hf_text HostLabel d = hf_label d"
| "hf_text HostHostname d = hf_hostname d"
| "hf_text HostUsername d = hf_username d"
| "hf_text HostPort d = hf_port d"
| "hf_text HostNotes d = hf_notes d"

text \<open>The field of the host form that an action types into, with the effect of the key on its text: a key
  that is no command, while the import dialog is closed and the focus is on the field.\<close>

fun typed_into :: "('s, 'd) secure_op \<Rightarrow> ('s, 'd) workspace \<Rightarrow> (host_draft_field \<times> (string \<Rightarrow> string \<times> bool)) option" where
  "typed_into (PressKey e) w =
     (if ki_open (import_modal w) \<or> sv_primary e \<and> sv_key e = ''s'' \<or> sv_key e \<in> {''escape'', ''tab'', ''enter''} then None
      else case sx_input_target (w_secure w) of HostDraft f \<Rightarrow> Some (f, sv_field e) | _ \<Rightarrow> None)"
| "typed_into _ w = None"

text \<open>What holds of an unsaved host draft after an action that types nothing into it: it is still open, in
  the same vault, with the same texts, and unsaved unless the backend has become the one that stored its
  profile; or its vault is no longer listed as unlocked.\<close>

definition host_stored :: "'d ui_env \<Rightarrow> string \<Rightarrow> host_draft_state \<Rightarrow> ('s, 'd) workspace \<Rightarrow> ('s, 'd) workspace \<Rightarrow> bool" where
  "host_stored env v d w w' \<longleftrightarrow>
     (\<exists>stored. save_host (ue_core env) v (host_of_draft d) (w_backend w) = (Inr stored, w_backend w'))"

definition host_held :: "'d ui_env \<Rightarrow> ('s, 'd) workspace \<Rightarrow> ('s, 'd) workspace \<Rightarrow> bool" where
  "host_held env w w' \<longleftrightarrow>
     (\<forall>d v. sx_host_draft (w_secure w) = Some d \<and> hf_dirty d \<and> hf_vault_id d = Some v \<longrightarrow>
        (case sx_host_draft (w_secure w') of
           None \<Rightarrow> \<not> has_unlocked_vault v w'
         | Some d' \<Rightarrow> hf_vault_id d' = Some v \<and> hf_texts d' = hf_texts d \<and> (hf_dirty d' \<or> host_stored env v d w w')))"

lemma reconcile_backend [simp]:
  "w_backend (reconcile_host_draft_after_vault_snapshot w) = w_backend w"
  "w_backend (reconcile_tunnel_draft_after_vault_snapshot w) = w_backend w"
  "w_backend (reconcile_credential_draft_after_vault_snapshot w) = w_backend w"
  "w_backend (reconcile_saved_selection_state w) = w_backend w"
  by (simp_all add: reconcile_host_draft_after_vault_snapshot_def reconcile_tunnel_draft_after_vault_snapshot_def
      reconcile_credential_draft_after_vault_snapshot_def reconcile_saved_selection_state_def Let_def split: option.split)

lemma snapshot_backend [simp]: "w_backend (apply_vault_snapshot env s w) = w_backend w"
  by (simp add: apply_vault_snapshot_def)

lemma refresh_vault_ui_listed [simp]:
  "w_managed_vaults (refresh_vault_ui env w) = list_vaults (ue_core env) (w_backend w)"
  "w_backend (refresh_vault_ui env w) = w_backend w"
  using apply_vault_snapshot_secure(1) [of env "current_vault_ui_snapshot env w" w]
  by (simp_all add: refresh_vault_ui_def listed_def current_vault_ui_snapshot_def Let_def)

lemma refresh_cache_listed [simp]:
  "w_managed_vaults (refresh_vault_cache env w) = list_vaults (ue_core env) (w_backend w)"
  "w_backend (refresh_vault_cache env w) = w_backend w"
  by (simp_all add: refresh_vault_cache_def refresh_managed_vaults_def Let_def)

definition gentle :: "(host_draft_state \<Rightarrow> host_draft_state) \<Rightarrow> bool" where
  "gentle f \<longleftrightarrow> (\<forall>d. hf_vault_id (f d) = hf_vault_id d \<and> hf_texts (f d) = hf_texts d \<and> (hf_dirty d \<longrightarrow> hf_dirty (f d)))"

lemma host_held_same: "sx_host_draft (w_secure w') = sx_host_draft (w_secure w) \<Longrightarrow> host_held env w w'"
  by (simp add: host_held_def)

lemma host_held_secure: "w_secure w' = w_secure w \<Longrightarrow> host_held env w w'"
  by (simp add: host_held_same)

lemma host_held_gentle:
  assumes held: "host_held env w w'" and draft: "sx_host_draft (w_secure w'') = map_option f (sx_host_draft (w_secure w'))"
    and f: "gentle f" and vaults: "w_managed_vaults w'' = w_managed_vaults w'" and backend: "w_backend w'' = w_backend w'"
  shows "host_held env w w''"
  unfolding host_held_def
proof (intro allI impI)
  fix d v assume d: "sx_host_draft (w_secure w) = Some d \<and> hf_dirty d \<and> hf_vault_id d = Some v"
  note h = held [unfolded host_held_def, rule_format, OF d]
  show "case sx_host_draft (w_secure w'') of
           None \<Rightarrow> \<not> has_unlocked_vault v w''
         | Some d' \<Rightarrow> hf_vault_id d' = Some v \<and> hf_texts d' = hf_texts d \<and> (hf_dirty d' \<or> host_stored env v d w w'')"
    using h f [unfolded gentle_def, rule_format, of "the (sx_host_draft (w_secure w'))"] vaults
    by (cases "sx_host_draft (w_secure w')") (auto simp: draft has_unlocked_vault_def host_stored_def backend)
qed

lemma host_held_edit: "gentle f \<Longrightarrow> host_held env w (on_host_draft f w)"
  by (rule host_held_gentle [OF host_held_same]) (auto simp: on_host_draft_def)

lemma gentle_copy: "gentle host_copy"
  by (simp add: gentle_def host_copy_def hf_texts_def)

lemma snapshot_host_draft:
  "sx_host_draft (w_secure (apply_vault_snapshot env s w)) = None \<Longrightarrow> sx_host_draft (w_secure w) = Some d \<Longrightarrow> hf_vault_id d = Some v \<Longrightarrow>
   \<not> has_unlocked_vault v (apply_vault_snapshot env s w)"
  unfolding apply_vault_snapshot_secure(2) by (auto simp: fit_host_def fit_None)

lemma host_held_snapshot:
  assumes "w_secure w1 = w_secure w"
  shows "host_held env w (apply_vault_snapshot env s w1)"
proof -
  have "case sx_host_draft (w_secure (apply_vault_snapshot env s w1)) of
           None \<Rightarrow> \<not> has_unlocked_vault v (apply_vault_snapshot env s w1)
         | Some d' \<Rightarrow> hf_vault_id d' = Some v \<and> hf_texts d' = hf_texts d \<and> hf_dirty d'"
    if d: "sx_host_draft (w_secure w) = Some d" "hf_dirty d" "hf_vault_id d = Some v" for d v
  proof (cases "sx_host_draft (w_secure (apply_vault_snapshot env s w1))")
    case None
    then show ?thesis using snapshot_host_draft [of env s w1 d v] d assms by simp
  next
    case (Some d')
    then have "fit_host (apply_vault_snapshot env s w1) d = Some d'" using d assms by (simp add: apply_vault_snapshot_secure(2))
    then have "d' = d \<or> d' = host_copy d" by (auto simp: fit_host_def dest: fit_Some)
    with gentle_copy d Some show ?thesis by (auto simp: gentle_def)
  qed
  then show ?thesis unfolding host_held_def by (auto split: option.splits)
qed

lemma host_held_refresh: "w_secure w1 = w_secure w \<Longrightarrow> host_held env w (refresh_vault_ui env w1)"
  by (simp add: refresh_vault_ui_def host_held_snapshot)

lemma gentle_edits [simp]:
  "gentle (hf_error_update (\<lambda>_. e))"
  "gentle (\<lambda>d. (push_auth a d)\<lparr>hf_dirty := True, hf_error := e\<rparr>)"
  "gentle (\<lambda>d. (push_auth a d)\<lparr>hf_dirty := True\<rparr>)"
  "gentle (attach_created c pending)"
  "gentle (hf_selected_field_update (\<lambda>_. fl))"
  "gentle (hf_selected_auth_update (\<lambda>_. i))"
  "gentle (\<lambda>d. d)"
  by (auto simp: gentle_def push_auth_def attach_created_def hf_texts_def split: option.split)

lemma gentle_comp: "gentle f \<Longrightarrow> gentle g \<Longrightarrow> gentle (\<lambda>d. f (g d))"
  by (auto simp: gentle_def)

lemma call_secure: "call m w = (r, w') \<Longrightarrow> w_secure w' = w_secure w"
  by (auto simp: call_def split: prod.splits)

lemma call_saved: "call m w = (Inr x, w') \<Longrightarrow> m (w_backend w) = (Inr x, w_backend w')"
  by (auto simp: call_def split: prod.splits)

lemma save_host_vault: "save_host env v h k = (Inr x, k') \<Longrightarrow> sh_vault_id x = v"
  by (auto simp: save_host_def and_then_eq_Inr)

text \<open>Changes of the secure workspace that leave the host draft alone.\<close>

lemma held_after_same:
  "host_held env w w' \<Longrightarrow> sx_host_draft (w_secure w'') = sx_host_draft (w_secure w') \<Longrightarrow>
   w_managed_vaults w'' = w_managed_vaults w' \<Longrightarrow> w_backend w'' = w_backend w' \<Longrightarrow> host_held env w w''"
  by (rule host_held_gentle [where f = "\<lambda>d. d"]) (simp_all add: option.map_ident)

lemma focus_host_draft:
  "\<exists>f. sx_host_draft (focus_secure_input_target t x) = map_option f (sx_host_draft x) \<and> gentle f"
proof -
  have "sx_host_draft (focus_secure_input_target t x) =
      map_option (case t of HostDraft fl \<Rightarrow> hf_selected_field_update (\<lambda>_. fl) | _ \<Rightarrow> \<lambda>d. d) (sx_host_draft x)"
    by (simp add: focus_secure_input_target_def Let_def option.map_ident split: secure_input_target.split)
  moreover have "gentle (case t of HostDraft fl \<Rightarrow> hf_selected_field_update (\<lambda>_. fl) | _ \<Rightarrow> \<lambda>d. d)"
    by (simp split: secure_input_target.split)
  ultimately show ?thesis by blast
qed

lemma held_after_focus:
  assumes "host_held env w w'" "sx_host_draft (w_secure w'') = sx_host_draft (focus_secure_input_target t x)"
    "sx_host_draft x = sx_host_draft (w_secure w')" "w_managed_vaults w'' = w_managed_vaults w'" "w_backend w'' = w_backend w'"
  shows "host_held env w w''"
  using focus_host_draft [of t x] assms by (auto intro: host_held_gentle)

lemma host_held_save_host: "host_held env w (save_host_draft env w)"
proof (cases "sx_host_draft (w_secure w)")
  case (Some d)
  show ?thesis
  proof (cases "hf_validation_errors d = [] \<and> hf_vault_id d \<noteq> None")
    case True
    then obtain v where v: "hf_vault_id d = Some v" by blast
    obtain r w1 where c: "call (save_host (ue_core env) v (host_of_draft d)) w = (r, w1)" by fastforce
    note same = call_secure [OF c]
    show ?thesis
    proof (cases r)
      case (Inl e)
      have "host_held env w (on_host_draft (hf_error_update (\<lambda>_. Some (core_error_text env e))) w1)"
        by (rule host_held_gentle [OF host_held_secure [OF same]]) (auto simp: on_host_draft_def)
      with Some True v c Inl show ?thesis by (simp add: save_host_draft_def)
    next
      case (Inr stored)
      note k = call_saved [OF c [unfolded Inr]]
      have "host_held env w (refresh_vault_ui env w1)" by (rule host_held_refresh [OF same])
      then show ?thesis
        unfolding host_held_def using Some True v c Inr k save_host_vault [OF k]
        by (auto simp: save_host_draft_def on_host_draft_def hf_texts_def has_unlocked_vault_def host_stored_def split: option.splits)
    qed
  next
    case False
    with Some show ?thesis by (auto simp: save_host_draft_def intro!: host_held_edit)
  qed
qed (simp add: save_host_draft_def host_held_same)

lemma host_held_save_tunnel: "host_held env w (save_tunnel_draft env w)"
proof -
  have stored: "host_held env w (toast m (on_tunnel_draft f (on_secure (\<lambda>x. x\<lparr>sx_selected_tunnel_id := i\<rparr>) (refresh_vault_ui env w1))))"
    if "w_secure w1 = w_secure w" for m f i w1
    by (rule held_after_same [OF host_held_refresh [OF that]]) (simp_all add: on_tunnel_draft_def)
  have failed: "host_held env w (on_tunnel_draft f w1)" if "w_secure w1 = w_secure w" for f w1
    using that by (simp add: host_held_same on_tunnel_draft_def)
  show ?thesis
    by (auto simp: save_tunnel_draft_def host_held_secure intro!: stored failed dest: call_secure split: option.split prod.split sum.split)
qed

lemma host_held_created:
  assumes "host_held env w w1"
  shows "host_held env w (created_for_host s w1)"
proof -
  define w2 where "w2 = on_secure (\<lambda>x. x\<lparr>sx_credential_draft := None, sx_section := SectionHosts\<rparr>) w1"
  have w2: "host_held env w w2" by (rule held_after_same [OF assms]) (simp_all add: w2_def)
  show ?thesis
  proof (cases "sx_host_draft (w_secure w2)")
    case None
    then show ?thesis
      using held_after_focus [OF w2, of "on_secure focus_host_form w2" HostSearch "w_secure w2"]
      by (simp add: created_for_host_def w2_def [symmetric] focus_host_form_def)
  next
    case (Some d)
    let ?x = "(w_secure w2)\<lparr>sx_host_draft := Some (attach_created (cs_id (vc_credential s)) (sx_pending_passphrase_auth_index (w_secure w2)) d)\<rparr>"
    have w3: "host_held env w (on_secure (\<lambda>_. ?x) w2)"
      by (rule host_held_gentle [OF w2 _ gentle_edits(4)]) (simp_all add: Some)
    have "host_held env w (on_secure (\<lambda>x. focus_host_form (x\<lparr>sx_host_draft := sx_host_draft ?x, sx_pending_passphrase_auth_index := None\<rparr>)) w2)"
      by (rule held_after_focus [OF w3, where x = "?x\<lparr>sx_pending_passphrase_auth_index := None\<rparr>"]) (simp_all add: focus_host_form_def)
    with w2 Some show ?thesis
      by (auto simp: created_for_host_def w2_def [symmetric] intro: held_after_same)
  qed
qed

lemma host_held_save_credential: "host_held env w (save_credential_draft env w)"
proof -
  have stored: "host_held env w (toast m (on_secure (\<lambda>x. x\<lparr>sx_selected_credential_id := i\<rparr>) (refresh_vault_ui env w1)))"
    if "w_secure w1 = w_secure w" for m i w1
    by (rule held_after_same [OF host_held_refresh [OF that]]) simp_all
  have alone: "host_held env w (on_credential_draft f w1)" if "host_held env w w1" for f w1
    by (rule held_after_same [OF that]) (simp_all add: on_credential_draft_def)
  have failed: "host_held env w (on_credential_draft (cf_error_update (\<lambda>_. e)) w1)" if "w_secure w1 = w_secure w" for e w1
    using that by (simp add: host_held_same on_credential_draft_def)
  show ?thesis
    by (auto simp: save_credential_draft_def Let_def host_held_secure intro!: failed stored alone host_held_created dest: call_secure
        split: option.split prod.split sum.split credential_draft_origin.split)
qed

text \<open>Opening a credential form leaves the host form open.\<close>

lemma show_credential_host [simp]:
  "sx_host_draft (w_secure (show_credential_draft c w)) = sx_host_draft (w_secure w)"
  "w_managed_vaults (show_credential_draft c w) = w_managed_vaults w" "w_backend (show_credential_draft c w) = w_backend w"
  by (simp_all add: show_credential_draft_def Let_def focus_secure_input_target_def)

lemma activate_credential_host [simp]:
  "sx_host_draft (w_secure (activate_credential_draft env i origin w)) = sx_host_draft (w_secure w)"
  "w_managed_vaults (activate_credential_draft env i origin w) = list_vaults (ue_core env) (w_backend w)"
  "w_backend (activate_credential_draft env i origin w) = w_backend w"
proof -
  define v where "v = refresh_vault_cache env (on_secure (\<lambda>x. x\<lparr>sx_section := SectionCredentials\<rparr>)
      ((if origin = Standalone then on_secure (\<lambda>x. x\<lparr>sx_pending_passphrase_auth_index := None\<rparr>) w else w)\<lparr>w_surface := SurfaceSecure\<rparr>))"
  have v: "sx_host_draft (w_secure v) = sx_host_draft (w_secure w)" "w_managed_vaults v = list_vaults (ue_core env) (w_backend w)"
    "w_backend v = w_backend w"
    by (simp_all add: v_def)
  show "sx_host_draft (w_secure (activate_credential_draft env i origin w)) = sx_host_draft (w_secure w)"
    "w_managed_vaults (activate_credential_draft env i origin w) = list_vaults (ue_core env) (w_backend w)"
    "w_backend (activate_credential_draft env i origin w) = w_backend w"
    unfolding activate_credential_draft_def Let_def v_def [symmetric]
    by (simp_all add: v split: option.split sum.split)
qed

lemma key_created_host:
  "\<exists>g. sx_host_draft (w_secure (on_private_key_created env k verb w)) = map_option g (sx_host_draft (w_secure (refresh_vault_ui env w)))
     \<and> gentle g"
  "w_managed_vaults (on_private_key_created env k verb w) = list_vaults (ue_core env) (w_backend w)"
  "w_backend (on_private_key_created env k verb w) = w_backend w"
proof -
  let ?f = "\<lambda>d. (push_auth (AuthPrivateKey (ks_id (vk_key k)) None) d)\<lparr>hf_dirty := True\<rparr>"
  have "sx_host_draft (w_secure (on_private_key_created env k verb w)) \<in>
      {sx_host_draft (w_secure (refresh_vault_ui env w)), map_option ?f (sx_host_draft (w_secure (refresh_vault_ui env w)))}"
    by (auto simp: on_private_key_created_def Let_def split: option.split)
  then show "\<exists>g. sx_host_draft (w_secure (on_private_key_created env k verb w)) =
      map_option g (sx_host_draft (w_secure (refresh_vault_ui env w))) \<and> gentle g"
    by (auto simp: option.map_ident intro: exI [of _ "\<lambda>d. d"] exI [of _ ?f])
  show "w_managed_vaults (on_private_key_created env k verb w) = list_vaults (ue_core env) (w_backend w)"
    "w_backend (on_private_key_created env k verb w) = w_backend w"
    by (simp_all add: on_private_key_created_def Let_def split: option.split)
qed

lemma host_held_key_created:
  assumes "w_secure w1 = w_secure w"
  shows "host_held env w (on_private_key_created env k verb w1)"
proof -
  obtain g where "sx_host_draft (w_secure (on_private_key_created env k verb w1)) = map_option g (sx_host_draft (w_secure (refresh_vault_ui env w1)))"
    "gentle g" using key_created_host(1) by blast
  from host_held_gentle [OF host_held_refresh [OF assms] this] show ?thesis by (simp add: key_created_host(2,3))
qed

text \<open>A second refresh from the same backend loses no more drafts.\<close>

lemma host_held_again:
  assumes held: "host_held env w w1" and vaults: "w_managed_vaults w1 = list_vaults (ue_core env) (w_backend w1)"
  shows "host_held env w (refresh_vault_ui env w1)"
  unfolding host_held_def
proof (intro allI impI)
  fix d v assume d: "sx_host_draft (w_secure w) = Some d \<and> hf_dirty d \<and> hf_vault_id d = Some v"
  note h = held [unfolded host_held_def, rule_format, OF d]
  let ?w = "refresh_vault_ui env w1"
  have eq: "sx_host_draft (w_secure ?w) = Option.bind (sx_host_draft (w_secure w1)) (fit_host ?w)"
    by (simp add: refresh_vault_ui_def apply_vault_snapshot_secure(2))
  show "case sx_host_draft (w_secure ?w) of
           None \<Rightarrow> \<not> has_unlocked_vault v ?w
         | Some d' \<Rightarrow> hf_vault_id d' = Some v \<and> hf_texts d' = hf_texts d \<and> (hf_dirty d' \<or> host_stored env v d w ?w)"
  proof (cases "sx_host_draft (w_secure w1)")
    case None
    then show ?thesis using h vaults eq by (simp add: has_unlocked_vault_def)
  next
    case (Some d1)
    show ?thesis
    proof (cases "fit_host ?w d1")
      case None
      then have "\<not> has_unlocked_vault v ?w" using Some h by (auto simp: fit_host_def fit_None)
      with None Some eq show ?thesis by simp
    next
      case f: (Some d2)
      then have "d2 = d1 \<or> d2 = host_copy d1" by (auto simp: fit_host_def dest: fit_Some)
      with Some h eq f show ?thesis by (auto simp: host_copy_def hf_texts_def host_stored_def)
    qed
  qed
qed

lemma host_held_created_again:
  assumes "host_held env w w1" "w_managed_vaults w1 = list_vaults (ue_core env) (w_backend w1)"
  shows "host_held env w (on_private_key_created env k verb w1)"
proof -
  obtain g where "sx_host_draft (w_secure (on_private_key_created env k verb w1)) = map_option g (sx_host_draft (w_secure (refresh_vault_ui env w1)))"
    "gentle g" using key_created_host(1) by blast
  from host_held_gentle [OF host_held_again [OF assms] this] show ?thesis by (simp add: key_created_host(2,3))
qed

lemma host_held_many:
  "host_held env w w1 \<Longrightarrow> w_managed_vaults w1 = list_vaults (ue_core env) (w_backend w1) \<Longrightarrow>
   host_held env w (fold (\<lambda>k. on_private_key_created env k verb) ks w1)"
  by (induction ks arbitrary: w1) (simp_all add: host_held_created_again key_created_host)

lemma host_held_import_all:
  assumes "w_secure w1 = w_secure w" "ks \<noteq> []"
  shows "host_held env w (fold (\<lambda>k. on_private_key_created env k verb) ks w1)"
proof (cases ks)
  case (Cons k ks')
  with host_held_many [OF host_held_key_created [OF assms(1)]] show ?thesis by (simp add: key_created_host)
qed (use assms in simp)

lemma host_held_request: "host_held env w (request_pending_action env p w)"
proof (cases "has_unsaved_secure_changes w")
  case True
  then show ?thesis by (simp add: request_pending_action_def host_held_secure)
next
  case False
  then show ?thesis by (auto simp: has_unsaved_secure_changes_def host_held_def split: option.splits)
qed

lemma held_import_modal: "host_held env w w1 \<Longrightarrow> host_held env w (on_import f w1)"
  by (rule held_after_same) (simp_all add: on_import_def)

lemma held_wizard: "host_held env w w1 \<Longrightarrow> host_held env w (on_wizard f w1)"
  by (rule held_after_same) (simp_all add: on_wizard_def)

lemma held_discover: "host_held env w w1 \<Longrightarrow> host_held env w (refresh_discovered_private_keys env w1)"
  by (simp add: refresh_discovered_private_keys_def held_import_modal split: option.split sum.split)

lemma held_toast: "host_held env w w1 \<Longrightarrow> host_held env w (toast m w1)"
  by (rule held_after_same) simp_all

lemma host_held_self: "host_held env w w"
  by (simp add: host_held_secure)

lemmas held_intros = held_import_modal held_wizard held_discover held_toast host_held_self host_held_key_created host_held_import_all

lemma host_held_called: "call m w = (r, w1) \<Longrightarrow> host_held env w w1"
  by (simp add: host_held_secure call_secure)

lemma host_held_generate: "host_held env w (generate_key_for_secure env p a w)"
  by (auto simp: generate_key_for_secure_def intro!: held_intros intro: host_held_called dest: call_secure
      split: option.split prod.split sum.split)

lemma host_held_import_one: "host_held env w (import_private_key_for_secure env v q w)"
  by (auto simp: import_private_key_for_secure_def intro!: held_toast host_held_key_created intro: host_held_called dest: call_secure
      split: prod.split sum.split)

lemma host_held_import_candidate: "host_held env w (import_discovered_candidate env i w)"
  by (auto simp: import_discovered_candidate_def Let_def intro!: held_toast held_discover host_held_key_created host_held_self
      intro: host_held_called dest: call_secure split: option.split prod.split sum.split list.split)

lemma host_held_import_paths: "host_held env w (import_selected_path_keys env w)"
  by (auto simp: import_selected_path_keys_def Let_def intro!: held_toast host_held_import_all host_held_self
      intro: host_held_called dest: call_secure split: option.split prod.split sum.split)

lemma host_held_import_pasted: "host_held env w (import_pasted_key env w)"
  by (auto simp: import_pasted_key_def Let_def intro!: held_toast held_import_modal host_held_import_one host_held_self split: option.split)

lemma host_held_deletes:
  "host_held env w (attempt_delete_credential env key w)" "host_held env w (attempt_delete_private_key env key w)"
  "host_held env w (delete_saved_host env key w)" "host_held env w (delete_saved_tunnel env running key w)"
  by (auto simp: attempt_delete_credential_def attempt_delete_private_key_def delete_saved_host_def delete_saved_tunnel_def Let_def
      host_held_secure
      intro!: held_toast host_held_refresh intro: host_held_called dest: call_secure
      split: option.split prod.split sum.split bool.split)

lemma host_held_wizard_save: "host_held env w (host_wizard_save env c w)"
proof -
  have "host_held env w ((close_host_wizard (connect_host env v h (save_host_draft env w)))\<lparr>w_surface := SurfaceTerminal\<rparr>)" for v h
    by (rule held_after_same [OF host_held_save_host]) (simp_all add: close_host_wizard_def on_wizard_def connect_host_def)
  then show ?thesis
    by (auto simp: host_wizard_save_def Let_def close_host_wizard_def intro: host_held_save_host held_wizard split: option.split)
qed

lemma host_held_edits:
  "host_held env w (add_auth_password c w)" "host_held env w (add_auth_key k w)"
  "host_held env w (remove_auth_item i w)" "host_held env w (move_auth_item i n w)"
  "host_held env w (set_auth_passphrase_credential i p w)" "host_held env w (select_auth_item i w)"
  by (simp_all add: add_auth_password_def add_auth_key_def remove_auth_item_def move_auth_item_def set_auth_passphrase_credential_def
      select_auth_item_def host_held_edit gentle_def hf_texts_def Let_def push_auth_def)

lemma host_held_cycle: "host_held env w (on_secure (cycle_secure_focus b) w)"
proof -
  have "cycle_secure_focus b x = x \<or> (\<exists>t. cycle_secure_focus b x = focus_secure_input_target t x)" for x
    by (auto simp: cycle_secure_focus_def split: secure_section.split option.split)
  from this [of "w_secure w"] show ?thesis
    by (auto intro: host_held_same held_after_focus [OF host_held_self])
qed

lemma host_held_save_open: "host_held env w (save_open_draft env w)"
  by (simp add: save_open_draft_def host_held_save_host host_held_save_tunnel host_held_save_credential host_held_self)

lemma host_held_text_input:
  assumes "\<And>f. sx_input_target (w_secure w) \<noteq> HostDraft f"
  shows "host_held env w (handle_secure_text_input env c field w)"
proof -
  have tunnel: "host_held env w (on_tunnel_draft f w)" for f by (rule host_held_same) (simp add: on_tunnel_draft_def)
  have credential: "host_held env w (on_credential_draft f w)" for f by (rule host_held_same) (simp add: on_credential_draft_def)
  show ?thesis
    using assms by (simp add: handle_secure_text_input_def Let_def tunnel credential host_held_self host_held_same
        split: option.split secure_input_target.split prod.split)
qed

lemma host_held_key: "typed_into (PressKey e) w = None \<Longrightarrow> host_held env w (handle_secure_key env e w)"
  by (auto simp: handle_secure_key_def close_key_import_modal_def close_secure_workspace_def held_intros host_held_import_paths
      host_held_import_pasted host_held_save_open host_held_request host_held_cycle host_held_text_input
      split: key_import_tab.split if_splits secure_input_target.splits)

lemma typed_host_key:
  assumes "typed_into (PressKey e) w = Some (f, edit)" and d: "sx_host_draft (w_secure w) = Some d"
  shows "\<exists>d'. sx_host_draft (w_secure (handle_secure_key env e w)) = Some d' \<and> hf_vault_id d' = hf_vault_id d
     \<and> (\<forall>g. hf_text g d' = (if f = g then fst (edit (hf_text g d)) else hf_text g d)) \<and> (hf_dirty d \<longrightarrow> hf_dirty d')"
proof -
  from assms have t: "sx_input_target (w_secure w) = HostDraft f" and e: "edit = sv_field e"
    and k: "handle_secure_key env e w = handle_secure_text_input env (sv_char e) edit w"
    by (auto simp: handle_secure_key_def split: if_splits secure_input_target.splits)
  obtain new changed where new: "edit (hf_text f d) = (new, changed)" by fastforce
  have v: "secure_text_value (HostDraft f) (w_secure w) = Some (hf_text f d)"
    using d by (cases f) (simp_all add: secure_text_value_def)
  have g: "hf_text g ((set_host_text f new d)\<lparr>hf_dirty := c\<rparr>) = (if f = g then new else hf_text g d)"
    "hf_vault_id ((set_host_text f new d)\<lparr>hf_dirty := c\<rparr>) = hf_vault_id d" for g c
    by (cases f; cases g; simp)+
  show ?thesis
    using d by (auto simp: k handle_secure_text_input_def t v new Let_def on_host_draft_def g)
qed

lemma held_credential_form:
  "host_held env w (activate_credential_draft env i Standalone (open_secure_workspace s w))"
  by (rule host_held_same) (simp add: open_secure_workspace_def)

lemma host_held_clicks:
  "host_held env w (on_secure (focus_secure_input_target t) w)"
  "host_held env w (on_secure (\<lambda>x. focus_secure_input_target KeySearch (x\<lparr>sx_selected_key_id := k\<rparr>)) w)"
  "host_held env w (on_tunnel_draft f w)" "host_held env w (on_credential_draft g w)"
proof -
  show "host_held env w (on_secure (focus_secure_input_target t) w)"
    by (rule held_after_focus [OF host_held_self, where x = "w_secure w"]) simp_all
  show "host_held env w (on_secure (\<lambda>x. focus_secure_input_target KeySearch (x\<lparr>sx_selected_key_id := k\<rparr>)) w)"
    by (rule held_after_focus [OF host_held_self, where x = "(w_secure w)\<lparr>sx_selected_key_id := k\<rparr>"]) simp_all
  show "host_held env w (on_tunnel_draft f w)" "host_held env w (on_credential_draft g w)"
    by (rule host_held_same, simp add: on_tunnel_draft_def on_credential_draft_def)+
qed

lemma host_held_import_dialog:
  "host_held env w (select_import_tab env tab w)" "host_held env w (key_files_picked picked w)"
  by (simp_all add: select_import_tab_def key_files_picked_def Let_def held_intros)

lemmas host_held_ops =
  host_held_clicks host_held_import_dialog
  host_held_request host_held_save_host host_held_save_tunnel host_held_save_credential host_held_generate host_held_deletes
  host_held_wizard_save host_held_edits host_held_import_candidate held_credential_form host_held_self

lemma host_held_quick: "host_held env w (open_quick_create_credential env w)"
proof -
  have "host_held env (on_secure (\<lambda>x. x\<lparr>sx_pending_passphrase_auth_index := None\<rparr>) w) (open_quick_create_credential env w)"
    unfolding open_quick_create_credential_def by (rule host_held_request)
  then show ?thesis by (simp add: host_held_def host_stored_def cong: option.case_cong)
qed

lemma host_held_step: "\<not> unguarded a \<Longrightarrow> typed_into a w = None \<Longrightarrow> host_held env w (secure_step env a w)"
  by (cases a)
    (simp_all add: host_held_ops host_held_key host_held_quick host_held_snapshot host_held_secure open_secure_workspace_def host_held_same cancel_confirm_dialog_def
      begin_add_tunnel_def held_toast close_host_wizard_def host_wizard_next_step_def host_wizard_previous_step_def held_wizard
      generate_rsa_key_for_secure_def generate_ed25519_key_for_secure_def open_key_import_modal_def Let_def held_import_modal held_discover
      close_key_import_modal_def toggle_discovered_duplicate_policy_def paste_key_from_clipboard_def
      split: option.split del: typed_into.simps(1))

section \<open>Properties\<close>

lemma snapshot_hosts: "w_saved_hosts (apply_vault_snapshot env s w) = vs_saved_hosts s"
  using apply_vault_snapshot_secure(1) [of env s w] by (simp add: listed_def)

text \<open>
  C13. Whatever the user does in the secure workspace, and whatever snapshots and changes by other windows
  come in between, the forms and lists stay consistent: an open form always has a vault to save to, a
  tunnel form also its host, and is never open together with another form; the selected authentication
  method of a host form is one of its methods; and the hosts, credentials and keys shown are exactly the
  entries of the current lists whose text contains the query, in the order of the lists.
\<close>

theorem secure_workspace_consistent:
  assumes "w_secure w0 = default_secure" and "list_all honest ops"
    and "w = fold (secure_step env) ops (rebuild_secure_search_cache env w0)" and "x = w_secure w"
  shows "(\<forall>d. sx_host_draft x = Some d \<longrightarrow>
        hf_vault_id d \<noteq> None \<and> (\<forall>i. hf_selected_auth d = Some i \<longrightarrow> i < length (hf_auth_items d)))
     \<and> (\<forall>d. sx_tunnel_draft x = Some d \<longrightarrow>
        tn_vault_id d \<noteq> None \<and> tn_host_id d \<noteq> None \<and> sx_host_draft x = None \<and> sx_credential_draft x = None)
     \<and> (\<forall>d. sx_credential_draft x = Some d \<longrightarrow> cf_vault_id d \<noteq> None)
     \<and> w_filtered_hosts w = filter (\<lambda>i. ue_lower env (trim (sx_host_search x)) = []
          \<or> sublist (ue_lower env (trim (sx_host_search x))) (host_blob env (w_saved_hosts w ! i))) [0..<length (w_saved_hosts w)]
     \<and> w_filtered_credentials w = filter (\<lambda>i. ue_lower env (trim (sx_credential_search x)) = []
          \<or> sublist (ue_lower env (trim (sx_credential_search x))) (credential_blob env (w_cached_credentials w ! i)))
            [0..<length (w_cached_credentials w)]
     \<and> w_filtered_keys w = filter (\<lambda>i. ue_lower env (trim (sx_key_search x)) = []
          \<or> sublist (ue_lower env (trim (sx_key_search x))) (key_blob env (w_cached_keys w ! i))) [0..<length (w_cached_keys w)]"
proof -
  have "secure_ok env (rebuild_secure_search_cache env w0)"
    using assms(1) by (simp add: secure_ok_def drafts_ok_none default_secure_def)
  then have "secure_ok env w" unfolding assms(3) by (rule secure.inv_run) (rule assms(2))
  then have d: "drafts_ok x" and f: "search_fresh env w" by (simp_all add: secure_ok_def assms(4))
  have filtered: "matching_indices q (length xs) (map g xs) = filter (\<lambda>i. q = [] \<or> sublist q (g (xs ! i))) [0..<length xs]"
    for q and g :: "'x \<Rightarrow> string" and xs
    using matching_indices_filter [of q "map g xs"] by (auto intro!: filter_cong)
  from d show ?thesis unfolding drafts_ok_def using f unfolding search_fresh_def by (simp add: filtered assms(4))
qed

text \<open>A search for a host that does not exist, and a snapshot that brings it.\<close>

theorem secure_workspace_consistent_witness:
  "w_filtered_hosts (fold (secure_step demo_ui_env)
       [OpenSecure SectionHosts,
        PressKey \<lparr>sv_key = ''p'', sv_primary = False, sv_shift = False, sv_char = Some ''p'', sv_field = (\<lambda>t. (t @ ''p'', True))\<rparr>,
        SnapshotArrives \<lparr>vs_managed_vaults = [demo_vault_summary],
          vs_saved_hosts = [\<lparr>sh_vault_id = ''v'', sh_vault_name = ''Work'', sh_host = host_summary_of demo_host 0\<rparr>],
          vs_cached_credentials = [], vs_cached_keys = [], vs_cached_port_forwards = []\<rparr>]
       (rebuild_secure_search_cache demo_ui_env (demo_workspace None))) = [0]"
proof -
  define w where "w = fold (secure_step demo_ui_env)
       [OpenSecure SectionHosts,
        PressKey \<lparr>sv_key = ''p'', sv_primary = False, sv_shift = False, sv_char = Some ''p'', sv_field = (\<lambda>t. (t @ ''p'', True))\<rparr>,
        SnapshotArrives \<lparr>vs_managed_vaults = [demo_vault_summary],
          vs_saved_hosts = [\<lparr>sh_vault_id = ''v'', sh_vault_name = ''Work'', sh_host = host_summary_of demo_host 0\<rparr>],
          vs_cached_credentials = [], vs_cached_keys = [], vs_cached_port_forwards = []\<rparr>]
       (rebuild_secure_search_cache demo_ui_env (demo_workspace None))"
  have "w_secure (demo_workspace None) = default_secure" by (simp add: demo_workspace_def default_secure_def)
  note p = secure_workspace_consistent [OF this _ w_def refl]
  have kept: "sx_host_search (kept_secure y) = sx_host_search y" for y by (simp add: kept_secure_def)
  have hosts: "w_saved_hosts w = [\<lparr>sh_vault_id = ''v'', sh_vault_name = ''Work'', sh_host = host_summary_of demo_host 0\<rparr>]"
    by (simp add: w_def snapshot_hosts)
  have search: "sx_host_search (w_secure w) = ''p''"
    by (subst kept [symmetric])
      (simp add: w_def apply_vault_snapshot_secure(6) kept handle_secure_key_def handle_secure_text_input_def open_secure_workspace_def
        demo_workspace_def default_secure_def default_key_import_modal_def secure_text_value_def Let_def)
  have "trim ''p'' = ''p''" by (rule trim_visible) simp_all
  with p hosts search show ?thesis
    unfolding w_def [symmetric]
    by (simp add: demo_ui_env_def demo_core_env_def host_blob_def host_summary_of_def demo_host_def to_ascii_lower_def Let_def)
qed

text \<open>
  C14. Unsaved edits of a host are not lost by accident: except for confirming a dialog and for the actions
  that open another form at once, every action leaves the form open in its vault, with the texts that
  the user typed, as long as that vault is still unlocked. Each text is what it was, or, where a key was typed into its
  field, that text after the key; and the form is still marked as unsaved, unless the action stored exactly its
  profile in that vault: saving it succeeded, and the backend is the one that this save left.
\<close>

theorem unsaved_host_edits_kept:
  assumes "sx_host_draft (w_secure w) = Some d" "hf_dirty d" "hf_vault_id d = Some v" and "\<not> unguarded a"
    and "w' = secure_step env a w" and "has_unlocked_vault v w'"
  shows "\<exists>d'. sx_host_draft (w_secure w') = Some d' \<and> hf_vault_id d' = Some v
     \<and> (\<forall>g. hf_text g d' = (case typed_into a w of
           Some (f, edit) \<Rightarrow> if f = g then fst (edit (hf_text g d)) else hf_text g d | None \<Rightarrow> hf_text g d))
     \<and> (hf_dirty d' \<or> (\<exists>stored. save_host (ue_core env) v (host_of_draft d) (w_backend w) = (Inr stored, w_backend w')))"
proof (cases "typed_into a w")
  case None
  have texts: "hf_texts d' = hf_texts d \<Longrightarrow> hf_text g d' = hf_text g d" for d' g by (cases g) (simp_all add: hf_texts_def)
  have "case sx_host_draft (w_secure w') of None \<Rightarrow> \<not> has_unlocked_vault v w'
      | Some d' \<Rightarrow> hf_vault_id d' = Some v \<and> hf_texts d' = hf_texts d \<and> (hf_dirty d' \<or> host_stored env v d w w')"
    using host_held_step [OF assms(4) None, of env] assms(1-3) unfolding assms(5) [symmetric] host_held_def by blast
  then obtain d' where "sx_host_draft (w_secure w') = Some d'" "hf_vault_id d' = Some v" "hf_texts d' = hf_texts d"
    "hf_dirty d' \<or> host_stored env v d w w'"
    using assms(6) by (cases "sx_host_draft (w_secure w')") simp_all
  with None texts [of d'] show ?thesis unfolding host_stored_def by simp
next
  case (Some p)
  then obtain e f edit where a: "a = PressKey e" and p: "p = (f, edit)" by (cases a; cases p) simp_all
  have w': "w' = handle_secure_key env e w" by (simp add: assms(5) a)
  from typed_host_key [OF Some [unfolded a p] assms(1), of env] assms(2,3) show ?thesis
    unfolding Some p w' by auto
qed

theorem unsaved_host_edits_kept_witness:
  "\<exists>d'. sx_host_draft (w_secure (secure_step demo_ui_env (Pending CloseSecureWorkspace)
       (demo_workspace (Some ((host_draft_from_host demo_host)\<lparr>hf_vault_id := Some ''v'', hf_dirty := True\<rparr>))))) = Some d'
     \<and> hf_vault_id d' = Some ''v''"
proof -
  let ?d = "(host_draft_from_host demo_host)\<lparr>hf_vault_id := Some ''v'', hf_dirty := True\<rparr>"
  have "has_unlocked_vault ''v'' (secure_step demo_ui_env (Pending CloseSecureWorkspace) (demo_workspace (Some ?d)))"
    by (simp add: request_pending_action_def has_unsaved_secure_changes_def has_unlocked_vault_def demo_workspace_def demo_vault_summary_def)
  from unsaved_host_edits_kept [OF _ _ _ _ refl this, of ?d] show ?thesis by (auto simp: demo_workspace_def)
qed

text \<open>
  One of the exceptions: with a vault unlocked, adding a host replaces the open host form by a blank one
  and closes the others, without asking, whatever edits they hold.
\<close>

theorem add_host_drops_edits:
  assumes "vault_unlocked w" and "\<exists>s \<in> set (list_vaults (ue_core env) (w_backend w)). ms_unlocked s"
  shows "\<exists>v. sx_host_draft (w_secure (secure_step env AddHost w)) = Some (host_draft_blank\<lparr>hf_vault_id := Some v\<rparr>)
     \<and> sx_tunnel_draft (w_secure (secure_step env AddHost w)) = None
     \<and> sx_credential_draft (w_secure (secure_step env AddHost w)) = None
     \<and> w_confirm_dialog (secure_step env AddHost w) = None"
proof -
  define u where "u = refresh_saved_hosts env (refresh_vault_cache env
      (on_secure (\<lambda>x. x\<lparr>sx_section := SectionHosts\<rparr>) (w\<lparr>w_surface := SurfaceSecure\<rparr>)))"
  have "w_managed_vaults u = list_vaults (ue_core env) (w_backend w)"
    by (simp add: u_def refresh_saved_hosts_def refresh_managed_vaults_def Let_def)
  with assms(2) have "filter ms_unlocked (w_managed_vaults u) \<noteq> []" by (auto simp: filter_empty_conv)
  then have "length (sort_key snd (map (\<lambda>v. (ms_vault_id v, ue_lower env (ms_name v))) (filter ms_unlocked (w_managed_vaults u)))) \<noteq> 0"
    by simp
  then obtain e l where "sort_key snd (map (\<lambda>v. (ms_vault_id v, ue_lower env (ms_name v))) (filter ms_unlocked (w_managed_vaults u))) = e # l"
    by (cases "sort_key snd (map (\<lambda>v. (ms_vault_id v, ue_lower env (ms_name v))) (filter ms_unlocked (w_managed_vaults u)))") (auto simp only: list.size)
  then have "\<exists>v. default_target_vault_id env u = Some v"
    by (simp add: default_target_vault_id_def Let_def split: option.split prod.split)
  then obtain v where v: "default_target_vault_id env u = Some v" ..
  have "secure_step env AddHost w = show_host_draft (Some (host_draft_blank\<lparr>hf_vault_id := Some v\<rparr>)) (on_secure (\<lambda>x. x\<lparr>sx_selected_host_id := None\<rparr>) u)"
    using assms(1) v by (simp add: begin_add_host_def activate_host_draft_def u_def [symmetric])
  then show ?thesis
    by (auto simp: show_host_draft_def Let_def focus_secure_input_target_def host_draft_blank_def)
qed

end
