(* ===== verification/Ui_Vaults.thy ===== *)
theory Ui_Vaults
  imports Ui_Unsaved
begin

text \<open>
  The vault dialog and the vault list of the sidebar (\<open>open_vault_modal_for\<close>, \<open>submit_vault_modal\<close>,
  \<open>lock_vault\<close> and the dialog's keys in \<^verbatim>\<open>seance-ui/src/workspace.rs\<close>, and \<^verbatim>\<open>vault.rs\<close>). A text field is
  a parameter of the key handler, as in \<open>Ui_Secure\<close>.
\<close>

section \<open>Submitting the dialog\<close>

definition on_modal :: "(vault_modal_state \<Rightarrow> vault_modal_state) \<Rightarrow> ('s, 'd) workspace \<Rightarrow> ('s, 'd) workspace" where
  "on_modal f w = w\<lparr>w_vault_modal := f (w_vault_modal w)\<rparr>"

definition modal_error :: "string \<Rightarrow> ('s, 'd) workspace \<Rightarrow> ('s, 'd) workspace" where
  "modal_error e = on_modal (vmo_error_update (\<lambda>_. Some e))"

text \<open>The vault that a submission is for: the dialog's, or else an open locked one, or else a locked one.\<close>

definition submit_target :: "('s, 'd) workspace \<Rightarrow> string option" where
  "submit_target w =
     or_else (vmo_target_vault_id (w_vault_modal w))
       (map_option ms_vault_id
         (or_else (find (\<lambda>v. ms_open v \<and> \<not> ms_unlocked v) (w_managed_vaults w))
           (find (\<lambda>v. \<not> ms_unlocked v) (w_managed_vaults w))))"

text \<open>A submission that succeeded.\<close>

definition modal_done :: "'d ui_env \<Rightarrow> string \<Rightarrow> ('s, 'd) workspace \<Rightarrow> ('s, 'd) workspace" where
  "modal_done env message w = refresh_vault_ui env (toast message (on_modal vault_modal_close w))"

definition submit_create :: "'d ui_env \<Rightarrow> ('s, 'd) workspace \<Rightarrow> ('s, 'd) workspace" where
  "submit_create env w =
     (let m = w_vault_modal w in
      if \<not> can_submit m
      then modal_error ''Choose a vault name and a non-empty matching recovery passphrase.'' w
      else
        (case call (create_named_vault (ue_core env) (trim (vmo_vault_name m)) (vmo_passphrase m) ''This Device'') w of
           (Inr created, w1) \<Rightarrow>
             modal_done env
               (if ms_device_unlock_message created \<noteq> None
                then ''Encrypted vault created. Device unlock still needs attention.'' else ''Encrypted vault created.'') w1
         | (Inl e, w1) \<Rightarrow> modal_error (core_error_text env e) w1))"

definition submit_rename :: "'d ui_env \<Rightarrow> string option \<Rightarrow> ('s, 'd) workspace \<Rightarrow> ('s, 'd) workspace" where
  "submit_rename env target w =
     (let next_name = trim (vmo_vault_name (w_vault_modal w)) in
      case target of
        None \<Rightarrow> modal_error ''No vault is selected to rename.'' w
      | Some vault_id \<Rightarrow>
          if next_name = [] then modal_error ''Enter a vault name.'' w
          else
            (case call (rename_vault (ue_core env) vault_id next_name) w of
               (Inr _, w1) \<Rightarrow> modal_done env ''Vault renamed.'' w1
             | (Inl e, w1) \<Rightarrow> modal_error (core_error_text env e) w1))"

definition to_passphrase :: "string \<Rightarrow> ('s, 'd) workspace \<Rightarrow> ('s, 'd) workspace" where
  "to_passphrase e = on_modal (\<lambda>m. m\<lparr>vmo_unlock_method := UnlockPassphrase, vmo_error := Some e\<rparr>)"

definition submit_device :: "'d ui_env \<Rightarrow> string option \<Rightarrow> ('s, 'd) workspace \<Rightarrow> ('s, 'd) workspace" where
  "submit_device env target w =
     (case target of
        None \<Rightarrow> modal_error ''No locked vault is available to unlock.'' w
      | Some vault_id \<Rightarrow>
          (case call (try_unlock_vault_with_device (ue_core env) vault_id) w of
             (Inr True, w1) \<Rightarrow> modal_done env ''Vault unlocked from device credentials.'' w1
           | (Inr False, w1) \<Rightarrow> to_passphrase ''Device unlock failed. Enter your recovery passphrase.'' w1
           | (Inl e, w1) \<Rightarrow> to_passphrase (core_error_text env e @ ''. Enter your recovery passphrase.'') w1))"

definition submit_passphrase :: "'d ui_env \<Rightarrow> string option \<Rightarrow> ('s, 'd) workspace \<Rightarrow> ('s, 'd) workspace" where
  "submit_passphrase env target w =
     (if \<not> can_submit (w_vault_modal w) then modal_error ''Enter the recovery passphrase to unlock the vault.'' w
      else
        case target of
          None \<Rightarrow> modal_error ''No locked vault is available to unlock.'' w
        | Some vault_id \<Rightarrow>
            (case call (unlock_vault (ue_core env) vault_id (vmo_passphrase (w_vault_modal w)) ''This Device'') w of
               (Inr _, w1) \<Rightarrow> modal_done env ''Vault unlocked.'' w1
             | (Inl e, w1) \<Rightarrow> modal_error (core_error_text env e) w1))"

text \<open>The dialog is marked busy before its mode is looked at, and no longer at the end.\<close>

definition submit_vault_modal :: "'d ui_env \<Rightarrow> ('s, 'd) workspace \<Rightarrow> ('s, 'd) workspace" where
  "submit_vault_modal env w0 =
     (let w = on_modal (\<lambda>m. m\<lparr>vmo_error := None, vmo_busy := True\<rparr>) w0;
          target = submit_target w;
          w1 = (case vmo_mode (w_vault_modal w) of
                  ModeCreate \<Rightarrow> submit_create env w
                | ModeRename \<Rightarrow> submit_rename env target w
                | ModeUnlock \<Rightarrow>
                    (case vmo_unlock_method (w_vault_modal w) of
                       UnlockDevice \<Rightarrow> submit_device env target w
                     | UnlockPassphrase \<Rightarrow> submit_passphrase env target w))
      in on_modal (vmo_busy_update (\<lambda>_. False)) w1)"

section \<open>Keys of the dialog\<close>

definition focus_vault_modal_field :: "nat \<Rightarrow> ('s, 'd) workspace \<Rightarrow> ('s, 'd) workspace" where
  "focus_vault_modal_field field = on_modal (vmo_selected_field_update (\<lambda>_. field))"

text \<open>The text of the focused field goes through the text field. The focused field is the selected one, cut to
  the fields that are there.\<close>

definition edit_modal_field :: "nat \<Rightarrow> (string \<Rightarrow> string) \<Rightarrow> vault_modal_state \<Rightarrow> vault_modal_state" where
  "edit_modal_field field edit m =
     (case vmo_mode m of
        ModeCreate \<Rightarrow>
          if field = 0 then m\<lparr>vmo_vault_name := edit (vmo_vault_name m)\<rparr>
          else if field = 1 then m\<lparr>vmo_passphrase := edit (vmo_passphrase m)\<rparr>
          else if field = 2 then m\<lparr>vmo_confirm_passphrase := edit (vmo_confirm_passphrase m)\<rparr> else m
      | ModeRename \<Rightarrow> if field = 0 then m\<lparr>vmo_vault_name := edit (vmo_vault_name m)\<rparr> else m
      | ModeUnlock \<Rightarrow>
          if field = 0 \<and> vmo_unlock_method m = UnlockPassphrase then m\<lparr>vmo_passphrase := edit (vmo_passphrase m)\<rparr> else m)"

definition handle_vault_modal_text_input :: "(string \<Rightarrow> string) \<Rightarrow> ('s, 'd) workspace \<Rightarrow> ('s, 'd) workspace" where
  "handle_vault_modal_text_input edit =
     on_modal (\<lambda>m.
       let count = passphrase_field_count m in
       if count = 0 then m
       else let field = min (vmo_selected_field m) (count - 1) in edit_modal_field field edit (m\<lparr>vmo_selected_field := field\<rparr>))"

definition handle_vault_modal_key :: "'d ui_env \<Rightarrow> string \<Rightarrow> (string \<Rightarrow> string) \<Rightarrow> ('s, 'd) workspace \<Rightarrow> ('s, 'd) workspace" where
  "handle_vault_modal_key env key edit w =
     (let m = w_vault_modal w; count = passphrase_field_count m in
      if key = ''tab'' \<or> key = ''down'' then
        (if 0 < count then focus_vault_modal_field ((vmo_selected_field m + 1) mod count) w else w)
      else if key = ''up'' then
        (if 0 < count then focus_vault_modal_field ((vmo_selected_field m + count - 1) mod count) w else w)
      else if key = ''enter'' then submit_vault_modal env w
      else if key = ''escape'' then (if vault_modal_can_close m then on_modal vault_modal_close w else w)
      else handle_vault_modal_text_input edit w)"

section \<open>The vault list\<close>

definition lock_ids :: "string list \<Rightarrow> ('s, 'd) controller \<Rightarrow> ('s, 'd) controller" where
  "lock_ids ids k = fold (\<lambda>i k. snd (lock_vault i k)) ids k"

text \<open>\<open>SeanceWorkspace::lock_vault\<close>: every vault that the workspace knows as unlocked. That it also closes the
  palette and has the terminal drawn again is outside of this model's workspace.\<close>

definition lock_all_vaults :: "'d ui_env \<Rightarrow> ('s, 'd) workspace \<Rightarrow> ('s, 'd) workspace" where
  "lock_all_vaults env w =
     (let w1 = refresh_vault_ui env
            (w\<lparr>w_backend := lock_ids (map ms_vault_id (filter ms_unlocked (w_managed_vaults w))) (w_backend w)\<rparr>)
      in toast ''Vault locked.''
           (on_modal (vault_modal_open ModeUnlock UserAction ''Vault locked. Decrypted records were cleared from memory.'')
             (w1\<lparr>w_confirm_dialog := None, w_surface := SurfaceTerminal\<rparr>)))"

definition set_default_vault :: "'d ui_env \<Rightarrow> string \<Rightarrow> ('s, 'd) workspace \<Rightarrow> ('s, 'd) workspace" where
  "set_default_vault env vault_id w =
     (case call (set_default_target_vault (ue_core env) vault_id) w of
        (Inr _, w1) \<Rightarrow> refresh_vault_ui env (toast ''Default vault updated.'' w1)
      | (Inl e, w1) \<Rightarrow> toast (core_error_text env e) w1)"

definition open_managed_vault :: "'d ui_env \<Rightarrow> string \<Rightarrow> ('s, 'd) workspace \<Rightarrow> ('s, 'd) workspace" where
  "open_managed_vault env vault_id w =
     (case call (open_vault (ue_core env) vault_id) w of
        (Inr _, w1) \<Rightarrow> refresh_vault_ui env w1
      | (Inl e, w1) \<Rightarrow> toast (core_error_text env e) w1)"

definition close_managed_vault :: "'d ui_env \<Rightarrow> string \<Rightarrow> ('s, 'd) workspace \<Rightarrow> ('s, 'd) workspace" where
  "close_managed_vault env vault_id w =
     (case call (close_vault (ue_core env) vault_id) w of
        (Inr _, w1) \<Rightarrow> refresh_vault_ui env w1
      | (Inl e, w1) \<Rightarrow> toast (core_error_text env e) w1)"

definition lock_named_vault :: "'d ui_env \<Rightarrow> string \<Rightarrow> ('s, 'd) workspace \<Rightarrow> ('s, 'd) workspace" where
  "lock_named_vault env vault_id w =
     (case call (lock_vault vault_id) w of
        (Inr _, w1) \<Rightarrow> refresh_vault_ui env (toast ''Vault locked.'' w1)
      | (Inl e, w1) \<Rightarrow> toast (core_error_text env e) w1)"

definition confirm_delete_vault :: "managed_vault_summary \<Rightarrow> ('s, 'd) workspace \<Rightarrow> ('s, 'd) workspace" where
  "confirm_delete_vault vault w =
     w\<lparr>w_confirm_dialog := Some (dialog_delete_vault (ms_name vault) (ms_db_path vault) (ms_vault_id vault))\<rparr>"

definition begin_unlock_vault :: "'d ui_env \<Rightarrow> string \<Rightarrow> ('s, 'd) workspace \<Rightarrow> ('s, 'd) workspace" where
  "begin_unlock_vault env vault_id w =
     (case find (\<lambda>v. ms_vault_id v = vault_id) (w_managed_vaults w) of
        None \<Rightarrow> toast ''Vault not found.'' w
      | Some vault \<Rightarrow>
          open_vault_modal_for env (Some vault_id) ModeUnlock UserAction
            (''Unlock '' @ quoted (ms_name vault) @ '' to access its encrypted records.'')
            (if ms_open vault then w else open_managed_vault env vault_id w))"

text \<open>The button of a vault's row: open, lock or unlock.\<close>

definition vault_row_action :: "'d ui_env \<Rightarrow> string \<Rightarrow> ('s, 'd) workspace \<Rightarrow> ('s, 'd) workspace" where
  "vault_row_action env vault_id w =
     (if \<not> list_ex (\<lambda>v. ms_vault_id v = vault_id \<and> ms_open v) (w_managed_vaults w) then open_managed_vault env vault_id w
      else if list_ex (\<lambda>v. ms_vault_id v = vault_id \<and> ms_unlocked v) (w_managed_vaults w) then lock_named_vault env vault_id w
      else begin_unlock_vault env vault_id w)"

text \<open>Whether the dialog lets the user choose device unlock: what the list says of the target vault, or else
  the status of the controller.\<close>

definition device_choice_available :: "('s, 'd) workspace \<Rightarrow> bool" where
  "device_choice_available w =
     (case Option.bind (vmo_target_vault_id (w_vault_modal w)) (\<lambda>i. find (\<lambda>v. ms_vault_id v = i) (w_managed_vaults w)) of
        Some v \<Rightarrow> ms_device_unlock_available v
      | None \<Rightarrow> st_device_unlock_available (aggregate_vault_status (w_backend w)))"

text \<open>The dialog as a machine, over the states of the dialog.\<close>

datatype vault_op =
    OpenDialog "string option" unlock_mode vault_modal_origin string
  | DialogKey string "string \<Rightarrow> string"
  | ClickField nat
  | UsePassphrase
  | UseDevice
  | RevealSecret
  | SubmitDialog
  | CloseButton
  | LockAll
  | RowAction string
  | SetDefault string
  | CloseRow string

fun vault_step :: "'d ui_env \<Rightarrow> vault_op \<Rightarrow> ('s, 'd) workspace \<Rightarrow> ('s, 'd) workspace" where
  "vault_step env (OpenDialog target mode origin message) w = open_vault_modal_for env target mode origin message w"
| "vault_step env (DialogKey key edit) w = (if vmo_open (w_vault_modal w) then handle_vault_modal_key env key edit w else w)"
| "vault_step env (ClickField i) w =
     (if vmo_open (w_vault_modal w) \<and> i < passphrase_field_count (w_vault_modal w) then focus_vault_modal_field i w else w)"
| "vault_step env UsePassphrase w =
     (if vmo_open (w_vault_modal w) \<and> vmo_mode (w_vault_modal w) = ModeUnlock
      then focus_vault_modal_field 0 (on_modal (vmo_unlock_method_update (\<lambda>_. UnlockPassphrase)) w) else w)"
| "vault_step env UseDevice w =
     (if vmo_open (w_vault_modal w) \<and> vmo_mode (w_vault_modal w) = ModeUnlock \<and> device_choice_available w
      then on_modal (vmo_unlock_method_update (\<lambda>_. UnlockDevice)) w else w)"
| "vault_step env RevealSecret w =
     (if vmo_open (w_vault_modal w) \<and> vmo_mode (w_vault_modal w) \<noteq> ModeRename
      then on_modal (\<lambda>m. m\<lparr>vmo_reveal_secret := \<not> vmo_reveal_secret m\<rparr>) w else w)"
| "vault_step env SubmitDialog w = (if vmo_open (w_vault_modal w) then submit_vault_modal env w else w)"
| "vault_step env CloseButton w =
     (if vmo_open (w_vault_modal w) \<and> vault_modal_can_close (w_vault_modal w) then on_modal vault_modal_close w else w)"
| "vault_step env LockAll w = lock_all_vaults env w"
| "vault_step env (RowAction i) w = vault_row_action env i w"
| "vault_step env (SetDefault i) w = set_default_vault env i w"
| "vault_step env (CloseRow i) w = close_managed_vault env i w"

section \<open>The dialog and its secrets\<close>

lemma on_modal_sel [simp]:
  "w_vault_modal (on_modal f w) = f (w_vault_modal w)" "w_backend (on_modal f w) = w_backend w"
  "w_secure (on_modal f w) = w_secure w" "w_managed_vaults (on_modal f w) = w_managed_vaults w"
  by (simp_all add: on_modal_def)

lemma reconcile_modal [simp]:
  "w_vault_modal (reconcile_host_draft_after_vault_snapshot w) = w_vault_modal w"
  "w_vault_modal (reconcile_tunnel_draft_after_vault_snapshot w) = w_vault_modal w"
  "w_vault_modal (reconcile_credential_draft_after_vault_snapshot w) = w_vault_modal w"
  "w_vault_modal (reconcile_saved_selection_state w) = w_vault_modal w"
  by (simp_all add: reconcile_host_draft_after_vault_snapshot_def reconcile_tunnel_draft_after_vault_snapshot_def
      reconcile_credential_draft_after_vault_snapshot_def reconcile_saved_selection_state_def Let_def split: option.split)

lemma refresh_modal [simp]: "w_vault_modal (refresh_vault_ui env w) = w_vault_modal w"
  by (simp add: refresh_vault_ui_def apply_vault_snapshot_def)

lemma call_modal: "call m w = (r, w') \<Longrightarrow> w_vault_modal w' = w_vault_modal w"
  by (auto simp: call_def split: prod.splits)

text \<open>A closed dialog holds no passphrase, the selected field is one of the fields, and no submission is under way.\<close>

definition dialog_ok :: "vault_modal_state \<Rightarrow> bool" where
  "dialog_ok m \<longleftrightarrow>
     (vmo_open m \<or> vmo_passphrase m = [] \<and> vmo_confirm_passphrase m = [])
     \<and> (vmo_selected_field m = 0 \<or> vmo_selected_field m < passphrase_field_count m) \<and> \<not> vmo_busy m"

lemma dialog_ok_closed [simp]: "dialog_ok (vault_modal_close m)"
  by (simp add: dialog_ok_def vault_modal_close_def)

lemma dialog_ok_open_for: "dialog_ok (w_vault_modal (open_vault_modal_for env t mode origin message w))"
  by (simp add: open_vault_modal_for_def Let_def dialog_ok_def vault_modal_open_def split: unlock_mode.split option.split)

lemma dialog_ok_edit: "vmo_open m \<Longrightarrow> dialog_ok m \<Longrightarrow> dialog_ok (edit_modal_field i edit m)"
  by (auto simp: edit_modal_field_def dialog_ok_def passphrase_field_count_def split: unlock_mode.split)

lemma busy_can_submit: "vmo_busy m \<Longrightarrow> \<not> can_submit m"
  by (simp add: can_submit_def)

text \<open>What a submission makes of the dialog: closed, or as it was with an error, perhaps asking for the passphrase.\<close>

definition submitted :: "vault_modal_state \<Rightarrow> vault_modal_state \<Rightarrow> bool" where
  "submitted m m' \<longleftrightarrow>
     (\<exists>m0. m' = (vault_modal_close m0)\<lparr>vmo_busy := False\<rparr>)
     \<or> (\<exists>e. m' = m\<lparr>vmo_error := Some e, vmo_busy := False\<rparr>)
     \<or> vmo_mode m = ModeUnlock \<and> vmo_unlock_method m = UnlockDevice
        \<and> (\<exists>e. m' = m\<lparr>vmo_unlock_method := UnlockPassphrase, vmo_error := Some e, vmo_busy := False\<rparr>)"

definition busy :: "vault_modal_state \<Rightarrow> vault_modal_state" where
  "busy m = m\<lparr>vmo_error := None, vmo_busy := True\<rparr>"

lemma busy_sel [simp]: "vmo_busy (busy m)" "vmo_mode (busy m) = vmo_mode m" "vmo_unlock_method (busy m) = vmo_unlock_method m"
  by (simp_all add: busy_def)

lemma submitted_intros:
  "w_vault_modal w1 = busy m \<Longrightarrow> submitted m ((w_vault_modal (modal_error e w1))\<lparr>vmo_busy := False\<rparr>)"
  "w_vault_modal w1 = busy m \<Longrightarrow> vmo_mode m = ModeUnlock \<Longrightarrow> vmo_unlock_method m = UnlockDevice \<Longrightarrow>
     submitted m ((w_vault_modal (to_passphrase e w1))\<lparr>vmo_busy := False\<rparr>)"
  "submitted m ((w_vault_modal (modal_done env t w1))\<lparr>vmo_busy := False\<rparr>)"
  by (auto simp: submitted_def modal_error_def to_passphrase_def modal_done_def busy_def)

lemma call_busy: "call p w = (r, w') \<Longrightarrow> w_vault_modal w = busy m \<Longrightarrow> w_vault_modal w' = busy m"
  using call_modal by metis

lemma submit_modal: "submitted (w_vault_modal w) (w_vault_modal (submit_vault_modal env w))"
proof -
  let ?m = "w_vault_modal w"
  define w1 where "w1 = on_modal busy w"
  have w1: "w_vault_modal w1 = busy ?m" by (simp add: w1_def)
  have eq: "w_vault_modal (submit_vault_modal env w) = (w_vault_modal
      (case vmo_mode ?m of ModeCreate \<Rightarrow> submit_create env w1 | ModeRename \<Rightarrow> submit_rename env (submit_target w1) w1
       | ModeUnlock \<Rightarrow> (case vmo_unlock_method ?m of UnlockDevice \<Rightarrow> submit_device env (submit_target w1) w1
            | UnlockPassphrase \<Rightarrow> submit_passphrase env (submit_target w1) w1)))\<lparr>vmo_busy := False\<rparr>"
    by (simp add: submit_vault_modal_def Let_def w1_def busy_def [abs_def] split: unlock_mode.split unlock_method.split)
  have create: "submitted ?m ((w_vault_modal (submit_create env w1))\<lparr>vmo_busy := False\<rparr>)"
    using w1 by (simp add: submit_create_def busy_can_submit submitted_intros)
  have rename: "submitted ?m ((w_vault_modal (submit_rename env t w1))\<lparr>vmo_busy := False\<rparr>)" for t
    using w1 by (auto simp: submit_rename_def Let_def intro!: submitted_intros intro: call_busy split: option.split prod.split sum.split)
  have device: "submitted ?m ((w_vault_modal (submit_device env t w1))\<lparr>vmo_busy := False\<rparr>)"
    if "vmo_mode ?m = ModeUnlock" "vmo_unlock_method ?m = UnlockDevice" for t
    using w1 that by (auto simp: submit_device_def intro!: submitted_intros intro: call_busy split: option.split prod.split sum.split bool.split)
  have passphrase: "submitted ?m ((w_vault_modal (submit_passphrase env t w1))\<lparr>vmo_busy := False\<rparr>)" for t
    using w1 by (simp add: submit_passphrase_def busy_can_submit submitted_intros)
  show ?thesis
    unfolding eq by (auto simp: create rename device passphrase split: unlock_mode.split unlock_method.split)
qed

lemma dialog_ok_submitted: "submitted m m' \<Longrightarrow> dialog_ok m \<Longrightarrow> dialog_ok m'"
  by (auto simp: submitted_def dialog_ok_def vault_modal_close_def passphrase_field_count_def split: unlock_mode.splits if_splits)

lemma dialog_ok_submit: "dialog_ok (w_vault_modal w) \<Longrightarrow> dialog_ok (w_vault_modal (submit_vault_modal env w))"
  by (rule dialog_ok_submitted [OF submit_modal])

lemma dialog_ok_key:
  assumes "dialog_ok (w_vault_modal w)" "vmo_open (w_vault_modal w)"
  shows "dialog_ok (w_vault_modal (handle_vault_modal_key env key edit w))"
proof -
  let ?m = "w_vault_modal w"
  have count: "passphrase_field_count (?m\<lparr>vmo_selected_field := i\<rparr>) = passphrase_field_count ?m" for i
    by (simp add: passphrase_field_count_def)
  have focus: "dialog_ok (?m\<lparr>vmo_selected_field := i mod passphrase_field_count ?m\<rparr>)" if "0 < passphrase_field_count ?m" for i
    using assms that by (simp add: dialog_ok_def count)
  have field: "dialog_ok (w_vault_modal (handle_vault_modal_text_input edit w))"
  proof (cases "passphrase_field_count ?m = 0")
    case False
    let ?f = "min (vmo_selected_field ?m) (passphrase_field_count ?m - 1)"
    have "dialog_ok (edit_modal_field ?f edit (?m\<lparr>vmo_selected_field := ?f\<rparr>))"
      by (rule dialog_ok_edit) (use assms False in \<open>auto simp: dialog_ok_def count\<close>)
    with False show ?thesis by (simp add: handle_vault_modal_text_input_def Let_def)
  qed (use assms in \<open>simp add: handle_vault_modal_text_input_def Let_def\<close>)
  show ?thesis
    using assms focus field dialog_ok_submit [OF assms(1)]
    by (simp add: handle_vault_modal_key_def Let_def focus_vault_modal_field_def)
qed

lemma row_modal [simp]:
  "w_vault_modal (open_managed_vault env i w) = w_vault_modal w"
  "w_vault_modal (close_managed_vault env i w) = w_vault_modal w"
  "w_vault_modal (lock_named_vault env i w) = w_vault_modal w"
  "w_vault_modal (set_default_vault env i w) = w_vault_modal w"
  by (auto simp: open_managed_vault_def close_managed_vault_def lock_named_vault_def set_default_vault_def
      dest: call_modal split: prod.split sum.split)

lemma dialog_ok_lock: "dialog_ok (w_vault_modal (lock_all_vaults env w))"
  by (simp add: lock_all_vaults_def Let_def dialog_ok_def vault_modal_open_def)

lemma dialog_ok_focus:
  "dialog_ok m \<Longrightarrow> i < passphrase_field_count m \<Longrightarrow> dialog_ok (m\<lparr>vmo_selected_field := i\<rparr>)"
  "dialog_ok m \<Longrightarrow> dialog_ok (m\<lparr>vmo_unlock_method := method, vmo_selected_field := 0\<rparr>)"
  "dialog_ok m \<Longrightarrow> vmo_mode m = ModeUnlock \<Longrightarrow> dialog_ok (m\<lparr>vmo_unlock_method := method\<rparr>)"
  by (auto simp: dialog_ok_def passphrase_field_count_def split: if_splits)

lemma dialog_ok_step:
  assumes "dialog_ok (w_vault_modal w)"
  shows "dialog_ok (w_vault_modal (vault_step env a w))"
proof (cases a)
  case (RowAction i)
  with assms show ?thesis
    by (simp add: vault_row_action_def begin_unlock_vault_def dialog_ok_open_for split: option.split)
next
  case RevealSecret
  have "passphrase_field_count (m\<lparr>vmo_reveal_secret := b\<rparr>) = passphrase_field_count m" for m b
    by (simp add: passphrase_field_count_def)
  with assms RevealSecret show ?thesis by (simp add: dialog_ok_def)
qed (use assms in \<open>simp_all add: dialog_ok_open_for dialog_ok_key dialog_ok_submit dialog_ok_lock dialog_ok_focus focus_vault_modal_field_def\<close>)

interpretation dialog: machine "vault_step env" "\<lambda>_. True" "\<lambda>w. dialog_ok (w_vault_modal w)" for env :: "'d ui_env"
  by unfold_locales (rule dialog_ok_step)

section \<open>Locking every vault\<close>

definition locked_state :: "'d managed_vault_state \<Rightarrow> 'd managed_vault_state" where
  "locked_state st = st\<lparr>mv_store := map_option (\<lambda>s. s\<lparr>s_master_key := None, s_last_unlock_method := None\<rparr>) (mv_store st)\<rparr>"

lemma locked_state_simps [simp]:
  "\<not> is_unlocked (locked_state st)" "locked_state (locked_state st) = locked_state st" "mv_entry (locked_state st) = mv_entry st"
  by (auto simp: locked_state_def is_unlocked_def status_def Let_def option.map_comp o_def split: option.split)

lemma lock_vault_get:
  "hm_get (k_vaults (snd (lock_vault i k))) j =
     (if j = i then map_option locked_state (hm_get (k_vaults k) i) else hm_get (k_vaults k) j)"
  by (auto simp: lock_vault_def store_with_def and_then_def lock_def modify_def set_state_def drop_index_def locked_state_def
      map_err_def Let_def split: option.split)

lemma lock_vault_ok: "hm_ok (k_vaults k) \<Longrightarrow> hm_ok (k_vaults (snd (lock_vault i k)))"
  by (auto simp: lock_vault_def store_with_def and_then_def lock_def modify_def set_state_def drop_index_def
      map_err_def Let_def split: option.split)

lemma lock_ids_get:
  "hm_get (k_vaults (lock_ids ids k)) j =
     (if j \<in> set ids then map_option locked_state (hm_get (k_vaults k) j) else hm_get (k_vaults k) j)"
  by (induction ids arbitrary: k) (auto simp: lock_ids_def lock_vault_get option.map_comp o_def)

lemma lock_ids_ok: "hm_ok (k_vaults k) \<Longrightarrow> hm_ok (k_vaults (lock_ids ids k))"
  by (induction ids arbitrary: k) (simp_all add: lock_ids_def lock_vault_ok)

lemma over_unlocked_none:
  assumes "\<forall>e\<in>set (k_vaults k). \<not> is_unlocked (snd e)"
  shows "over_unlocked lister wrap k = Inr []"
  unfolding over_unlocked_def
  by (subst try_map_all_Inr [where g = "\<lambda>_. []"])
    (use assms in \<open>auto simp: is_unlocked_def and_then_r_def split: option.splits\<close>)

lemma lists_locked:
  assumes "\<forall>e\<in>set (k_vaults k). \<not> is_unlocked (snd e)"
  shows "list_hosts c k = Inr []" "list_password_credentials_all c k = Inr []" "list_private_keys_all c k = Inr []"
    "list_port_forwards_all c k = Inr []" "\<forall>v\<in>set (list_vaults c k). \<not> ms_unlocked v"
  using assms
  by (auto simp: list_hosts_def list_password_credentials_all_def list_private_keys_all_def list_port_forwards_all_def
      over_unlocked_none list_vaults_def summary_def Let_def is_unlocked_def split: option.splits)

lemma summary_sel [simp]:
  "ms_vault_id (summary c st k) = ve_id (mv_entry st)" "ms_unlocked (summary c st k) = is_unlocked st"
  by (simp_all add: summary_def Let_def is_unlocked_def split: option.split)

text \<open>Locking the vaults that the list shows as unlocked leaves none unlocked.\<close>

lemma locked_by_list:
  assumes "\<And>i st. hm_get (k_vaults k) i = Some st \<Longrightarrow> ve_id (mv_entry st) = i"
    and "hm_get (k_vaults (lock_ids (map ms_vault_id (filter ms_unlocked (list_vaults c k))) k)) i = Some st"
  shows "\<not> is_unlocked st"
proof (cases "\<exists>st0. hm_get (k_vaults k) i = Some st0 \<and> is_unlocked st0")
  case True
  then obtain st0 where st0: "hm_get (k_vaults k) i = Some st0" "is_unlocked st0" by blast
  then have "(i, st0) \<in> set (k_vaults k)" by (simp add: map_of_SomeD)
  then have "i \<in> set (map ms_vault_id (filter ms_unlocked (list_vaults c k)))"
    using st0 assms(1) [OF st0(1)] by (force simp: list_vaults_def image_iff)
  with assms(2) show ?thesis by (auto simp: lock_ids_get)
next
  case False
  with assms(2) show ?thesis by (auto simp: lock_ids_get split: if_splits)
qed

section \<open>What the user gets\<close>

text \<open>C17. Submitting the dialog that creates a vault, or the one that unlocks
  a vault by its passphrase, changes nothing but the dialog's error, whatever was typed: the dialog is marked busy
  first, and a busy dialog is never ready to be submitted.\<close>

theorem vault_dialog_cannot_create_or_unlock:
  fixes w :: "('s, 'd) workspace"
  defines "m \<equiv> w_vault_modal w"
  assumes "vmo_mode m = ModeCreate \<or> vmo_mode m = ModeUnlock \<and> vmo_unlock_method m = UnlockPassphrase"
  shows "submit_vault_modal env w =
    w\<lparr>w_vault_modal := m\<lparr>vmo_busy := False, vmo_error := Some (if vmo_mode m = ModeCreate
      then ''Choose a vault name and a non-empty matching recovery passphrase.''
      else ''Enter the recovery passphrase to unlock the vault.'')\<rparr>\<rparr>"
  using assms
  by (auto simp: submit_vault_modal_def Let_def submit_create_def submit_passphrase_def busy_can_submit modal_error_def on_modal_def)

theorem vault_dialog_cannot_create_or_unlock_witness:
  "let w = (demo_workspace None)\<lparr>w_vault_modal := (vault_modal_new False False False None)
       \<lparr>vmo_vault_name := ''work'', vmo_passphrase := ''secret'', vmo_confirm_passphrase := ''secret''\<rparr>\<rparr>
   in can_submit (w_vault_modal w)
      \<and> submit_vault_modal demo_ui_env w = w\<lparr>w_vault_modal := (w_vault_modal w)
          \<lparr>vmo_error := Some ''Choose a vault name and a non-empty matching recovery passphrase.''\<rparr>\<rparr>"
proof -
  let ?w = "(demo_workspace None)\<lparr>w_vault_modal := (vault_modal_new False False False None)
       \<lparr>vmo_vault_name := ''work'', vmo_passphrase := ''secret'', vmo_confirm_passphrase := ''secret''\<rparr>\<rparr>"
  have m: "vmo_mode (w_vault_modal ?w) = ModeCreate" by (simp add: vault_modal_new_def)
  have "trim ''work'' = ''work''" "trim ''secret'' = ''secret''" by (rule trim_visible; simp)+
  then have "can_submit (w_vault_modal ?w)" by (simp add: can_submit_def vault_modal_new_def)
  then show ?thesis
    using vault_dialog_cannot_create_or_unlock [of ?w demo_ui_env] by (simp add: m vault_modal_new_def)
qed

text \<open>C18. Whatever the user does in the dialog and in the vault list, a closed
  dialog holds no passphrase, no submission is left marked as under way, and the selected field is one of the
  dialog's fields.\<close>

theorem closed_dialog_forgets_passphrase:
  fixes w :: "('s, 'd) workspace" and env :: "'d ui_env" and ops :: "vault_op list"
  assumes "w_vault_modal w = vault_modal_new initialized unlocked device message"
  defines "m \<equiv> w_vault_modal (fold (vault_step env) ops w)"
  shows "(\<not> vmo_open m \<longrightarrow> vmo_passphrase m = [] \<and> vmo_confirm_passphrase m = []) \<and> \<not> vmo_busy m
    \<and> vmo_selected_field m < max 1 (passphrase_field_count m)"
proof -
  have "dialog_ok (w_vault_modal w)" using assms(1) by (simp add: dialog_ok_def vault_modal_new_def)
  then have "dialog_ok m" unfolding m_def by (rule dialog.inv_run) (simp add: list.pred_True)
  then show ?thesis by (auto simp: dialog_ok_def)
qed

theorem closed_dialog_forgets_passphrase_witness:
  "let w = (demo_workspace None)\<lparr>w_vault_modal := vault_modal_new False False False None\<rparr>;
       typed = [DialogKey ''tab'' id, DialogKey ''s'' (\<lambda>t. t @ ''s'')];
       m = w_vault_modal (fold (vault_step demo_ui_env) typed w);
       m' = w_vault_modal (fold (vault_step demo_ui_env) (typed @ [OpenDialog None ModeUnlock UserAction [], CloseButton]) w)
   in vmo_passphrase m = ''s'' \<and> vmo_selected_field m = 1 \<and> \<not> vmo_open m' \<and> vmo_passphrase m' = []"
proof -
  define w where "w = (demo_workspace None)\<lparr>w_vault_modal := vault_modal_new False False False None\<rparr>"
  let ?typed = "[DialogKey ''tab'' id, DialogKey ''s'' (\<lambda>t. t @ ''s'')]"
  let ?ops = "?typed @ [OpenDialog None ModeUnlock UserAction [], CloseButton]"
  have w: "w_vault_modal w = vault_modal_new False False False None" by (simp add: w_def)
  have typed: "vmo_passphrase (w_vault_modal (fold (vault_step demo_ui_env) ?typed w)) = ''s''
      \<and> vmo_selected_field (w_vault_modal (fold (vault_step demo_ui_env) ?typed w)) = 1"
    by (simp add: w vault_modal_new_def handle_vault_modal_key_def Let_def passphrase_field_count_def
        focus_vault_modal_field_def handle_vault_modal_text_input_def edit_modal_field_def)
  have closed: "\<not> vmo_open (w_vault_modal (fold (vault_step demo_ui_env) ?ops w))"
    by (simp add: open_vault_modal_for_def Let_def vault_modal_open_def vault_modal_can_close_def vault_modal_close_def
        del: vault_step.simps(2) split: option.split)
  from closed typed closed_dialog_forgets_passphrase [of w False False False None demo_ui_env ?ops, OF w]
  show ?thesis unfolding Let_def w_def [symmetric] by blast
qed

text \<open>C16. Locking from the menu locks every vault, when the workspace's list of vaults is
  the controller's: no vault is left unlocked, the window keeps no host, credential, key or tunnel that it had listed,
  every form of a vault's record is closed, and the dialog asks for the passphrase.\<close>

theorem locking_clears_records:
  fixes w :: "('s, 'd) workspace" and env :: "'d ui_env"
  assumes "hm_ok (k_vaults (w_backend w))"
    and "\<And>i st. hm_get (k_vaults (w_backend w)) i = Some st \<Longrightarrow> ve_id (mv_entry st) = i"
    and "w_managed_vaults w = list_vaults (ue_core env) (w_backend w)"
  defines "w' \<equiv> lock_all_vaults env w"
  shows "(\<forall>i st. hm_get (k_vaults (w_backend w')) i = Some st \<longrightarrow> \<not> is_unlocked st)
    \<and> (\<forall>v. \<not> has_unlocked_vault v w')
    \<and> w_saved_hosts w' = [] \<and> w_cached_credentials w' = [] \<and> w_cached_keys w' = [] \<and> w_cached_port_forwards w' = []
    \<and> (\<forall>d. sx_host_draft (w_secure w') = Some d \<longrightarrow> hf_vault_id d = None)
    \<and> (\<forall>d. sx_tunnel_draft (w_secure w') = Some d \<longrightarrow> tn_vault_id d = None)
    \<and> (\<forall>d. sx_credential_draft (w_secure w') = Some d \<longrightarrow> cf_vault_id d = None)
    \<and> vmo_open (w_vault_modal w') \<and> vmo_mode (w_vault_modal w') = ModeUnlock \<and> vmo_passphrase (w_vault_modal w') = []"
proof -
  define k where "k = lock_ids (map ms_vault_id (filter ms_unlocked (w_managed_vaults w))) (w_backend w)"
  define w1 where "w1 = refresh_vault_ui env (w\<lparr>w_backend := k\<rparr>)"
  have locked: "\<not> is_unlocked st" if "hm_get (k_vaults k) i = Some st" for i st
    using locked_by_list [OF assms(2)] that unfolding k_def assms(3) by blast
  have "hm_ok (k_vaults k)" using assms(1) by (simp add: k_def lock_ids_ok)
  with locked have none: "\<forall>e\<in>set (k_vaults k). \<not> is_unlocked (snd e)" by (metis hm_get_mem prod.collapse)
  note s = apply_vault_snapshot_secure [of env "current_vault_ui_snapshot env (w\<lparr>w_backend := k\<rparr>)" "w\<lparr>w_backend := k\<rparr>",
      folded refresh_vault_ui_def, folded w1_def]
  have listed: "listed w1 = (list_vaults (ue_core env) k, [], [], [], [])"
    using s(1) by (simp add: current_vault_ui_snapshot_def Let_def lists_locked [OF none] unwrap_list_def)
  then have locked1: "\<not> has_unlocked_vault v w1" for v
    using lists_locked(5) [OF none] by (auto simp: listed_def has_unlocked_vault_def list_ex_iff)
  have w': "listed w' = listed w1" "w_secure w' = w_secure w1" "w_backend w' = w_backend w1"
    by (simp_all add: w'_def lock_all_vaults_def Let_def w1_def k_def listed_def on_modal_def)
  have "w_backend w1 = k" by (simp add: w1_def)
  moreover have "\<not> has_unlocked_vault v w'" for v using locked1 exists_listed(1) [OF w'(1)] by simp
  moreover have "w_vault_modal w' = vault_modal_open ModeUnlock UserAction ''Vault locked. Decrypted records were cleared from memory.'' (w_vault_modal w)"
    by (simp add: w'_def lock_all_vaults_def Let_def)
  ultimately show ?thesis
    using locked listed s(2-4) w' locked1
    by (auto simp: listed_def vault_modal_open_def bind_eq_Some_conv fit_host_def fit_tunnel_def fit_credential_def fit_def
        split: option.splits)
qed

theorem locking_clears_records_witness:
  "let w = (demo_workspace None)\<lparr>w_managed_vaults := list_vaults (ue_core demo_ui_env) demo_one\<rparr>
   in (\<exists>st. hm_get (k_vaults (w_backend w)) ''1'' = Some st \<and> is_unlocked st)
      \<and> \<not> (\<exists>i st. hm_get (k_vaults (w_backend (lock_all_vaults demo_ui_env w))) i = Some st \<and> is_unlocked st)"
proof -
  define w where "w = (demo_workspace None)\<lparr>w_managed_vaults := list_vaults (ue_core demo_ui_env) demo_one\<rparr>"
  have k: "w_backend w = demo_one" and l: "w_managed_vaults w = list_vaults (ue_core demo_ui_env) (w_backend w)"
    by (simp_all add: w_def demo_workspace_def)
  have ok: "hm_ok (k_vaults (w_backend w))" by (simp add: k demo_one_def hm_ok_def)
  have ids: "ve_id (mv_entry st) = i" if "hm_get (k_vaults (w_backend w)) i = Some st" for i st
    using that by (auto simp: k demo_one_def demo_entry_def split: if_splits)
  have "\<exists>st. hm_get (k_vaults (w_backend w)) ''1'' = Some st \<and> is_unlocked st"
    by (simp add: k demo_one_def is_unlocked_def demo_unlocked)
  with locking_clears_records [OF ok ids l] show ?thesis unfolding w_def [symmetric] Let_def by blast
qed

end
