(* ===== verification/Spec2Isabelle.thy ===== *)
theory Spec2Isabelle
  imports Core_Records Core_Transcripts Terminal_Turns Ui_Frame_Pacer Ui_Text_Input Ui_Connect Ui_Vaults
begin

text \<open>
  \<^bold>\<open>A verification development for Seance.\<close>

  Seance is a terminal and SSH client with an encrypted vault for hosts, credentials, private keys
  and port forwards. Its Rust workspace (src/crates) has a vault crate, a configuration crate, a core
  crate whose controller owns the open vaults, sessions and windows, a terminal crate, an SSH crate,
  a user interface and some smaller crates. The controller keeps the registry of vaults both in
  memory and in the configuration, opens one vault store per registered vault, builds the requests
  of the SSH crate from the records of a vault, and keeps an index of which hosts use which key.

  \<^bold>\<open>Conventions.\<close> Records and datatypes follow the structs and enums of the sources, with a prefix per
  record. A method that takes \<open>&self\<close> is a function of the state; one that takes \<open>&mut self\<close> and
  returns a \<open>Result\<close> is a program \<open>'s \<Rightarrow> ('e + 'a) \<times> 's\<close> (Prelude: \<open>and_then\<close> is the question-mark
  operator, and the state keeps the changes made before an error). \<open>HashMap\<close> is an association list
  whose order is the unspecified iteration order (Rust\_Maps). Machine integers are words where they
  are computed with (logical clocks, access counters, turn identifiers, reason sets, byte counters).
  Strings are their UTF-8 bytes, and code points where characters are popped, cut and compared
  (Rust\_Unicode: the turn tracker, the text fields, the palette's matcher).

  \<^bold>\<open>What is a parameter.\<close> Code outside the repository is an argument: the AEAD cipher, the Argon2
  derivation, random bytes, identifiers and the clock (as functions of a counter of draws), serde's
  JSON and TOML, the parser and generator of SSH keys, the key ring of the operating system, the
  file system (as the outcome of each write), the start of a shell, the SSH library and the network
  (an oracle that answers each call), semantic versions, Unicode lower-casing, and the rounding
  operations on floating-point numbers. The laws relied on are named: \<open>aead_correct\<close> (what
  was encrypted decrypts under the same key and associated data), \<open>draws_sized\<close> (generators return
  as many bytes as asked), codecs that read back what they print. Vault\_Demo gives a concrete
  environment in which they all hold; the witnesses run in it.

  \<^bold>\<open>State machines\<close> (Machines). Components are run as machines over their operations, under the
  contracts of three locales: \<open>machine\<close> (an invariant), \<open>simulation\<close> (a specification run in step) and
  \<open>responsive\<close> (a pending request is served after a bounded number of ticks). They are interpreted for
  the vault's operations, the configuration store, the authentication index against a map of hosts,
  the controller's registry, the turn tracker, the frame pacer, the running tunnels, the text field
  against an editor with a split text, the transcript writer against a bounded log, the update manager,
  the secure workspace and the vault dialog; the properties over arbitrary sequences of operations rest on these interpretations.
  Threads and tasks are part of the state, and an event runs one of them for one atomic step, so
  that a sequence of events is an interleaving.

  \<^bold>\<open>The vault\<close> (src/crates/seance-vault).
  \<^item> Vault\_Model: model.rs, kdf.rs (data). Vault\_Crypto: crypto.rs, kdf.rs, associated data and key
    inspection of lib.rs. Vault\_Storage: storage.rs, the SQLite tables as lists of rows, one
    definition per statement; the tables are instances of the locale \<open>keyed_table\<close>.
  \<^item> Vault\_Store: opening, status, creation, unlocking, rotation, locking and device enrolment of
    lib.rs, and the store invariant. Vault\_Records: the record operations with their validation.
    Vault\_Sync: snapshots, deltas, the precedence of records.
  \<^item> Vault\_Unlock, Vault\_Collections, Vault\_Integrity: lemmas on recovery of the key, on the record
    collections (the locale \<open>record_collection\<close>, interpreted for hosts, credentials, keys and port
    forwards) and on references. Vault\_Machine: the vault as a state machine over all its methods
    and restarts of the program.
  \<^item> Vault\_Theorems: the invariant of every state reachable without a delta that carries a clock of
    2^63 or more (no vault exports one, and what one does is proved apart); the passphrase keeps opening
    the vault, also through rotation; collections refine finite maps; references never dangle; a
    locked vault gives nothing away; two replicas converge on every record that either of them
    exports, deltas are merged by precedence, idempotently, and refused for exactly the stated reasons, with
    the stated errors and an unchanged store; snapshots bootstrap a replica; device unlock works when it is
    offered.

  \<^bold>\<open>The configuration\<close> (src/crates/seance-config). Config\_Keybindings (keybindings.rs): the
  syntax of chords against a declarative one, and the migration of legacy bindings. Config (model.rs,
  defaults.rs, validation.rs, storage.rs): validation accepts exactly the configurations
  described, updates are all or nothing, a restart loads the configuration the program had, defaults are valid.

  \<^bold>\<open>The core\<close> (src/crates/seance-core).
  \<^item> Core\_Sessions: the registries of sessions and windows.
  \<^item> Core\_Auth\_Index: the index of authentication references refines the relation between
    hosts and what they use.
  \<^item> Core\_Tunnels (tunnels.rs): every saved host and port forward gives a request.
  \<^item> Core\_Controller: the controller's state, its start, the registry operations and the methods of
    its handle. Core\_Registry and Core\_Theorems: the registry in memory mirrors the
    configuration as long as it can be written and no rename gives a name that only the configuration's
    lower-casing identifies with another vault's (\<open>rename_safe\<close>), one call that breaks this after
    such a rename was refused, the vault an action without a vault goes to, deletion, the rebuilt index.
  \<^item> Core\_Records: listing over all unlocked vaults and the import of private keys, after which the
    vault holds exactly the keys of the imported files in addition to what it held.
  \<^item> Core\_Transcripts (session\_logs.rs, with history.rs of the terminal crate): the transcript of a
    session is the longest prefix of its events that fits the configured limit.

  \<^bold>\<open>The terminal\<close> (src/crates/seance-terminal). Terminal\_Turns (turns.rs): commands and their
  output are captured in bounded memory without ever cutting a character, and a turn shows the edited
  line and the printed text, for streams of plain bytes and the escape sequences of the standard; the
  payload of control strings is shown as well, which is proved for a window title.

  \<^bold>\<open>SSH\<close> (src/crates/seance-ssh). Ssh\_Tunnels (tunnel.rs and the forwarding methods of manager.rs): a
  forward has at most one task that is not stopping, and what is shown agrees with the tasks when a
  forward is not restarted before its last task ended; the race that breaks this otherwise is proved,
  too. Ssh\_Connect (auth.rs and the connection methods of manager.rs): the methods are tried in
  order, and a connection is made completely or leaves nothing behind.

  \<^bold>\<open>The user interface\<close> (src/crates/seance-ui).
  \<^item> Ui\_Frame\_Pacer (frame\_pacer.rs and the marks of perf.rs): at most one refresh per frame, and
    every requested repaint is shown within three frames.
  \<^item> Ui\_Text\_Input (text\_input.rs): a text field behaves as an editor whose text is split at the
    cursor and the selection, and never cuts a character.
  \<^item> Ui\_Palette (palette.rs, the theme identifiers of theme.rs, scope keys and selection of
    workspace.rs): the fuzzy matcher finds exactly the subsequences, the offers follow the state of
    the vault and the tunnels, rows and items are inverse (the locale \<open>row_table\<close>), paging progresses.
  \<^item> Ui\_Connect (connect.rs and the connection methods of sessions.rs): a host has at most one pending
    attempt, and a cancelled attempt never becomes a session.
  \<^item> Ui\_Forms (forms.rs and the profiles built when a form is saved): the drafts of hosts, tunnels and
    credentials with their checks, the vault dialog and the confirmation dialogs. What a form lets the
    user save, the vault takes, with two exceptions: port 0 of a tunnel, and a host whose authentication
    methods name a record that the vault does not have; a saved record opens as a form that stands for
    the same record.
  \<^item> Ui\_Workspace (workspace.rs, vault.rs, hosts.rs): the state of the workspace, the search lists, and the
    snapshots of the vaults. A snapshot closes the forms of vaults that are no longer unlocked, turns
    those whose record is gone into unsaved copies, leaves every other form as it is, and leaves no
    selection or search result that refers to a record that is gone.
  \<^item> Ui\_Secure (secure/mod.rs, secure/host\_wizard.rs, secure/import\_keys.rs, tunnels.rs and the keyboard
    handlers of workspace.rs): the operations of the secure workspace as a machine, with snapshots and
    changes by other windows in between. Ui\_Unsaved: its invariant, and what becomes of unsaved edits;
    the actions that drop them without asking are listed, and proved for one of them. What a text
    field makes of a key is an argument of the key handler here, with the contract that a field that
    reports no change has not changed its text.
  \<^item> Ui\_Vaults (the dialog's methods of workspace.rs and the list of vault.rs): locking clears every
    record, form and key from the window; a closed dialog holds no passphrase; and, as the code is,
    neither creating a vault nor unlocking one by its passphrase gets past the dialog.

  \<^bold>\<open>The updater\<close> (src/crates/seance-updater). Updater (lib.rs): the manager and its threads over the
  contract of a backend (the locale \<open>update_backend\<close>, interpreted for the AppImage, the Sparkle and the
  unsupported backend): only newer releases are offered, the update tool is run only for such an offer,
  a relaunch is asked for only after a run that reported success, and the manager always settles; a race
  of two publications after which a subscriber is wrong for good. Which release a tool installs is up to
  the tool, and on macOS its success only means that Sparkle has started.

  \<^bold>\<open>Loops.\<close> Every loop of the modelled code is a structurally recursive function or one with a
  termination proof; no fuel is used.

  \<^bold>\<open>Simplifications.\<close> An I/O failure of a single SQL statement is not modelled: opening the database is
  the only step of the storage that can fail for reasons outside of the data. The score of the palette's
  matcher is an integer instead of an \<open>i32\<close>. Starting a port forward is one step, as its callers hold the
  controller's lock. Requests to draw again are left out.

  \<^bold>\<open>Not modelled.\<close> The channels that announce vault changes and the controller methods that only pass
  a call on to SSH or SFTP; the SSH session loop, the SFTP operations and the proxy (asynchronous
  network code over a third-party library); the local pty, the terminal emulator binding and the
  renderer; the drawing code, the settings pages, the SFTP browser, the commands for live tunnels and
  the mouse handling of the terminal in the user interface; the build tool, platform bindings, tracing
  set-up and command line; the key ring implementations; the sync protocol, which is message types
  only; the synchronisation service, which is written in TypeScript. The next parts worth modelling are
  the input encoding, links and viewport of the terminal, and the scrolling of the workspace.
\<close>

end
